(* ===== verification/Prelude.thy ===== *)
theory Prelude
  imports Main "HOL-Library.Word" "HOL-Library.Signed_Division"
begin

text \<open>
  Shared vocabulary of the development: the machine types of the C sources, checked access to
  fixed-size arrays, and the little- and big-endian codecs that several source files carry as
  static helpers.
\<close>

unbundle bit_operations_syntax

section \<open>Machine types\<close>

type_synonym u8 = "8 word"
type_synonym u16 = "16 word"
type_synonym u32 = "32 word"
type_synonym u64 = "64 word"

text \<open>A C array or string is the list of its cells; a byte string carries its terminator only
  where a theory says so.\<close>

type_synonym bytes = "u8 list"

text \<open>
  \<open>arr\<close> collects the rules that decide checked array accesses, \<open>codec\<close> the rules that decode
  what was encoded.
\<close>

named_theorems arr and codec

section \<open>Unsigned 16- and 32-bit counters held as naturals\<close>

text \<open>
  Array indices and sizes are \<open>nat\<close>; where the source adds or subtracts them at a fixed width the
  wrap-around is written out with these.
\<close>

definition add32 :: "nat \<Rightarrow> nat \<Rightarrow> nat" where
  "add32 a b = (a + b) mod 4294967296"

definition sub32 :: "nat \<Rightarrow> nat \<Rightarrow> nat" where
  "sub32 a b = (a + (4294967296 - b mod 4294967296)) mod 4294967296"

definition add16 :: "nat \<Rightarrow> nat \<Rightarrow> nat" where
  "add16 a b = (a + b) mod 65536"

lemma add32_exact [simp]: "a + b < 4294967296 \<Longrightarrow> add32 a b = a + b"
  by (simp add: add32_def)

lemma add32_bound: "add32 a b < 4294967296"
  by (simp add: add32_def)

lemma sub32_exact [simp]: "b \<le> a \<Longrightarrow> a < 4294967296 \<Longrightarrow> sub32 a b = a - b"
  by (simp add: sub32_def mod_if)

lemma add16_exact [simp]: "a + b < 65536 \<Longrightarrow> add16 a b = a + b"
  by (simp add: add16_def)

lemma unat_bounds:
  "unat (a :: u8) < 256" "unat (b :: u16) < 65536" "unat (c :: u32) < 4294967296"
proof -
  have "unat w < 2 ^ LENGTH('a)" for w :: "'a::len word" by (rule unsigned_less)
  from this [of a] this [of b] this [of c]
  show "unat a < 256" "unat b < 65536" "unat c < 4294967296" by simp_all
qed

text \<open>A property of every byte, by running through all of them.\<close>

lemma byte_all:
  assumes "list_all (\<lambda>n. P (of_nat n :: u8)) [0..<256]"
  shows "P b"
proof -
  have "unat b \<in> set [0..<256]" using unat_bounds(1) [of b] by simp
  with assms have "P (of_nat (unat b))" unfolding list_all_iff by (rule bspec)
  then show ?thesis by simp
qed

section \<open>Checked arrays\<close>

text \<open>
  C leaves an access outside an array undefined. The accessors return \<open>None\<close> there, so that a
  theorem that a result is not \<open>None\<close> is a memory-safety theorem.
\<close>

definition rd :: "'a list \<Rightarrow> nat \<Rightarrow> 'a option" where
  "rd xs i = (if i < length xs then Some (xs ! i) else None)"

definition wr :: "'a list \<Rightarrow> nat \<Rightarrow> 'a \<Rightarrow> 'a list option" where
  "wr xs i x = (if i < length xs then Some (xs[i := x]) else None)"

text \<open>\<open>chunk xs off n\<close> is the region of \<open>n\<close> cells from \<open>off\<close>; \<open>blit\<close> overwrites such a region.\<close>

definition chunk :: "'a list \<Rightarrow> nat \<Rightarrow> nat \<Rightarrow> 'a list option" where
  "chunk xs off n = (if off + n \<le> length xs then Some (take n (drop off xs)) else None)"

definition blit :: "'a list \<Rightarrow> nat \<Rightarrow> 'a list \<Rightarrow> 'a list option" where
  "blit xs off ys =
     (if off + length ys \<le> length xs
      then Some (take off xs @ ys @ drop (off + length ys) xs) else None)"

lemma rd_in [arr]: "i < length xs \<Longrightarrow> rd xs i = Some (xs ! i)"
  by (simp add: rd_def)

lemma rd_None [simp]: "rd xs i = None \<longleftrightarrow> length xs \<le> i"
  by (simp add: rd_def)

lemma rd_SomeD: "rd xs i = Some x \<Longrightarrow> i < length xs \<and> x = xs ! i"
  by (auto simp: rd_def split: if_splits)

lemma wr_in [arr]: "i < length xs \<Longrightarrow> wr xs i x = Some (xs[i := x])"
  by (simp add: wr_def)

lemma wr_None [simp]: "wr xs i x = None \<longleftrightarrow> length xs \<le> i"
  by (simp add: wr_def)

lemma wr_SomeD: "wr xs i x = Some ys \<Longrightarrow> i < length xs \<and> ys = xs[i := x]"
  by (auto simp: wr_def split: if_splits)

lemma chunk_in [arr]: "off + n \<le> length xs \<Longrightarrow> chunk xs off n = Some (take n (drop off xs))"
  by (simp add: chunk_def)

lemma chunk_None [simp]: "chunk xs off n = None \<longleftrightarrow> length xs < off + n"
  by (auto simp: chunk_def)

lemma chunk_length: "chunk xs off n = Some ys \<Longrightarrow> length ys = n"
  by (auto simp: chunk_def split: if_splits)

lemma blit_in [arr]:
  "off + length ys \<le> length xs \<Longrightarrow>
   blit xs off ys = Some (take off xs @ ys @ drop (off + length ys) xs)"
  by (simp add: blit_def)

lemma blit_None [simp]: "blit xs off ys = None \<longleftrightarrow> length xs < off + length ys"
  by (auto simp: blit_def)

lemma blit_length: "blit xs off ys = Some zs \<Longrightarrow> length zs = length xs"
  by (auto simp: blit_def split: if_splits)

lemma chunk_blit_same:
  assumes "blit xs off ys = Some zs"
  shows "chunk zs off (length ys) = Some ys"
proof -
  have "off + length ys \<le> length xs" "zs = take off xs @ ys @ drop (off + length ys) xs"
    using assms by (auto simp: blit_def split: if_splits)
  then show ?thesis by (simp add: chunk_def)
qed

lemma chunk_blit_other:
  assumes b: "blit xs off ys = Some zs"
    and d: "o' + n \<le> off \<or> off + length ys \<le> o'"
  shows "chunk zs o' n = chunk xs o' n"
proof -
  have le: "off + length ys \<le> length xs" and zs: "zs = take off xs @ ys @ drop (off + length ys) xs"
    using b by (auto simp: blit_def split: if_splits)
  have len: "length zs = length xs" using b by (rule blit_length)
  have "take n (drop o' zs) = take n (drop o' xs)" if "o' + n \<le> length xs"
  proof (rule nth_equalityI)
    show "length (take n (drop o' zs)) = length (take n (drop o' xs))" using len by simp
    fix i assume "i < length (take n (drop o' zs))"
    then have i: "i < n" "o' + i < length zs" by auto
    then show "take n (drop o' zs) ! i = take n (drop o' xs) ! i"
      using d le len by (auto simp: zs nth_append)
  qed
  then show ?thesis by (auto simp: chunk_def len)
qed

section \<open>Loops over a known range\<close>

text \<open>\<open>for (x in xs) s = f x s\<close>, left by the first undefined access.\<close>

primrec for_each :: "('a \<Rightarrow> 's \<Rightarrow> 's option) \<Rightarrow> 'a list \<Rightarrow> 's \<Rightarrow> 's option" where
  "for_each f [] s = Some s"
| "for_each f (x # xs) s = (case f x s of None \<Rightarrow> None | Some s' \<Rightarrow> for_each f xs s')"

lemma for_each_append:
  "for_each f (xs @ ys) s = (case for_each f xs s of None \<Rightarrow> None | Some s' \<Rightarrow> for_each f ys s')"
  by (induction xs arbitrary: s) (simp_all split: option.splits)

text \<open>The loop rule: an invariant that may mention how many turns are done.\<close>

lemma for_each_invariant:
  assumes "P 0 s"
    and "\<And>i s. i < length xs \<Longrightarrow> P i s \<Longrightarrow> \<exists>s'. f (xs ! i) s = Some s' \<and> P (Suc i) s'"
  shows "\<exists>s'. for_each f xs s = Some s' \<and> P (length xs) s'"
  using assms
proof (induction xs arbitrary: P s)
  case (Cons x xs)
  from Cons.prems(2) [of 0] Cons.prems(1) obtain s1 where s1: "f x s = Some s1" "P 1 s1" by auto
  have "\<exists>s'. for_each f xs s1 = Some s' \<and> P (Suc (length xs)) s'"
  proof (rule Cons.IH [of "\<lambda>i. P (Suc i)"])
    show "P (Suc 0) s1" using s1(2) by simp
    fix i s assume "i < length xs" "P (Suc i) s"
    then show "\<exists>s'. f (xs ! i) s = Some s' \<and> P (Suc (Suc i)) s'"
      using Cons.prems(2) [of "Suc i" s] by simp
  qed
  then show ?case using s1(1) by simp
qed simp

section \<open>Little- and big-endian codecs\<close>

text \<open>The helpers \<open>read_u16le\<close>, \<open>read_u32le\<close>, \<open>read_be16\<close>, \<open>read_be32\<close> and their writers.\<close>

definition u16_of_le :: "u8 \<Rightarrow> u8 \<Rightarrow> u16" where
  "u16_of_le b0 b1 = ucast b0 OR push_bit 8 (ucast b1)"

definition u32_of_le :: "u8 \<Rightarrow> u8 \<Rightarrow> u8 \<Rightarrow> u8 \<Rightarrow> u32" where
  "u32_of_le b0 b1 b2 b3 =
     ucast b0 OR push_bit 8 (ucast b1) OR push_bit 16 (ucast b2) OR push_bit 24 (ucast b3)"

definition le_of_u16 :: "u16 \<Rightarrow> bytes" where
  "le_of_u16 v = [ucast (v AND 0xFF), ucast (drop_bit 8 v AND 0xFF)]"

definition le_of_u32 :: "u32 \<Rightarrow> bytes" where
  "le_of_u32 v =
     [ucast (v AND 0xFF), ucast (drop_bit 8 v AND 0xFF), ucast (drop_bit 16 v AND 0xFF),
      ucast (drop_bit 24 v AND 0xFF)]"

definition be_of_u16 :: "u16 \<Rightarrow> bytes" where
  "be_of_u16 v = [ucast (drop_bit 8 v), ucast v]"

definition be_of_u32 :: "u32 \<Rightarrow> bytes" where
  "be_of_u32 v = [ucast (drop_bit 24 v), ucast (drop_bit 16 v), ucast (drop_bit 8 v), ucast v]"

definition read_u16le :: "bytes \<Rightarrow> nat \<Rightarrow> u16 option" where
  "read_u16le b i = (case chunk b i 2 of Some [b0, b1] \<Rightarrow> Some (u16_of_le b0 b1) | _ \<Rightarrow> None)"

definition read_u32le :: "bytes \<Rightarrow> nat \<Rightarrow> u32 option" where
  "read_u32le b i =
     (case chunk b i 4 of Some [b0, b1, b2, b3] \<Rightarrow> Some (u32_of_le b0 b1 b2 b3) | _ \<Rightarrow> None)"

definition read_be16 :: "bytes \<Rightarrow> nat \<Rightarrow> u16 option" where
  "read_be16 b i = (case chunk b i 2 of Some [b0, b1] \<Rightarrow> Some (u16_of_le b1 b0) | _ \<Rightarrow> None)"

definition read_be32 :: "bytes \<Rightarrow> nat \<Rightarrow> u32 option" where
  "read_be32 b i =
     (case chunk b i 4 of Some [b0, b1, b2, b3] \<Rightarrow> Some (u32_of_le b3 b2 b1 b0) | _ \<Rightarrow> None)"

lemma le_of_length [simp]:
  "length (le_of_u16 w) = 2" "length (le_of_u32 v) = 4"
  "length (be_of_u16 w) = 2" "length (be_of_u32 v) = 4"
  by (simp_all add: le_of_u16_def le_of_u32_def be_of_u16_def be_of_u32_def)

lemma chunk2: "i + 2 \<le> length b \<Longrightarrow> chunk b i 2 = Some [b ! i, b ! (i + 1)]"
  by (auto simp: chunk_def take_Suc_conv_app_nth numeral_2_eq_2 intro!: nth_equalityI)

lemma chunk4:
  assumes "i + 4 \<le> length b"
  shows "chunk b i 4 = Some [b ! i, b ! (i + 1), b ! (i + 2), b ! (i + 3)]"
proof -
  have "take 4 (drop i b) = [b ! i, b ! (i + 1), b ! (i + 2), b ! (i + 3)]"
    using assms by (intro nth_equalityI) (auto simp: less_Suc_eq numeral_eq_Suc)
  with assms show ?thesis by (simp add: chunk_def)
qed

lemma read_in [arr]:
  "i + 2 \<le> length b \<Longrightarrow> read_u16le b i = Some (u16_of_le (b ! i) (b ! (i + 1)))"
  "i + 4 \<le> length b \<Longrightarrow>
     read_u32le b i = Some (u32_of_le (b ! i) (b ! (i + 1)) (b ! (i + 2)) (b ! (i + 3)))"
  "i + 2 \<le> length b \<Longrightarrow> read_be16 b i = Some (u16_of_le (b ! (i + 1)) (b ! i))"
  "i + 4 \<le> length b \<Longrightarrow>
     read_be32 b i = Some (u32_of_le (b ! (i + 3)) (b ! (i + 2)) (b ! (i + 1)) (b ! i))"
  by (simp_all add: read_u16le_def read_u32le_def read_be16_def read_be32_def chunk2 chunk4)

lemma ucast_byte_mask [simp]:
  "ucast (w AND 0xFF :: u16) = (ucast w :: u8)"
  "ucast (v AND 0xFF :: u32) = (ucast v :: u8)"
proof -
  have 1: "(0xFF :: u16) = mask 8" and 2: "(0xFF :: u32) = mask 8"
    by (simp_all add: mask_eq_exp_minus_1)
  show "ucast (w AND 0xFF :: u16) = (ucast w :: u8)"
    unfolding 1 by (rule bit_word_eqI) (simp add: bit_simps)
  show "ucast (v AND 0xFF :: u32) = (ucast v :: u8)"
    unfolding 2 by (rule bit_word_eqI) (simp add: bit_simps)
qed

lemma u16_of_le_bytes [codec]: "u16_of_le (ucast v) (ucast (drop_bit 8 v)) = v"
  unfolding u16_of_le_def
  by (rule bit_word_eqI) (auto simp: bit_simps)

lemma u32_of_le_bytes [codec]:
  "u32_of_le (ucast v) (ucast (drop_bit 8 v)) (ucast (drop_bit 16 v)) (ucast (drop_bit 24 v)) = v"
proof -
  have shift: "n - 16 < 8" if "bit v n" "\<not> bit v (24 + (n - 24))" for n
  proof (rule ccontr)
    assume "\<not> n - 16 < 8"
    then have "24 + (n - 24) = n" by linarith
    with that show False by simp
  qed
  show ?thesis
    unfolding u32_of_le_def by (rule bit_word_eqI) (auto simp: bit_simps intro: shift)
qed

lemma read_u16le_written [codec]:
  "read_u16le (xs @ le_of_u16 v @ ys) (length xs) = Some v"
  by (simp add: read_u16le_def chunk_def le_of_u16_def codec)

lemma read_u32le_written [codec]:
  "read_u32le (xs @ le_of_u32 v @ ys) (length xs) = Some v"
  by (simp add: read_u32le_def chunk_def le_of_u32_def codec)

lemma read_be16_written [codec]:
  "read_be16 (xs @ be_of_u16 v @ ys) (length xs) = Some v"
  by (simp add: read_be16_def chunk_def be_of_u16_def codec)

lemma read_be32_written [codec]:
  "read_be32 (xs @ be_of_u32 v @ ys) (length xs) = Some v"
  by (simp add: read_be32_def chunk_def be_of_u32_def codec)

section \<open>String literals\<close>

definition ascii :: "string \<Rightarrow> bytes" where
  "ascii str = map of_char str"

end
