(* ===== verification/Console.thy ===== *)
theory Console
  imports Prelude
begin

text \<open>
  \<open>src/display/console.c\<close>: the text console. The state keeps the source's character cells, colours,
  cursor and blink counter. Writes to the linear framebuffer are the commands of type \<open>fb_op\<close>
  appended to \<open>con_fb\<close>, one per call that reaches the framebuffer; how a command turns into
  pixels (font lookup, bytes per pixel) is not modelled, and no operation reads pixels back.
  The \<open>int\<close> cursor coordinates stay small (\<open>console_ok\<close>), so they are HOL integers.
\<close>

definition FONT_WIDTH :: nat where "FONT_WIDTH = 8"
definition FONT_HEIGHT :: nat where "FONT_HEIGHT = 16"
definition MAX_COLUMNS :: nat where "MAX_COLUMNS = 160"
definition MAX_ROWS :: nat where "MAX_ROWS = 120"

record framebuffer =
  fb_width :: nat
  fb_height :: nat
  fb_pitch :: nat
  fb_bpp :: nat
  fb_red_pos :: nat
  fb_red_size :: nat
  fb_green_pos :: nat
  fb_green_size :: nat
  fb_blue_pos :: nat
  fb_blue_size :: nat

datatype fb_op =
    FbGlyph u8 nat nat nat nat \<comment> \<open>code point, column, row, foreground, background\<close>
  | FbRect nat nat nat nat u32 \<comment> \<open>x, y, width, height, pixel\<close>
  | FbScroll nat \<comment> \<open>pixel rows\<close>
  | FbFillRow nat u32
  | FbPixel u32 u32 u32 \<comment> \<open>x, y, pixel\<close>

record console =
  con_x :: int
  con_y :: int
  con_fg :: nat
  con_bg :: nat
  con_ready :: bool
  con_visible :: bool
  con_blink :: nat
  con_screen :: framebuffer
  con_cells :: "nat \<Rightarrow> nat \<Rightarrow> u8" \<comment> \<open>row, column\<close>
  con_cell_fg :: "nat \<Rightarrow> nat \<Rightarrow> nat"
  con_cell_bg :: "nat \<Rightarrow> nat \<Rightarrow> nat"
  con_fb :: "fb_op list"

definition color_palette :: "u32 list" where
  "color_palette =
     [0x000000, 0x0000AA, 0x00AA00, 0x00AAAA, 0xAA0000, 0xAA00AA, 0xAA5500, 0xAAAAAA,
      0x555555, 0x5555FF, 0x55FF55, 0x55FFFF, 0xFF5555, 0xFF55FF, 0xFFFF55, 0xFFFFFF]"

definition COLOR_BLACK :: nat where "COLOR_BLACK = 0"
definition COLOR_WHITE :: nat where "COLOR_WHITE = 15"

text \<open>The static initialiser.\<close>

definition console_boot :: console where
  "console_boot =
     \<lparr>con_x = 0, con_y = 0, con_fg = COLOR_WHITE, con_bg = COLOR_BLACK, con_ready = False,
      con_visible = False, con_blink = 0,
      con_screen = \<lparr>fb_width = 0, fb_height = 0, fb_pitch = 0, fb_bpp = 0, fb_red_pos = 0,
        fb_red_size = 0, fb_green_pos = 0, fb_green_size = 0, fb_blue_pos = 0, fb_blue_size = 0\<rparr>,
      con_cells = (\<lambda>r k. 0), con_cell_fg = (\<lambda>r k. 0), con_cell_bg = (\<lambda>r k. 0), con_fb = []\<rparr>"

section \<open>Pixels and geometry\<close>

definition scale_component :: "u8 \<Rightarrow> nat \<Rightarrow> u32" where
  "scale_component component mask_size =
     (if mask_size = 0 then 0
      else if 8 \<le> mask_size then ucast component
      else (ucast component * (push_bit mask_size 1 - 1) + 127) div 255)"

definition framebuffer_make_pixel :: "framebuffer \<Rightarrow> nat \<Rightarrow> u32" where
  "framebuffer_make_pixel fb color =
     (let rgb = color_palette ! (color AND 15);
          red = ucast (drop_bit 16 rgb AND 0xFF);
          green = ucast (drop_bit 8 rgb AND 0xFF);
          blue = ucast (rgb AND 0xFF)
      in push_bit (fb_red_pos fb) (scale_component red (fb_red_size fb))
         OR push_bit (fb_green_pos fb) (scale_component green (fb_green_size fb))
         OR push_bit (fb_blue_pos fb) (scale_component blue (fb_blue_size fb)))"

definition console_columns :: "console \<Rightarrow> int" where
  "console_columns c =
     (if \<not> con_ready c \<or> fb_width (con_screen c) < FONT_WIDTH then 0
      else if MAX_COLUMNS < fb_width (con_screen c) div FONT_WIDTH then int MAX_COLUMNS
      else int (fb_width (con_screen c) div FONT_WIDTH))"

definition console_rows :: "console \<Rightarrow> int" where
  "console_rows c =
     (if \<not> con_ready c \<or> fb_height (con_screen c) < FONT_HEIGHT then 0
      else if MAX_ROWS < fb_height (con_screen c) div FONT_HEIGHT then int MAX_ROWS
      else int (fb_height (con_screen c) div FONT_HEIGHT))"

definition console_cursor_thickness :: nat where
  "console_cursor_thickness =
     (let thickness = FONT_HEIGHT div 8 in if thickness = 0 then 1 else thickness)"

definition fb_emit :: "fb_op \<Rightarrow> console \<Rightarrow> console" where
  "fb_emit op c = c\<lparr>con_fb := con_fb c @ [op]\<rparr>"

definition framebuffer_fill_rect :: "nat \<Rightarrow> nat \<Rightarrow> nat \<Rightarrow> nat \<Rightarrow> u32 \<Rightarrow> console \<Rightarrow> console" where
  "framebuffer_fill_rect x y w h color c =
     (if \<not> con_ready c then c else fb_emit (FbRect x y w h color) c)"

definition framebuffer_fill_row :: "nat \<Rightarrow> u32 \<Rightarrow> console \<Rightarrow> console" where
  "framebuffer_fill_row y color c =
     (if \<not> con_ready c \<or> fb_height (con_screen c) \<le> y then c else fb_emit (FbFillRow y color) c)"

definition framebuffer_copy_rows_up :: "nat \<Rightarrow> console \<Rightarrow> console" where
  "framebuffer_copy_rows_up n c =
     (if \<not> con_ready c \<or> n = 0 \<or> fb_height (con_screen c) \<le> n then c else fb_emit (FbScroll n) c)"

section \<open>Cells and cursor\<close>

definition in_grid :: "console \<Rightarrow> int \<Rightarrow> int \<Rightarrow> bool" where
  "in_grid c column row \<longleftrightarrow>
     0 \<le> column \<and> 0 \<le> row \<and> column < console_columns c \<and> row < console_rows c"

definition console_draw_cell :: "int \<Rightarrow> int \<Rightarrow> console \<Rightarrow> console" where
  "console_draw_cell column row c =
     (if \<not> con_ready c \<or> \<not> in_grid c column row then c
      else fb_emit (FbGlyph (con_cells c (nat row) (nat column)) (nat column) (nat row)
             (con_cell_fg c (nat row) (nat column)) (con_cell_bg c (nat row) (nat column))) c)"

definition set_cell :: "nat \<Rightarrow> nat \<Rightarrow> u8 \<Rightarrow> nat \<Rightarrow> nat \<Rightarrow> console \<Rightarrow> console" where
  "set_cell row column code fg bg c =
     c\<lparr>con_cells := (con_cells c)(row := (con_cells c row)(column := code)),
       con_cell_fg := (con_cell_fg c)(row := (con_cell_fg c row)(column := fg mod 256)),
       con_cell_bg := (con_cell_bg c)(row := (con_cell_bg c row)(column := bg mod 256))\<rparr>"

definition console_write_cell :: "int \<Rightarrow> int \<Rightarrow> u8 \<Rightarrow> nat \<Rightarrow> nat \<Rightarrow> console \<Rightarrow> console" where
  "console_write_cell column row code fg bg c =
     (if \<not> con_ready c \<or> \<not> in_grid c column row then c
      else fb_emit (FbGlyph code (nat column) (nat row) fg bg)
             (set_cell (nat row) (nat column) code fg bg c))"

definition console_draw_cursor :: "console \<Rightarrow> console" where
  "console_draw_cursor c =
     (let foreground = framebuffer_make_pixel (con_screen c) (con_fg c);
          is_cursor_visible = ((con_blink c div 60) mod 2 = 0)
      in if \<not> con_ready c \<or> \<not> con_visible c \<or> \<not> is_cursor_visible
            \<or> console_columns c \<le> 0 \<or> console_rows c \<le> 0 then c
         else if \<not> in_grid c (con_x c) (con_y c) then c
         else framebuffer_fill_rect (nat (con_x c) * FONT_WIDTH)
                (nat (con_y c) * FONT_HEIGHT + (FONT_HEIGHT - console_cursor_thickness))
                FONT_WIDTH console_cursor_thickness foreground c)"

definition console_erase_cursor :: "console \<Rightarrow> console" where
  "console_erase_cursor c =
     (if \<not> con_ready c \<or> \<not> con_visible c \<or> console_columns c \<le> 0 \<or> console_rows c \<le> 0 then c
      else if \<not> in_grid c (con_x c) (con_y c) then c
      else console_draw_cell (con_x c) (con_y c) c)"

text \<open>The cell loops of \<open>console_newline\<close>, \<open>console_clear_row\<close> and \<open>console_clear\<close>.\<close>

definition blank_row :: "nat \<Rightarrow> nat \<Rightarrow> console \<Rightarrow> console" where
  "blank_row row columns c =
     foldl (\<lambda>c column. set_cell row column 32 (con_fg c) (con_bg c) c) c [0..<columns]"

definition copy_row_up :: "nat \<Rightarrow> nat \<Rightarrow> console \<Rightarrow> console" where
  "copy_row_up columns row c =
     foldl (\<lambda>c column. set_cell (row - 1) column (con_cells c row column)
              (con_cell_fg c row column) (con_cell_bg c row column) c) c [0..<columns]"

definition scroll_cells :: "nat \<Rightarrow> nat \<Rightarrow> console \<Rightarrow> console" where
  "scroll_cells rows columns c = foldl (\<lambda>c row. copy_row_up columns row c) c [1..<rows]"

definition fill_rows_from :: "nat \<Rightarrow> console \<Rightarrow> console" where
  "fill_rows_from first c =
     foldl (\<lambda>c row. framebuffer_fill_row row (framebuffer_make_pixel (con_screen c) (con_bg c)) c) c
       [first..<fb_height (con_screen c)]"

definition console_newline :: "console \<Rightarrow> console" where
  "console_newline c0 =
     (let rows = console_rows c0;
          c = (console_erase_cursor c0)\<lparr>con_x := 0\<rparr>;
          c = c\<lparr>con_y := con_y c + 1\<rparr>
      in if rows \<le> 0 then c
         else console_draw_cursor
           (if con_y c < rows then c
            else (let c = framebuffer_copy_rows_up FONT_HEIGHT c;
                      c = fill_rows_from (fb_height (con_screen c) - FONT_HEIGHT) c;
                      c = scroll_cells (nat rows) (nat (console_columns c)) c;
                      c = blank_row (nat rows - 1) (nat (console_columns c)) c
                  in c\<lparr>con_y := rows - 1\<rparr>)))"

section \<open>Output\<close>

definition console_put :: "u8 \<Rightarrow> console \<Rightarrow> console" where
  "console_put ch c0 =
     (let columns = console_columns c0;
          c = (if columns \<le> con_x c0 then console_newline c0 else c0);
          c = console_erase_cursor c;
          codepoint = (if ch < 32 \<or> 127 < ch then 63 else ch);
          c = console_write_cell (con_x c) (con_y c) codepoint (con_fg c) (con_bg c) c;
          c = c\<lparr>con_x := con_x c + 1\<rparr>
      in if columns \<le> con_x c then console_newline c else console_draw_cursor c)"

definition console_write_char :: "u8 \<Rightarrow> console \<Rightarrow> console" where
  "console_write_char ch c =
     (if \<not> con_ready c \<or> console_columns c \<le> 0 \<or> console_rows c \<le> 0 then c
      else if ch = 10 then console_newline c
      else if ch = 13 then c
      else if ch = 9 then console_put 32 (console_put 32 (console_put 32 (console_put 32 c)))
      else console_put ch c)"

definition console_write :: "bytes \<Rightarrow> console \<Rightarrow> console" where
  "console_write str c = foldl (\<lambda>c ch. console_write_char ch c) c str"

definition console_writeln :: "bytes \<Rightarrow> console \<Rightarrow> console" where
  "console_writeln str c = console_write_char 10 (console_write str c)"

text \<open>The digit loop of \<open>console_write_uint\<close>: the buffer in the order it is filled, least
  significant digit first, at most ten digits.\<close>

function uint_digits :: "nat \<Rightarrow> nat \<Rightarrow> bytes" where
  "uint_digits index v =
     (if 0 < v \<and> index < 10 then (48 + of_nat (v mod 10)) # uint_digits (index + 1) (v div 10)
      else [])"
  by pat_completeness auto
termination
  by (relation "measure (\<lambda>(index, v). v)") auto

definition console_write_uint :: "u32 \<Rightarrow> console \<Rightarrow> console" where
  "console_write_uint v c =
     (if v = 0 then console_write_char 48 c else console_write (rev (uint_digits 0 (unat v))) c)"

section \<open>Configuration\<close>

definition console_set_fg_color :: "nat \<Rightarrow> console \<Rightarrow> console" where
  "console_set_fg_color color c = c\<lparr>con_fg := color\<rparr>"

definition console_set_bg_color :: "nat \<Rightarrow> console \<Rightarrow> console" where
  "console_set_bg_color color c = c\<lparr>con_bg := color\<rparr>"

definition console_set_color :: "nat \<Rightarrow> nat \<Rightarrow> console \<Rightarrow> console" where
  "console_set_color fg bg c = c\<lparr>con_fg := fg, con_bg := bg\<rparr>"

definition console_set_cursor_visible :: "bool \<Rightarrow> console \<Rightarrow> console" where
  "console_set_cursor_visible visible c =
     (if \<not> con_ready c then c
      else if visible then console_draw_cursor (c\<lparr>con_visible := True\<rparr>)
      else (console_erase_cursor c)\<lparr>con_visible := False\<rparr>)"

definition console_set_cursor :: "int \<Rightarrow> int \<Rightarrow> console \<Rightarrow> console" where
  "console_set_cursor x y c =
     (if 0 \<le> x \<and> x < console_columns c \<and> 0 \<le> y \<and> y < console_rows c
      then console_draw_cursor ((console_erase_cursor c)\<lparr>con_x := x, con_y := y\<rparr>) else c)"

definition console_draw_pixel :: "u32 \<Rightarrow> u32 \<Rightarrow> nat \<Rightarrow> console \<Rightarrow> console" where
  "console_draw_pixel x y color c =
     (if \<not> con_ready c \<or> sint x < 0 \<or> sint y < 0 then c
      else if fb_width (con_screen c) \<le> unat x \<or> fb_height (con_screen c) \<le> unat y then c
      else fb_emit (FbPixel x y (framebuffer_make_pixel (con_screen c) color)) c)"

definition console_tick :: "console \<Rightarrow> console" where
  "console_tick c =
     (if con_ready c
      then (let c = c\<lparr>con_blink := con_blink c + 1\<rparr>;
                c = (if 120 \<le> con_blink c then c\<lparr>con_blink := 0\<rparr> else c)
            in console_draw_cursor (console_erase_cursor c))
      else c)"

definition console_clear_row :: "int \<Rightarrow> console \<Rightarrow> console" where
  "console_clear_row row c =
     (let background = framebuffer_make_pixel (con_screen c) (con_bg c);
          columns = console_columns c
      in if \<not> con_ready c \<or> row < 0 \<or> console_rows c \<le> row then c
         else (let c = console_erase_cursor c;
                   c = blank_row (nat row) (nat columns) c;
                   c = framebuffer_fill_rect 0 (nat row * FONT_HEIGHT) (fb_width (con_screen c))
                         FONT_HEIGHT background c
               in console_draw_cursor c))"

definition console_clear :: "console \<Rightarrow> console" where
  "console_clear c =
     (let columns = console_columns c; rows = console_rows c;
          c = (if con_ready c
               then framebuffer_fill_rect 0 0 (fb_width (con_screen c)) (fb_height (con_screen c))
                      (framebuffer_make_pixel (con_screen c) (con_bg c)) c
               else c);
          c = c\<lparr>con_visible := True, con_x := 0, con_y := 0\<rparr>;
          c = foldl (\<lambda>c row. blank_row row (nat columns) c) c [0..<nat rows]
      in console_draw_cursor c)"

text \<open>\<open>console_init\<close> with the font's dimensions as arguments; \<open>None\<close> and a zero address are the
  null framebuffer.\<close>

definition console_init :: "nat \<Rightarrow> nat \<Rightarrow> (nat \<times> framebuffer) option \<Rightarrow> console \<Rightarrow> console" where
  "console_init font_width font_height info c =
     (case info of
        None \<Rightarrow> c\<lparr>con_ready := False\<rparr>
      | Some (address, fb) \<Rightarrow>
          if address = 0 \<or> font_width = 0 \<or> font_height = 0 \<or> fb_width fb < FONT_WIDTH
             \<or> fb_height fb < FONT_HEIGHT \<or> fb_bpp fb = 0 then c\<lparr>con_ready := False\<rparr>
          else console_clear
            (c\<lparr>con_screen := fb, con_fg := COLOR_WHITE, con_bg := COLOR_BLACK, con_x := 0,
               con_y := 0, con_visible := True, con_ready := True,
               con_cells := (\<lambda>_ _. 32), con_cell_fg := (\<lambda>_ _. COLOR_WHITE),
               con_cell_bg := (\<lambda>_ _. COLOR_BLACK)\<rparr>))"


section \<open>What each operation leaves alone\<close>

text \<open>Only \<open>console_init\<close> changes the screen or the ready flag, so the grid is fixed; drawing changes
  nothing but the framebuffer.\<close>

definition same_grid :: "console \<Rightarrow> console \<Rightarrow> bool" where
  "same_grid c d \<longleftrightarrow> con_ready d = con_ready c \<and> con_screen d = con_screen c"

definition only_drew :: "console \<Rightarrow> console \<Rightarrow> bool" where
  "only_drew c d \<longleftrightarrow> (\<exists>ops. d = c\<lparr>con_fb := con_fb c @ ops\<rparr>)"

lemma console_columns_upd [simp]:
  "console_columns (c\<lparr>con_x := x\<rparr>) = console_columns c"
  "console_columns (c\<lparr>con_y := y\<rparr>) = console_columns c"
  "console_columns (c\<lparr>con_fg := f\<rparr>) = console_columns c"
  "console_columns (c\<lparr>con_bg := f\<rparr>) = console_columns c"
  "console_columns (c\<lparr>con_fb := ops\<rparr>) = console_columns c"
  "console_columns (c\<lparr>con_visible := v\<rparr>) = console_columns c"
  "console_columns (c\<lparr>con_blink := b\<rparr>) = console_columns c"
  "console_columns (c\<lparr>con_cells := cs, con_cell_fg := fs, con_cell_bg := bs\<rparr>) = console_columns c"
  by (simp_all add: console_columns_def)

lemma console_rows_upd [simp]:
  "console_rows (c\<lparr>con_x := x\<rparr>) = console_rows c"
  "console_rows (c\<lparr>con_y := y\<rparr>) = console_rows c"
  "console_rows (c\<lparr>con_fg := f\<rparr>) = console_rows c"
  "console_rows (c\<lparr>con_bg := f\<rparr>) = console_rows c"
  "console_rows (c\<lparr>con_fb := ops\<rparr>) = console_rows c"
  "console_rows (c\<lparr>con_visible := v\<rparr>) = console_rows c"
  "console_rows (c\<lparr>con_blink := b\<rparr>) = console_rows c"
  "console_rows (c\<lparr>con_cells := cs, con_cell_fg := fs, con_cell_bg := bs\<rparr>) = console_rows c"
  by (simp_all add: console_rows_def)

lemma same_grid_refl [simp]: "same_grid c c"
  by (simp add: same_grid_def)

lemma same_grid_trans: "same_grid c d \<Longrightarrow> same_grid d e \<Longrightarrow> same_grid c e"
  by (simp add: same_grid_def)

lemma same_gridD:
  assumes "same_grid c d"
  shows "con_ready d = con_ready c" "con_screen d = con_screen c"
    "console_columns d = console_columns c" "console_rows d = console_rows c"
  using assms by (auto simp: same_grid_def console_columns_def console_rows_def)

lemma only_drew_refl [simp]: "only_drew c c"
  unfolding only_drew_def by (rule exI [of _ "[]"]) simp

lemma only_drew_emit [simp]: "only_drew c (fb_emit op c)"
  by (auto simp: only_drew_def fb_emit_def)

lemma only_drew_trans: "only_drew c d \<Longrightarrow> only_drew d e \<Longrightarrow> only_drew c e"
  by (auto simp: only_drew_def)

lemma only_drewD:
  assumes "only_drew c d"
  shows "con_x d = con_x c" "con_y d = con_y c" "con_fg d = con_fg c" "con_bg d = con_bg c"
    "con_ready d = con_ready c" "con_visible d = con_visible c" "con_blink d = con_blink c"
    "con_screen d = con_screen c" "con_cells d = con_cells c" "con_cell_fg d = con_cell_fg c"
    "con_cell_bg d = con_cell_bg c" "console_columns d = console_columns c"
    "console_rows d = console_rows c" "same_grid c d"
  using assms by (auto simp: only_drew_def same_grid_def)

lemma only_drew_draw [simp]:
  "only_drew c (framebuffer_fill_rect x y w h p c)"
  "only_drew c (framebuffer_fill_row r p c)"
  "only_drew c (framebuffer_copy_rows_up n c)"
  "only_drew c (console_draw_cell a b c)"
  "only_drew c (console_draw_cursor c)"
  "only_drew c (console_erase_cursor c)"
  by (auto simp: framebuffer_fill_rect_def framebuffer_fill_row_def framebuffer_copy_rows_up_def
      console_draw_cell_def console_draw_cursor_def console_erase_cursor_def Let_def)

lemma only_drew_fill_rows [simp]: "only_drew c (fill_rows_from a c)"
proof -
  have "only_drew c (foldl (\<lambda>c row. framebuffer_fill_row row
          (framebuffer_make_pixel (con_screen c) (con_bg c)) c) c rows)" for rows
  proof (induction rows arbitrary: c)
    case (Cons r rows)
    show ?case using only_drew_trans [OF only_drew_draw(2) Cons.IH] by simp
  qed simp
  then show ?thesis by (simp add: fill_rows_from_def)
qed

lemmas drew = only_drew_draw [THEN only_drewD(1)] only_drew_draw [THEN only_drewD(2)]
  only_drew_draw [THEN only_drewD(3)] only_drew_draw [THEN only_drewD(4)]
  only_drew_draw [THEN only_drewD(5)] only_drew_draw [THEN only_drewD(6)]
  only_drew_draw [THEN only_drewD(8)] only_drew_draw [THEN only_drewD(9)]
  only_drew_draw [THEN only_drewD(10)] only_drew_draw [THEN only_drewD(11)]
  only_drew_draw [THEN only_drewD(12)] only_drew_draw [THEN only_drewD(13)]

declare drew [simp] only_drew_fill_rows [THEN only_drewD(1), simp]
  only_drew_fill_rows [THEN only_drewD(2), simp] only_drew_fill_rows [THEN only_drewD(3), simp]
  only_drew_fill_rows [THEN only_drewD(4), simp] only_drew_fill_rows [THEN only_drewD(5), simp]
  only_drew_fill_rows [THEN only_drewD(8), simp] only_drew_fill_rows [THEN only_drewD(9), simp]
  only_drew_fill_rows [THEN only_drewD(10), simp] only_drew_fill_rows [THEN only_drewD(11), simp]
  only_drew_fill_rows [THEN only_drewD(12), simp] only_drew_fill_rows [THEN only_drewD(13), simp]

lemma fb_emit_simps [simp]:
  "con_x (fb_emit op c) = con_x c" "con_y (fb_emit op c) = con_y c"
  "con_fg (fb_emit op c) = con_fg c" "con_bg (fb_emit op c) = con_bg c"
  "con_ready (fb_emit op c) = con_ready c" "con_screen (fb_emit op c) = con_screen c"
  "con_cells (fb_emit op c) = con_cells c" "con_cell_fg (fb_emit op c) = con_cell_fg c"
  "con_cell_bg (fb_emit op c) = con_cell_bg c" "console_columns (fb_emit op c) = console_columns c"
  "console_rows (fb_emit op c) = console_rows c"
  by (simp_all add: fb_emit_def)

lemma set_cell_simps [simp]:
  "con_x (set_cell r k ch f b c) = con_x c" "con_y (set_cell r k ch f b c) = con_y c"
  "con_fg (set_cell r k ch f b c) = con_fg c" "con_bg (set_cell r k ch f b c) = con_bg c"
  "con_ready (set_cell r k ch f b c) = con_ready c"
  "con_screen (set_cell r k ch f b c) = con_screen c"
  "con_cells (set_cell r k ch f b c) r' k' = (if r' = r \<and> k' = k then ch else con_cells c r' k')"
  "console_columns (set_cell r k ch f b c) = console_columns c"
  "console_rows (set_cell r k ch f b c) = console_rows c"
  by (simp_all add: set_cell_def)

text \<open>The loops over cells, as facts about every cell of the grid.\<close>

lemma foldl_set_cell_frame:
  assumes "\<And>c k. con_x (f c k) = con_x c \<and> con_y (f c k) = con_y c \<and> same_grid c (f c k)
      \<and> con_fg (f c k) = con_fg c \<and> con_bg (f c k) = con_bg c"
  shows "con_x (foldl f c ks) = con_x c \<and> con_y (foldl f c ks) = con_y c
    \<and> same_grid c (foldl f c ks) \<and> con_fg (foldl f c ks) = con_fg c \<and> con_bg (foldl f c ks) = con_bg c"
  by (induction ks arbitrary: c) (use assms in \<open>auto simp: same_grid_def\<close>)

lemma blank_row_frame:
  "con_x (blank_row r n c) = con_x c \<and> con_y (blank_row r n c) = con_y c
    \<and> same_grid c (blank_row r n c) \<and> con_fg (blank_row r n c) = con_fg c
    \<and> con_bg (blank_row r n c) = con_bg c"
  unfolding blank_row_def by (rule foldl_set_cell_frame) (simp add: same_grid_def)

lemma copy_row_up_frame:
  "con_x (copy_row_up n r c) = con_x c \<and> con_y (copy_row_up n r c) = con_y c
    \<and> same_grid c (copy_row_up n r c) \<and> con_fg (copy_row_up n r c) = con_fg c
    \<and> con_bg (copy_row_up n r c) = con_bg c"
  unfolding copy_row_up_def by (rule foldl_set_cell_frame) (simp add: same_grid_def)

lemma scroll_cells_frame:
  "con_x (scroll_cells rs n c) = con_x c \<and> con_y (scroll_cells rs n c) = con_y c
    \<and> same_grid c (scroll_cells rs n c) \<and> con_fg (scroll_cells rs n c) = con_fg c
    \<and> con_bg (scroll_cells rs n c) = con_bg c"
  unfolding scroll_cells_def by (rule foldl_set_cell_frame) (simp add: copy_row_up_frame)

section \<open>The cursor stays on the grid\<close>

text \<open>A console is well formed when, once it is ready, its grid is not empty and the cursor is on
  it. \<open>in_bounds\<close> says that the grid never exceeds the cell arrays.\<close>

definition console_ok :: "console \<Rightarrow> bool" where
  "console_ok c \<longleftrightarrow> (con_ready c \<longrightarrow> in_grid c (con_x c) (con_y c))"

lemma console_boot_ok: "console_ok console_boot"
  by (simp add: console_ok_def console_boot_def)

lemma grid_in_bounds:
  "console_columns c \<le> 160" "console_rows c \<le> 120" "0 \<le> console_columns c" "0 \<le> console_rows c"
  by (auto simp: console_columns_def console_rows_def MAX_COLUMNS_def MAX_ROWS_def)

lemma console_newline_grid: "same_grid c (console_newline c)"
proof -
  have "same_grid c (console_draw_cursor d)" if "same_grid c d" for d
    using that only_drewD(14) [OF only_drew_draw(5)] same_grid_trans by blast
  then show ?thesis
    using blank_row_frame scroll_cells_frame
    by (auto simp: console_newline_def Let_def same_grid_def)
qed


lemma console_newline_x [simp]: "con_x (console_newline c) = 0"
  using blank_row_frame scroll_cells_frame by (simp add: console_newline_def Let_def)

lemma console_newline_y:
  "con_y (console_newline c) =
     (if 0 < console_rows c \<and> console_rows c \<le> con_y c + 1 then console_rows c - 1 else con_y c + 1)"
  by (simp add: console_newline_def Let_def)

lemma console_newline_ok:
  assumes "console_ok c"
  shows "console_ok (console_newline c)"
  using assms same_gridD [OF console_newline_grid, of c]
  by (auto simp: console_ok_def in_grid_def console_newline_y)

lemma console_write_cell_frame [simp]:
  "con_x (console_write_cell a b ch f g c) = con_x c"
  "con_y (console_write_cell a b ch f g c) = con_y c"
  "con_fg (console_write_cell a b ch f g c) = con_fg c"
  "con_bg (console_write_cell a b ch f g c) = con_bg c"
  "con_ready (console_write_cell a b ch f g c) = con_ready c"
  "con_screen (console_write_cell a b ch f g c) = con_screen c"
  "console_columns (console_write_cell a b ch f g c) = console_columns c"
  "console_rows (console_write_cell a b ch f g c) = console_rows c"
  by (simp_all add: console_write_cell_def)

lemma console_put_ok:
  assumes "console_ok c"
  shows "console_ok (console_put ch c) \<and> same_grid c (console_put ch c)"
proof (cases "con_ready c")
  case True
  with assms have g: "0 \<le> con_x c" "con_x c < console_columns c" "0 \<le> con_y c" "con_y c < console_rows c"
    by (auto simp: console_ok_def in_grid_def)
  let ?d = "(console_write_cell (con_x c) (con_y c) (if ch < 32 \<or> 127 < ch then 63 else ch)
      (con_fg c) (con_bg c) (console_erase_cursor c))\<lparr>con_x := con_x c + 1\<rparr>"
  have d: "con_x ?d = con_x c + 1" "con_y ?d = con_y c" "same_grid c ?d" "console_columns ?d = console_columns c"
    "console_rows ?d = console_rows c"
    by (simp_all add: same_grid_def)
  have put: "console_put ch c =
      (if console_columns c \<le> con_x c + 1 then console_newline ?d else console_draw_cursor ?d)"
    using g by (simp add: console_put_def Let_def)
  have nl: "same_grid c (console_newline ?d)" "con_y (console_newline ?d) = con_y ?d + 1 \<or>
      con_y (console_newline ?d) = console_rows c - 1" "con_y (console_newline ?d) < console_rows c"
    using same_grid_trans [OF d(3) console_newline_grid] g d by (auto simp: console_newline_y)
  show ?thesis
    using put nl(1,3) nl(2) same_gridD [OF nl(1)] d g
    by (auto simp: console_ok_def in_grid_def same_grid_def)
next
  case False
  then have "\<not> con_ready (console_put ch c)" "same_grid c (console_put ch c)"
    using console_newline_grid by (auto simp: console_put_def Let_def same_grid_def)
  then show ?thesis by (simp add: console_ok_def)
qed

lemma console_write_char_ok:
  assumes "console_ok c"
  shows "console_ok (console_write_char ch c) \<and> same_grid c (console_write_char ch c)"
proof -
  have put4: "console_ok (console_put a (console_put a (console_put a (console_put a c))))
      \<and> same_grid c (console_put a (console_put a (console_put a (console_put a c))))" for a
    using console_put_ok assms same_grid_trans by meson
  show ?thesis
    using assms put4 console_put_ok console_newline_ok console_newline_grid
    by (auto simp: console_write_char_def)
qed

lemma console_write_ok:
  "console_ok c \<Longrightarrow> console_ok (console_write str c) \<and> same_grid c (console_write str c)"
proof (induction str arbitrary: c)
  case (Cons ch str)
  have "console_ok (console_write_char ch c)" "same_grid c (console_write_char ch c)"
    using console_write_char_ok Cons.prems by blast+
  then show ?case using Cons.IH same_grid_trans by (auto simp: console_write_def)
qed (simp add: console_write_def)

lemma console_write_uint_ok:
  "console_ok c \<Longrightarrow> console_ok (console_write_uint v c) \<and> same_grid c (console_write_uint v c)"
  by (simp add: console_write_uint_def console_write_char_ok console_write_ok)

lemma console_config_ok [simp]:
  "console_ok (console_set_fg_color f c) = console_ok c"
  "console_ok (console_set_bg_color f c) = console_ok c"
  "console_ok (console_set_color f b c) = console_ok c"
  "console_ok (console_set_cursor_visible v c) = console_ok c"
  "console_ok (console_draw_pixel px py f c) = console_ok c"
  "console_ok (console_tick c) = console_ok c"
  "console_ok (console_clear_row r c) = console_ok c"
proof -
  have drawn: "console_ok (console_draw_cursor d) = console_ok d"
    "console_ok (console_erase_cursor d) = console_ok d"
    "console_ok (framebuffer_fill_rect x y w h p d) = console_ok d"
    "console_ok (fb_emit op d) = console_ok d" for d x y w h p op
    by (simp_all add: console_ok_def in_grid_def)
  have blank: "console_ok (blank_row r n d) = console_ok d" for r n d
    using blank_row_frame [of r n d] same_gridD [of d "blank_row r n d"]
    by (simp add: console_ok_def in_grid_def)
  have upd: "console_ok (d\<lparr>con_visible := v\<rparr>) = console_ok d"
    "console_ok (d\<lparr>con_blink := b\<rparr>) = console_ok d" "console_ok (d\<lparr>con_fg := f\<rparr>) = console_ok d"
    "console_ok (d\<lparr>con_bg := f'\<rparr>) = console_ok d" for d v b f f'
    by (simp_all add: console_ok_def in_grid_def)
  show "console_ok (console_set_fg_color f c) = console_ok c"
    "console_ok (console_set_bg_color f c) = console_ok c"
    "console_ok (console_set_color f b c) = console_ok c"
    "console_ok (console_set_cursor_visible v c) = console_ok c"
    "console_ok (console_draw_pixel px py f c) = console_ok c"
    "console_ok (console_tick c) = console_ok c"
    "console_ok (console_clear_row r c) = console_ok c"
    by (simp_all add: console_set_fg_color_def console_set_bg_color_def console_set_color_def
        console_set_cursor_visible_def console_draw_pixel_def console_tick_def console_clear_row_def
        Let_def drawn blank upd)
qed

lemma console_set_cursor_ok:
  "console_ok c \<Longrightarrow> console_ok (console_set_cursor x y c)"
  by (simp add: console_set_cursor_def console_ok_def in_grid_def)


section \<open>What the cells show\<close>

text \<open>The terminal as its user sees it: rows of cells, each a character with its colours, and the place
  of the cursor. \<open>k\<close> are the colours in force. A line feed goes to the next row, and on the last one
  the text moves up and a blank row appears; a character fills the cell under the cursor, and behind
  the last column the line is broken.\<close>

type_synonym tty_cell = "u8 \<times> nat \<times> nat"
type_synonym tty = "tty_cell list list \<times> nat \<times> nat"

fun tty_newline :: "nat \<times> nat \<Rightarrow> tty \<Rightarrow> tty" where
  "tty_newline k (g, x, y) =
     (if Suc y < length g then (g, 0, Suc y) else (tl g @ [map (\<lambda>_. (32, k)) (g ! y)], 0, y))"

fun tty_put :: "nat \<times> nat \<Rightarrow> u8 \<Rightarrow> tty \<Rightarrow> tty" where
  "tty_put k ch (g, x, y) =
     (let g' = g[y := (g ! y)[x := (ch, k)]]
      in if Suc x < length (g ! y) then (g', Suc x, y) else tty_newline k (g', x, y))"

definition tty_char :: "nat \<times> nat \<Rightarrow> tty \<Rightarrow> u8 \<Rightarrow> tty" where
  "tty_char k t ch =
     (if ch = 10 then tty_newline k t
      else if ch = 13 then t
      else if ch = 9 then tty_put k 32 (tty_put k 32 (tty_put k 32 (tty_put k 32 t)))
      else tty_put k (if ch < 32 \<or> 127 < ch then 63 else ch) t)"

text \<open>What the arrays of the console hold of the grid. The colour arrays hold bytes.\<close>

definition con_cell :: "console \<Rightarrow> nat \<Rightarrow> nat \<Rightarrow> tty_cell" where
  "con_cell c r k = (con_cells c r k, con_cell_fg c r k mod 256, con_cell_bg c r k mod 256)"

definition con_colors :: "console \<Rightarrow> nat \<times> nat" where
  "con_colors c = (con_fg c mod 256, con_bg c mod 256)"

definition con_grid :: "console \<Rightarrow> tty_cell list list" where
  "con_grid c = map (\<lambda>r. map (con_cell c r) [0..<nat (console_columns c)]) [0..<nat (console_rows c)]"

definition tty_of :: "console \<Rightarrow> tty" where
  "tty_of c = (con_grid c, nat (con_x c), nat (con_y c))"

lemma con_cell_set [simp]:
  "con_cell (set_cell r k ch f b c) r' k' =
     (if r' = r \<and> k' = k then (ch, f mod 256, b mod 256) else con_cell c r' k')"
  by (auto simp: con_cell_def set_cell_def)

lemma con_cell_drawn: "only_drew c d \<Longrightarrow> con_cell d = con_cell c \<and> con_colors d = con_colors c"
  by (simp add: con_cell_def con_colors_def only_drewD fun_eq_iff)

lemma con_cell_cursor [simp]:
  "con_cell (c\<lparr>con_x := x\<rparr>) = con_cell c" "con_cell (c\<lparr>con_y := y\<rparr>) = con_cell c"
  "con_colors (c\<lparr>con_x := x\<rparr>) = con_colors c" "con_colors (c\<lparr>con_y := y\<rparr>) = con_colors c"
  by (simp_all add: con_cell_def con_colors_def fun_eq_iff)

lemma blank_row_cell:
  "con_cell (blank_row r n c) r' k = (if r' = r \<and> k < n then (32, con_colors c) else con_cell c r' k)"
proof (induction n)
  case 0
  then show ?case by (simp add: blank_row_def)
next
  case (Suc n)
  have "blank_row r (Suc n) c = set_cell r n 32 (con_fg c) (con_bg c) (blank_row r n c)"
    using blank_row_frame [of r n c] by (simp add: blank_row_def)
  with Suc show ?case by (auto simp: less_Suc_eq con_colors_def)
qed

lemma copy_row_up_cell:
  "0 < r \<Longrightarrow> con_cell (copy_row_up n r c) r' k =
     (if r' = r - 1 \<and> k < n then con_cell c r k else con_cell c r' k)"
proof (induction n arbitrary: r' k)
  case 0
  then show ?case by (simp add: copy_row_up_def)
next
  case (Suc n)
  let ?d = "copy_row_up n r c"
  have "copy_row_up (Suc n) r c =
      set_cell (r - 1) n (con_cells ?d r n) (con_cell_fg ?d r n) (con_cell_bg ?d r n) ?d"
    by (simp add: copy_row_up_def)
  moreover have "(con_cells ?d r n, con_cell_fg ?d r n mod 256, con_cell_bg ?d r n mod 256) = con_cell c r n"
    using Suc.IH [OF Suc.prems, of r n] Suc.prems by (simp add: con_cell_def)
  ultimately show ?case using Suc by (auto simp: less_Suc_eq)
qed

lemma scroll_cell:
  "con_cell (scroll_cells rs n c) r k =
     (if r + 1 < rs \<and> k < n then con_cell c (r + 1) k else con_cell c r k)"
proof (induction rs arbitrary: r)
  case 0
  then show ?case by (simp add: scroll_cells_def)
next
  case (Suc rs)
  show ?case
  proof (cases "rs = 0")
    case True
    then show ?thesis by (simp add: scroll_cells_def)
  next
    case False
    then have "scroll_cells (Suc rs) n c = copy_row_up n rs (scroll_cells rs n c)"
      by (simp add: scroll_cells_def)
    then show ?thesis using False Suc.IH by (auto simp: copy_row_up_cell less_Suc_eq)
  qed
qed

text \<open>Two consoles of the same grid show the same when their cells agree on it.\<close>

lemma con_grid_nth:
  "length (con_grid c) = nat (console_rows c)"
  "r < nat (console_rows c) \<Longrightarrow> con_grid c ! r = map (con_cell c r) [0..<nat (console_columns c)]"
  by (simp_all add: con_grid_def)

lemma con_grid_eqI:
  assumes "length g = nat (console_rows c)"
    and "\<And>r. r < nat (console_rows c) \<Longrightarrow> g ! r = map (con_cell c r) [0..<nat (console_columns c)]"
  shows "con_grid c = g"
  by (rule nth_equalityI) (simp_all add: con_grid_nth assms)

lemma newline_state:
  assumes "0 < console_rows c"
  shows "con_colors (console_newline c) = con_colors c"
    "con_cell (console_newline c) r k =
       (if console_rows c \<le> con_y c + 1 \<and> k < nat (console_columns c) then
          if r + 1 < nat (console_rows c) then con_cell c (r + 1) k
          else if r + 1 = nat (console_rows c) then (32, con_colors c) else con_cell c r k
        else con_cell c r k)"
proof -
  note frames = blank_row_frame scroll_cells_frame
  note drawn = con_cell_drawn [OF only_drew_draw(5)] con_cell_drawn [OF only_drew_draw(6)]
    con_cell_drawn [OF only_drew_draw(3)] con_cell_drawn [OF only_drew_fill_rows]
  have colors: "con_colors (blank_row a n d) = con_colors d" "con_colors (scroll_cells m n d) = con_colors d"
    for a n m d using frames by (simp_all add: con_colors_def)
  show "con_colors (console_newline c) = con_colors c"
    by (simp add: console_newline_def Let_def drawn colors)
  have grid: "console_columns (scroll_cells a b d) = console_columns d" for a b d
    using same_gridD(3) scroll_cells_frame by blast
  show "con_cell (console_newline c) r k =
       (if console_rows c \<le> con_y c + 1 \<and> k < nat (console_columns c) then
          if r + 1 < nat (console_rows c) then con_cell c (r + 1) k
          else if r + 1 = nat (console_rows c) then (32, con_colors c) else con_cell c r k
        else con_cell c r k)"
    using assms by (auto simp: console_newline_def Let_def drawn colors blank_row_cell scroll_cell grid)
qed

text \<open>The operations of the console are the operations of the terminal.\<close>

lemma tty_newline_refines:
  assumes "0 \<le> con_y c" "con_y c < console_rows c"
  shows "tty_of (console_newline c) = tty_newline (con_colors c) (tty_of c)"
proof -
  have g: "0 \<le> con_y c" "con_y c < console_rows c" "0 < console_rows c" using assms by auto
  have size: "console_rows (console_newline c) = console_rows c"
    "console_columns (console_newline c) = console_columns c"
    using same_gridD [OF console_newline_grid] by auto
  note cell = newline_state(2) [OF g(3)]
  have "con_grid (console_newline c) = fst (tty_newline (con_colors c) (tty_of c))"
  proof (rule con_grid_eqI; simp only: size)
    show "length (fst (tty_newline (con_colors c) (tty_of c))) = nat (console_rows c)"
      using g(3) by (simp add: tty_of_def con_grid_nth)
    fix r
    assume r: "r < nat (console_rows c)"
    show "fst (tty_newline (con_colors c) (tty_of c)) ! r =
        map (con_cell (console_newline c) r) [0..<nat (console_columns c)]"
    proof (cases "console_rows c \<le> con_y c + 1")
      case True
      then have y: "\<not> Suc (nat (con_y c)) < nat (console_rows c)" "nat (con_y c) < nat (console_rows c)"
        using g by linarith+
      show ?thesis
      proof (cases "Suc r < nat (console_rows c)")
        case True
        then show ?thesis using y cell \<open>console_rows c \<le> con_y c + 1\<close>
          by (auto simp: tty_of_def con_grid_nth nth_append nth_tl)
      next
        case False
        then have "Suc r = nat (console_rows c)" using r by simp
        then show ?thesis using y cell \<open>console_rows c \<le> con_y c + 1\<close>
          by (auto simp: tty_of_def con_grid_nth nth_append map_eq_conv intro!: nth_equalityI)
      qed
    next
      case False
      then have "Suc (nat (con_y c)) < nat (console_rows c)" using g by linarith
      then show ?thesis using r False cell by (auto simp: tty_of_def con_grid_nth)
    qed
  qed
  moreover have "con_y (console_newline c) = int (snd (snd (tty_newline (con_colors c) (tty_of c))))"
    using g by (auto simp: tty_of_def con_grid_nth console_newline_y)
  ultimately show ?thesis by (auto simp: tty_of_def con_grid_nth)
qed

lemma tty_put_refines:
  assumes ok: "console_ok c" and r: "con_ready c"
  shows "tty_of (console_put ch c) =
      tty_put (con_colors c) (if ch < 32 \<or> 127 < ch then 63 else ch) (tty_of c)"
    "con_colors (console_put ch c) = con_colors c"
proof -
  define code where "code = (if ch < 32 \<or> 127 < ch then 63 else ch)"
  let ?w = "console_write_cell (con_x c) (con_y c) code (con_fg c) (con_bg c) (console_erase_cursor c)"
  let ?d = "?w\<lparr>con_x := con_x c + 1\<rparr>"
  let ?x = "nat (con_x c)" and ?y = "nat (con_y c)"
  have g: "0 \<le> con_x c" "con_x c < console_columns c" "0 \<le> con_y c" "con_y c < console_rows c"
    using assms by (auto simp: console_ok_def in_grid_def)
  have put: "console_put ch c =
      (if console_columns c \<le> con_x c + 1 then console_newline ?d else console_draw_cursor ?d)"
    using g by (simp add: console_put_def Let_def code_def)
  have d: "con_x ?d = con_x c + 1" "con_y ?d = con_y c" "con_ready ?d" "console_columns ?d = console_columns c"
    "console_rows ?d = console_rows c" "con_colors ?d = con_colors c"
    using r by (simp_all add: con_colors_def)
  have cell: "con_cell ?w r k = (if r = ?y \<and> k = ?x then (code, con_colors c) else con_cell c r k)" for r k
    using g r con_cell_drawn [OF only_drew_draw(6), of c]
    by (simp add: console_write_cell_def in_grid_def con_colors_def)
      (simp add: con_cell_def set_cell_def)
  have grid: "con_grid ?d = (con_grid c)[?y := (con_grid c ! ?y)[?x := (code, con_colors c)]]"
  proof (rule con_grid_eqI; simp only: d)
    fix r
    assume "r < nat (console_rows c)"
    then show "(con_grid c)[?y := (con_grid c ! ?y)[?x := (code, con_colors c)]] ! r =
        map (con_cell ?d r) [0..<nat (console_columns c)]"
      using g by (cases "r = ?y") (auto simp: con_grid_nth cell nth_list_update intro!: nth_equalityI)
  qed (simp add: con_grid_nth)
  have len: "length (con_grid c ! ?y) = nat (console_columns c)" using g by (simp add: con_grid_nth)
  show "con_colors (console_put ch c) = con_colors c"
    using put d newline_state(1) [of ?d] g con_cell_drawn [OF only_drew_draw(5), of ?d] by auto
  show "tty_of (console_put ch c) = tty_put (con_colors c) (if ch < 32 \<or> 127 < ch then 63 else ch) (tty_of c)"
  proof (cases "console_columns c \<le> con_x c + 1")
    case True
    have "0 \<le> con_y ?d" "con_y ?d < console_rows ?d" unfolding d using g by auto
    note nl = tty_newline_refines [OF this]
    have "console_put ch c = console_newline ?d" using put True by simp
    then have "tty_of (console_put ch c) = tty_newline (con_colors c) (con_grid ?d, nat (con_x ?d), ?y)"
      using nl d by (simp add: tty_of_def)
    then show ?thesis using True len g unfolding grid
      by (simp add: tty_of_def Let_def code_def [symmetric])
  next
    case False
    have "tty_of (console_draw_cursor ?d) = (con_grid ?d, Suc ?x, ?y)"
      using d g con_cell_drawn [OF only_drew_draw(5), of ?d]
      by (simp add: tty_of_def con_grid_def nat_add_distrib)
    then show ?thesis using put False len grid g
      by (auto simp: tty_of_def Let_def code_def [symmetric])
  qed
qed

text \<open>\<open>console_write_uint\<close> writes the decimal numeral: the digits read back to the value, and there
  is no leading zero.\<close>

definition decimal_value :: "bytes \<Rightarrow> nat" where
  "decimal_value ds = foldl (\<lambda>n d. n * 10 + (unat d - 48)) 0 ds"

declare uint_digits.simps [simp del]

lemma unat_digit: "d < 10 \<Longrightarrow> unat (48 + of_nat d :: u8) = 48 + d"
  by (simp add: unat_word_ariths unat_of_nat)

lemma uint_digits_value:
  "v < 10 ^ (10 - index) \<Longrightarrow> decimal_value (rev (uint_digits index v)) = v"
proof (induction index v rule: uint_digits.induct)
  case (1 index v)
  show ?case
  proof (cases "0 < v \<and> index < 10")
    case True
    then have "10 - index = Suc (10 - (index + 1))" by arith
    then have "v div 10 < 10 ^ (10 - (index + 1))"
      using "1.prems" by (simp add: div_less_iff_less_mult ac_simps)
    then have "decimal_value (rev (uint_digits (index + 1) (v div 10))) = v div 10"
      using "1.IH" True by blast
    then show ?thesis
      using True by (simp add: uint_digits.simps [of index v] decimal_value_def unat_digit)
  next
    case False
    then have "v = 0" using "1.prems" by (cases "index < 10") auto
    then show ?thesis by (simp add: uint_digits.simps decimal_value_def)
  qed
qed

lemma uint_digits_chars: "d \<in> set (uint_digits index v) \<Longrightarrow> 48 \<le> d \<and> d \<le> 57"
proof (induction index v rule: uint_digits.induct)
  case (1 index v)
  have "48 \<le> (48 + of_nat (v mod 10) :: u8) \<and> (48 + of_nat (v mod 10) :: u8) \<le> 57"
    using unat_digit [of "v mod 10"] by (simp add: word_le_nat_alt)
  with 1 show ?case by (auto simp: uint_digits.simps [of index v] split: if_splits)
qed

lemma uint_digits_last: "v < 10 ^ (10 - index) \<Longrightarrow> uint_digits index v \<noteq> [] \<Longrightarrow> last (uint_digits index v) \<noteq> 48"
proof (induction index v rule: uint_digits.induct)
  case (1 index v)
  then have v: "0 < v" "index < 10" by (auto simp: uint_digits.simps [of index v] split: if_splits)
  then have "10 - index = Suc (10 - (index + 1))" by arith
  then have lt: "v div 10 < 10 ^ (10 - (index + 1))"
    using "1.prems" by (simp add: div_less_iff_less_mult ac_simps)
  show ?case
  proof (cases "uint_digits (index + 1) (v div 10) = []")
    case True
    then have "v div 10 = 0" using uint_digits_value [OF lt] by (simp add: decimal_value_def)
    then have "v mod 10 = v" "v < 10" by auto
    then have "unat (48 + of_nat (v mod 10) :: u8) \<noteq> unat (48 :: u8)"
      using unat_digit [of v] v by simp
    with True v show ?thesis by (auto simp: uint_digits.simps [of index v])
  next
    case False
    with "1.IH" v lt show ?thesis by (simp add: uint_digits.simps [of index v])
  qed
qed

lemma tty_char_refines:
  assumes "console_ok c" "con_ready c"
  shows "tty_of (console_write_char ch c) = tty_char (con_colors c) (tty_of c) ch"
    "con_colors (console_write_char ch c) = con_colors c"
proof -
  have g: "0 < console_columns c" "0 < console_rows c" "0 \<le> con_y c" "con_y c < console_rows c"
    using assms by (auto simp: console_ok_def in_grid_def)
  have space: "console_ok (console_put 32 d)" "con_ready (console_put 32 d)"
    "tty_of (console_put 32 d) = tty_put (con_colors d) 32 (tty_of d)" "con_colors (console_put 32 d) = con_colors d"
    if "console_ok d" "con_ready d" for d
    using console_put_ok [OF that(1), of 32] tty_put_refines [OF that, of 32] that(2) same_gridD by auto
  show "tty_of (console_write_char ch c) = tty_char (con_colors c) (tty_of c) ch"
    "con_colors (console_write_char ch c) = con_colors c"
    using g assms space tty_newline_refines [of c] tty_put_refines [OF assms, of ch] newline_state(1) [of c]
    by (simp_all add: console_write_char_def tty_char_def)
qed

section \<open>Properties\<close>

text \<open>C13. Writing any text to a ready console does to its cells, their colours and its
  cursor what a terminal does: line feeds, tabs, unprintable bytes, the break behind the last column and the
  scrolling of the last row included. The colours in force, the grid and the cursor's place on it are kept.\<close>

theorem console_write_refines:
  assumes "console_ok c" "con_ready c"
  shows "tty_of (console_write str c) = foldl (tty_char (con_colors c)) (tty_of c) str
    \<and> con_colors (console_write str c) = con_colors c
    \<and> console_ok (console_write str c) \<and> same_grid c (console_write str c)"
  using assms
proof (induction str arbitrary: c)
  case (Cons ch str)
  let ?d = "console_write_char ch c"
  have ok: "console_ok ?d" "con_ready ?d" "same_grid c ?d"
    using console_write_char_ok [OF Cons.prems(1), of ch] Cons.prems(2) same_gridD by auto
  have "console_write (ch # str) c = console_write str ?d" by (simp add: console_write_def)
  then show ?case
    using Cons.IH [OF ok(1,2)] tty_char_refines [OF Cons.prems, of ch] same_grid_trans [OF ok(3)] by simp
qed (simp add: console_write_def)

text \<open>A ready console of 640 by 480 pixels.\<close>

definition ready_console :: console where
  "ready_console = console_boot\<lparr>con_ready := True,
     con_screen := (con_screen console_boot)\<lparr>fb_width := 640, fb_height := 480\<rparr>\<rparr>"

lemma ready_console_grid: "console_columns ready_console = 80" "console_rows ready_console = 30"
  by code_simp+


text \<open>Two letters in the last cell of the screen: the first one fills it and the screen scrolls.\<close>

theorem console_write_refines_witness:
  "tty_of (console_write [65, 66] (ready_console\<lparr>con_x := 79, con_y := 29\<rparr>)) =
     tty_put (15, 0) 66 (tty_put (15, 0) 65 (tty_of (ready_console\<lparr>con_x := 79, con_y := 29\<rparr>)))"
  using console_write_refines [of "ready_console\<lparr>con_x := 79, con_y := 29\<rparr>" "[65, 66]"] ready_console_grid
  by (simp add: console_ok_def in_grid_def tty_char_def con_colors_def)
    (simp add: ready_console_def console_boot_def COLOR_WHITE_def COLOR_BLACK_def)

text \<open>\<open>console_write_uint\<close> writes the decimal numeral of its argument:
  the characters are digits, they read back to the value, and a value above zero has no leading zero.\<close>

theorem console_write_uint_decimal:
  "\<exists>ds. console_write_uint v c = console_write ds c \<and> decimal_value ds = unat v
     \<and> ds \<noteq> [] \<and> (\<forall>d \<in> set ds. 48 \<le> d \<and> d \<le> 57) \<and> (v \<noteq> 0 \<longrightarrow> hd ds \<noteq> 48)"
proof (cases "v = 0")
  case True
  then show ?thesis
    by (intro exI [of _ "[48]"]) (simp add: console_write_uint_def console_write_def decimal_value_def)
next
  case False
  let ?ds = "uint_digits 0 (unat v)"
  have lt: "unat v < 10 ^ (10 - 0)" using unat_bounds(3) [of v] by simp
  have "0 < unat v" using False by (simp add: unat_gt_0)
  then have ne: "?ds \<noteq> []" by (simp add: uint_digits.simps [of 0])
  then have "hd (rev ?ds) \<noteq> 48" using uint_digits_last [OF lt] by (simp add: hd_rev)
  with ne lt False show ?thesis
    by (intro exI [of _ "rev ?ds"])
      (auto simp: console_write_uint_def uint_digits_value dest: uint_digits_chars)
qed

theorem console_write_uint_decimal_witness:
  "\<exists>ds. console_write_uint 205 console_boot = console_write ds console_boot \<and> decimal_value ds = 205"
  using console_write_uint_decimal [of 205 console_boot] by auto

end
