(* ===== verification/Fifo.thy ===== *)
theory Fifo
  imports Prelude
begin

text \<open>
  The interface of the kernel's two interrupt queues (the UART receive buffer of
  \<open>util/ringbuf.c\<close> and the key-event queue of \<open>input/keyboard.c\<close>): a bounded first-in-first-out
  queue that drops an element pushed while it is full. The first section has the arithmetic of a
  ring with one cell kept free, which both providers share; the second states the contract as a
  locale and proves, once, what a client sees of a run of pushes and pops.
\<close>

section \<open>Rings with one free cell\<close>

definition ring_count :: "nat \<Rightarrow> nat \<Rightarrow> nat \<Rightarrow> nat" where
  "ring_count N h t = (h + N - t) mod N"

definition ring_list :: "nat \<Rightarrow> 'a list \<Rightarrow> nat \<Rightarrow> nat \<Rightarrow> 'a list" where
  "ring_list N buf h t = map (\<lambda>k. buf ! ((t + k) mod N)) [0..<ring_count N h t]"

lemma mod_once: "x < 2 * N \<Longrightarrow> x mod N = (if x < N then x else x - N)" for x N :: nat
  by (simp add: le_mod_geq)

lemma ring_count_if:
  "h < N \<Longrightarrow> t < N \<Longrightarrow> ring_count N h t = (if t \<le> h then h - t else h + N - t)"
  by (auto simp: ring_count_def mod_once)

lemma ring_count_bound: "h < N \<Longrightarrow> t < N \<Longrightarrow> ring_count N h t \<le> N - 1"
  by (auto simp: ring_count_if)

lemma length_ring_list [simp]: "length (ring_list N buf h t) = ring_count N h t"
  by (simp add: ring_list_def)

lemma ring_list_empty:
  "h < N \<Longrightarrow> t < N \<Longrightarrow> ring_list N buf h t = [] \<longleftrightarrow> h = t"
  by (auto simp: ring_list_def ring_count_if)

lemma ring_full_iff:
  "h < N \<Longrightarrow> t < N \<Longrightarrow> (h + 1) mod N = t \<longleftrightarrow> ring_count N h t = N - 1"
  by (auto simp: ring_count_if mod_once)

lemma ring_count_push:
  assumes "h < N" "t < N" "(h + 1) mod N \<noteq> t"
  shows "ring_count N ((h + 1) mod N) t = Suc (ring_count N h t)"
proof (cases "h + 1 = N")
  case True
  then have "(h + 1) mod N = 0" by simp
  with assms True show ?thesis by (auto simp: ring_count_if)
next
  case False
  with assms show ?thesis by (auto simp: ring_count_if)
qed

lemma ring_list_push:
  assumes N: "h < N" "t < N" "length buf = N" and nf: "(h + 1) mod N \<noteq> t"
  shows "ring_list N (buf[h := x]) ((h + 1) mod N) t = ring_list N buf h t @ [x]"
proof -
  have last: "(t + ring_count N h t) mod N = h"
    using N by (auto simp: ring_count_if mod_once)
  have other: "(t + k) mod N \<noteq> h" if "k < ring_count N h t" for k
    using that N mod_once [of "t + k" N] ring_count_bound [OF N(1,2)]
    by (auto simp: ring_count_if split: if_splits)
  have upt: "[0..<ring_count N ((h + 1) mod N) t] = [0..<ring_count N h t] @ [ring_count N h t]"
    using ring_count_push [OF N(1,2) nf] by simp
  have "map (\<lambda>k. buf[h := x] ! ((t + k) mod N)) [0..<ring_count N h t] = ring_list N buf h t"
    unfolding ring_list_def by (rule map_cong) (auto dest!: other)
  then show ?thesis
    using N last unfolding ring_list_def [of N "buf[h := x]"] upt by simp
qed

lemma ring_count_pop:
  assumes "h < N" "t < N" "h \<noteq> t"
  shows "ring_count N h t = Suc (ring_count N h ((t + 1) mod N))"
proof (cases "t + 1 = N")
  case True
  then have "(t + 1) mod N = 0" by simp
  with assms True show ?thesis by (auto simp: ring_count_if)
next
  case False
  with assms show ?thesis by (auto simp: ring_count_if)
qed

lemma ring_list_pop:
  assumes "h < N" "t < N" "h \<noteq> t"
  shows "ring_list N buf h t = buf ! t # ring_list N buf h ((t + 1) mod N)"
proof -
  have shift: "(Suc t mod N + k) mod N = Suc (t + k) mod N" for k
    by (simp add: mod_simps)
  have "ring_list N buf h t = map (\<lambda>k. buf ! ((t + k) mod N)) (0 # map Suc [0..<ring_count N h ((t + 1) mod N)])"
    by (simp add: ring_list_def ring_count_pop [OF assms] map_Suc_upt upt_conv_Cons del: upt_Suc)
  also have "\<dots> = buf ! t # ring_list N buf h ((t + 1) mod N)"
    using assms by (simp add: ring_list_def shift comp_def)
  finally show ?thesis .
qed

section \<open>The queue contract\<close>

locale bounded_fifo =
  fixes is_empty :: "'q \<Rightarrow> bool"
    and is_full :: "'q \<Rightarrow> bool"
    and push :: "'q \<Rightarrow> 'a \<Rightarrow> 'q"
    and pop :: "'q \<Rightarrow> 'a \<times> 'q"
    and items :: "'q \<Rightarrow> 'a list"
    and ok :: "'q \<Rightarrow> bool"
    and capacity :: nat
  assumes empty_iff: "ok q \<Longrightarrow> is_empty q \<longleftrightarrow> items q = []"
    and full_iff: "ok q \<Longrightarrow> is_full q \<longleftrightarrow> length (items q) = capacity"
    and bounded: "ok q \<Longrightarrow> length (items q) \<le> capacity"
    and push_ok: "ok q \<Longrightarrow> ok (push q x)"
    and push_items: "ok q \<Longrightarrow> items (push q x) = (if is_full q then items q else items q @ [x])"
    and pop_ok: "ok q \<Longrightarrow> ok (snd (pop q))"
    and pop_items: "ok q \<Longrightarrow> items q = x # xs \<Longrightarrow> fst (pop q) = x \<and> items (snd (pop q)) = xs"
begin

lemma push_take: "ok q \<Longrightarrow> items (push q x) = take capacity (items q @ [x])"
  using bounded [of q] by (auto simp: push_items full_iff take_all_iff)

lemma fold_push_ok: "ok q \<Longrightarrow> ok (foldl push q xs)"
  by (induction xs arbitrary: q) (auto intro: push_ok)

text \<open>A burst of pushes keeps the oldest elements, in order, up to the capacity.\<close>

lemma fold_push_items: "ok q \<Longrightarrow> items (foldl push q xs) = take capacity (items q @ xs)"
proof (induction xs arbitrary: q)
  case Nil
  then show ?case using bounded [of q] by simp
next
  case (Cons x xs)
  have "items (foldl push q (x # xs)) = take capacity (items (push q x) @ xs)"
    using Cons by (simp add: push_ok)
  also have "items (push q x) = take capacity (items q @ [x])"
    using Cons.prems by (rule push_take)
  also have "take capacity (take capacity (items q @ [x]) @ xs) = take capacity ((items q @ [x]) @ xs)"
    by (cases "capacity - length (items q)") (auto simp: take_Cons diff_Suc)
  finally show ?case by simp
qed

text \<open>Popping until empty yields exactly the stored elements, oldest first.\<close>

fun drain :: "nat \<Rightarrow> 'q \<Rightarrow> 'a list" where
  "drain 0 q = []"
| "drain (Suc n) q = (if is_empty q then [] else fst (pop q) # drain n (snd (pop q)))"

lemma drain_items: "ok q \<Longrightarrow> length (items q) \<le> n \<Longrightarrow> drain n q = items q"
proof (induction n arbitrary: q)
  case 0
  then show ?case by simp
next
  case (Suc n)
  show ?case
  proof (cases "items q")
    case Nil
    with Suc.prems show ?thesis by (simp add: empty_iff)
  next
    case (Cons x xs)
    with Suc.prems have "fst (pop q) = x" "items (snd (pop q)) = xs"
      using pop_items by blast+
    with Suc Cons show ?thesis by (simp add: empty_iff pop_ok)
  qed
qed

lemma push_all_drain:
  "ok q \<Longrightarrow> items q = [] \<Longrightarrow> drain capacity (foldl push q xs) = take capacity xs"
  using drain_items [of "foldl push q xs" capacity] bounded [of "foldl push q xs"]
  by (simp add: fold_push_ok fold_push_items)

end

end
