(* ===== verification/Ringbuf.thy ===== *)
theory Ringbuf
  imports Fifo
begin

text \<open>
  \<open>src/util/ringbuf.c\<close>: the byte ring buffer filled by the serial interrupt. Indices are
  \<open>uint32_t\<close> in the source and always masked to eight bits.
\<close>

definition RINGBUF_CAPACITY :: nat where
  "RINGBUF_CAPACITY = 256"

definition rb_mask :: "nat \<Rightarrow> nat" where
  "rb_mask x = x AND (RINGBUF_CAPACITY - 1)"

record ringbuf =
  rb_buf :: bytes
  rb_head :: nat
  rb_tail :: nat

definition ringbuf_zero :: ringbuf where
  "ringbuf_zero = \<lparr>rb_buf = replicate RINGBUF_CAPACITY 0, rb_head = 0, rb_tail = 0\<rparr>"

definition ringbuf_init :: "ringbuf \<Rightarrow> ringbuf" where
  "ringbuf_init rb = rb\<lparr>rb_head := 0, rb_tail := 0\<rparr>"

definition ringbuf_empty :: "ringbuf \<Rightarrow> bool" where
  "ringbuf_empty rb \<longleftrightarrow> rb_head rb = rb_tail rb"

definition ringbuf_full :: "ringbuf \<Rightarrow> bool" where
  "ringbuf_full rb \<longleftrightarrow> rb_mask (add32 (rb_head rb) 1) = rb_tail rb"

definition ringbuf_push :: "ringbuf \<Rightarrow> u8 \<Rightarrow> ringbuf" where
  "ringbuf_push rb byte =
     (if ringbuf_full rb then rb
      else rb\<lparr>rb_buf := (rb_buf rb)[rb_mask (rb_head rb) := byte],
              rb_head := rb_mask (add32 (rb_head rb) 1)\<rparr>)"

definition ringbuf_pop :: "ringbuf \<Rightarrow> u8 \<times> ringbuf" where
  "ringbuf_pop rb =
     (rb_buf rb ! rb_mask (rb_tail rb), rb\<lparr>rb_tail := rb_mask (add32 (rb_tail rb) 1)\<rparr>)"

definition ringbuf_peek :: "ringbuf \<Rightarrow> u8" where
  "ringbuf_peek rb = rb_buf rb ! rb_mask (rb_tail rb)"

text \<open>A buffer is well formed when it has its 256 cells and both indices are below 256; its
  contents are the cells from \<open>tail\<close> up to \<open>head\<close>.\<close>

definition ringbuf_ok :: "ringbuf \<Rightarrow> bool" where
  "ringbuf_ok rb \<longleftrightarrow> length (rb_buf rb) = 256 \<and> rb_head rb < 256 \<and> rb_tail rb < 256"

definition ringbuf_items :: "ringbuf \<Rightarrow> bytes" where
  "ringbuf_items rb = ring_list 256 (rb_buf rb) (rb_head rb) (rb_tail rb)"

lemma rb_mask_mod: "rb_mask x = x mod 256"
  using take_bit_eq_mask [of 8 x] by (simp add: rb_mask_def RINGBUF_CAPACITY_def mask_eq_exp_minus_1 take_bit_eq_mod)

lemmas ringbuf_defs =
  ringbuf_init_def ringbuf_empty_def ringbuf_full_def ringbuf_push_def ringbuf_pop_def
  ringbuf_peek_def ringbuf_ok_def ringbuf_items_def

interpretation rb: bounded_fifo ringbuf_empty ringbuf_full ringbuf_push ringbuf_pop
  ringbuf_items ringbuf_ok 255
proof
  fix q x xs
  assume q: "ringbuf_ok q"
  then have lt: "rb_head q < 256" "rb_tail q < 256" "length (rb_buf q) = 256"
    by (auto simp: ringbuf_ok_def)
  show "ringbuf_empty q \<longleftrightarrow> ringbuf_items q = []"
    using lt by (auto simp: ringbuf_defs ring_list_empty)
  show full: "ringbuf_full q \<longleftrightarrow> length (ringbuf_items q) = 255"
    using lt ring_full_iff [OF lt(1,2)] by (simp add: ringbuf_defs rb_mask_mod)
  show "length (ringbuf_items q) \<le> 255"
    using ring_count_bound [OF lt(1,2)] by (simp add: ringbuf_defs)
  show "ringbuf_ok (ringbuf_push q x)" "ringbuf_ok (snd (ringbuf_pop q))"
    using lt by (auto simp: ringbuf_defs rb_mask_mod)
  show "ringbuf_items (ringbuf_push q x) =
      (if ringbuf_full q then ringbuf_items q else ringbuf_items q @ [x])"
    using lt ring_list_push [OF lt]
    by (auto simp: ringbuf_defs rb_mask_mod)
  assume "ringbuf_items q = x # xs"
  then show "fst (ringbuf_pop q) = x \<and> ringbuf_items (snd (ringbuf_pop q)) = xs"
    using lt ring_list_pop [OF lt(1,2), of "rb_buf q"] ring_list_empty [OF lt(1,2), of "rb_buf q"]
    by (cases "rb_head q = rb_tail q") (auto simp: ringbuf_defs rb_mask_mod)
qed

lemma ringbuf_init_ok:
  "length (rb_buf q) = 256 \<Longrightarrow> ringbuf_ok (ringbuf_init q) \<and> ringbuf_items (ringbuf_init q) = []"
  by (simp add: ringbuf_defs ring_list_def ring_count_def)

end
