(* ===== verification/Comport.thy ===== *)
theory Comport
  imports Ringbuf
begin

text \<open>
  \<open>src/comport/comport.c\<close>: the COM1 driver. The state is the receive ring and the list of port
  writes made so far; what the ports return on a read is an argument (the UART is hardware).
  Busy-waiting for the transmitter is not modelled: a written byte is the port write it ends in.
\<close>

definition PORT :: nat where "PORT = 0x3F8"

record serial =
  ser_rx :: ringbuf
  ser_out :: "(nat \<times> u8) list" \<comment> \<open>port, byte\<close>

definition outb :: "nat \<Rightarrow> u8 \<Rightarrow> serial \<Rightarrow> serial" where
  "outb port b s = s\<lparr>ser_out := ser_out s @ [(port, b)]\<rparr>"

text \<open>\<open>comport_init\<close>: \<open>loopback\<close> is what the data port returns after the test byte is sent.\<close>

definition comport_init :: "u8 \<Rightarrow> serial \<Rightarrow> int \<times> serial" where
  "comport_init loopback s0 =
     (let s = s0\<lparr>ser_rx := ringbuf_init (ser_rx s0)\<rparr>;
          s = outb (PORT + 1) 0x00 s;
          s = outb (PORT + 3) 0x80 s;
          s = outb (PORT + 0) 0x03 s;
          s = outb (PORT + 1) 0x00 s;
          s = outb (PORT + 3) 0x03 s;
          s = outb (PORT + 2) 0xC7 s;
          s = outb (PORT + 4) 0x0B s;
          s = outb (PORT + 4) 0x1E s;
          s = outb (PORT + 0) 0xAE s
      in if loopback \<noteq> 0xAE then (1, s)
         else (let s = outb (PORT + 4) 0x0F s; s = outb (PORT + 1) 0x01 s in (0, s)))"

text \<open>The receive interrupt reads line status and data alternately until the status says that no
  byte is waiting; the list is what those reads return.\<close>

fun comport_irq_handler :: "(u8 \<times> u8) list \<Rightarrow> serial \<Rightarrow> serial" where
  "comport_irq_handler [] s = s"
| "comport_irq_handler ((status, b) # reads) s =
     (if status AND 0x01 \<noteq> 0
      then comport_irq_handler reads (s\<lparr>ser_rx := ringbuf_push (ser_rx s) b\<rparr>) else s)"

text \<open>\<open>None\<close> is the source's \<open>-1\<close>.\<close>

definition comport_poll_char :: "serial \<Rightarrow> u8 option \<times> serial" where
  "comport_poll_char s =
     (if ringbuf_empty (ser_rx s) then (None, s)
      else (Some (fst (ringbuf_pop (ser_rx s))), s\<lparr>ser_rx := snd (ringbuf_pop (ser_rx s))\<rparr>))"

definition comport_write_char :: "u8 \<Rightarrow> serial \<Rightarrow> serial" where
  "comport_write_char ch s = outb PORT ch s"

fun comport_write_string :: "bytes \<Rightarrow> serial \<Rightarrow> serial" where
  "comport_write_string [] s = s"
| "comport_write_string (ch # str) s =
     (if ch = 0 then s else comport_write_string str (comport_write_char ch s))"

text \<open>\<open>serial_read\<close> sleeps until a byte is there; \<open>None\<close> is a wait that no interrupt ends.\<close>

definition serial_read :: "serial \<Rightarrow> (u8 \<times> serial) option" where
  "serial_read s =
     (if ringbuf_empty (ser_rx s) then None
      else Some (fst (ringbuf_pop (ser_rx s)), s\<lparr>ser_rx := snd (ringbuf_pop (ser_rx s))\<rparr>))"

fun comport_read_buffer :: "nat \<Rightarrow> serial \<Rightarrow> (bytes \<times> serial) option" where
  "comport_read_buffer 0 s = Some ([], s)"
| "comport_read_buffer (Suc n) s =
     (case serial_read s of
        None \<Rightarrow> None
      | Some (b, s) \<Rightarrow>
          (case comport_read_buffer n s of None \<Rightarrow> None | Some (bs, s) \<Rightarrow> Some (b # bs, s)))"

section \<open>Received bytes arrive in order\<close>

definition waiting :: "(u8 \<times> u8) list \<Rightarrow> bytes" where
  "waiting reads = map snd (takeWhile (\<lambda>(status, b). status AND 0x01 \<noteq> 0) reads)"

lemma comport_irq_rx:
  "ser_rx (comport_irq_handler reads s) = foldl ringbuf_push (ser_rx s) (waiting reads)"
  by (induction reads s rule: comport_irq_handler.induct) (auto simp: waiting_def)

lemma comport_irq_items:
  "ringbuf_ok (ser_rx s) \<Longrightarrow>
   ringbuf_ok (ser_rx (comport_irq_handler reads s)) \<and>
   ringbuf_items (ser_rx (comport_irq_handler reads s)) =
     take 255 (ringbuf_items (ser_rx s) @ waiting reads)"
  by (simp add: comport_irq_rx rb.fold_push_ok rb.fold_push_items)

lemma comport_poll_items:
  assumes "ringbuf_ok (ser_rx s)"
  shows "comport_poll_char s =
      (case ringbuf_items (ser_rx s) of [] \<Rightarrow> (None, s)
       | b # bs \<Rightarrow> (Some b, s\<lparr>ser_rx := snd (ringbuf_pop (ser_rx s))\<rparr>))"
  using rb.empty_iff [OF assms] rb.pop_items [OF assms]
  by (auto simp: comport_poll_char_def split: list.split)

lemma comport_read_buffer_items:
  "ringbuf_ok (ser_rx s) \<Longrightarrow> n \<le> length (ringbuf_items (ser_rx s)) \<Longrightarrow>
   \<exists>s'. comport_read_buffer n s = Some (take n (ringbuf_items (ser_rx s)), s')
     \<and> ringbuf_ok (ser_rx s') \<and> ringbuf_items (ser_rx s') = drop n (ringbuf_items (ser_rx s))"
proof (induction n arbitrary: s)
  case 0
  then show ?case by simp
next
  case (Suc n)
  then obtain b bs where items: "ringbuf_items (ser_rx s) = b # bs"
    by (cases "ringbuf_items (ser_rx s)") auto
  let ?s = "s\<lparr>ser_rx := snd (ringbuf_pop (ser_rx s))\<rparr>"
  have pop: "fst (ringbuf_pop (ser_rx s)) = b" "ringbuf_items (ser_rx ?s) = bs" "ringbuf_ok (ser_rx ?s)"
    using rb.pop_items [OF Suc.prems(1) items] rb.pop_ok [OF Suc.prems(1)] by auto
  have read: "serial_read s = Some (b, ?s)"
    using rb.empty_iff [OF Suc.prems(1)] items pop by (simp add: serial_read_def)
  have "n \<le> length (ringbuf_items (ser_rx ?s))" using Suc.prems(2) items pop(2) by simp
  from Suc.IH [OF pop(3) this] show ?case using items pop read by auto
qed

lemma comport_write_string_out:
  "ser_out (comport_write_string str s) =
     ser_out s @ map (\<lambda>ch. (PORT, ch)) (takeWhile (\<lambda>ch. ch \<noteq> 0) str)
   \<and> ser_rx (comport_write_string str s) = ser_rx s"
  by (induction str s rule: comport_write_string.induct)
    (auto simp: comport_write_char_def outb_def)

section \<open>Properties\<close>

text \<open>The bytes the receive interrupts find waiting are what a reader gets, in
  order and none twice, as long as no more than 255 are unread; what exceeds that is dropped at the
  end, never in the middle.\<close>

theorem comport_bytes_in_order:
  assumes "ringbuf_ok (ser_rx s)" "n \<le> length (ringbuf_items (ser_rx s) @ waiting reads)" "n \<le> 255"
  shows "\<exists>s'. comport_read_buffer n (comport_irq_handler reads s) =
      Some (take n (ringbuf_items (ser_rx s) @ waiting reads), s')
    \<and> ringbuf_items (ser_rx s') = drop n (take 255 (ringbuf_items (ser_rx s) @ waiting reads))"
proof -
  let ?t = "comport_irq_handler reads s"
  define all where "all = ringbuf_items (ser_rx s) @ waiting reads"
  have t: "ringbuf_ok (ser_rx ?t)" "ringbuf_items (ser_rx ?t) = take 255 all"
    using comport_irq_items [OF assms(1)] by (auto simp: all_def)
  have n: "n \<le> length (take 255 all)" using assms(2,3) by (simp add: all_def)
  have "take n (take 255 all) = take n all" using assms(3) by (simp add: min_def)
  then show ?thesis
    using comport_read_buffer_items [OF t(1), of n] n unfolding t(2) all_def [symmetric] by auto
qed

theorem comport_bytes_in_order_witness:
  "\<exists>s'. comport_read_buffer 2 (comport_irq_handler [(1, 65), (0x61, 66), (0x60, 0)]
      \<lparr>ser_rx = ringbuf_zero, ser_out = []\<rparr>) = Some ([65, 66], s')"
  using comport_bytes_in_order [of "\<lparr>ser_rx = ringbuf_zero, ser_out = []\<rparr>" 2 "[(1, 65), (0x61, 66), (0x60, 0)]"]
  by (auto simp: ringbuf_zero_def ringbuf_ok_def ringbuf_items_def ring_list_def ring_count_def
      RINGBUF_CAPACITY_def waiting_def)

end
