(* ===== verification/Keyboard.thy ===== *)
theory Keyboard
  imports Comport
begin

text \<open>
  \<open>src/input/keyboard.c\<close>: scancodes to key events. The state is the event queue (64 cells, the second
  provider of the queue contract) and the four flags the interrupt handler keeps; the line
  status and the scancode the ports return are arguments.
\<close>

datatype key_event_type =
    KEY_EVENT_NONE | KEY_EVENT_CHARACTER | KEY_EVENT_ENTER | KEY_EVENT_BACKSPACE | KEY_EVENT_DELETE
  | KEY_EVENT_LEFT | KEY_EVENT_RIGHT | KEY_EVENT_UP | KEY_EVENT_DOWN | KEY_EVENT_HOME
  | KEY_EVENT_END | KEY_EVENT_COPY | KEY_EVENT_PASTE

record key_event =
  ev_type :: key_event_type
  ev_char :: u8
  ev_mods :: u8

definition key_event :: "key_event_type \<Rightarrow> u8 \<Rightarrow> u8 \<Rightarrow> key_event" where
  "key_event t ch m = \<lparr>ev_type = t, ev_char = ch, ev_mods = m\<rparr>"

definition KEY_MOD_SHIFT :: u8 where "KEY_MOD_SHIFT = 1"
definition KEY_MOD_CTRL :: u8 where "KEY_MOD_CTRL = 2"
definition KB_QUEUE_SIZE :: nat where "KB_QUEUE_SIZE = 64"

section \<open>The event queue\<close>

record kb_queue =
  kbq_buf :: "key_event list"
  kbq_head :: nat
  kbq_tail :: nat

definition kb_queue_empty :: "kb_queue \<Rightarrow> bool" where
  "kb_queue_empty q \<longleftrightarrow> kbq_head q = kbq_tail q"

definition kb_queue_full :: "kb_queue \<Rightarrow> bool" where
  "kb_queue_full q \<longleftrightarrow> add32 (kbq_head q) 1 mod KB_QUEUE_SIZE = kbq_tail q"

definition kb_queue_push :: "kb_queue \<Rightarrow> key_event \<Rightarrow> kb_queue" where
  "kb_queue_push q ev =
     (if \<not> kb_queue_full q
      then q\<lparr>kbq_buf := (kbq_buf q)[kbq_head q := ev],
             kbq_head := add32 (kbq_head q) 1 mod KB_QUEUE_SIZE\<rparr>
      else q)"

definition kb_queue_pop :: "kb_queue \<Rightarrow> key_event \<times> kb_queue" where
  "kb_queue_pop q =
     (kbq_buf q ! kbq_tail q, q\<lparr>kbq_tail := add32 (kbq_tail q) 1 mod KB_QUEUE_SIZE\<rparr>)"

definition kb_queue_ok :: "kb_queue \<Rightarrow> bool" where
  "kb_queue_ok q \<longleftrightarrow> length (kbq_buf q) = 64 \<and> kbq_head q < 64 \<and> kbq_tail q < 64"

definition kb_queue_items :: "kb_queue \<Rightarrow> key_event list" where
  "kb_queue_items q = ring_list 64 (kbq_buf q) (kbq_head q) (kbq_tail q)"

lemmas kb_queue_defs =
  kb_queue_empty_def kb_queue_full_def kb_queue_push_def kb_queue_pop_def kb_queue_ok_def
  kb_queue_items_def KB_QUEUE_SIZE_def

interpretation kb: bounded_fifo kb_queue_empty kb_queue_full kb_queue_push kb_queue_pop
  kb_queue_items kb_queue_ok 63
proof
  fix q x xs
  assume q: "kb_queue_ok q"
  then have lt: "kbq_head q < 64" "kbq_tail q < 64" "length (kbq_buf q) = 64"
    by (auto simp: kb_queue_ok_def)
  show "kb_queue_empty q \<longleftrightarrow> kb_queue_items q = []"
    using lt by (auto simp: kb_queue_defs ring_list_empty)
  show "kb_queue_full q \<longleftrightarrow> length (kb_queue_items q) = 63"
    using lt ring_full_iff [OF lt(1,2)] by (simp add: kb_queue_defs)
  show "length (kb_queue_items q) \<le> 63"
    using ring_count_bound [OF lt(1,2)] by (simp add: kb_queue_defs)
  show "kb_queue_ok (kb_queue_push q x)" "kb_queue_ok (snd (kb_queue_pop q))"
    using lt by (auto simp: kb_queue_defs)
  show "kb_queue_items (kb_queue_push q x) =
      (if kb_queue_full q then kb_queue_items q else kb_queue_items q @ [x])"
    using lt ring_list_push [OF lt] by (auto simp: kb_queue_defs)
  assume "kb_queue_items q = x # xs"
  then show "fst (kb_queue_pop q) = x \<and> kb_queue_items (snd (kb_queue_pop q)) = xs"
    using lt ring_list_pop [OF lt(1,2), of "kbq_buf q"] ring_list_empty [OF lt(1,2), of "kbq_buf q"]
    by (cases "kbq_head q = kbq_tail q") (auto simp: kb_queue_defs)
qed

section \<open>Scancode translation\<close>

definition keyboard_map :: bytes where
  "keyboard_map =
     [0, 27] @ ascii ''1234567890-='' @ [8, 9] @ ascii ''qwertyuiop[]'' @ [10, 0]
     @ ascii ''asdfghjkl;'' @ [39] @ ascii ''`'' @ [0, 92] @ ascii ''zxcvbnm,./'' @ [0] @ ascii ''*''
     @ [0, 32] @ replicate 70 0"

definition keyboard_shift_map :: bytes where
  "keyboard_shift_map =
     [0, 27] @ ascii ''!@#$%^&*()_+'' @ [8, 9] @ ascii ''QWERTYUIOP{}'' @ [10, 0]
     @ ascii ''ASDFGHJKL:'' @ [34] @ ascii ''~'' @ [0, 124] @ ascii ''ZXCVBNM<>?'' @ [0] @ ascii ''*''
     @ [0, 32] @ replicate 70 0"

record keyboard =
  kb_events :: kb_queue
  kb_extended :: bool
  kb_shift :: bool
  kb_ctrl :: bool
  kb_caps :: bool

definition modifiers :: "keyboard \<Rightarrow> u8" where
  "modifiers k = (if kb_shift k then KEY_MOD_SHIFT else 0) OR (if kb_ctrl k then KEY_MOD_CTRL else 0)"

definition extended_key :: "u8 \<Rightarrow> key_event_type option" where
  "extended_key scancode =
     (if scancode = 0x48 then Some KEY_EVENT_UP
      else if scancode = 0x50 then Some KEY_EVENT_DOWN
      else if scancode = 0x4B then Some KEY_EVENT_LEFT
      else if scancode = 0x4D then Some KEY_EVENT_RIGHT
      else if scancode = 0x47 then Some KEY_EVENT_HOME
      else if scancode = 0x4F then Some KEY_EVENT_END
      else if scancode = 0x53 then Some KEY_EVENT_DELETE
      else None)"

definition kb_push :: "key_event \<Rightarrow> keyboard \<Rightarrow> keyboard" where
  "kb_push ev k = k\<lparr>kb_events := kb_queue_push (kb_events k) ev\<rparr>"

definition caps_fold :: "bool \<Rightarrow> u8 \<Rightarrow> u8" where
  "caps_fold caps ch =
     (if caps \<and> 97 \<le> ch \<and> ch \<le> 122 then ch - 97 + 65
      else if caps \<and> 65 \<le> ch \<and> ch \<le> 90 then ch - 65 + 97
      else ch)"

definition keyboard_key :: "u8 \<Rightarrow> keyboard \<Rightarrow> keyboard" where
  "keyboard_key scancode k =
     (if scancode = 42 \<or> scancode = 54 then k\<lparr>kb_shift := True\<rparr>
      else if scancode = 29 then k\<lparr>kb_ctrl := True\<rparr>
      else if scancode = 58 then k\<lparr>kb_caps := \<not> kb_caps k\<rparr>
      else if scancode = 14 then kb_push (key_event KEY_EVENT_BACKSPACE 0 0) k
      else if scancode = 28 then kb_push (key_event KEY_EVENT_ENTER 0 0) k
      else if 128 \<le> scancode \<or> keyboard_map ! unat scancode = 0 then k
      else (let ch = (if kb_shift k then keyboard_shift_map ! unat scancode
                      else keyboard_map ! unat scancode)
            in if kb_ctrl k \<and> (ch = 99 \<or> ch = 67)
               then kb_push (key_event KEY_EVENT_COPY 0 KEY_MOD_CTRL) k
               else if kb_ctrl k \<and> (ch = 118 \<or> ch = 86)
               then kb_push (key_event KEY_EVENT_PASTE 0 KEY_MOD_CTRL) k
               else kb_push (key_event KEY_EVENT_CHARACTER (caps_fold (kb_caps k) ch) (modifiers k)) k))"

definition keyboard_irq_handler :: "u8 \<Rightarrow> u8 \<Rightarrow> keyboard \<Rightarrow> keyboard" where
  "keyboard_irq_handler status scancode k =
     (if status AND 1 = 0 then k
      else if scancode = 0xE0 then k\<lparr>kb_extended := True\<rparr>
      else if scancode AND 0x80 \<noteq> 0
      then (let key = scancode AND 0x7F;
                k = (if key = 42 \<or> key = 54 then k\<lparr>kb_shift := False\<rparr> else k);
                k = (if key = 29 then k\<lparr>kb_ctrl := False\<rparr> else k)
            in k\<lparr>kb_extended := False\<rparr>)
      else if kb_extended k
      then (let k = k\<lparr>kb_extended := False\<rparr>
            in case extended_key scancode of
                 Some t \<Rightarrow> kb_push (key_event t 0 (modifiers k)) k
               | None \<Rightarrow> k)
      else keyboard_key scancode k)"

definition keyboard_init :: "keyboard \<Rightarrow> keyboard" where
  "keyboard_init k = k\<lparr>kb_events := (kb_events k)\<lparr>kbq_head := 0, kbq_tail := 0\<rparr>\<rparr>"

definition keyboard_serial_event :: "u8 \<Rightarrow> key_event" where
  "keyboard_serial_event ch =
     (if ch = 13 \<or> ch = 10 then key_event KEY_EVENT_ENTER 0 0
      else if ch = 8 \<or> ch = 0x7F then key_event KEY_EVENT_BACKSPACE 0 0
      else key_event KEY_EVENT_CHARACTER ch 0)"

text \<open>One turn of the wait loop of \<open>keyboard_read_event\<close>; \<open>None\<close> is the \<open>hlt\<close>, after which the
  source turns again.\<close>

definition keyboard_read_turn :: "keyboard \<Rightarrow> serial \<Rightarrow> key_event option \<times> keyboard \<times> serial" where
  "keyboard_read_turn k s =
     (if kb_queue_empty (kb_events k)
      then (case comport_poll_char s of
              (Some ch, s) \<Rightarrow> (Some (keyboard_serial_event ch), k, s)
            | (None, s) \<Rightarrow> (None, k, s))
      else (Some (fst (kb_queue_pop (kb_events k))),
            k\<lparr>kb_events := snd (kb_queue_pop (kb_events k))\<rparr>, s))"

definition keyboard_poll_event :: "keyboard \<Rightarrow> serial \<Rightarrow> key_event \<times> keyboard \<times> serial" where
  "keyboard_poll_event k s =
     (if kb_queue_empty (kb_events k)
      then (case comport_poll_char s of
              (Some ch, s) \<Rightarrow> (keyboard_serial_event ch, k, s)
            | (None, s) \<Rightarrow> (key_event KEY_EVENT_NONE 0 0, k, s))
      else (fst (kb_queue_pop (kb_events k)),
            k\<lparr>kb_events := snd (kb_queue_pop (kb_events k))\<rparr>, s))"

lemma keyboard_maps_length: "length keyboard_map = 128" "length keyboard_shift_map = 128"
  by (simp_all add: keyboard_map_def keyboard_shift_map_def ascii_def)

section \<open>What an interrupt queues\<close>

text \<open>One interrupt queues at most one event.\<close>

definition queued :: "keyboard \<Rightarrow> keyboard \<Rightarrow> bool" where
  "queued k k' \<longleftrightarrow>
     kb_events k' = kb_events k \<or> (\<exists>ev. kb_events k' = kb_queue_push (kb_events k) ev)"

lemma queued_intros:
  "kb_events k' = kb_events k \<Longrightarrow> queued k k'"
  "kb_events j = kb_events k \<Longrightarrow> queued k (kb_push ev j)"
  by (auto simp: queued_def kb_push_def)

lemma queued_if: "queued k a \<Longrightarrow> queued k b \<Longrightarrow> queued k (if c then a else b)"
  by simp

lemma queued_key: "queued k (keyboard_key scancode k)"
  unfolding keyboard_key_def Let_def by (intro queued_if) (simp_all add: queued_intros)

lemma queued_irq: "queued k (keyboard_irq_handler status scancode k)"
proof -
  have "queued k (case extended_key scancode of
      Some t \<Rightarrow> kb_push (key_event t 0 m) (k\<lparr>kb_extended := False\<rparr>)
    | None \<Rightarrow> k\<lparr>kb_extended := False\<rparr>)" for m
    by (simp add: queued_intros split: option.split)
  then show ?thesis
    unfolding keyboard_irq_handler_def Let_def
    by (intro queued_if) (simp_all add: queued_intros queued_key)
qed

lemma keyboard_irq_items:
  assumes "kb_queue_ok (kb_events k)"
  shows "kb_queue_ok (kb_events (keyboard_irq_handler status scancode k))
    \<and> (\<exists>evs. length evs \<le> 1 \<and> kb_queue_items (kb_events (keyboard_irq_handler status scancode k))
          = take 63 (kb_queue_items (kb_events k) @ evs))"
proof -
  from queued_irq [of k status scancode] obtain evs where
    "length evs \<le> 1" "kb_events (keyboard_irq_handler status scancode k) = foldl kb_queue_push (kb_events k) evs"
    unfolding queued_def
  proof
    assume "kb_events (keyboard_irq_handler status scancode k) = kb_events k"
    then show ?thesis using that [of "[]"] by simp
  next
    assume "\<exists>ev. kb_events (keyboard_irq_handler status scancode k) = kb_queue_push (kb_events k) ev"
    then obtain ev where "kb_events (keyboard_irq_handler status scancode k) = kb_queue_push (kb_events k) ev" ..
    then show ?thesis using that [of "[ev]"] by simp
  qed
  then show ?thesis using assms by (auto simp: kb.fold_push_ok kb.fold_push_items)
qed

text \<open>On the letter keys the two tables hold the lower- and upper-case form of the same letter.\<close>

definition letter_key :: "u8 \<Rightarrow> bool" where
  "letter_key sc \<longleftrightarrow> sc < 128 \<and> 97 \<le> keyboard_map ! unat sc \<and> keyboard_map ! unat sc \<le> 122"

lemma letter_tables:
  "list_all (\<lambda>(l, u). 97 \<le> l \<and> l \<le> 122 \<longrightarrow> u = l - 32) (zip keyboard_map keyboard_shift_map)"
  by code_simp

lemma not_letter_controls:
  "list_all (\<lambda>sc. \<not> (97 \<le> keyboard_map ! sc \<and> keyboard_map ! sc \<le> 122)) [14, 28, 29, 42, 54, 58]"
  by code_simp

lemma letter_key_shift:
  assumes "letter_key sc"
  shows "keyboard_shift_map ! unat sc = keyboard_map ! unat sc - 32"
proof -
  have i: "unat sc < 128" using assms by (simp add: letter_key_def word_less_nat_alt)
  then have "(keyboard_map ! unat sc, keyboard_shift_map ! unat sc) \<in> set (zip keyboard_map keyboard_shift_map)"
    by (force simp: set_zip keyboard_maps_length)
  with letter_tables assms show ?thesis
    unfolding list_all_iff by (fastforce simp: letter_key_def)
qed

section \<open>Properties\<close>

lemma make_code: "sc < (128 :: u8) \<Longrightarrow> sc AND 0x80 = 0"
proof -
  have "list_all (\<lambda>n. of_nat n < (128 :: u8) \<longrightarrow> (of_nat n :: u8) AND 0x80 = 0) [0..<256]"
    by code_simp
  from byte_all [OF this] show "sc < (128 :: u8) \<Longrightarrow> sc AND 0x80 = 0" by blast
qed

lemma caps_fold_letter:
  "97 \<le> l \<Longrightarrow> l \<le> 122 \<Longrightarrow> caps_fold True l = l - 32 \<and> caps_fold True (l - 32) = l"
proof -
  have "list_all (\<lambda>n. 97 \<le> (of_nat n :: u8) \<and> (of_nat n :: u8) \<le> 122 \<longrightarrow>
      caps_fold True (of_nat n) = of_nat n - 32 \<and> caps_fold True (of_nat n - 32) = of_nat n) [0..<256]"
    by code_simp
  from byte_all [OF this] show "97 \<le> l \<Longrightarrow> l \<le> 122 \<Longrightarrow> caps_fold True l = l - 32 \<and> caps_fold True (l - 32) = l"
    by blast
qed

text \<open>On a letter key without Ctrl the queued character is the letter, in upper
  case exactly when one of Shift and Caps Lock is on but not both.\<close>

theorem keyboard_letter_case:
  assumes "letter_key sc" "\<not> kb_ctrl k" "\<not> kb_extended k" "status AND 1 \<noteq> 0"
  shows "keyboard_irq_handler status sc k =
    kb_push (key_event KEY_EVENT_CHARACTER
      (if kb_shift k \<noteq> kb_caps k then keyboard_map ! unat sc - 32 else keyboard_map ! unat sc)
      (modifiers k)) k"
proof -
  let ?l = "keyboard_map ! unat sc"
  have sc: "sc < 128" and l: "97 \<le> ?l" "?l \<le> 122" using assms(1) by (auto simp: letter_key_def)
  have "sc \<notin> {14, 28, 29, 42, 54, 58}"
  proof
    assume "sc \<in> {14, 28, 29, 42, 54, 58}"
    then have "unat sc \<in> {14, 28, 29, 42, 54, 58}" by auto
    with not_letter_controls l show False by auto
  qed
  then have key: "keyboard_irq_handler status sc k = keyboard_key sc k"
    "sc \<noteq> 42" "sc \<noteq> 54" "sc \<noteq> 29" "sc \<noteq> 58" "sc \<noteq> 14" "sc \<noteq> 28"
    using assms(3,4) sc make_code [OF sc] by (auto simp: keyboard_irq_handler_def)
  have "?l \<noteq> 0" using l by auto
  then show ?thesis
    using key sc assms(2) letter_key_shift [OF assms(1)] caps_fold_letter [OF l]
    by (auto simp: keyboard_key_def Let_def not_le caps_fold_def [of False])
qed

definition idle_keyboard :: keyboard where
  "idle_keyboard =
     \<lparr>kb_events = \<lparr>kbq_buf = replicate 64 (key_event KEY_EVENT_NONE 0 0), kbq_head = 0, kbq_tail = 0\<rparr>,
      kb_extended = False, kb_shift = False, kb_ctrl = False, kb_caps = True\<rparr>"

theorem keyboard_letter_case_witness:
  "kb_queue_items (kb_events (keyboard_irq_handler 1 30 idle_keyboard)) = [key_event KEY_EVENT_CHARACTER 65 0]"
proof -
  have "letter_key 30" "keyboard_map ! 30 = 97" by code_simp+
  moreover have "kb_queue_items (kb_events (kb_push ev idle_keyboard)) = [ev]" for ev
    by (simp add: kb_push_def idle_keyboard_def kb_queue_defs ring_list_def ring_count_def)
  ultimately show ?thesis
    using keyboard_letter_case [of 30 idle_keyboard 1] by (simp add: idle_keyboard_def modifiers_def)
qed

end
