(* ===== verification/Driver_Api.thy ===== *)
theory Driver_Api
  imports Comport
begin

text \<open>
  \<open>src/drivers/driver_api.c\<close>: the host calls a PrismCC driver may make. The state is the region table,
  the active flag and the serial port; device registers are the function \<open>drv_mmio\<close>. Results
  are the source's \<open>int\<close>, so that \<open>-1\<close> is the failure value.
\<close>

definition DRIVER_MMIO_IDENTITY_LIMIT :: nat where "DRIVER_MMIO_IDENTITY_LIMIT = 0x04000000"
definition DRIVER_COM1_BASE :: nat where "DRIVER_COM1_BASE = 0x3F8"
definition DRIVER_COM1_PORT_COUNT :: nat where "DRIVER_COM1_PORT_COUNT = 8"
definition DRIVER_MMIO_MAX_REGIONS :: nat where "DRIVER_MMIO_MAX_REGIONS = 8"

type_synonym region = "nat \<times> nat" \<comment> \<open>base, size\<close>

record driver =
  drv_regions :: "region list"
  drv_active :: bool
  drv_serial :: serial
  drv_mmio :: "nat \<Rightarrow> u32"

definition driver_boot :: "serial \<Rightarrow> driver" where
  "driver_boot s = \<lparr>drv_regions = [], drv_active = False, drv_serial = s, drv_mmio = (\<lambda>a. 0)\<rparr>"

definition driver_runtime_begin :: "u8 \<Rightarrow> driver \<Rightarrow> int \<times> driver" where
  "driver_runtime_begin loopback d =
     (if drv_active d then (-1, d)
      else (case comport_init loopback (drv_serial d) of (status, s) \<Rightarrow>
        if status \<noteq> 0 then (-1, d\<lparr>drv_serial := s\<rparr>)
        else (0, d\<lparr>drv_serial := s, drv_active := True\<rparr>)))"

definition driver_runtime_end :: "driver \<Rightarrow> driver" where
  "driver_runtime_end d =
     (let d = (if drv_active d
               then d\<lparr>drv_serial := outb (DRIVER_COM1_BASE + 1) 0x01 (drv_serial d)\<rparr> else d)
      in d\<lparr>drv_active := False\<rparr>)"

definition driver_api_serial_write :: "bytes \<Rightarrow> driver \<Rightarrow> int \<times> driver" where
  "driver_api_serial_write bs d =
     (if \<not> drv_active d \<or> 4096 < length bs then (-1, d)
      else (0, d\<lparr>drv_serial := foldl (\<lambda>s ch. comport_write_char ch s) (drv_serial d) bs\<rparr>))"

definition driver_api_serial_read :: "driver \<Rightarrow> int \<times> driver" where
  "driver_api_serial_read d =
     (if \<not> drv_active d then (-1, d)
      else (case comport_poll_char (drv_serial d) of
          (None, s) \<Rightarrow> (-1, d\<lparr>drv_serial := s\<rparr>)
        | (Some b, s) \<Rightarrow> (int (unat b), d\<lparr>drv_serial := s\<rparr>)))"

definition port_allowed :: "nat \<Rightarrow> bool" where
  "port_allowed port \<longleftrightarrow>
     \<not> (port < DRIVER_COM1_BASE \<or> DRIVER_COM1_BASE + DRIVER_COM1_PORT_COUNT \<le> port)"

text \<open>\<open>inp\<close> is what the port returns.\<close>

definition driver_api_port_read8 :: "u8 \<Rightarrow> nat \<Rightarrow> driver \<Rightarrow> int" where
  "driver_api_port_read8 inp port d =
     (if \<not> drv_active d \<or> \<not> port_allowed port then -1 else int (unat inp))"

definition driver_api_port_write8 :: "nat \<Rightarrow> nat \<Rightarrow> driver \<Rightarrow> int \<times> driver" where
  "driver_api_port_write8 port v d =
     (if \<not> drv_active d \<or> \<not> port_allowed port \<or> 0xFF < v then (-1, d)
      else (0, d\<lparr>drv_serial := outb (port mod 65536) (of_nat v) (drv_serial d)\<rparr>))"

definition driver_mmio_register_region :: "nat \<Rightarrow> nat \<Rightarrow> driver \<Rightarrow> int \<times> driver" where
  "driver_mmio_register_region base sz d =
     (if sz = 0 \<or> DRIVER_MMIO_IDENTITY_LIMIT \<le> base
         \<or> sub32 DRIVER_MMIO_IDENTITY_LIMIT base < sz
         \<or> DRIVER_MMIO_MAX_REGIONS \<le> length (drv_regions d) then (-1, d)
      else if list_ex (\<lambda>(b, s). base < add32 b s \<and> b < add32 base sz) (drv_regions d) then (-1, d)
      else (0, d\<lparr>drv_regions := drv_regions d @ [(base, sz)]\<rparr>))"

definition driver_mmio_clear_regions :: "driver \<Rightarrow> driver" where
  "driver_mmio_clear_regions d = d\<lparr>drv_regions := []\<rparr>"

definition driver_mmio_address_allowed :: "nat \<Rightarrow> driver \<Rightarrow> bool" where
  "driver_mmio_address_allowed address d =
     (if address AND 3 \<noteq> 0 \<or> DRIVER_MMIO_IDENTITY_LIMIT - 4 < address then False
      else list_ex (\<lambda>(b, s). b \<le> address \<and> sub32 address b \<le> s \<and> 4 \<le> sub32 s (sub32 address b))
             (drv_regions d))"

definition driver_api_mmio_read32 :: "nat \<Rightarrow> driver \<Rightarrow> int" where
  "driver_api_mmio_read32 address d =
     (if \<not> drv_active d \<or> \<not> driver_mmio_address_allowed address d then -1
      else sint (drv_mmio d address))"

definition driver_api_mmio_write32 :: "nat \<Rightarrow> u32 \<Rightarrow> driver \<Rightarrow> int \<times> driver" where
  "driver_api_mmio_write32 address v d =
     (if \<not> drv_active d \<or> \<not> driver_mmio_address_allowed address d then (-1, d)
      else (0, d\<lparr>drv_mmio := (drv_mmio d)(address := v)\<rparr>))"

section \<open>The region table\<close>

text \<open>Regions lie below the identity-mapped limit, are not empty and do not overlap.\<close>

definition disjoint_regions :: "region \<Rightarrow> region \<Rightarrow> bool" where
  "disjoint_regions p q \<longleftrightarrow> fst p + snd p \<le> fst q \<or> fst q + snd q \<le> fst p"

definition driver_ok :: "driver \<Rightarrow> bool" where
  "driver_ok d \<longleftrightarrow>
     length (drv_regions d) \<le> 8 \<and>
     (\<forall>(b, s) \<in> set (drv_regions d). 0 < s \<and> b + s \<le> 0x04000000) \<and>
     sorted_wrt disjoint_regions (drv_regions d)"

lemma driver_mmio_register_ok:
  assumes "driver_ok d"
  shows "driver_ok (snd (driver_mmio_register_region base sz d))"
proof (cases "fst (driver_mmio_register_region base sz d) = 0")
  case True
  then have g: "0 < sz" "base + sz \<le> 0x04000000" "length (drv_regions d) < 8"
    and none: "\<not> list_ex (\<lambda>(b, s). base < add32 b s \<and> b < add32 base sz) (drv_regions d)"
    by (auto simp: driver_mmio_register_region_def DRIVER_MMIO_IDENTITY_LIMIT_def
        DRIVER_MMIO_MAX_REGIONS_def split: if_splits)
  have "disjoint_regions r (base, sz)" if "r \<in> set (drv_regions d)" for r
  proof -
    obtain b s where r: "r = (b, s)" by force
    with assms that have "b + s \<le> 0x04000000" by (auto simp: driver_ok_def)
    moreover have "\<not> (base < add32 b s \<and> b < add32 base sz)"
      using none that r by (auto simp: list_ex_iff)
    ultimately show ?thesis using g r by (auto simp: disjoint_regions_def)
  qed
  moreover have "drv_regions (snd (driver_mmio_register_region base sz d)) = drv_regions d @ [(base, sz)]"
    using True by (auto simp: driver_mmio_register_region_def split: if_splits)
  ultimately show ?thesis
    using assms g by (auto simp: driver_ok_def sorted_wrt_append)
next
  case False
  then have "snd (driver_mmio_register_region base sz d) = d"
    by (auto simp: driver_mmio_register_region_def split: if_splits)
  with assms show ?thesis by simp
qed

text \<open>An allowed address is a word inside one registered region.\<close>

lemma driver_mmio_allowed_iff:
  assumes "driver_ok d"
  shows "driver_mmio_address_allowed address d \<longleftrightarrow>
    address mod 4 = 0 \<and> (\<exists>(b, s) \<in> set (drv_regions d). b \<le> address \<and> address + 4 \<le> b + s)"
proof -
  have a3: "address AND 3 = address mod 4"
    using take_bit_eq_mask [of 2 address] by (simp add: mask_eq_exp_minus_1 take_bit_eq_mod)
  have region: "(b \<le> address \<and> sub32 address b \<le> s \<and> 4 \<le> sub32 s (sub32 address b))
      \<longleftrightarrow> b \<le> address \<and> address + 4 \<le> b + s"
    if "address \<le> 0x03FFFFFC" "b + s \<le> 0x04000000" for b s
    using that by (cases "b \<le> address \<and> address - b \<le> s") auto
  have bound: "address \<le> 0x03FFFFFC"
    if "(b, s) \<in> set (drv_regions d)" "address + 4 \<le> b + s" for b s
    using assms that by (fastforce simp: driver_ok_def)
  show ?thesis
  proof (cases "address \<le> 0x03FFFFFC")
    case True
    have "list_ex (\<lambda>(b, s). b \<le> address \<and> sub32 address b \<le> s \<and> 4 \<le> sub32 s (sub32 address b))
        (drv_regions d) \<longleftrightarrow> (\<exists>(b, s) \<in> set (drv_regions d). b \<le> address \<and> address + 4 \<le> b + s)"
      unfolding list_ex_iff
    proof (rule bex_cong [OF refl], clarsimp)
      fix b s
      assume "(b, s) \<in> set (drv_regions d)"
      with assms have "b + s \<le> 0x04000000" by (auto simp: driver_ok_def)
      from region [OF True this]
      show "(b \<le> address \<and> sub32 address b \<le> s \<and> 4 \<le> sub32 s (sub32 address b))
          \<longleftrightarrow> (b \<le> address \<and> address + 4 \<le> b + s)" .
    qed
    with True show ?thesis
      by (simp add: driver_mmio_address_allowed_def DRIVER_MMIO_IDENTITY_LIMIT_def a3)
  next
    case False
    with bound show ?thesis
      by (auto simp: driver_mmio_address_allowed_def DRIVER_MMIO_IDENTITY_LIMIT_def)
  qed
qed

section \<open>Properties\<close>

text \<open>C12. A driver's memory write touches the machine only when the runtime is active
  and the address is an aligned word inside a registered region; then it changes that word alone.\<close>

theorem driver_mmio_confined:
  assumes "driver_ok d"
  shows "driver_api_mmio_write32 address v d =
    (if drv_active d \<and> address mod 4 = 0
        \<and> (\<exists>(b, s) \<in> set (drv_regions d). b \<le> address \<and> address + 4 \<le> b + s)
     then (0, d\<lparr>drv_mmio := (drv_mmio d)(address := v)\<rparr>) else (-1, d))"
  by (simp add: driver_api_mmio_write32_def driver_mmio_allowed_iff [OF assms])

text \<open>A driver with the VGA text page registered.\<close>

definition vga_driver :: driver where
  "vga_driver =
     (driver_boot \<lparr>ser_rx = ringbuf_zero, ser_out = []\<rparr>)\<lparr>drv_regions := [(0xB8000, 0x1000)], drv_active := True\<rparr>"

theorem driver_mmio_confined_witness:
  "driver_api_mmio_write32 0xB8004 7 vga_driver = (0, vga_driver\<lparr>drv_mmio := (drv_mmio vga_driver)(0xB8004 := 7)\<rparr>)
   \<and> driver_api_mmio_write32 0xB9000 7 vga_driver = (-1, vga_driver)"
  using driver_mmio_confined [of vga_driver "0xB8004" 7] driver_mmio_confined [of vga_driver "0xB9000" 7]
  by (simp add: vga_driver_def driver_ok_def driver_boot_def)

end
