(* ===== verification/Bcvm.thy ===== *)
theory Bcvm
  imports Console Keyboard Driver_Api
begin

text \<open>
  \<open>src/apps/bytecode_vm.c\<close> with the image format of \<open>src/apps/app_format.h\<close>: the bytecode virtual
  machine that runs PrismCC programs inside the kernel. The static arrays of the source are the
  fixed-length lists of the state record, reached through the checked accessors of \<open>Prelude\<close>: an
  access outside its array is the outcome \<open>Trap Out_of_bounds\<close>, and a division that the processor
  refuses is \<open>Trap Divide_error\<close>.
  \<open>int32_t\<close> cells are 32-bit words read with \<open>sint\<close>; signed overflow wraps. Indices and counters
  are naturals with the 16- and 32-bit wrap-around written out.

  The outside world is explicit: \<open>vm_keys\<close> is what successive keyboard polls return, \<open>vm_ports i\<close> what
  the port returns to the \<open>i\<close>th port-read instruction, the console and the driver layer are their models, and the file system is
  reached through the operations of a \<open>vfs_ops\<close> record over an abstract state.
\<close>

section \<open>Limits and formats\<close>

definition BCVM_STACK_MAX :: nat where "BCVM_STACK_MAX = 256"
definition BCVM_LOCALS_MAX :: nat where "BCVM_LOCALS_MAX = 512"
definition BCVM_CALL_DEPTH_MAX :: nat where "BCVM_CALL_DEPTH_MAX = 32"
definition BCVM_MAX_STEPS :: nat where "BCVM_MAX_STEPS = 200000"
definition BCVM_INPUT_MAX :: nat where "BCVM_INPUT_MAX = 127"
definition BCVM_HEAP_STRING_MAX :: nat where "BCVM_HEAP_STRING_MAX = 64"
definition BCVM_HEAP_STRING_BYTES :: nat where "BCVM_HEAP_STRING_BYTES = 4096"
definition BCVM_HEAP_ARRAY_MAX :: nat where "BCVM_HEAP_ARRAY_MAX = 64"
definition BCVM_HEAP_ARRAY_CELLS :: nat where "BCVM_HEAP_ARRAY_CELLS = 1024"
definition BCVM_FILE_PATH_MAX :: nat where "BCVM_FILE_PATH_MAX = 128"
definition BCVM_FILE_TEXT_MAX :: nat where "BCVM_FILE_TEXT_MAX = 2048"
definition BCVM_FLOAT_SCALE :: u32 where "BCVM_FLOAT_SCALE = 1000"
definition VM_STRING_DESC_HEAP_MASK :: u32 where "VM_STRING_DESC_HEAP_MASK = 0x80000000"
definition BCVM_MAGIC :: u32 where "BCVM_MAGIC = 0x4D564342"
definition BCVM_VERSION :: u16 where "BCVM_VERSION = 2"
definition BCVM_IMAGE_HEADER_SIZE :: nat where "BCVM_IMAGE_HEADER_SIZE = 20"

lemmas vm_limits =
  BCVM_STACK_MAX_def BCVM_LOCALS_MAX_def BCVM_CALL_DEPTH_MAX_def BCVM_INPUT_MAX_def
  BCVM_HEAP_STRING_MAX_def BCVM_HEAP_STRING_BYTES_def BCVM_HEAP_ARRAY_MAX_def
  BCVM_HEAP_ARRAY_CELLS_def BCVM_FILE_PATH_MAX_def BCVM_FILE_TEXT_MAX_def BCVM_IMAGE_HEADER_SIZE_def

record bcvm_header =
  h_magic :: u32
  h_version :: u16
  h_reserved :: u16
  h_code_size :: nat
  h_data_size :: nat
  h_entry :: nat

text \<open>\<open>Some None\<close> is the source's \<open>-1\<close>, \<open>None\<close> a read outside the image.\<close>

definition vm_read_header :: "bytes \<Rightarrow> nat \<Rightarrow> bcvm_header option option" where
  "vm_read_header img image_size =
     (if image_size < BCVM_IMAGE_HEADER_SIZE then Some None
      else case (read_u32le img 0, read_u16le img 4, read_u16le img 6, read_u32le img 8,
                 read_u32le img 12, read_u32le img 16) of
        (Some magic, Some version, Some rsv, Some code, Some dat, Some entry) \<Rightarrow>
          (let h = \<lparr>h_magic = magic, h_version = version, h_reserved = rsv, h_code_size = unat code,
                    h_data_size = unat dat, h_entry = unat entry\<rparr>
           in if magic \<noteq> BCVM_MAGIC \<or> version \<noteq> BCVM_VERSION then Some None
              else if image_size - BCVM_IMAGE_HEADER_SIZE < h_code_size h then Some None
              else if image_size - BCVM_IMAGE_HEADER_SIZE - h_code_size h < h_data_size h
              then Some None
              else if h_code_size h \<le> h_entry h then Some None
              else Some (Some h))
      | _ \<Rightarrow> None)"

section \<open>State\<close>

record 'f vfs_ops =
  vfs_read_file :: "bytes \<Rightarrow> nat \<Rightarrow> 'f \<Rightarrow> bytes option \<times> 'f" \<comment> \<open>path, capacity\<close>
  vfs_write_file :: "bytes \<Rightarrow> bytes \<Rightarrow> bool \<Rightarrow> 'f \<Rightarrow> bool \<times> 'f" \<comment> \<open>path, text, append\<close>
  vfs_path_is_dir :: "bytes \<Rightarrow> 'f \<Rightarrow> bool option \<times> 'f"

record 'f vm =
  vm_input_buffer :: bytes
  vm_input_length :: nat
  vm_heap_string_data :: bytes
  vm_heap_string_offset :: "nat list"
  vm_heap_string_length :: "nat list"
  vm_heap_string_used :: "bool list"
  vm_heap_next_offset :: nat
  vm_heap_next_slot :: nat
  vm_heap_array_data :: "u32 list"
  vm_heap_array_offset :: "nat list"
  vm_heap_array_length :: "nat list"
  vm_heap_array_used :: "bool list"
  vm_heap_array_next_offset :: nat
  vm_heap_array_next_slot :: nat
  vm_stack :: "u32 list"
  vm_locals :: "u32 list list"
  vm_call_return_pc :: "nat list"
  vm_file_path_buffer :: bytes
  vm_file_text_buffer :: bytes
  vm_driver_mode :: bool
  vm_sp :: nat
  vm_call_depth :: nat
  vm_pc :: nat
  vm_steps :: nat
  vm_fullscreen :: bool
  vm_con :: console
  vm_keys :: "key_event list"
  vm_ports :: "nat \<Rightarrow> u8"
  vm_port_reads :: nat
  vm_drv :: driver
  vm_fs :: 'f

text \<open>The zero-initialised statics, with the parts of the kernel the machine reaches.\<close>

definition vm_boot :: "key_event list \<Rightarrow> console \<Rightarrow> driver \<Rightarrow> 'f \<Rightarrow> 'f vm" where
  "vm_boot keys con drv fs =
     \<lparr>vm_input_buffer = replicate (BCVM_INPUT_MAX + 1) 0, vm_input_length = 0,
      vm_heap_string_data = replicate BCVM_HEAP_STRING_BYTES 0,
      vm_heap_string_offset = replicate BCVM_HEAP_STRING_MAX 0,
      vm_heap_string_length = replicate BCVM_HEAP_STRING_MAX 0,
      vm_heap_string_used = replicate BCVM_HEAP_STRING_MAX False,
      vm_heap_next_offset = 0, vm_heap_next_slot = 0,
      vm_heap_array_data = replicate BCVM_HEAP_ARRAY_CELLS 0,
      vm_heap_array_offset = replicate BCVM_HEAP_ARRAY_MAX 0,
      vm_heap_array_length = replicate BCVM_HEAP_ARRAY_MAX 0,
      vm_heap_array_used = replicate BCVM_HEAP_ARRAY_MAX False,
      vm_heap_array_next_offset = 0, vm_heap_array_next_slot = 0,
      vm_stack = replicate BCVM_STACK_MAX 0,
      vm_locals = replicate (BCVM_CALL_DEPTH_MAX + 1) (replicate BCVM_LOCALS_MAX 0),
      vm_call_return_pc = replicate BCVM_CALL_DEPTH_MAX 0,
      vm_file_path_buffer = replicate BCVM_FILE_PATH_MAX 0,
      vm_file_text_buffer = replicate (BCVM_FILE_TEXT_MAX + 1) 0, vm_driver_mode = False,
      vm_sp = 0, vm_call_depth = 0, vm_pc = 0, vm_steps = 0, vm_fullscreen = False,
      vm_con = con, vm_keys = keys, vm_ports = (\<lambda>i. 0), vm_port_reads = 0, vm_drv = drv, vm_fs = fs\<rparr>"

text \<open>How a step ends: the loop goes on, the run returns 0, the run returns -1, the run waits for a
  key that never comes, or the processor faults.\<close>

datatype fault = Out_of_bounds | Divide_error

datatype 's outcome = Next 's | Done 's | Fail 's | Wait 's | Trap fault 's

record 'f vm_env =
  ve_image :: bytes
  ve_header :: bcvm_header
  ve_vfs :: "'f vfs_ops"

definition code_size :: "'f vm_env \<Rightarrow> nat" where
  "code_size e = h_code_size (ve_header e)"

definition data_size :: "'f vm_env \<Rightarrow> nat" where
  "data_size e = h_data_size (ve_header e)"

text \<open>\<open>code = image + 20\<close> and \<open>data = code + code_size\<close>.\<close>

definition code_at :: "'f vm_env \<Rightarrow> nat \<Rightarrow> nat" where
  "code_at e off = BCVM_IMAGE_HEADER_SIZE + off"

definition data_at :: "'f vm_env \<Rightarrow> nat \<Rightarrow> nat" where
  "data_at e off = BCVM_IMAGE_HEADER_SIZE + code_size e + off"

section \<open>Stack and operands\<close>

text \<open>\<open>stack[sp++] = v\<close>, \<open>v = stack[--sp]\<close>, \<open>stack[sp - 1]\<close>, and the operand reads at \<open>pc\<close>. The last
  argument of each but the first is what the source does next.\<close>

definition vm_push :: "u32 \<Rightarrow> 'f vm \<Rightarrow> 'f vm outcome" where
  "vm_push v s =
     (case wr (vm_stack s) (vm_sp s) v of
        None \<Rightarrow> Trap Out_of_bounds s
      | Some st \<Rightarrow> Next (s\<lparr>vm_stack := st, vm_sp := add32 (vm_sp s) 1\<rparr>))"

definition vm_pop :: "'f vm \<Rightarrow> (u32 \<Rightarrow> 'f vm \<Rightarrow> 'f vm outcome) \<Rightarrow> 'f vm outcome" where
  "vm_pop s k =
     (case rd (vm_stack s) (sub32 (vm_sp s) 1) of
        None \<Rightarrow> Trap Out_of_bounds s
      | Some v \<Rightarrow> k v (s\<lparr>vm_sp := sub32 (vm_sp s) 1\<rparr>))"

definition vm_peek :: "nat \<Rightarrow> 'f vm \<Rightarrow> (u32 \<Rightarrow> 'f vm outcome) \<Rightarrow> 'f vm outcome" where
  "vm_peek n s k =
     (case rd (vm_stack s) (sub32 (vm_sp s) n) of None \<Rightarrow> Trap Out_of_bounds s | Some v \<Rightarrow> k v)"

definition vm_replace_top :: "u32 \<Rightarrow> 'f vm \<Rightarrow> 'f vm outcome" where
  "vm_replace_top v s =
     (case wr (vm_stack s) (sub32 (vm_sp s) 1) v of
        None \<Rightarrow> Trap Out_of_bounds s | Some st \<Rightarrow> Next (s\<lparr>vm_stack := st\<rparr>))"

definition vm_u8 :: "'f vm_env \<Rightarrow> 'f vm \<Rightarrow> (nat \<Rightarrow> 'f vm \<Rightarrow> 'f vm outcome) \<Rightarrow> 'f vm outcome" where
  "vm_u8 e s k =
     (case rd (ve_image e) (code_at e (vm_pc s)) of
        None \<Rightarrow> Trap Out_of_bounds s
      | Some w \<Rightarrow> k (unat w) (s\<lparr>vm_pc := add32 (vm_pc s) 1\<rparr>))"

definition vm_u16 :: "'f vm_env \<Rightarrow> 'f vm \<Rightarrow> (nat \<Rightarrow> 'f vm \<Rightarrow> 'f vm outcome) \<Rightarrow> 'f vm outcome" where
  "vm_u16 e s k =
     (case read_u16le (ve_image e) (code_at e (vm_pc s)) of
        None \<Rightarrow> Trap Out_of_bounds s
      | Some w \<Rightarrow> k (unat w) (s\<lparr>vm_pc := add32 (vm_pc s) 2\<rparr>))"

definition vm_u32 :: "'f vm_env \<Rightarrow> 'f vm \<Rightarrow> (u32 \<Rightarrow> 'f vm \<Rightarrow> 'f vm outcome) \<Rightarrow> 'f vm outcome" where
  "vm_u32 e s k =
     (case read_u32le (ve_image e) (code_at e (vm_pc s)) of
        None \<Rightarrow> Trap Out_of_bounds s
      | Some w \<Rightarrow> k w (s\<lparr>vm_pc := add32 (vm_pc s) 4\<rparr>))"

section \<open>Heap strings and arrays\<close>

definition vm_make_heap_string_descriptor :: "nat \<Rightarrow> u32" where
  "vm_make_heap_string_descriptor slot = VM_STRING_DESC_HEAP_MASK OR of_nat slot"

text \<open>\<open>None\<close> is an access outside an array, \<open>Some None\<close> the source's \<open>-1\<close>.\<close>

definition vm_resolve_string_descriptor :: "'f vm_env \<Rightarrow> 'f vm \<Rightarrow> u32 \<Rightarrow> bytes option option" where
  "vm_resolve_string_descriptor e s d =
     (if d AND VM_STRING_DESC_HEAP_MASK \<noteq> 0
      then (let slot = unat (d AND 0xFF)
            in if BCVM_HEAP_STRING_MAX \<le> slot then Some None
               else case (rd (vm_heap_string_used s) slot, rd (vm_heap_string_offset s) slot,
                          rd (vm_heap_string_length s) slot) of
                 (Some used, Some off, Some len) \<Rightarrow>
                   if \<not> used then Some None
                   else map_option Some (chunk (vm_heap_string_data s) off len)
               | _ \<Rightarrow> None)
      else (let off = unat (drop_bit 16 d AND 0x7FFF); len = unat (d AND 0xFFFF)
            in if data_size e < add32 off len then Some None
               else map_option Some (chunk (ve_image e) (data_at e off) len)))"

definition vm_with_string ::
    "'f vm_env \<Rightarrow> 'f vm \<Rightarrow> u32 \<Rightarrow> (bytes \<Rightarrow> 'f vm outcome) \<Rightarrow> 'f vm outcome" where
  "vm_with_string e s d k =
     (case vm_resolve_string_descriptor e s d of
        None \<Rightarrow> Trap Out_of_bounds s | Some None \<Rightarrow> Fail s | Some (Some str) \<Rightarrow> k str)"

text \<open>Room for a string: an exhausted heap starts again from the bottom with every slot free, and
  the slot counter wraps.\<close>

definition string_room :: "nat \<Rightarrow> 'f vm \<Rightarrow> 'f vm" where
  "string_room len s =
     (let s = (if BCVM_HEAP_STRING_BYTES < vm_heap_next_offset s + len
               then s\<lparr>vm_heap_next_offset := 0,
                      vm_heap_string_used := replicate BCVM_HEAP_STRING_MAX False\<rparr>
               else s)
      in if BCVM_HEAP_STRING_MAX \<le> vm_heap_next_slot s then s\<lparr>vm_heap_next_slot := 0\<rparr> else s)"

definition vm_store_heap_string ::
    "bytes \<Rightarrow> 'f vm \<Rightarrow> (u32 \<Rightarrow> 'f vm \<Rightarrow> 'f vm outcome) \<Rightarrow> 'f vm outcome" where
  "vm_store_heap_string source s k =
     (let len = length source
      in if BCVM_HEAP_STRING_BYTES < len then Fail s
         else
           (let s = string_room len s; slot = vm_heap_next_slot s; off = vm_heap_next_offset s
            in case (wr (vm_heap_string_offset s) slot off,
                     wr (vm_heap_string_length s) slot len,
                     wr (vm_heap_string_used s) slot True,
                     blit (vm_heap_string_data s) off source) of
                 (Some offs, Some lens, Some used, Some dat) \<Rightarrow>
                   k (vm_make_heap_string_descriptor slot)
                     (s\<lparr>vm_heap_next_slot := (slot + 1) mod 256,
                        vm_heap_string_offset := offs, vm_heap_string_length := lens,
                        vm_heap_string_used := used, vm_heap_string_data := dat,
                        vm_heap_next_offset := add16 off len\<rparr>)
               | _ \<Rightarrow> Trap Out_of_bounds s))"

text \<open>Copies a string and its terminator to the front of the array \<open>out\<close>; the result is the array.\<close>

definition vm_copy_string_descriptor_to_buffer ::
    "'f vm_env \<Rightarrow> 'f vm \<Rightarrow> u32 \<Rightarrow> bytes \<Rightarrow> nat \<Rightarrow> bytes option option" where
  "vm_copy_string_descriptor_to_buffer e s d out out_capacity =
     (if out_capacity = 0 then Some None
      else case vm_resolve_string_descriptor e s d of
        None \<Rightarrow> None
      | Some None \<Rightarrow> Some None
      | Some (Some str) \<Rightarrow>
          if out_capacity < add32 (length str) 1 then Some None
          else map_option Some (blit out 0 (str @ [0])))"

definition array_room :: "nat \<Rightarrow> 'f vm \<Rightarrow> 'f vm" where
  "array_room len s =
     (let s = (if BCVM_HEAP_ARRAY_CELLS < add32 (vm_heap_array_next_offset s) len
               then s\<lparr>vm_heap_array_next_offset := 0, vm_heap_array_next_slot := 0,
                      vm_heap_array_used := replicate BCVM_HEAP_ARRAY_MAX False\<rparr>
               else s)
      in if BCVM_HEAP_ARRAY_MAX \<le> vm_heap_array_next_slot s
         then s\<lparr>vm_heap_array_next_slot := 0\<rparr> else s)"

definition vm_create_array :: "nat \<Rightarrow> 'f vm \<Rightarrow> (u32 \<Rightarrow> 'f vm \<Rightarrow> 'f vm outcome) \<Rightarrow> 'f vm outcome" where
  "vm_create_array len s k =
     (if len = 0 \<or> BCVM_HEAP_ARRAY_CELLS < len then Fail s
      else
        (let s = array_room len s; slot = vm_heap_array_next_slot s;
             off = vm_heap_array_next_offset s
         in case (wr (vm_heap_array_offset s) slot off,
                  wr (vm_heap_array_length s) slot len,
                  wr (vm_heap_array_used s) slot True,
                  blit (vm_heap_array_data s) off (replicate len 0)) of
              (Some offs, Some lens, Some used, Some dat) \<Rightarrow>
                k (of_nat slot)
                  (s\<lparr>vm_heap_array_next_slot := (slot + 1) mod 256,
                     vm_heap_array_offset := offs, vm_heap_array_length := lens,
                     vm_heap_array_used := used, vm_heap_array_data := dat,
                     vm_heap_array_next_offset := add16 off len\<rparr>)
            | _ \<Rightarrow> Trap Out_of_bounds s))"

text \<open>The cell an array access reaches: the shared checks of \<open>vm_get_array_value\<close> and
  \<open>vm_set_array_value\<close>.\<close>

definition vm_array_cell :: "u32 \<Rightarrow> u32 \<Rightarrow> 'f vm \<Rightarrow> (nat \<Rightarrow> 'f vm outcome) \<Rightarrow> 'f vm outcome" where
  "vm_array_cell handle index s k =
     (if BCVM_HEAP_ARRAY_MAX \<le> unat handle then Fail s
      else case (rd (vm_heap_array_used s) (unat handle), rd (vm_heap_array_offset s) (unat handle),
                 rd (vm_heap_array_length s) (unat handle)) of
        (Some used, Some off, Some len) \<Rightarrow>
          if \<not> used \<or> sint index < 0 then Fail s
          else if len \<le> unat index then Fail s
          else k (off + unat index mod 65536)
      | _ \<Rightarrow> Trap Out_of_bounds s)"

definition vm_get_array_value :: "u32 \<Rightarrow> u32 \<Rightarrow> 'f vm \<Rightarrow> (u32 \<Rightarrow> 'f vm outcome) \<Rightarrow> 'f vm outcome" where
  "vm_get_array_value handle index s k =
     vm_array_cell handle index s (\<lambda>cell.
       case rd (vm_heap_array_data s) cell of None \<Rightarrow> Trap Out_of_bounds s | Some v \<Rightarrow> k v)"

definition vm_set_array_value :: "u32 \<Rightarrow> u32 \<Rightarrow> u32 \<Rightarrow> 'f vm \<Rightarrow> 'f vm outcome" where
  "vm_set_array_value handle index v s =
     vm_array_cell handle index s (\<lambda>cell.
       case wr (vm_heap_array_data s) cell v of
         None \<Rightarrow> Trap Out_of_bounds s | Some dat \<Rightarrow> Next (s\<lparr>vm_heap_array_data := dat\<rparr>))"

end
