(* ===== verification/Bcvm_Ops.thy ===== *)
theory Bcvm_Ops
  imports Bcvm
begin

text \<open>
  The instructions of \<open>bytecode_vm_run\<close> in \<open>src/apps/bytecode_vm.c\<close>, one definition per \<open>case\<close> of its
  \<open>switch\<close>, the dispatch table, and the loop around them. An instruction runs with \<open>pc\<close> already past
  its opcode; what a \<open>case\<close> guards with \<open>return -1\<close> is the outcome \<open>Fail\<close>.
\<close>

section \<open>Console output and key input\<close>

definition vm_print :: "bytes \<Rightarrow> 'f vm \<Rightarrow> 'f vm" where
  "vm_print str s = s\<lparr>vm_con := console_write str (vm_con s)\<rparr>"

definition vm_write_int :: "u32 \<Rightarrow> console \<Rightarrow> console" where
  "vm_write_int v c =
     (if sint v < 0 then console_write_uint (- v) (console_write_char 45 c)
      else console_write_uint v c)"

definition vm_write_float :: "u32 \<Rightarrow> console \<Rightarrow> console" where
  "vm_write_float v c =
     (let c = (if sint v < 0 then console_write_char 45 c else c);
          abs_value = (if sint v < 0 then (if v = 0x80000000 then 2147483647 else - v) else v);
          integer_part = abs_value div BCVM_FLOAT_SCALE;
          fraction_part = abs_value mod BCVM_FLOAT_SCALE;
          c = console_write_char 46 (console_write_uint integer_part c);
          c = (if fraction_part < 100 then console_write_char 48 c else c);
          c = (if fraction_part < 10 then console_write_char 48 c else c)
      in console_write_uint fraction_part c)"

definition vm_erase_last_echoed_char :: "console \<Rightarrow> console" where
  "vm_erase_last_echoed_char c =
     (let x = con_x c; y = con_y c
      in if x \<le> 0 then c
         else console_set_cursor (x - 1) y
                (console_write_char 32 (console_set_cursor (x - 1) y c)))"

definition vm_event_requests_quit :: "key_event \<Rightarrow> bool" where
  "vm_event_requests_quit ev \<longleftrightarrow> ev_type ev = KEY_EVENT_CHARACTER \<and> ev_char ev = 27"

text \<open>A poll of an exhausted key list finds no event.\<close>

definition vm_poll_quit_request :: "'f vm \<Rightarrow> bool \<times> 'f vm" where
  "vm_poll_quit_request s =
     (case vm_keys s of
        [] \<Rightarrow> (False, s)
      | ev # evs \<Rightarrow>
          (if ev_type ev = KEY_EVENT_NONE then False else vm_event_requests_quit ev,
           s\<lparr>vm_keys := evs\<rparr>))"

text \<open>The number typed: the digits after an optional sign, accumulated with wrap-around.\<close>

definition vm_parse_int :: "bytes \<Rightarrow> u32" where
  "vm_parse_int buf =
     (case buf of
        [] \<Rightarrow> 0
      | ch # rest \<Rightarrow>
          (let sign = (if ch = 45 then - 1 else 1); ds = (if ch = 45 then rest else buf)
           in foldl (\<lambda>v d. v * 10 + (ucast d - 48)) 0 ds * sign))"

text \<open>\<open>char buffer[32]\<close> of \<open>vm_read_int\<close>.\<close>

definition READ_INT_BUFFER :: nat where "READ_INT_BUFFER = 32"

text \<open>\<open>vm_read_int\<close>: the keys still to come, the array \<open>buffer\<close> with the number of its cells in use,
  the console. \<open>None\<close> is an access outside \<open>buffer\<close>; the integer is \<open>None\<close> when the keys run out and
  the read waits on.\<close>

fun vm_read_int ::
    "key_event list \<Rightarrow> bytes \<Rightarrow> nat \<Rightarrow> console \<Rightarrow> (u32 option \<times> key_event list \<times> console) option" where
  "vm_read_int [] buffer len c = Some (None, [], c)"
| "vm_read_int (ev # evs) buffer len c =
     (if ev_type ev = KEY_EVENT_ENTER then
        (case chunk buffer 0 len of
           None \<Rightarrow> None
         | Some buf \<Rightarrow> Some (Some (vm_parse_int buf), evs, console_write_char 10 c))
      else if ev_type ev = KEY_EVENT_BACKSPACE then
        (if 0 < len then vm_read_int evs buffer (len - 1) (vm_erase_last_echoed_char c)
         else vm_read_int evs buffer len c)
      else if ev_type ev \<noteq> KEY_EVENT_CHARACTER then vm_read_int evs buffer len c
      else if ev_char ev = 45 \<and> len = 0 then
        (case wr buffer len (ev_char ev) of
           None \<Rightarrow> None
         | Some b \<Rightarrow> vm_read_int evs b (len + 1) (console_write_char (ev_char ev) c))
      else if 48 \<le> ev_char ev \<and> ev_char ev \<le> 57 then
        (if len + 1 < READ_INT_BUFFER then
           (case wr buffer len (ev_char ev) of
              None \<Rightarrow> None
            | Some b \<Rightarrow> vm_read_int evs b (len + 1) (console_write_char (ev_char ev) c))
         else vm_read_int evs buffer len c)
      else vm_read_int evs buffer len c)"

definition vm_input_put :: "nat \<Rightarrow> u8 \<Rightarrow> 'f vm \<Rightarrow> ('f vm \<Rightarrow> 'f vm outcome) \<Rightarrow> 'f vm outcome" where
  "vm_input_put i ch s k =
     (case wr (vm_input_buffer s) i ch of
        None \<Rightarrow> Trap Out_of_bounds s | Some b \<Rightarrow> k (s\<lparr>vm_input_buffer := b\<rparr>))"

definition vm_echo :: "u8 \<Rightarrow> 'f vm \<Rightarrow> 'f vm" where
  "vm_echo ch s = s\<lparr>vm_con := console_write_char ch (vm_con s)\<rparr>"

definition vm_unecho :: "'f vm \<Rightarrow> 'f vm" where
  "vm_unecho s = s\<lparr>vm_con := vm_erase_last_echoed_char (vm_con s)\<rparr>"

text \<open>The loop of \<open>vm_read_text\<close> over the keys to come; on Enter \<open>k\<close> goes on with the text.\<close>

fun vm_read_text_loop ::
    "key_event list \<Rightarrow> 'f vm \<Rightarrow> (bytes \<Rightarrow> 'f vm \<Rightarrow> 'f vm outcome) \<Rightarrow> 'f vm outcome" where
  "vm_read_text_loop [] s k = Wait (s\<lparr>vm_keys := []\<rparr>)"
| "vm_read_text_loop (ev # evs) s k =
     (if ev_type ev = KEY_EVENT_ENTER then
        vm_input_put (vm_input_length s) 0 (vm_echo 10 (s\<lparr>vm_keys := evs\<rparr>)) (\<lambda>s.
          case chunk (vm_input_buffer s) 0 (vm_input_length s) of
            None \<Rightarrow> Trap Out_of_bounds s | Some str \<Rightarrow> k str s)
      else if ev_type ev = KEY_EVENT_BACKSPACE then
        (if 0 < vm_input_length s then
           vm_input_put (vm_input_length s - 1) 0 (s\<lparr>vm_input_length := vm_input_length s - 1\<rparr>)
             (\<lambda>s. vm_read_text_loop evs (vm_unecho s) k)
         else vm_read_text_loop evs s k)
      else if ev_type ev \<noteq> KEY_EVENT_CHARACTER then vm_read_text_loop evs s k
      else if 32 \<le> ev_char ev \<and> ev_char ev \<le> 126 then
        (if vm_input_length s < BCVM_INPUT_MAX then
           vm_input_put (vm_input_length s) (ev_char ev) s (\<lambda>s.
             vm_input_put (vm_input_length s + 1) 0 (s\<lparr>vm_input_length := vm_input_length s + 1\<rparr>)
               (\<lambda>s. vm_read_text_loop evs (vm_echo (ev_char ev) s) k))
         else vm_read_text_loop evs s k)
      else vm_read_text_loop evs s k)"

definition vm_read_text :: "'f vm \<Rightarrow> (u32 \<Rightarrow> 'f vm \<Rightarrow> 'f vm outcome) \<Rightarrow> 'f vm outcome" where
  "vm_read_text s k =
     vm_input_put 0 0 (s\<lparr>vm_input_length := 0\<rparr>) (\<lambda>s.
       vm_read_text_loop (vm_keys s) s (\<lambda>str s. vm_store_heap_string str s k))"

section \<open>Constants, locals, arithmetic\<close>

definition no_operand :: "'f vm_env \<Rightarrow> nat \<Rightarrow> 'f vm \<Rightarrow> bool" where
  "no_operand e n s \<longleftrightarrow> code_size e < add32 (vm_pc s) n"

definition stack_full :: "'f vm \<Rightarrow> bool" where
  "stack_full s \<longleftrightarrow> BCVM_STACK_MAX \<le> vm_sp s"

definition op_push_i32 :: "'f vm_env \<Rightarrow> 'f vm \<Rightarrow> 'f vm outcome" where
  "op_push_i32 e s =
     (if no_operand e 4 s \<or> stack_full s then Fail s else vm_u32 e s (\<lambda>v s. vm_push v s))"

definition op_load_local :: "'f vm_env \<Rightarrow> 'f vm \<Rightarrow> 'f vm outcome" where
  "op_load_local e s =
     (if no_operand e 2 s \<or> stack_full s then Fail s
      else vm_u16 e s (\<lambda>index s.
        if BCVM_LOCALS_MAX \<le> index then Fail s
        else case rd (vm_locals s) (vm_call_depth s) of
            None \<Rightarrow> Trap Out_of_bounds s
          | Some frame \<Rightarrow>
              (case rd frame index of None \<Rightarrow> Trap Out_of_bounds s | Some v \<Rightarrow> vm_push v s)))"

definition op_store_local :: "'f vm_env \<Rightarrow> 'f vm \<Rightarrow> 'f vm outcome" where
  "op_store_local e s =
     (if no_operand e 2 s \<or> vm_sp s = 0 then Fail s
      else vm_u16 e s (\<lambda>index s.
        if BCVM_LOCALS_MAX \<le> index then Fail s
        else vm_pop s (\<lambda>v s.
          case rd (vm_locals s) (vm_call_depth s) of
            None \<Rightarrow> Trap Out_of_bounds s
          | Some frame \<Rightarrow>
              (case wr frame index v of
                 None \<Rightarrow> Trap Out_of_bounds s
               | Some frame \<Rightarrow> Next (s\<lparr>vm_locals := (vm_locals s)[vm_call_depth s := frame]\<rparr>)))))"

text \<open>The two operands of a binary instruction.\<close>

definition vm_operands ::
    "'f vm \<Rightarrow> (u32 \<Rightarrow> u32 \<Rightarrow> 'f vm \<Rightarrow> 'f vm outcome) \<Rightarrow> 'f vm outcome" where
  "vm_operands s k =
     (if vm_sp s < 2 then Fail s else vm_pop s (\<lambda>rhs s. vm_pop s (\<lambda>lhs s. k lhs rhs s)))"

definition op_add :: "'f vm_env \<Rightarrow> 'f vm \<Rightarrow> 'f vm outcome" where
  "op_add e s = vm_operands s (\<lambda>lhs rhs s. vm_push (lhs + rhs) s)"

definition op_sub :: "'f vm_env \<Rightarrow> 'f vm \<Rightarrow> 'f vm outcome" where
  "op_sub e s = vm_operands s (\<lambda>lhs rhs s. vm_push (lhs - rhs) s)"

definition op_mul :: "'f vm_env \<Rightarrow> 'f vm \<Rightarrow> 'f vm outcome" where
  "op_mul e s = vm_operands s (\<lambda>lhs rhs s. vm_push (lhs * rhs) s)"

text \<open>\<open>s_div\<close> and \<open>s_mod\<close> are C's \<open>/\<close> and \<open>%\<close> where they do not fault.\<close>

definition s_div :: "u32 \<Rightarrow> u32 \<Rightarrow> u32" where
  "s_div a b = word_of_int (sint a sdiv sint b)"

definition s_mod :: "u32 \<Rightarrow> u32 \<Rightarrow> u32" where
  "s_mod a b = word_of_int (sint a smod sint b)"

text \<open>Signed division truncates; the processor faults when the quotient does not fit.\<close>

definition idiv_faults :: "u32 \<Rightarrow> u32 \<Rightarrow> bool" where
  "idiv_faults lhs rhs \<longleftrightarrow> lhs = 0x80000000 \<and> rhs = 0xFFFFFFFF"

definition op_div :: "'f vm_env \<Rightarrow> 'f vm \<Rightarrow> 'f vm outcome" where
  "op_div e s = vm_operands s (\<lambda>lhs rhs s.
     if rhs = 0 then Fail s
     else if idiv_faults lhs rhs then Trap Divide_error s
     else vm_push (s_div lhs rhs) s)"

definition op_mod :: "'f vm_env \<Rightarrow> 'f vm \<Rightarrow> 'f vm outcome" where
  "op_mod e s = vm_operands s (\<lambda>lhs rhs s.
     if rhs = 0 then Fail s
     else if idiv_faults lhs rhs then Trap Divide_error s
     else vm_push (s_mod lhs rhs) s)"

definition op_fmul :: "'f vm_env \<Rightarrow> 'f vm \<Rightarrow> 'f vm outcome" where
  "op_fmul e s = vm_operands s (\<lambda>lhs rhs s.
     let lhs_whole = s_div lhs BCVM_FLOAT_SCALE;
         lhs_fraction = s_mod lhs BCVM_FLOAT_SCALE
     in vm_push (lhs_whole * rhs + s_div (lhs_fraction * rhs) BCVM_FLOAT_SCALE) s)"

definition op_fdiv :: "'f vm_env \<Rightarrow> 'f vm \<Rightarrow> 'f vm outcome" where
  "op_fdiv e s = vm_operands s (\<lambda>lhs rhs s.
     if rhs = 0 then Fail s
     else if idiv_faults lhs rhs then Trap Divide_error s
     else
       (let lhs_whole = s_div lhs rhs; lhs_fraction = s_mod lhs rhs;
            scaled = lhs_fraction * BCVM_FLOAT_SCALE
        in if idiv_faults scaled rhs then Trap Divide_error s
           else vm_push (lhs_whole * BCVM_FLOAT_SCALE + s_div scaled rhs) s))"

definition op_neg :: "'f vm_env \<Rightarrow> 'f vm \<Rightarrow> 'f vm outcome" where
  "op_neg e s =
     (if vm_sp s = 0 then Fail s else vm_peek 1 s (\<lambda>v. vm_replace_top (- v) s))"

section \<open>Comparison\<close>

definition truth :: "bool \<Rightarrow> u32" where
  "truth b = (if b then 1 else 0)"

definition op_eq :: "'f vm_env \<Rightarrow> 'f vm \<Rightarrow> 'f vm outcome" where
  "op_eq e s = vm_operands s (\<lambda>lhs rhs s. vm_push (truth (lhs = rhs)) s)"

definition op_ne :: "'f vm_env \<Rightarrow> 'f vm \<Rightarrow> 'f vm outcome" where
  "op_ne e s = vm_operands s (\<lambda>lhs rhs s. vm_push (truth (lhs \<noteq> rhs)) s)"

definition op_lt :: "'f vm_env \<Rightarrow> 'f vm \<Rightarrow> 'f vm outcome" where
  "op_lt e s = vm_operands s (\<lambda>lhs rhs s. vm_push (truth (sint lhs < sint rhs)) s)"

definition op_le :: "'f vm_env \<Rightarrow> 'f vm \<Rightarrow> 'f vm outcome" where
  "op_le e s = vm_operands s (\<lambda>lhs rhs s. vm_push (truth (sint lhs \<le> sint rhs)) s)"

definition op_gt :: "'f vm_env \<Rightarrow> 'f vm \<Rightarrow> 'f vm outcome" where
  "op_gt e s = vm_operands s (\<lambda>lhs rhs s. vm_push (truth (sint rhs < sint lhs)) s)"

definition op_ge :: "'f vm_env \<Rightarrow> 'f vm \<Rightarrow> 'f vm outcome" where
  "op_ge e s = vm_operands s (\<lambda>lhs rhs s. vm_push (truth (sint rhs \<le> sint lhs)) s)"

section \<open>Control flow\<close>

definition op_jmp :: "'f vm_env \<Rightarrow> 'f vm \<Rightarrow> 'f vm outcome" where
  "op_jmp e s =
     (if no_operand e 4 s then Fail s
      else vm_u32 e s (\<lambda>target s.
        if code_size e \<le> unat target then Fail s else Next (s\<lparr>vm_pc := unat target\<rparr>)))"

definition op_jmp_if_zero :: "'f vm_env \<Rightarrow> 'f vm \<Rightarrow> 'f vm outcome" where
  "op_jmp_if_zero e s =
     (if no_operand e 4 s \<or> vm_sp s = 0 then Fail s
      else vm_u32 e s (\<lambda>target s. vm_pop s (\<lambda>cond s.
        if cond = 0 then
          (if code_size e \<le> unat target then Fail s else Next (s\<lparr>vm_pc := unat target\<rparr>))
        else Next s)))"

text \<open>\<open>call_return_pc[call_depth++] = pc\<close> and a fresh frame, the first cells of which are \<open>args\<close>.\<close>

definition vm_enter :: "nat \<Rightarrow> u32 list \<Rightarrow> 'f vm \<Rightarrow> 'f vm outcome" where
  "vm_enter target frame s =
     (case (wr (vm_call_return_pc s) (vm_call_depth s) (vm_pc s),
            wr (vm_locals s) (vm_call_depth s + 1) frame) of
        (Some rets, Some locs) \<Rightarrow>
          Next (s\<lparr>vm_call_return_pc := rets, vm_call_depth := vm_call_depth s + 1,
                  vm_locals := locs, vm_pc := target\<rparr>)
      | _ \<Rightarrow> Trap Out_of_bounds s)"

definition op_call :: "'f vm_env \<Rightarrow> 'f vm \<Rightarrow> 'f vm outcome" where
  "op_call e s =
     (if no_operand e 4 s \<or> BCVM_CALL_DEPTH_MAX \<le> vm_call_depth s then Fail s
      else vm_u32 e s (\<lambda>target s.
        if code_size e \<le> unat target then Fail s
        else vm_enter (unat target) (replicate BCVM_LOCALS_MAX 0) s))"

text \<open>\<open>frame_locals[n - 1] = stack[--sp]\<close> for \<open>n\<close> from the argument count down to 1.\<close>

primrec vm_take_args ::
    "nat \<Rightarrow> u32 list \<Rightarrow> 'f vm \<Rightarrow> (u32 list \<Rightarrow> 'f vm \<Rightarrow> 'f vm outcome) \<Rightarrow> 'f vm outcome" where
  "vm_take_args 0 frame s k = k frame s"
| "vm_take_args (Suc n) frame s k =
     vm_pop s (\<lambda>v s.
       case wr frame n v of
         None \<Rightarrow> Trap Out_of_bounds s | Some frame \<Rightarrow> vm_take_args n frame s k)"

definition op_call_args :: "'f vm_env \<Rightarrow> 'f vm \<Rightarrow> 'f vm outcome" where
  "op_call_args e s =
     (if no_operand e 5 s \<or> BCVM_CALL_DEPTH_MAX \<le> vm_call_depth s then Fail s
      else vm_u32 e s (\<lambda>target s. vm_u8 e s (\<lambda>arg_count s.
        if code_size e \<le> unat target \<or> vm_sp s < arg_count then Fail s
        else vm_take_args arg_count (replicate BCVM_LOCALS_MAX 0) s
               (\<lambda>frame s. vm_enter (unat target) frame s))))"

definition vm_finish :: "'f vm \<Rightarrow> 'f vm outcome" where
  "vm_finish s = Done (s\<lparr>vm_con := console_set_cursor_visible True (vm_con s)\<rparr>)"

definition op_ret :: "'f vm_env \<Rightarrow> 'f vm \<Rightarrow> 'f vm outcome" where
  "op_ret e s =
     (if vm_sp s = 0 then Fail s
      else if vm_call_depth s = 0 then vm_finish s
      else vm_pop s (\<lambda>ret_value s.
        let s = s\<lparr>vm_call_depth := vm_call_depth s - 1\<rparr>
        in if stack_full s then Fail s
           else case rd (vm_call_return_pc s) (vm_call_depth s) of
               None \<Rightarrow> Trap Out_of_bounds s
             | Some pc \<Rightarrow> vm_push ret_value (s\<lparr>vm_pc := pc\<rparr>)))"

definition op_pop :: "'f vm_env \<Rightarrow> 'f vm \<Rightarrow> 'f vm outcome" where
  "op_pop e s = (if vm_sp s = 0 then Fail s else Next (s\<lparr>vm_sp := vm_sp s - 1\<rparr>))"

definition op_halt :: "'f vm_env \<Rightarrow> 'f vm \<Rightarrow> 'f vm outcome" where
  "op_halt e s = vm_finish s"

section \<open>Printing\<close>

text \<open>The region \<open>data[offset .. offset + length)\<close> named by two 16-bit operands.\<close>

definition vm_data_operand ::
    "'f vm_env \<Rightarrow> 'f vm \<Rightarrow> (bytes \<Rightarrow> 'f vm \<Rightarrow> 'f vm outcome) \<Rightarrow> 'f vm outcome" where
  "vm_data_operand e s k =
     vm_u16 e s (\<lambda>offset s. vm_u16 e s (\<lambda>len s.
       if data_size e < add32 offset len then Fail s
       else case chunk (ve_image e) (data_at e offset) len of
           None \<Rightarrow> Trap Out_of_bounds s | Some str \<Rightarrow> k str s))"

definition op_print_str :: "'f vm_env \<Rightarrow> 'f vm \<Rightarrow> 'f vm outcome" where
  "op_print_str e s =
     (if no_operand e 4 s then Fail s
      else vm_data_operand e s (\<lambda>str s. Next (vm_print str s)))"

definition op_print_int :: "'f vm_env \<Rightarrow> 'f vm \<Rightarrow> 'f vm outcome" where
  "op_print_int e s =
     (if vm_sp s = 0 then Fail s
      else vm_pop s (\<lambda>v s. Next (s\<lparr>vm_con := vm_write_int v (vm_con s)\<rparr>)))"

definition op_print_float :: "'f vm_env \<Rightarrow> 'f vm \<Rightarrow> 'f vm outcome" where
  "op_print_float e s =
     (if vm_sp s = 0 then Fail s
      else vm_pop s (\<lambda>v s. Next (s\<lparr>vm_con := vm_write_float v (vm_con s)\<rparr>)))"

definition vm_set_fg :: "nat \<Rightarrow> 'f vm \<Rightarrow> 'f vm" where
  "vm_set_fg color s = s\<lparr>vm_con := console_set_fg_color color (vm_con s)\<rparr>"

definition vm_print_color :: "u32 \<Rightarrow> bytes \<Rightarrow> 'f vm \<Rightarrow> 'f vm" where
  "vm_print_color color str s =
     vm_set_fg COLOR_WHITE (vm_print str (vm_set_fg (unat (color AND 0x0F)) s))"

definition op_print_color_str :: "'f vm_env \<Rightarrow> 'f vm \<Rightarrow> 'f vm outcome" where
  "op_print_color_str e s =
     (if no_operand e 4 s \<or> vm_sp s = 0 then Fail s
      else vm_data_operand e s (\<lambda>str s. vm_pop s (\<lambda>color s.
        Next (vm_print_color (if sint color < 0 then 0 else color) str s))))"

definition op_print_str_val :: "'f vm_env \<Rightarrow> 'f vm \<Rightarrow> 'f vm outcome" where
  "op_print_str_val e s =
     (if vm_sp s = 0 then Fail s
      else vm_pop s (\<lambda>d s. vm_with_string e s d (\<lambda>str. Next (vm_print str s))))"

definition op_print_color_str_val :: "'f vm_env \<Rightarrow> 'f vm \<Rightarrow> 'f vm outcome" where
  "op_print_color_str_val e s =
     (if vm_sp s < 2 then Fail s
      else vm_peek 2 s (\<lambda>color. vm_peek 1 s (\<lambda>d. vm_with_string e s d (\<lambda>str.
        Next (vm_print_color color str (s\<lparr>vm_sp := vm_sp s - 2\<rparr>))))))"

definition op_print_nl :: "'f vm_env \<Rightarrow> 'f vm \<Rightarrow> 'f vm outcome" where
  "op_print_nl e s = Next (vm_echo 10 s)"

definition op_print_char :: "'f vm_env \<Rightarrow> 'f vm \<Rightarrow> 'f vm outcome" where
  "op_print_char e s =
     (if vm_sp s = 0 then Fail s
      else vm_pop s (\<lambda>v s. Next (vm_echo (ucast (v AND 0xFF)) s)))"

section \<open>Input\<close>

definition op_read_int :: "'f vm_env \<Rightarrow> 'f vm \<Rightarrow> 'f vm outcome" where
  "op_read_int e s =
     (if stack_full s then Fail s
      else case vm_read_int (vm_keys s) (replicate READ_INT_BUFFER 0) 0 (vm_con s) of
          None \<Rightarrow> Trap Out_of_bounds s
        | Some (None, evs, c) \<Rightarrow> Wait (s\<lparr>vm_keys := evs, vm_con := c\<rparr>)
        | Some (Some v, evs, c) \<Rightarrow> vm_push v (s\<lparr>vm_keys := evs, vm_con := c\<rparr>))"

definition op_read_text :: "'f vm_env \<Rightarrow> 'f vm \<Rightarrow> 'f vm outcome" where
  "op_read_text e s =
     (if stack_full s then Fail s else vm_read_text s (\<lambda>descriptor s. vm_push descriptor s))"

definition op_print_input :: "'f vm_env \<Rightarrow> 'f vm \<Rightarrow> 'f vm outcome" where
  "op_print_input e s =
     (case chunk (vm_input_buffer s) 0 (vm_input_length s) of
        None \<Rightarrow> Trap Out_of_bounds s | Some str \<Rightarrow> Next (vm_print str s))"

definition op_input_len :: "'f vm_env \<Rightarrow> 'f vm \<Rightarrow> 'f vm outcome" where
  "op_input_len e s =
     (if stack_full s then Fail s else vm_push (of_nat (vm_input_length s)) s)"

definition op_input_eq :: "'f vm_env \<Rightarrow> 'f vm \<Rightarrow> 'f vm outcome" where
  "op_input_eq e s =
     (if no_operand e 4 s \<or> stack_full s then Fail s
      else vm_data_operand e s (\<lambda>str s.
        if length str \<noteq> vm_input_length s then vm_push 0 s
        else case chunk (vm_input_buffer s) 0 (vm_input_length s) of
            None \<Rightarrow> Trap Out_of_bounds s | Some inp \<Rightarrow> vm_push (truth (inp = str)) s))"

section \<open>Strings and arrays\<close>

definition op_str_len :: "'f vm_env \<Rightarrow> 'f vm \<Rightarrow> 'f vm outcome" where
  "op_str_len e s =
     (if vm_sp s = 0 then Fail s
      else vm_peek 1 s (\<lambda>d. vm_with_string e s d (\<lambda>str.
        vm_replace_top (of_nat (length str)) s)))"

definition op_str_eq :: "'f vm_env \<Rightarrow> 'f vm \<Rightarrow> 'f vm outcome" where
  "op_str_eq e s =
     (if vm_sp s < 2 then Fail s
      else vm_peek 2 s (\<lambda>l. vm_with_string e s l (\<lambda>lhs.
           vm_peek 1 s (\<lambda>r. vm_with_string e s r (\<lambda>rhs.
             vm_push (truth (lhs = rhs)) (s\<lparr>vm_sp := vm_sp s - 2\<rparr>))))))"

definition op_arr_new :: "'f vm_env \<Rightarrow> 'f vm \<Rightarrow> 'f vm outcome" where
  "op_arr_new e s =
     (if no_operand e 2 s \<or> stack_full s then Fail s
      else vm_u16 e s (\<lambda>len s. vm_create_array len s (\<lambda>handle s. vm_push handle s)))"

definition op_arr_get :: "'f vm_env \<Rightarrow> 'f vm \<Rightarrow> 'f vm outcome" where
  "op_arr_get e s =
     (if vm_sp s < 2 then Fail s
      else vm_pop s (\<lambda>index s. vm_pop s (\<lambda>handle s.
        vm_get_array_value handle index s (\<lambda>v. vm_push v s))))"

definition op_arr_set :: "'f vm_env \<Rightarrow> 'f vm \<Rightarrow> 'f vm outcome" where
  "op_arr_set e s =
     (if vm_sp s < 3 then Fail s
      else vm_pop s (\<lambda>v s. vm_pop s (\<lambda>index s. vm_pop s (\<lambda>handle s.
        vm_set_array_value handle index v s))))"

section \<open>Files\<close>

text \<open>The path handed to the file system is the C string in \<open>vm_file_path_buffer\<close>.\<close>

definition c_string :: "bytes \<Rightarrow> bytes" where
  "c_string buf = takeWhile (\<lambda>ch. ch \<noteq> 0) buf"

definition vm_with_path ::
    "'f vm_env \<Rightarrow> 'f vm \<Rightarrow> u32 \<Rightarrow> 'f vm outcome \<Rightarrow> (bytes \<Rightarrow> 'f vm \<Rightarrow> 'f vm outcome) \<Rightarrow> 'f vm outcome" where
  "vm_with_path e s path_desc bad k =
     (case vm_copy_string_descriptor_to_buffer e s path_desc (vm_file_path_buffer s) BCVM_FILE_PATH_MAX of
        None \<Rightarrow> Trap Out_of_bounds s
      | Some None \<Rightarrow> bad
      | Some (Some buffer) \<Rightarrow> k (c_string buffer) (s\<lparr>vm_file_path_buffer := buffer\<rparr>))"

text \<open>\<open>vfs_read_file\<close> stores at most the \<open>BCVM_FILE_TEXT_MAX\<close> bytes it is told of at the front of
  \<open>vm_file_text_buffer\<close>; the size it reports is not bounded by that.\<close>

definition vm_take_text ::
    "bytes \<Rightarrow> 'f vm \<Rightarrow> (bytes \<Rightarrow> 'f vm \<Rightarrow> 'f vm outcome) \<Rightarrow> 'f vm outcome" where
  "vm_take_text content s k =
     (case blit (vm_file_text_buffer s) 0 (take BCVM_FILE_TEXT_MAX content) of
        None \<Rightarrow> Trap Out_of_bounds s
      | Some buffer \<Rightarrow>
          let s = s\<lparr>vm_file_text_buffer := buffer\<rparr>; len = length content
          in if BCVM_FILE_TEXT_MAX < len then Fail s
             else case wr buffer len 0 of
                 None \<Rightarrow> Trap Out_of_bounds s
               | Some buffer \<Rightarrow>
                   (case chunk buffer 0 len of
                      None \<Rightarrow> Trap Out_of_bounds s
                    | Some str \<Rightarrow> k str (s\<lparr>vm_file_text_buffer := buffer\<rparr>)))"

definition op_file_read :: "'f vm_env \<Rightarrow> 'f vm \<Rightarrow> 'f vm outcome" where
  "op_file_read e s =
     (if vm_sp s < 1 then Fail s
      else vm_pop s (\<lambda>path_desc s. vm_with_path e s path_desc (Fail s) (\<lambda>path s.
        case vfs_read_file (ve_vfs e) path BCVM_FILE_TEXT_MAX (vm_fs s) of
          (None, fs) \<Rightarrow> Fail (s\<lparr>vm_fs := fs\<rparr>)
        | (Some content, fs) \<Rightarrow>
            vm_take_text content (s\<lparr>vm_fs := fs\<rparr>) (\<lambda>str s.
              vm_store_heap_string str s (\<lambda>text_desc s.
                if stack_full s then Fail s else vm_push text_desc s)))))"

text \<open>\<open>FILE_WRITE\<close> and \<open>FILE_APPEND\<close> differ in the last argument of \<open>vfs_write_file\<close>.\<close>

definition vm_file_put :: "bool \<Rightarrow> 'f vm_env \<Rightarrow> 'f vm \<Rightarrow> 'f vm outcome" where
  "vm_file_put app e s =
     (if vm_sp s < 2 \<or> stack_full s then Fail s
      else vm_pop s (\<lambda>text_desc s. vm_pop s (\<lambda>path_desc s.
        vm_with_path e s path_desc (vm_push (- 1) s) (\<lambda>path s.
          case vm_resolve_string_descriptor e s text_desc of
            None \<Rightarrow> Trap Out_of_bounds s
          | Some None \<Rightarrow> vm_push (- 1) s
          | Some (Some str) \<Rightarrow>
              (case vfs_write_file (ve_vfs e) path str app (vm_fs s) of
                 (ok, fs) \<Rightarrow> vm_push (if ok then 0 else - 1) (s\<lparr>vm_fs := fs\<rparr>))))))"

definition op_file_write :: "'f vm_env \<Rightarrow> 'f vm \<Rightarrow> 'f vm outcome" where
  "op_file_write e s = vm_file_put False e s"

definition op_file_append :: "'f vm_env \<Rightarrow> 'f vm \<Rightarrow> 'f vm outcome" where
  "op_file_append e s = vm_file_put True e s"

definition op_file_exists :: "'f vm_env \<Rightarrow> 'f vm \<Rightarrow> 'f vm outcome" where
  "op_file_exists e s =
     (if vm_sp s < 1 \<or> stack_full s then Fail s
      else vm_pop s (\<lambda>path_desc s. vm_with_path e s path_desc (vm_push 0 s) (\<lambda>path s.
        case vfs_path_is_dir (ve_vfs e) path (vm_fs s) of
          (found, fs) \<Rightarrow> vm_push (truth (found \<noteq> None)) (s\<lparr>vm_fs := fs\<rparr>))))"

section \<open>Screen and application control\<close>

definition op_set_fullscreen :: "'f vm_env \<Rightarrow> 'f vm \<Rightarrow> 'f vm outcome" where
  "op_set_fullscreen e s =
     (if vm_sp s = 0 then Fail s
      else vm_pop s (\<lambda>enabled s.
        let s = s\<lparr>vm_fullscreen := enabled \<noteq> 0\<rparr>
        in Next (s\<lparr>vm_con := console_set_cursor_visible (\<not> vm_fullscreen s) (vm_con s)\<rparr>)))"

definition op_app_should_quit :: "'f vm_env \<Rightarrow> 'f vm \<Rightarrow> 'f vm outcome" where
  "op_app_should_quit e s =
     (if stack_full s then Fail s
      else (case vm_poll_quit_request s of (quit, s) \<Rightarrow> vm_push (truth quit) s))"

definition op_app_exit :: "'f vm_env \<Rightarrow> 'f vm \<Rightarrow> 'f vm outcome" where
  "op_app_exit e s = vm_finish s"

definition op_draw_pixel :: "'f vm_env \<Rightarrow> 'f vm \<Rightarrow> 'f vm outcome" where
  "op_draw_pixel e s =
     (if vm_sp s < 3 then Fail s
      else vm_pop s (\<lambda>color s. vm_pop s (\<lambda>y s. vm_pop s (\<lambda>x s.
        let color = (if sint color < 0 then 0 else color);
            color = (if 15 < sint color then 15 else color)
        in Next (s\<lparr>vm_con := console_draw_pixel x y (unat color) (vm_con s)\<rparr>)))))"

section \<open>Driver services\<close>

text \<open>\<open>int32_t\<close> results of the driver layer as stack cells.\<close>

definition cell :: "int \<Rightarrow> u32" where
  "cell i = word_of_int i"

definition op_driver_serial_write :: "'f vm_env \<Rightarrow> 'f vm \<Rightarrow> 'f vm outcome" where
  "op_driver_serial_write e s =
     (if \<not> vm_driver_mode s \<or> vm_sp s = 0 \<or> stack_full s then Fail s
      else vm_pop s (\<lambda>d s. vm_with_string e s d (\<lambda>str.
        case driver_api_serial_write str (vm_drv s) of
          (status, drv) \<Rightarrow> vm_push (cell status) (s\<lparr>vm_drv := drv\<rparr>))))"

definition op_driver_serial_read :: "'f vm_env \<Rightarrow> 'f vm \<Rightarrow> 'f vm outcome" where
  "op_driver_serial_read e s =
     (if \<not> vm_driver_mode s \<or> stack_full s then Fail s
      else (case driver_api_serial_read (vm_drv s) of
          (v, drv) \<Rightarrow> vm_push (cell v) (s\<lparr>vm_drv := drv\<rparr>)))"

definition op_driver_port_read8 :: "'f vm_env \<Rightarrow> 'f vm \<Rightarrow> 'f vm outcome" where
  "op_driver_port_read8 e s =
     (if \<not> vm_driver_mode s \<or> vm_sp s = 0 then Fail s
      else vm_peek 1 s (\<lambda>port.
        vm_replace_top
          (cell (driver_api_port_read8 (vm_ports s (vm_port_reads s)) (unat port) (vm_drv s)))
          (s\<lparr>vm_port_reads := vm_port_reads s + 1\<rparr>)))"

definition op_driver_port_write8 :: "'f vm_env \<Rightarrow> 'f vm \<Rightarrow> 'f vm outcome" where
  "op_driver_port_write8 e s =
     (if \<not> vm_driver_mode s \<or> vm_sp s < 2 then Fail s
      else vm_pop s (\<lambda>v s. vm_pop s (\<lambda>port s.
        case driver_api_port_write8 (unat port) (unat v) (vm_drv s) of
          (status, drv) \<Rightarrow> vm_push (cell status) (s\<lparr>vm_drv := drv\<rparr>))))"

definition op_driver_mmio_read32 :: "'f vm_env \<Rightarrow> 'f vm \<Rightarrow> 'f vm outcome" where
  "op_driver_mmio_read32 e s =
     (if \<not> vm_driver_mode s \<or> vm_sp s = 0 then Fail s
      else vm_peek 1 s (\<lambda>address.
        vm_replace_top (cell (driver_api_mmio_read32 (unat address) (vm_drv s))) s))"

definition op_driver_mmio_write32 :: "'f vm_env \<Rightarrow> 'f vm \<Rightarrow> 'f vm outcome" where
  "op_driver_mmio_write32 e s =
     (if \<not> vm_driver_mode s \<or> vm_sp s < 2 then Fail s
      else vm_pop s (\<lambda>v s. vm_pop s (\<lambda>address s.
        case driver_api_mmio_write32 (unat address) v (vm_drv s) of
          (status, drv) \<Rightarrow> vm_push (cell status) (s\<lparr>vm_drv := drv\<rparr>))))"

definition op_driver_should_stop :: "'f vm_env \<Rightarrow> 'f vm \<Rightarrow> 'f vm outcome" where
  "op_driver_should_stop e s =
     (if \<not> vm_driver_mode s \<or> stack_full s then Fail s
      else (case vm_poll_quit_request (s\<lparr>vm_steps := 0\<rparr>) of
          (quit, s) \<Rightarrow> vm_push (truth quit) s))"

section \<open>Dispatch and the loop\<close>

text \<open>The opcodes of \<open>app_format.h\<close> with their cases; any other opcode ends the run with -1.\<close>

definition bcvm_ops :: "(u8 \<times> ('f vm_env \<Rightarrow> 'f vm \<Rightarrow> 'f vm outcome)) list" where
  "bcvm_ops =
     [(0x01, op_push_i32), (0x02, op_load_local), (0x03, op_store_local), (0x04, op_add),
      (0x05, op_sub), (0x06, op_mul), (0x07, op_div), (0x08, op_print_str), (0x09, op_print_int),
      (0x0A, op_print_nl), (0x0B, op_pop), (0x0C, op_ret), (0x0D, op_halt), (0x0E, op_neg),
      (0x0F, op_jmp), (0x10, op_jmp_if_zero), (0x11, op_eq), (0x12, op_ne), (0x13, op_lt),
      (0x14, op_le), (0x15, op_gt), (0x16, op_ge), (0x17, op_call), (0x18, op_call_args),
      (0x19, op_read_int), (0x1A, op_print_color_str), (0x1B, op_read_text),
      (0x1C, op_print_input), (0x1D, op_input_len), (0x1E, op_input_eq),
      (0x1F, op_print_str_val), (0x20, op_str_len), (0x21, op_str_eq),
      (0x22, op_print_color_str_val), (0x23, op_arr_new), (0x24, op_arr_get),
      (0x25, op_arr_set), (0x26, op_file_read), (0x27, op_file_write), (0x28, op_file_append),
      (0x29, op_file_exists), (0x2A, op_mod), (0x2B, op_set_fullscreen),
      (0x2C, op_app_should_quit), (0x2D, op_app_exit), (0x2E, op_draw_pixel),
      (0x2F, op_print_char), (0x30, op_fmul), (0x31, op_fdiv), (0x32, op_print_float),
      (0x33, op_driver_serial_write), (0x34, op_driver_serial_read),
      (0x35, op_driver_port_read8), (0x36, op_driver_port_write8),
      (0x37, op_driver_mmio_read32), (0x38, op_driver_mmio_write32),
      (0x39, op_driver_should_stop)]"

definition bcvm_exec :: "'f vm_env \<Rightarrow> u8 \<Rightarrow> 'f vm \<Rightarrow> 'f vm outcome" where
  "bcvm_exec e opcode s = (case map_of bcvm_ops opcode of None \<Rightarrow> Fail s | Some f \<Rightarrow> f e s)"

text \<open>One turn of the \<open>while\<close> loop.\<close>

definition bcvm_iter :: "'f vm_env \<Rightarrow> 'f vm \<Rightarrow> 'f vm outcome" where
  "bcvm_iter e s =
     (if code_size e \<le> vm_pc s then Fail s
      else case rd (ve_image e) (code_at e (vm_pc s)) of
          None \<Rightarrow> Trap Out_of_bounds s
        | Some opcode \<Rightarrow>
            (let s = s\<lparr>vm_pc := add32 (vm_pc s) 1, vm_steps := add32 (vm_steps s) 1\<rparr>
             in if \<not> vm_fullscreen s \<and> BCVM_MAX_STEPS \<le> vm_steps s then Fail s
                else
                  (let s = (if vm_fullscreen s \<and> vm_steps s = 0xFFFFFFFF
                            then s\<lparr>vm_steps := 0\<rparr> else s)
                   in if vm_fullscreen s
                      then (case vm_poll_quit_request s of
                          (quit, s) \<Rightarrow> if quit then vm_finish s else bcvm_exec e opcode s)
                      else bcvm_exec e opcode s)))"

text \<open>\<open>fuel\<close> bounds the turns; \<open>Next\<close> is a loop that has not ended within it.\<close>

fun bcvm_loop :: "nat \<Rightarrow> 'f vm_env \<Rightarrow> 'f vm \<Rightarrow> 'f vm outcome" where
  "bcvm_loop 0 e s = Next s"
| "bcvm_loop (Suc n) e s =
     (case bcvm_iter e s of Next s' \<Rightarrow> bcvm_loop n e s' | r \<Rightarrow> r)"

definition bcvm_reset :: "'f vm \<Rightarrow> 'f vm outcome" where
  "bcvm_reset s0 =
     vm_input_put 0 0 (s0\<lparr>vm_input_length := 0\<rparr>) (\<lambda>s.
       Next (s\<lparr>vm_heap_next_offset := 0, vm_heap_next_slot := 0,
               vm_heap_array_next_offset := 0, vm_heap_array_next_slot := 0,
               vm_heap_string_used := replicate BCVM_HEAP_STRING_MAX False,
               vm_heap_array_used := replicate BCVM_HEAP_ARRAY_MAX False\<rparr>))"

definition bcvm_start :: "bcvm_header \<Rightarrow> 'f vm \<Rightarrow> 'f vm" where
  "bcvm_start h s =
     s\<lparr>vm_stack := replicate BCVM_STACK_MAX 0,
       vm_locals := replicate (BCVM_CALL_DEPTH_MAX + 1) (replicate BCVM_LOCALS_MAX 0),
       vm_call_return_pc := replicate BCVM_CALL_DEPTH_MAX 0,
       vm_sp := 0, vm_call_depth := 0, vm_pc := h_entry h, vm_steps := 0,
       vm_fullscreen := False\<rparr>"

definition bytecode_vm_run :: "nat \<Rightarrow> 'f vfs_ops \<Rightarrow> bytes \<Rightarrow> 'f vm \<Rightarrow> 'f vm outcome" where
  "bytecode_vm_run fuel vfs img s =
     (case bcvm_reset s of
        Next s \<Rightarrow>
          (case vm_read_header img (length img) of
             None \<Rightarrow> Trap Out_of_bounds s
           | Some None \<Rightarrow> Fail s
           | Some (Some h) \<Rightarrow>
               bcvm_loop fuel \<lparr>ve_image = img, ve_header = h, ve_vfs = vfs\<rparr> (bcvm_start h s))
      | r \<Rightarrow> r)"

text \<open>\<open>loopback\<close> is what the serial self-test reads.\<close>

definition vm_driver_done :: "'f vm \<Rightarrow> 'f vm" where
  "vm_driver_done s = s\<lparr>vm_driver_mode := False, vm_drv := driver_runtime_end (vm_drv s)\<rparr>"

definition bytecode_vm_run_driver ::
    "nat \<Rightarrow> u8 \<Rightarrow> 'f vfs_ops \<Rightarrow> bytes \<Rightarrow> 'f vm \<Rightarrow> 'f vm outcome" where
  "bytecode_vm_run_driver fuel loopback vfs img s =
     (case driver_runtime_begin loopback (vm_drv s) of
        (status, drv) \<Rightarrow>
          (let s = s\<lparr>vm_drv := drv\<rparr>
           in if status \<noteq> 0 then Fail s
              else case bytecode_vm_run fuel vfs img (s\<lparr>vm_driver_mode := True\<rparr>) of
                  Done s \<Rightarrow> Done (vm_driver_done s)
                | Fail s \<Rightarrow> Fail (vm_driver_done s)
                | r \<Rightarrow> r))"

end
