(* ===== verification/Bcvm_Safety.thy ===== *)
theory Bcvm_Safety
  imports Bcvm_Ops
begin

text \<open>
  Memory safety of the bytecode virtual machine: a well-formedness invariant of its static state,
  kept by every instruction, under which no access leaves its array. The rules follow the
  continuation-passing primitives of \<open>Bcvm\<close>, so that an instruction is safe by the rules of the
  primitives it is built from. The same rules carry the frame \<open>vm_frame\<close>: no instruction but
  SET_FULLSCREEN and DRIVER_SHOULD_STOP touches the step budget.
\<close>

section \<open>The invariant\<close>

text \<open>A bump-allocated heap: what is in use lies below the next free cell and no two objects in use
  overlap.\<close>

definition heap_ok :: "nat \<Rightarrow> nat \<Rightarrow> nat list \<Rightarrow> nat list \<Rightarrow> bool list \<Rightarrow> bool" where
  "heap_ok limit nxt offs lens used \<longleftrightarrow>
     length offs = 64 \<and> length lens = 64 \<and> length used = 64 \<and> nxt \<le> limit \<and>
     (\<forall>i < 64. used ! i \<longrightarrow> offs ! i + lens ! i \<le> nxt) \<and>
     (\<forall>i < 64. \<forall>j < 64. i \<noteq> j \<longrightarrow> used ! i \<longrightarrow> used ! j \<longrightarrow>
        offs ! i + lens ! i \<le> offs ! j \<or> offs ! j + lens ! j \<le> offs ! i)"

definition env_ok :: "'f vm_env \<Rightarrow> bool" where
  "env_ok e \<longleftrightarrow> 20 + code_size e + data_size e \<le> length (ve_image e) \<and> length (ve_image e) < 2 ^ 32"

definition vm_ok :: "'f vm_env \<Rightarrow> 'f vm \<Rightarrow> bool" where
  "vm_ok e s \<longleftrightarrow>
     length (vm_stack s) = 256 \<and> vm_sp s \<le> 256 \<and>
     length (vm_locals s) = 33 \<and> (\<forall>f \<in> set (vm_locals s). length f = 512) \<and>
     vm_call_depth s \<le> 32 \<and> vm_pc s \<le> code_size e \<and>
     length (vm_call_return_pc s) = 32 \<and> (\<forall>pc \<in> set (vm_call_return_pc s). pc \<le> code_size e) \<and>
     length (vm_input_buffer s) = 128 \<and> vm_input_length s \<le> 127 \<and>
     length (vm_file_path_buffer s) = 128 \<and> length (vm_file_text_buffer s) = 2049 \<and>
     length (vm_heap_string_data s) = 4096 \<and> vm_heap_next_slot s \<le> 64 \<and>
     heap_ok 4096 (vm_heap_next_offset s) (vm_heap_string_offset s) (vm_heap_string_length s) (vm_heap_string_used s) \<and>
     length (vm_heap_array_data s) = 1024 \<and> vm_heap_array_next_slot s \<le> 64 \<and>
     heap_ok 1024 (vm_heap_array_next_offset s) (vm_heap_array_offset s) (vm_heap_array_length s) (vm_heap_array_used s) \<and>
     console_ok (vm_con s)"

definition vm_frame :: "'f vm \<Rightarrow> 'f vm \<Rightarrow> bool" where
  "vm_frame s t \<longleftrightarrow>
     vm_steps t = vm_steps s \<and> vm_fullscreen t = vm_fullscreen s \<and> vm_driver_mode t = vm_driver_mode s"

text \<open>\<open>safe e s0 r\<close>: when the outcome \<open>r\<close> goes on, its state is well formed and differs from \<open>s0\<close> by a
  frame; \<open>r\<close> is no access out of bounds.\<close>

definition safe :: "'f vm_env \<Rightarrow> 'f vm \<Rightarrow> 'f vm outcome \<Rightarrow> bool" where
  "safe e s0 r \<longleftrightarrow>
     (case r of Next s \<Rightarrow> vm_ok e s \<and> vm_frame s0 s | Trap f _ \<Rightarrow> f = Divide_error | _ \<Rightarrow> True)"

lemma safe_simps [simp]:
  "safe e s0 (Next s) \<longleftrightarrow> vm_ok e s \<and> vm_frame s0 s"
  "safe e s0 (Done s)" "safe e s0 (Fail s)" "safe e s0 (Wait s)"
  "safe e s0 (Trap f s) \<longleftrightarrow> f = Divide_error"
  by (simp_all add: safe_def)

text \<open>The working hypothesis of every rule: the state is well formed and within the frame.\<close>

definition at :: "'f vm_env \<Rightarrow> 'f vm \<Rightarrow> 'f vm \<Rightarrow> bool" where
  "at e s0 s \<longleftrightarrow> env_ok e \<and> vm_ok e s \<and> vm_frame s0 s"

lemma at_safe [simp]: "at e s0 s \<Longrightarrow> safe e s0 (Next s)"
  by (simp add: at_def)

lemma at_sp [simp]: "at e s0 s \<Longrightarrow> n \<le> 256 \<Longrightarrow> at e s0 (s\<lparr>vm_sp := n\<rparr>)"
  by (simp add: at_def vm_ok_def vm_frame_def)

lemma at_pc [simp]: "at e s0 s \<Longrightarrow> n \<le> code_size e \<Longrightarrow> at e s0 (s\<lparr>vm_pc := n\<rparr>)"
  by (simp add: at_def vm_ok_def vm_frame_def)

lemma at_depth [simp]: "at e s0 s \<Longrightarrow> n \<le> 32 \<Longrightarrow> at e s0 (s\<lparr>vm_call_depth := n\<rparr>)"
  by (simp add: at_def vm_ok_def vm_frame_def)

lemma at_con [simp]: "at e s0 s \<Longrightarrow> console_ok c \<Longrightarrow> at e s0 (s\<lparr>vm_con := c\<rparr>)"
  by (simp add: at_def vm_ok_def vm_frame_def)

lemma at_outside [simp]:
  "at e s0 (s\<lparr>vm_keys := ks\<rparr>) = at e s0 s" "at e s0 (s\<lparr>vm_drv := d\<rparr>) = at e s0 s"
  "at e s0 (s\<lparr>vm_fs := f\<rparr>) = at e s0 s" "at e s0 (s\<lparr>vm_port_reads := p\<rparr>) = at e s0 s"
  by (simp_all add: at_def vm_ok_def vm_frame_def)

lemma at_stack [simp]: "at e s0 s \<Longrightarrow> length st = 256 \<Longrightarrow> at e s0 (s\<lparr>vm_stack := st\<rparr>)"
  by (simp add: at_def vm_ok_def vm_frame_def)

lemma at_locals [simp]:
  "at e s0 s \<Longrightarrow> length l = 33 \<Longrightarrow> (\<And>f. f \<in> set l \<Longrightarrow> length f = 512) \<Longrightarrow> at e s0 (s\<lparr>vm_locals := l\<rparr>)"
  by (simp add: at_def vm_ok_def vm_frame_def)

lemma at_input [simp]:
  "at e s0 s \<Longrightarrow> n \<le> 127 \<Longrightarrow> at e s0 (s\<lparr>vm_input_length := n\<rparr>)"
  "at e s0 s \<Longrightarrow> length b = 128 \<Longrightarrow> at e s0 (s\<lparr>vm_input_buffer := b\<rparr>)"
  by (simp_all add: at_def vm_ok_def vm_frame_def)

lemma at_buffers [simp]:
  "at e s0 s \<Longrightarrow> length b = 128 \<Longrightarrow> at e s0 (s\<lparr>vm_file_path_buffer := b\<rparr>)"
  "at e s0 s \<Longrightarrow> length b = 2049 \<Longrightarrow> at e s0 (s\<lparr>vm_file_text_buffer := b\<rparr>)"
  by (simp_all add: at_def vm_ok_def vm_frame_def)

lemma at_bufferD:
  "at e s0 s \<Longrightarrow> length (vm_file_path_buffer s) = 128" "at e s0 s \<Longrightarrow> length (vm_file_text_buffer s) = 2049"
  by (simp_all add: at_def vm_ok_def)

lemma atD:
  assumes "at e s0 s"
  shows "length (vm_stack s) = 256" "vm_sp s \<le> 256" "length (vm_locals s) = 33"
    "\<And>f. f \<in> set (vm_locals s) \<Longrightarrow> length f = 512" "vm_call_depth s \<le> 32"
    "vm_pc s \<le> code_size e" "length (vm_call_return_pc s) = 32"
    "\<And>pc. pc \<in> set (vm_call_return_pc s) \<Longrightarrow> pc \<le> code_size e"
    "length (vm_input_buffer s) = 128" "vm_input_length s \<le> 127" "console_ok (vm_con s)"
    "code_size e < 4294967276" "20 + code_size e + data_size e \<le> length (ve_image e)"
    "vm_frame s0 s" "vm_ok e s"
  using assms by (auto simp: at_def vm_ok_def env_ok_def)

section \<open>The primitives\<close>

named_theorems vm_safe

lemma safe_if [vm_safe]:
  "(c \<Longrightarrow> safe e s0 a) \<Longrightarrow> (\<not> c \<Longrightarrow> safe e s0 b) \<Longrightarrow> safe e s0 (if c then a else b)"
  by simp

lemma safe_push [vm_safe]:
  assumes "at e s0 s" "vm_sp s < 256"
  shows "safe e s0 (vm_push v s)"
proof -
  have "at e s0 ((s\<lparr>vm_stack := (vm_stack s)[vm_sp s := v]\<rparr>)\<lparr>vm_sp := vm_sp s + 1\<rparr>)"
    using assms atD(1) [OF assms(1)] by (intro at_sp at_stack) auto
  then show ?thesis
    using assms(2) atD(1) [OF assms(1)] by (simp add: vm_push_def arr at_def)
qed

lemma safe_pop [vm_safe]:
  assumes "at e s0 s" "0 < vm_sp s"
    and "\<And>v t. at e s0 t \<Longrightarrow> t = s\<lparr>vm_sp := vm_sp s - 1\<rparr> \<Longrightarrow> safe e s0 (k v t)"
  shows "safe e s0 (vm_pop s k)"
  using assms atD(1,2) [OF assms(1)] by (simp add: vm_pop_def arr)

lemma safe_peek [vm_safe]:
  assumes "at e s0 s" "0 < n" "n \<le> vm_sp s" "\<And>v. safe e s0 (k v)"
  shows "safe e s0 (vm_peek n s k)"
  using assms atD(1,2) [OF assms(1)] by (simp add: vm_peek_def arr)

lemma safe_replace [vm_safe]:
  assumes "at e s0 s" "0 < vm_sp s"
  shows "safe e s0 (vm_replace_top v s)"
proof -
  have "at e s0 (s\<lparr>vm_stack := (vm_stack s)[vm_sp s - 1 := v]\<rparr>)"
    using assms atD(1) [OF assms(1)] by (intro at_stack) auto
  then show ?thesis
    using assms(2) atD(1,2) [OF assms(1)] by (simp add: vm_replace_top_def arr at_def)
qed

lemma safe_u8 [vm_safe]:
  assumes "at e s0 s" "vm_pc s + 1 \<le> code_size e"
    and "\<And>n t. at e s0 t \<Longrightarrow> t = s\<lparr>vm_pc := vm_pc s + 1\<rparr> \<Longrightarrow> n < 256 \<Longrightarrow> safe e s0 (k n t)"
  shows "safe e s0 (vm_u8 e s k)"
proof -
  have "code_at e (vm_pc s) < length (ve_image e)"
    using assms(2) atD(13) [OF assms(1)] by (simp add: code_at_def BCVM_IMAGE_HEADER_SIZE_def)
  moreover have "unat (ve_image e ! code_at e (vm_pc s)) < 256"
    by (rule unat_bounds)
  ultimately show ?thesis
    using assms atD(12) [OF assms(1)] by (simp add: vm_u8_def arr)
qed

lemma safe_u16 [vm_safe]:
  assumes "at e s0 s" "vm_pc s + 2 \<le> code_size e"
    and "\<And>n t. at e s0 t \<Longrightarrow> t = s\<lparr>vm_pc := vm_pc s + 2\<rparr> \<Longrightarrow> n < 65536 \<Longrightarrow> safe e s0 (k n t)"
  shows "safe e s0 (vm_u16 e s k)"
proof -
  have "code_at e (vm_pc s) + 2 \<le> length (ve_image e)"
    using assms(2) atD(13) [OF assms(1)] by (simp add: code_at_def BCVM_IMAGE_HEADER_SIZE_def)
  then obtain w where "read_u16le (ve_image e) (code_at e (vm_pc s)) = Some w" by (simp add: arr)
  then show ?thesis
    using assms atD(12) [OF assms(1)] unat_bounds(2) [of w] by (simp add: vm_u16_def)
qed

lemma safe_u32 [vm_safe]:
  assumes "at e s0 s" "vm_pc s + 4 \<le> code_size e"
    and "\<And>w t. at e s0 t \<Longrightarrow> t = s\<lparr>vm_pc := vm_pc s + 4\<rparr> \<Longrightarrow> safe e s0 (k w t)"
  shows "safe e s0 (vm_u32 e s k)"
proof -
  have "code_at e (vm_pc s) + 4 \<le> length (ve_image e)"
    using assms(2) atD(13) [OF assms(1)] by (simp add: code_at_def BCVM_IMAGE_HEADER_SIZE_def)
  then obtain w where "read_u32le (ve_image e) (code_at e (vm_pc s)) = Some w" by (simp add: arr)
  then show ?thesis
    using assms atD(12) [OF assms(1)] by (simp add: vm_u32_def)
qed

lemma no_operand_at:
  "at e s0 s \<Longrightarrow> n \<le> 8 \<Longrightarrow> no_operand e n s \<longleftrightarrow> code_size e < vm_pc s + n"
  using atD(6,12) [of e s0 s] by (simp add: no_operand_def)

lemma stack_full_iff: "stack_full s \<longleftrightarrow> 256 \<le> vm_sp s"
  by (simp add: stack_full_def BCVM_STACK_MAX_def)

lemma safe_operands [vm_safe]:
  assumes "at e s0 s"
    and "\<And>l r t. at e s0 t \<Longrightarrow> vm_sp t < 256 \<Longrightarrow> safe e s0 (k l r t)"
  shows "safe e s0 (vm_operands s k)"
  unfolding vm_operands_def using assms atD(2) [OF assms(1)]
  by (auto intro!: vm_safe)

section \<open>The heaps\<close>

lemma heap_okD:
  assumes "heap_ok limit nxt offs lens used"
  shows "length offs = 64" "length lens = 64" "length used = 64" "nxt \<le> limit"
    "i < 64 \<Longrightarrow> used ! i \<Longrightarrow> offs ! i + lens ! i \<le> nxt"
    "i < 64 \<Longrightarrow> j < 64 \<Longrightarrow> i \<noteq> j \<Longrightarrow> used ! i \<Longrightarrow> used ! j \<Longrightarrow>
       offs ! i + lens ! i \<le> offs ! j \<or> offs ! j + lens ! j \<le> offs ! i"
  using assms by (auto simp: heap_ok_def)

lemma heap_ok_store:
  assumes h: "heap_ok limit off offs lens used" and le: "off + len \<le> limit"
  shows "heap_ok limit (off + len) (offs[i := off]) (lens[i := len]) (used[i := True])"
proof -
  note d = heap_okD [OF h]
  let ?o = "offs[i := off]" and ?l = "lens[i := len]" and ?u = "used[i := True]"
  have "?o ! j + ?l ! j \<le> off + len" if "j < 64" "?u ! j" for j
    using that d(1,2,3) d(5) [of j] by (cases "j = i") auto
  moreover have "?o ! j + ?l ! j \<le> ?o ! k \<or> ?o ! k + ?l ! k \<le> ?o ! j"
    if "j < 64" "k < 64" "j \<noteq> k" "?u ! j" "?u ! k" for j k
    using that d(1,2,3) d(5) [of j] d(5) [of k] d(6) [of j k]
    by (cases "j = i"; cases "k = i") auto
  ultimately show ?thesis using d(1,2,3,4) le by (simp add: heap_ok_def)
qed

lemma heap_ok_clear: "heap_ok limit nxt offs lens used \<Longrightarrow> heap_ok limit 0 offs lens (replicate 64 False)"
  by (simp add: heap_ok_def)

lemma safe_resolve:
  assumes "at e s0 s"
  shows "vm_resolve_string_descriptor e s d \<noteq> None"
    and "vm_resolve_string_descriptor e s d = Some (Some str) \<Longrightarrow> length str < 65536"
proof -
  have h: "heap_ok 4096 (vm_heap_next_offset s) (vm_heap_string_offset s) (vm_heap_string_length s) (vm_heap_string_used s)"
    "length (vm_heap_string_data s) = 4096"
    using assms by (simp_all add: at_def vm_ok_def)
  define slot where "slot = unat (d AND 0xFF)"
  have len: "unat (d AND 0xFFFF) < 65536" "unat (drop_bit 16 d AND 0x7FFF) < 65536"
    using word_and_le1 [of d "0xFFFF"] word_and_le1 [of "drop_bit 16 d" "0x7FFF"]
    by (simp_all add: word_le_nat_alt)
  have heap: "chunk (vm_heap_string_data s) (vm_heap_string_offset s ! slot) (vm_heap_string_length s ! slot) \<noteq> None
      \<and> vm_heap_string_length s ! slot \<le> 4096" if "slot < 64" "vm_heap_string_used s ! slot"
    using heap_okD(4) [OF h(1)] heap_okD(5) [OF h(1) that] h(2) by simp
  have lit: "chunk (ve_image e) (data_at e o') n \<noteq> None" if "o' + n \<le> data_size e" for o' n
    using that atD(13) [OF assms] by (simp add: data_at_def BCVM_IMAGE_HEADER_SIZE_def)
  show "vm_resolve_string_descriptor e s d \<noteq> None"
    using heap lit len h
    by (auto simp: vm_resolve_string_descriptor_def Let_def slot_def [symmetric] vm_limits arr heap_ok_def
        not_less)
  assume "vm_resolve_string_descriptor e s d = Some (Some str)"
  then show "length str < 65536"
    using heap len h
    by (auto simp: vm_resolve_string_descriptor_def Let_def slot_def [symmetric] vm_limits arr heap_ok_def
        dest!: chunk_length split: if_splits)
qed

lemma safe_with_string [vm_safe]:
  assumes "at e s0 s" "\<And>str. length str < 65536 \<Longrightarrow> safe e s0 (k str)"
  shows "safe e s0 (vm_with_string e s d k)"
  using assms safe_resolve [OF assms(1)] by (auto simp: vm_with_string_def split: option.split)

text \<open>The capacity that is checked is the one the array has.\<close>

lemma safe_copy:
  assumes "at e s0 s" "n = length out"
  shows "vm_copy_string_descriptor_to_buffer e s d out n \<noteq> None"
    and "vm_copy_string_descriptor_to_buffer e s d out n = Some (Some b) \<Longrightarrow> length b = length out"
  using safe_resolve [OF assms(1), of d] assms(2)
  by (auto simp: vm_copy_string_descriptor_to_buffer_def arr dest: blit_length split: option.splits if_splits)

lemma safe_with_path [vm_safe]:
  assumes "at e s0 s" "safe e s0 bad" "\<And>p t. at e s0 t \<Longrightarrow> vm_sp t = vm_sp s \<Longrightarrow> safe e s0 (k p t)"
  shows "safe e s0 (vm_with_path e s d bad k)"
proof -
  have n: "BCVM_FILE_PATH_MAX = length (vm_file_path_buffer s)"
    using at_bufferD(1) [OF assms(1)] by (simp add: BCVM_FILE_PATH_MAX_def)
  note c = safe_copy [OF assms(1) n, of d]
  have "at e s0 (s\<lparr>vm_file_path_buffer := b\<rparr>)"
    if "vm_copy_string_descriptor_to_buffer e s d (vm_file_path_buffer s) BCVM_FILE_PATH_MAX = Some (Some b)" for b
    using assms(1) c(2) [OF that] at_bufferD(1) [OF assms(1)] by simp
  then show ?thesis
    using assms(2,3) c(1) by (auto simp: vm_with_path_def split: option.split)
qed

lemma safe_take_text [vm_safe]:
  assumes "at e s0 s" "\<And>str t. at e s0 t \<Longrightarrow> vm_sp t = vm_sp s \<Longrightarrow> safe e s0 (k str t)"
  shows "safe e s0 (vm_take_text content s k)"
proof -
  obtain b where b: "blit (vm_file_text_buffer s) 0 (take BCVM_FILE_TEXT_MAX content) = Some b" "length b = 2049"
    using at_bufferD(2) [OF assms(1)] blit_length [of "vm_file_text_buffer s" 0]
    by (cases "blit (vm_file_text_buffer s) 0 (take BCVM_FILE_TEXT_MAX content)") (auto simp: BCVM_FILE_TEXT_MAX_def)
  show ?thesis
    using assms b by (auto simp: vm_take_text_def Let_def arr BCVM_FILE_TEXT_MAX_def safe_simps)
qed

lemma safe_resolve_case [vm_safe]:
  assumes "at e s0 s" "safe e s0 a" "\<And>p. safe e s0 (k p)"
  shows "safe e s0 (case vm_resolve_string_descriptor e s d of
    None \<Rightarrow> Trap Out_of_bounds s | Some None \<Rightarrow> a | Some (Some p) \<Rightarrow> k p)"
  using assms safe_resolve(1) [OF assms(1), of d] by (auto split: option.split)

lemma at_heapD:
  assumes "at e s0 s"
  shows "length (vm_heap_string_data s) = 4096" "vm_heap_next_offset s \<le> 4096"
    "heap_ok 4096 (vm_heap_next_offset s) (vm_heap_string_offset s) (vm_heap_string_length s) (vm_heap_string_used s)"
    "length (vm_heap_array_data s) = 1024" "vm_heap_array_next_offset s \<le> 1024"
    "heap_ok 1024 (vm_heap_array_next_offset s) (vm_heap_array_offset s) (vm_heap_array_length s) (vm_heap_array_used s)"
    "vm_heap_next_slot s \<le> 64" "vm_heap_array_next_slot s \<le> 64"
  using assms heap_okD(4) by (auto simp: at_def vm_ok_def)

lemma at_string_heap:
  assumes "at e s0 s" "heap_ok 4096 off offs lens used" "length dat = 4096" "slot \<le> 64"
  shows "at e s0 (s\<lparr>vm_heap_next_slot := slot, vm_heap_string_offset := offs,
    vm_heap_string_length := lens, vm_heap_string_used := used, vm_heap_string_data := dat,
    vm_heap_next_offset := off\<rparr>)"
  using assms by (simp add: at_def vm_ok_def vm_frame_def)

lemma at_array_heap:
  assumes "at e s0 s" "heap_ok 1024 off offs lens used" "length dat = 1024" "slot \<le> 64"
  shows "at e s0 (s\<lparr>vm_heap_array_next_slot := slot, vm_heap_array_offset := offs,
    vm_heap_array_length := lens, vm_heap_array_used := used, vm_heap_array_data := dat,
    vm_heap_array_next_offset := off\<rparr>)"
  using assms by (simp add: at_def vm_ok_def vm_frame_def)

text \<open>The allocators make room first, then place the object in a slot below 64.\<close>

lemma string_room_at:
  assumes "at e s0 s" "len \<le> 4096"
  shows "at e s0 (string_room len s)" "vm_heap_next_slot (string_room len s) < 64"
    "vm_heap_next_offset (string_room len s) + len \<le> 4096" "vm_sp (string_room len s) = vm_sp s"
    "vm_pc (string_room len s) = vm_pc s"
  using assms heap_ok_clear [OF at_heapD(3) [OF assms(1)]] at_heapD(2) [OF assms(1)]
  by (auto simp: string_room_def vm_limits Let_def at_def vm_ok_def vm_frame_def)

lemma array_room_at:
  assumes "at e s0 s" "len \<le> 1024"
  shows "at e s0 (array_room len s)" "vm_heap_array_next_slot (array_room len s) < 64"
    "vm_heap_array_next_offset (array_room len s) + len \<le> 1024"
    "vm_sp (array_room len s) = vm_sp s" "vm_pc (array_room len s) = vm_pc s"
  using assms heap_ok_clear [OF at_heapD(6) [OF assms(1)]] at_heapD(5) [OF assms(1)]
  by (auto simp: array_room_def vm_limits Let_def at_def vm_ok_def vm_frame_def)

definition string_placed :: "bytes \<Rightarrow> 'f vm \<Rightarrow> 'f vm" where
  "string_placed str s =
     (let slot = vm_heap_next_slot s; off = vm_heap_next_offset s
      in s\<lparr>vm_heap_next_slot := slot + 1,
           vm_heap_string_offset := (vm_heap_string_offset s)[slot := off],
           vm_heap_string_length := (vm_heap_string_length s)[slot := length str],
           vm_heap_string_used := (vm_heap_string_used s)[slot := True],
           vm_heap_string_data := the (blit (vm_heap_string_data s) off str),
           vm_heap_next_offset := off + length str\<rparr>)"

definition array_placed :: "nat \<Rightarrow> 'f vm \<Rightarrow> 'f vm" where
  "array_placed len s =
     (let slot = vm_heap_array_next_slot s; off = vm_heap_array_next_offset s
      in s\<lparr>vm_heap_array_next_slot := slot + 1,
           vm_heap_array_offset := (vm_heap_array_offset s)[slot := off],
           vm_heap_array_length := (vm_heap_array_length s)[slot := len],
           vm_heap_array_used := (vm_heap_array_used s)[slot := True],
           vm_heap_array_data := the (blit (vm_heap_array_data s) off (replicate len 0)),
           vm_heap_array_next_offset := off + len\<rparr>)"

lemma blit_ex: "off + length ys \<le> length xs \<Longrightarrow> \<exists>zs. blit xs off ys = Some zs \<and> length zs = length xs"
  using blit_length by (fastforce simp: blit_def)

lemma string_placed_at:
  assumes "at e s0 s" "vm_heap_next_slot s < 64" "vm_heap_next_offset s + length str \<le> 4096"
  shows "at e s0 (string_placed str s)"
  unfolding string_placed_def Let_def
  using assms at_heapD(1) [OF assms(1)] blit_ex [of "vm_heap_next_offset s" str "vm_heap_string_data s"]
  by (intro at_string_heap heap_ok_store at_heapD(3)) auto

lemma array_placed_at:
  assumes "at e s0 s" "vm_heap_array_next_slot s < 64" "vm_heap_array_next_offset s + len \<le> 1024"
  shows "at e s0 (array_placed len s)"
  unfolding array_placed_def Let_def
  using assms at_heapD(4) [OF assms(1)]
    blit_ex [of "vm_heap_array_next_offset s" "replicate len 0" "vm_heap_array_data s"]
  by (intro at_array_heap heap_ok_store at_heapD(6)) auto

lemma vm_store_heap_string_placed:
  assumes "at e s0 s" "length str \<le> 4096"
  shows "vm_store_heap_string str s k =
    k (vm_make_heap_string_descriptor (vm_heap_next_slot (string_room (length str) s)))
      (string_placed str (string_room (length str) s))"
proof -
  let ?r = "string_room (length str) s"
  have r: "at e s0 ?r" "vm_heap_next_slot ?r < 64" "vm_heap_next_offset ?r + length str \<le> 4096"
    using string_room_at [OF assms] by auto
  obtain dat where "blit (vm_heap_string_data ?r) (vm_heap_next_offset ?r) str = Some dat"
    using blit_ex [of "vm_heap_next_offset ?r" str "vm_heap_string_data ?r"] r(3) at_heapD(1) [OF r(1)]
    by auto
  then show ?thesis
    using assms(2) r(2,3) heap_okD(1,2,3) [OF at_heapD(3) [OF r(1)]]
    by (simp add: vm_store_heap_string_def string_placed_def vm_limits arr Let_def)
qed

lemma vm_create_array_placed:
  assumes "at e s0 s" "0 < len" "len \<le> 1024"
  shows "vm_create_array len s k =
    k (of_nat (vm_heap_array_next_slot (array_room len s))) (array_placed len (array_room len s))"
proof -
  let ?r = "array_room len s"
  have r: "at e s0 ?r" "vm_heap_array_next_slot ?r < 64" "vm_heap_array_next_offset ?r + len \<le> 1024"
    using array_room_at [OF assms(1,3)] by auto
  obtain dat where "blit (vm_heap_array_data ?r) (vm_heap_array_next_offset ?r) (replicate len 0) = Some dat"
    using blit_ex [of "vm_heap_array_next_offset ?r" "replicate len 0" "vm_heap_array_data ?r"] r(3)
      at_heapD(4) [OF r(1)]
    by auto
  then show ?thesis
    using assms(2,3) r(2,3) heap_okD(1,2,3) [OF at_heapD(6) [OF r(1)]]
    by (simp add: vm_create_array_def array_placed_def vm_limits arr Let_def)
qed

lemma safe_store [vm_safe]:
  assumes "at e s0 s"
    and "\<And>d t. at e s0 t \<Longrightarrow> vm_sp t = vm_sp s \<Longrightarrow> vm_pc t = vm_pc s \<Longrightarrow> safe e s0 (k d t)"
  shows "safe e s0 (vm_store_heap_string str s k)"
proof (cases "length str \<le> 4096")
  case True
  have "at e s0 (string_placed str (string_room (length str) s))"
    using string_room_at [OF assms(1) True] by (intro string_placed_at) auto
  then show ?thesis
    using assms(2) string_room_at(4,5) [OF assms(1) True]
    by (simp add: vm_store_heap_string_placed [OF assms(1) True] string_placed_def Let_def)
next
  case False
  then show ?thesis by (simp add: vm_store_heap_string_def vm_limits Let_def)
qed

lemma safe_create [vm_safe]:
  assumes "at e s0 s"
    and "\<And>d t. at e s0 t \<Longrightarrow> vm_sp t = vm_sp s \<Longrightarrow> vm_pc t = vm_pc s \<Longrightarrow> safe e s0 (k d t)"
  shows "safe e s0 (vm_create_array len s k)"
proof (cases "0 < len \<and> len \<le> 1024")
  case True
  then have len: "0 < len" "len \<le> 1024" by auto
  have "at e s0 (array_placed len (array_room len s))"
    using array_room_at [OF assms(1) len(2)] by (intro array_placed_at) auto
  then show ?thesis
    using assms(2) array_room_at(4,5) [OF assms(1) len(2)]
    by (simp add: vm_create_array_placed [OF assms(1) len] array_placed_def Let_def)
next
  case False
  then show ?thesis by (auto simp: vm_create_array_def vm_limits)
qed

lemma safe_cell:
  assumes "at e s0 s" "\<And>i. i < 1024 \<Longrightarrow> safe e s0 (k i)"
  shows "safe e s0 (vm_array_cell handle index s k)"
proof -
  note h = heap_okD [OF at_heapD(6) [OF assms(1)]]
  have "vm_heap_array_offset s ! unat handle + unat index mod 65536 < 1024"
    if "unat handle < 64" "vm_heap_array_used s ! unat handle"
      "unat index < vm_heap_array_length s ! unat handle"
    using h(4) h(5) [OF that(1,2)] that(3) by simp
  then show ?thesis
    using h(1,2,3) assms(2) by (simp add: vm_array_cell_def vm_limits arr not_le)
qed

lemma safe_get [vm_safe]:
  assumes "at e s0 s" "\<And>v. safe e s0 (k v)"
  shows "safe e s0 (vm_get_array_value handle index s k)"
  unfolding vm_get_array_value_def
  using assms at_heapD(4) [OF assms(1)] by (intro safe_cell) (simp_all add: arr)

lemma safe_set [vm_safe]:
  assumes "at e s0 s"
  shows "safe e s0 (vm_set_array_value handle index v s)"
proof -
  have "safe e s0 (Next (s\<lparr>vm_heap_array_data := (vm_heap_array_data s)[i := v]\<rparr>))" for i
    using assms by (simp add: at_def vm_ok_def vm_frame_def)
  then show ?thesis
    unfolding vm_set_array_value_def
    using assms at_heapD(4) [OF assms] by (intro safe_cell) (simp_all add: arr)
qed

section \<open>Calls and input\<close>

lemma safe_enter [vm_safe]:
  assumes "at e s0 s" "vm_call_depth s < 32" "target < code_size e" "length frame = 512"
  shows "safe e s0 (vm_enter target frame s)"
proof -
  note d = atD [OF assms(1)]
  have "\<forall>f \<in> set ((vm_locals s)[vm_call_depth s + 1 := frame]). length f = 512"
    using d(4) assms(4) by (auto dest!: in_set_takeD set_update_subset_insert [THEN subsetD])
  moreover have "\<forall>pc \<in> set ((vm_call_return_pc s)[vm_call_depth s := vm_pc s]). pc \<le> code_size e"
    using d(6,8) by (auto dest!: set_update_subset_insert [THEN subsetD])
  ultimately show ?thesis
    using assms d(3,7) by (simp add: vm_enter_def arr at_def vm_ok_def vm_frame_def)
qed

lemma safe_take_args [vm_safe]:
  assumes "at e s0 s" "n \<le> vm_sp s" "n \<le> length frame" "length frame = 512"
    and "\<And>f t. at e s0 t \<Longrightarrow> length f = 512 \<Longrightarrow> vm_call_depth t = vm_call_depth s \<Longrightarrow> safe e s0 (k f t)"
  shows "safe e s0 (vm_take_args n frame s k)"
  using assms
proof (induction n arbitrary: frame s)
  case 0
  then show ?case by simp
next
  case (Suc n)
  have "safe e s0 (vm_take_args n (frame[n := v]) (s\<lparr>vm_sp := vm_sp s - 1\<rparr>) k)" for v
    using Suc.prems atD(2) [OF Suc.prems(1)] by (intro Suc.IH) auto
  then show ?case
    using Suc.prems by (auto intro!: safe_pop simp: arr)
qed

lemma safe_data_operand [vm_safe]:
  assumes "at e s0 s" "vm_pc s + 4 \<le> code_size e"
    and "\<And>str t. at e s0 t \<Longrightarrow> vm_sp t = vm_sp s \<Longrightarrow> safe e s0 (k str t)"
  shows "safe e s0 (vm_data_operand e s k)"
proof -
  have "chunk (ve_image e) (data_at e off) len \<noteq> None" if "off + len \<le> data_size e" for off len
    using that atD(13) [OF assms(1)] by (simp add: data_at_def BCVM_IMAGE_HEADER_SIZE_def)
  then show ?thesis
    unfolding vm_data_operand_def using assms
    by (intro vm_safe) (auto simp: not_less split: option.split)
qed

lemma safe_input_put [vm_safe]:
  assumes "at e s0 s" "i \<le> 127"
    and "\<And>b. at e s0 (s\<lparr>vm_input_buffer := b\<rparr>) \<Longrightarrow> safe e s0 (k (s\<lparr>vm_input_buffer := b\<rparr>))"
  shows "safe e s0 (vm_input_put i ch s k)"
  using assms atD(9) [OF assms(1)] by (simp add: vm_input_put_def arr)

lemma erase_ok: "console_ok c \<Longrightarrow> console_ok (vm_erase_last_echoed_char c)"
  by (simp add: vm_erase_last_echoed_char_def Let_def console_set_cursor_ok console_write_char_ok)

lemma at_echo [simp]: "at e s0 s \<Longrightarrow> at e s0 (vm_echo ch s)"
  using atD(11) [of e s0 s] by (simp add: vm_echo_def console_write_char_ok)

lemma at_unecho [simp]: "at e s0 s \<Longrightarrow> at e s0 (vm_unecho s)"
  using atD(11) [of e s0 s] by (simp add: vm_unecho_def erase_ok)

lemma echo_simps [simp]:
  "vm_sp (vm_echo ch s) = vm_sp s" "vm_sp (vm_unecho s) = vm_sp s"
  "vm_input_length (vm_echo ch s) = vm_input_length s"
  "vm_input_length (vm_unecho s) = vm_input_length s"
  "vm_input_buffer (vm_echo ch s) = vm_input_buffer s"
  "vm_sp (vm_print str s) = vm_sp s"
  by (simp_all add: vm_echo_def vm_unecho_def vm_print_def)

lemma at_print [simp]: "at e s0 s \<Longrightarrow> at e s0 (vm_print str s)"
  using atD(11) [of e s0 s] by (simp add: vm_print_def console_write_ok)

lemma at_print_color [simp]: "at e s0 s \<Longrightarrow> at e s0 (vm_print_color c str s)"
proof -
  have "at e s0 t \<Longrightarrow> at e s0 (vm_set_fg f t)" for f t
    using atD(11) [of e s0 t] by (simp add: vm_set_fg_def)
  then show "at e s0 s \<Longrightarrow> at e s0 (vm_print_color c str s)" by (simp add: vm_print_color_def)
qed

lemma safe_read_text_loop:
  "at e s0 s \<Longrightarrow>
   (\<And>str t. at e s0 t \<Longrightarrow> vm_sp t = vm_sp s \<Longrightarrow> safe e s0 (k str t)) \<Longrightarrow>
   safe e s0 (vm_read_text_loop evs s k)"
proof (induction evs arbitrary: s)
  case (Cons ev evs)
  note len = atD(9,10) [OF Cons.prems(1)]
  have go: "safe e s0 (vm_read_text_loop evs t k)" if "at e s0 t" "vm_sp t = vm_sp s" for t
    using that Cons.prems(2) by (intro Cons.IH) auto
  have enter: "safe e s0 (vm_input_put (vm_input_length s) 0 (vm_echo 10 (s\<lparr>vm_keys := evs\<rparr>)) (\<lambda>s.
      case chunk (vm_input_buffer s) 0 (vm_input_length s) of
        None \<Rightarrow> Trap Out_of_bounds s | Some str \<Rightarrow> k str s))"
  proof (rule safe_input_put)
    fix b
    assume b: "at e s0 (vm_echo 10 (s\<lparr>vm_keys := evs\<rparr>)\<lparr>vm_input_buffer := b\<rparr>)"
    from atD(9) [OF b] len(2) obtain str where "chunk b 0 (vm_input_length s) = Some str"
      by (simp add: arr)
    then show "safe e s0 (case chunk (vm_input_buffer (vm_echo 10 (s\<lparr>vm_keys := evs\<rparr>)\<lparr>vm_input_buffer := b\<rparr>)) 0
        (vm_input_length (vm_echo 10 (s\<lparr>vm_keys := evs\<rparr>)\<lparr>vm_input_buffer := b\<rparr>)) of
      None \<Rightarrow> Trap Out_of_bounds (vm_echo 10 (s\<lparr>vm_keys := evs\<rparr>)\<lparr>vm_input_buffer := b\<rparr>)
      | Some str \<Rightarrow> k str (vm_echo 10 (s\<lparr>vm_keys := evs\<rparr>)\<lparr>vm_input_buffer := b\<rparr>))"
      using Cons.prems(2) [OF b] by auto
  qed (use Cons.prems(1) len in auto)
  show ?case
    unfolding vm_read_text_loop.simps
    by (intro safe_if enter safe_input_put go)
      (use Cons.prems(1) len in \<open>auto simp: BCVM_INPUT_MAX_def\<close>)
qed simp

lemma safe_read_text [vm_safe]:
  assumes "at e s0 s" "\<And>d t. at e s0 t \<Longrightarrow> vm_sp t = vm_sp s \<Longrightarrow> safe e s0 (k d t)"
  shows "safe e s0 (vm_read_text s k)"
  unfolding vm_read_text_def
  using assms by (intro safe_input_put safe_read_text_loop safe_store) auto

lemma read_int_ok:
  "console_ok c \<Longrightarrow> length buffer = 32 \<Longrightarrow> len < 32 \<Longrightarrow>
     \<exists>r evs' c'. vm_read_int evs buffer len c = Some (r, evs', c') \<and> console_ok c'"
  by (induction evs buffer len c rule: vm_read_int.induct)
    (auto simp: console_write_char_ok erase_ok arr READ_INT_BUFFER_def)

lemma write_int_ok: "console_ok c \<Longrightarrow> console_ok (vm_write_int v c)"
  by (simp add: vm_write_int_def console_write_uint_ok console_write_char_ok)

lemma write_float_ok: "console_ok c \<Longrightarrow> console_ok (vm_write_float v c)"
  by (simp add: vm_write_float_def Let_def console_write_uint_ok console_write_char_ok)

section \<open>Every instruction is safe\<close>

lemmas op_limits = vm_limits no_operand_at stack_full_iff not_le not_less

lemma safe_stack_ops:
  assumes "at e s0 s"
  shows "safe e s0 (op_push_i32 e s)" "safe e s0 (op_load_local e s)"
    "safe e s0 (op_store_local e s)" "safe e s0 (op_neg e s)" "safe e s0 (op_pop e s)"
proof -
  note d = atD [OF assms]
  show "safe e s0 (op_push_i32 e s)"
    unfolding op_push_i32_def using assms by (auto intro!: vm_safe simp: op_limits)
  have frame: "length (vm_locals s ! vm_call_depth s) = 512" using d(3,4,5) by simp
  show "safe e s0 (op_load_local e s)"
    unfolding op_load_local_def using assms d(3,5) frame
    by (auto intro!: vm_safe simp: op_limits arr)
  have upd: "length g = 512"
    if "g \<in> set ((vm_locals s)[vm_call_depth s := (vm_locals s ! vm_call_depth s)[n := v]])" for g n v
    using that d(4) frame by (auto dest!: set_update_subset_insert [THEN subsetD])
  show "safe e s0 (op_store_local e s)"
    unfolding op_store_local_def using assms d(2,3,5) frame
    by (auto intro!: vm_safe at_safe at_locals dest: upd simp: op_limits arr simp del: safe_simps(1))
  show "safe e s0 (op_neg e s)" "safe e s0 (op_pop e s)"
    unfolding op_neg_def op_pop_def using assms d(2)
    by (auto intro!: vm_safe at_safe simp del: safe_simps(1))
qed

lemma safe_arith_ops:
  assumes "at e s0 s"
  shows "safe e s0 (op_add e s)" "safe e s0 (op_sub e s)" "safe e s0 (op_mul e s)"
    "safe e s0 (op_div e s)" "safe e s0 (op_mod e s)" "safe e s0 (op_fmul e s)"
    "safe e s0 (op_fdiv e s)" "safe e s0 (op_eq e s)" "safe e s0 (op_ne e s)" "safe e s0 (op_lt e s)"
    "safe e s0 (op_le e s)" "safe e s0 (op_gt e s)" "safe e s0 (op_ge e s)"
  unfolding op_add_def op_sub_def op_mul_def op_div_def op_mod_def op_fmul_def op_fdiv_def op_eq_def
    op_ne_def op_lt_def op_le_def op_gt_def op_ge_def Let_def
  using assms by (auto intro!: vm_safe)

lemma at_Next: "at e s0 s \<Longrightarrow> safe e s0 (Next s)"
  by (rule at_safe)

declare safe_simps(1) [simp del]

lemma safe_control_ops:
  assumes "at e s0 s"
  shows "safe e s0 (op_jmp e s)" "safe e s0 (op_jmp_if_zero e s)" "safe e s0 (op_call e s)"
    "safe e s0 (op_call_args e s)" "safe e s0 (op_ret e s)" "safe e s0 (op_halt e s)"
proof -
  note d = atD [OF assms]
  show "safe e s0 (op_jmp e s)" "safe e s0 (op_jmp_if_zero e s)"
    unfolding op_jmp_def op_jmp_if_zero_def
    using assms d(2) by (auto intro!: vm_safe at_Next simp: op_limits)
  show "safe e s0 (op_call e s)"
    unfolding op_call_def using assms by (auto intro!: vm_safe simp: op_limits)
  show "safe e s0 (op_call_args e s)"
    unfolding op_call_args_def using assms by (auto intro!: vm_safe simp: op_limits)
  have "vm_call_return_pc s ! (vm_call_depth s - 1) \<le> code_size e" if "0 < vm_call_depth s"
    using d(5,7) d(8) [OF nth_mem, of "vm_call_depth s - 1"] that by simp
  then show "safe e s0 (op_ret e s)"
    unfolding op_ret_def vm_finish_def Let_def
    using assms d(2,5,7) by (auto intro!: vm_safe simp: op_limits arr)
  show "safe e s0 (op_halt e s)" by (simp add: op_halt_def vm_finish_def)
qed

lemma safe_print_ops:
  assumes "at e s0 s"
  shows "safe e s0 (op_print_str e s)" "safe e s0 (op_print_int e s)" "safe e s0 (op_print_float e s)"
    "safe e s0 (op_print_color_str e s)" "safe e s0 (op_print_str_val e s)"
    "safe e s0 (op_print_color_str_val e s)" "safe e s0 (op_print_nl e s)"
    "safe e s0 (op_print_char e s)"
  unfolding op_print_str_def op_print_int_def op_print_float_def op_print_color_str_def
    op_print_str_val_def op_print_color_str_val_def op_print_nl_def op_print_char_def
  using assms atD(2) [OF assms]
  by (auto intro!: vm_safe at_Next at_con write_int_ok write_float_ok atD(11) simp: op_limits)

lemma safe_input_ops:
  assumes "at e s0 s"
  shows "safe e s0 (op_read_int e s)" "safe e s0 (op_read_text e s)" "safe e s0 (op_print_input e s)"
    "safe e s0 (op_input_len e s)" "safe e s0 (op_input_eq e s)"
proof -
  note d = atD [OF assms]
  have inp: "chunk (vm_input_buffer t) 0 (vm_input_length t) \<noteq> None" if "at e s0 t" for t
    using atD(9,10) [OF that] by simp
  show "safe e s0 (op_read_int e s)"
    unfolding op_read_int_def
    using assms read_int_ok [OF d(11), of "replicate READ_INT_BUFFER 0" 0 "vm_keys s"]
    by (auto intro!: vm_safe at_con simp: op_limits READ_INT_BUFFER_def split: prod.split option.split)
  show "safe e s0 (op_read_text e s)"
    unfolding op_read_text_def using assms by (auto intro!: vm_safe simp: op_limits)
  show "safe e s0 (op_print_input e s)"
    unfolding op_print_input_def using assms inp [OF assms]
    by (auto intro!: at_Next split: option.split)
  show "safe e s0 (op_input_len e s)"
    unfolding op_input_len_def using assms by (auto intro!: vm_safe simp: op_limits)
  show "safe e s0 (op_input_eq e s)"
    unfolding op_input_eq_def using assms inp
    by (auto intro!: vm_safe simp: op_limits arr atD(9) split: option.split)
qed

lemma safe_heap_ops:
  assumes "at e s0 s"
  shows "safe e s0 (op_str_len e s)" "safe e s0 (op_str_eq e s)" "safe e s0 (op_arr_new e s)"
    "safe e s0 (op_arr_get e s)" "safe e s0 (op_arr_set e s)"
  unfolding op_str_len_def op_str_eq_def op_arr_new_def op_arr_get_def op_arr_set_def
  using assms atD(2) [OF assms] by (auto intro!: vm_safe simp: op_limits)

lemma safe_file_put:
  assumes "at e s0 s"
  shows "safe e s0 (vm_file_put app e s)"
  unfolding vm_file_put_def
  using assms atD(2) [OF assms] by (auto intro!: vm_safe simp: op_limits split: prod.split)

lemma safe_file_ops:
  assumes "at e s0 s"
  shows "safe e s0 (op_file_read e s)" "safe e s0 (op_file_write e s)" "safe e s0 (op_file_append e s)"
    "safe e s0 (op_file_exists e s)"
  subgoal
    unfolding op_file_read_def Let_def using assms atD(2) [OF assms]
    by (auto intro!: vm_safe simp: op_limits split: prod.split option.split)
  subgoal unfolding op_file_write_def by (rule safe_file_put [OF assms])
  subgoal unfolding op_file_append_def by (rule safe_file_put [OF assms])
  subgoal
    unfolding op_file_exists_def using assms atD(2) [OF assms]
    by (auto intro!: vm_safe simp: op_limits split: prod.split)
  done

lemma poll_at:
  "at e s0 s \<Longrightarrow> vm_poll_quit_request s = (q, t) \<Longrightarrow> at e s0 t \<and> vm_sp t = vm_sp s"
  by (auto simp: vm_poll_quit_request_def split: list.splits)

lemma safe_app_ops:
  assumes "at e s0 s"
  shows "safe e s0 (op_app_should_quit e s)" "safe e s0 (op_app_exit e s)" "safe e s0 (op_draw_pixel e s)"
proof -
  show "safe e s0 (op_app_should_quit e s)"
    unfolding op_app_should_quit_def using assms
    by (auto intro!: vm_safe simp: op_limits dest: poll_at [OF assms] split: prod.split)
  show "safe e s0 (op_app_exit e s)" by (simp add: op_app_exit_def vm_finish_def)
  show "safe e s0 (op_draw_pixel e s)"
    unfolding op_draw_pixel_def Let_def using assms
    by (auto intro!: vm_safe at_Next at_con simp: atD(11))
qed

lemma safe_driver_ops:
  assumes "at e s0 s"
  shows "safe e s0 (op_driver_serial_write e s)" "safe e s0 (op_driver_serial_read e s)"
    "safe e s0 (op_driver_port_read8 e s)" "safe e s0 (op_driver_port_write8 e s)"
    "safe e s0 (op_driver_mmio_read32 e s)" "safe e s0 (op_driver_mmio_write32 e s)"
  unfolding op_driver_serial_write_def op_driver_serial_read_def op_driver_port_read8_def
    op_driver_port_write8_def op_driver_mmio_read32_def op_driver_mmio_write32_def
  using assms atD(2) [OF assms]
  by (auto intro!: vm_safe simp: op_limits split: prod.split)

end
