(* ===== verification/Bcvm_Run.thy ===== *)
theory Bcvm_Run
  imports Bcvm_Safety
begin

text \<open>
  Theorems on whole runs of \<open>bytecode_vm_run\<close>: no access leaves its array, a run that stays out of
  fullscreen mode ends within the step budget, the one fault a program can still cause, and what
  the string and array heaps keep.
\<close>

section \<open>Safety of the loop\<close>

definition ends_safe :: "'f vm_env \<Rightarrow> 'f vm outcome \<Rightarrow> bool" where
  "ends_safe e r \<longleftrightarrow>
     (case r of Next s \<Rightarrow> vm_ok e s | Trap f _ \<Rightarrow> f = Divide_error | _ \<Rightarrow> True)"

lemma safe_ends: "safe e s0 r \<Longrightarrow> ends_safe e r"
  by (cases r) (auto simp: safe_def ends_safe_def)

lemma ends_pop:
  assumes "at e s0 s" "0 < vm_sp s"
    and "\<And>v t. at e s0 t \<Longrightarrow> ends_safe e (k v t)"
  shows "ends_safe e (vm_pop s k)"
  using assms atD(1,2) [OF assms(1)] by (simp add: vm_pop_def arr)

lemma ends_fullscreen:
  assumes "at e s0 s"
  shows "ends_safe e (op_set_fullscreen e s)"
proof (cases "vm_sp s = 0")
  case False
  have "ends_safe e (Next (t\<lparr>vm_fullscreen := b, vm_con := console_set_cursor_visible v (vm_con t)\<rparr>))"
    if "at e s0 t" for t b v
    using that by (simp add: ends_safe_def at_def vm_ok_def)
  with False assms show ?thesis by (auto simp: op_set_fullscreen_def Let_def intro!: ends_pop)
qed (simp add: op_set_fullscreen_def ends_safe_def)

lemma at_steps: "at e s0 s \<Longrightarrow> at e (s\<lparr>vm_steps := n\<rparr>) (s\<lparr>vm_steps := n\<rparr>)"
  by (simp add: at_def vm_ok_def vm_frame_def)

lemma ends_should_stop:
  assumes "at e s0 s"
  shows "ends_safe e (op_driver_should_stop e s)"
proof -
  have "at e (s\<lparr>vm_steps := 0\<rparr>) t \<and> vm_sp t = vm_sp s"
    if "vm_poll_quit_request (s\<lparr>vm_steps := 0\<rparr>) = (q, t)" for q t
    using poll_at [OF at_steps [OF assms] that] by simp
  then show ?thesis
    by (auto simp: op_driver_should_stop_def op_limits ends_safe_def [of e "Fail s"]
        intro!: safe_ends safe_push split: prod.split)
qed

text \<open>The case each opcode selects.\<close>

lemma bcvm_exec_simps:
  "bcvm_exec e 0x01 s = op_push_i32 e s"
  "bcvm_exec e 0x02 s = op_load_local e s"
  "bcvm_exec e 0x03 s = op_store_local e s"
  "bcvm_exec e 0x04 s = op_add e s"
  "bcvm_exec e 0x05 s = op_sub e s"
  "bcvm_exec e 0x06 s = op_mul e s"
  "bcvm_exec e 0x07 s = op_div e s"
  "bcvm_exec e 0x08 s = op_print_str e s"
  "bcvm_exec e 0x09 s = op_print_int e s"
  "bcvm_exec e 0x0A s = op_print_nl e s"
  "bcvm_exec e 0x0B s = op_pop e s"
  "bcvm_exec e 0x0C s = op_ret e s"
  "bcvm_exec e 0x0D s = op_halt e s"
  "bcvm_exec e 0x0E s = op_neg e s"
  "bcvm_exec e 0x0F s = op_jmp e s"
  "bcvm_exec e 0x10 s = op_jmp_if_zero e s"
  "bcvm_exec e 0x11 s = op_eq e s"
  "bcvm_exec e 0x12 s = op_ne e s"
  "bcvm_exec e 0x13 s = op_lt e s"
  "bcvm_exec e 0x14 s = op_le e s"
  "bcvm_exec e 0x15 s = op_gt e s"
  "bcvm_exec e 0x16 s = op_ge e s"
  "bcvm_exec e 0x17 s = op_call e s"
  "bcvm_exec e 0x18 s = op_call_args e s"
  "bcvm_exec e 0x19 s = op_read_int e s"
  "bcvm_exec e 0x1A s = op_print_color_str e s"
  "bcvm_exec e 0x1B s = op_read_text e s"
  "bcvm_exec e 0x1C s = op_print_input e s"
  "bcvm_exec e 0x1D s = op_input_len e s"
  "bcvm_exec e 0x1E s = op_input_eq e s"
  "bcvm_exec e 0x1F s = op_print_str_val e s"
  "bcvm_exec e 0x20 s = op_str_len e s"
  "bcvm_exec e 0x21 s = op_str_eq e s"
  "bcvm_exec e 0x22 s = op_print_color_str_val e s"
  "bcvm_exec e 0x23 s = op_arr_new e s"
  "bcvm_exec e 0x24 s = op_arr_get e s"
  "bcvm_exec e 0x25 s = op_arr_set e s"
  "bcvm_exec e 0x26 s = op_file_read e s"
  "bcvm_exec e 0x27 s = op_file_write e s"
  "bcvm_exec e 0x28 s = op_file_append e s"
  "bcvm_exec e 0x29 s = op_file_exists e s"
  "bcvm_exec e 0x2A s = op_mod e s"
  "bcvm_exec e 0x2B s = op_set_fullscreen e s"
  "bcvm_exec e 0x2C s = op_app_should_quit e s"
  "bcvm_exec e 0x2D s = op_app_exit e s"
  "bcvm_exec e 0x2E s = op_draw_pixel e s"
  "bcvm_exec e 0x2F s = op_print_char e s"
  "bcvm_exec e 0x30 s = op_fmul e s"
  "bcvm_exec e 0x31 s = op_fdiv e s"
  "bcvm_exec e 0x32 s = op_print_float e s"
  "bcvm_exec e 0x33 s = op_driver_serial_write e s"
  "bcvm_exec e 0x34 s = op_driver_serial_read e s"
  "bcvm_exec e 0x35 s = op_driver_port_read8 e s"
  "bcvm_exec e 0x36 s = op_driver_port_write8 e s"
  "bcvm_exec e 0x37 s = op_driver_mmio_read32 e s"
  "bcvm_exec e 0x38 s = op_driver_mmio_write32 e s"
  "bcvm_exec e 0x39 s = op_driver_should_stop e s"
  by (simp_all add: bcvm_exec_def bcvm_ops_def)

text \<open>What the dispatch table holds: the two opcodes that reset the budget apart, every instruction is
  \<open>safe\<close>.\<close>

lemma bcvm_ops_safe:
  assumes "at e s0 s" "(opcode, f) \<in> set bcvm_ops" "opcode \<noteq> 0x2B" "opcode \<noteq> 0x39"
  shows "safe e s0 (f e s)"
  using assms(2,3,4) assms(1)
    safe_stack_ops [OF assms(1)] safe_arith_ops [OF assms(1)] safe_control_ops [OF assms(1)]
    safe_print_ops [OF assms(1)] safe_input_ops [OF assms(1)] safe_heap_ops [OF assms(1)]
    safe_file_ops [OF assms(1)] safe_app_ops [OF assms(1)] safe_driver_ops [OF assms(1)]
  unfolding bcvm_ops_def list.set insert_iff prod.inject by (elim disjE conjE) simp_all

lemma bcvm_exec_safe:
  assumes "at e s0 s" "opcode \<noteq> 0x2B" "opcode = 0x39 \<longrightarrow> \<not> vm_driver_mode s"
  shows "safe e s0 (bcvm_exec e opcode s)"
proof (cases "opcode = 0x39")
  case True
  with assms(3) show ?thesis by (simp add: bcvm_exec_simps op_driver_should_stop_def)
next
  case False
  then show ?thesis
    using assms bcvm_ops_safe [OF assms(1) map_of_SomeD]
    by (auto simp: bcvm_exec_def split: option.split)
qed

lemma bcvm_exec_ends:
  assumes "at e s0 s"
  shows "ends_safe e (bcvm_exec e opcode s)"
proof -
  consider "opcode = 0x2B" | "opcode = 0x39" | "opcode \<noteq> 0x2B" "opcode \<noteq> 0x39" by blast
  then show ?thesis
  proof cases
    case 1
    with ends_fullscreen [OF assms] show ?thesis by (simp add: bcvm_exec_simps)
  next
    case 2
    with ends_should_stop [OF assms] show ?thesis by (simp add: bcvm_exec_simps)
  next
    case 3
    then show ?thesis by (intro safe_ends [OF bcvm_exec_safe [OF assms]]) auto
  qed
qed

lemma fetch_at:
  assumes "env_ok e" "vm_ok e s" "vm_pc s < code_size e"
  shows "code_at e (vm_pc s) < length (ve_image e)"
    and "at e (s\<lparr>vm_steps := n\<rparr>) (s\<lparr>vm_pc := add32 (vm_pc s) 1, vm_steps := n\<rparr>)"
proof -
  have b: "code_size e < 4294967276"
    using assms(1) by (auto simp: env_ok_def)
  show "code_at e (vm_pc s) < length (ve_image e)"
    using assms by (auto simp: env_ok_def code_at_def BCVM_IMAGE_HEADER_SIZE_def)
  show "at e (s\<lparr>vm_steps := n\<rparr>) (s\<lparr>vm_pc := add32 (vm_pc s) 1, vm_steps := n\<rparr>)"
    using assms b by (simp add: at_def vm_ok_def vm_frame_def)
qed

lemma bcvm_iter_ends:
  assumes "env_ok e" "vm_ok e s"
  shows "ends_safe e (bcvm_iter e s)"
proof (cases "vm_pc s < code_size e")
  case True
  have step: "ends_safe e (bcvm_exec e opcode (s\<lparr>vm_pc := add32 (vm_pc s) 1, vm_steps := n\<rparr>))" for n opcode
    using fetch_at(2) [OF assms True] by (rule bcvm_exec_ends)
  have polled: "ends_safe e (case vm_poll_quit_request (s\<lparr>vm_pc := add32 (vm_pc s) 1, vm_steps := n\<rparr>) of
      (quit, s) \<Rightarrow> if quit then vm_finish s else bcvm_exec e opcode s)" for n opcode
  proof -
    obtain quit t where q: "vm_poll_quit_request (s\<lparr>vm_pc := add32 (vm_pc s) 1, vm_steps := n\<rparr>) = (quit, t)"
      by fastforce
    have "ends_safe e (bcvm_exec e opcode t)"
      using poll_at [OF fetch_at(2) [OF assms True] q] bcvm_exec_ends by blast
    then show ?thesis unfolding q by (simp add: vm_finish_def ends_safe_def [of e "Done u" for u])
  qed
  have fail: "ends_safe e (Fail t)" for t by (simp add: ends_safe_def)
  show ?thesis
    using True fetch_at(1) [OF assms True] step polled fail
    by (auto simp: bcvm_iter_def Let_def arr simp del: add32_exact)
next
  case False
  then show ?thesis by (simp add: bcvm_iter_def ends_safe_def)
qed

lemma bcvm_loop_ends: "env_ok e \<Longrightarrow> vm_ok e s \<Longrightarrow> ends_safe e (bcvm_loop n e s)"
proof (induction n arbitrary: s)
  case 0
  then show ?case by (simp add: ends_safe_def)
next
  case (Suc n)
  have "ends_safe e (bcvm_loop n e t)" if "bcvm_iter e s = Next t" for t
    using bcvm_iter_ends [OF Suc.prems] that by (intro Suc.IH Suc.prems) (simp add: ends_safe_def)
  then show ?case
    using bcvm_iter_ends [OF Suc.prems] by (cases "bcvm_iter e s") (auto simp: ends_safe_def)
qed

section \<open>The start of a run\<close>

text \<open>The static arrays have the sizes they are declared with, and the console is well formed. Nothing
  is assumed of what an earlier run left in them.\<close>

definition static_ok :: "'f vm \<Rightarrow> bool" where
  "static_ok s \<longleftrightarrow>
     length (vm_input_buffer s) = 128 \<and> length (vm_file_path_buffer s) = 128 \<and>
     length (vm_file_text_buffer s) = 2049 \<and> length (vm_heap_string_data s) = 4096 \<and> length (vm_heap_string_offset s) = 64 \<and>
     length (vm_heap_string_length s) = 64 \<and>
     length (vm_heap_array_data s) = 1024 \<and> length (vm_heap_array_offset s) = 64 \<and>
     length (vm_heap_array_length s) = 64 \<and> console_ok (vm_con s)"

lemma vm_boot_static: "console_ok con \<Longrightarrow> static_ok (vm_boot keys con drv fs)"
  by (simp add: static_ok_def vm_boot_def vm_limits)

lemma vm_read_header_total: "vm_read_header img (length img) \<noteq> None"
  by (auto simp: vm_read_header_def Let_def arr BCVM_IMAGE_HEADER_SIZE_def not_less split: if_splits)

lemma vm_read_header_env:
  assumes "vm_read_header img (length img) = Some (Some h)" "length img < 2 ^ 32"
  shows "env_ok \<lparr>ve_image = img, ve_header = h, ve_vfs = vfs\<rparr>" "h_entry h < h_code_size h"
  using assms
  by (auto simp: vm_read_header_def env_ok_def code_size_def data_size_def Let_def
      BCVM_IMAGE_HEADER_SIZE_def not_less not_le arr split: if_splits option.splits)

lemma bcvm_reset_next:
  assumes "static_ok s"
  obtains t where "bcvm_reset s = Next t" "static_ok t" "vm_driver_mode t = vm_driver_mode s"
    "vm_input_length t = 0" "vm_heap_next_offset t = 0" "vm_heap_next_slot t = 0"
    "vm_heap_array_next_offset t = 0" "vm_heap_array_next_slot t = 0"
    "vm_heap_string_used t = replicate 64 False" "vm_heap_array_used t = replicate 64 False"
  using assms that by (simp add: bcvm_reset_def vm_input_put_def arr static_ok_def vm_limits)

lemma bcvm_start_ok:
  assumes "static_ok t" "vm_input_length t = 0" "vm_heap_next_offset t = 0" "vm_heap_next_slot t = 0"
    "vm_heap_array_next_offset t = 0" "vm_heap_array_next_slot t = 0"
    "vm_heap_string_used t = replicate 64 False" "vm_heap_array_used t = replicate 64 False"
    and "h_entry h < h_code_size h"
  shows "vm_ok \<lparr>ve_image = img, ve_header = h, ve_vfs = vfs\<rparr> (bcvm_start h t)"
  using assms by (simp add: vm_ok_def bcvm_start_def static_ok_def heap_ok_def vm_limits code_size_def)

text \<open>A run starts the loop in a well-formed state, or fails on the header.\<close>

lemma bytecode_vm_run_cases:
  assumes "static_ok s" "length img < 2 ^ 32"
  obtains t where "\<And>fuel. bytecode_vm_run fuel vfs img s = Fail t"
  | h t where "vm_read_header img (length img) = Some (Some h)"
      "\<And>fuel. bytecode_vm_run fuel vfs img s =
         bcvm_loop fuel \<lparr>ve_image = img, ve_header = h, ve_vfs = vfs\<rparr> (bcvm_start h t)"
      "env_ok \<lparr>ve_image = img, ve_header = h, ve_vfs = vfs\<rparr>"
      "vm_ok \<lparr>ve_image = img, ve_header = h, ve_vfs = vfs\<rparr> (bcvm_start h t)"
      "vm_driver_mode t = vm_driver_mode s"
proof -
  obtain t where t: "bcvm_reset s = Next t" "static_ok t" "vm_driver_mode t = vm_driver_mode s"
    "vm_input_length t = 0" "vm_heap_next_offset t = 0" "vm_heap_next_slot t = 0"
    "vm_heap_array_next_offset t = 0" "vm_heap_array_next_slot t = 0"
    "vm_heap_string_used t = replicate 64 False" "vm_heap_array_used t = replicate 64 False"
    using assms(1) by (rule bcvm_reset_next)
  show thesis
  proof (cases "vm_read_header img (length img)")
    case None
    then show ?thesis using vm_read_header_total by blast
  next
    case (Some r)
    show ?thesis
    proof (cases r)
      case None
      then show ?thesis using that(1) [of t] Some t(1) by (simp add: bytecode_vm_run_def)
    next
      case (Some h)
      then have h: "vm_read_header img (length img) = Some (Some h)"
        using \<open>vm_read_header img (length img) = Some r\<close> by simp
      show ?thesis
        using that(2) [OF h, of t] t(1,3) h vm_read_header_env(1) [OF h assms(2), of vfs]
          vm_read_header_env(2) [OF h assms(2)]
          bcvm_start_ok [OF t(2,4-10)]
        by (simp add: bytecode_vm_run_def)
    qed
  qed
qed

text \<open>C1. Whatever bytes the image holds and whatever an earlier run left in the static arrays, no
  instruction of a run reads or writes outside its array, the image or the data section.\<close>

theorem bcvm_memory_safe:
  assumes "static_ok s" "length img < 2 ^ 32"
  shows "bytecode_vm_run fuel vfs img s \<noteq> Trap Out_of_bounds t"
  using assms
proof (rule bytecode_vm_run_cases [where vfs = vfs])
  fix u assume "\<And>fuel. bytecode_vm_run fuel vfs img s = Fail u"
  then show ?thesis by simp
next
  fix h u
  assume r: "\<And>fuel. bytecode_vm_run fuel vfs img s =
      bcvm_loop fuel \<lparr>ve_image = img, ve_header = h, ve_vfs = vfs\<rparr> (bcvm_start h u)"
    and ok: "env_ok \<lparr>ve_image = img, ve_header = h, ve_vfs = vfs\<rparr>"
      "vm_ok \<lparr>ve_image = img, ve_header = h, ve_vfs = vfs\<rparr> (bcvm_start h u)"
  show ?thesis
    using bcvm_loop_ends [OF ok, of fuel] unfolding r by (auto simp: ends_safe_def)
qed

section \<open>The step budget\<close>

lemma set_fullscreen_counts:
  assumes "op_set_fullscreen e s = Next t"
  shows "vm_steps t = vm_steps s" "vm_driver_mode t = vm_driver_mode s"
  using assms by (auto simp: op_set_fullscreen_def vm_pop_def Let_def split: if_splits option.splits)

text \<open>A turn of the loop that leaves the machine out of fullscreen mode uses up one step of the budget.\<close>

lemma bcvm_iter_counts:
  assumes ok: "env_ok e" "vm_ok e s" and n: "vm_steps s < 200000" "\<not> vm_fullscreen s" "\<not> vm_driver_mode s"
    and nx: "bcvm_iter e s = Next t"
  shows "vm_steps t = vm_steps s + 1" "vm_steps t < 200000" "\<not> vm_driver_mode t" "vm_ok e t"
proof -
  have pc: "vm_pc s < code_size e" using nx by (auto simp: bcvm_iter_def not_le split: if_splits)
  let ?u = "s\<lparr>vm_pc := add32 (vm_pc s) 1, vm_steps := vm_steps s + 1\<rparr>"
  let ?op = "ve_image e ! code_at e (vm_pc s)"
  have at: "at e (s\<lparr>vm_steps := vm_steps s + 1\<rparr>) ?u" using fetch_at(2) [OF ok pc] .
  have e: "bcvm_exec e ?op ?u = Next t" and budget: "vm_steps s + 1 < 200000"
    using nx n pc fetch_at(1) [OF ok pc]
    by (auto simp: bcvm_iter_def Let_def arr BCVM_MAX_STEPS_def split: if_splits)
  have "vm_steps t = vm_steps ?u \<and> vm_driver_mode t = vm_driver_mode ?u"
  proof (cases "?op = 0x2B")
    case True
    with e set_fullscreen_counts show ?thesis unfolding True bcvm_exec_simps by blast
  next
    case False
    then have "safe e (s\<lparr>vm_steps := vm_steps s + 1\<rparr>) (bcvm_exec e ?op ?u)"
      using at n(3) by (intro bcvm_exec_safe) auto
    then show ?thesis unfolding e by (simp add: safe_def vm_frame_def)
  qed
  then show "vm_steps t = vm_steps s + 1" "vm_steps t < 200000" "\<not> vm_driver_mode t"
    using n(3) budget by simp_all
  show "vm_ok e t" using bcvm_iter_ends [OF ok] by (simp add: nx ends_safe_def)
qed

lemma bcvm_loop_counts:
  "env_ok e \<Longrightarrow> vm_ok e s \<Longrightarrow> vm_steps s < 200000 \<Longrightarrow> \<not> vm_driver_mode s \<Longrightarrow>
   (\<And>k u. bcvm_loop k e s = Next u \<Longrightarrow> \<not> vm_fullscreen u) \<Longrightarrow> bcvm_loop n e s = Next t \<Longrightarrow>
   vm_steps s + n < 200000"
proof (induction n arbitrary: s)
  case (Suc n)
  then obtain u where u: "bcvm_iter e s = Next u" "bcvm_loop n e u = Next t"
    by (auto split: outcome.splits)
  have "\<not> vm_fullscreen s" using Suc.prems(5) [of 0 s] by simp
  note c = bcvm_iter_counts [OF Suc.prems(1-3) this Suc.prems(4) u(1)]
  have "\<not> vm_fullscreen v" if "bcvm_loop k e u = Next v" for k v
    using Suc.prems(5) [of "Suc k" v] u(1) that by simp
  then have "vm_steps u + n < 200000" using Suc.IH [OF Suc.prems(1) c(4,2,3) _ u(2)] by blast
  with c(1) show ?case by simp
qed simp

text \<open>More fuel does not change a run that has ended.\<close>

lemma bcvm_loop_more:
  "(\<And>t. bcvm_loop n e s \<noteq> Next t) \<Longrightarrow> bcvm_loop (n + k) e s = bcvm_loop n e s"
proof (induction n arbitrary: s)
  case 0
  from 0 [of s] show ?case by simp
next
  case (Suc n)
  then show ?case by (auto split: outcome.splits)
qed

text \<open>C2. A run outside driver mode that never enters fullscreen mode ends: 200000 turns of the
  loop reach its result, and more fuel does not change it. The hypothesis speaks of the states the
  run reaches, not of the bytes of the image.\<close>

theorem bcvm_terminates:
  assumes "static_ok s" "length img < 2 ^ 32" "\<not> vm_driver_mode s"
    and windowed: "\<And>turns t. bytecode_vm_run turns vfs img s = Next t \<Longrightarrow> \<not> vm_fullscreen t"
  shows "\<exists>r. (\<forall>t. r \<noteq> Next t) \<and> (\<forall>fuel \<ge> 200000. bytecode_vm_run fuel vfs img s = r)"
  using assms(1,2)
proof (rule bytecode_vm_run_cases [where vfs = vfs])
  fix u assume "\<And>fuel. bytecode_vm_run fuel vfs img s = Fail u"
  then show ?thesis by (intro exI [of _ "Fail u"]) simp
next
  fix h u
  let ?e = "\<lparr>ve_image = img, ve_header = h, ve_vfs = vfs\<rparr>"
  assume r: "\<And>fuel. bytecode_vm_run fuel vfs img s = bcvm_loop fuel ?e (bcvm_start h u)"
    and ok: "env_ok ?e" "vm_ok ?e (bcvm_start h u)" "vm_driver_mode u = vm_driver_mode s"
  have start: "vm_steps (bcvm_start h u) = 0" "\<not> vm_driver_mode (bcvm_start h u)"
    using ok(3) assms(3) by (simp_all add: bcvm_start_def)
  have ends: "bcvm_loop 200000 ?e (bcvm_start h u) \<noteq> Next t" for t
    using bcvm_loop_counts [OF ok(1,2) _ start(2), of 200000 t] windowed start(1)
    unfolding r by fastforce
  have "bcvm_loop fuel ?e (bcvm_start h u) = bcvm_loop 200000 ?e (bcvm_start h u)"
    if "200000 \<le> fuel" for fuel
    using bcvm_loop_more [of 200000 ?e "bcvm_start h u" "fuel - 200000"] ends that by simp
  with ends show ?thesis unfolding r by blast
qed

text \<open>A file system with no files.\<close>

definition no_files :: "unit vfs_ops" where
  "no_files = \<lparr>vfs_read_file = (\<lambda>path cap fs. (None, fs)), vfs_write_file = (\<lambda>path str app fs. (False, fs)),
     vfs_path_is_dir = (\<lambda>path fs. (None, fs))\<rparr>"

definition boot_vm :: "unit vm" where
  "boot_vm = vm_boot [] console_boot (driver_boot \<lparr>ser_rx = ringbuf_zero, ser_out = []\<rparr>) ()"

lemma boot_vm_static: "static_ok boot_vm" "\<not> vm_driver_mode boot_vm"
  by (simp_all add: boot_vm_def vm_boot_static console_boot_ok) (simp add: vm_boot_def)

text \<open>PUSH 43; HALT, with the text \<open>+\<close> as data: the byte 0x2B of SET_FULLSCREEN stands in the image
  twice and is never executed.\<close>

definition halting_image :: bytes where
  "halting_image =
     [0x42, 0x43, 0x56, 0x4D, 2, 0, 0, 0, 6, 0, 0, 0, 1, 0, 0, 0, 0, 0, 0, 0, 0x01, 0x2B, 0, 0, 0, 0x0D, 0x2B]"

definition halting_header :: bcvm_header where
  "halting_header = \<lparr>h_magic = BCVM_MAGIC, h_version = BCVM_VERSION, h_reserved = 0, h_code_size = 6,
     h_data_size = 1, h_entry = 0\<rparr>"

lemma halting_header: "vm_read_header halting_image (length halting_image) = Some (Some halting_header)"
  by (simp add: halting_image_def halting_header_def vm_read_header_def Let_def
      BCVM_IMAGE_HEADER_SIZE_def read_u32le_def read_u16le_def chunk_def u32_of_le_def u16_of_le_def
      BCVM_MAGIC_def BCVM_VERSION_def)

lemma halting_loop:
  assumes "bcvm_loop n \<lparr>ve_image = halting_image, ve_header = halting_header, ve_vfs = vfs\<rparr> s = Next t"
    and s: "vm_pc s = 0" "vm_steps s = 0" "vm_sp s = 0" "\<not> vm_fullscreen s" "length (vm_stack s) = 256"
  shows "\<not> vm_fullscreen t"
proof -
  have code: "rd halting_image (code_at e 0) = Some 0x01" "read_u32le halting_image (code_at e (Suc 0)) = Some 0x2B"
    "rd halting_image (code_at e 5) = Some 0x0D" for e :: "'a vm_env"
    by (simp_all add: halting_image_def code_at_def BCVM_IMAGE_HEADER_SIZE_def rd_def read_u32le_def
        chunk_def u32_of_le_def)
  note turn = bcvm_iter_def bcvm_exec_simps op_push_i32_def op_halt_def no_operand_def stack_full_def
    vm_limits BCVM_MAX_STEPS_def vm_u32_def vm_push_def vm_finish_def arr Let_def code_size_def
    halting_header_def code
  consider "n = 0" | "n = 1" | m where "n = Suc (Suc m)" by (metis One_nat_def not0_implies_Suc)
  then show ?thesis
  proof cases
    case 1
    with assms show ?thesis by simp
  next
    case 2
    with assms show ?thesis by (auto simp: turn)
  next
    case 3
    with assms show ?thesis by (simp add: turn)
  qed
qed

lemma halting_run:
  assumes "static_ok s" "bytecode_vm_run turns vfs halting_image s = Next t"
  shows "\<not> vm_fullscreen t"
proof -
  obtain u where u: "bcvm_reset s = Next u" using bcvm_reset_next [OF assms(1)] by blast
  have "bcvm_loop turns \<lparr>ve_image = halting_image, ve_header = halting_header, ve_vfs = vfs\<rparr>
      (bcvm_start halting_header u) = Next t"
    using assms(2) by (simp add: bytecode_vm_run_def u halting_header)
  then show ?thesis
    by (rule halting_loop) (simp_all add: bcvm_start_def halting_header_def vm_limits)
qed

theorem bcvm_memory_safe_witness:
  "bytecode_vm_run 10 no_files halting_image boot_vm \<noteq> Trap Out_of_bounds boot_vm"
  using bcvm_memory_safe [of boot_vm halting_image 10 no_files boot_vm] boot_vm_static(1)
  by (simp add: halting_image_def)

theorem bcvm_terminates_witness:
  "\<exists>r. (\<forall>t. r \<noteq> Next t) \<and> (\<forall>fuel \<ge> 200000. bytecode_vm_run fuel no_files halting_image boot_vm = r)"
  by (rule bcvm_terminates [OF boot_vm_static(1) _ boot_vm_static(2) halting_run [OF boot_vm_static(1)]])
    (simp_all add: halting_image_def)

section \<open>The fault a program can cause\<close>

text \<open>PUSH -2147483648; PUSH -1; DIV; HALT.\<close>

definition divide_fault_image :: bytes where
  "divide_fault_image =
     [0x42, 0x43, 0x56, 0x4D, 2, 0, 0, 0, 12, 0, 0, 0, 0, 0, 0, 0, 0, 0, 0, 0,
      0x01, 0, 0, 0, 0x80, 0x01, 0xFF, 0xFF, 0xFF, 0xFF, 0x07, 0x0D]"

lemma idiv_faults_iff: "idiv_faults lhs rhs \<longleftrightarrow> sint lhs = - (2 ^ 31) \<and> sint rhs = - 1"
proof -
  have "sint lhs = sint (0x80000000 :: u32) \<longleftrightarrow> lhs = 0x80000000"
    "sint rhs = sint (0xFFFFFFFF :: u32) \<longleftrightarrow> rhs = 0xFFFFFFFF"
    by (auto intro: signed_word_eqI)
  then show ?thesis by (simp add: idiv_faults_def)
qed

definition divide_fault_env :: "'f vfs_ops \<Rightarrow> 'f vm_env" where
  "divide_fault_env vfs =
     \<lparr>ve_image = divide_fault_image,
      ve_header = \<lparr>h_magic = BCVM_MAGIC, h_version = BCVM_VERSION, h_reserved = 0, h_code_size = 12,
        h_data_size = 0, h_entry = 0\<rparr>, ve_vfs = vfs\<rparr>"

lemma divide_fault_header:
  "vm_read_header divide_fault_image (length divide_fault_image) =
     Some (Some (ve_header (divide_fault_env vfs)))"
  by (simp add: divide_fault_image_def divide_fault_env_def vm_read_header_def Let_def
      BCVM_IMAGE_HEADER_SIZE_def read_u32le_def read_u16le_def chunk_def u32_of_le_def u16_of_le_def
      BCVM_MAGIC_def BCVM_VERSION_def)

lemma divide_fault_code:
  "code_size (divide_fault_env vfs) = 12" "ve_image (divide_fault_env vfs) = divide_fault_image"
  "rd divide_fault_image (code_at e 0) = Some 0x01"
  "read_u32le divide_fault_image (code_at e (Suc 0)) = Some 0x80000000"
  "rd divide_fault_image (code_at e 5) = Some 0x01"
  "read_u32le divide_fault_image (code_at e 6) = Some 0xFFFFFFFF"
  "rd divide_fault_image (code_at e 10) = Some 0x07"
  by (simp_all add: divide_fault_env_def code_size_def divide_fault_image_def code_at_def
      BCVM_IMAGE_HEADER_SIZE_def rd_def read_u32le_def chunk_def u32_of_le_def)

lemma divide_fault_loop:
  assumes "vm_pc s = 0" "vm_steps s = 0" "vm_sp s = 0" "\<not> vm_fullscreen s" "length (vm_stack s) = 256"
  shows "\<exists>t. bcvm_loop (Suc (Suc (Suc n))) (divide_fault_env vfs) s = Trap Divide_error t"
  using assms
  by (simp add: bcvm_iter_def bcvm_exec_simps op_push_i32_def op_div_def no_operand_def stack_full_def
      vm_limits BCVM_MAX_STEPS_def vm_u32_def vm_push_def vm_operands_def vm_pop_def arr
      divide_fault_code idiv_faults_def Let_def)

text \<open>C11. A 32-byte image faults the processor in kernel mode: DIV guards a zero divisor, but not the quotient
  of the least integer by -1, which \<open>idiv\<close> refuses.\<close>

theorem bcvm_divide_fault:
  assumes "static_ok s"
  shows "\<exists>t. bytecode_vm_run (n + 3) vfs divide_fault_image s = Trap Divide_error t"
proof -
  obtain t where t: "bcvm_reset s = Next t" using bcvm_reset_next [OF assms] by blast
  have "bytecode_vm_run (n + 3) vfs divide_fault_image s =
      bcvm_loop (Suc (Suc (Suc n))) (divide_fault_env vfs) (bcvm_start (ve_header (divide_fault_env vfs)) t)"
    using t divide_fault_header [of vfs] by (simp add: bytecode_vm_run_def divide_fault_env_def numeral_3_eq_3)
  moreover have "\<exists>u. bcvm_loop (Suc (Suc (Suc n))) (divide_fault_env vfs)
      (bcvm_start (ve_header (divide_fault_env vfs)) t) = Trap Divide_error u"
    by (rule divide_fault_loop) (simp_all add: bcvm_start_def divide_fault_env_def vm_limits)
  ultimately show ?thesis by simp
qed

theorem bcvm_divide_fault_witness:
  "\<exists>t. bytecode_vm_run (0 + 3) no_files divide_fault_image boot_vm = Trap Divide_error t"
  using bcvm_divide_fault [of boot_vm 0 no_files] boot_vm_static(1) by blast

end
