(* ===== verification/Bcvm_Heap.thy ===== *)
theory Bcvm_Heap
  imports Bcvm_Run
begin

text \<open>
  The two heaps of the virtual machine against their abstraction: the strings and the arrays a
  program can name are finite maps from slots to contents. Allocation adds one entry, an array store
  changes one cell of one entry, and nothing else changes until the bump allocator starts again
  from the bottom.
\<close>

section \<open>Strings\<close>

definition string_at :: "'f vm \<Rightarrow> nat \<Rightarrow> bytes option" where
  "string_at s slot =
     (if slot < 64 \<and> vm_heap_string_used s ! slot
      then chunk (vm_heap_string_data s) (vm_heap_string_offset s ! slot) (vm_heap_string_length s ! slot)
      else None)"

lemma heap_descriptor:
  assumes "slot < 64"
  shows "vm_make_heap_string_descriptor slot AND VM_STRING_DESC_HEAP_MASK \<noteq> 0"
    "unat (vm_make_heap_string_descriptor slot AND 0xFF) = slot"
proof -
  have "\<forall>slot \<in> set [0..<64]. vm_make_heap_string_descriptor slot AND VM_STRING_DESC_HEAP_MASK \<noteq> 0 \<and>
      unat (vm_make_heap_string_descriptor slot AND 0xFF) = slot"
    unfolding vm_make_heap_string_descriptor_def VM_STRING_DESC_HEAP_MASK_def by code_simp
  with assms show "vm_make_heap_string_descriptor slot AND VM_STRING_DESC_HEAP_MASK \<noteq> 0"
    "unat (vm_make_heap_string_descriptor slot AND 0xFF) = slot"
    by auto
qed

lemma resolve_heap:
  assumes "at e s0 s" "slot < 64"
  shows "vm_resolve_string_descriptor e s (vm_make_heap_string_descriptor slot) = Some (string_at s slot)"
proof -
  note h = heap_okD [OF at_heapD(3) [OF assms(1)]]
  have "\<exists>str. chunk (vm_heap_string_data s) (vm_heap_string_offset s ! slot) (vm_heap_string_length s ! slot) = Some str"
    if "vm_heap_string_used s ! slot"
    using h(4) h(5) [OF assms(2) that] at_heapD(1) [OF assms(1)] by (simp add: arr)
  then show ?thesis
    using h(1,2,3) assms(2) heap_descriptor [OF assms(2)]
    by (auto simp: vm_resolve_string_descriptor_def string_at_def Let_def vm_limits arr)
qed

lemma string_placed_contents:
  assumes "at e s0 s" "vm_heap_next_slot s < 64" "vm_heap_next_offset s + length str \<le> 4096" "slot < 64"
  shows "string_at (string_placed str s) slot =
    (if slot = vm_heap_next_slot s then Some str else string_at s slot)"
proof -
  note h = heap_okD [OF at_heapD(3) [OF assms(1)]]
  obtain dat where dat: "blit (vm_heap_string_data s) (vm_heap_next_offset s) str = Some dat"
    using blit_ex [of "vm_heap_next_offset s" str "vm_heap_string_data s"] assms(3)
      at_heapD(1) [OF assms(1)] by auto
  have other: "chunk dat (vm_heap_string_offset s ! slot) (vm_heap_string_length s ! slot) =
      chunk (vm_heap_string_data s) (vm_heap_string_offset s ! slot) (vm_heap_string_length s ! slot)"
    if "vm_heap_string_used s ! slot"
    using h(5) [OF assms(4) that] by (intro chunk_blit_other [OF dat]) simp
  show ?thesis
    using h(1,2,3) assms(2,4) dat other chunk_blit_same [OF dat]
    by (auto simp: string_at_def string_placed_def Let_def)
qed

lemma string_room_contents:
  "vm_heap_next_offset s + len \<le> 4096 \<Longrightarrow> string_at (string_room len s) slot = string_at s slot"
  by (auto simp: string_room_def string_at_def vm_limits Let_def)

text \<open>C10. A string stored on the heap is what its descriptor resolves to, and while the heap has room every
  other descriptor keeps resolving to what it did.\<close>

theorem vm_string_stored:
  assumes "env_ok e" "vm_ok e s" "length str \<le> 4096"
  shows "\<exists>slot t. slot < 64
    \<and> (\<forall>k. vm_store_heap_string str s k = k (vm_make_heap_string_descriptor slot) t)
    \<and> vm_resolve_string_descriptor e t (vm_make_heap_string_descriptor slot) = Some (Some str)
    \<and> (vm_heap_next_offset s + length str \<le> 4096 \<longrightarrow>
       (\<forall>i < 64. i \<noteq> slot \<longrightarrow>
          vm_resolve_string_descriptor e t (vm_make_heap_string_descriptor i) =
          vm_resolve_string_descriptor e s (vm_make_heap_string_descriptor i)))"
proof -
  have at: "at e s s" using assms(1,2) by (simp add: at_def vm_frame_def)
  let ?r = "string_room (length str) s"
  let ?slot = "vm_heap_next_slot ?r"
  let ?t = "string_placed str ?r"
  note r = string_room_at(1,2,3) [OF at assms(3)]
  have t: "at e s ?t" using string_placed_at [OF r] .
  note c = string_placed_contents [OF r] string_room_contents
  show ?thesis
    by (intro exI [of _ ?slot] exI [of _ ?t] conjI allI impI)
      (use r(2) c in \<open>simp_all add: vm_store_heap_string_placed [OF at assms(3)]
          resolve_heap [OF t] resolve_heap [OF at]\<close>)
qed

section \<open>Arrays\<close>

definition array_contents :: "'f vm \<Rightarrow> u32 \<Rightarrow> u32 list option" where
  "array_contents s h =
     (if unat h < 64 \<and> vm_heap_array_used s ! unat h
      then chunk (vm_heap_array_data s) (vm_heap_array_offset s ! unat h) (vm_heap_array_length s ! unat h)
      else None)"

lemma array_contents_SomeD:
  assumes "array_contents s h = Some xs"
  shows "unat h < 64" "vm_heap_array_used s ! unat h" "length xs = vm_heap_array_length s ! unat h"
    "vm_heap_array_offset s ! unat h + length xs \<le> length (vm_heap_array_data s)"
    "\<And>i. i < length xs \<Longrightarrow> xs ! i = vm_heap_array_data s ! (vm_heap_array_offset s ! unat h + i)"
  using assms by (auto simp: array_contents_def chunk_def split: if_splits)

lemma array_contents_None:
  assumes "at e s0 s"
  shows "array_contents s h = None \<longleftrightarrow> \<not> (unat h < 64 \<and> vm_heap_array_used s ! unat h)"
proof -
  have "vm_heap_array_offset s ! unat h + vm_heap_array_length s ! unat h \<le> 1024"
    if "unat h < 64" "vm_heap_array_used s ! unat h"
    using heap_okD(4) [OF at_heapD(6) [OF assms]] heap_okD(5) [OF at_heapD(6) [OF assms] that] by simp
  then show ?thesis using at_heapD(4) [OF assms] by (auto simp: array_contents_def chunk_def)
qed

lemma vm_array_cell_contents:
  assumes "at e s0 s"
  shows "vm_array_cell h i s k =
    (case array_contents s h of
       None \<Rightarrow> Fail s
     | Some xs \<Rightarrow> if sint i < 0 \<or> length xs \<le> unat i then Fail s
                 else k (vm_heap_array_offset s ! unat h + unat i))"
proof -
  note ok = heap_okD [OF at_heapD(6) [OF assms]]
  show ?thesis
  proof (cases "array_contents s h")
    case None
    then have "\<not> (unat h < 64 \<and> vm_heap_array_used s ! unat h)"
      by (simp only: array_contents_None [OF assms] not_False_eq_True)
    then show ?thesis
      using ok(1,2,3) None by (auto simp: vm_array_cell_def vm_limits arr)
  next
    case (Some xs)
    note c = array_contents_SomeD [OF Some]
    have "length xs < 65536" using c(4) at_heapD(4) [OF assms] by simp
    with c Some ok(1,2,3) show ?thesis
      by (auto simp: vm_array_cell_def vm_limits arr)
  qed
qed

text \<open>A load reads the abstract cell.\<close>

lemma vm_get_array_contents:
  assumes "at e s0 s"
  shows "vm_get_array_value h i s k =
    (case array_contents s h of
       None \<Rightarrow> Fail s
     | Some xs \<Rightarrow> if sint i < 0 \<or> length xs \<le> unat i then Fail s else k (xs ! unat i))"
proof (cases "array_contents s h")
  case (Some xs)
  note c = array_contents_SomeD [OF Some]
  show ?thesis
    using Some c by (auto simp: vm_get_array_value_def vm_array_cell_contents [OF assms] arr)
qed (simp add: vm_get_array_value_def vm_array_cell_contents [OF assms])

text \<open>A store updates the abstract cell and leaves every other array as it was.\<close>

lemma array_store_contents:
  assumes "at e s0 s" "array_contents s h = Some xs" "i < length xs"
  shows "array_contents (s\<lparr>vm_heap_array_data :=
      (vm_heap_array_data s)[vm_heap_array_offset s ! unat h + i := v]\<rparr>) g =
    (if g = h then Some (xs[i := v]) else array_contents s g)"
proof -
  note ok = heap_okD [OF at_heapD(6) [OF assms(1)]]
  note c = array_contents_SomeD [OF assms(2)]
  let ?t = "s\<lparr>vm_heap_array_data := (vm_heap_array_data s)[vm_heap_array_offset s ! unat h + i := v]\<rparr>"
  show ?thesis
  proof (cases "array_contents s g")
    case None
    then show ?thesis using assms(2) by (auto simp: array_contents_def chunk_def split: if_splits)
  next
    case (Some ys)
    note d = array_contents_SomeD [OF Some]
    have g: "array_contents ?t g = Some (take (length ys)
        (drop (vm_heap_array_offset s ! unat g)
          ((vm_heap_array_data s)[vm_heap_array_offset s ! unat h + i := v])))"
      using d by (simp add: array_contents_def chunk_def)
    show ?thesis
    proof (cases "g = h")
      case True
      with Some assms(2) have "ys = xs" by simp
      have "take (length xs) (drop (vm_heap_array_offset s ! unat h)
          ((vm_heap_array_data s)[vm_heap_array_offset s ! unat h + i := v])) = xs[i := v]"
        using c assms(3) by (intro nth_equalityI) (auto simp: nth_list_update)
      with g True \<open>ys = xs\<close> show ?thesis by simp
    next
      case False
      then have "unat g \<noteq> unat h" by (simp add: word_unat_eq_iff)
      then have "vm_heap_array_offset s ! unat g + length ys \<le> vm_heap_array_offset s ! unat h
          \<or> vm_heap_array_offset s ! unat h + length xs \<le> vm_heap_array_offset s ! unat g"
        using ok(6) [OF d(1) c(1)] c(2,3) d(2,3) by auto
      then have "take (length ys) (drop (vm_heap_array_offset s ! unat g)
          ((vm_heap_array_data s)[vm_heap_array_offset s ! unat h + i := v])) = ys"
        using c(4) d assms(3) by (intro nth_equalityI) (auto simp: nth_list_update)
      with g False Some show ?thesis by simp
    qed
  qed
qed

text \<open>C9. The array heap implements a map from handles to lists: a load reads the cell, a store changes that
  cell of that array and nothing else, and both refuse an unknown handle or an index out of range.\<close>

theorem vm_array_store_load:
  assumes "env_ok e" "vm_ok e s"
  shows "case array_contents s h of
      None \<Rightarrow> vm_set_array_value h i v s = Fail s \<and> vm_get_array_value h i s k = Fail s
    | Some xs \<Rightarrow>
        if sint i < 0 \<or> length xs \<le> unat i
        then vm_set_array_value h i v s = Fail s \<and> vm_get_array_value h i s k = Fail s
        else vm_get_array_value h i s k = k (xs ! unat i)
          \<and> (\<exists>t. vm_set_array_value h i v s = Next t
               \<and> array_contents t h = Some (xs[unat i := v])
               \<and> (\<forall>g. g \<noteq> h \<longrightarrow> array_contents t g = array_contents s g))"
proof -
  have at: "at e s s" using assms by (simp add: at_def vm_frame_def)
  show ?thesis
  proof (cases "array_contents s h")
    case (Some xs)
    note c = array_contents_SomeD [OF Some]
    show ?thesis
      using Some c array_store_contents [OF at Some, of "unat i" v]
      by (auto simp: vm_get_array_contents [OF at] vm_set_array_value_def
          vm_array_cell_contents [OF at] arr)
  qed (simp add: vm_get_array_contents [OF at] vm_set_array_value_def vm_array_cell_contents [OF at])
qed

text \<open>The machine after a run has started.\<close>

definition started_vm :: "unit vm" where
  "started_vm = bcvm_start (ve_header (divide_fault_env no_files)) boot_vm"

lemma started_vm_ok: "env_ok (divide_fault_env no_files)" "vm_ok (divide_fault_env no_files) started_vm"
proof -
  show "env_ok (divide_fault_env no_files)"
    by (simp add: env_ok_def divide_fault_env_def code_size_def data_size_def divide_fault_image_def)
  show "vm_ok (divide_fault_env no_files) started_vm"
    unfolding divide_fault_env_def started_vm_def vm_env.select_convs
    by (rule bcvm_start_ok)
      (use boot_vm_static in \<open>simp_all add: boot_vm_def vm_boot_def divide_fault_env_def vm_limits\<close>)
qed

theorem vm_string_stored_witness:
  "\<exists>slot t. slot < 64
    \<and> (\<forall>k. vm_store_heap_string [65] started_vm k = k (vm_make_heap_string_descriptor slot) t)
    \<and> vm_resolve_string_descriptor (divide_fault_env no_files) t (vm_make_heap_string_descriptor slot) = Some (Some [65])"
  using vm_string_stored [OF started_vm_ok, of "[65]"] by auto

text \<open>An array of one zero cell.\<close>

definition one_cell_vm :: "unit vm" where
  "one_cell_vm = array_placed 1 (array_room 1 started_vm)"

lemma one_cell_vm_ok: "vm_ok (divide_fault_env no_files) one_cell_vm"
proof -
  have "at (divide_fault_env no_files) started_vm started_vm"
    using started_vm_ok by (simp add: at_def vm_frame_def)
  then have "at (divide_fault_env no_files) started_vm one_cell_vm"
    unfolding one_cell_vm_def
    using array_room_at [of _ _ started_vm 1] by (intro array_placed_at) auto
  then show ?thesis by (simp add: at_def)
qed

lemma one_cell_vm_contents: "array_contents one_cell_vm 0 = Some [0]"
  by (simp add: array_contents_def one_cell_vm_def array_placed_def array_room_def started_vm_def
      bcvm_start_def boot_vm_def vm_boot_def vm_limits blit_def chunk_def Let_def)

theorem vm_array_store_load_witness:
  "vm_get_array_value 0 0 one_cell_vm (\<lambda>v. vm_push v one_cell_vm) = vm_push 0 one_cell_vm
   \<and> (\<exists>t. vm_set_array_value 0 0 7 one_cell_vm = Next t \<and> array_contents t 0 = Some [7])"
  using vm_array_store_load [OF started_vm_ok(1) one_cell_vm_ok, of 0 0 7 "\<lambda>v. vm_push v one_cell_vm"]
  by (auto simp: one_cell_vm_contents)

end
