(* ===== verification/Prismcc.thy ===== *)
theory Prismcc
  imports Bcvm_Run
begin

text \<open>
  \<open>tools/prismcc.c\<close>: the host compiler from the PrismCC subset to application files. The lexer keeps
  the rest of the source instead of a position; \<open>exit(1)\<close> with a message is the result \<open>Err\<close>. The
  recursive-descent functions carry fuel, \<open>More\<close> being its exhaustion; \<open>Prismcc_Total\<close> shows how much
  is enough for every source.
\<close>

section \<open>Limits, tokens, state\<close>

definition MAX_SOURCE_SIZE :: nat where "MAX_SOURCE_SIZE = 128 * 1024"
definition MAX_TOK_TEXT :: nat where "MAX_TOK_TEXT = 128"
definition MAX_CODE_SIZE :: nat where "MAX_CODE_SIZE = 64 * 1024"
definition MAX_DATA_SIZE :: nat where "MAX_DATA_SIZE = 32 * 1024"
definition MAX_LOCALS :: nat where "MAX_LOCALS = 64"
definition LOCAL_NAME_SIZE :: nat where "LOCAL_NAME_SIZE = 32"

datatype token_type =
    TOK_EOF | TOK_INT | TOK_CHAR | TOK_MAIN | TOK_RETURN | TOK_PRINT | TOK_PRINT_INT
  | TOK_PRINT_CHAR | TOK_IDENTIFIER | TOK_NUMBER | TOK_STRING | TOK_LPAREN | TOK_RPAREN
  | TOK_LBRACE | TOK_RBRACE | TOK_SEMI | TOK_ASSIGN | TOK_COMMA | TOK_PLUS | TOK_MINUS
  | TOK_STAR | TOK_SLASH

record token =
  tk_type :: token_type
  tk_text :: bytes
  tk_number :: u32
  tk_line :: nat

record lexer =
  lx_rest :: bytes
  lx_line :: nat
  lx_current :: token

record compiler =
  cc_code :: bytes
  cc_data :: bytes
  cc_locals :: "(bytes \<times> u8) list"
  cc_lexer :: lexer

text \<open>The two exits: \<open>fail_at_line\<close> and \<open>fail\<close>.\<close>

datatype cc_error = Fail_at_line nat string | Fail_plain string

datatype 'a cc_res = Ok 'a | Err cc_error | More

fun andthen :: "'a cc_res \<Rightarrow> ('a \<Rightarrow> 'b cc_res) \<Rightarrow> 'b cc_res" where
  "andthen (Ok a) k = k a"
| "andthen (Err e) k = Err e"
| "andthen More k = More"

section \<open>Lexer\<close>

definition is_alpha :: "u8 \<Rightarrow> bool" where
  "is_alpha c \<longleftrightarrow> (97 \<le> c \<and> c \<le> 122) \<or> (65 \<le> c \<and> c \<le> 90) \<or> c = 95"

definition is_digit :: "u8 \<Rightarrow> bool" where
  "is_digit c \<longleftrightarrow> 48 \<le> c \<and> c \<le> 57"

function lexer_skip_ws :: "bytes \<Rightarrow> nat \<Rightarrow> bytes \<times> nat" where
  "lexer_skip_ws [] line = ([], line)"
| "lexer_skip_ws (c # rest) line =
     (if c = 32 \<or> c = 9 \<or> c = 13 then lexer_skip_ws rest line
      else if c = 10 then lexer_skip_ws rest (add32 line 1)
      else if c = 47 \<and> rest \<noteq> [] \<and> hd rest = 47
      then lexer_skip_ws (dropWhile (\<lambda>d. d \<noteq> 10) (tl rest)) line
      else (c # rest, line))"
  by pat_completeness auto
termination
proof (relation "measure (length \<circ> fst)", goal_cases)
  case (4 c rest line)
  have "length (dropWhile (\<lambda>d. d \<noteq> 10) (tl rest)) \<le> length (tl rest)" by (rule length_dropWhile_le)
  then show ?case by (simp add: less_Suc_eq_le)
qed auto

definition keyword_type :: "bytes \<Rightarrow> token_type" where
  "keyword_type str =
     (if str = ascii ''int'' then TOK_INT
      else if str = ascii ''char'' then TOK_CHAR
      else if str = ascii ''main'' then TOK_MAIN
      else if str = ascii ''return'' then TOK_RETURN
      else if str = ascii ''print'' then TOK_PRINT
      else if str = ascii ''print_int'' then TOK_PRINT_INT
      else if str = ascii ''print_char'' then TOK_PRINT_CHAR
      else TOK_IDENTIFIER)"

text \<open>The loops of \<open>lexer_next\<close>: a string literal, an identifier, a number. \<open>out\<close> is the text so far.\<close>

definition string_escape :: "u8 \<Rightarrow> u8" where
  "string_escape c = (if c = 110 then 10 else if c = 116 then 9 else c)"

fun lex_string :: "nat \<Rightarrow> bytes \<Rightarrow> bytes \<Rightarrow> (bytes \<times> bytes) cc_res" where
  "lex_string line [] out = Ok (out, [])"
| "lex_string line (sc # rest) out =
     (if sc = 34 then Ok (out, rest)
      else if sc = 92 then
        (case rest of
           [] \<Rightarrow> Err (Fail_at_line line ''unterminated string escape'')
         | d # rest' \<Rightarrow>
             if MAX_TOK_TEXT \<le> length out + 1
             then Err (Fail_at_line line ''string literal too long'')
             else lex_string line rest' (out @ [string_escape d]))
      else if MAX_TOK_TEXT \<le> length out + 1
      then Err (Fail_at_line line ''string literal too long'')
      else lex_string line rest (out @ [sc]))"

fun lex_ident :: "nat \<Rightarrow> bytes \<Rightarrow> bytes \<Rightarrow> (bytes \<times> bytes) cc_res" where
  "lex_ident line [] out = Ok (out, [])"
| "lex_ident line (c # rest) out =
     (if is_alpha c \<or> is_digit c then
        (if MAX_TOK_TEXT \<le> length out + 1
         then Err (Fail_at_line line ''identifier too long'')
         else lex_ident line rest (out @ [c]))
      else Ok (out, c # rest))"

fun lex_number :: "bytes \<Rightarrow> u32 \<Rightarrow> u32 \<times> bytes" where
  "lex_number [] v = (v, [])"
| "lex_number (c # rest) v =
     (if is_digit c then lex_number rest (v * 10 + (ucast c - 48)) else (v, c # rest))"

definition lex_char_bad :: "nat \<Rightarrow> 'a cc_res" where
  "lex_char_bad line = Err (Fail_at_line line ''char literal must contain one character'')"

text \<open>After the character, and after the opening quote.\<close>

fun lex_char_close :: "nat \<Rightarrow> u8 \<times> bytes \<Rightarrow> (u8 \<times> bytes) cc_res" where
  "lex_char_close line (sc, []) = lex_char_bad line"
| "lex_char_close line (sc, d # rest) = (if d = 39 then Ok (sc, rest) else lex_char_bad line)"

definition lex_char :: "nat \<Rightarrow> bytes \<Rightarrow> (u8 \<times> bytes) cc_res" where
  "lex_char line src =
     (case src of
        [] \<Rightarrow> Err (Fail_at_line line ''unterminated char literal'')
      | sc # rest \<Rightarrow>
          if sc = 39 then lex_char_bad line
          else andthen
            (if sc = 92 then
               (case rest of
                  [] \<Rightarrow> Err (Fail_at_line line ''unterminated char literal escape'')
                | d # rest \<Rightarrow> Ok (string_escape d, rest))
             else Ok (sc, rest))
            (lex_char_close line))"

definition tok :: "token_type \<Rightarrow> bytes \<Rightarrow> u32 \<Rightarrow> nat \<Rightarrow> token" where
  "tok t str v line = \<lparr>tk_type = t, tk_text = str, tk_number = v, tk_line = line\<rparr>"

definition punctuation :: "u8 \<Rightarrow> token_type option" where
  "punctuation c =
     (if c = 40 then Some TOK_LPAREN else if c = 41 then Some TOK_RPAREN
      else if c = 123 then Some TOK_LBRACE else if c = 125 then Some TOK_RBRACE
      else if c = 59 then Some TOK_SEMI else if c = 61 then Some TOK_ASSIGN
      else if c = 44 then Some TOK_COMMA else if c = 43 then Some TOK_PLUS
      else if c = 45 then Some TOK_MINUS else if c = 42 then Some TOK_STAR
      else if c = 47 then Some TOK_SLASH else None)"

definition lexer_next :: "lexer \<Rightarrow> lexer cc_res" where
  "lexer_next lx =
     (case lexer_skip_ws (lx_rest lx) (lx_line lx) of
        ([], line) \<Rightarrow> Ok \<lparr>lx_rest = [], lx_line = line, lx_current = tok TOK_EOF [] 0 line\<rparr>
      | (c # rest, line) \<Rightarrow>
          (case punctuation c of
             Some t \<Rightarrow> Ok \<lparr>lx_rest = rest, lx_line = line, lx_current = tok t [] 0 line\<rparr>
           | None \<Rightarrow>
               if c = 34 then
                 andthen (lex_string line rest []) (\<lambda>(str, rest).
                   Ok \<lparr>lx_rest = rest, lx_line = line, lx_current = tok TOK_STRING str 0 line\<rparr>)
               else if c = 39 then
                 andthen (lex_char line rest) (\<lambda>(sc, rest).
                   Ok \<lparr>lx_rest = rest, lx_line = line, lx_current = tok TOK_NUMBER [] (ucast sc) line\<rparr>)
               else if is_alpha c then
                 andthen (lex_ident line rest [c]) (\<lambda>(str, rest).
                   Ok \<lparr>lx_rest = rest, lx_line = line, lx_current = tok (keyword_type str) str 0 line\<rparr>)
               else if is_digit c then
                 (case lex_number rest (ucast c - 48) of (v, rest) \<Rightarrow>
                   Ok \<lparr>lx_rest = rest, lx_line = line, lx_current = tok TOK_NUMBER [] v line\<rparr>)
               else Err (Fail_at_line line ''unexpected character'')))"

definition current :: "compiler \<Rightarrow> token" where
  "current c = lx_current (cc_lexer c)"

definition next_token :: "compiler \<Rightarrow> compiler cc_res" where
  "next_token c = andthen (lexer_next (cc_lexer c)) (\<lambda>lx. Ok (c\<lparr>cc_lexer := lx\<rparr>))"

definition fail_here :: "compiler \<Rightarrow> string \<Rightarrow> 'a cc_res" where
  "fail_here c msg = Err (Fail_at_line (tk_line (current c)) msg)"

definition expect :: "token_type \<Rightarrow> string \<Rightarrow> compiler \<Rightarrow> compiler cc_res" where
  "expect t msg c = (if tk_type (current c) \<noteq> t then fail_here c msg else next_token c)"

section \<open>Emitting code and data\<close>

definition emit_u8 :: "u8 \<Rightarrow> compiler \<Rightarrow> compiler cc_res" where
  "emit_u8 b c =
     (if MAX_CODE_SIZE \<le> length (cc_code c) then Err (Fail_plain ''bytecode buffer full'')
      else Ok (c\<lparr>cc_code := cc_code c @ [b]\<rparr>))"

fun emit_bytes :: "bytes \<Rightarrow> compiler \<Rightarrow> compiler cc_res" where
  "emit_bytes [] c = Ok c"
| "emit_bytes (b # bs) c = andthen (emit_u8 b c) (emit_bytes bs)"

definition emit_u16 :: "u16 \<Rightarrow> compiler \<Rightarrow> compiler cc_res" where
  "emit_u16 v c = emit_bytes (le_of_u16 v) c"

definition emit_u32 :: "u32 \<Rightarrow> compiler \<Rightarrow> compiler cc_res" where
  "emit_u32 v c = emit_bytes (le_of_u32 v) c"

definition add_data :: "bytes \<Rightarrow> compiler \<Rightarrow> (u16 \<times> compiler) cc_res" where
  "add_data bs c =
     (if MAX_DATA_SIZE < length (cc_data c) + length bs then Err (Fail_plain ''data section full'')
      else Ok (of_nat (length (cc_data c)), c\<lparr>cc_data := cc_data c @ bs\<rparr>))"

text \<open>The first local of that name.\<close>

definition find_local :: "bytes \<Rightarrow> compiler \<Rightarrow> u8 option" where
  "find_local name c = map_of (cc_locals c) name"

definition add_local :: "bytes \<Rightarrow> compiler \<Rightarrow> (u8 \<times> compiler) cc_res" where
  "add_local name c =
     (if MAX_LOCALS \<le> length (cc_locals c) then Err (Fail_plain ''too many locals'')
      else if LOCAL_NAME_SIZE \<le> length name then Err (Fail_plain ''local name too long'')
      else (let idx = of_nat (length (cc_locals c))
            in Ok (idx, c\<lparr>cc_locals := cc_locals c @ [(name, idx)]\<rparr>)))"

section \<open>Expressions\<close>

abbreviation BCVM_OP_PUSH_I32 :: u8 where "BCVM_OP_PUSH_I32 \<equiv> 0x01"
abbreviation BCVM_OP_LOAD_LOCAL :: u8 where "BCVM_OP_LOAD_LOCAL \<equiv> 0x02"
abbreviation BCVM_OP_STORE_LOCAL :: u8 where "BCVM_OP_STORE_LOCAL \<equiv> 0x03"
abbreviation BCVM_OP_ADD :: u8 where "BCVM_OP_ADD \<equiv> 0x04"
abbreviation BCVM_OP_SUB :: u8 where "BCVM_OP_SUB \<equiv> 0x05"
abbreviation BCVM_OP_MUL :: u8 where "BCVM_OP_MUL \<equiv> 0x06"
abbreviation BCVM_OP_DIV :: u8 where "BCVM_OP_DIV \<equiv> 0x07"
abbreviation BCVM_OP_PRINT_STR :: u8 where "BCVM_OP_PRINT_STR \<equiv> 0x08"
abbreviation BCVM_OP_PRINT_INT :: u8 where "BCVM_OP_PRINT_INT \<equiv> 0x09"
abbreviation BCVM_OP_PRINT_NL :: u8 where "BCVM_OP_PRINT_NL \<equiv> 0x0A"
abbreviation BCVM_OP_RET :: u8 where "BCVM_OP_RET \<equiv> 0x0C"
abbreviation BCVM_OP_NEG :: u8 where "BCVM_OP_NEG \<equiv> 0x0E"
abbreviation BCVM_OP_PRINT_CHAR :: u8 where "BCVM_OP_PRINT_CHAR \<equiv> 0x2F"

text \<open>\<open>term_rest\<close> and \<open>expression_rest\<close> are the loops of \<open>parse_term\<close> and \<open>parse_expression\<close>.\<close>

fun parse_primary :: "nat \<Rightarrow> compiler \<Rightarrow> compiler cc_res"
  and parse_unary :: "nat \<Rightarrow> compiler \<Rightarrow> compiler cc_res"
  and parse_term :: "nat \<Rightarrow> compiler \<Rightarrow> compiler cc_res"
  and term_rest :: "nat \<Rightarrow> compiler \<Rightarrow> compiler cc_res"
  and parse_expression :: "nat \<Rightarrow> compiler \<Rightarrow> compiler cc_res"
  and expression_rest :: "nat \<Rightarrow> compiler \<Rightarrow> compiler cc_res"
where
  "parse_primary 0 c = More"
| "parse_primary (Suc n) c =
     (if tk_type (current c) = TOK_NUMBER then
        andthen (emit_u8 BCVM_OP_PUSH_I32 c) (\<lambda>d.
        andthen (emit_u32 (tk_number (current c)) d) next_token)
      else if tk_type (current c) = TOK_IDENTIFIER then
        (case find_local (tk_text (current c)) c of
           None \<Rightarrow> fail_here c ''unknown identifier''
         | Some idx \<Rightarrow>
             andthen (emit_u8 BCVM_OP_LOAD_LOCAL c) (\<lambda>c.
             andthen (emit_u8 idx c) next_token))
      else if tk_type (current c) = TOK_LPAREN then
        andthen (next_token c) (\<lambda>c.
        andthen (parse_expression n c) (expect TOK_RPAREN ''expected ')' after expression''))
      else fail_here c ''invalid expression'')"
| "parse_unary 0 c = More"
| "parse_unary (Suc n) c =
     (if tk_type (current c) = TOK_MINUS then
        andthen (next_token c) (\<lambda>c. andthen (parse_unary n c) (emit_u8 BCVM_OP_NEG))
      else parse_primary n c)"
| "parse_term 0 c = More"
| "parse_term (Suc n) c = andthen (parse_unary n c) (term_rest n)"
| "term_rest 0 c = More"
| "term_rest (Suc n) c =
     (let op = tk_type (current c)
      in if op = TOK_STAR \<or> op = TOK_SLASH then
           andthen (next_token c) (\<lambda>c.
           andthen (parse_unary n c) (\<lambda>c.
           andthen (emit_u8 (if op = TOK_STAR then BCVM_OP_MUL else BCVM_OP_DIV) c) (term_rest n)))
         else Ok c)"
| "parse_expression 0 c = More"
| "parse_expression (Suc n) c = andthen (parse_term n c) (expression_rest n)"
| "expression_rest 0 c = More"
| "expression_rest (Suc n) c =
     (let op = tk_type (current c)
      in if op = TOK_PLUS \<or> op = TOK_MINUS then
           andthen (next_token c) (\<lambda>c.
           andthen (parse_term n c) (\<lambda>c.
           andthen (emit_u8 (if op = TOK_PLUS then BCVM_OP_ADD else BCVM_OP_SUB) c) (expression_rest n)))
         else Ok c)"

section \<open>Statements and programs\<close>

text \<open>\<open>print ( e )\<close> and its kin: parentheses, an expression, a semicolon.\<close>

definition parse_argument :: "nat \<Rightarrow> string \<Rightarrow> compiler \<Rightarrow> compiler cc_res" where
  "parse_argument n name c =
     andthen (next_token c) (\<lambda>c.
     andthen (expect TOK_LPAREN (''expected '(' after '' @ name) c) (\<lambda>c.
     andthen (parse_expression n c) (\<lambda>c.
     andthen (expect TOK_RPAREN (''expected ')' after '' @ name @ '' argument'') c)
       (expect TOK_SEMI (''expected ';' after '' @ name)))))"

definition parse_declaration :: "nat \<Rightarrow> compiler \<Rightarrow> compiler cc_res" where
  "parse_declaration n c =
     (let type_name = (if tk_type (current c) = TOK_CHAR then ''char'' else ''int'')
      in andthen (next_token c) (\<lambda>c.
           if tk_type (current c) \<noteq> TOK_IDENTIFIER
           then fail_here c (''expected identifier after '' @ type_name)
           else
             (let ident = current c
              in andthen (next_token c) (\<lambda>c.
                 andthen (add_local (tk_text ident) c) (\<lambda>(idx, c).
                 andthen
                   (if tk_type (current c) = TOK_ASSIGN
                    then andthen (next_token c) (parse_expression n)
                    else andthen (emit_u8 BCVM_OP_PUSH_I32 c) (emit_u32 0)) (\<lambda>c.
                 andthen (emit_u8 BCVM_OP_STORE_LOCAL c) (\<lambda>c.
                 andthen (emit_u8 idx c) (expect TOK_SEMI ''expected ';' after declaration''))))))))"

definition parse_print :: "compiler \<Rightarrow> compiler cc_res" where
  "parse_print c =
     andthen (next_token c) (\<lambda>c.
     andthen (expect TOK_LPAREN ''expected '(' after print'' c) (\<lambda>c.
       if tk_type (current c) \<noteq> TOK_STRING then fail_here c ''print requires string literal''
       else
         (let str = c_string (tk_text (current c))
          in andthen (add_data str c) (\<lambda>(off, c).
             andthen (next_token c) (\<lambda>c.
             andthen (expect TOK_RPAREN ''expected ')' after print argument'' c) (\<lambda>c.
             andthen (expect TOK_SEMI ''expected ';' after print'' c) (\<lambda>c.
             andthen (emit_u8 BCVM_OP_PRINT_STR c) (\<lambda>c.
             andthen (emit_u16 off c) (\<lambda>c.
             andthen (emit_u16 (of_nat (length str)) c) (emit_u8 BCVM_OP_PRINT_NL))))))))))"

definition parse_assignment :: "nat \<Rightarrow> compiler \<Rightarrow> compiler cc_res" where
  "parse_assignment n c =
     (let ident = current c
      in andthen (next_token c) (\<lambda>c.
         andthen (expect TOK_ASSIGN ''expected '=' in assignment'' c) (\<lambda>c.
         case find_local (tk_text ident) c of
           None \<Rightarrow> Err (Fail_at_line (tk_line ident) ''assignment to unknown identifier'')
         | Some idx \<Rightarrow>
             andthen (parse_expression n c) (\<lambda>c.
             andthen (expect TOK_SEMI ''expected ';' after assignment'' c) (\<lambda>c.
             andthen (emit_u8 BCVM_OP_STORE_LOCAL c) (emit_u8 idx))))))"

text \<open>The flag is \<open>saw_return\<close>.\<close>

definition parse_statement :: "nat \<Rightarrow> compiler \<Rightarrow> bool \<Rightarrow> (compiler \<times> bool) cc_res" where
  "parse_statement n c saw_return =
     (let t = tk_type (current c); keep = (\<lambda>c. Ok (c, saw_return))
      in if t = TOK_INT \<or> t = TOK_CHAR then andthen (parse_declaration n c) keep
         else if t = TOK_PRINT then andthen (parse_print c) keep
         else if t = TOK_PRINT_INT then
           andthen (parse_argument n ''print_int'' c) (\<lambda>c.
           andthen (emit_u8 BCVM_OP_PRINT_INT c) (\<lambda>c. andthen (emit_u8 BCVM_OP_PRINT_NL c) keep))
         else if t = TOK_PRINT_CHAR then
           andthen (parse_argument n ''print_char'' c) (\<lambda>c. andthen (emit_u8 BCVM_OP_PRINT_CHAR c) keep)
         else if t = TOK_RETURN then
           andthen (next_token c) (\<lambda>c.
           andthen (parse_expression n c) (\<lambda>c.
           andthen (expect TOK_SEMI ''expected ';' after return'' c) (\<lambda>c.
           andthen (emit_u8 BCVM_OP_RET c) (\<lambda>c. Ok (c, True)))))
         else if t = TOK_IDENTIFIER then andthen (parse_assignment n c) keep
         else fail_here c ''unsupported statement'')"

fun parse_body :: "nat \<Rightarrow> compiler \<Rightarrow> bool \<Rightarrow> (compiler \<times> bool) cc_res" where
  "parse_body 0 c saw_return = More"
| "parse_body (Suc n) c saw_return =
     (if tk_type (current c) = TOK_RBRACE \<or> tk_type (current c) = TOK_EOF then Ok (c, saw_return)
      else andthen (parse_statement n c saw_return) (\<lambda>(c, saw_return). parse_body n c saw_return))"

definition parse_program :: "nat \<Rightarrow> compiler \<Rightarrow> compiler cc_res" where
  "parse_program n c =
     andthen (expect TOK_INT ''expected 'int' at program start'' c) (\<lambda>c.
     andthen (expect TOK_MAIN ''expected 'main' function'' c) (\<lambda>c.
     andthen (expect TOK_LPAREN ''expected '(' after main'' c) (\<lambda>c.
     andthen (expect TOK_RPAREN ''expected ')' after main'' c) (\<lambda>c.
     andthen (expect TOK_LBRACE ''expected '{' to start function body'' c) (\<lambda>c.
     andthen (parse_body n c False) (\<lambda>(c, saw_return).
     andthen (expect TOK_RBRACE ''expected '}' to close function body'' c) (\<lambda>c.
     andthen (expect TOK_EOF ''unexpected tokens after function'' c) (\<lambda>c.
       if saw_return then Ok c
       else andthen (emit_u8 BCVM_OP_PUSH_I32 c) (\<lambda>c.
            andthen (emit_u32 0 c) (emit_u8 BCVM_OP_RET))))))))))"

section \<open>The application file\<close>

definition PRISM_APP_MAGIC :: u32 where "PRISM_APP_MAGIC = 0x50524953"
definition PRISM_APP_FORMAT_VERSION :: u16 where "PRISM_APP_FORMAT_VERSION = 1"
definition PRISM_APP_HEADER_SIZE :: nat where "PRISM_APP_HEADER_SIZE = 20"

definition prism_header_bytes :: "u16 \<Rightarrow> nat \<Rightarrow> bytes" where
  "prism_header_bytes flags image_size =
     le_of_u32 PRISM_APP_MAGIC @ le_of_u16 PRISM_APP_FORMAT_VERSION @ le_of_u16 flags
     @ le_of_u32 0 @ le_of_u32 (of_nat image_size) @ le_of_u32 0"

definition vm_header_bytes :: "nat \<Rightarrow> nat \<Rightarrow> bytes" where
  "vm_header_bytes code data =
     le_of_u32 BCVM_MAGIC @ le_of_u16 BCVM_VERSION @ le_of_u16 0 @ le_of_u32 (of_nat code)
     @ le_of_u32 (of_nat data) @ le_of_u32 0"

definition vm_image :: "compiler \<Rightarrow> bytes" where
  "vm_image c = vm_header_bytes (length (cc_code c)) (length (cc_data c)) @ cc_code c @ cc_data c"

definition write_output :: "compiler \<Rightarrow> bytes" where
  "write_output c =
     prism_header_bytes 0 (BCVM_IMAGE_HEADER_SIZE + length (cc_code c) + length (cc_data c))
     @ vm_image c"

definition compiler_start :: "bytes \<Rightarrow> compiler" where
  "compiler_start source =
     \<lparr>cc_code = [], cc_data = [], cc_locals = [],
      cc_lexer = \<lparr>lx_rest = source, lx_line = 1, lx_current = tok TOK_EOF [] 0 0\<rparr>\<rparr>"

text \<open>\<open>main\<close>: the application file for a source file.\<close>

definition prismcc_compile :: "nat \<Rightarrow> bytes \<Rightarrow> compiler cc_res" where
  "prismcc_compile n source =
     (if MAX_SOURCE_SIZE < length source then Err (Fail_plain ''input too large'')
      else andthen (next_token (compiler_start source)) (parse_program n))"

definition prismcc_main :: "nat \<Rightarrow> bytes \<Rightarrow> bytes cc_res" where
  "prismcc_main n source = andthen (prismcc_compile n source) (\<lambda>c. Ok (write_output c))"

end
