(* ===== verification/Prismcc_Total.thy ===== *)
theory Prismcc_Total
  imports Prismcc
begin

text \<open>
  The compiler returns on every source: each recursive call of the parser is made after a token has
  been consumed, so a fuel linear in the length of the source is never exhausted.
\<close>

section \<open>What a step consumes\<close>

text \<open>The tokens still to come are bounded by the unread bytes, plus the current token.\<close>

definition left :: "compiler \<Rightarrow> nat" where
  "left c = length (lx_rest (cc_lexer c)) + (if tk_type (current c) = TOK_EOF then 0 else 1)"

lemma andthen_Ok: "andthen r k = Ok b \<longleftrightarrow> (\<exists>a. r = Ok a \<and> k a = Ok b)"
  by (cases r) auto

lemma andthen_More: "andthen r k = More \<longleftrightarrow> r = More \<or> (\<exists>a. r = Ok a \<and> k a = More)"
  by (cases r) auto

lemma lexer_skip_ws_length: "lexer_skip_ws src line = (rest, l) \<Longrightarrow> length rest \<le> length src"
proof (induction src line rule: lexer_skip_ws.induct)
  case (2 c src line)
  have "length (dropWhile (\<lambda>d. d \<noteq> 10) (tl src)) \<le> length src"
    using length_dropWhile_le [of "\<lambda>d. d \<noteq> 10" "tl src"] by simp
  then show ?case using 2 by (auto split: if_splits intro: le_trans)
qed simp

lemma lex_string_length: "lex_string line src out = Ok (str, rest) \<Longrightarrow> length rest \<le> length src"
  by (induction line src out rule: lex_string.induct) (auto split: if_splits list.splits)

lemma lex_ident_length: "lex_ident line src out = Ok (str, rest) \<Longrightarrow> length rest \<le> length src"
  by (induction line src out rule: lex_ident.induct) (auto split: if_splits)

lemma lex_number_length: "lex_number src v = (w, rest) \<Longrightarrow> length rest \<le> length src"
  by (induction src v rule: lex_number.induct) (auto split: if_splits)

lemma lex_char_close_length: "lex_char_close line (sc, src) = Ok (d, rest) \<Longrightarrow> length rest \<le> length src"
  by (cases src) (auto simp: lex_char_bad_def split: if_splits)

lemma lex_char_length: "lex_char line src = Ok (sc, rest) \<Longrightarrow> length rest \<le> length src"
  by (auto simp: lex_char_def lex_char_bad_def andthen_Ok split: list.splits if_splits dest!: lex_char_close_length)

lemma lex_char_close_not_More: "lex_char_close line p \<noteq> More"
  by (cases "(line, p)" rule: lex_char_close.cases) (auto simp: lex_char_bad_def)

lemma lex_not_More:
  "lex_string line src out \<noteq> More" "lex_ident line src out \<noteq> More" "lex_char line src \<noteq> More"
  subgoal by (induction line src out rule: lex_string.induct) (auto split: list.split)
  subgoal by (induction line src out rule: lex_ident.induct) auto
  subgoal by (auto simp: lex_char_def lex_char_bad_def andthen_More lex_char_close_not_More split: list.split)
  done

lemma lexer_next_left:
  assumes "lexer_next lx = Ok lx'"
  shows "length (lx_rest lx') + (if tk_type (lx_current lx') = TOK_EOF then 0 else 1) \<le> length (lx_rest lx)"
proof -
  obtain src line where ws: "lexer_skip_ws (lx_rest lx) (lx_line lx) = (src, line)" by fastforce
  note len = lexer_skip_ws_length [OF ws]
  show ?thesis
  proof (cases src)
    case Nil
    with assms ws show ?thesis by (auto simp: lexer_next_def tok_def)
  next
    case (Cons c rest)
    with assms ws have "length (lx_rest lx') \<le> length rest"
      by (auto simp: lexer_next_def andthen_Ok split: option.splits if_splits prod.splits
          dest: lex_string_length lex_ident_length lex_number_length lex_char_length)
    with len Cons show ?thesis by simp
  qed
qed

lemma lexer_next_not_More: "lexer_next lx \<noteq> More"
  by (auto simp: lexer_next_def andthen_More lex_not_More split: prod.split list.split option.split)

lemma next_token_left:
  assumes "next_token c = Ok d"
  shows "left d \<le> length (lx_rest (cc_lexer c))"
proof -
  obtain lx where "lexer_next (cc_lexer c) = Ok lx" "d = c\<lparr>cc_lexer := lx\<rparr>"
    using assms by (auto simp: next_token_def andthen_Ok)
  with lexer_next_left [of "cc_lexer c" lx] show ?thesis by (simp add: left_def current_def)
qed

lemma next_token_less:
  "next_token c = Ok d \<Longrightarrow> tk_type (current c) \<noteq> TOK_EOF \<Longrightarrow> left d < left c"
  using next_token_left [of c d] by (simp add: left_def)

lemma next_token_le: "next_token c = Ok d \<Longrightarrow> left d \<le> left c"
  using next_token_left [of c d] by (simp add: left_def)

lemma expect_le: "expect t msg c = Ok d \<Longrightarrow> left d \<le> left c"
  using next_token_le by (auto simp: expect_def fail_here_def split: if_splits)

lemma emit_lexer:
  "emit_u8 b c = Ok d \<Longrightarrow> cc_lexer d = cc_lexer c"
  "emit_bytes bs c = Ok d \<Longrightarrow> cc_lexer d = cc_lexer c"
  "emit_u16 h c = Ok d \<Longrightarrow> cc_lexer d = cc_lexer c"
  "emit_u32 w c = Ok d \<Longrightarrow> cc_lexer d = cc_lexer c"
proof -
  show u8: "emit_u8 b c = Ok d \<Longrightarrow> cc_lexer d = cc_lexer c" for b c d
    by (auto simp: emit_u8_def split: if_splits)
  show bytes: "emit_bytes bs c = Ok d \<Longrightarrow> cc_lexer d = cc_lexer c" for bs c d
    by (induction bs arbitrary: c) (auto simp: andthen_Ok dest: u8)
  show "emit_u16 h c = Ok d \<Longrightarrow> cc_lexer d = cc_lexer c" "emit_u32 w c = Ok d \<Longrightarrow> cc_lexer d = cc_lexer c"
    by (auto simp: emit_u16_def emit_u32_def dest: bytes)
qed

lemma same_lexer: "cc_lexer d = cc_lexer c \<Longrightarrow> left d = left c \<and> current d = current c"
  by (simp add: left_def current_def)

lemmas emit_same = emit_lexer [THEN same_lexer]

lemma emit_left:
  "emit_u8 b c = Ok d \<Longrightarrow> left d = left c" "emit_u16 h c = Ok d \<Longrightarrow> left d = left c"
  "emit_u32 w c = Ok d \<Longrightarrow> left d = left c"
  by (simp_all add: emit_same)

lemma emit_not_More [simp]:
  "emit_u8 b c \<noteq> More" "emit_bytes bs c \<noteq> More" "emit_u16 h c \<noteq> More" "emit_u32 w c \<noteq> More"
  "next_token c \<noteq> More" "expect t msg c \<noteq> More" "fail_here c msg \<noteq> More" "add_data bs c \<noteq> More"
  "add_local name c \<noteq> More"
proof -
  show u8: "emit_u8 b c \<noteq> More" for b c by (simp add: emit_u8_def)
  show bytes: "emit_bytes bs c \<noteq> More" for bs c
    by (induction bs arbitrary: c) (auto simp: andthen_More u8)
  show "emit_u16 h c \<noteq> More" "emit_u32 w c \<noteq> More"
    by (simp_all add: emit_u16_def emit_u32_def bytes)
  show tok: "next_token c \<noteq> More" by (simp add: next_token_def andthen_More lexer_next_not_More)
  show "fail_here c msg \<noteq> More" by (simp add: fail_here_def)
  show "expect t msg c \<noteq> More" by (simp add: expect_def fail_here_def tok)
  show "add_data bs c \<noteq> More" "add_local name c \<noteq> More" by (simp_all add: add_data_def add_local_def Let_def)
qed

lemma fail_here_Ok [simp]: "fail_here c msg \<noteq> Ok d"
  by (simp add: fail_here_def)

section \<open>Expressions\<close>

lemma expression_left:
  "parse_primary n c = Ok d \<Longrightarrow> left d < left c"
  "parse_unary n c = Ok d \<Longrightarrow> left d < left c"
  "parse_term n c = Ok d \<Longrightarrow> left d < left c"
  "term_rest n c = Ok d \<Longrightarrow> left d \<le> left c"
  "parse_expression n c = Ok d \<Longrightarrow> left d < left c"
  "expression_rest n c = Ok d \<Longrightarrow> left d \<le> left c"
proof (induction n c and n c and n c and n c and n c and n c arbitrary: d and d and d and d and d and d
    rule: parse_primary_parse_unary_parse_term_term_rest_parse_expression_expression_rest.induct)
  case (2 n c)
  have num: "left d < left c"
    if "emit_u8 b c = Ok a" "emit_u32 w a = Ok e" "next_token e = Ok d" "tk_type (current c) \<noteq> TOK_EOF" for a b e w
    using emit_same(1) [OF that(1)] emit_same(4) [OF that(2)] next_token_less [OF that(3)] that(4) by simp
  have load: "left d < left c"
    if "emit_u8 b c = Ok a" "emit_u8 i a = Ok e" "next_token e = Ok d" "tk_type (current c) \<noteq> TOK_EOF" for a b e i
    using emit_same(1) [OF that(1)] emit_same(1) [OF that(2)] next_token_less [OF that(3)] that(4) by simp
  have paren: "left d < left c"
    if "next_token c = Ok a" "parse_expression n a = Ok e" "expect t msg e = Ok d" "left e < left a" for a e t msg
    using next_token_le [OF that(1)] expect_le [OF that(3)] that(4) by simp
  show ?case
    using 2 by (auto simp: andthen_Ok split: if_splits option.splits intro: num load paren)
qed (auto simp: andthen_Ok Let_def split: if_splits dest!: next_token_less emit_left, (fastforce+)?)


text \<open>Enough fuel, by the tokens left.\<close>

lemma expression_fuel:
  "6 * left c + 1 \<le> n \<Longrightarrow> parse_primary n c \<noteq> More"
  "6 * left c + 2 \<le> n \<Longrightarrow> parse_unary n c \<noteq> More"
  "6 * left c + 3 \<le> n \<Longrightarrow> parse_term n c \<noteq> More"
  "6 * left c + 1 \<le> n \<Longrightarrow> term_rest n c \<noteq> More"
  "6 * left c + 4 \<le> n \<Longrightarrow> parse_expression n c \<noteq> More"
  "6 * left c + 1 \<le> n \<Longrightarrow> expression_rest n c \<noteq> More"
proof (induction n c and n c and n c and n c and n c and n c
    rule: parse_primary_parse_unary_parse_term_term_rest_parse_expression_expression_rest.induct)
  case (2 n c)
  have "parse_expression n a \<noteq> More" if "next_token c = Ok a" "tk_type (current c) = TOK_LPAREN" for a
    using 2 next_token_less [OF that(1)] that by auto
  then show ?case by (auto simp: andthen_More split: option.split)
next
  case (4 n c)
  have "parse_unary n a \<noteq> More" if "next_token c = Ok a" "tk_type (current c) = TOK_MINUS" for a
    using 4 next_token_less [OF that(1)] that by auto
  then show ?case using 4 by (auto simp: andthen_More)
next
  case (6 n c)
  have "term_rest n a \<noteq> More" if "parse_unary n c = Ok a" for a
    using 6 expression_left(2) [OF that] that by auto
  then show ?case using 6 by (auto simp: andthen_More)
next
  case (8 n c)
  have un: "parse_unary n a \<noteq> More"
    if "next_token c = Ok a" "tk_type (current c) = TOK_STAR \<or> tk_type (current c) = TOK_SLASH" for a
    using 8(1) [OF refl that(2)] 8(3) next_token_less [OF that(1)] that(2) by auto
  have rest: "term_rest n d \<noteq> More"
    if "next_token c = Ok a" "tk_type (current c) = TOK_STAR \<or> tk_type (current c) = TOK_SLASH"
      "parse_unary n a = Ok b" "emit_u8 op b = Ok d" for a b d op
  proof -
    have "left d < left c"
      using next_token_less [OF that(1)] that(2) expression_left(2) [OF that(3)] emit_left(1) [OF that(4)]
      by auto
    then show ?thesis using 8(2) [OF refl that(2)] 8(3) by simp
  qed
  from un rest show ?case by (auto simp: andthen_More Let_def)
next
  case (10 n c)
  have "expression_rest n a \<noteq> More" if "parse_term n c = Ok a" for a
    using 10 expression_left(3) [OF that] that by auto
  then show ?case using 10 by (auto simp: andthen_More)
next
  case (12 n c)
  have un: "parse_term n a \<noteq> More"
    if "next_token c = Ok a" "tk_type (current c) = TOK_PLUS \<or> tk_type (current c) = TOK_MINUS" for a
    using 12(1) [OF refl that(2)] 12(3) next_token_less [OF that(1)] that(2) by auto
  have rest: "expression_rest n d \<noteq> More"
    if "next_token c = Ok a" "tk_type (current c) = TOK_PLUS \<or> tk_type (current c) = TOK_MINUS"
      "parse_term n a = Ok b" "emit_u8 op b = Ok d" for a b d op
  proof -
    have "left d < left c"
      using next_token_less [OF that(1)] that(2) expression_left(3) [OF that(3)] emit_left(1) [OF that(4)]
      by auto
    then show ?thesis using 12(2) [OF refl that(2)] 12(3) by simp
  qed
  from un rest show ?case by (auto simp: andthen_More Let_def)
qed simp_all

section \<open>Statements and programs\<close>

text \<open>\<open>fits m r\<close>: the parse \<open>r\<close> ends, and when it succeeds at most \<open>m\<close> tokens are left. The rules follow
  the composition of the parsing functions.\<close>

definition fits_of :: "('a \<Rightarrow> compiler) \<Rightarrow> nat \<Rightarrow> 'a cc_res \<Rightarrow> bool" where
  "fits_of f m r \<longleftrightarrow> (case r of Ok a \<Rightarrow> left (f a) \<le> m | Err e \<Rightarrow> True | More \<Rightarrow> False)"

abbreviation fits :: "nat \<Rightarrow> compiler cc_res \<Rightarrow> bool" where
  "fits \<equiv> fits_of (\<lambda>c. c)"

named_theorems fit

lemma fitsI: "r \<noteq> More \<Longrightarrow> (\<And>a. r = Ok a \<Longrightarrow> left (f a) \<le> m) \<Longrightarrow> fits_of f m r"
  by (cases r) (auto simp: fits_of_def)

lemma fits_not_More: "fits_of f m r \<Longrightarrow> r \<noteq> More"
  by (auto simp: fits_of_def)

lemma fits_Ok [fit]: "left (f a) \<le> m \<Longrightarrow> fits_of f m (Ok a)"
  by (simp add: fits_of_def)

lemma fits_Err [fit]: "fits_of f m (Err e)" "fits_of f m (fail_here c msg)"
  by (simp_all add: fits_of_def fail_here_def)

lemma fits_andthen [fit]:
  "fits_of g m r \<Longrightarrow> (\<And>a. left (g a) \<le> m \<Longrightarrow> fits_of f m (k a)) \<Longrightarrow> fits_of f m (andthen r k)"
  by (cases r) (auto simp: fits_of_def)

lemma fits_if [fit]:
  "(b \<Longrightarrow> fits_of f m r) \<Longrightarrow> (\<not> b \<Longrightarrow> fits_of f m r') \<Longrightarrow> fits_of f m (if b then r else r')"
  by simp

lemma add_same:
  "add_data bs c = Ok p \<Longrightarrow> left (snd p) = left c" "add_local name c = Ok q \<Longrightarrow> left (snd q) = left c"
  by (auto simp: add_data_def add_local_def left_def current_def Let_def split: if_splits)

lemma fits_step [fit]:
  "left c \<le> m \<Longrightarrow> fits m (next_token c)" "left c \<le> m \<Longrightarrow> fits m (expect t msg c)"
  "left c \<le> m \<Longrightarrow> fits m (emit_u8 b c)" "left c \<le> m \<Longrightarrow> fits m (emit_u16 h c)"
  "left c \<le> m \<Longrightarrow> fits m (emit_u32 w c)"
  "left c \<le> m \<Longrightarrow> fits_of snd m (add_data bs c)" "left c \<le> m \<Longrightarrow> fits_of snd m (add_local name c)"
  by (auto intro!: fitsI dest: next_token_le expect_le emit_left add_same)

lemma fits_expression [fit]:
  "left c \<le> m \<Longrightarrow> 6 * m + 4 \<le> n \<Longrightarrow> fits m (parse_expression n c)"
  by (intro fitsI expression_fuel) (auto dest: expression_left)

text \<open>A statement starts with a token other than the end of the source.\<close>

lemma fits_first:
  assumes "left c \<le> m + 1" "tk_type (current c) \<noteq> TOK_EOF" "\<And>a. left a \<le> m \<Longrightarrow> fits_of f m (k a)"
  shows "fits_of f m (andthen (next_token c) k)"
proof (rule fits_andthen [of "\<lambda>c. c"])
  show "fits m (next_token c)"
    using next_token_less [of c] assms(1,2) by (intro fitsI) fastforce+
qed (use assms(3) in simp)

lemma fits_statements:
  assumes "left c \<le> m + 1" "tk_type (current c) \<noteq> TOK_EOF" "6 * m + 4 \<le> n"
  shows "fits m (parse_declaration n c)" "fits m (parse_print c)" "fits m (parse_argument n name c)"
    "fits m (parse_assignment n c)"
proof -
  show "fits m (parse_declaration n c)"
    unfolding parse_declaration_def Let_def using assms
    by (intro fits_first) (auto intro!: fit split: prod.split)
  show "fits m (parse_print c)"
    unfolding parse_print_def Let_def using assms
    by (intro fits_first) (auto intro!: fit split: prod.split)
  show "fits m (parse_argument n name c)"
    unfolding parse_argument_def using assms by (intro fits_first) (auto intro!: fit)
  show "fits m (parse_assignment n c)"
    unfolding parse_assignment_def Let_def using assms
    by (intro fits_first) (auto intro!: fit split: option.split)
qed

lemma fits_statement:
  assumes "left c \<le> m + 1" "tk_type (current c) \<noteq> TOK_EOF" "6 * m + 4 \<le> n"
  shows "fits_of fst m (parse_statement n c saw)"
proof -
  note s = fits_statements [OF assms]
  show ?thesis
    unfolding parse_statement_def Let_def
    apply (intro fits_if)
    subgoal by (rule fits_andthen [OF s(1)]) (auto intro!: fit)
    subgoal by (rule fits_andthen [OF s(2)]) (auto intro!: fit)
    subgoal by (rule fits_andthen [OF s(3)]) (auto intro!: fit)
    subgoal by (rule fits_andthen [OF s(3)]) (auto intro!: fit)
    subgoal by (rule fits_first [OF assms(1,2)]) (use assms(3) in \<open>auto intro!: fit\<close>)
    subgoal by (rule fits_andthen [OF s(4)]) (auto intro!: fit)
    by (rule fits_Err)
qed

lemma body_fuel: "6 * left c + 5 \<le> n \<Longrightarrow> parse_body n c saw \<noteq> More"
proof (induction n c saw rule: parse_body.induct)
  case (2 n c saw)
  show ?case
  proof (cases "tk_type (current c) = TOK_RBRACE \<or> tk_type (current c) = TOK_EOF")
    case False
    then have "0 < left c" by (simp add: left_def)
    then have "fits_of fst (left c - 1) (parse_statement n c saw)"
      using 2(2) False by (intro fits_statement) auto
    moreover have "parse_body n d s \<noteq> More" if "left d \<le> left c - 1" for d s
      using 2 False that \<open>0 < left c\<close> by auto
    ultimately show ?thesis
      using False by (cases "parse_statement n c saw") (auto simp: fits_of_def)
  qed simp
qed simp

text \<open>C6. The compiler returns on every source: with fuel 6 times the length of the source
  plus 5 it ends in a file or in an error message, never for lack of fuel.\<close>

theorem prismcc_total:
  "prismcc_main (6 * length source + 5) source \<noteq> More"
proof -
  have "parse_program (6 * length source + 5) c \<noteq> More"
    if start: "next_token (compiler_start source) = Ok c" for c
  proof -
    have le: "left c \<le> length source"
      using next_token_left [OF start] by (simp add: compiler_start_def)
    have "parse_body (6 * length source + 5) c5 False \<noteq> More"
      if "expect t1 m1 c = Ok c1" "expect t2 m2 c1 = Ok c2" "expect t3 m3 c2 = Ok c3" "expect t4 m4 c3 = Ok c4"
        "expect t5 m5 c4 = Ok c5" for t1 t2 t3 t4 t5 m1 m2 m3 m4 m5 c1 c2 c3 c4 c5
      using le that [THEN expect_le] by (intro body_fuel) simp
    then show ?thesis by (auto simp: parse_program_def andthen_More)
  qed
  then show ?thesis
    by (auto simp: prismcc_main_def prismcc_compile_def andthen_More)
qed

theorem prismcc_total_witness:
  "prismcc_main (6 * length (ascii ''int main() {}'') + 5) (ascii ''int main() {}'') \<noteq> More"
  by (rule prismcc_total)

end
