(* ===== verification/Prismcc_Expr.thy ===== *)
theory Prismcc_Expr
  imports Prismcc_Total
begin

text \<open>
  What the expression compiler means: the expressions of the language as abstract syntax, their tokens
  and their stack code. The parser emits the stack code of the tree whose tokens it reads, for
  variables, redundant parentheses and all. Constant expressions are kept as a type of their own: their
  code is what \<open>Prismcc_Exec\<close> runs on the virtual machine.
\<close>

section \<open>Expressions\<close>

datatype binop = Times | Over | Plus | Minus

text \<open>Constant expressions, and all expressions: \<open>Paren\<close> is a pair of parentheses that precedence does
  not ask for.\<close>

datatype aexp = Num u32 | Neg aexp | Bin binop aexp aexp

datatype sexp = Lit u32 | Local bytes | Minus_of sexp | Apply binop sexp sexp | Paren sexp

fun constant_sexp :: "aexp \<Rightarrow> sexp" where
  "constant_sexp (Num v) = Lit v"
| "constant_sexp (Neg a) = Minus_of (constant_sexp a)"
| "constant_sexp (Bin b l r) = Apply b (constant_sexp l) (constant_sexp r)"

fun binop_token :: "binop \<Rightarrow> token_type" where
  "binop_token Times = TOK_STAR"
| "binop_token Over = TOK_SLASH"
| "binop_token Plus = TOK_PLUS"
| "binop_token Minus = TOK_MINUS"

fun binop_code :: "binop \<Rightarrow> u8" where
  "binop_code Times = BCVM_OP_MUL"
| "binop_code Over = BCVM_OP_DIV"
| "binop_code Plus = BCVM_OP_ADD"
| "binop_code Minus = BCVM_OP_SUB"

text \<open>Level 0 is \<open>parse_expression\<close>, 1 is \<open>parse_term\<close>, 2 is \<open>parse_unary\<close>.\<close>

fun binop_level :: "binop \<Rightarrow> nat" where
  "binop_level Times = 1"
| "binop_level Over = 1"
| "binop_level Plus = 0"
| "binop_level Minus = 0"

text \<open>The type of a token with the number or the name it carries.\<close>

type_synonym lexeme = "token_type \<times> u32 \<times> bytes"

abbreviation bare :: "token_type \<Rightarrow> lexeme" where "bare t \<equiv> (t, 0, [])"

definition parens :: "bool \<Rightarrow> lexeme list \<Rightarrow> lexeme list" where
  "parens b ts = (if b then bare TOK_LPAREN # ts @ [bare TOK_RPAREN] else ts)"

fun tokens_of :: "nat \<Rightarrow> sexp \<Rightarrow> lexeme list" where
  "tokens_of p (Lit v) = [(TOK_NUMBER, v, [])]"
| "tokens_of p (Local x) = [(TOK_IDENTIFIER, 0, x)]"
| "tokens_of p (Minus_of a) = bare TOK_MINUS # tokens_of 2 a"
| "tokens_of p (Apply b l r) =
     parens (binop_level b < p)
       (tokens_of (binop_level b) l @ bare (binop_token b) # tokens_of (binop_level b + 1) r)"
| "tokens_of p (Paren a) = parens True (tokens_of 0 a)"

fun stack_code :: "aexp \<Rightarrow> bytes" where
  "stack_code (Num v) = BCVM_OP_PUSH_I32 # le_of_u32 v"
| "stack_code (Neg a) = stack_code a @ [BCVM_OP_NEG]"
| "stack_code (Bin b l r) = stack_code l @ stack_code r @ [binop_code b]"

text \<open>The locals of the program are its variables with their indices.\<close>

fun declared :: "(bytes \<times> u8) list \<Rightarrow> sexp \<Rightarrow> bool" where
  "declared vars (Lit v) = True"
| "declared vars (Local x) = (map_of vars x \<noteq> None)"
| "declared vars (Minus_of a) = declared vars a"
| "declared vars (Apply b l r) = (declared vars l \<and> declared vars r)"
| "declared vars (Paren a) = declared vars a"

fun sexp_code :: "(bytes \<times> u8) list \<Rightarrow> sexp \<Rightarrow> bytes" where
  "sexp_code vars (Lit v) = BCVM_OP_PUSH_I32 # le_of_u32 v"
| "sexp_code vars (Local x) = (case map_of vars x of None \<Rightarrow> [] | Some index \<Rightarrow> [BCVM_OP_LOAD_LOCAL, index])"
| "sexp_code vars (Minus_of a) = sexp_code vars a @ [BCVM_OP_NEG]"
| "sexp_code vars (Apply b l r) = sexp_code vars l @ sexp_code vars r @ [binop_code b]"
| "sexp_code vars (Paren a) = sexp_code vars a"

lemma constant_code [simp]: "sexp_code vars (constant_sexp a) = stack_code a" "declared vars (constant_sexp a)"
  by (induction a) simp_all

section \<open>Reading tokens\<close>

definition reads :: "token \<Rightarrow> lexeme \<Rightarrow> bool" where
  "reads tk t \<longleftrightarrow> tk_type tk = fst t \<and> (fst t = TOK_NUMBER \<longrightarrow> tk_number tk = fst (snd t))
     \<and> (fst t = TOK_IDENTIFIER \<longrightarrow> tk_text tk = snd (snd t))"

text \<open>The lexer delivers these tokens, the first of them being the current one.\<close>

fun yields :: "lexeme list \<Rightarrow> lexer \<Rightarrow> bool" where
  "yields [] lx = True"
| "yields (t # ts) lx =
     (reads (lx_current lx) t
      \<and> (ts = [] \<or> (case lexer_next lx of Ok lx' \<Rightarrow> yields ts lx' | _ \<Rightarrow> False)))"

lemma yields_current:
  "yields (t # ts) (cc_lexer c) \<Longrightarrow> tk_type (current c) = fst t"
  by (simp add: current_def reads_def)

lemma yields_next:
  assumes "yields (t # u # ts) (cc_lexer c)" "fst t \<noteq> TOK_EOF"
  obtains d where "next_token c = Ok d" "yields (u # ts) (cc_lexer d)" "left d < left c"
    "cc_code d = cc_code c" "cc_data d = cc_data c" "cc_locals d = cc_locals c"
proof -
  obtain lx where "lexer_next (cc_lexer c) = Ok lx" "yields (u # ts) lx"
    using assms(1) by (auto split: cc_res.splits)
  moreover from this have nx: "next_token c = Ok (c\<lparr>cc_lexer := lx\<rparr>)" by (simp add: next_token_def)
  moreover have "left (c\<lparr>cc_lexer := lx\<rparr>) < left c"
    using next_token_less [OF nx] yields_current [OF assms(1)] assms(2) by simp
  ultimately show thesis by (intro that [of "c\<lparr>cc_lexer := lx\<rparr>"]) simp_all
qed

declare yields.simps(2) [simp del]

text \<open>\<open>emitted code ts c d\<close>: from \<open>c\<close> to \<open>d\<close> \<open>code\<close> was appended and \<open>ts\<close> are the tokens to come.\<close>

definition emitted :: "bytes \<Rightarrow> lexeme list \<Rightarrow> compiler \<Rightarrow> compiler \<Rightarrow> bool" where
  "emitted code ts c d \<longleftrightarrow>
     cc_code d = cc_code c @ code \<and> cc_data d = cc_data c \<and> cc_locals d = cc_locals c
     \<and> yields ts (cc_lexer d)"

definition room :: "compiler \<Rightarrow> bytes \<Rightarrow> bool" where
  "room c code \<longleftrightarrow> length (cc_code c) + length code \<le> MAX_CODE_SIZE"

text \<open>The code of \<open>a\<close> fits in the code buffer and its variables are declared.\<close>

definition fits :: "compiler \<Rightarrow> sexp \<Rightarrow> bool" where
  "fits c a \<longleftrightarrow> room c (sexp_code (cc_locals c) a) \<and> declared (cc_locals c) a"

lemma emit_u8_room: "room c [b] \<Longrightarrow> emit_u8 b c = Ok (c\<lparr>cc_code := cc_code c @ [b]\<rparr>)"
  by (simp add: room_def emit_u8_def)

lemma emit_bytes_room: "room c bs \<Longrightarrow> emit_bytes bs c = Ok (c\<lparr>cc_code := cc_code c @ bs\<rparr>)"
proof (induction bs arbitrary: c)
  case (Cons b bs)
  have "emit_u8 b c = Ok (c\<lparr>cc_code := cc_code c @ [b]\<rparr>)"
    using Cons.prems by (intro emit_u8_room) (simp add: fits_def room_def)
  moreover have "emit_bytes bs (c\<lparr>cc_code := cc_code c @ [b]\<rparr>) =
      Ok (c\<lparr>cc_code := cc_code c @ [b]\<rparr>\<lparr>cc_code := cc_code (c\<lparr>cc_code := cc_code c @ [b]\<rparr>) @ bs\<rparr>)"
    using Cons.prems by (intro Cons.IH) (simp add: fits_def room_def)
  ultimately show ?case by simp
qed simp

section \<open>The three levels\<close>

text \<open>What each parsing level does on the tokens of \<open>a\<close>, whatever token \<open>t\<close> follows. The upper two
  levels end in their loop.\<close>

definition unary_ok :: "sexp \<Rightarrow> bool" where
  "unary_ok a \<longleftrightarrow> (\<forall>n c t ts. yields (tokens_of 2 a @ t # ts) (cc_lexer c) \<longrightarrow> fits c a \<longrightarrow>
     6 * left c + 2 \<le> n \<longrightarrow>
     (\<exists>d. parse_unary n c = Ok d \<and> emitted (sexp_code (cc_locals c) a) (t # ts) c d))"

definition term_ok :: "sexp \<Rightarrow> bool" where
  "term_ok a \<longleftrightarrow> (\<forall>n c t ts. yields (tokens_of 1 a @ t # ts) (cc_lexer c) \<longrightarrow> fits c a \<longrightarrow>
     6 * left c + 3 \<le> n \<longrightarrow>
     (\<exists>m d. parse_term n c = term_rest m d \<and> 6 * left d + 1 \<le> m \<and> emitted (sexp_code (cc_locals c) a) (t # ts) c d))"

definition expression_ok :: "sexp \<Rightarrow> bool" where
  "expression_ok a \<longleftrightarrow> (\<forall>n c t ts. yields (tokens_of 0 a @ t # ts) (cc_lexer c) \<longrightarrow> fits c a \<longrightarrow>
     6 * left c + 4 \<le> n \<longrightarrow> fst t \<noteq> TOK_STAR \<longrightarrow> fst t \<noteq> TOK_SLASH \<longrightarrow>
     (\<exists>m d. parse_expression n c = expression_rest m d \<and> 6 * left d + 1 \<le> m
        \<and> emitted (sexp_code (cc_locals c) a) (t # ts) c d))"

lemma term_rest_stop:
  "0 < m \<Longrightarrow> tk_type (current d) \<noteq> TOK_STAR \<Longrightarrow> tk_type (current d) \<noteq> TOK_SLASH \<Longrightarrow> term_rest m d = Ok d"
  by (cases m) (auto simp: Let_def)

lemma expression_rest_stop:
  "0 < m \<Longrightarrow> tk_type (current d) \<noteq> TOK_PLUS \<Longrightarrow> tk_type (current d) \<noteq> TOK_MINUS \<Longrightarrow> expression_rest m d = Ok d"
  by (cases m) (auto simp: Let_def)

lemma emitted_current: "emitted code (t # ts) c d \<Longrightarrow> tk_type (current d) = fst t"
  using yields_current [of t ts d] by (simp add: emitted_def)

lemma Suc_fuel: "k + 1 \<le> n \<Longrightarrow> \<exists>m. n = Suc m \<and> k \<le> m" for k n :: nat
  by (cases n) auto

lemma term_from_unary:
  assumes "unary_ok a" "tokens_of 1 a = tokens_of 2 a"
  shows "term_ok a"
  unfolding term_ok_def
proof (intro allI impI)
  fix n c t ts
  assume y: "yields (tokens_of 1 a @ t # ts) (cc_lexer c)" "fits c a" "6 * left c + 3 \<le> n"
  then obtain m where n: "n = Suc m" "6 * left c + 2 \<le> m" using Suc_fuel [of "6 * left c + 2" n] by auto
  obtain d where d: "parse_unary m c = Ok d" "emitted (sexp_code (cc_locals c) a) (t # ts) c d"
    using assms y n(2) unfolding unary_ok_def by metis
  have "left d < left c" using expression_left(2) [OF d(1)] .
  with n d show "\<exists>m d. parse_term n c = term_rest m d \<and> 6 * left d + 1 \<le> m
      \<and> emitted (sexp_code (cc_locals c) a) (t # ts) c d"
    by (intro exI [of _ m] exI [of _ d]) simp
qed

lemma expression_from_term:
  assumes "term_ok a" "tokens_of 0 a = tokens_of 1 a"
  shows "expression_ok a"
  unfolding expression_ok_def
proof (intro allI impI)
  fix n c and t :: lexeme and ts
  assume y: "yields (tokens_of 0 a @ t # ts) (cc_lexer c)" "fits c a" "6 * left c + 4 \<le> n"
    and t: "fst t \<noteq> TOK_STAR" "fst t \<noteq> TOK_SLASH"
  then obtain m where n: "n = Suc m" "6 * left c + 3 \<le> m" using Suc_fuel [of "6 * left c + 3" n] by auto
  obtain k d where d: "parse_term m c = term_rest k d" "6 * left d + 1 \<le> k"
    "emitted (sexp_code (cc_locals c) a) (t # ts) c d"
    using assms y n(2) unfolding term_ok_def by metis
  have ok: "parse_term m c = Ok d"
    using d t emitted_current [OF d(3)] by (simp add: term_rest_stop)
  have "left d < left c" using expression_left(3) [OF ok] .
  moreover have "parse_expression n c = expression_rest m d" by (simp add: n(1) ok)
  ultimately show "\<exists>m d. parse_expression n c = expression_rest m d \<and> 6 * left d + 1 \<le> m
      \<and> emitted (sexp_code (cc_locals c) a) (t # ts) c d"
    using n(2) d(3) by (intro exI [of _ m] exI [of _ d]) simp
qed

lemma unary_from_expression:
  assumes "expression_ok a" "tokens_of 2 p = parens True (tokens_of 0 a)"
    and p: "\<And>vars. sexp_code vars p = sexp_code vars a" "\<And>c. fits c p = fits c a"
  shows "unary_ok p"
  unfolding unary_ok_def
proof (intro allI impI)
  fix n c t ts
  assume y: "yields (tokens_of 2 p @ t # ts) (cc_lexer c)" and "fits c p"
    and n: "6 * left c + 2 \<le> n"
  then have rm: "fits c a" by (simp add: p)
  obtain m where m: "n = Suc (Suc m)" "6 * left c \<le> m" using n by (cases n rule: nat.exhaust; cases "n - 1") auto
  let ?close = "bare TOK_RPAREN # t # ts"
  obtain u us where us: "tokens_of 0 a @ ?close = u # us" by (cases "tokens_of 0 a @ ?close") auto
  have y': "yields (bare TOK_LPAREN # u # us) (cc_lexer c)"
    using y us by (simp add: assms(2) parens_def)
  then have cur: "tk_type (current c) = TOK_LPAREN" using yields_current by fastforce
  obtain e where e: "next_token c = Ok e" "yields (u # us) (cc_lexer e)" "left e < left c"
    "cc_code e = cc_code c" "cc_data e = cc_data c" "cc_locals e = cc_locals c"
    using y' by (rule yields_next) auto
  have "fits e a" using rm e(4,6) by (simp add: fits_def room_def)
  moreover have "6 * left e + 4 \<le> m" using e(3) m(2) by simp
  ultimately obtain k d where d: "parse_expression m e = expression_rest k d" "6 * left d + 1 \<le> k"
    "emitted (sexp_code (cc_locals c) a) ?close e d"
    using assms(1) e(2,6) us unfolding expression_ok_def by (metis fst_conv token_type.distinct)
  have close: "tk_type (current d) = TOK_RPAREN" using emitted_current [OF d(3)] by simp
  then have ok: "parse_expression m e = Ok d" using d by (simp add: expression_rest_stop)
  have "yields ?close (cc_lexer d)" using d(3) by (simp add: emitted_def)
  then obtain f where f: "next_token d = Ok f" "yields (t # ts) (cc_lexer f)" "cc_code f = cc_code d"
    "cc_data f = cc_data d" "cc_locals f = cc_locals d"
    by (rule yields_next) auto
  have "parse_unary n c = Ok f"
    using m cur e(1) ok close f(1) by (simp add: expect_def)
  moreover have "emitted (sexp_code (cc_locals c) p) (t # ts) c f"
    using d(3) e f by (simp add: emitted_def p)
  ultimately show "\<exists>d. parse_unary n c = Ok d \<and> emitted (sexp_code (cc_locals c) p) (t # ts) c d" by blast
qed

text \<open>Leaves, negation, and the two kinds of operator.\<close>

lemma unary_num: "unary_ok (Lit v)"
  unfolding unary_ok_def
proof (intro allI impI)
  fix n c t ts
  assume y: "yields (tokens_of 2 (Lit v) @ t # ts) (cc_lexer c)" and rm: "fits c (Lit v)"
    and n: "6 * left c + 2 \<le> n"
  obtain m where m: "n = Suc (Suc m)" using n by (cases n rule: nat.exhaust; cases "n - 1") auto
  have cur: "tk_type (current c) = TOK_NUMBER" "tk_number (current c) = v"
    using y by (auto simp: yields.simps(2) reads_def current_def)
  let ?e = "c\<lparr>cc_code := cc_code c @ [BCVM_OP_PUSH_I32] @ le_of_u32 v\<rparr>"
  have "yields ((TOK_NUMBER, v, []) # t # ts) (cc_lexer ?e)" using y by simp
  then obtain d where d: "next_token ?e = Ok d" "yields (t # ts) (cc_lexer d)"
    "cc_code d = cc_code ?e" "cc_data d = cc_data ?e" "cc_locals d = cc_locals ?e"
    by (rule yields_next) auto
  have e1: "emit_u8 BCVM_OP_PUSH_I32 c = Ok (c\<lparr>cc_code := cc_code c @ [BCVM_OP_PUSH_I32]\<rparr>)"
    using rm by (intro emit_u8_room) (simp add: fits_def room_def)
  have e2: "emit_u32 v (c\<lparr>cc_code := cc_code c @ [BCVM_OP_PUSH_I32]\<rparr>) = Ok ?e"
    unfolding emit_u32_def using rm by (subst emit_bytes_room) (simp_all add: fits_def room_def)
  have "parse_unary n c = Ok d" using m cur e1 e2 d(1) by simp
  then show "\<exists>d. parse_unary n c = Ok d \<and> emitted (sexp_code (cc_locals c) (Lit v)) (t # ts) c d"
    using d by (auto simp: emitted_def)
qed

lemma unary_local: "unary_ok (Local x)"
  unfolding unary_ok_def
proof (intro allI impI)
  fix n c t ts
  assume y: "yields (tokens_of 2 (Local x) @ t # ts) (cc_lexer c)" and rm: "fits c (Local x)"
    and n: "6 * left c + 2 \<le> n"
  obtain m where m: "n = Suc (Suc m)" using n by (cases n rule: nat.exhaust; cases "n - 1") auto
  obtain i where i: "map_of (cc_locals c) x = Some i" using rm by (auto simp: fits_def)
  have cur: "tk_type (current c) = TOK_IDENTIFIER" "tk_text (current c) = x"
    using y by (auto simp: yields.simps(2) reads_def current_def)
  let ?e = "c\<lparr>cc_code := cc_code c @ [BCVM_OP_LOAD_LOCAL, i]\<rparr>"
  have "yields ((TOK_IDENTIFIER, 0, x) # t # ts) (cc_lexer ?e)" using y by simp
  then obtain d where d: "next_token ?e = Ok d" "yields (t # ts) (cc_lexer d)"
    "cc_code d = cc_code ?e" "cc_data d = cc_data ?e" "cc_locals d = cc_locals ?e"
    by (rule yields_next) auto
  have e1: "emit_u8 BCVM_OP_LOAD_LOCAL c = Ok (c\<lparr>cc_code := cc_code c @ [BCVM_OP_LOAD_LOCAL]\<rparr>)"
    using rm i by (intro emit_u8_room) (simp add: fits_def room_def)
  have e2: "emit_u8 i (c\<lparr>cc_code := cc_code c @ [BCVM_OP_LOAD_LOCAL]\<rparr>) = Ok ?e"
    using rm i by (subst emit_u8_room) (simp_all add: fits_def room_def)
  have "parse_unary n c = Ok d" using m cur e1 e2 d(1) i by (simp add: find_local_def)
  then show "\<exists>d. parse_unary n c = Ok d \<and> emitted (sexp_code (cc_locals c) (Local x)) (t # ts) c d"
    using d i by (auto simp: emitted_def)
qed

lemma unary_neg:
  assumes "unary_ok a"
  shows "unary_ok (Minus_of a)"
  unfolding unary_ok_def
proof (intro allI impI)
  fix n c t ts
  assume y: "yields (tokens_of 2 (Minus_of a) @ t # ts) (cc_lexer c)" and rm: "fits c (Minus_of a)"
    and n: "6 * left c + 2 \<le> n"
  obtain m where m: "n = Suc m" "6 * left c + 1 \<le> m" using n by (cases n) auto
  obtain u us where us: "tokens_of 2 a @ t # ts = u # us" by (cases "tokens_of 2 a @ t # ts") auto
  have y': "yields (bare TOK_MINUS # u # us) (cc_lexer c)" using y us by simp
  have cur: "tk_type (current c) = TOK_MINUS" using yields_current [OF y'] by simp
  obtain e where e: "next_token c = Ok e" "yields (u # us) (cc_lexer e)" "left e < left c"
    "cc_code e = cc_code c" "cc_data e = cc_data c" "cc_locals e = cc_locals c"
    using y' by (rule yields_next) auto
  have "fits e a" "6 * left e + 2 \<le> m" using rm e(3,4,6) m(2) by (auto simp: fits_def room_def)
  then obtain d where d: "parse_unary m e = Ok d" "emitted (sexp_code (cc_locals c) a) (t # ts) e d"
    using assms e(2,6) us unfolding unary_ok_def by metis
  have "emit_u8 BCVM_OP_NEG d = Ok (d\<lparr>cc_code := cc_code d @ [BCVM_OP_NEG]\<rparr>)"
    using rm d(2) e(4) by (intro emit_u8_room) (simp add: fits_def room_def emitted_def)
  then have "parse_unary n c = Ok (d\<lparr>cc_code := cc_code d @ [BCVM_OP_NEG]\<rparr>)"
    using m cur e(1) d(1) by simp
  then show "\<exists>d. parse_unary n c = Ok d \<and> emitted (sexp_code (cc_locals c) (Minus_of a)) (t # ts) c d"
    using d(2) e by (auto simp: emitted_def)
qed

text \<open>One turn of a loop: the operator is consumed, the right operand parsed and the opcode emitted.\<close>

lemma operator_step:
  assumes l: "emitted (sexp_code (cc_locals c) l) (bare (binop_token b) # u # us) c d"
    and rm: "fits c (Apply b l r)"
  obtains e where "next_token d = Ok e" "yields (u # us) (cc_lexer e)" "left e < left d"
    "fits e r" "cc_locals e = cc_locals c"
    "\<And>f t ts. emitted (sexp_code (cc_locals c) r) (t # ts) e f \<Longrightarrow>
       emit_u8 (binop_code b) f = Ok (f\<lparr>cc_code := cc_code f @ [binop_code b]\<rparr>)
       \<and> emitted (sexp_code (cc_locals c) (Apply b l r)) (t # ts) c (f\<lparr>cc_code := cc_code f @ [binop_code b]\<rparr>)
       \<and> left (f\<lparr>cc_code := cc_code f @ [binop_code b]\<rparr>) = left f"
proof -
  have "yields (bare (binop_token b) # u # us) (cc_lexer d)" using l by (simp add: emitted_def)
  moreover have "binop_token b \<noteq> TOK_EOF" by (cases b) auto
  ultimately obtain e where e: "next_token d = Ok e" "yields (u # us) (cc_lexer e)" "left e < left d"
    "cc_code e = cc_code d" "cc_data e = cc_data d" "cc_locals e = cc_locals d"
    using yields_next [of "bare (binop_token b)" u us d] by (metis fst_conv)
  show thesis
  proof (rule that [OF e(1,2,3)])
    show "fits e r" "cc_locals e = cc_locals c"
      using rm l e(4,6) by (simp_all add: fits_def room_def emitted_def)
    fix f t ts
    assume f: "emitted (sexp_code (cc_locals c) r) (t # ts) e f"
    have "emit_u8 (binop_code b) f = Ok (f\<lparr>cc_code := cc_code f @ [binop_code b]\<rparr>)"
      using rm l e(4) f by (intro emit_u8_room) (simp add: fits_def room_def emitted_def)
    then show "emit_u8 (binop_code b) f = Ok (f\<lparr>cc_code := cc_code f @ [binop_code b]\<rparr>)
       \<and> emitted (sexp_code (cc_locals c) (Apply b l r)) (t # ts) c (f\<lparr>cc_code := cc_code f @ [binop_code b]\<rparr>)
       \<and> left (f\<lparr>cc_code := cc_code f @ [binop_code b]\<rparr>) = left f"
      using l e f by (simp add: emitted_def left_def current_def)
  qed
qed

lemma term_bin:
  assumes l: "term_ok l" and r: "unary_ok r" and b: "binop_level b = 1"
  shows "term_ok (Apply b l r)"
  unfolding term_ok_def
proof (intro allI impI)
  fix n c t ts
  assume y: "yields (tokens_of 1 (Apply b l r) @ t # ts) (cc_lexer c)" and rm: "fits c (Apply b l r)"
    and n: "6 * left c + 3 \<le> n"
  obtain u us where us: "tokens_of 2 r @ t # ts = u # us" by (cases "tokens_of 2 r @ t # ts") auto
  have "yields (tokens_of 1 l @ bare (binop_token b) # u # us) (cc_lexer c)"
    using y us b by (simp add: parens_def numeral_2_eq_2)
  moreover have "fits c l" using rm by (simp add: fits_def room_def)
  ultimately obtain m d where d: "parse_term n c = term_rest m d" "6 * left d + 1 \<le> m"
    "emitted (sexp_code (cc_locals c) l) (bare (binop_token b) # u # us) c d"
    using l n unfolding term_ok_def by metis
  obtain e where e: "next_token d = Ok e" "yields (u # us) (cc_lexer e)" "left e < left d"
    "fits e r" "cc_locals e = cc_locals c"
    and op: "\<And>f t ts. emitted (sexp_code (cc_locals c) r) (t # ts) e f \<Longrightarrow>
       emit_u8 (binop_code b) f = Ok (f\<lparr>cc_code := cc_code f @ [binop_code b]\<rparr>)
       \<and> emitted (sexp_code (cc_locals c) (Apply b l r)) (t # ts) c (f\<lparr>cc_code := cc_code f @ [binop_code b]\<rparr>)
       \<and> left (f\<lparr>cc_code := cc_code f @ [binop_code b]\<rparr>) = left f"
    using operator_step [OF d(3) rm] by blast
  obtain k where k: "m = Suc k" "6 * left d \<le> k" using d(2) by (cases m) auto
  then have "6 * left e + 2 \<le> k" using e(3) by simp
  then obtain f where f: "parse_unary k e = Ok f" "emitted (sexp_code (cc_locals c) r) (t # ts) e f"
    using r e(2,4,5) us unfolding unary_ok_def by metis
  let ?g = "f\<lparr>cc_code := cc_code f @ [binop_code b]\<rparr>"
  have cur: "tk_type (current d) = binop_token b" using emitted_current [OF d(3)] by simp
  have "term_rest m d = term_rest k ?g"
    using k(1) cur b e(1) f(1) op [OF f(2)] by (cases b) auto
  moreover have "6 * left ?g + 1 \<le> k"
    using op [OF f(2)] expression_left(2) [OF f(1)] e(3) k(2) by simp
  ultimately show "\<exists>m d. parse_term n c = term_rest m d \<and> 6 * left d + 1 \<le> m
      \<and> emitted (sexp_code (cc_locals c) (Apply b l r)) (t # ts) c d"
    using op [OF f(2)] d(1) by metis
qed

lemma expression_bin:
  assumes l: "expression_ok l" and r: "term_ok r" and b: "binop_level b = 0"
  shows "expression_ok (Apply b l r)"
  unfolding expression_ok_def
proof (intro allI impI)
  fix n c and t :: lexeme and ts
  assume y: "yields (tokens_of 0 (Apply b l r) @ t # ts) (cc_lexer c)" and rm: "fits c (Apply b l r)"
    and n: "6 * left c + 4 \<le> n" and t: "fst t \<noteq> TOK_STAR" "fst t \<noteq> TOK_SLASH"
  obtain u us where us: "tokens_of 1 r @ t # ts = u # us" by (cases "tokens_of 1 r @ t # ts") auto
  have "yields (tokens_of 0 l @ bare (binop_token b) # u # us) (cc_lexer c)"
    using y us b by (simp add: parens_def)
  moreover have "fits c l" using rm by (simp add: fits_def room_def)
  moreover have "fst (bare (binop_token b)) \<noteq> TOK_STAR" "fst (bare (binop_token b)) \<noteq> TOK_SLASH"
    using b by (cases b; simp)+
  ultimately obtain m d where d: "parse_expression n c = expression_rest m d" "6 * left d + 1 \<le> m"
    "emitted (sexp_code (cc_locals c) l) (bare (binop_token b) # u # us) c d"
    using l n unfolding expression_ok_def by metis
  obtain e where e: "next_token d = Ok e" "yields (u # us) (cc_lexer e)" "left e < left d"
    "fits e r" "cc_locals e = cc_locals c"
    and op: "\<And>f t ts. emitted (sexp_code (cc_locals c) r) (t # ts) e f \<Longrightarrow>
       emit_u8 (binop_code b) f = Ok (f\<lparr>cc_code := cc_code f @ [binop_code b]\<rparr>)
       \<and> emitted (sexp_code (cc_locals c) (Apply b l r)) (t # ts) c (f\<lparr>cc_code := cc_code f @ [binop_code b]\<rparr>)
       \<and> left (f\<lparr>cc_code := cc_code f @ [binop_code b]\<rparr>) = left f"
    using operator_step [OF d(3) rm] by blast
  obtain k where k: "m = Suc k" "6 * left d \<le> k" using d(2) by (cases m) auto
  then have "6 * left e + 3 \<le> k" using e(3) by simp
  then obtain j f where f: "parse_term k e = term_rest j f" "6 * left f + 1 \<le> j"
    "emitted (sexp_code (cc_locals c) r) (t # ts) e f"
    using r e(2,4,5) us unfolding term_ok_def by metis
  then have ok: "parse_term k e = Ok f"
    using t emitted_current [OF f(3)] by (simp add: term_rest_stop)
  let ?g = "f\<lparr>cc_code := cc_code f @ [binop_code b]\<rparr>"
  have cur: "tk_type (current d) = binop_token b" using emitted_current [OF d(3)] by simp
  have "expression_rest m d = expression_rest k ?g"
    unfolding k(1) using cur b e(1) ok op [OF f(3)] by (cases b) auto
  moreover have "6 * left ?g + 1 \<le> k"
    using op [OF f(3)] expression_left(3) [OF ok] e(3) k(2) by simp
  ultimately show "\<exists>m d. parse_expression n c = expression_rest m d \<and> 6 * left d + 1 \<le> m
      \<and> emitted (sexp_code (cc_locals c) (Apply b l r)) (t # ts) c d"
    using op [OF f(3)] d(1) by metis
qed

text \<open>An expression that is an operand by itself is one at every level.\<close>

lemma levels_from_unary:
  assumes "unary_ok a" "tokens_of 1 a = tokens_of 2 a" "tokens_of 0 a = tokens_of 1 a"
  shows "unary_ok a \<and> term_ok a \<and> expression_ok a"
  using assms term_from_unary expression_from_term by blast

lemma levels_ok: "unary_ok a \<and> term_ok a \<and> expression_ok a"
proof (induction a)
  case (Lit v)
  show ?case by (rule levels_from_unary [OF unary_num]) simp_all
next
  case (Local x)
  show ?case by (rule levels_from_unary [OF unary_local]) simp_all
next
  case (Minus_of a)
  then show ?case by (intro levels_from_unary unary_neg) simp_all
next
  case (Paren a)
  then have "unary_ok (Paren a)" by (intro unary_from_expression [of a]) (simp_all add: fits_def)
  then show ?case by (rule levels_from_unary) simp_all
next
  case (Apply b l r)
  consider "binop_level b = 1" | "binop_level b = 0" by (cases b) auto
  then show ?case
  proof cases
    case 1
    then have t: "term_ok (Apply b l r)" using Apply term_bin by blast
    have e: "expression_ok (Apply b l r)" by (rule expression_from_term [OF t]) (simp add: 1 parens_def)
    have "unary_ok (Apply b l r)" by (rule unary_from_expression [OF e]) (simp_all add: 1 parens_def fits_def)
    with t e show ?thesis by blast
  next
    case 2
    then have e: "expression_ok (Apply b l r)" using Apply expression_bin by blast
    have u: "unary_ok (Apply b l r)" by (rule unary_from_expression [OF e]) (simp_all add: 2 parens_def fits_def)
    have "term_ok (Apply b l r)" by (rule term_from_unary [OF u]) (simp add: 2 parens_def)
    with u e show ?thesis by blast
  qed
qed

text \<open>C3. The parser builds the tree that precedence and left associativity give:
  on the tokens of an expression of numbers, declared variables, the operators and any parentheses,
  followed by a token that cannot continue it, \<open>parse_expression\<close> emits that tree's stack code, each
  variable as LOAD_LOCAL with its index, stops at the token behind it and changes nothing else. The
  code must fit in the code buffer.\<close>

theorem prismcc_expression_code:
  assumes "yields (tokens_of 0 a @ [t]) (cc_lexer c)" "fits c a" "6 * left c + 4 \<le> n"
    and "fst t \<notin> {TOK_STAR, TOK_SLASH, TOK_PLUS, TOK_MINUS}"
  shows "\<exists>d. parse_expression n c = Ok d \<and> cc_code d = cc_code c @ sexp_code (cc_locals c) a
    \<and> cc_data d = cc_data c \<and> cc_locals d = cc_locals c \<and> tk_type (current d) = fst t"
proof -
  obtain m d where d: "parse_expression n c = expression_rest m d" "6 * left d + 1 \<le> m"
    "emitted (sexp_code (cc_locals c) a) [t] c d"
    using levels_ok [of a] assms unfolding expression_ok_def by blast
  have "parse_expression n c = Ok d"
    using d assms(4) emitted_current [OF d(3)] by (simp add: expression_rest_stop)
  then show ?thesis
    using d(3) emitted_current [OF d(3)] by (auto simp: emitted_def)
qed

text \<open>\<open>2*((x)-(3+y));\<close> at its first token, with the locals x and y.\<close>

definition sample_compiler :: compiler where
  "sample_compiler =
     (case next_token (compiler_start (ascii ''2*((x)-(3+y));'')) of
        Ok c \<Rightarrow> c\<lparr>cc_locals := [(ascii ''x'', 0), (ascii ''y'', 1)]\<rparr> | _ \<Rightarrow> compiler_start [])"

definition sample_sexp :: sexp where
  "sample_sexp =
     Apply Times (Lit 2) (Apply Minus (Paren (Local (ascii ''x''))) (Apply Plus (Lit 3) (Local (ascii ''y''))))"

definition sample_expression :: aexp where
  "sample_expression = Bin Times (Num 2) (Bin Plus (Num 3) (Num 4))"

theorem prismcc_expression_code_witness:
  "\<exists>d. parse_expression 100 sample_compiler = Ok d
    \<and> cc_code d = [1, 2, 0, 0, 0, 2, 0, 1, 3, 0, 0, 0, 2, 1, 4, 5, 6]"
proof -
  have "yields (tokens_of 0 sample_sexp @ [bare TOK_SEMI]) (cc_lexer sample_compiler)"
    "6 * left sample_compiler + 4 \<le> 100" "cc_code sample_compiler = []"
    "sexp_code (cc_locals sample_compiler) sample_sexp = [1, 2, 0, 0, 0, 2, 0, 1, 3, 0, 0, 0, 2, 1, 4, 5, 6]"
    "declared (cc_locals sample_compiler) sample_sexp"
    by code_simp+
  then show ?thesis
    using prismcc_expression_code [of sample_sexp "bare TOK_SEMI" sample_compiler 100]
    by (auto simp: fits_def room_def MAX_CODE_SIZE_def)
qed

end
