(* ===== verification/Prismcc_Exec.thy ===== *)
theory Prismcc_Exec
  imports Prismcc_Expr "HOL-Library.Code_Target_Nat"
begin

text \<open>
  Compiled expressions on the virtual machine: running the stack code of a tree pushes its value and
  leaves the rest of the machine as it was. Then the application file: its header is accepted by
  \<open>vm_read_header\<close>, and what goes wrong with local variables.
\<close>

section \<open>Values\<close>

fun binop_value :: "binop \<Rightarrow> u32 \<Rightarrow> u32 \<Rightarrow> u32 option" where
  "binop_value Times x y = Some (x * y)"
| "binop_value Over x y = (if y = 0 \<or> idiv_faults x y then None else Some (s_div x y))"
| "binop_value Plus x y = Some (x + y)"
| "binop_value Minus x y = Some (x - y)"

fun value_of :: "aexp \<Rightarrow> u32 option" where
  "value_of (Num v) = Some v"
| "value_of (Neg a) = map_option uminus (value_of a)"
| "value_of (Bin b l r) =
     (case (value_of l, value_of r) of (Some x, Some y) \<Rightarrow> binop_value b x y | _ \<Rightarrow> None)"

text \<open>Instructions executed, and stack cells needed.\<close>

fun turns :: "aexp \<Rightarrow> nat" where
  "turns (Num v) = 1"
| "turns (Neg a) = turns a + 1"
| "turns (Bin b l r) = turns l + turns r + 1"

fun stack_need :: "aexp \<Rightarrow> nat" where
  "stack_need (Num v) = 1"
| "stack_need (Neg a) = stack_need a"
| "stack_need (Bin b l r) = max (stack_need l) (1 + stack_need r)"

section \<open>Single instructions\<close>

definition code_here :: "'f vm_env \<Rightarrow> nat \<Rightarrow> bytes \<Rightarrow> bool" where
  "code_here e pc bs \<longleftrightarrow> pc + length bs \<le> code_size e \<and> take (length bs) (drop (20 + pc) (ve_image e)) = bs"

text \<open>The machine can take \<open>k\<close> more turns without spending its budget.\<close>

definition calm :: "'f vm_env \<Rightarrow> nat \<Rightarrow> 'f vm \<Rightarrow> bool" where
  "calm e k s \<longleftrightarrow> env_ok e \<and> \<not> vm_fullscreen s \<and> vm_steps s + k < 200000 \<and> length (vm_stack s) = 256"

lemma code_here_append:
  "code_here e pc (xs @ ys) \<Longrightarrow> code_here e pc xs \<and> code_here e (pc + length xs) ys"
proof -
  assume c: "code_here e pc (xs @ ys)"
  then have t: "take (length (xs @ ys)) (drop (20 + pc) (ve_image e)) = xs @ ys"
    and le: "pc + length (xs @ ys) \<le> code_size e" by (auto simp: code_here_def)
  have "take (length xs) (take (length (xs @ ys)) (drop (20 + pc) (ve_image e))) = xs"
    unfolding t by simp
  moreover have "drop (length xs) (take (length (xs @ ys)) (drop (20 + pc) (ve_image e))) = ys"
    unfolding t by simp
  ultimately show ?thesis using le by (simp add: code_here_def drop_take ac_simps)
qed

lemma code_here_fetch:
  assumes "env_ok e" "code_here e pc (b # bs)"
  shows "rd (ve_image e) (code_at e pc) = Some b" "pc < code_size e" "pc < 4294967276"
proof -
  have t: "take (length (b # bs)) (drop (20 + pc) (ve_image e)) = b # bs" and le: "pc + length (b # bs) \<le> code_size e"
    using assms(2) by (auto simp: code_here_def)
  then have "drop (20 + pc) (ve_image e) ! 0 = b" "drop (20 + pc) (ve_image e) \<noteq> []"
    by (cases "drop (20 + pc) (ve_image e)"; simp)+
  then show "rd (ve_image e) (code_at e pc) = Some b"
    by (simp add: rd_def code_at_def BCVM_IMAGE_HEADER_SIZE_def)
  show "pc < code_size e" "pc < 4294967276" using le assms(1) by (auto simp: env_ok_def)
qed

lemma code_here_u32:
  assumes "code_here e pc (le_of_u32 v)"
  shows "read_u32le (ve_image e) (code_at e pc) = Some v"
proof -
  have t: "take 4 (drop (20 + pc) (ve_image e)) = le_of_u32 v"
    using assms by (simp add: code_here_def)
  have "length (take 4 (drop (20 + pc) (ve_image e))) = 4" unfolding t by simp
  then have "20 + pc + 4 \<le> length (ve_image e)" by (simp add: min_def split: if_splits)
  then have "chunk (ve_image e) (20 + pc) 4 = Some (le_of_u32 v)" using t by (simp add: chunk_def)
  then show ?thesis
    using u32_of_le_bytes [of v]
    by (simp add: read_u32le_def code_at_def BCVM_IMAGE_HEADER_SIZE_def le_of_u32_def)
qed

text \<open>A turn of the loop that only runs an instruction.\<close>

lemma calm_iter:
  assumes "calm e 1 s" "code_here e (vm_pc s) (b # bs)"
  shows "bcvm_iter e s = bcvm_exec e b (s\<lparr>vm_pc := vm_pc s + 1, vm_steps := vm_steps s + 1\<rparr>)"
  using assms code_here_fetch [OF _ assms(2)]
  by (simp add: bcvm_iter_def calm_def BCVM_MAX_STEPS_def Let_def)

definition pushed :: "u32 \<Rightarrow> 'f vm \<Rightarrow> 'f vm" where
  "pushed v s = s\<lparr>vm_stack := (vm_stack s)[vm_sp s := v], vm_sp := vm_sp s + 1\<rparr>"

definition advanced :: "nat \<Rightarrow> nat \<Rightarrow> 'f vm \<Rightarrow> 'f vm" where
  "advanced n k s = s\<lparr>vm_pc := vm_pc s + n, vm_steps := vm_steps s + k\<rparr>"

lemma iter_num:
  assumes "calm e 1 s" "code_here e (vm_pc s) (stack_code (Num v))" "vm_sp s < 256"
  shows "bcvm_iter e s = Next (pushed v (advanced 5 1 s))"
proof -
  have c: "code_here e (vm_pc s) (BCVM_OP_PUSH_I32 # le_of_u32 v)" using assms(2) by simp
  have "code_here e (vm_pc s + 1) (le_of_u32 v)"
    using code_here_append [of e "vm_pc s" "[BCVM_OP_PUSH_I32]" "le_of_u32 v"] c by simp
  note r = code_here_u32 [OF this]
  have le: "vm_pc s + 5 \<le> code_size e" "vm_pc s < 4294967276"
    using c code_here_fetch(3) [OF _ c] assms(1) by (auto simp: code_here_def calm_def)
  show ?thesis
    using calm_iter [OF assms(1) c] r le assms(1,3)
    by (simp add: bcvm_exec_simps op_push_i32_def no_operand_def stack_full_def vm_limits vm_u32_def
        vm_push_def arr calm_def pushed_def advanced_def)
qed

lemma iter_neg:
  assumes "calm e 1 s" "code_here e (vm_pc s) [BCVM_OP_NEG]" "vm_sp s = p + 1" "p < 256"
  shows "bcvm_iter e s =
    Next ((advanced 1 1 s)\<lparr>vm_stack := (vm_stack s)[p := - (vm_stack s ! p)], vm_sp := p + 1\<rparr>)"
proof -
  have "s\<lparr>vm_sp := p + 1\<rparr> = s" using assms(3) by simp
  then have "(s\<lparr>vm_sp := p + 1\<rparr>)\<lparr>vm_pc := a, vm_steps := b, vm_stack := st\<rparr> =
      s\<lparr>vm_pc := a, vm_steps := b, vm_stack := st\<rparr>" for a b st by (rule arg_cong)
  then show ?thesis
    using calm_iter [OF assms(1,2)] assms(1,3,4)
    by (simp add: bcvm_exec_simps op_neg_def vm_peek_def vm_replace_top_def arr calm_def advanced_def)
qed

lemma vm_operands_top:
  assumes "vm_sp s = p + 2" "p + 2 \<le> 256" "length (vm_stack s) = 256"
  shows "vm_operands s k = k (vm_stack s ! p) (vm_stack s ! (p + 1)) (s\<lparr>vm_sp := p\<rparr>)"
  using assms by (simp add: vm_operands_def vm_pop_def arr)

lemma vm_push_top:
  "vm_sp s < 256 \<Longrightarrow> length (vm_stack s) = 256 \<Longrightarrow> vm_push v s = Next (pushed v s)"
  by (simp add: vm_push_def arr pushed_def)

lemma exec_bin:
  assumes "vm_sp s = p + 2" "p + 2 \<le> 256" "length (vm_stack s) = 256"
    and "binop_value b (vm_stack s ! p) (vm_stack s ! (p + 1)) = Some v"
  shows "bcvm_exec e (binop_code b) s = Next (pushed v (s\<lparr>vm_sp := p\<rparr>))"
  using assms
  by (cases b)
    (simp_all add: bcvm_exec_simps op_add_def op_sub_def op_mul_def op_div_def vm_operands_top
      vm_push_top split: if_splits)

lemma iter_bin:
  assumes "calm e 1 s" "code_here e (vm_pc s) [binop_code b]" "vm_sp s = p + 2" "p + 2 \<le> 256"
    and "binop_value b (vm_stack s ! p) (vm_stack s ! (p + 1)) = Some v"
  shows "bcvm_iter e s =
    Next ((advanced 1 1 s)\<lparr>vm_stack := (vm_stack s)[p := v], vm_sp := p + 1\<rparr>)"
  unfolding calm_iter [OF assms(1,2)]
  using assms exec_bin [of "s\<lparr>vm_pc := vm_pc s + 1, vm_steps := vm_steps s + 1\<rparr>" p b v e]
  by (simp add: calm_def pushed_def advanced_def)

section \<open>Whole expressions\<close>

text \<open>From \<open>s\<close>, \<open>k\<close> turns lead to \<open>t\<close>.\<close>

definition reaches :: "'f vm_env \<Rightarrow> nat \<Rightarrow> 'f vm \<Rightarrow> 'f vm \<Rightarrow> bool" where
  "reaches e k s t \<longleftrightarrow> (\<forall>n. bcvm_loop (k + n) e s = bcvm_loop n e t)"

lemma reaches_step: "bcvm_iter e s = Next t \<Longrightarrow> reaches e 1 s t"
  by (simp add: reaches_def)

lemma reaches_trans: "reaches e j s t \<Longrightarrow> reaches e k t u \<Longrightarrow> reaches e (j + k) s u"
  by (simp add: reaches_def add.assoc)

text \<open>The machine after an expression: the value on top, the cells below and everything else kept.\<close>

definition evaluated :: "aexp \<Rightarrow> u32 \<Rightarrow> 'f vm \<Rightarrow> 'f vm \<Rightarrow> bool" where
  "evaluated a v s t \<longleftrightarrow>
     (\<exists>st. t = (advanced (length (stack_code a)) (turns a) s)\<lparr>vm_stack := st, vm_sp := vm_sp s + 1\<rparr>
        \<and> length st = 256 \<and> take (vm_sp s) st = take (vm_sp s) (vm_stack s) \<and> st ! vm_sp s = v)"

lemma evaluatedD:
  assumes "evaluated a v s t"
  shows "vm_pc t = vm_pc s + length (stack_code a)" "vm_steps t = vm_steps s + turns a"
    "vm_sp t = vm_sp s + 1" "vm_stack t ! vm_sp s = v" "length (vm_stack t) = 256"
    "vm_fullscreen t = vm_fullscreen s" "take (vm_sp s) (vm_stack t) = take (vm_sp s) (vm_stack s)"
  using assms by (auto simp: evaluated_def advanced_def)

lemma take_keep: "take n xs = take n ys \<Longrightarrow> i < n \<Longrightarrow> i < length xs \<Longrightarrow> i < length ys \<Longrightarrow> xs ! i = ys ! i"
  by (metis nth_take)

lemma stack_need_pos: "0 < stack_need a"
  by (induction a) auto

lemma run_expression:
  "code_here e (vm_pc s) (stack_code a) \<Longrightarrow> calm e (turns a) s \<Longrightarrow> vm_sp s + stack_need a \<le> 256 \<Longrightarrow>
   value_of a = Some v \<Longrightarrow> \<exists>t. reaches e (turns a) s t \<and> evaluated a v s t"
proof (induction a arbitrary: s v)
  case (Num v)
  have "bcvm_iter e s = Next (pushed v (advanced 5 1 s))"
    using Num by (intro iter_num) auto
  moreover have "evaluated (Num v) v s (pushed v (advanced 5 1 s))"
    using Num.prems(2,3) by (auto simp: evaluated_def pushed_def advanced_def calm_def)
  ultimately show ?case using reaches_step Num.prems(4) by auto
next
  case (Neg a)
  then obtain w where w: "value_of a = Some w" "v = - w" by auto
  have c: "code_here e (vm_pc s) (stack_code a)" "code_here e (vm_pc s + length (stack_code a)) [BCVM_OP_NEG]"
    using code_here_append Neg.prems(1) by auto
  obtain t where t: "reaches e (turns a) s t" "evaluated a w s t"
    using Neg.IH [OF c(1) _ _ w(1)] Neg.prems(2,3) by (auto simp: calm_def)
  note d = evaluatedD [OF t(2)]
  let ?u = "(advanced 1 1 t)\<lparr>vm_stack := (vm_stack t)[vm_sp s := - (vm_stack t ! vm_sp s)], vm_sp := vm_sp s + 1\<rparr>"
  have "bcvm_iter e t = Next ?u"
    using c(2) d Neg.prems(2,3) stack_need_pos [of a] by (intro iter_neg) (auto simp: calm_def)
  from reaches_trans [OF t(1) reaches_step [OF this]]
  have "reaches e (turns (Neg a)) s ?u" by simp
  moreover have "evaluated (Neg a) v s ?u"
    using t(2) w(2) Neg.prems(3) stack_need_pos [of a] by (auto simp: evaluated_def advanced_def)
  ultimately show ?case by blast
next
  case (Bin b l r)
  then obtain x y where xy: "value_of l = Some x" "value_of r = Some y" "binop_value b x y = Some v"
    by (auto split: option.splits)
  have c: "code_here e (vm_pc s) (stack_code l)" "code_here e (vm_pc s + length (stack_code l)) (stack_code r)"
    "code_here e (vm_pc s + length (stack_code l) + length (stack_code r)) [binop_code b]"
    using code_here_append [of e "vm_pc s" "stack_code l"] Bin.prems(1)
      code_here_append [of e "vm_pc s + length (stack_code l)" "stack_code r"] by auto
  have need: "vm_sp s + stack_need l \<le> 256" "vm_sp s + 1 + stack_need r \<le> 256"
    using Bin.prems(3) by (auto simp: max_def split: if_splits)
  obtain t where t: "reaches e (turns l) s t" "evaluated l x s t"
    using Bin.IH(1) [OF c(1) _ need(1) xy(1)] Bin.prems(2) by (auto simp: calm_def)
  note d = evaluatedD [OF t(2)]
  have "code_here e (vm_pc t) (stack_code r)" "calm e (turns r) t" "vm_sp t + stack_need r \<le> 256"
    using c(2) d Bin.prems(2) need by (auto simp: calm_def)
  then obtain u where u: "reaches e (turns r) t u" "evaluated r y t u"
    using Bin.IH(2) [OF _ _ _ xy(2)] by blast
  note f = evaluatedD [OF u(2)]
  have ops: "vm_stack u ! vm_sp s = x" "vm_stack u ! (vm_sp s + 1) = y"
    using d f take_keep [OF f(7), of "vm_sp s"] need(2) stack_need_pos [of r] by auto
  let ?w = "(advanced 1 1 u)\<lparr>vm_stack := (vm_stack u)[vm_sp s := v], vm_sp := vm_sp s + 1\<rparr>"
  have "bcvm_iter e u = Next ?w"
    using c(3) d f ops xy(3) Bin.prems(2) need stack_need_pos [of r]
    by (intro iter_bin) (auto simp: calm_def add.assoc)
  from reaches_trans [OF reaches_trans [OF t(1) u(1)] reaches_step [OF this]]
  have "reaches e (turns (Bin b l r)) s ?w" by simp
  moreover have "evaluated (Bin b l r) v s ?w"
  proof -
    have "take (vm_sp s) (vm_stack u) = take (vm_sp s) (take (vm_sp t) (vm_stack u))"
      using d(3) by (simp add: min_def)
    also have "\<dots> = take (vm_sp s) (vm_stack s)"
      using f(7) d(3,7) by (simp add: min_def)
    finally have keep: "take (vm_sp s) (vm_stack u) = take (vm_sp s) (vm_stack s)" .
    obtain st st' where tu: "t = (advanced (length (stack_code l)) (turns l) s)\<lparr>vm_stack := st, vm_sp := vm_sp s + 1\<rparr>"
      "u = (advanced (length (stack_code r)) (turns r) t)\<lparr>vm_stack := st', vm_sp := vm_sp t + 1\<rparr>"
      using t(2) u(2) unfolding evaluated_def by blast
    have "?w = (advanced (length (stack_code (Bin b l r))) (turns (Bin b l r)) s)
        \<lparr>vm_stack := (vm_stack u)[vm_sp s := v], vm_sp := vm_sp s + 1\<rparr>"
      by (simp add: tu advanced_def)
    then show ?thesis
      unfolding evaluated_def using keep f(5) need(2)
      by (intro exI [of _ "(vm_stack u)[vm_sp s := v]"]) simp
  qed
  ultimately show ?case by blast
qed

text \<open>C4. The stack code of a constant expression runs to its value: from any
  state of the machine with room on the stack and budget for the turns, executing the code leads in
  that many turns to the state that has the value on top and is otherwise the same.\<close>

theorem prismcc_expression_runs:
  assumes "code_here e (vm_pc s) (stack_code a)" "calm e (turns a) s"
    and "vm_sp s + stack_need a \<le> 256" "value_of a = Some v"
  shows "\<exists>t. reaches e (turns a) s t \<and> evaluated a v s t"
  using assms by (rule run_expression)

definition sample_env :: "unit vm_env" where
  "sample_env =
     \<lparr>ve_image = vm_header_bytes 17 0 @ stack_code sample_expression,
      ve_header = \<lparr>h_magic = BCVM_MAGIC, h_version = BCVM_VERSION, h_reserved = 0, h_code_size = 17,
        h_data_size = 0, h_entry = 0\<rparr>, ve_vfs = no_files\<rparr>"

theorem prismcc_expression_runs_witness:
  "\<exists>t. reaches sample_env 5 (bcvm_start (ve_header sample_env) boot_vm) t
    \<and> evaluated sample_expression 14 (bcvm_start (ve_header sample_env) boot_vm) t"
proof -
  let ?s = "bcvm_start (ve_header sample_env) boot_vm"
  have start: "vm_pc ?s = 0" "vm_steps ?s = 0" "vm_sp ?s = 0" "\<not> vm_fullscreen ?s" "length (vm_stack ?s) = 256"
    by (simp_all add: bcvm_start_def sample_env_def vm_limits)
  have "code_here sample_env 0 (stack_code sample_expression)" by code_simp
  moreover have "env_ok sample_env" by code_simp
  moreover have "turns sample_expression = 5" "stack_need sample_expression = 3"
    "value_of sample_expression = Some 14"
    by code_simp+
  ultimately show ?thesis
    using prismcc_expression_runs [of sample_env ?s sample_expression 14] start
    by (simp add: calm_def)
qed

section \<open>Local variables\<close>

text \<open>\<open>prismcc.c\<close> emits the index of a local as one byte; \<open>bytecode_vm.c\<close> reads two.\<close>

definition local_source :: bytes where
  "local_source = ascii ''int main() { int a = 1; return a; }''"

definition local_image :: bytes where
  "local_image =
     [0x42, 0x43, 0x56, 0x4D, 2, 0, 0, 0, 10, 0, 0, 0, 0, 0, 0, 0, 0, 0, 0, 0,
      0x01, 1, 0, 0, 0, 0x03, 0, 0x02, 0, 0x0C]"

lemma local_compiled:
  "(case prismcc_compile 100 local_source of Ok c \<Rightarrow> vm_image c = local_image | _ \<Rightarrow> False)"
  by code_simp

definition local_env :: "'f vfs_ops \<Rightarrow> 'f vm_env" where
  "local_env vfs =
     \<lparr>ve_image = local_image,
      ve_header = \<lparr>h_magic = BCVM_MAGIC, h_version = BCVM_VERSION, h_reserved = 0, h_code_size = 10,
        h_data_size = 0, h_entry = 0\<rparr>, ve_vfs = vfs\<rparr>"

lemma local_header:
  "vm_read_header local_image (length local_image) = Some (Some (ve_header (local_env vfs)))"
  by (simp add: local_image_def local_env_def vm_read_header_def Let_def
      BCVM_IMAGE_HEADER_SIZE_def read_u32le_def read_u16le_def chunk_def u32_of_le_def u16_of_le_def
      BCVM_MAGIC_def BCVM_VERSION_def)

lemma local_code:
  "code_size (local_env vfs) = 10" "ve_image (local_env vfs) = local_image"
  "rd local_image (code_at e 0) = Some 0x01"
  "read_u32le local_image (code_at e (Suc 0)) = Some 1"
  "rd local_image (code_at e 5) = Some 0x03"
  "read_u16le local_image (code_at e 6) = Some 512"
  by (simp_all add: local_env_def code_size_def local_image_def code_at_def
      BCVM_IMAGE_HEADER_SIZE_def rd_def read_u32le_def read_u16le_def chunk_def u32_of_le_def u16_of_le_def)

lemma local_loop:
  assumes "vm_pc s = 0" "vm_steps s = 0" "vm_sp s = 0" "\<not> vm_fullscreen s" "length (vm_stack s) = 256"
  shows "\<exists>t. bcvm_loop (Suc (Suc n)) (local_env vfs) s = Fail t"
  using assms
  by (simp add: bcvm_iter_def bcvm_exec_simps op_push_i32_def op_store_local_def no_operand_def stack_full_def
      vm_limits BCVM_MAX_STEPS_def vm_u32_def vm_u16_def vm_push_def arr local_code Let_def)

text \<open>C7. The host compiler and the virtual machine disagree on the encoding of
  LOAD_LOCAL and STORE_LOCAL: the program \<open>int main() { int a = 1; return a; }\<close> compiles, and its image
  fails on every machine, because the second index byte that the machine reads is the next opcode.\<close>

theorem prismcc_locals_broken:
  assumes "static_ok s"
  shows "\<exists>c t. prismcc_compile 100 local_source = Ok c \<and> bytecode_vm_run (n + 2) vfs (vm_image c) s = Fail t"
proof -
  obtain c where c: "prismcc_compile 100 local_source = Ok c" "vm_image c = local_image"
    using local_compiled by (auto split: cc_res.splits)
  obtain t where t: "bcvm_reset s = Next t" using bcvm_reset_next [OF assms] by blast
  have "bytecode_vm_run (n + 2) vfs local_image s =
      bcvm_loop (Suc (Suc n)) (local_env vfs) (bcvm_start (ve_header (local_env vfs)) t)"
    using t local_header [of vfs] by (simp add: bytecode_vm_run_def local_env_def numeral_2_eq_2)
  moreover have "\<exists>u. bcvm_loop (Suc (Suc n)) (local_env vfs) (bcvm_start (ve_header (local_env vfs)) t) = Fail u"
    by (rule local_loop) (simp_all add: bcvm_start_def local_env_def vm_limits)
  ultimately show ?thesis using c by auto
qed

theorem prismcc_locals_broken_witness:
  "\<exists>c t. prismcc_compile 100 local_source = Ok c
    \<and> bytecode_vm_run (0 + 2) no_files (vm_image c) boot_vm = Fail t"
  by (rule prismcc_locals_broken) (rule boot_vm_static)

end
