(* ===== verification/App_Loader.thy ===== *)
theory App_Loader
  imports Prismcc_Exec
begin

text \<open>
  \<open>apps/app_loader.c\<close> and \<open>apps/app_runtime.c\<close>: from an application file to the program that runs it.
  The native applications (editor, IDE, bank) are parameters of the runtime. Then the way from
  the host compiler to the machine: what \<open>prismcc\<close> writes, the loader accepts and the runtime runs.
\<close>

section \<open>The loader\<close>

definition APP_LOADER_MAX_IMAGE_SIZE :: nat where "APP_LOADER_MAX_IMAGE_SIZE = 64 * 1024"

record prism_header =
  pa_magic :: u32
  pa_version :: u16
  pa_flags :: u16
  pa_entry_offset :: nat
  pa_image_size :: nat
  pa_reserved :: u32

text \<open>\<open>Some None\<close> is the source's \<open>-1\<close>, \<open>None\<close> a read outside the file.\<close>

definition parse_prism_header :: "bytes \<Rightarrow> prism_header option option" where
  "parse_prism_header file =
     (if length file < PRISM_APP_HEADER_SIZE then Some None
      else case (read_u32le file 0, read_u16le file 4, read_u16le file 6, read_u32le file 8,
                 read_u32le file 12, read_u32le file 16) of
        (Some magic, Some version, Some flags, Some entry, Some sz, Some rsv) \<Rightarrow>
          (let h = \<lparr>pa_magic = magic, pa_version = version, pa_flags = flags,
                    pa_entry_offset = unat entry, pa_image_size = unat sz, pa_reserved = rsv\<rparr>
           in if magic \<noteq> PRISM_APP_MAGIC \<or> version \<noteq> PRISM_APP_FORMAT_VERSION then Some None
              else if length file - PRISM_APP_HEADER_SIZE < pa_image_size h then Some None
              else if pa_image_size h \<le> pa_entry_offset h then Some None
              else Some (Some h))
      | _ \<Rightarrow> None)"

text \<open>The loaded image is the part of the file buffer behind the header; the buffer takes one byte more
  than the limit.\<close>

definition app_loader_load_image ::
    "'f vfs_ops \<Rightarrow> bytes \<Rightarrow> 'f \<Rightarrow> (bytes \<times> prism_header) option option \<times> 'f" where
  "app_loader_load_image vfs path fs =
     (case vfs_read_file vfs path (APP_LOADER_MAX_IMAGE_SIZE + 1) fs of
        (None, fs) \<Rightarrow> (Some None, fs)
      | (Some file, fs) \<Rightarrow>
          (case parse_prism_header file of
             None \<Rightarrow> (None, fs)
           | Some None \<Rightarrow> (Some None, fs)
           | Some (Some h) \<Rightarrow>
               (map_option (\<lambda>img. Some (img, h)) (chunk file PRISM_APP_HEADER_SIZE (pa_image_size h)), fs)))"

section \<open>The runtime\<close>

record 's native_apps =
  na_editor :: "bytes \<Rightarrow> 's \<Rightarrow> 's outcome" \<comment> \<open>arguments\<close>
  na_ide :: "bytes \<Rightarrow> 's \<Rightarrow> 's outcome"
  na_bank :: "bytes \<Rightarrow> 's \<Rightarrow> 's outcome"

definition is_bcvm :: "bytes \<Rightarrow> bool" where
  "is_bcvm img \<longleftrightarrow> 4 \<le> length img \<and> take 4 img = ascii ''BCVM''"

text \<open>The identifier of a native application: at most 15 bytes, up to a terminator.\<close>

definition app_id :: "bytes \<Rightarrow> bytes" where
  "app_id img = c_string (take 15 img)"

definition app_runtime_run ::
    "nat \<Rightarrow> 'f vm native_apps \<Rightarrow> 'f vfs_ops \<Rightarrow> bytes \<Rightarrow> bytes \<Rightarrow> 'f vm \<Rightarrow> 'f vm outcome" where
  "app_runtime_run fuel apps vfs img args s =
     (if img = [] then Fail s
      else if is_bcvm img then bytecode_vm_run fuel vfs img s
      else if app_id img = ascii ''EDITOR'' then na_editor apps args s
      else if app_id img = ascii ''IDE'' then na_ide apps args s
      else if app_id img = ascii ''BANK'' then na_bank apps args s
      else Fail s)"

definition app_runtime_run_driver ::
    "nat \<Rightarrow> u8 \<Rightarrow> 'f vfs_ops \<Rightarrow> bytes \<Rightarrow> 'f vm \<Rightarrow> 'f vm outcome" where
  "app_runtime_run_driver fuel loopback vfs img s =
     (if \<not> is_bcvm img then Fail s else bytecode_vm_run_driver fuel loopback vfs img s)"

section \<open>What the compiler keeps\<close>

text \<open>The buffers stay within their limits, and code once emitted is not taken back: \<open>b\<close> says that some
  is there.\<close>

definition sized :: "bool \<Rightarrow> compiler \<Rightarrow> bool" where
  "sized b c \<longleftrightarrow> length (cc_code c) \<le> MAX_CODE_SIZE \<and> length (cc_data c) \<le> MAX_DATA_SIZE
     \<and> (b \<longrightarrow> cc_code c \<noteq> [])"

definition keeps :: "('a \<Rightarrow> compiler) \<Rightarrow> bool \<Rightarrow> 'a cc_res \<Rightarrow> bool" where
  "keeps f b r \<longleftrightarrow> (\<forall>a. r = Ok a \<longrightarrow> sized b (f a))"

named_theorems keep

lemma keeps_Ok [keep]: "sized b (f a) \<Longrightarrow> keeps f b (Ok a)"
  by (simp add: keeps_def)

lemma keeps_Err [keep]: "keeps f b (Err e)" "keeps f b More" "keeps f b (fail_here c msg)"
  by (simp_all add: keeps_def)

lemma keeps_andthen [keep]:
  "keeps g b r \<Longrightarrow> (\<And>a. sized b (g a) \<Longrightarrow> keeps f b (k a)) \<Longrightarrow> keeps f b (andthen r k)"
  by (cases r) (auto simp: keeps_def)

lemma keeps_if [keep]: "(p \<Longrightarrow> keeps f b r) \<Longrightarrow> (\<not> p \<Longrightarrow> keeps f b q) \<Longrightarrow> keeps f b (if p then r else q)"
  by simp

lemma keeps_emit [keep]: "sized b c \<Longrightarrow> keeps (\<lambda>c. c) b (emit_u8 x c)"
  by (auto simp: keeps_def sized_def emit_u8_def)

lemma keeps_bytes [keep]: "sized b c \<Longrightarrow> keeps (\<lambda>c. c) b (emit_bytes xs c)"
proof (induction xs arbitrary: c)
  case (Cons x xs)
  then show ?case by (auto intro!: keep simp: Cons.IH)
qed (auto intro: keep)

lemma keeps_step [keep]:
  "sized b c \<Longrightarrow> keeps (\<lambda>c. c) b (emit_u16 h c)" "sized b c \<Longrightarrow> keeps (\<lambda>c. c) b (emit_u32 w c)"
  "sized b c \<Longrightarrow> keeps (\<lambda>c. c) b (next_token c)" "sized b c \<Longrightarrow> keeps (\<lambda>c. c) b (expect t msg c)"
  "sized b c \<Longrightarrow> keeps snd b (add_data bs c)" "sized b c \<Longrightarrow> keeps snd b (add_local name c)"
proof -
  show tok: "sized b c \<Longrightarrow> keeps (\<lambda>c. c) b (next_token c)"
    by (auto simp: keeps_def sized_def next_token_def andthen_Ok)
  show "sized b c \<Longrightarrow> keeps (\<lambda>c. c) b (emit_u16 h c)" "sized b c \<Longrightarrow> keeps (\<lambda>c. c) b (emit_u32 w c)"
    by (simp_all add: emit_u16_def emit_u32_def keep)
  show "sized b c \<Longrightarrow> keeps (\<lambda>c. c) b (expect t msg c)"
    using tok by (simp add: expect_def keep)
  show "sized b c \<Longrightarrow> keeps snd b (add_data bs c)" "sized b c \<Longrightarrow> keeps snd b (add_local name c)"
    by (auto simp: keeps_def sized_def add_data_def add_local_def Let_def)
qed

lemma keeps_expression [keep]:
  "sized b c \<Longrightarrow> keeps (\<lambda>c. c) b (parse_primary n c)"
  "sized b c \<Longrightarrow> keeps (\<lambda>c. c) b (parse_unary n c)"
  "sized b c \<Longrightarrow> keeps (\<lambda>c. c) b (parse_term n c)"
  "sized b c \<Longrightarrow> keeps (\<lambda>c. c) b (term_rest n c)"
  "sized b c \<Longrightarrow> keeps (\<lambda>c. c) b (parse_expression n c)"
  "sized b c \<Longrightarrow> keeps (\<lambda>c. c) b (expression_rest n c)"
  by (induction n c and n c and n c and n c and n c and n c
      rule: parse_primary_parse_unary_parse_term_term_rest_parse_expression_expression_rest.induct)
    (auto intro!: keep simp: Let_def split: option.split)

lemma keeps_statement:
  assumes "sized b c" "parse_statement n c b = Ok (d, b')"
  shows "sized b' d"
proof -
  have decl: "keeps (\<lambda>c. c) b (parse_declaration n c)"
    unfolding parse_declaration_def Let_def using assms(1) by (auto intro!: keep split: prod.split)
  have print: "keeps (\<lambda>c. c) b (parse_print c)"
    unfolding parse_print_def Let_def using assms(1) by (auto intro!: keep split: prod.split)
  have arg: "keeps (\<lambda>c. c) b (parse_argument n name c)" for name
    unfolding parse_argument_def using assms(1) by (auto intro!: keep)
  have asn: "keeps (\<lambda>c. c) b (parse_assignment n c)"
    unfolding parse_assignment_def Let_def using assms(1) by (auto intro!: keep split: option.split)
  have emitted: "sized True d" if "emit_u8 x e = Ok d" "sized b e" for x e d
    using that by (auto simp: emit_u8_def sized_def split: if_splits)
  have ret: "sized True d" if "next_token c = Ok a" "parse_expression n a = Ok f" "expect t m f = Ok g"
      "emit_u8 x g = Ok d" for a f g t m x
    using that assms(1) keeps_step(3) [of b c] keeps_expression(5) [of b a n] keeps_step(4) [of b f t m]
      emitted [of x g d] by (auto simp: keeps_def)
  have weak: "sized True e \<Longrightarrow> sized b e" for e by (simp add: sized_def)
  show ?thesis
    using assms(2) decl print arg asn ret emitted weak
    by (auto simp: parse_statement_def Let_def andthen_Ok keeps_def split: if_splits)
qed

lemma keeps_body: "sized b c \<Longrightarrow> parse_body n c b = Ok (d, b') \<Longrightarrow> sized b' d"
proof (induction n c b rule: parse_body.induct)
  case (2 n c b)
  show ?case
  proof (cases "tk_type (current c) = TOK_RBRACE \<or> tk_type (current c) = TOK_EOF")
    case False
    with 2(3) obtain e b1 where e: "parse_statement n c b = Ok (e, b1)" "parse_body n e b1 = Ok (d, b')"
      by (auto simp: andthen_Ok)
    show ?thesis using 2(1) [OF False keeps_statement [OF 2(2) e(1)] e(2)] by simp
  qed (use 2 in auto)
qed simp

lemma keeps_program:
  assumes "sized False c" "parse_program n c = Ok d"
  shows "sized True d"
proof -
  obtain c1 c2 c3 c4 c5 e b f g where s: "expect TOK_INT ''expected 'int' at program start'' c = Ok c1"
    "expect TOK_MAIN ''expected 'main' function'' c1 = Ok c2"
    "expect TOK_LPAREN ''expected '(' after main'' c2 = Ok c3"
    "expect TOK_RPAREN ''expected ')' after main'' c3 = Ok c4"
    "expect TOK_LBRACE ''expected '{' to start function body'' c4 = Ok c5"
    "parse_body n c5 False = Ok (e, b)"
    "expect TOK_RBRACE ''expected '}' to close function body'' e = Ok f"
    "expect TOK_EOF ''unexpected tokens after function'' f = Ok g"
    "(if b then Ok g else andthen (emit_u8 BCVM_OP_PUSH_I32 g)
        (\<lambda>c. andthen (emit_u32 0 c) (emit_u8 BCVM_OP_RET))) = Ok d"
    using assms(2) by (auto simp: parse_program_def andthen_Ok)
  have step: "sized b y" if "expect t m x = Ok y" "sized b x" for b t m x y
    using keeps_step(4) that by (fastforce simp: keeps_def)
  have "sized False c5" using s(1-5) assms(1) step by meson
  then have "sized b e" using keeps_body s(6) by blast
  then have g: "sized b g" using s(7,8) step by meson
  show ?thesis
  proof (cases b)
    case True
    with g s(9) show ?thesis by simp
  next
    case False
    then obtain x y where "emit_u8 BCVM_OP_PUSH_I32 g = Ok x" "emit_u32 0 x = Ok y" "emit_u8 BCVM_OP_RET y = Ok d"
      using s(9) by (auto simp: andthen_Ok)
    moreover from this have "sized False y"
      using g False keeps_emit [of False g] keeps_step(2) [of False x] by (auto simp: keeps_def)
    ultimately show ?thesis by (auto simp: emit_u8_def sized_def split: if_splits)
  qed
qed

lemma prismcc_compile_sized:
  assumes "prismcc_compile n source = Ok c"
  shows "sized True c"
proof -
  obtain d where d: "next_token (compiler_start source) = Ok d" "parse_program n d = Ok c"
    using assms by (auto simp: prismcc_compile_def andthen_Ok split: if_splits)
  have "sized False (compiler_start source)"
    by (simp add: sized_def compiler_start_def MAX_CODE_SIZE_def MAX_DATA_SIZE_def)
  with d(1) have "sized False d" using keeps_step(3) by (fastforce simp: keeps_def)
  then show ?thesis by (rule keeps_program [OF _ d(2)])
qed

section \<open>From the compiler to the machine\<close>

text \<open>Reading back a header field at its offset.\<close>

lemma read_at:
  "length xs = i \<Longrightarrow> read_u32le (xs @ le_of_u32 v @ ys) i = Some v"
  "length xs = i \<Longrightarrow> read_u16le (xs @ le_of_u16 w @ ys) i = Some w"
  using read_u32le_written [of xs v ys] read_u16le_written [of xs w ys] by auto

lemma vm_header_fields:
  fixes code data rest
  defines "img \<equiv> vm_header_bytes code data @ rest"
  shows "read_u32le img 0 = Some BCVM_MAGIC" "read_u16le img 4 = Some BCVM_VERSION"
    "read_u16le img 6 = Some 0" "read_u32le img 8 = Some (of_nat code)"
    "read_u32le img 12 = Some (of_nat data)" "read_u32le img 16 = Some 0"
proof -
  let ?a = "le_of_u32 BCVM_MAGIC" and ?b = "le_of_u16 BCVM_VERSION" and ?c = "le_of_u16 0"
    and ?d = "le_of_u32 (of_nat code)" and ?e = "le_of_u32 (of_nat data)" and ?f = "le_of_u32 0"
  show "read_u32le img 0 = Some BCVM_MAGIC" "read_u16le img 4 = Some BCVM_VERSION"
    "read_u16le img 6 = Some 0" "read_u32le img 8 = Some (of_nat code)"
    "read_u32le img 12 = Some (of_nat data)" "read_u32le img 16 = Some 0"
    using read_at(1) [of "[]" 0 BCVM_MAGIC] read_at(2) [of ?a 4 BCVM_VERSION]
      read_at(2) [of "?a @ ?b" 6 0] read_at(1) [of "?a @ ?b @ ?c" 8 "of_nat code"]
      read_at(1) [of "?a @ ?b @ ?c @ ?d" 12 "of_nat data"] read_at(1) [of "?a @ ?b @ ?c @ ?d @ ?e" 16 0]
    by (simp_all add: img_def vm_header_bytes_def)
qed

lemma prism_header_fields:
  fixes flags sz rest
  defines "file \<equiv> prism_header_bytes flags sz @ rest"
  shows "read_u32le file 0 = Some PRISM_APP_MAGIC" "read_u16le file 4 = Some PRISM_APP_FORMAT_VERSION"
    "read_u16le file 6 = Some flags" "read_u32le file 8 = Some 0"
    "read_u32le file 12 = Some (of_nat sz)" "read_u32le file 16 = Some 0"
proof -
  let ?a = "le_of_u32 PRISM_APP_MAGIC" and ?b = "le_of_u16 PRISM_APP_FORMAT_VERSION"
    and ?c = "le_of_u16 flags" and ?d = "le_of_u32 0" and ?e = "le_of_u32 (of_nat sz)"
  show "read_u32le file 0 = Some PRISM_APP_MAGIC" "read_u16le file 4 = Some PRISM_APP_FORMAT_VERSION"
    "read_u16le file 6 = Some flags" "read_u32le file 8 = Some 0"
    "read_u32le file 12 = Some (of_nat sz)" "read_u32le file 16 = Some 0"
    using read_at(1) [of "[]" 0 PRISM_APP_MAGIC] read_at(2) [of ?a 4 PRISM_APP_FORMAT_VERSION]
      read_at(2) [of "?a @ ?b" 6 flags] read_at(1) [of "?a @ ?b @ ?c" 8 0]
      read_at(1) [of "?a @ ?b @ ?c @ ?d" 12 "of_nat sz"] read_at(1) [of "?a @ ?b @ ?c @ ?d @ ?e" 16 0]
    by (simp_all add: file_def prism_header_bytes_def)
qed

lemma header_lengths [simp]:
  "length (vm_header_bytes code data) = 20" "length (prism_header_bytes flags sz) = 20"
  by (simp_all add: vm_header_bytes_def prism_header_bytes_def)

lemma vm_image_header:
  assumes "sized True c"
  shows "vm_read_header (vm_image c) (length (vm_image c)) =
    Some (Some \<lparr>h_magic = BCVM_MAGIC, h_version = BCVM_VERSION, h_reserved = 0,
      h_code_size = length (cc_code c), h_data_size = length (cc_data c), h_entry = 0\<rparr>)"
proof -
  have s: "length (cc_code c) \<le> 65536" "length (cc_data c) \<le> 32768" "0 < length (cc_code c)"
    using assms by (auto simp: sized_def MAX_CODE_SIZE_def MAX_DATA_SIZE_def)
  then have u: "unat (of_nat (length (cc_code c)) :: u32) = length (cc_code c)"
    "unat (of_nat (length (cc_data c)) :: u32) = length (cc_data c)"
    by (simp_all add: unat_of_nat)
  show ?thesis
    using s by (simp add: vm_read_header_def vm_image_def vm_header_fields Let_def u
        BCVM_IMAGE_HEADER_SIZE_def)
qed

lemma vm_image_is_bcvm: "is_bcvm (vm_image c)"
proof -
  have "take 4 (vm_image c) = le_of_u32 BCVM_MAGIC" by (simp add: vm_image_def vm_header_bytes_def)
  also have "\<dots> = ascii ''BCVM''" by code_simp
  finally show ?thesis by (simp add: is_bcvm_def vm_image_def)
qed

text \<open>C5. An application file written by the host compiler goes through the whole chain:
  when the file system delivers it, the loader returns exactly the image the compiler built, with entry
  0 and no driver flag, the runtime hands it to the virtual machine, and the machine accepts its header.\<close>

theorem prismcc_file_loads:
  assumes "prismcc_compile n source = Ok c"
    and "vfs_read_file vfs path (APP_LOADER_MAX_IMAGE_SIZE + 1) fs = (Some (write_output c), fs')"
  shows "\<exists>h hdr. app_loader_load_image vfs path fs = (Some (Some (vm_image c, h)), fs')
    \<and> pa_entry_offset h = 0 \<and> pa_flags h = 0
    \<and> app_runtime_run fuel apps vfs (vm_image c) args s = bytecode_vm_run fuel vfs (vm_image c) s
    \<and> vm_read_header (vm_image c) (length (vm_image c)) = Some (Some hdr)
    \<and> h_code_size hdr = length (cc_code c) \<and> h_data_size hdr = length (cc_data c)"
proof -
  have sz: "sized True c" using assms(1) by (rule prismcc_compile_sized)
  then have len: "length (cc_code c) \<le> 65536" "length (cc_data c) \<le> 32768"
    by (auto simp: sized_def MAX_CODE_SIZE_def MAX_DATA_SIZE_def)
  let ?n = "BCVM_IMAGE_HEADER_SIZE + length (cc_code c) + length (cc_data c)"
  have u: "unat (of_nat ?n :: u32) = ?n"
    using len by (simp add: unat_of_nat BCVM_IMAGE_HEADER_SIZE_def del: of_nat_add)
  have n: "length (vm_image c) = ?n" by (simp add: vm_image_def BCVM_IMAGE_HEADER_SIZE_def)
  define h where "h = \<lparr>pa_magic = PRISM_APP_MAGIC, pa_version = PRISM_APP_FORMAT_VERSION, pa_flags = 0,
    pa_entry_offset = 0, pa_image_size = ?n, pa_reserved = 0\<rparr>"
  have "parse_prism_header (write_output c) = Some (Some h)"
    using n by (simp add: parse_prism_header_def write_output_def prism_header_fields u [unfolded BCVM_IMAGE_HEADER_SIZE_def] Let_def h_def
        PRISM_APP_HEADER_SIZE_def BCVM_IMAGE_HEADER_SIZE_def del: of_nat_add)
  moreover have "chunk (write_output c) PRISM_APP_HEADER_SIZE ?n = Some (vm_image c)"
    using n by (simp add: chunk_def write_output_def PRISM_APP_HEADER_SIZE_def)
  ultimately have "app_loader_load_image vfs path fs = (Some (Some (vm_image c, h)), fs')"
    using assms(2) by (simp add: app_loader_load_image_def h_def)
  moreover have "app_runtime_run fuel apps vfs (vm_image c) args s = bytecode_vm_run fuel vfs (vm_image c) s"
    using vm_image_is_bcvm [of c] by (auto simp: app_runtime_run_def is_bcvm_def)
  ultimately show ?thesis using vm_image_header [OF sz] by (simp add: h_def)
qed

text \<open>A file system with one file.\<close>

definition one_file :: "bytes \<Rightarrow> unit vfs_ops" where
  "one_file file = \<lparr>vfs_read_file = (\<lambda>path cap fs. (Some file, fs)),
     vfs_write_file = (\<lambda>path str app fs. (False, fs)), vfs_path_is_dir = (\<lambda>path fs. (Some False, fs))\<rparr>"

theorem prismcc_file_loads_witness:
  "\<exists>c h. prismcc_compile 100 local_source = Ok c
    \<and> app_loader_load_image (one_file (write_output c)) [] () = (Some (Some (vm_image c, h)), ())"
proof -
  obtain c where c: "prismcc_compile 100 local_source = Ok c"
    using local_compiled by (auto split: cc_res.splits)
  have "vfs_read_file (one_file (write_output c)) [] (APP_LOADER_MAX_IMAGE_SIZE + 1) () = (Some (write_output c), ())"
    by (simp add: one_file_def)
  from prismcc_file_loads [OF c this] c show ?thesis by blast
qed

end
