(* ===== verification/Vfs_Path.thy ===== *)
theory Vfs_Path
  imports Prelude
begin

text \<open>
  Path handling of \<open>filesystem/vfs.c\<close>: an input path is resolved against the working directory into
  components, which are printed back as an absolute path. Paths are C strings without their
  terminator; \<open>None\<close> is the source's \<open>-1\<close>. The component table has 16 rows of 13 bytes.
\<close>

definition slash :: u8 where "slash = 47"
definition dot_component :: bytes where "dot_component = [46]"
definition dotdot_component :: bytes where "dotdot_component = [46, 46]"

definition path_push_component :: "bytes list \<Rightarrow> bytes \<Rightarrow> bytes list option" where
  "path_push_component comps component =
     (if 16 \<le> length comps then None
      else if 12 < length component then None
      else Some (comps @ [component]))"

lemma cursor_shrinks:
  assumes "dropWhile (\<lambda>ch. ch = slash) cursor \<noteq> []"
  shows "length (dropWhile (\<lambda>ch. ch \<noteq> slash) (dropWhile (\<lambda>ch. ch = slash) cursor)) < length cursor"
proof -
  obtain c cs where c: "dropWhile (\<lambda>ch. ch = slash) cursor = c # cs"
    using assms by (cases "dropWhile (\<lambda>ch. ch = slash) cursor") auto
  have "c \<noteq> slash" using hd_dropWhile [of "\<lambda>ch. ch = slash" cursor] unfolding c by simp
  then have "length (dropWhile (\<lambda>ch. ch \<noteq> slash) (c # cs)) \<le> length cs"
    using length_dropWhile_le [of "\<lambda>ch. ch \<noteq> slash" cs] by simp
  moreover have "length (c # cs) \<le> length cursor"
    using length_dropWhile_le [of "\<lambda>ch. ch = slash" cursor] unfolding c by simp
  ultimately show ?thesis unfolding c by simp
qed

function load_components :: "bytes \<Rightarrow> bytes list \<Rightarrow> bytes list option" where
  "load_components cursor comps =
     (let cursor = dropWhile (\<lambda>ch. ch = slash) cursor
      in if cursor = [] then Some comps
         else
           (let component = takeWhile (\<lambda>ch. ch \<noteq> slash) cursor;
                cursor = dropWhile (\<lambda>ch. ch \<noteq> slash) cursor
            in if 12 < length component then None
               else if component = dot_component then load_components cursor comps
               else if component = dotdot_component then load_components cursor (butlast comps)
               else case path_push_component comps component of
                   None \<Rightarrow> None
                 | Some comps \<Rightarrow> load_components cursor comps))"
  by pat_completeness auto

termination
  by (relation "measure (length \<circ> fst)") (simp_all add: cursor_shrinks del: dropWhile_eq_Nil_conv)

declare load_components.simps [simp del]

definition load_path_components :: "bytes \<Rightarrow> bytes list \<Rightarrow> bool \<Rightarrow> bytes list option" where
  "load_path_components path comps allow_relative =
     (if \<not> allow_relative \<and> (path = [] \<or> hd path \<noteq> slash) then None
      else load_components path comps)"

text \<open>The output loop of \<open>vfs_normalize_path\<close>.\<close>

fun join_components :: "nat \<Rightarrow> bytes \<Rightarrow> bytes list \<Rightarrow> bytes option" where
  "join_components capacity out [] = Some out"
| "join_components capacity out (c # cs) =
     (if capacity \<le> length out + length c + 1 then None
      else join_components capacity (out @ c @ (if cs = [] then [] else [slash])) cs)"

definition vfs_normalize_path :: "bytes \<Rightarrow> bytes \<Rightarrow> nat \<Rightarrow> bytes option" where
  "vfs_normalize_path cwd input capacity =
     (if capacity < 2 then None
      else case (if input \<noteq> [] \<and> hd input = slash
                 then load_path_components input [] False
                 else case load_path_components cwd [] False of
                        None \<Rightarrow> None
                      | Some comps \<Rightarrow> load_path_components input comps True) of
        None \<Rightarrow> None
      | Some comps \<Rightarrow> join_components capacity [slash] comps)"

section \<open>What the components are\<close>

text \<open>The reference: cut at the slashes, then walk.\<close>

fun segments :: "bytes \<Rightarrow> bytes list" where
  "segments [] = [[]]"
| "segments (ch # path) =
     (if ch = slash then [] # segments path
      else (case segments path of s # ss \<Rightarrow> (ch # s) # ss | [] \<Rightarrow> [[ch]]))"

definition walk :: "bytes list \<Rightarrow> bytes \<Rightarrow> bytes list" where
  "walk comps s =
     (if s = [] \<or> s = dot_component then comps
      else if s = dotdot_component then butlast comps
      else comps @ [s])"

lemma walk_component:
  "s \<noteq> [] \<Longrightarrow> walk comps s =
     (if s = dot_component then comps else if s = dotdot_component then butlast comps else comps @ [s])"
  by (simp add: walk_def)

lemma segments_not_Nil [simp]: "segments path \<noteq> []"
  by (induction path) (auto split: list.split)

lemma segments_take:
  "segments path = takeWhile (\<lambda>ch. ch \<noteq> slash) path
     # (case dropWhile (\<lambda>ch. ch \<noteq> slash) path of [] \<Rightarrow> [] | _ # rest \<Rightarrow> segments rest)"
  by (induction path) (auto split: list.split)

lemma walk_slashes: "foldl walk comps (segments (dropWhile (\<lambda>ch. ch = slash) path)) = foldl walk comps (segments path)"
  by (induction path) (auto simp: walk_def)

text \<open>The walk after a component continues behind its slash.\<close>

lemma walk_rest:
  "foldl walk comps (case dropWhile (\<lambda>ch. ch \<noteq> slash) path of [] \<Rightarrow> [] | _ # rest \<Rightarrow> segments rest)
   = foldl walk comps (segments (dropWhile (\<lambda>ch. ch \<noteq> slash) path))"
proof (cases "dropWhile (\<lambda>ch. ch \<noteq> slash) path")
  case (Cons ch rest)
  have "ch = slash" using hd_dropWhile [of "\<lambda>ch. ch \<noteq> slash" path] unfolding Cons by simp
  with Cons show ?thesis by (simp add: walk_def)
next
  case Nil
  show ?thesis unfolding Nil by (simp add: walk_def)
qed

lemma load_components_walk:
  "load_components path comps = Some cs \<Longrightarrow> cs = foldl walk comps (segments path)"
proof (induction path comps rule: load_components.induct)
  case (1 path comps)
  let ?p = "dropWhile (\<lambda>ch. ch = slash) path"
  let ?s = "takeWhile (\<lambda>ch. ch \<noteq> slash) ?p" and ?r = "dropWhile (\<lambda>ch. ch \<noteq> slash) ?p"
  show ?case
  proof (cases "?p = []")
    case True
    have "foldl walk comps (segments path) = comps"
      using walk_slashes [of comps path] unfolding True by (simp add: walk_def)
    with 1(4) True show ?thesis by (simp add: load_components.simps [of path])
  next
    case False
    have seg: "foldl walk comps (segments path) = foldl walk (walk comps ?s) (segments ?r)"
      unfolding walk_slashes [of comps path, symmetric]
      by (subst segments_take) (simp add: walk_rest)
    have "?s \<noteq> []"
    proof -
      have "hd ?p \<noteq> slash" using hd_dropWhile [OF False] .
      with False show ?thesis by (cases ?p) (simp_all del: dropWhile_eq_Nil_conv)
    qed
    then show ?thesis
      using 1 False seg
      by (simp del: dropWhile_eq_Nil_conv add: load_components.simps [of path] Let_def walk_component
          path_push_component_def split: if_splits)
  qed
qed

section \<open>Canonical paths\<close>

definition component_ok :: "bytes \<Rightarrow> bool" where
  "component_ok c \<longleftrightarrow> c \<noteq> [] \<and> slash \<notin> set c \<and> length c \<le> 12 \<and> c \<noteq> dot_component \<and> c \<noteq> dotdot_component"

definition components_ok :: "bytes list \<Rightarrow> bool" where
  "components_ok cs \<longleftrightarrow> length cs \<le> 16 \<and> list_all component_ok cs"

lemma components_ok_simps [simp]: "components_ok []" "components_ok cs \<Longrightarrow> components_ok (butlast cs)"
  by (auto simp: components_ok_def list_all_iff dest: in_set_butlastD)

lemma load_components_ok:
  "components_ok comps \<Longrightarrow> load_components path comps = Some cs \<Longrightarrow> components_ok cs"
proof (induction path comps rule: load_components.induct)
  case (1 path comps)
  let ?p = "dropWhile (\<lambda>ch. ch = slash) path"
  let ?s = "takeWhile (\<lambda>ch. ch \<noteq> slash) ?p"
  show ?case
  proof (cases "?p = []")
    case True
    then show ?thesis using 1(4,5) by (simp add: load_components.simps [of path])
  next
    case False
    have "hd ?p \<noteq> slash" using hd_dropWhile [OF False] .
    with False have "?s \<noteq> []" by (cases ?p) (simp_all del: dropWhile_eq_Nil_conv)
    moreover have "slash \<notin> set ?s" by (auto dest: set_takeWhileD)
    ultimately have "components_ok (comps @ [?s])"
      if "length comps < 16" "length ?s \<le> 12" "?s \<noteq> dot_component" "?s \<noteq> dotdot_component"
      using 1(4) that by (auto simp: components_ok_def component_ok_def)
    then show ?thesis
      using 1 False
      by (simp del: dropWhile_eq_Nil_conv add: load_components.simps [of path] Let_def
          path_push_component_def not_less not_le split: if_splits)
  qed
qed

text \<open>The text of a list of components behind the leading slash.\<close>

fun tail_text :: "bytes list \<Rightarrow> bytes" where
  "tail_text [] = []"
| "tail_text (c # cs) = c @ (if cs = [] then [] else slash # tail_text cs)"

lemma join_components_text:
  "join_components capacity out cs = Some r \<Longrightarrow> r = out @ tail_text cs \<and> (cs \<noteq> [] \<longrightarrow> length r < capacity)"
proof (induction capacity out cs rule: join_components.induct)
  case (2 capacity out c cs)
  then show ?case by (cases "cs = []") (auto split: if_splits)
qed simp

lemma load_components_slash: "load_components (slash # path) comps = load_components path comps"
  by (simp add: load_components.simps [of "slash # path"] load_components.simps [of path])

lemma load_components_text:
  "components_ok (comps @ cs) \<Longrightarrow> load_components (tail_text cs) comps = Some (comps @ cs)"
proof (induction cs arbitrary: comps)
  case Nil
  then show ?case by (simp add: load_components.simps)
next
  case (Cons c cs)
  have c: "c \<noteq> []" "slash \<notin> set c" "length c \<le> 12" "c \<noteq> dot_component" "c \<noteq> dotdot_component"
    and n: "length comps < 16"
    using Cons.prems by (auto simp: components_ok_def component_ok_def)
  let ?rest = "if cs = [] then [] else slash # tail_text cs"
  have start: "dropWhile (\<lambda>ch. ch = slash) (c @ ?rest) = c @ ?rest"
    using c(1,2) by (cases c) auto
  have "takeWhile (\<lambda>ch. ch \<noteq> slash) (c @ ?rest) = c" "dropWhile (\<lambda>ch. ch \<noteq> slash) (c @ ?rest) = ?rest"
  proof -
    have "\<forall>x \<in> set c. x \<noteq> slash" using c(2) by auto
    then show "takeWhile (\<lambda>ch. ch \<noteq> slash) (c @ ?rest) = c" "dropWhile (\<lambda>ch. ch \<noteq> slash) (c @ ?rest) = ?rest"
      by simp_all
  qed
  moreover have "load_components ?rest (comps @ [c]) = Some ((comps @ [c]) @ cs)"
  proof (cases "cs = []")
    case True
    then show ?thesis by (simp add: load_components.simps)
  next
    case False
    then show ?thesis
      using Cons.IH [of "comps @ [c]"] Cons.prems by (simp add: load_components_slash)
  qed
  ultimately show ?case
    using c n start
    by (simp add: load_components.simps [of "c @ ?rest"] Let_def path_push_component_def)
qed

lemma segments_append: "segments (a @ slash # b) = segments a @ segments b"
  by (induction a) (auto split: list.split)

text \<open>The path an input means.\<close>

definition meant :: "bytes \<Rightarrow> bytes \<Rightarrow> bytes" where
  "meant cwd input = (if input \<noteq> [] \<and> hd input = slash then input else cwd @ slash # input)"

lemma normalize_components:
  assumes "vfs_normalize_path cwd input capacity = Some r"
  obtains cs where "cs = foldl walk [] (segments (meant cwd input))" "components_ok cs"
    "join_components capacity [slash] cs = Some r" "2 \<le> capacity"
proof -
  obtain cs where j: "join_components capacity [slash] cs = Some r" and cap: "2 \<le> capacity"
    and cases: "(input \<noteq> [] \<and> hd input = slash \<and> load_components input [] = Some cs) \<or>
      (\<not> (input \<noteq> [] \<and> hd input = slash) \<and>
       (\<exists>comps. load_components cwd [] = Some comps \<and> load_components input comps = Some cs))"
    using assms by (auto simp: vfs_normalize_path_def load_path_components_def split: if_splits option.splits)
  have "cs = foldl walk [] (segments (meant cwd input)) \<and> components_ok cs"
    using cases
  proof (elim disjE conjE exE)
    assume "input \<noteq> []" "hd input = slash" "load_components input [] = Some cs"
    then show ?thesis
      using load_components_walk load_components_ok [of "[]"] by (auto simp: meant_def)
  next
    fix comps
    assume a: "\<not> (input \<noteq> [] \<and> hd input = slash)" "load_components cwd [] = Some comps"
      "load_components input comps = Some cs"
    have "components_ok comps" using load_components_ok [OF _ a(2)] by simp
    then have "components_ok cs" using load_components_ok [OF _ a(3)] by simp
    moreover have "cs = foldl walk (foldl walk [] (segments cwd)) (segments input)"
      using load_components_walk [OF a(2)] load_components_walk [OF a(3)] by simp
    ultimately show ?thesis using a(1) by (auto simp: meant_def segments_append)
  qed
  then show thesis using that j cap by blast
qed

section \<open>Properties\<close>

text \<open>C8. A path that normalises is the absolute text of the walk over the
  segments of the input, taken from the working directory when the input is relative: empty segments
  and dots stay, a double dot goes up and stops at the root, anything else goes down. No component is
  empty, a dot or a double dot, and the text with its terminator fits the buffer.\<close>

theorem vfs_normalize_resolves:
  assumes "vfs_normalize_path cwd input capacity = Some r"
  shows "\<exists>cs. cs = foldl walk [] (segments (meant cwd input)) \<and> components_ok cs
    \<and> r = slash # tail_text cs \<and> length r < capacity"
proof -
  obtain cs where cs: "cs = foldl walk [] (segments (meant cwd input))" "components_ok cs"
    "join_components capacity [slash] cs = Some r" "2 \<le> capacity"
    using assms by (rule normalize_components)
  have "r = slash # tail_text cs" "length r < capacity"
    using join_components_text [OF cs(3)] cs(4) by (cases "cs = []"; auto)+
  with cs(1,2) show ?thesis by blast
qed

text \<open>\<open>../a//b/./c/..\<close> from \<open>/x/y\<close> is \<open>/x/a/b\<close>.\<close>

theorem vfs_normalize_resolves_witness:
  "\<exists>cs. cs = foldl walk [] (segments (meant [47, 120, 47, 121]
      [46, 46, 47, 97, 47, 47, 98, 47, 46, 47, 99, 47, 46, 46])) \<and> cs = [[120], [97], [98]]"
proof -
  have "vfs_normalize_path [47, 120, 47, 121] [46, 46, 47, 97, 47, 47, 98, 47, 46, 47, 99, 47, 46, 46] 64
      = Some [47, 120, 47, 97, 47, 98]" by code_simp
  moreover have "foldl walk [] (segments (meant [47, 120, 47, 121]
      [46, 46, 47, 97, 47, 47, 98, 47, 46, 47, 99, 47, 46, 46])) = [[120], [97], [98]]" by code_simp
  ultimately show ?thesis using vfs_normalize_resolves by blast
qed

text \<open>A normalised path normalises to itself, from any working directory and
  in a buffer of the same size.\<close>

theorem vfs_normalize_idempotent:
  assumes "vfs_normalize_path cwd input capacity = Some r"
  shows "vfs_normalize_path cwd' r capacity = Some r"
proof -
  obtain cs where cs: "components_ok cs" "join_components capacity [slash] cs = Some r" "2 \<le> capacity"
    using assms by (rule normalize_components)
  have "r = slash # tail_text cs" using join_components_text [OF cs(2)] by simp
  then have "load_path_components r [] False = Some cs"
    using load_components_text [of "[]" cs] cs(1) by (simp add: load_path_components_def load_components_slash)
  with \<open>r = slash # tail_text cs\<close> cs(2,3) show ?thesis by (simp add: vfs_normalize_path_def)
qed

theorem vfs_normalize_idempotent_witness:
  "vfs_normalize_path [47] [47, 120] 64 = Some [47, 120]"
proof -
  have "vfs_normalize_path [47, 121] [46, 46, 47, 120] 64 = Some [47, 120]" by code_simp
  then show ?thesis by (rule vfs_normalize_idempotent)
qed

end
