(* ===== verification/Sha256.thy ===== *)
theory Sha256
  imports Prelude
begin

text \<open>
  \<open>util/sha256.c\<close>: the streaming SHA-256 the package manager checks downloads with. The block buffer
  is a checked array. The second half states the standard (FIPS 180-4) on whole messages and shows
  that the streaming code computes it.
\<close>

section \<open>The code\<close>

definition round_constants :: "u32 list" where
  "round_constants =
    [0x428A2F98, 0x71374491, 0xB5C0FBCF, 0xE9B5DBA5,
     0x3956C25B, 0x59F111F1, 0x923F82A4, 0xAB1C5ED5,
     0xD807AA98, 0x12835B01, 0x243185BE, 0x550C7DC3,
     0x72BE5D74, 0x80DEB1FE, 0x9BDC06A7, 0xC19BF174,
     0xE49B69C1, 0xEFBE4786, 0x0FC19DC6, 0x240CA1CC,
     0x2DE92C6F, 0x4A7484AA, 0x5CB0A9DC, 0x76F988DA,
     0x983E5152, 0xA831C66D, 0xB00327C8, 0xBF597FC7,
     0xC6E00BF3, 0xD5A79147, 0x06CA6351, 0x14292967,
     0x27B70A85, 0x2E1B2138, 0x4D2C6DFC, 0x53380D13,
     0x650A7354, 0x766A0ABB, 0x81C2C92E, 0x92722C85,
     0xA2BFE8A1, 0xA81A664B, 0xC24B8B70, 0xC76C51A3,
     0xD192E819, 0xD6990624, 0xF40E3585, 0x106AA070,
     0x19A4C116, 0x1E376C08, 0x2748774C, 0x34B0BCB5,
     0x391C0CB3, 0x4ED8AA4A, 0x5B9CCA4F, 0x682E6FF3,
     0x748F82EE, 0x78A5636F, 0x84C87814, 0x8CC70208,
     0x90BEFFFA, 0xA4506CEB, 0xBEF9A3F7, 0xC67178F2]"

record sha256_context =
  sha_state :: "u32 list"
  bit_count :: u64
  sha_block :: bytes
  block_length :: nat

definition rotate_right :: "u32 \<Rightarrow> nat \<Rightarrow> u32" where
  "rotate_right v n = drop_bit n v OR push_bit (32 - n) v"

definition write_be64 :: "u64 \<Rightarrow> bytes" where
  "write_be64 v = map (\<lambda>index. ucast (drop_bit (56 - index * 8) v)) [0..<8]"

text \<open>The first loop of \<open>transform\<close> reads the block, the second extends the schedule to 64 words.\<close>

definition block_words :: "bytes \<Rightarrow> u32 list option" where
  "block_words b = those (map (\<lambda>index. read_be32 b (index * 4)) [0..<16])"

primrec extend_words :: "nat \<Rightarrow> u32 list \<Rightarrow> u32 list" where
  "extend_words 0 ws = ws"
| "extend_words (Suc n) ws =
     (let index = length ws;
          x = ws ! (index - 15);
          y = ws ! (index - 2);
          s0 = rotate_right x 7 XOR rotate_right x 18 XOR drop_bit 3 x;
          s1 = rotate_right y 17 XOR rotate_right y 19 XOR drop_bit 10 y
      in extend_words n (ws @ [ws ! (index - 16) + s0 + ws ! (index - 7) + s1]))"

type_synonym sha_vars = "u32 \<times> u32 \<times> u32 \<times> u32 \<times> u32 \<times> u32 \<times> u32 \<times> u32"

fun sha_round :: "sha_vars \<Rightarrow> u32 \<times> u32 \<Rightarrow> sha_vars" where
  "sha_round (a, b, c, d, e, f, g, h) (k, w) =
     (let s1 = rotate_right e 6 XOR rotate_right e 11 XOR rotate_right e 25;
          choice = (e AND f) XOR (NOT e AND g);
          temp1 = h + s1 + choice + k + w;
          s0 = rotate_right a 2 XOR rotate_right a 13 XOR rotate_right a 22;
          majority = (a AND b) XOR (a AND c) XOR (b AND c);
          temp2 = s0 + majority
      in (temp1 + temp2, a, b, c, d + temp1, e, f, g))"

fun sha_load :: "u32 list \<Rightarrow> sha_vars" where
  "sha_load [a, b, c, d, e, f, g, h] = (a, b, c, d, e, f, g, h)"
| "sha_load _ = (0, 0, 0, 0, 0, 0, 0, 0)"

fun sha_add :: "u32 list \<Rightarrow> sha_vars \<Rightarrow> u32 list" where
  "sha_add st (a, b, c, d, e, f, g, h) = map (\<lambda>(x, y). x + y) (zip st [a, b, c, d, e, f, g, h])"

definition sha_transform :: "u32 list \<Rightarrow> bytes \<Rightarrow> u32 list option" where
  "sha_transform st b =
     (case block_words b of
        None \<Rightarrow> None
      | Some ws \<Rightarrow>
          Some (sha_add st (foldl sha_round (sha_load st) (zip round_constants (extend_words 48 ws)))))"

definition initial_state :: "u32 list" where
  "initial_state =
    [0x6A09E667, 0xBB67AE85, 0x3C6EF372, 0xA54FF53A,
     0x510E527F, 0x9B05688C, 0x1F83D9AB, 0x5BE0CD19]"

text \<open>\<open>sha256_init\<close> leaves the block buffer as it is.\<close>

definition sha256_init :: "sha256_context \<Rightarrow> sha256_context" where
  "sha256_init ctx = ctx\<lparr>sha_state := initial_state, bit_count := 0, block_length := 0\<rparr>"

text \<open>One turn of the loop of \<open>sha256_update\<close>.\<close>

definition sha256_byte :: "u8 \<Rightarrow> sha256_context \<Rightarrow> sha256_context option" where
  "sha256_byte x ctx =
     (case wr (sha_block ctx) (block_length ctx) x of
        None \<Rightarrow> None
      | Some b \<Rightarrow>
          (let ctx = ctx\<lparr>sha_block := b, block_length := add32 (block_length ctx) 1\<rparr>
           in if block_length ctx = 64
              then (case sha_transform (sha_state ctx) b of
                      None \<Rightarrow> None
                    | Some st \<Rightarrow>
                        Some (ctx\<lparr>sha_state := st, bit_count := bit_count ctx + 512,
                                  block_length := 0\<rparr>))
              else Some ctx))"

primrec sha256_update :: "bytes \<Rightarrow> sha256_context \<Rightarrow> sha256_context option" where
  "sha256_update [] ctx = Some ctx"
| "sha256_update (x # xs) ctx =
     (case sha256_byte x ctx of None \<Rightarrow> None | Some ctx \<Rightarrow> sha256_update xs ctx)"

text \<open>\<open>while (index < limit) block[index++] = 0\<close>, over the cells that are left.\<close>

fun fill_zero :: "bytes \<Rightarrow> nat list \<Rightarrow> bytes option" where
  "fill_zero b [] = Some b"
| "fill_zero b (i # is) = (case wr b i 0 of None \<Rightarrow> None | Some b \<Rightarrow> fill_zero b is)"

definition sha256_final :: "sha256_context \<Rightarrow> bytes option" where
  "sha256_final ctx =
     (let index = block_length ctx;
          bits = bit_count ctx + of_nat index * 8
      in case wr (sha_block ctx) index 0x80 of
           None \<Rightarrow> None
         | Some b \<Rightarrow>
             (let index = add32 index 1
              in case (if 56 < index
                       then (case fill_zero b [index..<64] of
                               None \<Rightarrow> None
                             | Some b \<Rightarrow>
                                 (case sha_transform (sha_state ctx) b of
                                    None \<Rightarrow> None
                                  | Some st \<Rightarrow> Some (b, 0, st)))
                       else Some (b, index, sha_state ctx)) of
                   None \<Rightarrow> None
                 | Some (b, index, st) \<Rightarrow>
                     (case fill_zero b [index..<56] of
                        None \<Rightarrow> None
                      | Some b \<Rightarrow>
                          (case blit b 56 (write_be64 bits) of
                             None \<Rightarrow> None
                           | Some b \<Rightarrow>
                               (case sha_transform st b of
                                  None \<Rightarrow> None
                                | Some st \<Rightarrow> Some (concat (map be_of_u32 st)))))))"

text \<open>The calls a client makes: one \<open>sha256_update\<close> per piece of the message.\<close>

definition sha256_pieces :: "bytes list \<Rightarrow> sha256_context \<Rightarrow> bytes option" where
  "sha256_pieces ps ctx =
     (case foldl (\<lambda>c p. case c of None \<Rightarrow> None | Some c \<Rightarrow> sha256_update p c)
             (Some (sha256_init ctx)) ps of
        None \<Rightarrow> None
      | Some ctx \<Rightarrow> sha256_final ctx)"

section \<open>The standard\<close>

text \<open>
  FIPS 180-4, sections 4.1.2, 5.1.1 and 6.2, on the whole message: the message schedule is a
  function of the word index, rotations are those of the word library, the padding is computed
  from the length of the message.
\<close>

fun fips_w :: "bytes \<Rightarrow> nat \<Rightarrow> u32" where
  "fips_w b t =
     (if t < 16 then u32_of_le (b ! (4 * t + 3)) (b ! (4 * t + 2)) (b ! (4 * t + 1)) (b ! (4 * t))
      else (let x = fips_w b (t - 15); y = fips_w b (t - 2)
            in (word_rotr 17 y XOR word_rotr 19 y XOR drop_bit 10 y) + fips_w b (t - 7)
               + (word_rotr 7 x XOR word_rotr 18 x XOR drop_bit 3 x) + fips_w b (t - 16)))"

declare fips_w.simps [simp del]

fun fips_step :: "bytes \<Rightarrow> sha_vars \<Rightarrow> nat \<Rightarrow> sha_vars" where
  "fips_step m (a, b, c, d, e, f, g, h) t =
     (let t1 = h + (word_rotr 6 e XOR word_rotr 11 e XOR word_rotr 25 e)
               + ((e AND f) XOR (NOT e AND g)) + round_constants ! t + fips_w m t;
          t2 = (word_rotr 2 a XOR word_rotr 13 a XOR word_rotr 22 a)
               + ((a AND b) XOR (a AND c) XOR (b AND c))
      in (t1 + t2, a, b, c, d + t1, e, f, g))"

definition fips_compress :: "u32 list \<Rightarrow> bytes \<Rightarrow> u32 list" where
  "fips_compress st m = sha_add st (foldl (fips_step m) (sha_load st) [0..<64])"

definition fips_blocks :: "bytes \<Rightarrow> bytes list" where
  "fips_blocks m = map (\<lambda>i. take 64 (drop (64 * i) m)) [0..<length m div 64]"

definition fips_length :: "nat \<Rightarrow> bytes" where
  "fips_length n = map (\<lambda>i. of_nat (n div 256 ^ (7 - i))) [0..<8]"

definition fips_pad :: "bytes \<Rightarrow> bytes" where
  "fips_pad m =
     m @ [0x80] @ replicate ((119 - length m mod 64) mod 64) 0 @ fips_length (8 * length m)"

definition fips_sha256 :: "bytes \<Rightarrow> bytes" where
  "fips_sha256 m = concat (map be_of_u32 (foldl fips_compress initial_state (fips_blocks (fips_pad m))))"

section \<open>One block\<close>

lemma rotate_right_rotr: "n \<le> 32 \<Longrightarrow> rotate_right v n = word_rotr n v"
proof (rule bit_word_eqI)
  fix i assume n: "n \<le> 32" and "i < LENGTH(32)"
  then have i: "i < 32" by simp
  have l: "bit (rotate_right v n) i \<longleftrightarrow> bit v (i + n) \<or> 32 - n \<le> i \<and> bit v (i - (32 - n))"
    using i n by (auto simp: rotate_right_def bit_simps add.commute)
  have r: "bit (word_rotr n v) i \<longleftrightarrow> bit v ((i + n) mod 32)"
    using i by (simp add: bit_word_rotr_iff)
  have b: "\<not> bit v j" if "32 \<le> j" for j
    using that bit_imp_le_length [of v j] by auto
  show "bit (rotate_right v n) i \<longleftrightarrow> bit (word_rotr n v) i"
  proof (cases "i + n < 32")
    case True
    then show ?thesis using n unfolding l r by auto
  next
    case False
    then have "(i + n) mod 32 = i - (32 - n)" using i n by (simp add: mod_if)
    then show ?thesis using False b unfolding l r by auto
  qed
qed

lemma block_words_fips: "length b = 64 \<Longrightarrow> block_words b = Some (map (fips_w b) [0..<16])"
  unfolding block_words_def by (simp add: upt_rec arr fips_w.simps)

lemma extend_words_fips:
  "16 \<le> k \<Longrightarrow> extend_words n (map (fips_w b) [0..<k]) = map (fips_w b) [0..<k + n]"
proof (induction n arbitrary: k)
  case 0
  then show ?case by simp
next
  case (Suc n)
  have "extend_words (Suc n) (map (fips_w b) [0..<k]) = extend_words n (map (fips_w b) [0..<Suc k])"
    using Suc.prems by (simp add: Let_def rotate_right_rotr fips_w.simps [of b k] algebra_simps)
  then show ?case using Suc.IH [of "Suc k"] Suc.prems by simp
qed

lemma sha_round_fips:
  "sha_round vs (round_constants ! t, fips_w m t) = fips_step m vs t"
  by (cases "(m, vs, t)" rule: fips_step.cases) (simp add: Let_def rotate_right_rotr)

lemma sha_rounds_fips:
  "foldl sha_round vs (map (\<lambda>t. (round_constants ! t, fips_w m t)) ts) = foldl (fips_step m) vs ts"
  by (induction ts arbitrary: vs) (simp_all add: sha_round_fips)

lemma zip_map_map_same: "zip (map f xs) (map g xs) = map (\<lambda>x. (f x, g x)) xs"
  by (induction xs) simp_all

lemma sha_transform_fips:
  assumes "length b = 64"
  shows "sha_transform st b = Some (fips_compress st b)"
proof -
  have "length round_constants = 64" by (simp add: round_constants_def)
  then have "round_constants = map ((!) round_constants) [0..<64]"
    by (intro nth_equalityI) simp_all
  then have "zip round_constants (map (fips_w b) [0..<64])
      = map (\<lambda>t. (round_constants ! t, fips_w b t)) [0..<64]"
    by (metis zip_map_map_same)
  then show ?thesis
    unfolding sha_transform_def block_words_fips [OF assms] fips_compress_def
    using extend_words_fips [of 16 48 b] by (simp add: sha_rounds_fips)
qed

section \<open>The stream\<close>

definition absorbed :: "sha256_context \<Rightarrow> bytes \<Rightarrow> bool" where
  "absorbed ctx m \<longleftrightarrow>
     length (sha_block ctx) = 64 \<and> block_length ctx = length m mod 64
     \<and> take (length m mod 64) (sha_block ctx) = drop (64 * (length m div 64)) m
     \<and> bit_count ctx = of_nat (512 * (length m div 64))
     \<and> sha_state ctx = foldl fips_compress initial_state (fips_blocks m)"

lemma fips_blocks_partial:
  assumes "length m mod 64 + length p < 64"
  shows "fips_blocks (m @ p) = fips_blocks m"
proof -
  define q k where "q = length m div 64" "k = length m mod 64"
  then have m: "length m = 64 * q + k" by simp
  have "(64 * q + (k + length p)) div 64 = q"
    using assms unfolding q_k_def(2) [symmetric] by (intro div_nat_eqI) simp_all
  then have "fips_blocks (m @ p) = map (\<lambda>i. take 64 (drop (64 * i) (m @ p))) [0..<q]"
    by (simp add: fips_blocks_def m add.assoc)
  also have "\<dots> = fips_blocks m"
    unfolding fips_blocks_def q_k_def(1) [symmetric]
    by (rule map_cong [OF refl]) (simp add: m)
  finally show ?thesis .
qed

lemma fips_blocks_full:
  assumes "length m mod 64 + length p = 64"
  shows "fips_blocks (m @ p) = fips_blocks m @ [drop (64 * (length m div 64)) m @ p]"
proof -
  define q k where "q = length m div 64" "k = length m mod 64"
  then have m: "length m = 64 * q + k" "k + length p = 64" "length m div 64 = q"
    using assms by simp_all
  then have "length (m @ p) div 64 = Suc q" by simp
  then have "fips_blocks (m @ p)
      = map (\<lambda>i. take 64 (drop (64 * i) (m @ p))) [0..<q] @ [take 64 (drop (64 * q) (m @ p))]"
    by (simp add: fips_blocks_def)
  also have "map (\<lambda>i. take 64 (drop (64 * i) (m @ p))) [0..<q] = fips_blocks m"
    unfolding fips_blocks_def q_k_def(1) [symmetric]
    by (rule map_cong [OF refl]) (simp add: m)
  finally show ?thesis unfolding m(3) using m(1,2) by simp
qed

lemma fips_blocks_append:
  assumes "length m mod 64 = 0"
  shows "length p = 64 \<Longrightarrow> fips_blocks (m @ p) = fips_blocks m @ [p]"
  using fips_blocks_full [of m p] assms by (simp add: minus_mod_eq_mult_div [symmetric])

lemma absorbed_init: "length (sha_block ctx) = 64 \<Longrightarrow> absorbed (sha256_init ctx) []"
  by (simp add: absorbed_def sha256_init_def fips_blocks_def)

lemma absorbed_byte:
  assumes "absorbed ctx m"
  obtains ctx' where "sha256_byte x ctx = Some ctx'" "absorbed ctx' (m @ [x])"
proof -
  define q k where "q = length m div 64" "k = length m mod 64"
  then have m: "length m = 64 * q + k" and k: "k < 64" by simp_all
  note d = q_k_def [symmetric]
  note a = assms [unfolded absorbed_def d]
  let ?b = "(sha_block ctx)[k := x]"
  have b: "take (Suc k) ?b = drop (64 * q) m @ [x]"
    using a k by (simp add: take_Suc_conv_app_nth)
  have l: "length (m @ [x]) = 64 * q + (k + 1)" using m by simp
  show ?thesis
  proof (cases "k = 63")
    case True
    have "length (m @ [x]) div 64 = q + 1" "length (m @ [x]) mod 64 = 0"
      unfolding l True by simp_all
    moreover have "fips_blocks (m @ [x]) = fips_blocks m @ [?b]"
      using fips_blocks_full [of m "[x]"] True b a unfolding d by simp
    ultimately have inv: "absorbed (ctx\<lparr>sha_block := ?b, block_length := 0,
        sha_state := fips_compress (sha_state ctx) ?b, bit_count := bit_count ctx + 512\<rparr>) (m @ [x])"
      using a m True by (simp add: absorbed_def)
    have "sha256_byte x ctx = Some (ctx\<lparr>sha_block := ?b, block_length := 0,
        sha_state := fips_compress (sha_state ctx) ?b, bit_count := bit_count ctx + 512\<rparr>)"
      using a True by (simp add: sha256_byte_def arr sha_transform_fips Let_def)
    from this inv show ?thesis by (rule that)
  next
    case False
    have "length (m @ [x]) div 64 = q" "length (m @ [x]) mod 64 = Suc k"
      unfolding l using False k by simp_all
    moreover have "fips_blocks (m @ [x]) = fips_blocks m"
      using fips_blocks_partial [of m "[x]"] False k unfolding d by simp
    ultimately have inv: "absorbed (ctx\<lparr>sha_block := ?b, block_length := Suc k\<rparr>) (m @ [x])"
      using a m b by (simp add: absorbed_def)
    have "sha256_byte x ctx = Some (ctx\<lparr>sha_block := ?b, block_length := Suc k\<rparr>)"
      using a False k by (simp add: sha256_byte_def arr Let_def)
    from this inv show ?thesis by (rule that)
  qed
qed

lemma absorbed_update:
  "absorbed ctx m \<Longrightarrow> \<exists>ctx'. sha256_update p ctx = Some ctx' \<and> absorbed ctx' (m @ p)"
proof (induction p arbitrary: ctx m)
  case (Cons x p)
  from Cons.prems obtain ctx' where c: "sha256_byte x ctx = Some ctx'" "absorbed ctx' (m @ [x])"
    by (rule absorbed_byte)
  from Cons.IH [OF c(2)] c(1) show ?case by simp
qed simp

section \<open>The end of the message\<close>

lemma fill_zero_upt:
  "j \<le> length b \<Longrightarrow> i \<le> j \<Longrightarrow>
   fill_zero b [i..<j] = Some (take i b @ replicate (j - i) 0 @ drop j b)"
proof (induction "j - i" arbitrary: b i)
  case (Suc n)
  then have i: "i < j" by simp
  have "fill_zero b [i..<j] = fill_zero (b[i := 0]) [Suc i..<j]"
    using i Suc.prems by (simp add: upt_conv_Cons arr)
  also have "\<dots> = Some (take (Suc i) (b[i := 0]) @ replicate (j - Suc i) 0 @ drop j (b[i := 0]))"
    using Suc i by (intro Suc.hyps(1)) simp_all
  also have "take (Suc i) (b[i := 0]) = take i b @ [0]"
    using i Suc.prems by (simp add: take_Suc_conv_app_nth)
  finally show ?case using i by (simp add: Suc_diff_Suc [symmetric])
qed simp

lemma length_bytes: "write_be64 (of_nat n) = fips_length n"
proof -
  have "ucast (drop_bit (56 - i * 8) (of_nat n :: u64)) = (of_nat (n div 256 ^ (7 - i)) :: u8)"
    if "i < 8" for i
  proof -
    have "(256 :: nat) ^ (7 - i) = 2 ^ (56 - i * 8)"
      using power_mult [of "2 :: nat" 8 "7 - i"] by (simp add: right_diff_distrib' mult.commute)
    then have "n div 256 ^ (7 - i) = drop_bit (56 - i * 8) n" by (simp add: drop_bit_eq_div)
    then show ?thesis using that
      by (intro bit_word_eqI) (auto simp: bit_simps)
  qed
  then show ?thesis unfolding write_be64_def fips_length_def by simp
qed

lemma write_be64_length [simp]: "length (write_be64 v) = 8" "length (fips_length n) = 8"
  by (simp_all add: write_be64_def fips_length_def)

lemma absorbed_final:
  assumes "absorbed ctx m"
  shows "sha256_final ctx = Some (fips_sha256 m)"
proof -
  define q k where "q = length m div 64" "k = length m mod 64"
  then have m: "length m = 64 * q + k" and k: "k < 64" by simp_all
  note d = q_k_def [symmetric]
  note a = assms [unfolded absorbed_def d]
  let ?b = "(sha_block ctx)[k := 0x80]" and ?t = "drop (64 * q) m" and ?l = "fips_length (8 * length m)"
  have t: "take (Suc k) ?b = ?t @ [0x80]"
    using a k by (simp add: take_Suc_conv_app_nth)
  have "bit_count ctx + of_nat k * 8 = of_nat (8 * length m)"
    using a m by simp
  then have bits: "write_be64 (bit_count ctx + of_nat k * 8) = ?l"
    by (metis length_bytes)
  have lt: "length ?t = k" using m by simp
  show ?thesis
  proof (cases "k < 56")
    case True
    let ?p = "[0x80] @ replicate (55 - k) 0 @ ?l"
    have "fips_pad m = m @ ?p" using True unfolding fips_pad_def d by (simp add: mod_if)
    then have "fips_blocks (fips_pad m) = fips_blocks m @ [?t @ ?p]"
      using fips_blocks_full [of m ?p] True unfolding d by simp
    moreover have "take 56 (take (Suc k) ?b @ replicate (55 - k) 0 @ drop 56 ?b) = ?t @ [0x80] @ replicate (55 - k) 0"
      unfolding t using True lt by (simp add: Suc_diff_le numeral_eq_Suc)
    ultimately show ?thesis
      using True a lt bits
      by (simp add: sha256_final_def Let_def arr fill_zero_upt sha_transform_fips t fips_sha256_def)
  next
    case False
    let ?p = "[0x80] @ replicate (63 - k) 0" and ?r = "replicate 56 0 @ ?l"
    have "119 - k = (63 - k) + 56" using k by simp
    then have "replicate (119 - k) (0 :: u8) = replicate (63 - k) 0 @ replicate 56 0"
      by (simp only: replicate_add)
    then have "fips_pad m = (m @ ?p) @ ?r"
      using False k unfolding fips_pad_def d by simp
    moreover have "fips_blocks (m @ ?p) = fips_blocks m @ [?t @ ?p]"
      using fips_blocks_full [of m ?p] k unfolding d by simp
    moreover have "length (m @ ?p) mod 64 = 0" using m k by simp
    then have "fips_blocks ((m @ ?p) @ ?r) = fips_blocks (m @ ?p) @ [?r]"
      by (rule fips_blocks_append) simp
    ultimately have "fips_blocks (fips_pad m) = fips_blocks m @ [?t @ ?p, ?r]" by simp
    then show ?thesis
      using False a lt bits k
      by (simp add: sha256_final_def Let_def arr fill_zero_upt sha_transform_fips t fips_sha256_def)
  qed
qed

text \<open>
  C19. However a message is cut into pieces for \<open>sha256_update\<close>, the digest is the
  one FIPS 180-4 defines for the whole message, and no access leaves the block buffer; what was in the
  context before \<open>sha256_init\<close> does not matter.
\<close>

theorem sha256_standard:
  assumes "length (sha_block ctx) = 64"
  shows "sha256_pieces ps ctx = Some (fips_sha256 (concat ps))"
proof -
  have "\<exists>c'. foldl (\<lambda>c p. case c of None \<Rightarrow> None | Some c \<Rightarrow> sha256_update p c) (Some c) ps = Some c'
      \<and> absorbed c' (m @ concat ps)" if "absorbed c m" for c m
    using that
  proof (induction ps arbitrary: c m)
    case (Cons p ps)
    obtain c' where c': "sha256_update p c = Some c'" "absorbed c' (m @ p)"
      using absorbed_update [OF Cons.prems] by blast
    from Cons.IH [OF c'(2)] c'(1) show ?case by simp
  qed simp
  from this [OF absorbed_init [OF assms]] show ?thesis
    by (auto simp: sha256_pieces_def absorbed_final)
qed

theorem sha256_standard_witness:
  "sha256_pieces [[0x61], [0x62, 0x63]]
     \<lparr>sha_state = [], bit_count = 7, sha_block = replicate 64 1, block_length = 99\<rparr>
   = Some (fips_sha256 [0x61, 0x62, 0x63])"
  using sha256_standard [of "\<lparr>sha_state = [], bit_count = 7, sha_block = replicate 64 1,
      block_length = 99\<rparr>" "[[0x61], [0x62, 0x63]]"] by simp

end
