(* ===== verification/Clipboard.thy ===== *)
theory Clipboard
  imports Comport
begin

text \<open>
  \<open>util/clipboard.c\<close>: the kernel clipboard, which also sends what it holds to the serial terminal as
  an OSC 52 sequence in base64. The serial line is the one of \<open>Comport\<close>.
\<close>

definition PRISMOS_CLIPBOARD_CAPACITY :: nat where "PRISMOS_CLIPBOARD_CAPACITY = 16384"

definition base64_alphabet :: bytes where
  "base64_alphabet = map (of_nat \<circ> of_char)
     ''ABCDEFGHIJKLMNOPQRSTUVWXYZabcdefghijklmnopqrstuvwxyz0123456789+/''"

record clip =
  clip_text :: bytes
  clip_size :: nat
  clip_port :: serial

definition clipboard_clear :: "clip \<Rightarrow> clip option" where
  "clipboard_clear c =
     (case wr (clip_text c) 0 0 of
        None \<Rightarrow> None
      | Some t \<Rightarrow> Some (c\<lparr>clip_size := 0, clip_text := t\<rparr>))"

text \<open>The three input bytes of one turn as the 24-bit group, and its four output bytes.\<close>

definition base64_group :: "bytes \<Rightarrow> nat \<Rightarrow> nat \<Rightarrow> u32 option" where
  "base64_group t i remaining =
     (case (rd t i, if 1 < remaining then rd t (add32 i 1) else Some 0,
            if 2 < remaining then rd t (add32 i 2) else Some 0) of
        (Some a, Some b, Some c) \<Rightarrow>
          Some (push_bit 16 (ucast a) OR push_bit 8 (ucast b) OR ucast c)
      | _ \<Rightarrow> None)"

definition base64_char :: "u32 \<Rightarrow> u8" where
  "base64_char sextet = base64_alphabet ! unat (sextet AND 0x3F)"

definition base64_write :: "u32 \<Rightarrow> nat \<Rightarrow> serial \<Rightarrow> serial" where
  "base64_write v remaining s =
     (let s = comport_write_char (base64_char (drop_bit 18 v)) s;
          s = comport_write_char (base64_char (drop_bit 12 v)) s;
          s = comport_write_char (if 1 < remaining then base64_char (drop_bit 6 v) else 0x3D) s
      in comport_write_char (if 2 < remaining then base64_char v else 0x3D) s)"

function base64_loop :: "bytes \<Rightarrow> nat \<Rightarrow> nat \<Rightarrow> serial \<Rightarrow> serial option" where
  "base64_loop t n i s =
     (if i < n
      then (case base64_group t i (n - i) of
              None \<Rightarrow> None
            | Some v \<Rightarrow> base64_loop t n (i + 3) (base64_write v (n - i) s))
      else Some s)"
  by pat_completeness auto
termination by (relation "measure (\<lambda>(t, n, i, s). n - i)") auto

declare base64_loop.simps [simp del]

definition osc52_start :: bytes where
  "osc52_start = 0x1B # map (of_nat \<circ> of_char) '']52;c;''"

text \<open>\<open>None\<close> as the text argument is the null pointer; a result \<open>None\<close> is an access out of bounds.\<close>

definition clipboard_set :: "bytes option \<Rightarrow> nat \<Rightarrow> clip \<Rightarrow> clip option" where
  "clipboard_set text len c =
     (case text of
        None \<Rightarrow> clipboard_clear c
      | Some t \<Rightarrow>
          (let len = (if PRISMOS_CLIPBOARD_CAPACITY < len then PRISMOS_CLIPBOARD_CAPACITY else len)
           in case chunk t 0 len of
                None \<Rightarrow> None
              | Some xs \<Rightarrow>
                  (case blit (clip_text c) 0 xs of
                     None \<Rightarrow> None
                   | Some b \<Rightarrow>
                       (case wr b len 0 of
                          None \<Rightarrow> None
                        | Some b \<Rightarrow>
                            (case base64_loop b len 0
                                    (comport_write_string osc52_start (clip_port c)) of
                               None \<Rightarrow> None
                             | Some s \<Rightarrow>
                                 Some (c\<lparr>clip_text := b, clip_size := len,
                                         clip_port := comport_write_string [7] s\<rparr>))))))"

definition clipboard_length :: "clip \<Rightarrow> nat" where
  "clipboard_length c = clip_size c"

definition clipboard_data :: "clip \<Rightarrow> bytes" where
  "clipboard_data c = clip_text c"

section \<open>Reading base64 back\<close>

text \<open>
  What a terminal does with the sequence: a decoder in arithmetic, with the position of a
  character in the alphabet for its value.
\<close>

definition sextet_of :: "u8 \<Rightarrow> nat" where
  "sextet_of ch = length (takeWhile (\<lambda>x. x \<noteq> ch) base64_alphabet)"

fun base64_decode :: "bytes \<Rightarrow> bytes" where
  "base64_decode (p # q # r # s # rest) =
     (let v = ((sextet_of p * 64 + sextet_of q) * 64
              + (if r = 0x3D then 0 else sextet_of r)) * 64 + (if s = 0x3D then 0 else sextet_of s);
          bs = [of_nat (v div 65536), of_nat (v div 256), of_nat v]
      in (if r = 0x3D then take 1 bs else if s = 0x3D then take 2 bs else bs) @ base64_decode rest)"
| "base64_decode _ = []"

lemma alphabet_length [simp]: "length base64_alphabet = 64"
  by (simp add: base64_alphabet_def)

lemma inj_byte_of_char: "inj_on (of_nat \<circ> of_char :: char \<Rightarrow> u8) A"
proof (rule inj_onI)
  fix c d :: char assume "(of_nat \<circ> of_char) c = ((of_nat \<circ> of_char) d :: u8)"
  then have "unat (of_nat (of_char c) :: u8) = unat (of_nat (of_char d) :: u8)" by simp
  then show "c = d"
    by (simp add: unsigned_of_nat take_bit_eq_mod)
qed

lemma alphabet_distinct: "distinct (0x3D # base64_alphabet)"
proof -
  have "0x3D # base64_alphabet = map (of_nat \<circ> of_char)
     (CHR ''='' # ''ABCDEFGHIJKLMNOPQRSTUVWXYZabcdefghijklmnopqrstuvwxyz0123456789+/'')"
    by (simp add: base64_alphabet_def)
  then show ?thesis by (simp only: distinct_map inj_byte_of_char) simp
qed

lemma alphabet_ok: "n < 64 \<Longrightarrow> sextet_of (base64_alphabet ! n) = n \<and> base64_alphabet ! n \<noteq> 0x3D"
proof -
  assume n: "n < 64"
  then have "takeWhile (\<lambda>x. x \<noteq> base64_alphabet ! n) base64_alphabet = take n base64_alphabet"
    using alphabet_distinct
    by (intro takeWhile_eq_take_P_nth) (auto simp: nth_eq_iff_index_eq)
  moreover have "base64_alphabet ! n \<in> set base64_alphabet" using n by simp
  then have "base64_alphabet ! n \<noteq> 0x3D" using alphabet_distinct by auto
  ultimately show ?thesis using n by (simp add: sextet_of_def)
qed

lemma base64_char_ok:
  "sextet_of (base64_char v) = unat v mod 64" "base64_char v \<noteq> 0x3D"
proof -
  have "unat (v AND 0x3F) = unat (take_bit 6 v)" by (simp add: take_bit_eq_mask mask_eq_exp_minus_1)
  also have "\<dots> = unat v mod 64" by (simp only: unsigned_take_bit_eq) (simp add: take_bit_eq_mod)
  finally have "unat (v AND 0x3F) = unat v mod 64" .
  then show "sextet_of (base64_char v) = unat v mod 64" "base64_char v \<noteq> 0x3D"
    using alphabet_ok [of "unat v mod 64"] by (simp_all add: base64_char_def)
qed

lemma group_value:
  "unat (push_bit 16 (ucast a) OR push_bit 8 (ucast b) OR ucast c :: u32)
   = unat (a :: u8) * 65536 + unat (b :: u8) * 256 + unat (c :: u8)"
proof -
  have low: "k < 8" if "bit w k" for w :: u8 and k using bit_imp_le_length [OF that] by simp
  have "push_bit 16 (ucast a) AND (push_bit 8 (ucast b) OR ucast c) = (0 :: u32)"
    by (auto simp: bit_eq_iff bit_simps dest: low)
  moreover have "push_bit 8 (ucast b) AND ucast c = (0 :: u32)"
    by (auto simp: bit_eq_iff bit_simps dest: low)
  ultimately have "push_bit 16 (ucast a) OR push_bit 8 (ucast b) OR ucast c
      = push_bit 16 (ucast a) + (push_bit 8 (ucast b) + ucast c :: u32)"
    by (simp add: disjunctive_add_eq_or or.assoc)
  then show ?thesis
    using unat_bounds(1) [of a] unat_bounds(1) [of b] unat_bounds(1) [of c]
    by (simp add: unat_word_ariths push_bit_eq_mult unsigned_ucast_eq take_bit_eq_mod)
qed

text \<open>Bytes that leave through the data port.\<close>

definition sends :: "bytes \<Rightarrow> serial \<Rightarrow> serial" where
  "sends bs s = s\<lparr>ser_out := ser_out s @ map (Pair PORT) bs\<rparr>"

lemma sends_sends [simp]: "sends bs (sends cs s) = sends (cs @ bs) s" "sends [] s = s"
  by (simp_all add: sends_def)

lemma write_char_sends: "comport_write_char ch s = sends [ch] s"
  by (simp add: comport_write_char_def outb_def sends_def)

lemma write_string_sends: "0 \<notin> set bs \<Longrightarrow> comport_write_string bs s = sends bs s"
  by (induction bs arbitrary: s) (simp_all add: write_char_sends)

lemma bytes_of_group:
  "of_nat ((unat a * 65536 + unat b * 256 + unat c) div 65536) = (a :: u8)"
  "of_nat ((unat a * 65536 + unat b * 256 + unat c) div 256) = (b :: u8)"
  "of_nat (unat a * 65536 + unat b * 256 + unat c) = (c :: u8)"
proof -
  have b: "unat b < 256" and c: "unat c < 256" by (rule unat_bounds)+
  then have "(unat a * 65536 + unat b * 256 + unat c) div 65536 = unat a"
    "(unat a * 65536 + unat b * 256 + unat c) div 256 = unat a * 256 + unat b"
    by (auto intro!: div_nat_eqI)
  moreover have "x * 256 = 0" "x * 65536 = 0" for x :: u8
  proof -
    have "(256 :: u8) = 0" "(65536 :: u8) = 0" by simp_all
    then show "x * 256 = 0" "x * 65536 = 0" by (simp_all only: mult_zero_right)
  qed
  ultimately show "of_nat ((unat a * 65536 + unat b * 256 + unat c) div 65536) = (a :: u8)"
    "of_nat ((unat a * 65536 + unat b * 256 + unat c) div 256) = (b :: u8)"
    "of_nat (unat a * 65536 + unat b * 256 + unat c) = (c :: u8)"
    by simp_all
qed

lemma sextets_join:
  fixes v :: nat
  assumes "v < 16777216"
  shows "((v div 262144 mod 64 * 64 + v div 4096 mod 64) * 64 + v div 64 mod 64) * 64 + v mod 64 = v"
proof -
  have d: "v div 4096 = v div 64 div 64" "v div 262144 = v div 64 div 64 div 64"
    by (simp_all add: div_mult2_eq [symmetric])
  moreover have "v div 262144 < 64" using assms by (simp add: less_mult_imp_div_less)
  ultimately show ?thesis
    by (simp add: d)
qed

lemma base64_write_decode:
  fixes a b c :: u8
  assumes v: "v = push_bit 16 (ucast a) OR push_bit 8 (ucast b) OR ucast c"
    and r: "0 < remaining" "remaining < 3 \<Longrightarrow> c = 0" "remaining < 2 \<Longrightarrow> b = 0"
  shows "\<exists>p. base64_write v remaining s = sends p s
    \<and> (\<forall>q. base64_decode (p @ q) = take remaining [a, b, c] @ base64_decode q)"
proof (intro exI conjI allI)
  let ?n = "unat a * 65536 + unat b * 256 + unat c"
  let ?r = "if 1 < remaining then base64_char (drop_bit 6 v) else 0x3D"
  let ?s = "if 2 < remaining then base64_char v else 0x3D"
  let ?p = "[base64_char (drop_bit 18 v), base64_char (drop_bit 12 v), ?r, ?s]"
  show "base64_write v remaining s = sends ?p s"
    by (simp add: base64_write_def write_char_sends Let_def)
  have n: "unat v = ?n" unfolding v by (rule group_value)
  have s: "sextet_of (base64_char (drop_bit k v)) = ?n div 2 ^ k mod 64" for k
    using unat_bounds(3) [of v]
    by (simp only: base64_char_ok unsigned_drop_bit_eq n [symmetric])
      (simp add: drop_bit_eq_div take_bit_eq_mod)
  have sv: "sextet_of (base64_char v) = ?n mod 64" by (simp only: base64_char_ok n)
  have "?n < 16777216"
    using unat_bounds(1) [of a] unat_bounds(1) [of b] unat_bounds(1) [of c] by simp
  note join = sextets_join [OF this]
  have z2: "?n mod 64 = 0" if "remaining < 3" using r(2) that by simp
  have z1: "?n div 64 mod 64 = 0" if "remaining < 2"
  proof -
    have "?n div 64 = (unat a * 16) * 64" using r(2,3) that by simp
    then show ?thesis by (metis mod_mult_self2_is_0)
  qed
  have r': "(if ?r = 0x3D then 0 else sextet_of ?r) = ?n div 64 mod 64"
    using z1 r(1) s [of 6] base64_char_ok(2) by auto
  have s': "(if ?s = 0x3D then 0 else sextet_of ?s) = ?n mod 64"
    using z2 sv base64_char_ok(2) by auto
  have c: "?r = 0x3D \<longleftrightarrow> remaining = 1" "?s = 0x3D \<longleftrightarrow> remaining < 3"
    using r(1) base64_char_ok(2) by auto
  have join': "((?n div 2 ^ 18 mod 64 * 64 + ?n div 2 ^ 12 mod 64) * 64 + ?n div 64 mod 64) * 64
      + ?n mod 64 = ?n"
  proof -
    have e: "(2 :: nat) ^ 18 = 262144" "(2 :: nat) ^ 12 = 4096" by simp_all
    show ?thesis unfolding e by (rule join)
  qed
  have t3: "take remaining [a, b, c]
      = (if remaining = 1 then take 1 [a, b, c] else if remaining < 3 then take 2 [a, b, c] else [a, b, c])"
  proof -
    consider "remaining = 1" | "remaining = 2" | "3 \<le> remaining" using r(1) by linarith
    then show ?thesis by cases simp_all
  qed
  show "base64_decode (?p @ q) = take remaining [a, b, c] @ base64_decode q" for q
    unfolding append_Cons append_Nil base64_decode.simps Let_def r' s'
    unfolding c s join' bytes_of_group t3 by simp
qed

lemma take_group:
  assumes "i < n" "n \<le> length t"
  shows "take (n - i) (drop i t) =
    take (n - i) [t ! i, if 1 < n - i then t ! (i + 1) else d, if 2 < n - i then t ! (i + 2) else d]
    @ take (n - (i + 3)) (drop (i + 3) t)"
proof -
  have c: "drop k t = t ! k # drop (Suc k) t" if "k < n" for k
    using that assms by (simp add: Cons_nth_drop_Suc)
  consider "n - i = 1" | "n - i = 2" | m where "n - i = Suc (Suc (Suc m))"
    using assms(1) by (metis One_nat_def Suc_diff_Suc numeral_2_eq_2 not0_implies_Suc)
  then show ?thesis
  proof cases
    case 3
    then have "i < n" "Suc i < n" "Suc (Suc i) < n" "n - (i + 3) = m" by simp_all
    with 3 show ?thesis by (simp add: c numeral_eq_Suc)
  qed (use assms in \<open>simp_all add: c numeral_eq_Suc\<close>)
qed

lemma base64_loop_sends:
  assumes "n \<le> length t" "n < 4294967294"
  shows "\<exists>p. base64_loop t n i s = Some (sends p s) \<and> base64_decode p = take (n - i) (drop i t)"
proof (induction "n - i" arbitrary: i s rule: less_induct)
  case less
  show ?case
  proof (cases "i < n")
    case False
    then show ?thesis by (intro exI [of _ "[]"]) (simp add: base64_loop.simps)
  next
    case True
    let ?m = "n - i"
    define a b c where "a = t ! i" "b = (if 1 < ?m then t ! (i + 1) else 0)"
      "c = (if 2 < ?m then t ! (i + 2) else 0)"
    note abc = this
    define v :: u32 where "v = push_bit 16 (ucast a) OR push_bit 8 (ucast b) OR ucast c"
    have g: "base64_group t i ?m = Some v"
      using True assms by (auto simp: base64_group_def arr abc v_def)
    obtain p where p: "base64_write v ?m s = sends p s"
      "\<And>q. base64_decode (p @ q) = take ?m [a, b, c] @ base64_decode q"
      using base64_write_decode [OF v_def, of ?m s] True abc by auto
    have "\<exists>p'. base64_loop t n (i + 3) (sends p s) = Some (sends p' (sends p s))
        \<and> base64_decode p' = take (n - (i + 3)) (drop (i + 3) t)"
      using True by (intro less.hyps) simp
    then obtain p' where p': "base64_loop t n (i + 3) (sends p s) = Some (sends p' (sends p s))"
        "base64_decode p' = take (n - (i + 3)) (drop (i + 3) t)"
      by blast
    have "base64_decode (p @ p') = take ?m (drop i t)"
      using take_group [OF True assms(1), of 0] p'(2) unfolding p(2) abc by simp
    moreover have "base64_loop t n i s = Some (sends (p @ p') s)"
      using True g p(1) p'(1) by (simp add: base64_loop.simps [of t n i])
    ultimately show ?thesis by blast
  qed
qed

lemma clipboard_set_result:
  assumes "length (clip_text c) = PRISMOS_CLIPBOARD_CAPACITY + 1" and "n \<le> length t"
  shows "\<exists>p. clipboard_set (Some t) n c =
      Some (c\<lparr>clip_text := take (min n PRISMOS_CLIPBOARD_CAPACITY) t
          @ 0 # drop (Suc (min n PRISMOS_CLIPBOARD_CAPACITY)) (clip_text c),
        clip_size := min n PRISMOS_CLIPBOARD_CAPACITY, clip_port := sends (osc52_start @ p @ [7]) (clip_port c)\<rparr>)
    \<and> base64_decode p = take (min n PRISMOS_CLIPBOARD_CAPACITY) t"
proof -
  let ?m = "min n PRISMOS_CLIPBOARD_CAPACITY"
  let ?b = "take ?m t @ 0 # drop (Suc ?m) (clip_text c)"
  have m: "?m \<le> length t" "?m \<le> 16384" "(if PRISMOS_CLIPBOARD_CAPACITY < n then PRISMOS_CLIPBOARD_CAPACITY else n) = ?m"
    using assms(2) by (simp_all add: PRISMOS_CLIPBOARD_CAPACITY_def)
  obtain p where p: "base64_loop ?b ?m 0 (sends osc52_start (clip_port c))
      = Some (sends p (sends osc52_start (clip_port c)))" "base64_decode p = take ?m ?b"
    using base64_loop_sends [of ?m ?b 0 "sends osc52_start (clip_port c)"] m by auto
  have "0 \<notin> set osc52_start" by (simp add: osc52_start_def)
  note start = write_string_sends [OF this]
  define k where "k = ?m"
  have k: "length (take k t) = k" "k < length (clip_text c)"
    using m assms(1) by (simp_all add: k_def PRISMOS_CLIPBOARD_CAPACITY_def)
  have b: "blit (clip_text c) 0 (take k t) = Some (take k t @ drop k (clip_text c))"
    using k by (simp add: blit_def)
  have w: "wr (take k t @ drop k (clip_text c)) k 0 = Some (take k t @ 0 # drop (Suc k) (clip_text c))"
    using k by (simp add: wr_def list_update_append Cons_nth_drop_Suc [symmetric])
  have ck: "chunk t 0 ?m = Some (take ?m t)" using m by (simp add: chunk_def)
  have "clipboard_set (Some t) n c = Some (c\<lparr>clip_text := ?b, clip_size := ?m,
      clip_port := sends (osc52_start @ p @ [7]) (clip_port c)\<rparr>)"
    unfolding clipboard_set_def option.case Let_def m(3) ck b [unfolded k_def] w [unfolded k_def] start p(1)
    by (simp add: write_char_sends)
  then show ?thesis using p(2) m by (intro exI [of _ p]) (simp add: min_def)
qed

text \<open>
  C20. Copying a text keeps its first 16384 bytes, and the serial terminal receives one
  OSC 52 sequence whose base64 part decodes to exactly what the clipboard holds.
\<close>

theorem clipboard_osc52:
  assumes "length (clip_text c) = PRISMOS_CLIPBOARD_CAPACITY + 1" and "n \<le> length t"
  shows "\<exists>c' p. clipboard_set (Some t) n c = Some c'
    \<and> take (clipboard_length c') (clipboard_data c') = take (min n PRISMOS_CLIPBOARD_CAPACITY) t
    \<and> clip_port c' = sends (osc52_start @ p @ [7]) (clip_port c)
    \<and> base64_decode p = take (min n PRISMOS_CLIPBOARD_CAPACITY) t"
  using clipboard_set_result [OF assms] assms(2)
  by (elim exE conjE) (intro exI conjI, assumption, simp_all add: clipboard_length_def clipboard_data_def)

theorem clipboard_osc52_witness:
  "\<exists>c' p. clipboard_set (Some [0x61, 0x62, 0]) 2
      \<lparr>clip_text = replicate 16385 0, clip_size = 0, clip_port = \<lparr>ser_rx = ringbuf_zero, ser_out = []\<rparr>\<rparr>
      = Some c'
    \<and> clip_port c' = sends (osc52_start @ p @ [7]) \<lparr>ser_rx = ringbuf_zero, ser_out = []\<rparr>
    \<and> base64_decode p = [0x61, 0x62]"
  using clipboard_osc52 [of "\<lparr>clip_text = replicate 16385 0, clip_size = 0,
      clip_port = \<lparr>ser_rx = ringbuf_zero, ser_out = []\<rparr>\<rparr>" 2 "[0x61, 0x62, 0]"]
  by (auto simp: PRISMOS_CLIPBOARD_CAPACITY_def)

end
