(* ===== verification/Pmm.thy ===== *)
theory Pmm
  imports Prelude
begin

text \<open>
  \<open>memory/pmm.c\<close>: the page-frame allocator, a bitmap with statistics and a search hint. Addresses are
  32- and 64-bit words, page numbers and counters naturals. The Multiboot information is the list of
  its bytes; a read past it is \<open>None\<close>.
\<close>

definition PAGE_SIZE :: nat where "PAGE_SIZE = 4096"
definition MAX_PAGES :: nat where "MAX_PAGES = 1048576"
definition BITMAP_BYTES :: nat where "BITMAP_BYTES = 131072"
definition LOW_MEMORY_RESERVE_END :: u32 where "LOW_MEMORY_RESERVE_END = 0x00100000"
definition MULTIBOOT_TAG_TYPE_END :: u32 where "MULTIBOOT_TAG_TYPE_END = 0"
definition MULTIBOOT_TAG_TYPE_MMAP :: u32 where "MULTIBOOT_TAG_TYPE_MMAP = 6"
definition MULTIBOOT_MEMORY_AVAILABLE :: u32 where "MULTIBOOT_MEMORY_AVAILABLE = 1"
definition PHYS_ADDR_LIMIT_PLUS_ONE :: u64 where "PHYS_ADDR_LIMIT_PLUS_ONE = 0x100000000"

record pmm =
  pmm_bitmap :: bytes
  total_memory_bytes :: nat
  usable_memory_bytes :: nat
  reserved_memory_bytes :: nat
  total_pages :: nat
  free_pages :: nat
  used_pages :: nat
  search_hint :: nat
  pmm_initialized :: bool

section \<open>Bitmap\<close>

definition align_down :: "u32 \<Rightarrow> u32 \<Rightarrow> u32" where
  "align_down v align = v AND NOT (align - 1)"

definition align_up :: "u32 \<Rightarrow> u32 \<Rightarrow> u32" where
  "align_up v align = (v + (align - 1)) AND NOT (align - 1)"

definition bitmap_set :: "nat \<Rightarrow> bytes \<Rightarrow> bytes option" where
  "bitmap_set page b =
     (case rd b (drop_bit 3 page) of
        None \<Rightarrow> None
      | Some x \<Rightarrow> wr b (drop_bit 3 page) (x OR push_bit (page AND 7) 1))"

definition bitmap_clear :: "nat \<Rightarrow> bytes \<Rightarrow> bytes option" where
  "bitmap_clear page b =
     (case rd b (drop_bit 3 page) of
        None \<Rightarrow> None
      | Some x \<Rightarrow> wr b (drop_bit 3 page) (x AND NOT (push_bit (page AND 7) 1)))"

definition bitmap_test :: "nat \<Rightarrow> bytes \<Rightarrow> bool option" where
  "bitmap_test page b =
     (case rd b (drop_bit 3 page) of
        None \<Rightarrow> None
      | Some x \<Rightarrow> Some (x AND push_bit (page AND 7) 1 \<noteq> 0))"

section \<open>Ranges\<close>

text \<open>One turn of the loop of \<open>reserve_range\<close>, and of \<open>free_usable_range\<close>.\<close>

definition reserve_page :: "nat \<Rightarrow> pmm \<Rightarrow> pmm option" where
  "reserve_page page s =
     (case bitmap_test page (pmm_bitmap s) of
        None \<Rightarrow> None
      | Some True \<Rightarrow> Some s
      | Some False \<Rightarrow>
          (case bitmap_set page (pmm_bitmap s) of
             None \<Rightarrow> None
           | Some b \<Rightarrow>
               Some (s\<lparr>pmm_bitmap := b,
                       free_pages := (if 0 < free_pages s then free_pages s - 1 else free_pages s),
                       used_pages := add32 (used_pages s) 1\<rparr>)))"

definition release_page :: "nat \<Rightarrow> pmm \<Rightarrow> pmm option" where
  "release_page page s =
     (if page = 0 then Some s
      else case bitmap_test page (pmm_bitmap s) of
        None \<Rightarrow> None
      | Some False \<Rightarrow> Some s
      | Some True \<Rightarrow>
          (case bitmap_clear page (pmm_bitmap s) of
             None \<Rightarrow> None
           | Some b \<Rightarrow>
               Some (s\<lparr>pmm_bitmap := b,
                       free_pages := add32 (free_pages s) 1,
                       used_pages := (if 0 < used_pages s then used_pages s - 1 else used_pages s)\<rparr>)))"

definition reserve_range :: "u32 \<Rightarrow> u32 \<Rightarrow> pmm \<Rightarrow> pmm option" where
  "reserve_range start_addr end_addr s =
     (let start = align_down start_addr 4096;
          stop = align_up end_addr 4096
      in if stop \<le> start then Some s
         else
           (let start_page = unat start div PAGE_SIZE;
                end_page = unat stop div PAGE_SIZE;
                end_page = (if MAX_PAGES < end_page then MAX_PAGES else end_page)
            in for_each reserve_page [start_page..<end_page] s))"

definition free_usable_range :: "u64 \<Rightarrow> u64 \<Rightarrow> pmm \<Rightarrow> pmm option" where
  "free_usable_range start_addr end_addr s =
     (if end_addr \<le> start_addr then Some s
      else if 0xFFFFFFFF < start_addr then Some s
      else
        (let end_addr = (if PHYS_ADDR_LIMIT_PLUS_ONE < end_addr then PHYS_ADDR_LIMIT_PLUS_ONE
                         else end_addr);
             start = align_up (ucast start_addr) 4096;
             stop = align_down (ucast end_addr) 4096
         in if stop \<le> start then Some s
            else for_each release_page [unat start div PAGE_SIZE..<unat stop div PAGE_SIZE] s))"

section \<open>Initialisation\<close>

definition read_u64le :: "bytes \<Rightarrow> nat \<Rightarrow> u64 option" where
  "read_u64le b i =
     (case (read_u32le b i, read_u32le b (i + 4)) of
        (Some lo, Some hi) \<Rightarrow> Some (ucast lo OR push_bit 32 (ucast hi))
      | _ \<Rightarrow> None)"

text \<open>
  The state in which \<open>pmm_init\<close> may end: it halts the machine when the information is missing, it
  hangs on a tag or entry of size 0 (no fuel is enough), or it returns.
\<close>

datatype boot = Halted | Hung | Ready pmm

text \<open>The tag walk, by offset in the information.\<close>

datatype tag_search = Tag_Hung | Tag_Missing | Tag_At nat

fun find_mmap_tag :: "nat \<Rightarrow> bytes \<Rightarrow> nat \<Rightarrow> nat \<Rightarrow> tag_search option" where
  "find_mmap_tag 0 info tag stop = Some Tag_Hung"
| "find_mmap_tag (Suc fuel) info tag stop =
     (if stop \<le> tag then Some Tag_Missing
      else case read_u32le info tag of
        None \<Rightarrow> None
      | Some typ \<Rightarrow>
          if typ = MULTIBOOT_TAG_TYPE_END then Some Tag_Missing
          else if typ = MULTIBOOT_TAG_TYPE_MMAP then Some (Tag_At tag)
          else case read_u32le info (tag + 4) of
            None \<Rightarrow> None
          | Some sz \<Rightarrow> find_mmap_tag fuel info (tag + unat ((sz + 7) AND NOT 7)) stop)"

text \<open>One memory-map entry: the highest end so far, and the region when it is available.\<close>

definition mmap_entry :: "bytes \<Rightarrow> nat \<Rightarrow> u64 \<times> pmm \<Rightarrow> (u64 \<times> pmm) option" where
  "mmap_entry info ptr hs =
     (case (read_u64le info ptr, read_u64le info (ptr + 8), read_u32le info (ptr + 16)) of
        (Some addr, Some len, Some typ) \<Rightarrow>
          (let region_end = addr + len;
               highest = (if fst hs < region_end then region_end else fst hs)
           in case (if typ = MULTIBOOT_MEMORY_AVAILABLE
                    then free_usable_range addr region_end (snd hs) else Some (snd hs)) of
                None \<Rightarrow> None
              | Some s \<Rightarrow> Some (highest, s))
      | _ \<Rightarrow> None)"

fun mmap_entries ::
    "nat \<Rightarrow> bytes \<Rightarrow> nat \<Rightarrow> nat \<Rightarrow> nat \<Rightarrow> u64 \<times> pmm \<Rightarrow> (u64 \<times> pmm) option option" where
  "mmap_entries 0 info ptr sz stop hs = Some None"
| "mmap_entries (Suc fuel) info ptr sz stop hs =
     (if stop < ptr + sz then Some (Some hs)
      else case mmap_entry info ptr hs of
        None \<Rightarrow> None
      | Some hs \<Rightarrow> mmap_entries fuel info (ptr + sz) sz stop hs)"

definition pmm_reset :: "pmm \<Rightarrow> pmm" where
  "pmm_reset s = s\<lparr>pmm_bitmap := replicate BITMAP_BYTES 0xFF, total_memory_bytes := 0,
     usable_memory_bytes := 0, reserved_memory_bytes := 0, total_pages := MAX_PAGES,
     free_pages := 0, used_pages := MAX_PAGES\<rparr>"

text \<open>The framebuffer is given by address, pitch and height.\<close>

definition reserve_framebuffer :: "(u64 \<times> u32 \<times> u32) option \<Rightarrow> pmm \<Rightarrow> pmm option" where
  "reserve_framebuffer framebuffer s =
     (case framebuffer of
        None \<Rightarrow> Some s
      | Some (address, pitch, height) \<Rightarrow>
          (let fb_end = address + ucast pitch * ucast height
           in if address \<le> 0xFFFFFFFF
              then reserve_range (ucast address)
                     (ucast (if 0x100000000 < fb_end then 0x100000000 else fb_end)) s
              else Some s))"

definition pmm_finish :: "u64 \<Rightarrow> pmm \<Rightarrow> pmm option" where
  "pmm_finish highest s =
     (case bitmap_set 0 (pmm_bitmap s) of
        None \<Rightarrow> None
      | Some b \<Rightarrow>
          (let highest = (if PHYS_ADDR_LIMIT_PLUS_ONE < highest then PHYS_ADDR_LIMIT_PLUS_ONE
                          else highest);
               total = unat (ucast highest :: u32);
               pages = total div PAGE_SIZE
           in Some (s\<lparr>pmm_bitmap := b, total_memory_bytes := total, total_pages := pages,
                      used_pages := sub32 pages (free_pages s),
                      usable_memory_bytes := free_pages s * PAGE_SIZE mod 4294967296,
                      reserved_memory_bytes := sub32 pages (free_pages s) * PAGE_SIZE mod 4294967296,
                      search_hint := 1, pmm_initialized := True\<rparr>)))"

text \<open>\<open>base\<close> is the address of the information, \<open>kernel_start\<close> and \<open>kernel_end\<close> the linker's symbols.\<close>

definition pmm_reserve_all ::
    "u32 \<Rightarrow> u32 \<Rightarrow> u32 \<Rightarrow> u32 \<Rightarrow> (u64 \<times> u32 \<times> u32) option \<Rightarrow> pmm \<Rightarrow> pmm option" where
  "pmm_reserve_all base total_size kernel_start kernel_end framebuffer s =
     (case reserve_range 0 LOW_MEMORY_RESERVE_END s of
        None \<Rightarrow> None
      | Some s \<Rightarrow>
          (case reserve_range base (base + total_size) s of
             None \<Rightarrow> None
           | Some s \<Rightarrow>
               (case reserve_range kernel_start kernel_end s of
                  None \<Rightarrow> None
                | Some s \<Rightarrow> reserve_framebuffer framebuffer s)))"

definition pmm_init ::
    "nat \<Rightarrow> (u32 \<times> bytes) option \<Rightarrow> u32 \<Rightarrow> u32 \<Rightarrow> (u64 \<times> u32 \<times> u32) option \<Rightarrow> pmm \<Rightarrow> boot option" where
  "pmm_init fuel boot_info kernel_start kernel_end framebuffer s =
     (case boot_info of
        None \<Rightarrow> Some Halted
      | Some (base, info) \<Rightarrow>
          (case read_u32le info 0 of
             None \<Rightarrow> None
           | Some total_size \<Rightarrow>
               (case find_mmap_tag fuel info 8 (unat total_size) of
                  None \<Rightarrow> None
                | Some Tag_Hung \<Rightarrow> Some Hung
                | Some Tag_Missing \<Rightarrow> Some Halted
                | Some (Tag_At tag) \<Rightarrow>
                    (case (read_u32le info (tag + 4), read_u32le info (tag + 8)) of
                       (Some sz, Some entry_size) \<Rightarrow>
                         (case mmap_entries fuel info (tag + 16) (unat entry_size)
                                 (tag + unat sz) (0, pmm_reset s) of
                            None \<Rightarrow> None
                          | Some None \<Rightarrow> Some Hung
                          | Some (Some (highest, s)) \<Rightarrow>
                              (case pmm_reserve_all base total_size kernel_start kernel_end
                                      framebuffer s of
                                 None \<Rightarrow> None
                               | Some s \<Rightarrow> map_option Ready (pmm_finish highest s)))
                     | _ \<Rightarrow> None))))"

section \<open>Allocation\<close>

primrec pages_are_free :: "nat \<Rightarrow> nat \<Rightarrow> bytes \<Rightarrow> bool option" where
  "pages_are_free start_page 0 b = Some True"
| "pages_are_free start_page (Suc n) b =
     (case bitmap_test start_page b of
        None \<Rightarrow> None
      | Some True \<Rightarrow> Some False
      | Some False \<Rightarrow> pages_are_free (add32 start_page 1) n b)"

definition mark_pages_used :: "nat \<Rightarrow> nat \<Rightarrow> pmm \<Rightarrow> pmm option" where
  "mark_pages_used start_page n s =
     (case for_each (\<lambda>i b. bitmap_set (add32 start_page i) b) [0..<n] (pmm_bitmap s) of
        None \<Rightarrow> None
      | Some b \<Rightarrow>
          Some (s\<lparr>pmm_bitmap := b,
                  free_pages := (if n \<le> free_pages s then free_pages s - n else 0),
                  used_pages := add32 (used_pages s) n\<rparr>))"

lemma pages_are_free_in_range:
  "pages_are_free page (Suc n) b = Some False \<Longrightarrow> page div 8 < length b"
  by (auto simp: bitmap_test_def rd_def drop_bit_eq_div split: option.splits if_splits bool.splits)

text \<open>The search of one pass: the first page from \<open>page\<close> on with \<open>n > 0\<close> free pages, if it starts early enough.\<close>

function find_run :: "bytes \<Rightarrow> nat \<Rightarrow> nat \<Rightarrow> nat \<Rightarrow> nat option option" where
  "find_run b n stop page =
     (if n = 0 \<or> stop < sub32 (add32 page n) 1 then Some None
      else case pages_are_free page n b of
        None \<Rightarrow> None
      | Some True \<Rightarrow> Some (Some page)
      | Some False \<Rightarrow> find_run b n stop (page + 1))"
  by pat_completeness auto
termination
proof (relation "measure (\<lambda>(b, n, stop, page). 8 * length b - page)", goal_cases)
  case (2 b n stop page)
  then show ?case using pages_are_free_in_range [of page "n - 1" b] by (cases n) auto
qed auto

declare find_run.simps [simp del]

text \<open>A pass is skipped when the range is too short.\<close>

definition alloc_pass :: "nat \<Rightarrow> nat \<Rightarrow> nat \<Rightarrow> pmm \<Rightarrow> nat option option" where
  "alloc_pass n start stop s =
     (if stop \<le> start \<or> add32 (stop - start) 1 < n then Some None
      else find_run (pmm_bitmap s) n stop start)"

definition alloc_at :: "nat \<Rightarrow> nat \<Rightarrow> pmm \<Rightarrow> (nat \<times> pmm) option" where
  "alloc_at n page s =
     (case mark_pages_used page n s of
        None \<Rightarrow> None
      | Some s \<Rightarrow>
          Some (page * PAGE_SIZE mod 4294967296, s\<lparr>search_hint := add32 page n\<rparr>))"

text \<open>Address 0 is the null pointer.\<close>

definition pmm_alloc_pages :: "nat \<Rightarrow> pmm \<Rightarrow> (nat \<times> pmm) option" where
  "pmm_alloc_pages n s =
     (if \<not> pmm_initialized s \<or> n = 0 then Some (0, s)
      else if free_pages s < n then Some (0, s)
      else
        (let max_page = (if 0 < total_pages s then total_pages s - 1 else 0);
             start = (if search_hint s < 1 then 1 else search_hint s)
         in case alloc_pass n start max_page s of
              None \<Rightarrow> None
            | Some (Some page) \<Rightarrow> alloc_at n page s
            | Some None \<Rightarrow>
                (case alloc_pass n 1 start s of
                   None \<Rightarrow> None
                 | Some (Some page) \<Rightarrow> alloc_at n page s
                 | Some None \<Rightarrow> Some (0, s))))"

definition pmm_alloc_page :: "pmm \<Rightarrow> (nat \<times> pmm) option" where
  "pmm_alloc_page s = pmm_alloc_pages 1 s"

definition pmm_free_page :: "u32 \<Rightarrow> pmm \<Rightarrow> pmm option" where
  "pmm_free_page addr s =
     (if \<not> pmm_initialized s \<or> addr = 0 then Some s
      else if addr AND (4096 - 1) \<noteq> 0 then Some s
      else
        (let page = unat addr div PAGE_SIZE
         in if page = 0 \<or> total_pages s \<le> page then Some s
            else case bitmap_test page (pmm_bitmap s) of
              None \<Rightarrow> None
            | Some False \<Rightarrow> Some s
            | Some True \<Rightarrow>
                (case bitmap_clear page (pmm_bitmap s) of
                   None \<Rightarrow> None
                 | Some b \<Rightarrow>
                     Some (s\<lparr>pmm_bitmap := b, free_pages := add32 (free_pages s) 1,
                             used_pages := (if 0 < used_pages s then used_pages s - 1 else used_pages s),
                             search_hint := (if page < search_hint s then page else search_hint s)\<rparr>))))"

end
