(* ===== verification/Pmm_Frames.thy ===== *)
theory Pmm_Frames
  imports Pmm
begin

text \<open>
  The allocator against its abstraction, the set of free page frames. First the bitmap implements
  the set, then initialisation and allocation keep the invariant \<open>pmm_ok\<close> that ties bitmap,
  statistics and search hint together.
\<close>

section \<open>The bitmap is a set\<close>

definition frees :: "bytes \<Rightarrow> nat set" where
  "frees b = {p. p < 8 * length b \<and> \<not> bit (b ! (p div 8)) (p mod 8)}"

lemma finite_frees [simp]: "finite (frees b)"
  by (rule finite_subset [of _ "{..<8 * length b}"]) (auto simp: frees_def)

lemma page_index: "drop_bit 3 p = p div 8" "p AND 7 = p mod 8" for p :: nat
proof -
  show "drop_bit 3 p = p div 8" by (simp add: drop_bit_eq_div)
  have "p AND mask 3 = p mod 8" by (simp only: take_bit_eq_mask [symmetric]) (simp add: take_bit_eq_mod)
  then show "p AND 7 = p mod 8" by (simp add: mask_eq_exp_minus_1)
qed

lemma bitmap_test_frees:
  "p < 8 * length b \<Longrightarrow> bitmap_test p b = Some (p \<notin> frees b)"
proof -
  assume p: "p < 8 * length b"
  then have "p div 8 < length b" by (simp add: less_mult_imp_div_less mult.commute)
  moreover have "x AND push_bit k 1 \<noteq> 0 \<longleftrightarrow> bit x k" if "k < 8" for x :: u8 and k
    using that by (simp add: bit_iff_and_push_bit_not_eq_0)
  ultimately show ?thesis
    using p by (simp add: bitmap_test_def page_index arr frees_def)
qed

lemma frees_update:
  assumes "p < 8 * length b"
    and "\<And>k. k < 8 \<Longrightarrow> bit x k \<longleftrightarrow> (if k = p mod 8 then v else bit (b ! (p div 8)) k)"
  shows "frees (b[p div 8 := x]) = (if v then frees b - {p} else insert p (frees b))"
proof -
  have "p div 8 < length b" using assms(1) by (simp add: less_mult_imp_div_less mult.commute)
  moreover have "q = p" if "q div 8 = p div 8" "q mod 8 = p mod 8" for q
    using that by (metis div_mult_mod_eq)
  moreover have "q mod 8 < 8" for q :: nat by simp
  ultimately show ?thesis
    using assms unfolding frees_def
    by (auto simp: nth_list_update split: if_splits)
qed

lemma bitmap_set_frees:
  assumes "p < 8 * length b"
  shows "\<exists>b'. bitmap_set p b = Some b' \<and> length b' = length b \<and> frees b' = frees b - {p}"
proof -
  let ?x = "b ! (p div 8) OR push_bit (p mod 8) 1"
  have "p div 8 < length b" using assms by (simp add: less_mult_imp_div_less mult.commute)
  then have "bitmap_set p b = Some (b[p div 8 := ?x])"
    by (simp add: bitmap_set_def page_index arr)
  moreover have "frees (b[p div 8 := ?x]) = frees b - {p}"
    using frees_update [OF assms, of ?x True] by (auto simp: bit_simps)
  ultimately show ?thesis by simp
qed

lemma bitmap_clear_frees:
  assumes "p < 8 * length b"
  shows "\<exists>b'. bitmap_clear p b = Some b' \<and> length b' = length b \<and> frees b' = insert p (frees b)"
proof -
  let ?x = "b ! (p div 8) AND NOT (push_bit (p mod 8) 1)"
  have "p div 8 < length b" using assms by (simp add: less_mult_imp_div_less mult.commute)
  then have "bitmap_clear p b = Some (b[p div 8 := ?x])"
    by (simp add: bitmap_clear_def page_index arr)
  moreover have "frees (b[p div 8 := ?x]) = insert p (frees b)"
    using frees_update [OF assms, of ?x False] by (auto simp: bit_simps)
  ultimately show ?thesis by simp
qed

lemma frees_reset: "frees (replicate n 0xFF) = {}"
proof -
  have "bit (0xFF :: u8) k" if "k < 8" for k
  proof -
    have "(0xFF :: u8) = - 1" by simp
    then show ?thesis using that by (simp only: bit_minus_1_iff) simp
  qed
  then show ?thesis by (auto simp: frees_def less_mult_imp_div_less mult.commute)
qed

lemmas bitmap_rules = bitmap_test_frees bitmap_set_frees bitmap_clear_frees

section \<open>Ranges\<close>

abbreviation fr :: "pmm \<Rightarrow> nat set" where
  "fr s \<equiv> frees (pmm_bitmap s)"

definition counted :: "pmm \<Rightarrow> bool" where
  "counted s \<longleftrightarrow> length (pmm_bitmap s) = BITMAP_BYTES \<and> free_pages s = card (fr s)"

lemma bits_bytes: "8 * BITMAP_BYTES = MAX_PAGES" "MAX_PAGES < 4294967296"
  by (simp_all add: BITMAP_BYTES_def MAX_PAGES_def)

lemma counted_bound: "counted s \<Longrightarrow> free_pages s \<le> MAX_PAGES"
proof -
  assume "counted s"
  then have "fr s \<subseteq> {..<MAX_PAGES}" by (auto simp: counted_def frees_def bits_bytes(1) [symmetric])
  then have "card (fr s) \<le> card {..<MAX_PAGES}" by (intro card_mono) simp_all
  with \<open>counted s\<close> show ?thesis by (simp add: counted_def)
qed

lemma reserve_page_rule:
  assumes "counted s" "p < MAX_PAGES"
  shows "\<exists>s'. reserve_page p s = Some s' \<and> counted s' \<and> fr s' = fr s - {p}"
proof -
  have p: "p < 8 * length (pmm_bitmap s)" using assms by (simp add: counted_def bits_bytes)
  show ?thesis
  proof (cases "p \<in> fr s")
    case True
    then have "0 < card (fr s)" by (auto simp: card_gt_0_iff)
    then show ?thesis
      using True assms(1) bitmap_set_frees [OF p] bitmap_test_frees [OF p]
      by (auto simp: reserve_page_def counted_def)
  next
    case False
    then show ?thesis
      using assms(1) bitmap_test_frees [OF p] by (auto simp: reserve_page_def counted_def)
  qed
qed

lemma release_page_rule:
  assumes "counted s" "p < MAX_PAGES"
  shows "\<exists>s'. release_page p s = Some s' \<and> counted s' \<and> fr s' = fr s \<union> ({p} - {0})"
proof -
  have p: "p < 8 * length (pmm_bitmap s)" using assms by (simp add: counted_def bits_bytes)
  show ?thesis
  proof (cases "p = 0 \<or> p \<in> fr s")
    case True
    then show ?thesis
      using assms(1) bitmap_test_frees [OF p] by (auto simp: release_page_def counted_def)
  next
    case False
    have "free_pages s < 4294967295"
      using counted_bound [OF assms(1)] by (simp add: MAX_PAGES_def)
    then show ?thesis
      using False assms(1) bitmap_clear_frees [OF p] bitmap_test_frees [OF p]
      by (auto simp: release_page_def counted_def)
  qed
qed

lemma reserve_pages_rule:
  assumes "counted s" "b \<le> MAX_PAGES"
  shows "\<exists>s'. for_each reserve_page [a..<b] s = Some s' \<and> counted s' \<and> fr s' = fr s - {a..<b}"
proof -
  have "\<exists>s'. for_each reserve_page [a..<b] s = Some s' \<and>
      (counted s' \<and> fr s' = fr s - {a..<a + length [a..<b]})"
  proof (rule for_each_invariant)
    fix i t assume "i < length [a..<b]" "counted t \<and> fr t = fr s - {a..<a + i}"
    then show "\<exists>t'. reserve_page ([a..<b] ! i) t = Some t' \<and> counted t' \<and> fr t' = fr s - {a..<a + Suc i}"
      using reserve_page_rule [of t "a + i"] assms(2) by fastforce
  qed (use assms in simp)
  then show ?thesis by (cases "a \<le> b") simp_all
qed

lemma release_pages_rule:
  assumes "counted s" "b \<le> MAX_PAGES"
  shows "\<exists>s'. for_each release_page [a..<b] s = Some s' \<and> counted s' \<and> fr s' = fr s \<union> ({a..<b} - {0})"
proof -
  have "\<exists>s'. for_each release_page [a..<b] s = Some s' \<and>
      (counted s' \<and> fr s' = fr s \<union> ({a..<a + length [a..<b]} - {0}))"
  proof (rule for_each_invariant)
    fix i t assume "i < length [a..<b]" "counted t \<and> fr t = fr s \<union> ({a..<a + i} - {0})"
    then show "\<exists>t'. release_page ([a..<b] ! i) t = Some t' \<and> counted t' \<and> fr t' = fr s \<union> ({a..<a + Suc i} - {0})"
      using release_page_rule [of t "a + i"] assms(2) by fastforce
  qed (use assms in simp)
  then show ?thesis by (cases "a \<le> b") simp_all
qed

section \<open>Alignment\<close>

lemma unat_align_down: "unat (align_down v 4096) = unat v div 4096 * 4096"
proof -
  have m: "NOT (4096 - 1) = (NOT (mask 12) :: u32)" by (simp add: mask_eq_exp_minus_1)
  have w: "align_down v 4096 = push_bit 12 (drop_bit 12 v)"
  proof -
    have "v AND NOT (mask 12) = push_bit 12 (drop_bit 12 v)"
      by (rule bit_word_eqI) (auto simp: bit_simps)
    then show ?thesis unfolding align_down_def m .
  qed
  have d: "unat (drop_bit 12 v) = unat v div 4096"
    using unat_bounds(3) [of v]
    by (simp only: unsigned_drop_bit_eq) (simp add: drop_bit_eq_div take_bit_eq_mod)
  have "unat v div 4096 * 4096 < 4294967296"
    using unat_bounds(3) [of v] div_times_less_eq_dividend [of "unat v" 4096] by linarith
  moreover have "unat (push_bit 12 (drop_bit 12 v)) = unat v div 4096 * 4096 mod 4294967296"
    by (simp only: unsigned_push_bit_eq d) (simp add: push_bit_eq_mult take_bit_eq_mod)
  ultimately show ?thesis by (simp add: w)
qed

lemma unat_align_up:
  "unat v \<le> 4294963200 \<Longrightarrow> unat (align_up v 4096) = (unat v + 4095) div 4096 * 4096"
proof -
  assume "unat v \<le> 4294963200"
  then have "unat (v + 4095) = unat v + 4095" by (simp add: unat_word_ariths)
  then show ?thesis
    using unat_align_down [of "v + 4095"] by (simp add: align_up_def align_down_def)
qed

section \<open>What initialisation frees and reserves\<close>

text \<open>The pages a byte range touches, and the pages that lie in it.\<close>

definition touched :: "u32 \<Rightarrow> u32 \<Rightarrow> nat set" where
  "touched a e = {unat a div 4096..<(unat e + 4095) div 4096}"

definition covered :: "u64 \<Rightarrow> u64 \<Rightarrow> nat set" where
  "covered a e =
     {p. 0 < p \<and> unat a \<le> p * 4096 \<and> (p + 1) * 4096 \<le> unat e \<and> unat e < 4294967296}"

lemma reserve_range_rule:
  assumes "counted s"
  shows "\<exists>s'. reserve_range a e s = Some s' \<and> counted s' \<and> fr s' \<subseteq> fr s
    \<and> (unat e \<le> 4294963200 \<longrightarrow> fr s' = fr s - touched a e)"
proof (cases "align_up e 4096 \<le> align_down a 4096")
  case True
  then have "unat e \<le> 4294963200 \<Longrightarrow> touched a e = {}"
    by (simp add: word_le_nat_alt unat_align_down unat_align_up touched_def)
  with True assms show ?thesis by (simp add: reserve_range_def)
next
  case False
  let ?e = "unat (align_up e 4096) div 4096"
  have e: "?e < MAX_PAGES"
    using unat_bounds(3) [of "align_up e 4096"] by (simp add: MAX_PAGES_def less_mult_imp_div_less)
  have "unat e \<le> 4294963200 \<Longrightarrow> touched a e = {unat (align_down a 4096) div 4096..<?e}"
    by (simp add: touched_def unat_align_down unat_align_up)
  then show ?thesis
    using False e reserve_pages_rule [OF assms, of ?e "unat (align_down a 4096) div 4096"]
    by (auto simp: reserve_range_def Let_def PAGE_SIZE_def)
qed

lemma free_usable_range_rule:
  assumes "counted s" "unat a \<le> 4294963200"
  shows "\<exists>s'. free_usable_range a e s = Some s' \<and> counted s' \<and> fr s' = fr s \<union> covered a e"
proof (cases "unat e < 4294967296 \<and> a < e")
  case False
  have "covered a e = {}" using False by (auto simp: covered_def word_less_nat_alt)
  moreover have "align_down (ucast (PHYS_ADDR_LIMIT_PLUS_ONE)) 4096 = 0"
    by (simp add: PHYS_ADDR_LIMIT_PLUS_ONE_def align_down_def)
  moreover have "e = PHYS_ADDR_LIMIT_PLUS_ONE \<or> PHYS_ADDR_LIMIT_PLUS_ONE < e \<or> e \<le> a"
    using False by (auto simp: PHYS_ADDR_LIMIT_PLUS_ONE_def word_less_nat_alt word_le_nat_alt
        word_unat_eq_iff)
  ultimately show ?thesis
    using assms(1) by (auto simp: free_usable_range_def Let_def)
next
  case True
  have ua: "unat (ucast a :: u32) = unat a" and ue: "unat (ucast e :: u32) = unat e"
    using True assms(2) by (simp_all add: unsigned_ucast_eq take_bit_eq_mod)
  have a: "\<not> 0xFFFFFFFF < a" and e: "\<not> PHYS_ADDR_LIMIT_PLUS_ONE < e" "\<not> e \<le> a"
    using True assms(2) by (simp_all add: word_less_nat_alt PHYS_ADDR_LIMIT_PLUS_ONE_def not_le)
  let ?a = "(unat a + 4095) div 4096" and ?e = "unat e div 4096"
  have u: "unat (align_up (ucast a) 4096) = ?a * 4096" "unat (align_down (ucast e) 4096) = ?e * 4096"
    using assms(2) by (simp_all add: unat_align_up unat_align_down ua ue)
  have c: "covered a e = {?a..<?e} - {0}"
    using True by (auto simp: covered_def div_less_iff_less_mult Suc_le_eq less_eq_div_iff_mult_less_eq)
  have m: "?e \<le> MAX_PAGES"
    using True div_le_mono [of "unat e" 4294967296 4096] by (simp add: MAX_PAGES_def)
  show ?thesis
    using release_pages_rule [OF assms(1) m, of ?a] a e
    by (auto simp: free_usable_range_def Let_def word_le_nat_alt u PAGE_SIZE_def c)
qed

section \<open>The memory map\<close>

text \<open>The \<open>k\<close>-th entry of a map at \<open>ptr\<close>, with entries of \<open>sz\<close> bytes, up to \<open>stop\<close>.\<close>

definition map_region :: "bytes \<Rightarrow> nat \<Rightarrow> nat \<Rightarrow> nat \<Rightarrow> nat \<Rightarrow> (u64 \<times> u64 \<times> u32) option" where
  "map_region info ptr sz stop k =
     (if ptr + (k + 1) * sz \<le> stop
      then (case (read_u64le info (ptr + k * sz), read_u64le info (ptr + k * sz + 8),
                  read_u32le info (ptr + k * sz + 16)) of
              (Some a, Some l, Some t) \<Rightarrow> Some (a, a + l, t)
            | _ \<Rightarrow> None)
      else None)"

text \<open>The pages inside an available region, and what the proofs ask of the map.\<close>

definition available :: "bytes \<Rightarrow> nat \<Rightarrow> nat \<Rightarrow> nat \<Rightarrow> nat set" where
  "available info ptr sz stop =
     {p. \<exists>k a e. map_region info ptr sz stop k = Some (a, e, MULTIBOOT_MEMORY_AVAILABLE)
        \<and> p \<in> covered a e}"

definition starts_low :: "bytes \<Rightarrow> nat \<Rightarrow> nat \<Rightarrow> nat \<Rightarrow> bool" where
  "starts_low info ptr sz stop \<longleftrightarrow>
     (\<forall>k a e. map_region info ptr sz stop k = Some (a, e, MULTIBOOT_MEMORY_AVAILABLE)
        \<longrightarrow> unat a \<le> 4294963200)"

definition below_4gib :: "bytes \<Rightarrow> nat \<Rightarrow> nat \<Rightarrow> nat \<Rightarrow> bool" where
  "below_4gib info ptr sz stop \<longleftrightarrow>
     (\<forall>k a e t. map_region info ptr sz stop k = Some (a, e, t) \<longrightarrow> unat e < 4294967296)"

lemma map_region_Suc:
  "map_region info ptr sz stop (Suc k) = map_region info (ptr + sz) sz stop k"
  by (simp add: map_region_def add.assoc add.commute add.left_commute)

lemma ex_nat_split: "(\<exists>k. P k) \<longleftrightarrow> P 0 \<or> (\<exists>k. P (Suc k))"
  by (metis not0_implies_Suc)

lemma all_nat_split: "(\<forall>k. P k) \<longleftrightarrow> P 0 \<and> (\<forall>k. P (Suc k))"
  by (metis not0_implies_Suc)

lemma available_split:
  "available info ptr sz stop =
     (case map_region info ptr sz stop 0 of
        Some (a, e, t) \<Rightarrow> if t = MULTIBOOT_MEMORY_AVAILABLE then covered a e else {}
      | None \<Rightarrow> {}) \<union> available info (ptr + sz) sz stop"
  unfolding available_def map_region_Suc [symmetric]
  by (subst ex_nat_split) (auto split: option.splits)

lemma starts_low_split:
  "starts_low info ptr sz stop \<longleftrightarrow>
     (\<forall>a e. map_region info ptr sz stop 0 = Some (a, e, MULTIBOOT_MEMORY_AVAILABLE)
        \<longrightarrow> unat a \<le> 4294963200) \<and> starts_low info (ptr + sz) sz stop"
  unfolding starts_low_def map_region_Suc [symmetric] by (subst all_nat_split) simp

lemma available_end:
  assumes "stop < ptr + sz"
  shows "available info ptr sz stop = {}"
proof -
  have "map_region info ptr sz stop k = None" for k using assms by (simp add: map_region_def)
  then show ?thesis by (simp add: available_def)
qed

lemma mmap_entry_rule:
  assumes "map_region info ptr sz stop 0 = Some (a, e, t)" "counted s"
    and "t = MULTIBOOT_MEMORY_AVAILABLE \<Longrightarrow> unat a \<le> 4294963200"
  shows "\<exists>s'. mmap_entry info ptr (h, s) = Some (max h e, s') \<and> counted s'
    \<and> fr s' = fr s \<union> (if t = MULTIBOOT_MEMORY_AVAILABLE then covered a e else {})"
proof -
  obtain l where r: "read_u64le info ptr = Some a" "read_u64le info (ptr + 8) = Some l"
    "read_u32le info (ptr + 16) = Some t" and e: "e = a + l"
    using assms(1) by (auto simp: map_region_def split: option.splits if_splits)
  have h: "(if h < a + l then a + l else h) = max h e" by (auto simp: e max_def)
  show ?thesis
  proof (cases "t = MULTIBOOT_MEMORY_AVAILABLE")
    case True
    obtain s' where "free_usable_range a (a + l) s = Some s'" "counted s'" "fr s' = fr s \<union> covered a e"
      using free_usable_range_rule [OF assms(2) assms(3) [OF True], of e] e by blast
    then show ?thesis using True h by (auto simp: mmap_entry_def r Let_def split: if_splits)
  next
    case False
    then show ?thesis using assms(2) h by (auto simp: mmap_entry_def r Let_def split: if_splits)
  qed
qed

text \<open>The loop frees the available pages, and the highest address bounds every region.\<close>

lemma mmap_entries_rule:
  assumes "mmap_entries fuel info ptr sz stop (h, s) = Some (Some (h', s'))"
    and "counted s" "starts_low info ptr sz stop"
  shows "counted s' \<and> fr s' = fr s \<union> available info ptr sz stop \<and> h \<le> h'
    \<and> (\<forall>k a e t. map_region info ptr sz stop k = Some (a, e, t) \<longrightarrow> e \<le> h')
    \<and> (h' = h \<or> (\<exists>k a t. map_region info ptr sz stop k = Some (a, h', t)))"
  using assms
proof (induction fuel arbitrary: ptr h s)
  case (Suc fuel)
  show ?case
  proof (cases "stop < ptr + sz")
    case True
    then have "map_region info ptr sz stop k = None" for k by (simp add: map_region_def)
    with True Suc.prems show ?thesis by (simp add: available_end)
  next
    case False
    then obtain a e t where r: "map_region info ptr sz stop 0 = Some (a, e, t)"
      using Suc.prems(1)
      by (auto simp: map_region_def mmap_entry_def split: option.splits prod.splits)
    have low: "starts_low info (ptr + sz) sz stop" "t = MULTIBOOT_MEMORY_AVAILABLE \<Longrightarrow> unat a \<le> 4294963200"
      using Suc.prems(3) r unfolding starts_low_split [of info ptr] by auto
    obtain s1 where s1: "mmap_entry info ptr (h, s) = Some (max h e, s1)" "counted s1"
      "fr s1 = fr s \<union> (if t = MULTIBOOT_MEMORY_AVAILABLE then covered a e else {})"
      using mmap_entry_rule [OF r Suc.prems(2) low(2)] by blast
    have m: "mmap_entries fuel info (ptr + sz) sz stop (max h e, s1) = Some (Some (h', s'))"
      using Suc.prems(1) False s1(1) by simp
    note ih = Suc.IH [OF m s1(2) low(1)]
    have av: "available info ptr sz stop
        = (if t = MULTIBOOT_MEMORY_AVAILABLE then covered a e else {}) \<union> available info (ptr + sz) sz stop"
      using available_split [of info ptr] r by simp
    have "\<forall>k a e t. map_region info ptr sz stop k = Some (a, e, t) \<longrightarrow> e \<le> h'"
      using ih r by (subst all_nat_split) (auto simp: map_region_Suc)
    moreover have "h' = h \<or> (\<exists>k a t. map_region info ptr sz stop k = Some (a, h', t))"
      using ih r by (subst ex_nat_split) (auto simp: map_region_Suc max_def split: if_splits)
    moreover have "h \<le> h'" using ih by simp
    ultimately show ?thesis using ih s1(3) av by (simp add: Un_assoc)
  qed
qed simp

text \<open>The loop ends when no entry is cut off and the fuel covers the map.\<close>

definition readable :: "bytes \<Rightarrow> nat \<Rightarrow> nat \<Rightarrow> nat \<Rightarrow> bool" where
  "readable info ptr sz stop \<longleftrightarrow> (\<forall>k. ptr + (k + 1) * sz \<le> stop \<longrightarrow> map_region info ptr sz stop k \<noteq> None)"

lemma readable_split:
  "readable info ptr sz stop \<longleftrightarrow>
     (ptr + sz \<le> stop \<longrightarrow> map_region info ptr sz stop 0 \<noteq> None) \<and> readable info (ptr + sz) sz stop"
  unfolding readable_def map_region_Suc [symmetric] by (subst all_nat_split) (simp add: add_ac)

lemma mmap_entries_end:
  assumes "counted s" "starts_low info ptr sz stop" "readable info ptr sz stop"
    and "0 < fuel" "stop < ptr + fuel * sz"
  shows "\<exists>h' s'. mmap_entries fuel info ptr sz stop (h, s) = Some (Some (h', s'))"
  using assms
proof (induction fuel arbitrary: ptr h s)
  case (Suc fuel)
  show ?case
  proof (cases "stop < ptr + sz")
    case False
    with Suc.prems(5) have fuel: "0 < fuel" by (cases fuel) simp_all
    from False obtain a e t where r: "map_region info ptr sz stop 0 = Some (a, e, t)"
      using Suc.prems(3) unfolding readable_split [of info ptr] by auto
    have low: "starts_low info (ptr + sz) sz stop" "t = MULTIBOOT_MEMORY_AVAILABLE \<Longrightarrow> unat a \<le> 4294963200"
      using Suc.prems(2) r unfolding starts_low_split [of info ptr] by auto
    obtain s1 where s1: "mmap_entry info ptr (h, s) = Some (max h e, s1)" "counted s1"
      using mmap_entry_rule [OF r Suc.prems(1) low(2)] by blast
    have "readable info (ptr + sz) sz stop" using Suc.prems(3) readable_split [of info ptr] by blast
    from Suc.IH [OF s1(2) low(1) this fuel, of "max h e"] False s1(1) Suc.prems(5) show ?thesis
      by (auto simp: algebra_simps)
  qed simp
qed simp

section \<open>The state after initialisation\<close>

definition pmm_ok :: "pmm \<Rightarrow> bool" where
  "pmm_ok s \<longleftrightarrow> counted s \<and> fr s \<subseteq> {0<..<total_pages s} \<and> total_pages s < MAX_PAGES
     \<and> used_pages s = total_pages s - free_pages s
     \<and> 0 < search_hint s \<and> search_hint s \<le> max 1 (total_pages s) \<and> pmm_initialized s"

definition fb_span :: "(u64 \<times> u32 \<times> u32) option \<Rightarrow> u32 \<times> u32" where
  "fb_span framebuffer =
     (case framebuffer of
        None \<Rightarrow> (0, 0)
      | Some (address, pitch, height) \<Rightarrow>
          (let fb_end = address + ucast pitch * ucast height
           in if address \<le> 0xFFFFFFFF
              then (ucast address, ucast (if 0x100000000 < fb_end then 0x100000000 else fb_end))
              else (0, 0)))"

lemma touched_empty: "touched 0 0 = {}"
  by (simp add: touched_def)

lemma reserve_framebuffer_span:
  assumes "counted s" "unat (snd (fb_span framebuffer)) \<le> 4294963200"
  shows "\<exists>s'. reserve_framebuffer framebuffer s = Some s' \<and> counted s'
    \<and> fr s' = fr s - touched (fst (fb_span framebuffer)) (snd (fb_span framebuffer))"
proof (cases framebuffer)
  case None
  then show ?thesis using assms(1) by (simp add: reserve_framebuffer_def fb_span_def touched_empty)
next
  case (Some f)
  obtain address pitch height where f: "f = (address, pitch, height)" by (cases f)
  let ?e = "address + ucast pitch * ucast height"
  show ?thesis
  proof (cases "address \<le> 0xFFFFFFFF")
    case True
    define e :: u32 where "e = ucast (if 0x100000000 < ?e then 0x100000000 else ?e)"
    have sp: "fb_span framebuffer = (ucast address, e)"
      using True by (simp add: Some f fb_span_def e_def)
    then have e: "unat e \<le> 4294963200" using assms(2) by simp
    have "reserve_framebuffer framebuffer s = reserve_range (ucast address) e s"
      using True by (simp add: Some f reserve_framebuffer_def Let_def e_def)
    then show ?thesis
      using reserve_range_rule [OF assms(1), of "ucast address" e] e by (auto simp: sp)
  next
    case False
    then show ?thesis
      using assms(1) by (simp add: Some f reserve_framebuffer_def fb_span_def touched_empty Let_def)
  qed
qed

lemma reserve_all_rule:
  assumes "counted s" "unat (base + total_size) \<le> 4294963200" "unat kernel_end \<le> 4294963200"
    and "unat (snd (fb_span framebuffer)) \<le> 4294963200"
  shows "\<exists>s'. pmm_reserve_all base total_size kernel_start kernel_end framebuffer s = Some s' \<and> counted s'
    \<and> fr s' = fr s - {..<256} - touched base (base + total_size) - touched kernel_start kernel_end
              - touched (fst (fb_span framebuffer)) (snd (fb_span framebuffer))"
proof -
  have low: "touched 0 LOW_MEMORY_RESERVE_END = {..<256}" "unat LOW_MEMORY_RESERVE_END \<le> 4294963200"
    by (auto simp: touched_def LOW_MEMORY_RESERVE_END_def)
  obtain s1 where s1: "reserve_range 0 LOW_MEMORY_RESERVE_END s = Some s1" "counted s1" "fr s1 = fr s - {..<256}"
    using reserve_range_rule [OF assms(1), of 0 LOW_MEMORY_RESERVE_END] low by auto
  obtain s2 where s2: "reserve_range base (base + total_size) s1 = Some s2" "counted s2"
    "fr s2 = fr s1 - touched base (base + total_size)"
    using reserve_range_rule [OF s1(2), of base "base + total_size"] assms(2) by auto
  obtain s3 where s3: "reserve_range kernel_start kernel_end s2 = Some s3" "counted s3"
    "fr s3 = fr s2 - touched kernel_start kernel_end"
    using reserve_range_rule [OF s2(2), of kernel_start kernel_end] assms(3) by auto
  show ?thesis
    using reserve_framebuffer_span [OF s3(2) assms(4)] s1 s2 s3 by (auto simp: pmm_reserve_all_def)
qed

lemma counted_reset: "counted (pmm_reset s)" "fr (pmm_reset s) = {}"
  by (simp_all add: counted_def pmm_reset_def frees_reset)

text \<open>The last step; at 4 GiB the size of memory wraps to 0.\<close>

lemma pmm_finish_rule:
  assumes "counted s" "0 \<notin> fr s"
  shows "\<exists>s'. pmm_finish highest s = Some s' \<and> counted s' \<and> fr s' = fr s
    \<and> total_pages s' = (if unat highest < 4294967296 then unat highest div 4096 else 0)
    \<and> used_pages s' = sub32 (total_pages s') (free_pages s') \<and> search_hint s' = 1 \<and> pmm_initialized s'"
proof -
  have p: "0 < 8 * length (pmm_bitmap s)" using assms(1) by (simp add: counted_def BITMAP_BYTES_def)
  have h: "unat (ucast (if PHYS_ADDR_LIMIT_PLUS_ONE < highest then PHYS_ADDR_LIMIT_PLUS_ONE else highest) :: u32)
      = (if unat highest < 4294967296 then unat highest else 0)"
    by (auto simp: PHYS_ADDR_LIMIT_PLUS_ONE_def word_less_nat_alt unsigned_ucast_eq take_bit_eq_mod)
  obtain b where "bitmap_set 0 (pmm_bitmap s) = Some b" "length b = length (pmm_bitmap s)"
      "frees b = frees (pmm_bitmap s) - {0}"
    using bitmap_set_frees [OF p] by blast
  then show ?thesis
    using assms by (auto simp: pmm_finish_def Let_def h counted_def PAGE_SIZE_def)
qed

lemma available_not_0: "0 \<notin> available info ptr sz stop"
  by (simp add: available_def covered_def)

lemma pmm_init_run:
  assumes "read_u32le info 0 = Some total_size" "find_mmap_tag fuel info 8 (unat total_size) = Some (Tag_At tag)"
    and "read_u32le info (tag + 4) = Some sz" "read_u32le info (tag + 8) = Some esz"
    and "starts_low info (tag + 16) (unat esz) (tag + unat sz)"
    and "readable info (tag + 16) (unat esz) (tag + unat sz)" "tag + unat sz < tag + 16 + fuel * unat esz"
    and "unat (base + total_size) \<le> 4294963200" "unat kernel_end \<le> 4294963200"
    and "unat (snd (fb_span framebuffer)) \<le> 4294963200"
  obtains highest s1 s where
    "pmm_init fuel (Some (base, info)) kernel_start kernel_end framebuffer s0 = Some (Ready s)"
    "mmap_entries fuel info (tag + 16) (unat esz) (tag + unat sz) (0, pmm_reset s0) = Some (Some (highest, s1))"
    "counted s"
    "fr s = available info (tag + 16) (unat esz) (tag + unat sz) - {..<256} - touched base (base + total_size)
       - touched kernel_start kernel_end - touched (fst (fb_span framebuffer)) (snd (fb_span framebuffer))"
    "total_pages s = (if unat highest < 4294967296 then unat highest div 4096 else 0)"
    "used_pages s = sub32 (total_pages s) (free_pages s)" "search_hint s = 1" "pmm_initialized s"
proof -
  have fuel: "0 < fuel" using assms(2) by (cases fuel) simp_all
  obtain highest s1 where
    m: "mmap_entries fuel info (tag + 16) (unat esz) (tag + unat sz) (0, pmm_reset s0) = Some (Some (highest, s1))"
    using mmap_entries_end [OF counted_reset(1) assms(5,6) fuel assms(7)] by blast
  note e = mmap_entries_rule [OF m counted_reset(1) assms(5), unfolded counted_reset(2)]
  obtain s2 where r: "pmm_reserve_all base total_size kernel_start kernel_end framebuffer s1 = Some s2"
    and c2: "counted s2" and f2: "fr s2 = available info (tag + 16) (unat esz) (tag + unat sz) - {..<256}
      - touched base (base + total_size) - touched kernel_start kernel_end
      - touched (fst (fb_span framebuffer)) (snd (fb_span framebuffer))"
    using reserve_all_rule [OF _ assms(8-10), of s1 kernel_start] e by auto
  have "0 \<notin> fr s2" by (simp add: f2)
  from pmm_finish_rule [OF c2 this, of highest] obtain s where
    f: "pmm_finish highest s2 = Some s" and s: "counted s" "fr s = fr s2"
    "total_pages s = (if unat highest < 4294967296 then unat highest div 4096 else 0)"
    "used_pages s = sub32 (total_pages s) (free_pages s)" "search_hint s = 1" "pmm_initialized s"
    by blast
  have "pmm_init fuel (Some (base, info)) kernel_start kernel_end framebuffer s0 = Some (Ready s)"
    using assms(1-4) m r f by (simp add: pmm_init_def)
  from that [OF this m s(1) _ s(3-6)] show ?thesis using s(2) f2 by simp
qed

text \<open>
  C14. \<open>pmm_init\<close> returns for every memory map that is complete and stays below 4 GiB, and leaves
  exactly these frames free: the pages inside an available region, less the first MiB and every page
  the boot information, the kernel or the framebuffer touches. The statistics and the search hint then
  satisfy the invariant of the allocator.
\<close>

theorem pmm_init_frames:
  assumes "read_u32le info 0 = Some total_size" "find_mmap_tag fuel info 8 (unat total_size) = Some (Tag_At tag)"
    and "read_u32le info (tag + 4) = Some sz" "read_u32le info (tag + 8) = Some esz"
    and "starts_low info (tag + 16) (unat esz) (tag + unat sz)"
    and "readable info (tag + 16) (unat esz) (tag + unat sz)" "tag + unat sz < tag + 16 + fuel * unat esz"
    and "unat (base + total_size) \<le> 4294963200" "unat kernel_end \<le> 4294963200"
    and "unat (snd (fb_span framebuffer)) \<le> 4294963200"
    and "below_4gib info (tag + 16) (unat esz) (tag + unat sz)"
  shows "\<exists>s. pmm_init fuel (Some (base, info)) kernel_start kernel_end framebuffer s0 = Some (Ready s)
    \<and> pmm_ok s \<and> frees (pmm_bitmap s) =
      available info (tag + 16) (unat esz) (tag + unat sz) - {..<256} - touched base (base + total_size)
        - touched kernel_start kernel_end - touched (fst (fb_span framebuffer)) (snd (fb_span framebuffer))"
proof -
  from pmm_init_run [OF assms(1-10), of kernel_start s0] obtain highest s1 s where
    i: "pmm_init fuel (Some (base, info)) kernel_start kernel_end framebuffer s0 = Some (Ready s)"
    and m: "mmap_entries fuel info (tag + 16) (unat esz) (tag + unat sz) (0, pmm_reset s0) = Some (Some (highest, s1))"
    and c: "counted s"
    and f: "fr s = available info (tag + 16) (unat esz) (tag + unat sz) - {..<256} - touched base (base + total_size)
       - touched kernel_start kernel_end - touched (fst (fb_span framebuffer)) (snd (fb_span framebuffer))"
    and t: "total_pages s = (if unat highest < 4294967296 then unat highest div 4096 else 0)"
    and u: "used_pages s = sub32 (total_pages s) (free_pages s)" "search_hint s = 1" "pmm_initialized s" .
  note e = mmap_entries_rule [OF m counted_reset(1) assms(5), unfolded counted_reset(2)]
  have h: "unat highest < 4294967296"
    using e assms(11) by (auto simp: below_4gib_def)
  have "fr s \<subseteq> {0<..<total_pages s}"
  proof
    fix p assume "p \<in> fr s"
    then have "p \<in> available info (tag + 16) (unat esz) (tag + unat sz)" using f by auto
    then obtain k a e' where k: "map_region info (tag + 16) (unat esz) (tag + unat sz) k
        = Some (a, e', MULTIBOOT_MEMORY_AVAILABLE)" "p \<in> covered a e'"
      by (auto simp: available_def)
    with e have "e' \<le> highest" by blast
    with k(2) have "0 < p" "(p + 1) * 4096 \<le> unat highest"
      by (auto simp: covered_def word_le_nat_alt)
    then show "p \<in> {0<..<total_pages s}" using h t by (simp add: less_eq_div_iff_mult_less_eq Suc_le_eq [symmetric])
  qed
  moreover from this have "card (fr s) \<le> card {0<..<total_pages s}" by (intro card_mono) simp_all
  then have "free_pages s \<le> total_pages s" using c by (simp add: counted_def)
  moreover have "total_pages s < MAX_PAGES" using h t by (simp add: MAX_PAGES_def less_mult_imp_div_less)
  ultimately have "pmm_ok s" using c u by (simp add: pmm_ok_def MAX_PAGES_def)
  with i f show ?thesis by blast
qed

text \<open>A map with 256 KiB of memory above the boot information and one reserved region.\<close>

definition small_map :: bytes where
  "small_map = le_of_u32 80 @ le_of_u32 0
     @ le_of_u32 6 @ le_of_u32 64 @ le_of_u32 24 @ le_of_u32 0
     @ le_of_u32 0x100000 @ le_of_u32 0 @ le_of_u32 0x40000 @ le_of_u32 0 @ le_of_u32 1 @ le_of_u32 0
     @ le_of_u32 0x140000 @ le_of_u32 0 @ le_of_u32 0x1000 @ le_of_u32 0 @ le_of_u32 2 @ le_of_u32 0
     @ le_of_u32 0 @ le_of_u32 8"

lemma small_map_reads:
  "read_u32le small_map 0 = Some 80" "find_mmap_tag 3 small_map 8 80 = Some (Tag_At 8)"
  "read_u32le small_map 12 = Some 64" "read_u32le small_map 16 = Some 24"
  "map_region small_map 24 24 72 0 = Some (0x100000, 0x140000, 1)"
  "map_region small_map 24 24 72 1 = Some (0x140000, 0x141000, 2)"
  by code_simp+

lemma small_map_regions:
  "map_region small_map 24 24 72 k =
     (if k = 0 then Some (0x100000, 0x140000, 1) else if k = 1 then Some (0x140000, 0x141000, 2) else None)"
proof -
  have "map_region small_map 24 24 72 k = None" if "2 \<le> k" using that by (simp add: map_region_def)
  then show ?thesis using small_map_reads(5,6) by (cases "k = 0 \<or> k = 1") auto
qed

lemma small_map_ok:
  "starts_low small_map 24 24 72" "readable small_map 24 24 72" "below_4gib small_map 24 24 72"
  by (auto simp: starts_low_def readable_def below_4gib_def small_map_regions MULTIBOOT_MEMORY_AVAILABLE_def)

lemma small_map_available: "available small_map 24 24 72 = {256..<320}"
proof -
  have "map_region small_map 48 24 72 0 = Some (0x140000, 0x141000, 2)"
    using small_map_reads(6) map_region_Suc [of small_map 24 24 72 0] by simp
  then have "available small_map 24 24 72 = covered 0x100000 0x140000"
    using small_map_reads(5) available_split [of small_map 24 24 72] available_split [of small_map 48 24 72]
    by (simp add: available_end MULTIBOOT_MEMORY_AVAILABLE_def)
  also have "\<dots> = {256..<320}" by (auto simp: covered_def)
  finally show ?thesis .
qed

definition pmm_boot :: pmm where
  "pmm_boot = \<lparr>pmm_bitmap = replicate BITMAP_BYTES 0, total_memory_bytes = 0, usable_memory_bytes = 0,
     reserved_memory_bytes = 0, total_pages = 0, free_pages = 0, used_pages = 0, search_hint = 1,
     pmm_initialized = False\<rparr>"

theorem pmm_init_frames_witness:
  "\<exists>s. pmm_init 3 (Some (0x110000, small_map)) 0x120000 0x130000 None pmm_boot = Some (Ready s) \<and> pmm_ok s
    \<and> frees (pmm_bitmap s) = {256..<272} \<union> {273..<288} \<union> {304..<320}"
proof -
  have "{256..<320} - {..<256} - touched 0x110000 (0x110000 + 80) - touched 0x120000 0x130000 - touched 0 0
      = {256..<272} \<union> {273..<288} \<union> {304..<320}"
    by (auto simp: touched_def)
  then show ?thesis
    using pmm_init_frames [where info = small_map and total_size = "80" and fuel = "3" and tag = "8" and sz = "64"
        and esz = "24" and base = "0x110000" and kernel_start = "0x120000" and kernel_end = "0x130000"
        and framebuffer = None and ?s0.0 = pmm_boot]
    by (simp add: small_map_reads small_map_ok small_map_available fb_span_def)
qed

text \<open>
  C17. As soon as any region of the map, usable or not, ends at or above 4 GiB, the
  memory size wraps to 0 and the allocator refuses every request for ever, whatever frames are free.
\<close>

theorem pmm_4gib_unusable:
  assumes "read_u32le info 0 = Some total_size" "find_mmap_tag fuel info 8 (unat total_size) = Some (Tag_At tag)"
    and "read_u32le info (tag + 4) = Some sz" "read_u32le info (tag + 8) = Some esz"
    and "starts_low info (tag + 16) (unat esz) (tag + unat sz)"
    and "readable info (tag + 16) (unat esz) (tag + unat sz)" "tag + unat sz < tag + 16 + fuel * unat esz"
    and "unat (base + total_size) \<le> 4294963200" "unat kernel_end \<le> 4294963200"
    and "unat (snd (fb_span framebuffer)) \<le> 4294963200"
    and "map_region info (tag + 16) (unat esz) (tag + unat sz) k = Some (a, e, t)" "4294967296 \<le> unat e"
  shows "\<exists>s. pmm_init fuel (Some (base, info)) kernel_start kernel_end framebuffer s0 = Some (Ready s)
    \<and> frees (pmm_bitmap s) =
      available info (tag + 16) (unat esz) (tag + unat sz) - {..<256} - touched base (base + total_size)
        - touched kernel_start kernel_end - touched (fst (fb_span framebuffer)) (snd (fb_span framebuffer))
    \<and> (\<forall>n. pmm_alloc_pages n s = Some (0, s))"
proof -
  from pmm_init_run [OF assms(1-10), of kernel_start s0] obtain highest s1 s where
    i: "pmm_init fuel (Some (base, info)) kernel_start kernel_end framebuffer s0 = Some (Ready s)"
    and m: "mmap_entries fuel info (tag + 16) (unat esz) (tag + unat sz) (0, pmm_reset s0) = Some (Some (highest, s1))"
    and f: "fr s = available info (tag + 16) (unat esz) (tag + unat sz) - {..<256} - touched base (base + total_size)
       - touched kernel_start kernel_end - touched (fst (fb_span framebuffer)) (snd (fb_span framebuffer))"
    and t: "total_pages s = (if unat highest < 4294967296 then unat highest div 4096 else 0)"
    and u: "search_hint s = 1" .
  note r = mmap_entries_rule [OF m counted_reset(1) assms(5), unfolded counted_reset(2)]
  have "e \<le> highest" using r assms(11) by blast
  then have "total_pages s = 0" using t assms(12) by (simp add: word_le_nat_alt)
  then have "pmm_alloc_pages n s = Some (0, s)" for n
    by (simp add: pmm_alloc_pages_def alloc_pass_def u)
  with i f show ?thesis by blast
qed

text \<open>The map of a PC with 128 MiB: the firmware reports its ROM just below 4 GiB.\<close>

definition pc_map :: bytes where
  "pc_map = le_of_u32 80 @ le_of_u32 0
     @ le_of_u32 6 @ le_of_u32 64 @ le_of_u32 24 @ le_of_u32 0
     @ le_of_u32 0x100000 @ le_of_u32 0 @ le_of_u32 0x7EE0000 @ le_of_u32 0 @ le_of_u32 1 @ le_of_u32 0
     @ le_of_u32 0xFFFC0000 @ le_of_u32 0 @ le_of_u32 0x40000 @ le_of_u32 0 @ le_of_u32 2 @ le_of_u32 0
     @ le_of_u32 0 @ le_of_u32 8"

lemma pc_map_reads:
  "read_u32le pc_map 0 = Some 80" "find_mmap_tag 3 pc_map 8 80 = Some (Tag_At 8)"
  "read_u32le pc_map 12 = Some 64" "read_u32le pc_map 16 = Some 24"
  "map_region pc_map 24 24 72 0 = Some (0x100000, 0x7FE0000, 1)"
  "map_region pc_map 24 24 72 1 = Some (0xFFFC0000, 0x100000000, 2)"
  by code_simp+

lemma pc_map_regions:
  "map_region pc_map 24 24 72 k =
     (if k = 0 then Some (0x100000, 0x7FE0000, 1) else if k = 1 then Some (0xFFFC0000, 0x100000000, 2) else None)"
proof -
  have "map_region pc_map 24 24 72 k = None" if "2 \<le> k" using that by (simp add: map_region_def)
  then show ?thesis using pc_map_reads(5,6) by (cases "k = 0 \<or> k = 1") auto
qed

theorem pmm_4gib_unusable_witness:
  "\<exists>s. pmm_init 3 (Some (0x110000, pc_map)) 0x120000 0x130000 None pmm_boot = Some (Ready s)
    \<and> (\<forall>n. pmm_alloc_pages n s = Some (0, s))"
proof -
  have "starts_low pc_map 24 24 72" "readable pc_map 24 24 72"
    by (auto simp: starts_low_def readable_def pc_map_regions MULTIBOOT_MEMORY_AVAILABLE_def)
  then show ?thesis
    using pmm_4gib_unusable [where info = pc_map and total_size = "80" and fuel = "3" and tag = "8" and sz = "64"
        and esz = "24" and base = "0x110000" and kernel_start = "0x120000" and kernel_end = "0x130000"
        and framebuffer = None and ?s0.0 = pmm_boot and k = "1" and a = "0xFFFC0000" and e = "0x100000000"
        and t = "2"]
      pc_map_reads(6)
    by (auto simp: pc_map_reads fb_span_def)
qed

end
