(* ===== verification/Pmm_Alloc.thy ===== *)
theory Pmm_Alloc
  imports Pmm_Frames
begin

text \<open>
  Allocation and release against the set of free frames: what \<open>pmm_alloc_pages\<close> hands out, when it
  succeeds, and that the invariant \<open>pmm_ok\<close> lasts.
\<close>

section \<open>Searching and marking\<close>

lemma pages_are_free_rule:
  "page + n \<le> 8 * length b \<Longrightarrow> page + n < 4294967296 \<Longrightarrow>
   pages_are_free page n b = Some ({page..<page + n} \<subseteq> frees b)"
proof (induction n arbitrary: page)
  case (Suc n)
  have "{page..<page + Suc n} = insert page {Suc page..<Suc page + n}" by auto
  then show ?case
    using Suc.IH [of "Suc page"] Suc.prems by (simp add: bitmap_test_frees split: bool.split)
qed simp

lemma set_pages_rule:
  assumes "page + n \<le> 8 * length b" "page + n < 4294967296"
  shows "\<exists>b'. for_each (\<lambda>i b. bitmap_set (add32 page i) b) [0..<n] b = Some b'
    \<and> length b' = length b \<and> frees b' = frees b - {page..<page + n}"
proof -
  let ?f = "\<lambda>i b. bitmap_set (add32 page i) b"
  have "\<exists>b'. for_each ?f [0..<n] b = Some b'
      \<and> length b' = length b \<and> frees b' = frees b - {page..<page + length [0..<n]}"
  proof (rule for_each_invariant)
    fix i c assume i: "i < length [0..<n]" and c: "length c = length b \<and> frees c = frees b - {page..<page + i}"
    have "page + i < 8 * length c" using i c assms(1) by simp
    from bitmap_set_frees [OF this] c i assms(2)
    show "\<exists>c'. ?f ([0..<n] ! i) c = Some c' \<and> length c' = length b \<and> frees c' = frees b - {page..<page + Suc i}"
      by fastforce
  qed simp
  then show ?thesis by simp
qed

text \<open>The search finds the first run that ends by \<open>stop\<close>.\<close>

lemma find_run_rule:
  assumes "0 < n" "stop < 8 * length b" "8 * length b + n < 4294967296"
  shows "page \<le> 8 * length b \<Longrightarrow> find_run b n stop page =
    Some (if \<exists>q\<ge>page. q + n \<le> stop + 1 \<and> {q..<q + n} \<subseteq> frees b
          then Some (LEAST q. page \<le> q \<and> q + n \<le> stop + 1 \<and> {q..<q + n} \<subseteq> frees b) else None)"
proof (induction "8 * length b - page" arbitrary: page rule: less_induct)
  case less
  let ?P = "\<lambda>q. page \<le> q \<and> q + n \<le> stop + 1 \<and> {q..<q + n} \<subseteq> frees b"
  have guard: "n = 0 \<or> stop < sub32 (add32 page n) 1 \<longleftrightarrow> stop + 1 < page + n"
    using assms less.prems by auto
  show ?case
  proof (cases "stop + 1 < page + n")
    case True
    then have no: "\<not> (\<exists>q\<ge>page. q + n \<le> stop + 1 \<and> {q..<q + n} \<subseteq> frees b)" by auto
    have "find_run b n stop page = Some None" 
      unfolding find_run.simps [of b n stop page] guard if_P [OF True] ..
    then show ?thesis by (simp only: if_not_P [OF no])
  next
    case False
    have t: "pages_are_free page n b = Some ({page..<page + n} \<subseteq> frees b)"
      using False assms by (intro pages_are_free_rule) simp_all
    show ?thesis
    proof (cases "{page..<page + n} \<subseteq> frees b")
      case True
      have "(LEAST q. ?P q) = page" using True False by (intro Least_equality) auto
      moreover have "find_run b n stop page = Some (Some page)"
        unfolding find_run.simps [of b n stop page] guard if_not_P [OF False] t using True by simp
      moreover have "\<exists>q. ?P q" using True False by (intro exI [of _ page]) auto
      ultimately show ?thesis by simp
    next
      case notfree: False
      have eq: "?P q \<longleftrightarrow> page + 1 \<le> q \<and> q + n \<le> stop + 1 \<and> {q..<q + n} \<subseteq> frees b" for q
        using notfree by (cases "q = page") auto
      have "find_run b n stop page = find_run b n stop (page + 1)"
        unfolding find_run.simps [of b n stop page] guard if_not_P [OF False] t using notfree by simp
      also have "\<dots> = Some (if \<exists>q. ?P q then Some (LEAST q. ?P q) else None)"
        unfolding eq using less.hyps [of "page + 1"] False assms(1,2) less.prems by simp
      finally show ?thesis by simp
    qed
  qed
qed

lemma find_run_cases:
  assumes "0 < n" "stop < 8 * length b" "8 * length b + n < 4294967296" "page \<le> 8 * length b"
  obtains (found) q where "find_run b n stop page = Some (Some q)" "page \<le> q" "q + n \<le> stop + 1"
      "{q..<q + n} \<subseteq> frees b"
  | (none) "find_run b n stop page = Some None"
      "\<And>q. page \<le> q \<Longrightarrow> q + n \<le> stop + 1 \<Longrightarrow> \<not> {q..<q + n} \<subseteq> frees b"
proof (cases "\<exists>q. page \<le> q \<and> q + n \<le> stop + 1 \<and> {q..<q + n} \<subseteq> frees b")
  case True
  then show ?thesis using LeastI_ex [OF True] find_run_rule [OF assms] found by simp
next
  case False
  then show ?thesis using find_run_rule [OF assms] none by auto
qed

section \<open>Allocation\<close>

lemma pmm_ok_pages: "pmm_ok s \<Longrightarrow> p \<in> fr s \<Longrightarrow> 0 < p \<and> p < total_pages s"
  by (auto simp: pmm_ok_def)

lemma alloc_at_rule:
  assumes "pmm_ok s" "0 < n" "{page..<page + n} \<subseteq> fr s"
  shows "\<exists>s'. alloc_at n page s = Some (page * 4096, s') \<and> pmm_ok s' \<and> fr s' = fr s - {page..<page + n}
    \<and> total_pages s' = total_pages s"
proof -
  have page: "0 < page" "page + n \<le> total_pages s"
    using pmm_ok_pages [OF assms(1), of page] pmm_ok_pages [OF assms(1), of "page + n - 1"] assms(2,3)
    by (auto simp: subset_iff)
  have c: "counted s" and t: "total_pages s < MAX_PAGES" and u: "used_pages s = total_pages s - free_pages s"
    using assms(1) by (simp_all add: pmm_ok_def)
  have l: "page + n \<le> 8 * length (pmm_bitmap s)"
    using page t c by (simp add: counted_def bits_bytes)
  obtain b where b: "for_each (\<lambda>i b. bitmap_set (add32 page i) b) [0..<n] (pmm_bitmap s) = Some b"
    "length b = length (pmm_bitmap s)" "frees b = fr s - {page..<page + n}"
    using set_pages_rule [OF l] page t by (auto simp: MAX_PAGES_def)
  have card: "card (frees b) = card (fr s) - n" "n \<le> card (fr s)"
    using card_Diff_subset [of "{page..<page + n}" "fr s"] card_mono [OF _ assms(3)] assms(3)
    by (simp_all add: b(3))
  have "fr s \<subseteq> {0<..<total_pages s}" using assms(1) by (simp add: pmm_ok_def)
  then have "card (fr s) \<le> card {0<..<total_pages s}" by (intro card_mono) simp_all
  then have le: "free_pages s \<le> total_pages s" using c by (simp add: counted_def)
  show ?thesis
    using assms(1) b card le page t u
    by (auto simp: alloc_at_def mark_pages_used_def pmm_ok_def counted_def PAGE_SIZE_def MAX_PAGES_def)
qed

lemma alloc_pass_cases:
  assumes "counted s" "0 < n" "n \<le> MAX_PAGES" "stop < MAX_PAGES"
  obtains (found) q where "alloc_pass n start stop s = Some (Some q)" "start \<le> q" "q + n \<le> stop + 1"
      "{q..<q + n} \<subseteq> fr s"
  | (none) "alloc_pass n start stop s = Some None"
      "\<And>q. start < stop \<Longrightarrow> start \<le> q \<Longrightarrow> q + n \<le> stop + 1 \<Longrightarrow> \<not> {q..<q + n} \<subseteq> fr s"
proof (cases "stop \<le> start \<or> add32 (stop - start) 1 < n")
  case True
  have "add32 (stop - start) 1 = stop - start + 1"
    using assms(4) by (simp add: MAX_PAGES_def)
  with True show ?thesis using none by (auto simp: alloc_pass_def)
next
  case False
  then have p: "alloc_pass n start stop s = find_run (pmm_bitmap s) n stop start"
    by (simp add: alloc_pass_def)
  have l: "8 * length (pmm_bitmap s) = MAX_PAGES" using assms(1) by (simp add: counted_def bits_bytes)
  show ?thesis
  proof (rule find_run_cases [of n stop "pmm_bitmap s" start])
    show "8 * length (pmm_bitmap s) + n < 4294967296" using assms(3) l by (simp add: MAX_PAGES_def)
  qed (use False assms l p found none in auto)
qed

lemma pmm_alloc_cases:
  assumes "pmm_ok s" "0 < n"
  obtains (found) q s' where "pmm_alloc_pages n s = Some (q * 4096, s')" "0 < q" "q + n \<le> total_pages s"
      "{q..<q + n} \<subseteq> fr s" "pmm_ok s'" "fr s' = fr s - {q..<q + n}" "total_pages s' = total_pages s"
  | (none) "pmm_alloc_pages n s = Some (0, s)"
      "\<And>q. n \<le> free_pages s \<Longrightarrow> {q..<q + n} \<subseteq> fr s
         \<Longrightarrow> q < search_hint s \<and> search_hint s < q + n - 1 \<or> total_pages s \<le> 2"
proof -
  note ok = assms(1) [unfolded pmm_ok_def]
  let ?max = "if 0 < total_pages s then total_pages s - 1 else 0"
  show ?thesis
  proof (cases "free_pages s < n")
    case True
    then show ?thesis using none ok assms(2) by (simp add: pmm_alloc_pages_def)
  next
    case False
    then have n: "n \<le> MAX_PAGES" using counted_bound [of s] ok by simp
    have hit: thesis if h: "pmm_alloc_pages n s = alloc_at n q s" "{q..<q + n} \<subseteq> fr s" for q
    proof -
      obtain s' where s': "alloc_at n q s = Some (q * 4096, s')" "pmm_ok s'" "fr s' = fr s - {q..<q + n}"
        "total_pages s' = total_pages s"
        using alloc_at_rule [OF assms h(2)] by blast
      have "0 < q" "q + n \<le> total_pages s"
        using pmm_ok_pages [OF assms(1), of q] pmm_ok_pages [OF assms(1), of "q + n - 1"] h(2) assms(2)
        by (auto simp: subset_iff)
      with s' h show ?thesis by (intro found [of q s']) simp_all
    qed
    have max: "?max < MAX_PAGES" and hint: "search_hint s < MAX_PAGES"
      using ok by (auto simp: MAX_PAGES_def)
    have c: "counted s" using ok by simp
    have start: "(if search_hint s < 1 then 1 else search_hint s) = search_hint s" using ok by simp
    from c assms(2) n max show ?thesis
    proof (cases rule: alloc_pass_cases [where start = "search_hint s"])
      case (found q)
      then show ?thesis using False ok assms(2) start
        by (intro hit [of q]) (auto simp: pmm_alloc_pages_def Let_def)
    next
      case n1: none
      from c assms(2) n hint show ?thesis
      proof (cases rule: alloc_pass_cases [where start = 1])
        case (found q)
        then show ?thesis using False ok assms(2) n1(1) start
          by (intro hit [of q]) (auto simp: pmm_alloc_pages_def Let_def)
      next
        case n2: none
        have "pmm_alloc_pages n s = Some (0, s)"
          using False ok assms(2) n1(1) n2(1) start by (auto simp: pmm_alloc_pages_def Let_def)
        then show ?thesis
        proof (rule none)
          fix q assume q: "{q..<q + n} \<subseteq> fr s"
          then have b: "0 < q" "q + n \<le> total_pages s"
            using pmm_ok_pages [OF assms(1), of q] pmm_ok_pages [OF assms(1), of "q + n - 1"] assms(2)
            by (auto simp: subset_iff)
          define h t where "h = search_hint s" "t = total_pages s"
          have "\<not> (h < t - 1 \<and> h \<le> q)" using n1(2) [of q] q b by (auto simp: h_t_def)
          moreover have "\<not> (1 < h \<and> q + n \<le> h + 1)" using n2(2) [of q] q b by (auto simp: h_t_def)
          moreover have "0 < h" "h \<le> max 1 t" using ok by (simp_all add: h_t_def)
          ultimately show "q < search_hint s \<and> search_hint s < q + n - 1 \<or> total_pages s \<le> 2"
            unfolding h_t_def [symmetric] using b assms(2) by (simp add: h_t_def [symmetric] max_def split: if_splits) presburger+
        qed
      qed
    qed
  qed
qed

text \<open>
  C15. On every state that satisfies the invariant, \<open>pmm_alloc_pages\<close> returns: either the address
  of a run of frames that were all free, lie inside memory and are now used, everything else being as
  before, or the null pointer with no effect. The invariant is kept and no access leaves the bitmap.
\<close>

theorem pmm_alloc_refines:
  assumes "pmm_ok s"
  shows "\<exists>addr s'. pmm_alloc_pages n s = Some (addr, s') \<and> pmm_ok s'
    \<and> (if addr = 0 then s' = s
       else \<exists>q. addr = q * PAGE_SIZE \<and> 0 < q \<and> q + n \<le> total_pages s
          \<and> {q..<q + n} \<subseteq> frees (pmm_bitmap s)
          \<and> frees (pmm_bitmap s') = frees (pmm_bitmap s) - {q..<q + n})"
proof (cases "n = 0")
  case True
  then show ?thesis using assms by (simp add: pmm_alloc_pages_def)
next
  case False
  then have "0 < n" by simp
  from assms \<open>0 < n\<close> show ?thesis
  proof (cases rule: pmm_alloc_cases)
    case (found q s')
    then show ?thesis by (intro exI [of _ "q * 4096"] exI [of _ s']) (auto simp: PAGE_SIZE_def)
  next
    case none
    then show ?thesis using assms by auto
  qed
qed

text \<open>
  C16. A single page is refused only when no frame is free.
\<close>

theorem pmm_alloc_page_complete:
  assumes "pmm_ok s" "2 < total_pages s" "frees (pmm_bitmap s) \<noteq> {}"
  shows "\<exists>addr s'. pmm_alloc_page s = Some (addr, s') \<and> addr \<noteq> 0 \<and> pmm_ok s'"
  using assms(1) zero_less_one
proof (cases rule: pmm_alloc_cases [where n = 1])
  case (found q s')
  then show ?thesis by (auto simp: pmm_alloc_page_def)
next
  case none
  obtain q where "q \<in> fr s" using assms(3) by auto
  moreover from this have "1 \<le> free_pages s"
    using assms(1) by (auto simp: pmm_ok_def counted_def Suc_le_eq card_gt_0_iff)
  ultimately show ?thesis using none(2) [of q] assms(2) by auto
qed

section \<open>Release\<close>

lemma pmm_free_rule:
  assumes "pmm_ok s" "0 < q" "q < total_pages s"
  shows "\<exists>s'. pmm_free_page (of_nat (q * 4096)) s = Some s' \<and> pmm_ok s' \<and> fr s' = insert q (fr s)"
proof -
  have q: "q < 1048576" using assms by (simp add: pmm_ok_def MAX_PAGES_def)
  have u: "unat (of_nat (q * 4096) :: u32) = q * 4096"
    using q by (simp only: unsigned_of_nat) (simp add: take_bit_eq_mod)
  have "take_bit 12 (q * 4096) = 0" by (simp add: take_bit_eq_mod)
  then have "take_bit 12 (of_nat (q * 4096) :: u32) = 0"
    by (simp only: take_bit_of_nat) simp
  then have m: "of_nat (q * 4096) AND (4096 - 1 :: u32) = 0"
    by (simp only: take_bit_eq_mask) (simp add: mask_eq_exp_minus_1)
  have z: "(of_nat (q * 4096) :: u32) \<noteq> 0" using assms(2) u by (metis mult_is_0 not_gr0 unsigned_0 zero_neq_numeral)
  note ok = assms(1) [unfolded pmm_ok_def counted_def]
  have p: "q < 8 * length (pmm_bitmap s)" using q ok by (simp add: BITMAP_BYTES_def)
  obtain b where b: "bitmap_clear q (pmm_bitmap s) = Some b" "length b = length (pmm_bitmap s)"
    "frees b = insert q (fr s)" using bitmap_clear_frees [OF p] by blast
  define a :: u32 where "a = of_nat (q * 4096)"
  have page: "unat a div PAGE_SIZE = q" unfolding u a_def by (simp add: PAGE_SIZE_def)
  note za = z [folded a_def] and ma = m [folded a_def]
  show ?thesis
  proof (cases "q \<in> fr s")
    case True
    then show ?thesis unfolding a_def [symmetric] using assms bitmap_test_frees [OF p] ok za ma
      by (auto simp: pmm_free_page_def Let_def page)
  next
    case False
    have "insert q (fr s) \<subseteq> {0<..<total_pages s}" using ok assms by auto
    then have "card (insert q (fr s)) \<le> card {0<..<total_pages s}" by (intro card_mono) simp_all
    then have "Suc (free_pages s) \<le> total_pages s" using ok False by simp
    then show ?thesis unfolding a_def [symmetric] using False assms bitmap_test_frees [OF p] ok za ma b
      by (auto simp: pmm_free_page_def Let_def page pmm_ok_def counted_def MAX_PAGES_def)
  qed
qed

text \<open>
  Freeing the address that \<open>pmm_alloc_page\<close> just returned restores the set of free frames,
  and the invariant holds again.
\<close>

theorem pmm_free_restores:
  assumes "pmm_ok s" "pmm_alloc_page s = Some (addr, s')" "addr \<noteq> 0"
  shows "\<exists>s''. pmm_free_page (of_nat addr) s' = Some s'' \<and> pmm_ok s''
    \<and> frees (pmm_bitmap s'') = frees (pmm_bitmap s)"
  using assms(1) zero_less_one
proof (cases rule: pmm_alloc_cases [where n = 1])
  case (found q t)
  then have t: "addr = q * 4096" "s' = t" using assms(2) by (simp_all add: pmm_alloc_page_def)
  then show ?thesis using pmm_free_rule [OF found(5), of q] found by auto
next
  case none
  then show ?thesis using assms(2,3) by (simp add: pmm_alloc_page_def)
qed

section \<open>Concrete states\<close>

text \<open>An allocator that manages 262 pages, of which the given ones, all in one bitmap byte, are free.\<close>

definition small_pmm :: "u8 \<Rightarrow> nat \<Rightarrow> nat \<Rightarrow> pmm" where
  "small_pmm x n hint = \<lparr>pmm_bitmap = (replicate BITMAP_BYTES 0xFF)[32 := x], total_memory_bytes = 1073152,
     usable_memory_bytes = n * 4096, reserved_memory_bytes = (262 - n) * 4096, total_pages = 262,
     free_pages = n, used_pages = 262 - n, search_hint = hint, pmm_initialized = True\<rparr>"

lemma frees_small: "fr (small_pmm x n hint) = {p. p div 8 = 32 \<and> \<not> bit x (p mod 8)}"
proof -
  have "bit (0xFF :: u8) k" if "k < 8" for k
  proof -
    have "(0xFF :: u8) = - 1" by simp
    then show ?thesis using that by (simp only: bit_minus_1_iff) simp
  qed
  then show ?thesis
    by (auto simp: small_pmm_def frees_def nth_list_update less_mult_imp_div_less mult.commute BITMAP_BYTES_def
        split: if_splits)
qed

lemma frees_small_bits:
  "fr (small_pmm 0xF1 3 hint) = {257, 258, 259}"
proof -
  have b: "bit (0xF1 :: u8) k \<longleftrightarrow> k \<notin> {1, 2, 3}" if "k < 8" for k
  proof -
    have "list_all (\<lambda>k. bit (0xF1 :: u8) k \<longleftrightarrow> k \<notin> {1, 2, 3}) [0..<8]" by code_simp
    then show ?thesis using that by (simp add: list_all_iff)
  qed
  have "p div 8 = 32 \<and> \<not> bit (0xF1 :: u8) (p mod 8) \<longleftrightarrow> p \<in> {257, 258, 259}" for p :: nat
  proof -
    have "\<not> bit (0xF1 :: u8) (p mod 8) \<longleftrightarrow> p mod 8 \<in> {1, 2, 3}" using b [of "p mod 8"] by simp
    moreover have "p div 8 = 32 \<and> p mod 8 \<in> {1, 2, 3} \<longleftrightarrow> p \<in> {257, 258, 259}"
      by (simp only: insert_iff empty_iff) presburger
    ultimately show ?thesis by blast
  qed
  then show ?thesis unfolding frees_small by blast
qed

lemma small_pmm_ok: "0 < hint \<Longrightarrow> hint \<le> 262 \<Longrightarrow> pmm_ok (small_pmm 0xF1 3 hint)"
  using frees_small_bits [of hint]
  by (simp add: pmm_ok_def counted_def) (simp add: small_pmm_def BITMAP_BYTES_def MAX_PAGES_def)

theorem pmm_alloc_refines_witness:
  "\<exists>addr s'. pmm_alloc_pages 2 (small_pmm 0xF1 3 257) = Some (addr, s') \<and> pmm_ok s'"
  using pmm_alloc_refines [OF small_pmm_ok [of 257], of 2] by auto

theorem pmm_alloc_page_complete_witness:
  "\<exists>addr s'. pmm_alloc_page (small_pmm 0xF1 3 257) = Some (addr, s') \<and> addr \<noteq> 0 \<and> pmm_ok s'"
proof -
  have "2 < total_pages (small_pmm 0xF1 3 257)" by (simp add: small_pmm_def)
  moreover have "fr (small_pmm 0xF1 3 257) \<noteq> {}" unfolding frees_small_bits by simp
  ultimately show ?thesis using pmm_alloc_page_complete [OF small_pmm_ok [of 257]] by simp
qed

lemma small_alloc:
  "\<exists>s'. pmm_alloc_page (small_pmm 0xF1 3 257) = Some (257 * 4096, s')"
proof -
  let ?s = "small_pmm 0xF1 3 257"
  have c: "counted ?s" using small_pmm_ok [of 257] by (simp add: pmm_ok_def)
  have l: "8 * length (pmm_bitmap ?s) = MAX_PAGES" using c by (simp add: counted_def bits_bytes)
  have "(257 :: nat) \<in> fr ?s" unfolding frees_small_bits by simp
  then have one: "{257..<257 + 1} \<subseteq> fr ?s" using atLeastLessThan_singleton [of 257] by simp
  then have "find_run (pmm_bitmap ?s) 1 261 257 = Some (Some 257)"
    using pages_are_free_rule [of 257 1 "pmm_bitmap ?s"] l
    by (subst find_run.simps) (simp add: MAX_PAGES_def del: pages_are_free.simps One_nat_def)
  then have "alloc_pass 1 257 261 ?s = Some (Some 257)" by (simp add: alloc_pass_def)
  moreover have "pmm_initialized ?s" "free_pages ?s = 3" "total_pages ?s = 262" "search_hint ?s = 257"
    by (simp_all add: small_pmm_def)
  moreover from one obtain s' where "alloc_at 1 257 ?s = Some (257 * 4096, s')"
    using alloc_at_rule [OF small_pmm_ok [of 257], of 1 257] by auto
  ultimately show ?thesis by (simp add: pmm_alloc_page_def pmm_alloc_pages_def)
qed

theorem pmm_free_restores_witness:
  "\<exists>s' s''. pmm_alloc_page (small_pmm 0xF1 3 257) = Some (257 * 4096, s')
    \<and> pmm_free_page (of_nat (257 * 4096)) s' = Some s'' \<and> frees (pmm_bitmap s'') = {257, 258, 259}"
proof -
  obtain s' where s': "pmm_alloc_page (small_pmm 0xF1 3 257) = Some (257 * 4096, s')"
    using small_alloc by blast
  from pmm_free_restores [OF small_pmm_ok [of 257] s'] s' frees_small_bits [of 257] show ?thesis by auto
qed

text \<open>
  A run of free frames that straddles the search hint is not found: with frames 257 to 259
  free and the hint at 258, a request for three frames fails although it could be met.
\<close>

theorem pmm_alloc_straddle:
  "pmm_ok (small_pmm 0xF1 3 258) \<and> {257..<257 + 3} \<subseteq> frees (pmm_bitmap (small_pmm 0xF1 3 258))
   \<and> pmm_alloc_pages 3 (small_pmm 0xF1 3 258) = Some (0, small_pmm 0xF1 3 258)"
proof -
  let ?s = "small_pmm 0xF1 3 258"
  note f = frees_small_bits [of 258]
  have c: "counted ?s" using small_pmm_ok [of 258] by (simp add: pmm_ok_def)
  have run: "q = 257" if "{q..<q + 3} \<subseteq> fr ?s" for q
  proof -
    have "q \<in> fr ?s" "q + 2 \<in> fr ?s" using that by (auto simp: subset_iff)
    then show ?thesis unfolding f by auto
  qed
  have p1: "alloc_pass 3 258 261 ?s = Some None"
    by (rule alloc_pass_cases [OF c, where n = 3 and start = 258 and stop = 261])
      (auto simp: MAX_PAGES_def dest: run)
  have p2: "alloc_pass 3 1 258 ?s = Some None"
    by (rule alloc_pass_cases [OF c, where n = 3 and start = 1 and stop = 258])
      (auto simp: MAX_PAGES_def dest: run)
  have "pmm_alloc_pages 3 ?s = Some (0, ?s)"
  proof -
    have "pmm_initialized ?s" "free_pages ?s = 3" "total_pages ?s = 262" "search_hint ?s = 258"
      by (simp_all add: small_pmm_def)
    then show ?thesis using p1 p2 by (simp add: pmm_alloc_pages_def)
  qed
  moreover have "{257..<257 + 3} \<subseteq> fr ?s" unfolding f by auto
  moreover have "pmm_ok ?s" by (rule small_pmm_ok) simp_all
  ultimately show ?thesis by blast
qed

end
