(* ===== verification/Paging.thy ===== *)
theory Paging
  imports Prelude
begin

text \<open>
  \<open>memory/paging.c\<close>: the two-level page tables, with the static pool the second level comes from. The
  pool lies at the address \<open>base\<close>; a table pointer is its address, and following a pointer that is not
  into the pool is \<open>None\<close>. The TLB instruction leaves a trace, the control registers are state.
\<close>

section \<open>The code\<close>

definition PAGE_ENTRIES :: nat where "PAGE_ENTRIES = 1024"
definition BOOTSTRAP_PT_COUNT :: nat where "BOOTSTRAP_PT_COUNT = 128"
definition IDENTITY_BOOT_END :: u32 where "IDENTITY_BOOT_END = 0x04000000"
definition PAGING_FLAG_PRESENT :: u32 where "PAGING_FLAG_PRESENT = 0x001"
definition PAGING_FLAG_READ_WRITE :: u32 where "PAGING_FLAG_READ_WRITE = 0x002"

definition PAGE_DIR_INDEX :: "u32 \<Rightarrow> nat" where
  "PAGE_DIR_INDEX x = unat (drop_bit 22 x AND 0x3FF)"

definition PAGE_TABLE_INDEX :: "u32 \<Rightarrow> nat" where
  "PAGE_TABLE_INDEX x = unat (drop_bit 12 x AND 0x3FF)"

definition PAGE_ALIGN_DOWN :: "u32 \<Rightarrow> u32" where
  "PAGE_ALIGN_DOWN x = x AND 0xFFFFF000"

record paging =
  page_directory :: "u32 list"
  page_table_pool :: "u32 list list"
  page_table_pool_used :: nat
  paging_enabled :: bool
  fault_handler_registered :: bool
  tlb_flushed :: "u32 list"
  cr0 :: u32
  cr3 :: u32

definition pool_address :: "u32 \<Rightarrow> nat \<Rightarrow> u32" where
  "pool_address base i = base + of_nat (i * 4096)"

text \<open>The pool slot a table pointer points to.\<close>

definition pool_slot :: "u32 \<Rightarrow> u32 \<Rightarrow> nat option" where
  "pool_slot base addr =
     (let off = unat (addr - base)
      in if off mod 4096 = 0 \<and> off div 4096 < BOOTSTRAP_PT_COUNT then Some (off div 4096) else None)"

definition table_read :: "u32 \<Rightarrow> u32 \<Rightarrow> nat \<Rightarrow> paging \<Rightarrow> u32 option" where
  "table_read base addr i s =
     (case pool_slot base addr of
        None \<Rightarrow> None
      | Some slot \<Rightarrow> (case rd (page_table_pool s) slot of None \<Rightarrow> None | Some t \<Rightarrow> rd t i))"

definition table_write :: "u32 \<Rightarrow> u32 \<Rightarrow> nat \<Rightarrow> u32 \<Rightarrow> paging \<Rightarrow> paging option" where
  "table_write base addr i v s =
     (case pool_slot base addr of
        None \<Rightarrow> None
      | Some slot \<Rightarrow>
          (case rd (page_table_pool s) slot of
             None \<Rightarrow> None
           | Some t \<Rightarrow>
               (case wr t i v of
                  None \<Rightarrow> None
                | Some t \<Rightarrow> Some (s\<lparr>page_table_pool := (page_table_pool s)[slot := t]\<rparr>))))"

text \<open>The null pointer is 0.\<close>

definition ensure_page_table :: "u32 \<Rightarrow> u32 \<Rightarrow> paging \<Rightarrow> (u32 \<times> paging) option" where
  "ensure_page_table base virt s =
     (let dir_index = PAGE_DIR_INDEX virt
      in case rd (page_directory s) dir_index of
           None \<Rightarrow> None
         | Some e \<Rightarrow>
             if e AND PAGING_FLAG_PRESENT \<noteq> 0 then Some (e AND 0xFFFFF000, s)
             else if BOOTSTRAP_PT_COUNT \<le> page_table_pool_used s then Some (0, s)
             else
               (let table_phys = pool_address base (page_table_pool_used s);
                    e = table_phys OR PAGING_FLAG_PRESENT OR PAGING_FLAG_READ_WRITE
                in case wr (page_table_pool s) (page_table_pool_used s) (replicate PAGE_ENTRIES 0) of
                     None \<Rightarrow> None
                   | Some pool \<Rightarrow>
                       (case wr (page_directory s) dir_index e of
                          None \<Rightarrow> None
                        | Some dir \<Rightarrow>
                            Some (e AND 0xFFFFF000,
                                  s\<lparr>page_table_pool := pool, page_directory := dir,
                                    page_table_pool_used := page_table_pool_used s + 1\<rparr>))))"

definition flush_page :: "u32 \<Rightarrow> paging \<Rightarrow> paging" where
  "flush_page virt s =
     (if paging_enabled s then s\<lparr>tlb_flushed := tlb_flushed s @ [PAGE_ALIGN_DOWN virt]\<rparr> else s)"

definition paging_map :: "u32 \<Rightarrow> u32 \<Rightarrow> u32 \<Rightarrow> u32 \<Rightarrow> paging \<Rightarrow> paging option" where
  "paging_map base virt phys flags s =
     (case ensure_page_table base virt s of
        None \<Rightarrow> None
      | Some (table, s) \<Rightarrow>
          if table = 0 then Some s
          else (case table_write base table (PAGE_TABLE_INDEX virt)
                       (PAGE_ALIGN_DOWN phys OR (flags AND 0xFFF) OR PAGING_FLAG_PRESENT) s of
                  None \<Rightarrow> None
                | Some s \<Rightarrow> Some (flush_page virt s)))"

definition paging_unmap :: "u32 \<Rightarrow> u32 \<Rightarrow> paging \<Rightarrow> paging option" where
  "paging_unmap base virt s =
     (case rd (page_directory s) (PAGE_DIR_INDEX virt) of
        None \<Rightarrow> None
      | Some e \<Rightarrow>
          if e AND PAGING_FLAG_PRESENT = 0 then Some s
          else (case table_write base (e AND 0xFFFFF000) (PAGE_TABLE_INDEX virt) 0 s of
                  None \<Rightarrow> None
                | Some s \<Rightarrow> Some (flush_page virt s)))"

definition paging_get_physical :: "u32 \<Rightarrow> u32 \<Rightarrow> paging \<Rightarrow> u32 option" where
  "paging_get_physical base virt s =
     (case rd (page_directory s) (PAGE_DIR_INDEX virt) of
        None \<Rightarrow> None
      | Some e \<Rightarrow>
          if e AND PAGING_FLAG_PRESENT = 0 then Some 0
          else (case table_read base (e AND 0xFFFFF000) (PAGE_TABLE_INDEX virt) s of
                  None \<Rightarrow> None
                | Some entry \<Rightarrow>
                    if entry AND PAGING_FLAG_PRESENT = 0 then Some 0
                    else Some ((entry AND 0xFFFFF000) OR (virt AND 0xFFF))))"

text \<open>Both bounds of the loop are page addresses, so it runs once per page between them.\<close>

definition map_identity_range :: "u32 \<Rightarrow> u32 \<Rightarrow> u32 \<Rightarrow> u32 \<Rightarrow> paging \<Rightarrow> paging option" where
  "map_identity_range base start stop flags s =
     (let current = PAGE_ALIGN_DOWN start;
          final = (stop + 4096 - 1) AND 0xFFFFF000
      in for_each (\<lambda>i. let a = current + of_nat (i * 4096) in paging_map base a a flags)
           [0..<(unat final - unat current) div 4096] s)"

definition map_framebuffer :: "u32 \<Rightarrow> (u64 \<times> u32 \<times> u32) option \<Rightarrow> paging \<Rightarrow> paging option" where
  "map_framebuffer base framebuffer s =
     (case framebuffer of
        None \<Rightarrow> Some s
      | Some (address, pitch, height) \<Rightarrow>
          (let fb_end = address + ucast pitch * ucast height
           in if address \<le> 0xFFFFFFFF
              then map_identity_range base (ucast address)
                     (ucast (if 0x100000000 < fb_end then 0x100000000 else fb_end))
                     PAGING_FLAG_READ_WRITE s
              else Some s))"

text \<open>\<open>directory\<close> is the address of \<open>page_directory\<close>.\<close>

definition paging_init ::
    "u32 \<Rightarrow> u32 \<Rightarrow> u32 \<Rightarrow> u32 \<Rightarrow> (u64 \<times> u32 \<times> u32) option \<Rightarrow> paging \<Rightarrow> paging option" where
  "paging_init base directory kernel_start kernel_end framebuffer s =
     (let s = s\<lparr>page_directory := replicate PAGE_ENTRIES 0, page_table_pool_used := 0\<rparr>
      in case map_identity_range base 0 IDENTITY_BOOT_END PAGING_FLAG_READ_WRITE s of
           None \<Rightarrow> None
         | Some s \<Rightarrow>
             (case map_identity_range base kernel_start kernel_end PAGING_FLAG_READ_WRITE s of
                None \<Rightarrow> None
              | Some s \<Rightarrow>
                  (case map_framebuffer base framebuffer s of
                     None \<Rightarrow> None
                   | Some s \<Rightarrow>
                       Some (s\<lparr>cr3 := directory, cr0 := cr0 s OR 0x80000000,
                               paging_enabled := True, fault_handler_registered := True\<rparr>))))"

section \<open>Indices\<close>

lemma mask_consts: "(0x3FF :: u32) = mask 10" "(0xFFF :: u32) = mask 12"
  by (simp_all add: mask_eq_exp_minus_1)

lemma high_mask: "(0xFFFFF000 :: u32) = NOT (mask 12)"
proof -
  have "(0xFFFFF000 :: u32) = NOT 0xFFF" by simp
  then show ?thesis by (simp only: mask_consts)
qed

lemma page_indices:
  "PAGE_DIR_INDEX v = unat v div 4194304" "PAGE_TABLE_INDEX v = unat v div 4096 mod 1024"
proof -
  have v: "unat v < 4294967296" by (rule unat_bounds)
  have i: "unat (drop_bit k v AND mask 10) = unat v div 2 ^ k mod 1024" for k
    using v by (simp only: take_bit_eq_mask [symmetric] unsigned_take_bit_eq unsigned_drop_bit_eq)
      (simp add: take_bit_eq_mod drop_bit_eq_div)
  have "unat v div 4194304 < 1024" using v by (simp add: less_mult_imp_div_less)
  then show "PAGE_DIR_INDEX v = unat v div 4194304" "PAGE_TABLE_INDEX v = unat v div 4096 mod 1024"
    unfolding PAGE_DIR_INDEX_def PAGE_TABLE_INDEX_def mask_consts i by simp_all
qed

lemma index_bounds: "PAGE_DIR_INDEX v < 1024" "PAGE_TABLE_INDEX v < 1024"
  using unat_bounds(3) [of v] by (simp_all add: page_indices less_mult_imp_div_less)

definition same_page :: "u32 \<Rightarrow> u32 \<Rightarrow> bool" where
  "same_page v w \<longleftrightarrow> unat v div 4096 = unat w div 4096"

lemma same_page_indices:
  "same_page v w \<longleftrightarrow> PAGE_DIR_INDEX v = PAGE_DIR_INDEX w \<and> PAGE_TABLE_INDEX v = PAGE_TABLE_INDEX w"
proof -
  have "unat x div 4194304 = unat x div 4096 div 1024" for x :: u32 by (simp add: div_mult2_eq [symmetric])
  moreover have "a div 1024 = b div 1024 \<and> a mod 1024 = b mod 1024 \<longleftrightarrow> a = b" for a b :: nat
    by (metis div_mult_mod_eq)
  ultimately show ?thesis by (simp add: same_page_def page_indices)
qed

section \<open>The table invariant\<close>

definition entry_for :: "u32 \<Rightarrow> nat \<Rightarrow> u32" where
  "entry_for base j = pool_address base j OR PAGING_FLAG_PRESENT OR PAGING_FLAG_READ_WRITE"

text \<open>The pool is page-aligned, does not start at 0 and does not wrap.\<close>

definition pool_placed :: "u32 \<Rightarrow> bool" where
  "pool_placed base \<longleftrightarrow> 0 < unat base \<and> unat base mod 4096 = 0 \<and> unat base + 524288 \<le> 4294967296"

definition pg_ok :: "u32 \<Rightarrow> paging \<Rightarrow> bool" where
  "pg_ok base s \<longleftrightarrow> length (page_directory s) = 1024
     \<and> length (page_table_pool s) = 128 \<and> (\<forall>t\<in>set (page_table_pool s). length t = 1024)
     \<and> page_table_pool_used s \<le> 128
     \<and> (\<forall>i<1024. page_directory s ! i = 0
          \<or> (\<exists>j<page_table_pool_used s. page_directory s ! i = entry_for base j
                \<and> (\<forall>i'<1024. page_directory s ! i' = entry_for base j \<longrightarrow> i' = i)))"

lemma unat_pool_address:
  assumes "pool_placed base" "j < 128"
  shows "unat (pool_address base j) = unat base + j * 4096"
proof -
  have "unat (of_nat (j * 4096) :: u32) = j * 4096"
    using assms(2) by (simp only: unsigned_of_nat) (simp add: take_bit_eq_mod)
  then show ?thesis
    using assms by (simp add: pool_address_def pool_placed_def unat_word_ariths del: of_nat_mult)
qed

lemma pool_slot_address:
  assumes "pool_placed base" "j < 128"
  shows "pool_slot base (pool_address base j) = Some j" "pool_address base j \<noteq> 0"
proof -
  have "unat (of_nat (j * 4096) :: u32) = j * 4096"
    using assms(2) by (simp only: unsigned_of_nat) (simp add: take_bit_eq_mod)
  then show "pool_slot base (pool_address base j) = Some j"
    using assms(2) by (simp add: pool_slot_def pool_address_def BOOTSTRAP_PT_COUNT_def del: of_nat_mult)
  have "unat (pool_address base j) \<noteq> 0" using assms by (simp add: unat_pool_address pool_placed_def)
  then show "pool_address base j \<noteq> 0" by (metis unsigned_0)
qed

lemma aligned_low_bits:
  assumes "unat (x :: u32) mod 4096 = 0"
  shows "x AND NOT (mask 12) = x" "n < 12 \<Longrightarrow> \<not> bit x n"
proof -
  have "take_bit 12 (unat x) = 0" using assms by (simp add: take_bit_eq_mod)
  then have "unat (take_bit 12 x) = 0" by (simp only: unsigned_take_bit_eq)
  then have "take_bit 12 x = 0" by (simp only: unsigned_eq_0_iff)
  then have low: "\<not> bit x n" if "n < 12" for n using that by (metis bit_0_eq bit_take_bit_iff bot_apply bot_bool_def)
  then show "n < 12 \<Longrightarrow> \<not> bit x n" .
  show "x AND NOT (mask 12) = x"
    by (rule bit_word_eqI) (use low not_le in \<open>auto simp: bit_simps\<close>)
qed

lemma entry_for_rules:
  assumes "pool_placed base" "j < 128"
  shows "entry_for base j AND PAGING_FLAG_PRESENT \<noteq> 0"
    "entry_for base j AND 0xFFFFF000 = pool_address base j" "entry_for base j \<noteq> 0"
proof -
  have "unat (pool_address base j) mod 4096 = 0"
    using assms by (simp add: unat_pool_address pool_placed_def mod_add_left_eq [symmetric])
  note low = aligned_low_bits [OF this]
  have "bit (entry_for base j) 0" by (simp add: entry_for_def PAGING_FLAG_PRESENT_def bit_simps)
  then have p: "bit (entry_for base j AND PAGING_FLAG_PRESENT) 0"
    by (simp add: PAGING_FLAG_PRESENT_def bit_simps)
  then show "entry_for base j AND PAGING_FLAG_PRESENT \<noteq> 0" by (metis bit_0_eq bot_apply bot_bool_def)
  then show "entry_for base j \<noteq> 0" by auto
  have "(PAGING_FLAG_PRESENT OR PAGING_FLAG_READ_WRITE) AND NOT (mask 12) = 0"
    by (simp add: PAGING_FLAG_PRESENT_def PAGING_FLAG_READ_WRITE_def mask_eq_exp_minus_1)
  then show "entry_for base j AND 0xFFFFF000 = pool_address base j"
    unfolding entry_for_def high_mask using low(1)
    by (simp add: or.assoc bit.conj_disj_distrib2)
qed

lemma pool_address_inj:
  "pool_placed base \<Longrightarrow> i < 128 \<Longrightarrow> j < 128 \<Longrightarrow> pool_address base i = pool_address base j \<longleftrightarrow> i = j"
  by (metis pool_slot_address(1) option.inject)

lemma entry_for_inj:
  "pool_placed base \<Longrightarrow> i < 128 \<Longrightarrow> j < 128 \<Longrightarrow> entry_for base i = entry_for base j \<longleftrightarrow> i = j"
  by (metis entry_for_rules(2) pool_address_inj)

text \<open>The page-table entry a virtual address is translated with, 0 when it has no table.\<close>

definition pte :: "u32 \<Rightarrow> u32 \<Rightarrow> paging \<Rightarrow> u32 option" where
  "pte base w s =
     (if page_directory s ! PAGE_DIR_INDEX w = 0 then Some 0
      else table_read base (page_directory s ! PAGE_DIR_INDEX w AND 0xFFFFF000) (PAGE_TABLE_INDEX w) s)"

lemma pg_ok_slot:
  assumes "pg_ok base s" "pool_placed base"
  obtains (none) "page_directory s ! PAGE_DIR_INDEX w = 0" "pte base w s = Some 0"
  | (slot) j where "j < page_table_pool_used s" "j < 128" "page_directory s ! PAGE_DIR_INDEX w = entry_for base j"
      "\<And>i. i < 1024 \<Longrightarrow> page_directory s ! i = entry_for base j \<Longrightarrow> i = PAGE_DIR_INDEX w"
      "pte base w s = Some (page_table_pool s ! j ! PAGE_TABLE_INDEX w)"
proof (cases "page_directory s ! PAGE_DIR_INDEX w = 0")
  case True
  then show ?thesis using none by (simp add: pte_def)
next
  case False
  then obtain j where j: "j < page_table_pool_used s" "page_directory s ! PAGE_DIR_INDEX w = entry_for base j"
    "\<forall>i'<1024. page_directory s ! i' = entry_for base j \<longrightarrow> i' = PAGE_DIR_INDEX w"
    using assms(1) index_bounds(1) [of w] unfolding pg_ok_def by blast
  have j': "j < 128" using j(1) assms(1) by (simp add: pg_ok_def)
  moreover have "length (page_table_pool s ! j) = 1024"
    using assms(1) j' by (simp add: pg_ok_def)
  ultimately have "pte base w s = Some (page_table_pool s ! j ! PAGE_TABLE_INDEX w)"
    using False j(2) assms index_bounds(2) [of w]
    by (simp add: pte_def entry_for_rules table_read_def pool_slot_address arr pg_ok_def)
  with j j' slot show ?thesis by blast
qed

lemma rd_directory:
  "pg_ok base s \<Longrightarrow> rd (page_directory s) (PAGE_DIR_INDEX w) = Some (page_directory s ! PAGE_DIR_INDEX w)"
  using index_bounds(1) [of w] by (simp add: arr pg_ok_def)

lemma get_physical_pte:
  assumes "pg_ok base s" "pool_placed base"
  shows "paging_get_physical base w s = (case pte base w s of None \<Rightarrow> None | Some e \<Rightarrow>
    Some (if e AND PAGING_FLAG_PRESENT = 0 then 0 else (e AND 0xFFFFF000) OR (w AND 0xFFF)))"
proof -
  note l = rd_directory [OF assms(1)]
  from assms show ?thesis
  proof (cases rule: pg_ok_slot [where w = w])
    case none
    then show ?thesis by (simp add: paging_get_physical_def l)
  next
    case (slot j)
    then show ?thesis using assms(2)
      by (simp add: paging_get_physical_def l pte_def entry_for_rules split: option.split)
  qed
qed

section \<open>Mapping\<close>

lemma set_list_update_all: "i < length xs \<Longrightarrow> (\<forall>x\<in>set xs. P x) \<Longrightarrow> P y \<Longrightarrow> \<forall>x\<in>set (xs[i := y]). P x"
  using set_update_subset_insert [of xs i y] by auto

text \<open>Taking a table from the pool changes no translation.\<close>

definition take_table :: "u32 \<Rightarrow> nat \<Rightarrow> paging \<Rightarrow> paging" where
  "take_table base i s =
     (let u = page_table_pool_used s
      in s\<lparr>page_table_pool := (page_table_pool s)[u := replicate 1024 0],
           page_directory := (page_directory s)[i := entry_for base u],
           page_table_pool_used := u + 1\<rparr>)"

lemma take_table_ok:
  assumes "pg_ok base s" "pool_placed base" "page_table_pool_used s < 128" "i < 1024"
    "page_directory s ! i = 0"
  shows "pg_ok base (take_table base i s)"
proof -
  let ?u = "page_table_pool_used s" and ?s = "take_table base i s"
  note ok = assms(1) [unfolded pg_ok_def] and u = assms(3)
  have fresh: "page_directory s ! k \<noteq> entry_for base ?u" if "k < 1024" for k
    using ok that entry_for_rules(3) [OF assms(2) u] entry_for_inj [OF assms(2) u]
    by (metis less_trans nat_neq_iff u)
  have "\<forall>t\<in>set ((page_table_pool s)[?u := replicate 1024 0]). length t = 1024"
    using ok u by (intro set_list_update_all) simp_all
  moreover have "page_directory ?s ! k = 0 \<or> (\<exists>j<page_table_pool_used ?s. page_directory ?s ! k = entry_for base j
      \<and> (\<forall>i'<1024. page_directory ?s ! i' = entry_for base j \<longrightarrow> i' = k))" if k: "k < 1024" for k
  proof (cases "k = i")
    case True
    then have "page_directory ?s ! k = entry_for base ?u" using ok k by (simp add: take_table_def Let_def)
    moreover have "i' = k" if "i' < 1024" "page_directory ?s ! i' = entry_for base ?u" for i'
      using that fresh [of i'] True by (cases "i' = i") (simp_all add: take_table_def Let_def)
    ultimately show ?thesis by (intro disjI2 exI [of _ ?u]) (simp add: take_table_def Let_def)
  next
    case False
    then have d: "page_directory ?s ! k = page_directory s ! k" by (simp add: take_table_def Let_def)
    show ?thesis
    proof (cases "page_directory s ! k = 0")
      case nz: False
      then obtain j where j: "j < ?u" "page_directory s ! k = entry_for base j"
        "\<forall>i'<1024. page_directory s ! i' = entry_for base j \<longrightarrow> i' = k"
        using ok k by blast
      have "i' = k" if "i' < 1024" "page_directory ?s ! i' = entry_for base j" for i'
        using that j ok assms(4) u entry_for_inj [OF assms(2) u, of j]
        by (cases "i' = i") (auto simp: take_table_def Let_def)
      then show ?thesis using j(1,2) d by (intro disjI2 exI [of _ j]) (simp add: take_table_def Let_def)
    qed (simp add: d)
  qed
  ultimately show ?thesis using ok u by (simp add: pg_ok_def) (simp add: take_table_def Let_def)
qed

lemma take_table_pte:
  assumes "pg_ok base s" "pool_placed base" "page_table_pool_used s < 128"
    "page_directory s ! PAGE_DIR_INDEX v = 0"
  shows "pte base w (take_table base (PAGE_DIR_INDEX v) s) = pte base w s"
proof -
  let ?u = "page_table_pool_used s" and ?s = "take_table base (PAGE_DIR_INDEX v) s"
  note ok = assms(1) [unfolded pg_ok_def]
  from assms(1,2) show ?thesis
  proof (cases rule: pg_ok_slot [where w = w])
    case none
    show ?thesis
    proof (cases "PAGE_DIR_INDEX w = PAGE_DIR_INDEX v")
      case True
      then have "page_directory ?s ! PAGE_DIR_INDEX w = entry_for base ?u" "page_table_pool ?s ! ?u = replicate 1024 0"
        "length (page_table_pool ?s) = 128"
        using ok index_bounds(1) [of v] assms(3) by (simp_all add: take_table_def Let_def)
      then show ?thesis
        using none assms(2,3) index_bounds(2) [of w]
        by (simp add: pte_def entry_for_rules table_read_def pool_slot_address arr)
    next
      case False
      then show ?thesis using none by (simp add: pte_def take_table_def Let_def)
    qed
  next
    case (slot j)
    then have "PAGE_DIR_INDEX w \<noteq> PAGE_DIR_INDEX v"
      using assms(2,4) entry_for_rules(3) [OF assms(2)] by metis
    then have "page_directory ?s ! PAGE_DIR_INDEX w = entry_for base j"
      "page_table_pool ?s ! j = page_table_pool s ! j" "length (page_table_pool ?s) = 128"
      using slot ok by (simp_all add: take_table_def Let_def)
    then show ?thesis
      using slot assms(2) ok index_bounds(2) [of w]
      by (simp add: pte_def entry_for_rules table_read_def pool_slot_address arr)
  qed
qed

lemma ensure_page_table_rule:
  assumes "pg_ok base s" "pool_placed base"
  obtains (full) "ensure_page_table base v s = Some (0, s)"
      "page_directory s ! PAGE_DIR_INDEX v = 0" "page_table_pool_used s = 128"
  | (table) j s' where "ensure_page_table base v s = Some (pool_address base j, s')" "pg_ok base s'" "j < 128"
      "page_directory s' ! PAGE_DIR_INDEX v = entry_for base j" "\<And>w. pte base w s' = pte base w s"
      "s' = s \<or> page_directory s ! PAGE_DIR_INDEX v = 0 \<and> s' = take_table base (PAGE_DIR_INDEX v) s"
proof -
  note l = rd_directory [OF assms(1)]
  note ok = assms(1) [unfolded pg_ok_def]
  let ?u = "page_table_pool_used s"
  show ?thesis
    using assms
  proof (cases rule: pg_ok_slot [where w = v])
    case (slot j)
    then show ?thesis
      using assms by (intro table [of j s]) (simp_all add: ensure_page_table_def l entry_for_rules Let_def)
  next
    case none
    show ?thesis
    proof (cases "?u < 128")
      case False
      then have "?u = 128" using ok by simp
      then show ?thesis using none
        by (intro full) (simp_all add: ensure_page_table_def l Let_def BOOTSTRAP_PT_COUNT_def)
    next
      case u: True
      have "ensure_page_table base v s = Some (pool_address base ?u, take_table base (PAGE_DIR_INDEX v) s)"
        using u none ok index_bounds(1) [of v] assms(2)
        by (simp add: ensure_page_table_def l Let_def BOOTSTRAP_PT_COUNT_def arr PAGE_ENTRIES_def
            entry_for_def [symmetric] entry_for_rules take_table_def Let_def)
      moreover have "page_directory (take_table base (PAGE_DIR_INDEX v) s) ! PAGE_DIR_INDEX v = entry_for base ?u"
        using ok index_bounds(1) [of v] by (simp add: take_table_def Let_def)
      ultimately show ?thesis
        using u none assms index_bounds(1) [of v] take_table_ok take_table_pte
        by (intro table [of ?u "take_table base (PAGE_DIR_INDEX v) s"]) simp_all
    qed
  qed
qed

lemma flush_page_same [simp]:
  "page_directory (flush_page v s) = page_directory s" "page_table_pool (flush_page v s) = page_table_pool s"
  "page_table_pool_used (flush_page v s) = page_table_pool_used s" "paging_enabled (flush_page v s) = paging_enabled s"
  by (simp_all add: flush_page_def)

lemma pte_cong:
  "page_directory s' = page_directory s \<Longrightarrow> page_table_pool s' = page_table_pool s \<Longrightarrow> pte base w s' = pte base w s"
  by (simp add: pte_def table_read_def cong: option.case_cong)

lemma pg_ok_cong:
  "page_directory s' = page_directory s \<Longrightarrow> page_table_pool s' = page_table_pool s
   \<Longrightarrow> page_table_pool_used s' = page_table_pool_used s \<Longrightarrow> pg_ok base s' = pg_ok base s"
  by (simp add: pg_ok_def)

text \<open>Writing the entry of a page that has a table.\<close>

lemma table_write_rule:
  assumes "pg_ok base s" "pool_placed base" "j < 128" "page_directory s ! PAGE_DIR_INDEX v = entry_for base j"
  shows "\<exists>s'. table_write base (pool_address base j) (PAGE_TABLE_INDEX v) e s = Some s' \<and> pg_ok base s'
    \<and> page_directory s' = page_directory s \<and> page_table_pool_used s' = page_table_pool_used s
    \<and> paging_enabled s' = paging_enabled s
    \<and> (\<forall>w. pte base w s' = (if same_page v w then Some e else pte base w s))"
proof -
  note ok = assms(1) [unfolded pg_ok_def]
  let ?t = "page_table_pool s ! j"
  let ?s = "s\<lparr>page_table_pool := (page_table_pool s)[j := ?t[PAGE_TABLE_INDEX v := e]]\<rparr>"
  have t: "length ?t = 1024" using ok assms(3) by simp
  have w: "table_write base (pool_address base j) (PAGE_TABLE_INDEX v) e s = Some ?s"
    using ok assms(2,3) t index_bounds(2) [of v] by (simp add: table_write_def pool_slot_address arr)
  have "\<forall>t\<in>set ((page_table_pool s)[j := ?t[PAGE_TABLE_INDEX v := e]]). length t = 1024"
    using ok assms(3) t by (intro set_list_update_all) simp_all
  then have ok': "pg_ok base ?s" using ok by (simp add: pg_ok_def)
  have "pte base w ?s = (if same_page v w then Some e else pte base w s)" for w
    using assms(1,2)
  proof (cases rule: pg_ok_slot [where w = w])
    case none
    then have "\<not> same_page v w"
      using assms(3,4) entry_for_rules(3) [OF assms(2,3)] by (auto simp: same_page_indices)
    then show ?thesis using none by (simp add: pte_def)
  next
    case (slot k)
    have "pte base w ?s = Some (page_table_pool ?s ! k ! PAGE_TABLE_INDEX w)"
    proof -
      have "length (page_table_pool ?s ! k) = 1024" using ok' slot(2) by (simp add: pg_ok_def)
      then show ?thesis
        using slot ok assms(2) index_bounds(2) [of w]
        by (simp add: pte_def entry_for_rules table_read_def pool_slot_address arr)
    qed
    moreover have "PAGE_DIR_INDEX v = PAGE_DIR_INDEX w \<longleftrightarrow> k = j"
      using slot(2-4) assms(3,4) index_bounds(1) [of v] entry_for_inj [OF assms(2) slot(2) assms(3)] by metis
    ultimately show ?thesis
      using slot(5) t ok assms(3) index_bounds(2) [of v]
      by (auto simp: same_page_indices nth_list_update)
  qed
  with w ok' show ?thesis by simp
qed

lemma paging_map_rule:
  assumes "pg_ok base s" "pool_placed base"
  obtains (full) "paging_map base v p f s = Some s"
      "page_directory s ! PAGE_DIR_INDEX v = 0" "page_table_pool_used s = 128"
  | (mapped) s' where "paging_map base v p f s = Some s'" "pg_ok base s'"
      "\<And>w. pte base w s' = (if same_page v w
         then Some (PAGE_ALIGN_DOWN p OR (f AND 0xFFF) OR PAGING_FLAG_PRESENT) else pte base w s)"
      "page_directory s' = (if page_directory s ! PAGE_DIR_INDEX v = 0
         then (page_directory s)[PAGE_DIR_INDEX v := entry_for base (page_table_pool_used s)]
         else page_directory s)"
      "page_table_pool_used s' =
         page_table_pool_used s + (if page_directory s ! PAGE_DIR_INDEX v = 0 then 1 else 0)"
  using assms
proof (cases rule: ensure_page_table_rule [where v = v])
  case full
  then show ?thesis using that(1) by (simp add: paging_map_def)
next
  case (table j t)
  let ?e = "PAGE_ALIGN_DOWN p OR (f AND 0xFFF) OR PAGING_FLAG_PRESENT"
  obtain s' where s': "table_write base (pool_address base j) (PAGE_TABLE_INDEX v) ?e t = Some s'" "pg_ok base s'"
    "page_directory s' = page_directory t" "page_table_pool_used s' = page_table_pool_used t"
    "\<forall>w. pte base w s' = (if same_page v w then Some ?e else pte base w t)"
    using table_write_rule [OF table(2) assms(2) table(3,4)] by blast
  have m: "paging_map base v p f s = Some (flush_page v s')"
    using table(1,3) s'(1) assms(2) pool_slot_address(2) [of base j] by (simp add: paging_map_def)
  have nz: "page_directory t ! PAGE_DIR_INDEX v \<noteq> 0"
    using table(3,4) entry_for_rules(3) [OF assms(2)] by simp
  show ?thesis
  proof (rule that(2) [OF m])
    show "pg_ok base (flush_page v s')" using s'(2) pg_ok_cong [of "flush_page v s'" s'] by simp
    show "pte base w (flush_page v s') = (if same_page v w then Some ?e else pte base w s)" for w
      using s'(5) table(5) pte_cong [of "flush_page v s'" s'] by simp
    show "page_directory (flush_page v s') = (if page_directory s ! PAGE_DIR_INDEX v = 0
         then (page_directory s)[PAGE_DIR_INDEX v := entry_for base (page_table_pool_used s)]
         else page_directory s)"
      using table(6) s'(3) nz by (auto simp: take_table_def Let_def)
    show "page_table_pool_used (flush_page v s') =
         page_table_pool_used s + (if page_directory s ! PAGE_DIR_INDEX v = 0 then 1 else 0)"
      using table(6) s'(4) nz by (auto simp: take_table_def Let_def)
  qed
qed

lemma paging_unmap_rule:
  assumes "pg_ok base s" "pool_placed base"
  shows "\<exists>s'. paging_unmap base v s = Some s' \<and> pg_ok base s'
    \<and> (\<forall>w. pte base w s' = (if same_page v w then Some 0 else pte base w s))"
  using assms
proof (cases rule: pg_ok_slot [where w = v])
  case none
  have "pte base w s = Some 0" if "same_page v w" for w
    using none(1) that by (simp add: pte_def same_page_indices)
  then show ?thesis
    using none assms(1) by (auto simp: paging_unmap_def rd_directory [OF assms(1)])
next
  case (slot j)
  obtain s' where s': "table_write base (pool_address base j) (PAGE_TABLE_INDEX v) 0 s = Some s'" "pg_ok base s'"
    "\<forall>w. pte base w s' = (if same_page v w then Some 0 else pte base w s)"
    using table_write_rule [OF assms slot(2,3)] by blast
  then have "paging_unmap base v s = Some (flush_page v s')"
    using slot assms by (simp add: paging_unmap_def rd_directory entry_for_rules)
  then show ?thesis
    using s' pte_cong [of "flush_page v s'" s'] pg_ok_cong [of "flush_page v s'" s'] by auto
qed

section \<open>Translation\<close>

lemma align_same_page: "same_page v w \<Longrightarrow> PAGE_ALIGN_DOWN v = PAGE_ALIGN_DOWN w"
proof -
  have d: "unat (drop_bit 12 x) = unat x div 4096" for x :: u32
    using unat_bounds(3) [of x]
    by (simp only: unsigned_drop_bit_eq) (simp add: drop_bit_eq_div take_bit_eq_mod)
  assume "same_page v w"
  then have "drop_bit 12 v = drop_bit 12 w"
    by (simp only: word_unat_eq_iff d same_page_def)
  moreover have "PAGE_ALIGN_DOWN x = push_bit 12 (drop_bit 12 x)" for x
    unfolding PAGE_ALIGN_DOWN_def high_mask by (rule bit_word_eqI) (auto simp: bit_simps)
  ultimately show ?thesis by simp
qed

lemma entry_address:
  "(PAGE_ALIGN_DOWN p OR (f AND 0xFFF) OR PAGING_FLAG_PRESENT) AND 0xFFFFF000 = PAGE_ALIGN_DOWN p"
  "(PAGE_ALIGN_DOWN p OR (f AND 0xFFF) OR PAGING_FLAG_PRESENT) AND PAGING_FLAG_PRESENT \<noteq> 0"
proof -
  have one: "PAGING_FLAG_PRESENT = mask 1" by (simp add: PAGING_FLAG_PRESENT_def mask_eq_exp_minus_1)
  show "(PAGE_ALIGN_DOWN p OR (f AND 0xFFF) OR PAGING_FLAG_PRESENT) AND 0xFFFFF000 = PAGE_ALIGN_DOWN p"
    unfolding PAGE_ALIGN_DOWN_def high_mask mask_consts one
    by (rule bit_word_eqI) (auto simp: bit_simps)
  have "bit ((PAGE_ALIGN_DOWN p OR (f AND 0xFFF) OR PAGING_FLAG_PRESENT) AND PAGING_FLAG_PRESENT) 0"
    by (simp add: PAGING_FLAG_PRESENT_def bit_simps)
  then show "(PAGE_ALIGN_DOWN p OR (f AND 0xFFF) OR PAGING_FLAG_PRESENT) AND PAGING_FLAG_PRESENT \<noteq> 0"
    by (metis bit_0_eq bot_apply bot_bool_def)
qed

lemma recombine: "PAGE_ALIGN_DOWN w OR (w AND 0xFFF) = w"
  unfolding PAGE_ALIGN_DOWN_def high_mask mask_consts by (rule bit_word_eqI) (auto simp: bit_simps)

text \<open>
  C18. While its page tables are in order, mapping a page makes the translation of every
  address of that page the given frame with the offset kept and changes no other translation, unless
  the page has no table and the pool is used up, when nothing happens; unmapping the page then
  removes exactly that translation.
\<close>

theorem paging_map_translates:
  assumes "pg_ok base s" "pool_placed base"
    and "page_directory s ! PAGE_DIR_INDEX v \<noteq> 0 \<or> page_table_pool_used s < BOOTSTRAP_PT_COUNT"
  shows "\<exists>s' s''. paging_map base v p f s = Some s' \<and> pg_ok base s'
    \<and> (\<forall>w. paging_get_physical base w s' =
          (if same_page v w then Some (PAGE_ALIGN_DOWN p OR (w AND 0xFFF)) else paging_get_physical base w s))
    \<and> paging_unmap base v s' = Some s'' \<and> pg_ok base s''
    \<and> (\<forall>w. paging_get_physical base w s'' =
          (if same_page v w then Some 0 else paging_get_physical base w s'))"
  using assms(1,2)
proof (cases rule: paging_map_rule [where v = v and p = p and f = f])
  case full
  then show ?thesis using assms(3) by (simp add: BOOTSTRAP_PT_COUNT_def)
next
  case (mapped s')
  obtain s'' where s'': "paging_unmap base v s' = Some s''" "pg_ok base s''"
    "\<forall>w. pte base w s'' = (if same_page v w then Some 0 else pte base w s')"
    using paging_unmap_rule [OF mapped(2) assms(2)] by blast
  have "paging_get_physical base w s'' =
      (if same_page v w then Some 0 else paging_get_physical base w s')" for w
    using get_physical_pte [OF s''(2) assms(2)] get_physical_pte [OF mapped(2) assms(2)] s''(3) by simp
  moreover have "paging_get_physical base w s' =
      (if same_page v w then Some (PAGE_ALIGN_DOWN p OR (w AND 0xFFF)) else paging_get_physical base w s)" for w
    using get_physical_pte [OF mapped(2) assms(2)] get_physical_pte [OF assms(1,2)] mapped(3)
    by (simp add: entry_address)
  ultimately show ?thesis using mapped(1,2) s''(1,2) by blast
qed

section \<open>The identity map\<close>

text \<open>Every translation so far is the identity.\<close>

definition identity_only :: "u32 \<Rightarrow> paging \<Rightarrow> bool" where
  "identity_only base s \<longleftrightarrow> pg_ok base s \<and>
     (\<forall>w. pte base w s = Some 0 \<or>
          pte base w s = Some (PAGE_ALIGN_DOWN w OR (PAGING_FLAG_READ_WRITE AND 0xFFF) OR PAGING_FLAG_PRESENT))"

definition mapped_at :: "u32 \<Rightarrow> u32 \<Rightarrow> paging \<Rightarrow> bool" where
  "mapped_at base w s \<longleftrightarrow> pte base w s \<noteq> Some 0"

lemma paging_map_identity:
  assumes "identity_only base s" "pool_placed base"
  shows "\<exists>s'. paging_map base a a PAGING_FLAG_READ_WRITE s = Some s' \<and> identity_only base s'
    \<and> (\<forall>w. mapped_at base w s \<longrightarrow> mapped_at base w s')"
proof -
  have ok: "pg_ok base s" using assms(1) by (simp add: identity_only_def)
  from ok assms(2) show ?thesis
  proof (cases rule: paging_map_rule [where v = a and p = a and f = PAGING_FLAG_READ_WRITE])
    case full
    then show ?thesis using assms by auto
  next
    case (mapped s')
    have "identity_only base s'"
      using mapped(2,3) assms(1) align_same_page unfolding identity_only_def by (metis)
    moreover have "mapped_at base w s \<Longrightarrow> mapped_at base w s'" for w
      using mapped(3) [of w] entry_address(2) [of a PAGING_FLAG_READ_WRITE] unfolding mapped_at_def
      by (auto split: if_splits)
    ultimately show ?thesis using mapped(1) by blast
  qed
qed

lemma map_identity_rule:
  assumes "identity_only base s" "pool_placed base"
  shows "\<exists>s'. map_identity_range base start stop PAGING_FLAG_READ_WRITE s = Some s' \<and> identity_only base s'
    \<and> (\<forall>w. mapped_at base w s \<longrightarrow> mapped_at base w s')"
proof -
  let ?n = "(unat ((stop + 4096 - 1) AND 0xFFFFF000) - unat (PAGE_ALIGN_DOWN start)) div 4096"
  let ?f = "\<lambda>i. let a = PAGE_ALIGN_DOWN start + of_nat (i * 4096) in paging_map base a a PAGING_FLAG_READ_WRITE"
  have "\<exists>s'. for_each ?f [0..<?n] s = Some s' \<and>
      (identity_only base s' \<and> (\<forall>w. mapped_at base w s \<longrightarrow> mapped_at base w s'))"
  proof (rule for_each_invariant)
    fix i t assume "identity_only base t \<and> (\<forall>w. mapped_at base w s \<longrightarrow> mapped_at base w t)"
    then show "\<exists>t'. ?f ([0..<?n] ! i) t = Some t' \<and> identity_only base t' \<and>
        (\<forall>w. mapped_at base w s \<longrightarrow> mapped_at base w t')"
      using paging_map_identity [OF _ assms(2), of t "PAGE_ALIGN_DOWN start + of_nat ([0..<?n] ! i * 4096)"]
      unfolding Let_def by blast
  qed (use assms in simp)
  then show ?thesis unfolding map_identity_range_def Let_def .
qed

lemma map_framebuffer_rule:
  assumes "identity_only base s" "pool_placed base"
  shows "\<exists>s'. map_framebuffer base framebuffer s = Some s' \<and> identity_only base s'
    \<and> (\<forall>w. mapped_at base w s \<longrightarrow> mapped_at base w s')"
proof (cases framebuffer)
  case (Some f)
  obtain address pitch height where "f = (address, pitch, height)" by (cases f)
  then show ?thesis
    using map_identity_rule [OF assms] assms(1) by (simp add: Some map_framebuffer_def Let_def)
qed (use assms in \<open>simp add: map_framebuffer_def\<close>)

text \<open>The first 64 MiB take sixteen tables, whatever the state of the pool's cells.\<close>

lemma boot_page:
  assumes "i < 16384"
  shows "unat (of_nat (i * 4096) :: u32) = i * 4096" "PAGE_DIR_INDEX (of_nat (i * 4096)) = i div 1024"
proof -
  show u: "unat (of_nat (i * 4096) :: u32) = i * 4096"
    using assms by (simp only: unsigned_of_nat) (simp add: take_bit_eq_mod)
  show "PAGE_DIR_INDEX (of_nat (i * 4096)) = i div 1024"
    unfolding page_indices u by (simp add: div_mult2_eq [of _ 4096 1024, simplified])
qed

definition boot_mapped :: "u32 \<Rightarrow> nat \<Rightarrow> paging \<Rightarrow> bool" where
  "boot_mapped base n s \<longleftrightarrow> identity_only base s
     \<and> page_table_pool_used s = (n + 1023) div 1024
     \<and> (\<forall>k<1024. page_directory s ! k = 0 \<longleftrightarrow> (n + 1023) div 1024 \<le> k)
     \<and> (\<forall>w. unat w div 4096 < n \<longrightarrow> mapped_at base w s)"

lemma boot_mapped_step:
  assumes "boot_mapped base n s" "pool_placed base" "n < 16384"
  shows "\<exists>s'. paging_map base (of_nat (n * 4096)) (of_nat (n * 4096)) PAGING_FLAG_READ_WRITE s = Some s'
    \<and> boot_mapped base (Suc n) s'"
proof -
  let ?a = "of_nat (n * 4096) :: u32" and ?u = "(n + 1023) div 1024"
  note b = assms(1) [unfolded boot_mapped_def]
  note i = boot_page [OF assms(3)]
  have ok: "pg_ok base s" using b by (simp add: identity_only_def)
  have k: "n div 1024 < 1024" using assms(3) by (simp add: less_mult_imp_div_less)
  define q r where "q = n div 1024" "r = n mod 1024"
  then have n: "n = 1024 * q + r" and r: "r < 1024" by simp_all
  have u: "?u = (if n mod 1024 = 0 then n div 1024 else n div 1024 + 1)"
    "(Suc n + 1023) div 1024 = n div 1024 + 1"
    unfolding q_r_def [symmetric] using r by (auto simp: n intro!: div_nat_eqI)
  have zero: "page_directory s ! (n div 1024) = 0 \<longleftrightarrow> n mod 1024 = 0"
    using b k unfolding u(1) by auto
  from ok assms(2) show ?thesis
  proof (cases rule: paging_map_rule [where v = ?a and p = ?a and f = PAGING_FLAG_READ_WRITE])
    case full
    have "?u < 128" using assms(3) by (simp add: less_mult_imp_div_less)
    with full b show ?thesis by simp
  next
    case (mapped s')
    obtain t where "paging_map base ?a ?a PAGING_FLAG_READ_WRITE s = Some t" "identity_only base t"
      "\<forall>w. mapped_at base w s \<longrightarrow> mapped_at base w t"
      using paging_map_identity [of base s ?a] b assms(2) by blast
    then have id: "identity_only base s'" "\<forall>w. mapped_at base w s \<longrightarrow> mapped_at base w s'"
      using mapped(1) by simp_all
    have "mapped_at base w s'" if "unat w div 4096 < Suc n" for w
    proof (cases "unat w div 4096 < n")
      case True
      then show ?thesis using b id(2) by simp
    next
      case False
      then have "same_page ?a w" using that by (simp add: same_page_def i(1) del: of_nat_mult)
      then show ?thesis
        using mapped(3) [of w] entry_address(2) [of ?a PAGING_FLAG_READ_WRITE]
        unfolding mapped_at_def by auto
    qed
    moreover have "page_table_pool_used s' = (Suc n + 1023) div 1024"
      using mapped(5) b zero unfolding i(2) u by simp
    moreover have "page_directory s' ! k' = 0 \<longleftrightarrow> (Suc n + 1023) div 1024 \<le> k'" if "k' < 1024" for k'
    proof -
      have l: "length (page_directory s) = 1024" using ok by (simp add: pg_ok_def)
      have nz: "entry_for base ?u \<noteq> 0"
        using assms(3) by (intro entry_for_rules(3) [OF assms(2)]) (simp add: less_mult_imp_div_less)
      have "page_directory s ! k' = 0 \<longleftrightarrow> ?u \<le> k'" using b that by simp
      then show ?thesis
        using mapped(4) b zero l that k nz unfolding i(2) u
        by (cases "k' = n div 1024") (auto split: if_splits)
    qed
    ultimately show ?thesis using mapped(1) id(1) by (auto simp: boot_mapped_def)
  qed
qed

lemma boot_mapped_start:
  assumes "length (page_table_pool s) = 128" "\<forall>t\<in>set (page_table_pool s). length t = 1024"
  shows "boot_mapped base 0 (s\<lparr>page_directory := replicate PAGE_ENTRIES 0, page_table_pool_used := 0\<rparr>)"
  using assms index_bounds(1)
  by (simp add: boot_mapped_def identity_only_def pg_ok_def PAGE_ENTRIES_def pte_def)

lemma boot_mapped_range:
  assumes "boot_mapped base 0 s" "pool_placed base"
  shows "\<exists>s'. map_identity_range base 0 IDENTITY_BOOT_END PAGING_FLAG_READ_WRITE s = Some s' \<and> boot_mapped base 16384 s'"
proof -
  let ?f = "\<lambda>i. let a = 0 + of_nat (i * 4096) in paging_map base a a PAGING_FLAG_READ_WRITE"
  have "\<exists>s'. for_each ?f [0..<16384] s = Some s' \<and> boot_mapped base (length [0..<16384]) s'"
  proof (rule for_each_invariant)
    fix i t assume "i < length [0..<16384]" "boot_mapped base i t"
    then show "\<exists>t'. ?f ([0..<16384] ! i) t = Some t' \<and> boot_mapped base (Suc i) t'"
      using boot_mapped_step [OF _ assms(2), of i t] by (simp add: Let_def)
  qed (use assms in simp)
  moreover have "PAGE_ALIGN_DOWN 0 = 0" "(IDENTITY_BOOT_END + 4096 - 1) AND 0xFFFFF000 = 0x04000000"
    by (simp_all add: PAGE_ALIGN_DOWN_def IDENTITY_BOOT_END_def)
  ultimately show ?thesis by (simp add: map_identity_range_def)
qed

text \<open>
  After \<open>paging_init\<close> paging is on, the tables are in order, every address of the first
  64 MiB is mapped to itself, and no address is mapped to anything but itself, whatever the kernel
  and framebuffer ranges are and even when the pool runs out.
\<close>

theorem paging_init_identity:
  assumes "length (page_table_pool s) = 128" "\<forall>t\<in>set (page_table_pool s). length t = 1024"
    and "pool_placed base"
  shows "\<exists>s'. paging_init base directory kernel_start kernel_end framebuffer s = Some s'
    \<and> pg_ok base s' \<and> paging_enabled s' \<and> cr3 s' = directory
    \<and> (\<forall>w. w < 0x04000000 \<longrightarrow> paging_get_physical base w s' = Some w)
    \<and> (\<forall>w. paging_get_physical base w s' = Some w \<or> paging_get_physical base w s' = Some 0)"
proof -
  obtain s1 where s1: "map_identity_range base 0 IDENTITY_BOOT_END PAGING_FLAG_READ_WRITE
      (s\<lparr>page_directory := replicate PAGE_ENTRIES 0, page_table_pool_used := 0\<rparr>) = Some s1"
      "boot_mapped base 16384 s1"
    using boot_mapped_range [OF boot_mapped_start [OF assms(1,2)] assms(3)] by blast
  have i1: "identity_only base s1" using s1(2) by (simp add: boot_mapped_def)
  obtain s2 where s2: "map_identity_range base kernel_start kernel_end PAGING_FLAG_READ_WRITE s1 = Some s2"
      "identity_only base s2" "\<forall>w. mapped_at base w s1 \<longrightarrow> mapped_at base w s2"
    using map_identity_rule [OF i1 assms(3)] by blast
  obtain s3 where s3: "map_framebuffer base framebuffer s2 = Some s3"
      "identity_only base s3" "\<forall>w. mapped_at base w s2 \<longrightarrow> mapped_at base w s3"
    using map_framebuffer_rule [OF s2(2) assms(3)] by blast
  let ?s = "s3\<lparr>cr3 := directory, cr0 := cr0 s3 OR 0x80000000, paging_enabled := True,
      fault_handler_registered := True\<rparr>"
  have run: "paging_init base directory kernel_start kernel_end framebuffer s = Some ?s"
    using s1(1) s2(1) s3(1) by (simp add: paging_init_def Let_def)
  have ok: "pg_ok base ?s" using s3(2) pg_ok_cong [of ?s s3] by (simp add: identity_only_def)
  have pte: "pte base w ?s = pte base w s3" for w by (rule pte_cong) simp_all
  have id: "paging_get_physical base w ?s = (if mapped_at base w s3 then Some w else Some 0)" for w
    using s3(2) entry_address [of w PAGING_FLAG_READ_WRITE] recombine [of w]
    unfolding get_physical_pte [OF ok assms(3)] pte identity_only_def mapped_at_def by auto
  have "mapped_at base w s3" if "w < 0x04000000" for w
  proof -
    have "unat w div 4096 < 16384" using that by (simp add: word_less_nat_alt less_mult_imp_div_less)
    then show ?thesis using s1(2) s2(3) s3(3) by (simp add: boot_mapped_def)
  qed
  with run ok id show ?thesis by auto
qed

definition blank_paging :: paging where
  "blank_paging = \<lparr>page_directory = replicate 1024 0, page_table_pool = replicate 128 (replicate 1024 0),
     page_table_pool_used = 0, paging_enabled = False, fault_handler_registered = False, tlb_flushed = [],
     cr0 = 0x11, cr3 = 0\<rparr>"

lemma blank_ok: "pg_ok 0x200000 blank_paging" "pool_placed 0x200000"
  by (simp_all add: pg_ok_def blank_paging_def pool_placed_def)

theorem paging_init_identity_witness:
  "\<exists>s'. paging_init 0x200000 0x1FF000 0x100000 0x180000 (Some (0xFD000000, 4096, 768)) blank_paging = Some s'
    \<and> paging_get_physical 0x200000 0x123456 s' = Some 0x123456"
  using paging_init_identity [of blank_paging "0x200000" "0x1FF000" "0x100000" "0x180000" "Some (0xFD000000, 4096, 768)"]
    blank_ok(2) by (auto simp: blank_paging_def)

theorem paging_map_translates_witness:
  "\<exists>s'. paging_map 0x200000 0xE0000000 0xFEBC0000 3 blank_paging = Some s'
    \<and> paging_get_physical 0x200000 0xE0000123 s' = Some 0xFEBC0123"
proof -
  have "page_table_pool_used blank_paging < BOOTSTRAP_PT_COUNT"
    by (simp add: blank_paging_def BOOTSTRAP_PT_COUNT_def)
  then show ?thesis
    using paging_map_translates [OF blank_ok, of "0xE0000000" "0xFEBC0000" 3]
    by (auto simp: same_page_def PAGE_ALIGN_DOWN_def)
qed

end
