(* ===== verification/Fat32.thy ===== *)
theory Fat32
  imports Prelude
begin

text \<open>
  \<open>filesystem/fat32/fat32.c\<close>: the FAT32 driver. It reaches the disk through the sector interface of
  \<open>filesystem/blockdev.h\<close>, here the record \<open>blockdev\<close> of operations on a device state. A function of
  the driver maps the device state to its result and the new device state; the volume geometry, the
  static \<open>fs\<close>, is an argument of the functions that only read it. A sector is a list of 512 bytes.
\<close>

section \<open>The sector interface and results\<close>

record 'd blockdev =
  bd_read :: "nat \<Rightarrow> 'd \<Rightarrow> bytes option \<times> 'd"
  bd_write :: "nat \<Rightarrow> bytes \<Rightarrow> 'd \<Rightarrow> bool \<times> 'd"
  bd_count :: "'d \<Rightarrow> nat"

text \<open>A call returns 0 and its results, or -1; \<open>Hung\<close> is a loop that makes no progress.\<close>

datatype 'a io_res = Done 'a | Failed | Hung

definition ret :: "'a \<Rightarrow> 'd \<Rightarrow> 'a io_res \<times> 'd" where "ret x d = (Done x, d)"
definition failr :: "'d \<Rightarrow> 'a io_res \<times> 'd" where "failr d = (Failed, d)"
definition hang :: "'d \<Rightarrow> 'a io_res \<times> 'd" where "hang d = (Hung, d)"

definition bindr :: "('d \<Rightarrow> 'a io_res \<times> 'd) \<Rightarrow> ('a \<Rightarrow> 'd \<Rightarrow> 'b io_res \<times> 'd) \<Rightarrow> 'd \<Rightarrow> 'b io_res \<times> 'd" where
  "bindr m k d =
     (case m d of (Done x, d) \<Rightarrow> k x d | (Failed, d) \<Rightarrow> (Failed, d) | (Hung, d) \<Rightarrow> (Hung, d))"

text \<open>The caller looks at the status itself.\<close>

definition catchr ::
    "('d \<Rightarrow> 'a io_res \<times> 'd) \<Rightarrow> ('a option \<Rightarrow> 'd \<Rightarrow> 'b io_res \<times> 'd) \<Rightarrow> 'd \<Rightarrow> 'b io_res \<times> 'd" where
  "catchr m k d =
     (case m d of (Done x, d) \<Rightarrow> k (Some x) d | (Failed, d) \<Rightarrow> k None d | (Hung, d) \<Rightarrow> (Hung, d))"

definition read_sector :: "'d blockdev \<Rightarrow> nat \<Rightarrow> 'd \<Rightarrow> bytes io_res \<times> 'd" where
  "read_sector io n d =
     (case bd_read io n d of (Some b, d) \<Rightarrow> (Done b, d) | (None, d) \<Rightarrow> (Failed, d))"

definition write_sector :: "'d blockdev \<Rightarrow> nat \<Rightarrow> bytes \<Rightarrow> 'd \<Rightarrow> unit io_res \<times> 'd" where
  "write_sector io n b d =
     (case bd_write io n b d of (True, d) \<Rightarrow> (Done (), d) | (False, d) \<Rightarrow> (Failed, d))"

section \<open>Volume geometry\<close>

definition BLOCKDEV_SECTOR_SIZE :: nat where "BLOCKDEV_SECTOR_SIZE = 512"
definition FAT32_ATTR_DIRECTORY :: u8 where "FAT32_ATTR_DIRECTORY = 0x10"
definition FAT32_ATTR_VOLUME_ID :: u8 where "FAT32_ATTR_VOLUME_ID = 0x08"
definition FAT32_ATTR_LFN :: u8 where "FAT32_ATTR_LFN = 0x0F"
definition FAT32_CLUSTER_FREE :: nat where "FAT32_CLUSTER_FREE = 0"
definition FAT32_CLUSTER_EOC :: nat where "FAT32_CLUSTER_EOC = 0x0FFFFFFF"
definition FAT32_CLUSTER_EOC_MIN :: nat where "FAT32_CLUSTER_EOC_MIN = 0x0FFFFFF8"
definition FAT32_MIN_CLUSTER_COUNT :: nat where "FAT32_MIN_CLUSTER_COUNT = 65525"

record fat32_state =
  mounted :: bool
  bytes_per_sector :: nat
  sectors_per_cluster :: nat
  reserved_sectors :: nat
  fat_count :: nat
  total_sectors :: nat
  sectors_per_fat :: nat
  root_cluster :: nat
  fat_start_sector :: nat
  data_start_sector :: nat

definition mul32 :: "nat \<Rightarrow> nat \<Rightarrow> nat" where
  "mul32 a b = a * b mod 4294967296"

lemma mul32_exact [simp]: "a * b < 4294967296 \<Longrightarrow> mul32 a b = a * b"
  by (simp add: mul32_def)

definition u16_at :: "bytes \<Rightarrow> nat \<Rightarrow> nat" where
  "u16_at b i = unat (u16_of_le (b ! i) (b ! (i + 1)))"

definition u32_at :: "bytes \<Rightarrow> nat \<Rightarrow> nat" where
  "u32_at b i = unat (u32_of_le (b ! i) (b ! (i + 1)) (b ! (i + 2)) (b ! (i + 3)))"

text \<open>Bytes written into a buffer from an offset on.\<close>

definition poke :: "nat \<Rightarrow> bytes \<Rightarrow> bytes \<Rightarrow> bytes" where
  "poke off xs b = take off b @ xs @ drop (off + length xs) b"

definition put_u16 :: "nat \<Rightarrow> nat \<Rightarrow> bytes \<Rightarrow> bytes" where
  "put_u16 off v b = poke off (le_of_u16 (of_nat v)) b"

definition put_u32 :: "nat \<Rightarrow> nat \<Rightarrow> bytes \<Rightarrow> bytes" where
  "put_u32 off v b = poke off (le_of_u32 (of_nat v)) b"

definition to_upper :: "u8 \<Rightarrow> u8" where
  "to_upper c = (if 97 \<le> c \<and> c \<le> 122 then c - (97 - 65) else c)"

definition entry_cluster :: "bytes \<Rightarrow> nat" where
  "entry_cluster e = u16_at e 20 * 65536 + u16_at e 26"

definition set_entry_cluster :: "nat \<Rightarrow> bytes \<Rightarrow> bytes" where
  "set_entry_cluster c e = put_u16 26 (c mod 65536) (put_u16 20 (c div 65536 mod 65536) e)"

definition cluster_to_sector :: "fat32_state \<Rightarrow> nat \<Rightarrow> nat" where
  "cluster_to_sector g c = add32 (data_start_sector g) (mul32 (sub32 c 2) (sectors_per_cluster g))"

definition cluster_bytes :: "fat32_state \<Rightarrow> nat" where
  "cluster_bytes g = mul32 (bytes_per_sector g) (sectors_per_cluster g)"

definition fat_entry_capacity :: "fat32_state \<Rightarrow> nat" where
  "fat_entry_capacity g = mul32 (sectors_per_fat g) BLOCKDEV_SECTOR_SIZE div 4"

definition is_data_cluster :: "nat \<Rightarrow> bool" where
  "is_data_cluster c \<longleftrightarrow> 2 \<le> c \<and> c < FAT32_CLUSTER_EOC_MIN"

definition clamp_cluster_limit :: "fat32_state \<Rightarrow> nat \<Rightarrow> nat" where
  "clamp_cluster_limit g by_layout =
     (let by_fat = fat_entry_capacity g
      in if by_fat < 2 then 2 else if by_layout < by_fat then by_layout else by_fat)"

definition max_cluster_index :: "fat32_state \<Rightarrow> nat" where
  "max_cluster_index g =
     clamp_cluster_limit g
       (add32 2 (sub32 (total_sectors g) (data_start_sector g) div sectors_per_cluster g))"

section \<open>The file allocation table\<close>

text \<open>An unreadable entry counts as the end of a chain.\<close>

definition read_fat_entry :: "'d blockdev \<Rightarrow> fat32_state \<Rightarrow> nat \<Rightarrow> 'd \<Rightarrow> nat io_res \<times> 'd" where
  "read_fat_entry io g c =
     (let fat_offset = mul32 c 4;
          sector_offset = fat_offset div BLOCKDEV_SECTOR_SIZE;
          entry_offset = fat_offset mod BLOCKDEV_SECTOR_SIZE
      in if fat_entry_capacity g \<le> c then ret FAT32_CLUSTER_EOC
         else catchr (read_sector io (add32 (fat_start_sector g) sector_offset)) (\<lambda>r.
           case r of
             None \<Rightarrow> ret FAT32_CLUSTER_EOC
           | Some b \<Rightarrow> ret (u32_at b entry_offset AND FAT32_CLUSTER_EOC)))"

definition write_fat_entry ::
    "'d blockdev \<Rightarrow> fat32_state \<Rightarrow> nat \<Rightarrow> nat \<Rightarrow> 'd \<Rightarrow> unit io_res \<times> 'd" where
  "write_fat_entry io g c v =
     (let fat_offset = mul32 c 4;
          sector_offset = fat_offset div BLOCKDEV_SECTOR_SIZE;
          entry_offset = fat_offset mod BLOCKDEV_SECTOR_SIZE
      in if fat_entry_capacity g \<le> c then failr
         else bindr (read_sector io (add32 (fat_start_sector g) sector_offset)) (\<lambda>b.
              write_sector io (add32 (fat_start_sector g) sector_offset)
                (put_u32 entry_offset (v AND FAT32_CLUSTER_EOC) b)))"

section \<open>Names and paths\<close>

definition space :: u8 where "space = 0x20"
definition dot :: u8 where "dot = 0x2E"
definition sep :: u8 where "sep = 0x2F"

definition make_display_name :: "bytes \<Rightarrow> bytes option" where
  "make_display_name raw =
     (let base = takeWhile (\<lambda>c. c \<noteq> space) (take 8 raw);
          ext = takeWhile (\<lambda>c. c \<noteq> space) (take 3 (drop 8 raw))
      in if base = [] then None
         else Some (base @ (if raw ! 8 \<noteq> space then dot # ext else [])))"

definition pad_name :: "nat \<Rightarrow> bytes \<Rightarrow> bytes" where
  "pad_name n xs = map to_upper xs @ replicate (n - length xs) space"

definition component_to_short_name :: "bytes \<Rightarrow> bytes option" where
  "component_to_short_name component =
     (let base = takeWhile (\<lambda>c. c \<noteq> dot) component;
          ext = tl (dropWhile (\<lambda>c. c \<noteq> dot) component)
      in if 8 < length base \<or> sep \<in> set base \<or> space \<in> set base then None
         else if base = [] then None
         else if 3 < length ext \<or> sep \<in> set ext \<or> space \<in> set ext \<or> dot \<in> set ext then None
         else Some (pad_name 8 base @ pad_name 3 ext))"

text \<open>The component buffer takes 12 characters and the terminator.\<close>

datatype path_step = Path_End | Path_Bad | Path_Component bytes bytes

definition next_path_component :: "bytes \<Rightarrow> path_step" where
  "next_path_component cursor =
     (let path = dropWhile (\<lambda>c. c = sep) cursor;
          component = takeWhile (\<lambda>c. c \<noteq> sep) path
      in if path = [] then Path_End
         else if 12 < length component then Path_Bad
         else Path_Component component (dropWhile (\<lambda>c. c \<noteq> sep) path))"

section \<open>Cluster data\<close>

definition sector_chunk :: "nat \<Rightarrow> nat \<Rightarrow> nat" where
  "sector_chunk off remaining =
     (let chunk = BLOCKDEV_SECTOR_SIZE - off mod BLOCKDEV_SECTOR_SIZE
      in if remaining < chunk then remaining else chunk)"

lemma sector_chunk_pos: "0 < n \<Longrightarrow> 0 < sector_chunk off n"
  by (simp add: sector_chunk_def BLOCKDEV_SECTOR_SIZE_def Let_def)

function read_cluster_loop :: "'d blockdev \<Rightarrow> nat \<Rightarrow> nat \<Rightarrow> nat \<Rightarrow> 'd \<Rightarrow> bytes io_res \<times> 'd" where
  "read_cluster_loop io start off remaining =
     (if remaining = 0 then ret []
      else
        (let sector_index = off div BLOCKDEV_SECTOR_SIZE;
             sector_offset = off mod BLOCKDEV_SECTOR_SIZE;
             chunk = sector_chunk off remaining
         in bindr (read_sector io (add32 start sector_index)) (\<lambda>b.
            bindr (read_cluster_loop io start (off + chunk) (remaining - chunk)) (\<lambda>rest.
              ret (take chunk (drop sector_offset b) @ rest)))))"
  by pat_completeness auto
termination
  by (relation "measure (\<lambda>(io, start, off, remaining). remaining)") (simp_all add: sector_chunk_pos)

declare read_cluster_loop.simps [simp del]

definition read_cluster_bytes ::
    "'d blockdev \<Rightarrow> fat32_state \<Rightarrow> nat \<Rightarrow> nat \<Rightarrow> nat \<Rightarrow> 'd \<Rightarrow> bytes io_res \<times> 'd" where
  "read_cluster_bytes io g c off sz =
     (if \<not> is_data_cluster c \<or> sz = 0 \<or> cluster_bytes g < add32 off sz then failr
      else read_cluster_loop io (cluster_to_sector g c) off sz)"

function write_cluster_loop :: "'d blockdev \<Rightarrow> nat \<Rightarrow> nat \<Rightarrow> bytes \<Rightarrow> 'd \<Rightarrow> unit io_res \<times> 'd" where
  "write_cluster_loop io start off buf =
     (if buf = [] then ret ()
      else
        (let sector_index = off div BLOCKDEV_SECTOR_SIZE;
             sector_offset = off mod BLOCKDEV_SECTOR_SIZE;
             chunk = sector_chunk off (length buf)
         in bindr (read_sector io (add32 start sector_index)) (\<lambda>b.
            bindr (write_sector io (add32 start sector_index) (poke sector_offset (take chunk buf) b)) (\<lambda>_.
              write_cluster_loop io start (off + chunk) (drop chunk buf)))))"
  by pat_completeness auto
termination
  by (relation "measure (\<lambda>(io, start, off, buf). length buf)") (simp_all add: sector_chunk_pos)

declare write_cluster_loop.simps [simp del]

definition write_cluster_bytes ::
    "'d blockdev \<Rightarrow> fat32_state \<Rightarrow> nat \<Rightarrow> nat \<Rightarrow> bytes \<Rightarrow> 'd \<Rightarrow> unit io_res \<times> 'd" where
  "write_cluster_bytes io g c off buf =
     (if \<not> is_data_cluster c \<or> buf = [] \<or> cluster_bytes g < add32 off (length buf) then failr
      else write_cluster_loop io (cluster_to_sector g c) off buf)"

fun write_zeros :: "'d blockdev \<Rightarrow> nat \<Rightarrow> nat list \<Rightarrow> 'd \<Rightarrow> unit io_res \<times> 'd" where
  "write_zeros io sector [] = ret ()"
| "write_zeros io sector (s # ss) =
     bindr (write_sector io (add32 sector s) (replicate BLOCKDEV_SECTOR_SIZE 0)) (\<lambda>_.
       write_zeros io sector ss)"

definition clear_cluster :: "'d blockdev \<Rightarrow> fat32_state \<Rightarrow> nat \<Rightarrow> 'd \<Rightarrow> unit io_res \<times> 'd" where
  "clear_cluster io g c = write_zeros io (cluster_to_sector g c) [0..<sectors_per_cluster g]"

section \<open>Chains\<close>

text \<open>The clusters from 2 up to the limit are tried in turn.\<close>

fun allocate_from :: "'d blockdev \<Rightarrow> fat32_state \<Rightarrow> nat list \<Rightarrow> 'd \<Rightarrow> nat io_res \<times> 'd" where
  "allocate_from io g [] = failr"
| "allocate_from io g (c # cs) =
     bindr (read_fat_entry io g c) (\<lambda>e.
       if e = FAT32_CLUSTER_FREE
       then bindr (write_fat_entry io g c FAT32_CLUSTER_EOC) (\<lambda>_.
            bindr (clear_cluster io g c) (\<lambda>_. ret c))
       else allocate_from io g cs)"

definition allocate_cluster :: "'d blockdev \<Rightarrow> fat32_state \<Rightarrow> 'd \<Rightarrow> nat io_res \<times> 'd" where
  "allocate_cluster io g = allocate_from io g [2..<max_cluster_index g]"

text \<open>\<open>left\<close> is \<open>4096 - guard\<close>: the loop gives up when it has freed 4097 clusters.\<close>

fun free_chain_loop :: "'d blockdev \<Rightarrow> fat32_state \<Rightarrow> nat \<Rightarrow> nat \<Rightarrow> 'd \<Rightarrow> unit io_res \<times> 'd" where
  "free_chain_loop io g left c =
     (if is_data_cluster c
      then bindr (read_fat_entry io g c) (\<lambda>e.
           bindr (write_fat_entry io g c FAT32_CLUSTER_FREE) (\<lambda>_.
             case left of 0 \<Rightarrow> failr | Suc left \<Rightarrow> free_chain_loop io g left e))
      else ret ())"

declare free_chain_loop.simps [simp del]

definition free_cluster_chain :: "'d blockdev \<Rightarrow> fat32_state \<Rightarrow> nat \<Rightarrow> 'd \<Rightarrow> unit io_res \<times> 'd" where
  "free_cluster_chain io g c = free_chain_loop io g 4096 c"

text \<open>The loop that follows or extends the chain by \<open>missing\<close> clusters; it returns the last one.\<close>

primrec extend_chain :: "'d blockdev \<Rightarrow> fat32_state \<Rightarrow> nat \<Rightarrow> nat \<Rightarrow> 'd \<Rightarrow> nat io_res \<times> 'd" where
  "extend_chain io g 0 current = ret current"
| "extend_chain io g (Suc missing) current =
     bindr (read_fat_entry io g current) (\<lambda>e.
       if \<not> is_data_cluster e
       then bindr (allocate_cluster io g) (\<lambda>allocated.
            bindr (write_fat_entry io g current allocated) (\<lambda>_.
              extend_chain io g missing allocated))
       else extend_chain io g missing e)"

definition ensure_file_cluster_chain ::
    "'d blockdev \<Rightarrow> fat32_state \<Rightarrow> nat \<Rightarrow> nat \<Rightarrow> 'd \<Rightarrow> nat io_res \<times> 'd" where
  "ensure_file_cluster_chain io g first required =
     (if required = 0 then ret first
      else bindr (if is_data_cluster first then ret first else allocate_cluster io g) (\<lambda>first.
           bindr (extend_chain io g (required - 1) first) (\<lambda>current.
           bindr (read_fat_entry io g current) (\<lambda>e.
           bindr (write_fat_entry io g current FAT32_CLUSTER_EOC) (\<lambda>_.
             if is_data_cluster e
             then bindr (free_cluster_chain io g e) (\<lambda>_. ret first)
             else ret first)))))"

section \<open>Directories\<close>

text \<open>
  The scan of a directory. \<open>Slot_Found\<close> gives sector, offset and entry; \<open>Slot_Free\<close> is the end mark, with
  the slot a new entry would take; a scan that runs out of entries goes on to the next sector.
\<close>

datatype slot_search = Slot_Found nat nat bytes | Slot_Free nat nat

text \<open>What one sector decides: an answer, or the free slot seen so far.\<close>

type_synonym free_slot = "(nat \<times> nat) option"

fun scan_entries ::
    "nat \<Rightarrow> bytes \<Rightarrow> bytes \<Rightarrow> nat list \<Rightarrow> free_slot \<Rightarrow> slot_search + free_slot" where
  "scan_entries n b name [] free = Inr free"
| "scan_entries n b name (off # offs) free =
     (if b ! off = 0
      then Inl (case free of None \<Rightarrow> Slot_Free n off | Some (s, k) \<Rightarrow> Slot_Free s k)
      else if b ! off = 0xE5 \<or> b ! (off + 11) = FAT32_ATTR_LFN
      then scan_entries n b name offs (case free of None \<Rightarrow> Some (n, off) | Some f \<Rightarrow> Some f)
      else if take 11 (drop off b) = name then Inl (Slot_Found n off (take 32 (drop off b)))
      else scan_entries n b name offs free)"

definition entry_offsets :: "nat list" where
  "entry_offsets = map (\<lambda>i. i * 32) [0..<16]"

fun scan_sectors ::
    "'d blockdev \<Rightarrow> bytes \<Rightarrow> nat list \<Rightarrow> free_slot \<Rightarrow> 'd \<Rightarrow> (slot_search + free_slot) io_res \<times> 'd" where
  "scan_sectors io name [] free = ret (Inr free)"
| "scan_sectors io name (n # ns) free =
     bindr (read_sector io n) (\<lambda>b.
       case scan_entries n b name entry_offsets free of
         Inl r \<Rightarrow> ret (Inl r)
       | Inr free \<Rightarrow> scan_sectors io name ns free)"

definition cluster_sectors :: "fat32_state \<Rightarrow> nat \<Rightarrow> nat list" where
  "cluster_sectors g c = map (add32 (cluster_to_sector g c)) [0..<sectors_per_cluster g]"

fun scan_clusters ::
    "'d blockdev \<Rightarrow> fat32_state \<Rightarrow> bytes \<Rightarrow> nat \<Rightarrow> nat \<Rightarrow> free_slot \<Rightarrow> 'd \<Rightarrow> slot_search io_res \<times> 'd" where
  "scan_clusters io g name left c free =
     (if is_data_cluster c
      then bindr (scan_sectors io name (cluster_sectors g c) free) (\<lambda>r.
           case r of
             Inl found \<Rightarrow> ret found
           | Inr free \<Rightarrow>
               bindr (read_fat_entry io g c) (\<lambda>e.
                 case left of 0 \<Rightarrow> failr | Suc left \<Rightarrow> scan_clusters io g name left e free))
      else failr)"

declare scan_clusters.simps [simp del]

definition find_entry_in_directory ::
    "'d blockdev \<Rightarrow> fat32_state \<Rightarrow> nat \<Rightarrow> bytes \<Rightarrow> 'd \<Rightarrow> slot_search io_res \<times> 'd" where
  "find_entry_in_directory io g c name = scan_clusters io g name 4096 c None"

definition attributes :: "bytes \<Rightarrow> u8" where "attributes e = e ! 11"

definition is_directory_entry :: "bytes \<Rightarrow> bool" where
  "is_directory_entry e \<longleftrightarrow> attributes e AND FAT32_ATTR_DIRECTORY \<noteq> 0"

text \<open>One step down: the entry must be there, be a directory and have a cluster.\<close>

definition enter_directory ::
    "'d blockdev \<Rightarrow> fat32_state \<Rightarrow> nat \<Rightarrow> bytes \<Rightarrow> 'd \<Rightarrow> nat io_res \<times> 'd" where
  "enter_directory io g current component =
     (case component_to_short_name component of
        None \<Rightarrow> failr
      | Some name \<Rightarrow>
          bindr (find_entry_in_directory io g current name) (\<lambda>r.
            case r of
              Slot_Free _ _ \<Rightarrow> failr
            | Slot_Found _ _ e \<Rightarrow>
                if \<not> is_directory_entry e then failr
                else if entry_cluster e < 2 then failr
                else ret (entry_cluster e)))"

lemma next_component_shorter:
  assumes "next_path_component cursor = Path_Component component rest"
  shows "length rest < length cursor"
proof -
  define path where "path = dropWhile (\<lambda>c. c = sep) cursor"
  have p: "path \<noteq> []" and r: "rest = dropWhile (\<lambda>c. c \<noteq> sep) path"
    using assms by (auto simp: next_path_component_def path_def Let_def split: if_splits)
  from p obtain x xs where x: "path = x # xs" by (cases path) auto
  have "x \<noteq> sep" using hd_dropWhile [of "\<lambda>c. c = sep" cursor] p unfolding path_def [symmetric] x by simp
  then have "length rest \<le> length xs" unfolding r x using length_dropWhile_le by simp
  moreover have "length path \<le> length cursor" unfolding path_def by (rule length_dropWhile_le)
  ultimately show ?thesis by (simp add: x)
qed

function resolve_from :: "'d blockdev \<Rightarrow> fat32_state \<Rightarrow> bytes \<Rightarrow> nat \<Rightarrow> 'd \<Rightarrow> nat io_res \<times> 'd" where
  "resolve_from io g cursor current =
     (case next_path_component cursor of
        Path_End \<Rightarrow> ret current
      | Path_Bad \<Rightarrow> failr
      | Path_Component component rest \<Rightarrow>
          bindr (enter_directory io g current component) (resolve_from io g rest))"
  by pat_completeness auto
termination
  by (relation "measure (\<lambda>(io, g, cursor, current). length cursor)") (simp_all add: next_component_shorter)

declare resolve_from.simps [simp del]

definition resolve_directory_cluster ::
    "'d blockdev \<Rightarrow> fat32_state \<Rightarrow> bytes \<Rightarrow> 'd \<Rightarrow> nat io_res \<times> 'd" where
  "resolve_directory_cluster io g path =
     (case path of
        [] \<Rightarrow> failr
      | x # rest \<Rightarrow>
          if x \<noteq> sep then failr
          else if rest = [] then ret (root_cluster g)
          else resolve_from io g path (root_cluster g))"

text \<open>
  The loop of \<open>resolve_parent_and_leaf\<close>: it looks one component ahead; what follows a component that
  is too long counts as the end of the path.
\<close>

function resolve_parent ::
    "'d blockdev \<Rightarrow> fat32_state \<Rightarrow> bytes \<Rightarrow> bytes \<Rightarrow> nat \<Rightarrow> 'd \<Rightarrow> (nat \<times> bytes) io_res \<times> 'd" where
  "resolve_parent io g component cursor current =
     (case next_path_component cursor of
        Path_Component next_component rest \<Rightarrow>
          bindr (enter_directory io g current component)
            (resolve_parent io g next_component (dropWhile (\<lambda>c. c = sep) rest))
      | _ \<Rightarrow>
          (case component_to_short_name component of
             None \<Rightarrow> failr
           | Some leaf \<Rightarrow> ret (current, leaf)))"
  by pat_completeness auto
termination
proof (relation "measure (\<lambda>(io, g, component, cursor, current). length cursor)", goal_cases)
  case (2 io g component cursor current next_component rest current')
  then have "length rest < length cursor" by (rule next_component_shorter)
  then show ?case using length_dropWhile_le [of "\<lambda>c. c = sep" rest] by simp
qed simp

declare resolve_parent.simps [simp del]

definition resolve_parent_and_leaf ::
    "'d blockdev \<Rightarrow> fat32_state \<Rightarrow> bytes \<Rightarrow> 'd \<Rightarrow> (nat \<times> bytes) io_res \<times> 'd" where
  "resolve_parent_and_leaf io g path =
     (case path of
        x # y # rest \<Rightarrow>
          if x \<noteq> sep then failr
          else (case next_path_component path of
                  Path_Component component cursor \<Rightarrow>
                    resolve_parent io g component cursor (root_cluster g)
                | _ \<Rightarrow> failr)
      | _ \<Rightarrow> failr)"

definition write_directory_entry ::
    "'d blockdev \<Rightarrow> nat \<Rightarrow> nat \<Rightarrow> bytes \<Rightarrow> 'd \<Rightarrow> unit io_res \<times> 'd" where
  "write_directory_entry io n off e =
     bindr (read_sector io n) (\<lambda>b. write_sector io n (poke off e b))"

definition new_entry :: "bytes \<Rightarrow> u8 \<Rightarrow> nat \<Rightarrow> nat \<Rightarrow> bytes" where
  "new_entry name attr first_cluster sz =
     put_u32 28 sz (set_entry_cluster first_cluster
       (poke 11 [attr] (poke 0 name (replicate 32 0))))"

definition create_entry_in_directory ::
    "'d blockdev \<Rightarrow> fat32_state \<Rightarrow> nat \<Rightarrow> bytes \<Rightarrow> u8 \<Rightarrow> nat \<Rightarrow> nat \<Rightarrow> 'd \<Rightarrow> unit io_res \<times> 'd" where
  "create_entry_in_directory io g parent name attr first_cluster sz =
     bindr (find_entry_in_directory io g parent name) (\<lambda>r.
       case r of
         Slot_Found _ _ _ \<Rightarrow> failr
       | Slot_Free n off \<Rightarrow> write_directory_entry io n off (new_entry name attr first_cluster sz))"

definition find_path_entry ::
    "'d blockdev \<Rightarrow> fat32_state \<Rightarrow> bytes \<Rightarrow> 'd \<Rightarrow> (nat \<times> nat \<times> nat \<times> bytes) io_res \<times> 'd" where
  "find_path_entry io g path =
     bindr (resolve_parent_and_leaf io g path) (\<lambda>(parent, leaf).
     bindr (find_entry_in_directory io g parent leaf) (\<lambda>r.
       case r of
         Slot_Free _ _ \<Rightarrow> failr
       | Slot_Found n off e \<Rightarrow> ret (parent, n, off, e)))"

section \<open>Mounting\<close>

definition fs_zero :: fat32_state where
  "fs_zero = \<lparr>mounted = False, bytes_per_sector = 0, sectors_per_cluster = 0, reserved_sectors = 0,
     fat_count = 0, total_sectors = 0, sectors_per_fat = 0, root_cluster = 0, fat_start_sector = 0,
     data_start_sector = 0\<rparr>"

text \<open>What the boot sector says; the static state keeps it even when mounting fails.\<close>

definition boot_geometry :: "bytes \<Rightarrow> fat32_state" where
  "boot_geometry b =
     fs_zero\<lparr>bytes_per_sector := u16_at b 11, sectors_per_cluster := unat (b ! 13),
       reserved_sectors := u16_at b 14, fat_count := unat (b ! 16), total_sectors := u32_at b 32,
       sectors_per_fat := u32_at b 36, root_cluster := u32_at b 44\<rparr>"

definition layout_geometry :: "fat32_state \<Rightarrow> fat32_state" where
  "layout_geometry g =
     g\<lparr>fat_start_sector := reserved_sectors g,
       data_start_sector := add32 (reserved_sectors g) (mul32 (fat_count g) (sectors_per_fat g))\<rparr>"

definition fat32_mount :: "'d blockdev \<Rightarrow> 'd \<Rightarrow> (bool \<times> fat32_state) \<times> 'd" where
  "fat32_mount io d =
     (case read_sector io 0 d of
        (Done b, d) \<Rightarrow>
          (if b ! 510 \<noteq> 0x55 \<or> b ! 511 \<noteq> 0xAA then ((False, fs_zero), d)
           else
             (let g = boot_geometry b
              in if bytes_per_sector g \<noteq> BLOCKDEV_SECTOR_SIZE \<or> sectors_per_cluster g = 0 \<or> fat_count g = 0
                    \<or> sectors_per_fat g = 0 \<or> root_cluster g < 2
                 then ((False, g), d)
                 else
                   (let g = layout_geometry g
                    in if bd_count io d \<le> data_start_sector g \<or> bd_count io d < total_sectors g
                       then ((False, g), d)
                       else ((True, g\<lparr>mounted := True\<rparr>), d))))
      | (_, d) \<Rightarrow> ((False, fs_zero), d))"

definition fat32_is_mounted :: "fat32_state \<Rightarrow> bool" where
  "fat32_is_mounted g = mounted g"

definition fat32_unmount :: "fat32_state \<Rightarrow> fat32_state" where
  "fat32_unmount g = g\<lparr>mounted := False\<rparr>"

section \<open>Listing\<close>

record fat32_dir_entry =
  de_name :: bytes
  de_is_directory :: bool
  de_size :: nat

text \<open>The visitor threads its context and returns \<open>True\<close> to stop.\<close>

type_synonym 'c visitor = "fat32_dir_entry \<Rightarrow> 'c \<Rightarrow> bool \<times> 'c"

text \<open>One sector: \<open>Inl\<close> is the end of the listing.\<close>

fun list_entries :: "'c visitor \<Rightarrow> bytes \<Rightarrow> nat list \<Rightarrow> 'c \<Rightarrow> 'c + 'c" where
  "list_entries visit b [] ctx = Inr ctx"
| "list_entries visit b (off # offs) ctx =
     (let e = take 32 (drop off b); attr = attributes e
      in if b ! off = 0 then Inl ctx
         else if b ! off = 0xE5 \<or> attr = 0x0F \<or> attr AND 0x08 \<noteq> 0 then list_entries visit b offs ctx
         else (case make_display_name e of
                 None \<Rightarrow> list_entries visit b offs ctx
               | Some name \<Rightarrow>
                   (case visit \<lparr>de_name = name, de_is_directory = is_directory_entry e,
                                 de_size = u32_at e 28\<rparr> ctx of
                      (True, ctx) \<Rightarrow> Inl ctx
                    | (False, ctx) \<Rightarrow> list_entries visit b offs ctx)))"

fun list_sectors :: "'d blockdev \<Rightarrow> 'c visitor \<Rightarrow> nat list \<Rightarrow> 'c \<Rightarrow> 'd \<Rightarrow> ('c + 'c) io_res \<times> 'd" where
  "list_sectors io visit [] ctx = ret (Inr ctx)"
| "list_sectors io visit (n # ns) ctx =
     bindr (read_sector io n) (\<lambda>b.
       case list_entries visit b entry_offsets ctx of
         Inl ctx \<Rightarrow> ret (Inl ctx)
       | Inr ctx \<Rightarrow> list_sectors io visit ns ctx)"

text \<open>A failure in the middle of a listing drops the context here.\<close>

fun list_clusters ::
    "'d blockdev \<Rightarrow> fat32_state \<Rightarrow> 'c visitor \<Rightarrow> nat \<Rightarrow> nat \<Rightarrow> 'c \<Rightarrow> 'd \<Rightarrow> 'c io_res \<times> 'd" where
  "list_clusters io g visit left c ctx =
     (if is_data_cluster c
      then bindr (list_sectors io visit (cluster_sectors g c) ctx) (\<lambda>r.
           case r of
             Inl ctx \<Rightarrow> ret ctx
           | Inr ctx \<Rightarrow>
               bindr (read_fat_entry io g c) (\<lambda>e.
                 case left of 0 \<Rightarrow> failr | Suc left \<Rightarrow> list_clusters io g visit left e ctx))
      else ret ctx)"

declare list_clusters.simps [simp del]

definition fat32_list_dir ::
    "'d blockdev \<Rightarrow> fat32_state \<Rightarrow> bytes \<Rightarrow> 'c visitor \<Rightarrow> 'c \<Rightarrow> 'd \<Rightarrow> 'c io_res \<times> 'd" where
  "fat32_list_dir io g path visit ctx =
     (if \<not> mounted g then failr
      else bindr (resolve_directory_cluster io g path) (\<lambda>c. list_clusters io g visit 4096 c ctx))"

section \<open>Files\<close>

definition fat32_touch_file :: "'d blockdev \<Rightarrow> fat32_state \<Rightarrow> bytes \<Rightarrow> 'd \<Rightarrow> unit io_res \<times> 'd" where
  "fat32_touch_file io g path =
     (if \<not> mounted g then failr
      else bindr (resolve_parent_and_leaf io g path) (\<lambda>(parent, leaf).
           catchr (find_entry_in_directory io g parent leaf) (\<lambda>r.
             case r of
               Some (Slot_Found _ _ e) \<Rightarrow> if is_directory_entry e then failr else ret ()
             | _ \<Rightarrow> create_entry_in_directory io g parent leaf 0x20 0 0)))"

text \<open>The two loops of \<open>fat32_write_file\<close>: seek to the cluster of an offset, then write cluster by cluster.\<close>

function seek_cluster :: "'d blockdev \<Rightarrow> fat32_state \<Rightarrow> nat \<Rightarrow> nat \<Rightarrow> 'd \<Rightarrow> (nat \<times> nat) io_res \<times> 'd" where
  "seek_cluster io g c off =
     (if off < cluster_bytes g then ret (c, off)
      else bindr (read_fat_entry io g c) (\<lambda>e.
           if \<not> is_data_cluster e then failr
           else if cluster_bytes g = 0 then hang
           else seek_cluster io g e (off - cluster_bytes g)))"
  by pat_completeness auto
termination by (relation "measure (\<lambda>(io, g, c, off). off)") auto

declare seek_cluster.simps [simp del]

function write_chain :: "'d blockdev \<Rightarrow> fat32_state \<Rightarrow> nat \<Rightarrow> nat \<Rightarrow> bytes \<Rightarrow> 'd \<Rightarrow> unit io_res \<times> 'd" where
  "write_chain io g c off buf =
     (if buf = [] then ret ()
      else
        (let chunk = sub32 (cluster_bytes g) off;
             chunk = (if length buf < chunk then length buf else chunk)
         in bindr (write_cluster_bytes io g c off (take chunk buf)) (\<lambda>_.
              if drop chunk buf = [] then ret ()
              else if chunk = 0 then hang
              else bindr (read_fat_entry io g c) (\<lambda>e.
                   if \<not> is_data_cluster e then failr
                   else write_chain io g e 0 (drop chunk buf)))))"
  by pat_completeness auto
termination by (relation "measure (\<lambda>(io, g, c, off, buf). length buf)") auto

declare write_chain.simps [simp del]

definition update_entry :: "nat \<Rightarrow> nat \<Rightarrow> bytes \<Rightarrow> bytes" where
  "update_entry c sz e = put_u32 28 sz (set_entry_cluster c e)"

text \<open>The part of \<open>fat32_write_file\<close> after the entry is found.\<close>

definition write_contents ::
    "'d blockdev \<Rightarrow> fat32_state \<Rightarrow> nat \<times> nat \<times> bytes \<Rightarrow> bytes \<Rightarrow> bool \<Rightarrow> 'd \<Rightarrow> unit io_res \<times> 'd" where
  "write_contents io g = (\<lambda>(n, off, e) buf app.
     let original_size = u32_at e 28;
         first = entry_cluster e;
         sz = length buf
     in if app \<and> 4294967295 - original_size < sz then failr
        else
          (let final_size = (if app then original_size + sz else sz)
           in bindr (if app then ret first
                     else bindr (if is_data_cluster first then free_cluster_chain io g first else ret ()) (\<lambda>_.
                          ret 0)) (\<lambda>first.
              if final_size = 0 then write_directory_entry io n off (update_entry 0 0 e)
              else
                (let required = sub32 (add32 final_size (cluster_bytes g)) 1 div cluster_bytes g
                 in bindr (ensure_file_cluster_chain io g first required) (\<lambda>first.
                    bindr (seek_cluster io g first (if app then original_size else 0)) (\<lambda>(c, woff).
                    bindr (write_chain io g c woff buf) (\<lambda>_.
                      write_directory_entry io n off (update_entry first final_size e))))))))"

text \<open>\<open>sz > 0\<close> with a null buffer is refused, which a list of bytes cannot express.\<close>

definition fat32_write_file ::
    "'d blockdev \<Rightarrow> fat32_state \<Rightarrow> bytes \<Rightarrow> bytes \<Rightarrow> bool \<Rightarrow> 'd \<Rightarrow> unit io_res \<times> 'd" where
  "fat32_write_file io g path buf app =
     (if \<not> mounted g then failr
      else bindr (resolve_parent_and_leaf io g path) (\<lambda>(parent, leaf).
           bindr (catchr (find_entry_in_directory io g parent leaf) (\<lambda>r.
                    case r of
                      Some (Slot_Found n off e) \<Rightarrow> ret (n, off, e)
                    | _ \<Rightarrow>
                        bindr (create_entry_in_directory io g parent leaf 0x20 0 0) (\<lambda>_.
                        bindr (find_entry_in_directory io g parent leaf) (\<lambda>r.
                          case r of Slot_Found n off e \<Rightarrow> ret (n, off, e) | Slot_Free _ _ \<Rightarrow> failr)))) (\<lambda>(n, off, e).
             if is_directory_entry e then failr
             else write_contents io g (n, off, e) buf app)))"

text \<open>The read loop over the remaining bytes.\<close>

function read_chain :: "'d blockdev \<Rightarrow> fat32_state \<Rightarrow> nat \<Rightarrow> nat \<Rightarrow> 'd \<Rightarrow> bytes io_res \<times> 'd" where
  "read_chain io g c remaining =
     (if remaining = 0 then ret []
      else
        (let chunk = (if remaining < cluster_bytes g then remaining else cluster_bytes g)
         in bindr (read_cluster_bytes io g c 0 chunk) (\<lambda>xs.
              if remaining - chunk = 0 then ret xs
              else if chunk = 0 then hang
              else bindr (read_fat_entry io g c) (\<lambda>e.
                   if \<not> is_data_cluster e then failr
                   else bindr (read_chain io g e (remaining - chunk)) (\<lambda>rest. ret (xs @ rest))))))"
  by pat_completeness auto
termination by (relation "measure (\<lambda>(io, g, c, remaining). remaining)") auto

declare read_chain.simps [simp del]

text \<open>The bytes before the terminator that the caller's buffer receives.\<close>

definition read_contents ::
    "'d blockdev \<Rightarrow> fat32_state \<Rightarrow> bytes \<Rightarrow> nat \<Rightarrow> 'd \<Rightarrow> bytes io_res \<times> 'd" where
  "read_contents io g e capacity =
     (let sz = u32_at e 28; c = entry_cluster e
      in if capacity \<le> sz then failr
         else if sz = 0 then ret []
         else if \<not> is_data_cluster c then failr
         else read_chain io g c sz)"

definition fat32_read_file ::
    "'d blockdev \<Rightarrow> fat32_state \<Rightarrow> bytes \<Rightarrow> nat \<Rightarrow> 'd \<Rightarrow> bytes io_res \<times> 'd" where
  "fat32_read_file io g path capacity =
     (if \<not> mounted g \<or> capacity = 0 then failr
      else bindr (resolve_parent_and_leaf io g path) (\<lambda>(parent, leaf).
           bindr (find_entry_in_directory io g parent leaf) (\<lambda>r.
             case r of
               Slot_Free _ _ \<Rightarrow> failr
             | Slot_Found _ _ e \<Rightarrow>
                 if is_directory_entry e then failr else read_contents io g e capacity)))"

section \<open>Directories and removal\<close>

definition text_bytes :: "string \<Rightarrow> bytes" where
  "text_bytes = map (of_nat \<circ> of_char)"

definition dir_sector :: "nat \<Rightarrow> nat \<Rightarrow> bytes" where
  "dir_sector new_cluster parent =
     (let e1 = set_entry_cluster new_cluster
                 (poke 11 [FAT32_ATTR_DIRECTORY] (poke 0 (text_bytes ''.          '') (replicate 32 0)));
          e2 = set_entry_cluster parent
                 (poke 11 [FAT32_ATTR_DIRECTORY] (poke 0 (text_bytes ''..         '') (replicate 32 0)))
      in e1 @ e2 @ replicate 448 0)"

definition fat32_make_dir :: "'d blockdev \<Rightarrow> fat32_state \<Rightarrow> bytes \<Rightarrow> 'd \<Rightarrow> unit io_res \<times> 'd" where
  "fat32_make_dir io g path =
     (if \<not> mounted g then failr
      else bindr (resolve_parent_and_leaf io g path) (\<lambda>(parent, leaf).
           catchr (find_entry_in_directory io g parent leaf) (\<lambda>r.
             case r of
               Some (Slot_Found _ _ _) \<Rightarrow> failr
             | _ \<Rightarrow>
                 bindr (allocate_cluster io g) (\<lambda>c.
                 bindr (write_sector io (cluster_to_sector g c) (dir_sector c parent)) (\<lambda>_.
                   create_entry_in_directory io g parent leaf FAT32_ATTR_DIRECTORY c 0)))))"

definition delete_entry :: "'d blockdev \<Rightarrow> fat32_state \<Rightarrow> nat \<times> nat \<times> bytes \<Rightarrow> 'd \<Rightarrow> unit io_res \<times> 'd" where
  "delete_entry io g = (\<lambda>(n, off, e).
     bindr (if 2 \<le> entry_cluster e then free_cluster_chain io g (entry_cluster e) else ret ()) (\<lambda>_.
       write_directory_entry io n off (poke 0 [0xE5] e)))"

definition fat32_remove_file :: "'d blockdev \<Rightarrow> fat32_state \<Rightarrow> bytes \<Rightarrow> 'd \<Rightarrow> unit io_res \<times> 'd" where
  "fat32_remove_file io g path =
     (if \<not> mounted g then failr
      else bindr (find_path_entry io g path) (\<lambda>(parent, n, off, e).
             if is_directory_entry e then failr else delete_entry io g (n, off, e)))"

text \<open>
  The emptiness check of \<open>fat32_remove_dir\<close>. The break at an end mark leaves only the loop over the
  entries of one sector; the entries at offsets 0 and 32 are passed over in every sector.
\<close>

fun sector_is_empty :: "bytes \<Rightarrow> nat list \<Rightarrow> bool" where
  "sector_is_empty b [] = True"
| "sector_is_empty b (off # offs) =
     (if b ! off = 0 then True
      else if b ! off = 0xE5 \<or> b ! (off + 11) = FAT32_ATTR_LFN then sector_is_empty b offs
      else if off = 0 \<or> off = 32 then sector_is_empty b offs
      else False)"

fun sectors_are_empty :: "'d blockdev \<Rightarrow> nat list \<Rightarrow> 'd \<Rightarrow> unit io_res \<times> 'd" where
  "sectors_are_empty io [] = ret ()"
| "sectors_are_empty io (n # ns) =
     bindr (read_sector io n) (\<lambda>b.
       if sector_is_empty b entry_offsets then sectors_are_empty io ns else failr)"

fun clusters_are_empty :: "'d blockdev \<Rightarrow> fat32_state \<Rightarrow> nat \<Rightarrow> nat \<Rightarrow> 'd \<Rightarrow> unit io_res \<times> 'd" where
  "clusters_are_empty io g left c =
     (if is_data_cluster c
      then bindr (sectors_are_empty io (cluster_sectors g c)) (\<lambda>_.
           bindr (read_fat_entry io g c) (\<lambda>e.
             case left of 0 \<Rightarrow> failr | Suc left \<Rightarrow> clusters_are_empty io g left e))
      else ret ())"

declare clusters_are_empty.simps [simp del]

definition fat32_remove_dir :: "'d blockdev \<Rightarrow> fat32_state \<Rightarrow> bytes \<Rightarrow> 'd \<Rightarrow> unit io_res \<times> 'd" where
  "fat32_remove_dir io g path =
     (if \<not> mounted g \<or> path = [] \<or> hd path \<noteq> sep \<or> tl path = [] then failr
      else bindr (find_path_entry io g path) (\<lambda>(parent, n, off, e).
             if \<not> is_directory_entry e then failr
             else bindr (clusters_are_empty io g 4096 (entry_cluster e)) (\<lambda>_.
                    delete_entry io g (n, off, e))))"

definition fat32_path_is_dir :: "'d blockdev \<Rightarrow> fat32_state \<Rightarrow> bytes \<Rightarrow> 'd \<Rightarrow> bool io_res \<times> 'd" where
  "fat32_path_is_dir io g path =
     (if \<not> mounted g then failr
      else if path = [sep] then ret True
      else bindr (find_path_entry io g path) (\<lambda>(parent, n, off, e). ret (is_directory_entry e)))"

section \<open>Free space\<close>

definition fat_offsets :: "nat list" where
  "fat_offsets = map (\<lambda>i. i * 4) [0..<128]"

text \<open>The free clusters one FAT sector shows; here the reserved bits of an entry count.\<close>

definition free_in_sector :: "nat \<Rightarrow> nat \<Rightarrow> bytes \<Rightarrow> nat" where
  "free_in_sector limit first_cluster b =
     length (filter (\<lambda>off. 2 \<le> first_cluster + off div 4 \<and> first_cluster + off div 4 < limit
                            \<and> u32_at b off = FAT32_CLUSTER_FREE) fat_offsets)"

fun count_free :: "'d blockdev \<Rightarrow> fat32_state \<Rightarrow> nat \<Rightarrow> nat list \<Rightarrow> nat \<Rightarrow> 'd \<Rightarrow> nat io_res \<times> 'd" where
  "count_free io g limit [] free = ret free"
| "count_free io g limit (k # ks) free =
     (let first_cluster = mul32 k BLOCKDEV_SECTOR_SIZE div 4
      in if limit \<le> first_cluster then ret free
         else bindr (read_sector io (add32 (fat_start_sector g) k)) (\<lambda>b.
                count_free io g limit ks (free + free_in_sector limit first_cluster b)))"

text \<open>Total, used and free sectors.\<close>

definition fat32_get_space :: "'d blockdev \<Rightarrow> fat32_state \<Rightarrow> 'd \<Rightarrow> (nat \<times> nat \<times> nat) io_res \<times> 'd" where
  "fat32_get_space io g =
     (if \<not> mounted g then failr
      else
        (let limit = max_cluster_index g
         in if limit \<le> 2 then failr
            else bindr (count_free io g limit [0..<sectors_per_fat g] 0) (\<lambda>free.
                   let total = limit - 2; used = sub32 total free
                   in ret (mul32 total (sectors_per_cluster g), mul32 used (sectors_per_cluster g),
                           mul32 free (sectors_per_cluster g)))))"

end
