(* ===== verification/Fat32_Disk.thy ===== *)
theory Fat32_Disk
  imports Fat32
begin

text \<open>
  Reasoning about the FAT32 driver on a disk that works. The locale \<open>block_device\<close> is the contract of the
  sector interface; \<open>gives f m P\<close> says that \<open>f\<close>, started on a disk with contents \<open>m\<close>, returns 0 with a
  result and contents that satisfy \<open>P\<close>. The second part are the rules for one FAT entry and for the
  bytes of a cluster.
\<close>

section \<open>Bytes in a buffer\<close>

lemma length_poke [simp]: "off + length xs \<le> length b \<Longrightarrow> length (poke off xs b) = length b"
  by (simp add: poke_def)

lemma nth_poke:
  "off + length xs \<le> length b \<Longrightarrow> i < length b \<Longrightarrow>
   poke off xs b ! i = (if off \<le> i \<and> i < off + length xs then xs ! (i - off) else b ! i)"
  by (auto simp: poke_def nth_append min_def)

lemma poke_Nil [simp]: "poke off [] b = b"
  by (simp add: poke_def)

lemma poke_append:
  "off + length xs + length ys \<le> length b \<Longrightarrow>
   poke off (xs @ ys) b = poke (off + length xs) ys (poke off xs b)"
  by (rule nth_equalityI) (auto simp: nth_poke nth_append)

lemma take_drop_poke:
  "off + length xs \<le> length b \<Longrightarrow> take (length xs) (drop off (poke off xs b)) = xs"
  by (simp add: poke_def)

lemma u32_bytes: "u32_of_le (le_of_u32 v ! 0) (le_of_u32 v ! 1) (le_of_u32 v ! 2) (le_of_u32 v ! 3) = v"
  using u32_of_le_bytes [of v] by (simp add: le_of_u32_def)

lemma length_put_u32 [simp]: "off + 4 \<le> length b \<Longrightarrow> length (put_u32 off v b) = length b"
  by (simp add: put_u32_def)

lemma u32_at_put_same: "off + 4 \<le> length b \<Longrightarrow> u32_at (put_u32 off v b) off = v mod 4294967296"
  using u32_bytes [of "of_nat v"]
  by (simp add: u32_at_def put_u32_def nth_poke unat_of_nat)

lemma u32_at_put_other:
  "off + 4 \<le> length b \<Longrightarrow> k + 4 \<le> length b \<Longrightarrow> k + 4 \<le> off \<or> off + 4 \<le> k \<Longrightarrow>
   u32_at (put_u32 off v b) k = u32_at b k"
  by (auto simp: u32_at_def put_u32_def nth_poke)

lemma u32_at_bound: "u32_at b k < 4294967296"
  unfolding u32_at_def by (rule unat_bounds)

section \<open>The contract of the sector interface\<close>

type_synonym disk = "nat \<Rightarrow> bytes"

locale block_device =
  fixes io :: "'d blockdev" and ok :: "'d \<Rightarrow> bool" and view :: "'d \<Rightarrow> disk" and N :: nat
  assumes count: "ok d \<Longrightarrow> bd_count io d = N"
    and sectors: "ok d \<Longrightarrow> n < N \<Longrightarrow> length (view d n) = 512"
    and reads: "ok d \<Longrightarrow> n < N \<Longrightarrow>
      \<exists>d'. bd_read io n d = (Some (view d n), d') \<and> ok d' \<and> view d' = view d"
    and writes: "ok d \<Longrightarrow> n < N \<Longrightarrow> length b = 512 \<Longrightarrow>
      \<exists>d'. bd_write io n b d = (True, d') \<and> ok d' \<and> view d' = (view d)(n := b)"
    and no_read: "ok d \<Longrightarrow> N \<le> n \<Longrightarrow> bd_read io n d = (None, d)"
    and no_write: "ok d \<Longrightarrow> N \<le> n \<Longrightarrow> bd_write io n b d = (False, d)"

definition runs ::
    "('d \<Rightarrow> bool) \<Rightarrow> ('d \<Rightarrow> disk) \<Rightarrow> ('d \<Rightarrow> 'a io_res \<times> 'd) \<Rightarrow> disk \<Rightarrow> ('a io_res \<Rightarrow> disk \<Rightarrow> bool) \<Rightarrow> bool" where
  "runs ok view f m P \<longleftrightarrow> (\<forall>d. ok d \<and> view d = m \<longrightarrow> (\<exists>r d'. f d = (r, d') \<and> ok d' \<and> P r (view d')))"

definition returns ::
    "('d \<Rightarrow> bool) \<Rightarrow> ('d \<Rightarrow> disk) \<Rightarrow> ('d \<Rightarrow> 'a io_res \<times> 'd) \<Rightarrow> disk \<Rightarrow> ('a \<Rightarrow> disk \<Rightarrow> bool) \<Rightarrow> bool" where
  "returns ok view f m P \<longleftrightarrow> runs ok view f m (\<lambda>r m'. \<exists>x. r = Done x \<and> P x m')"

definition sound_disk :: "nat \<Rightarrow> disk \<Rightarrow> bool" where
  "sound_disk N m \<longleftrightarrow> (\<forall>n < N. length (m n) = 512)"

context block_device
begin

abbreviation wp :: "('d \<Rightarrow> 'a io_res \<times> 'd) \<Rightarrow> disk \<Rightarrow> ('a io_res \<Rightarrow> disk \<Rightarrow> bool) \<Rightarrow> bool" where
  "wp \<equiv> runs ok view"

abbreviation gives :: "('d \<Rightarrow> 'a io_res \<times> 'd) \<Rightarrow> disk \<Rightarrow> ('a \<Rightarrow> disk \<Rightarrow> bool) \<Rightarrow> bool" where
  "gives \<equiv> returns ok view"

text \<open>The function reads only, and its result is \<open>y\<close>.\<close>

definition gets :: "('d \<Rightarrow> 'a io_res \<times> 'd) \<Rightarrow> disk \<Rightarrow> 'a \<Rightarrow> bool" where
  "gets f m y \<longleftrightarrow> gives f m (\<lambda>x m'. x = y \<and> m' = m)"

lemma wp_weaken: "wp f m Q \<Longrightarrow> (\<And>r m'. Q r m' \<Longrightarrow> P r m') \<Longrightarrow> wp f m P"
  by (fastforce simp: runs_def)

lemma gives_weaken: "gives f m Q \<Longrightarrow> (\<And>x m'. Q x m' \<Longrightarrow> P x m') \<Longrightarrow> gives f m P"
  unfolding returns_def by (erule wp_weaken) auto

lemma wp_ret: "P (Done x) m \<Longrightarrow> wp (ret x) m P"
  by (auto simp: runs_def ret_def)

lemma wp_failr: "P Failed m \<Longrightarrow> wp failr m P"
  by (auto simp: runs_def failr_def)

lemma gives_ret: "P x m \<Longrightarrow> gives (ret x) m P"
  by (simp add: returns_def wp_ret)

lemma yields_ret [simp]: "gets (ret x) m x"
  by (simp add: gets_def gives_ret)

lemma wp_bind:
  assumes "wp f m Q" and "\<And>x m'. Q (Done x) m' \<Longrightarrow> wp (k x) m' P"
    and "\<And>m'. Q Failed m' \<Longrightarrow> P Failed m'" and "\<And>m'. Q Hung m' \<Longrightarrow> P Hung m'"
  shows "wp (bindr f k) m P"
  unfolding runs_def
proof (intro allI impI)
  fix d assume d: "ok d \<and> view d = m"
  with assms(1) obtain r d' where f: "f d = (r, d')" "ok d'" "Q r (view d')" unfolding runs_def by blast
  show "\<exists>r d'. bindr f k d = (r, d') \<and> ok d' \<and> P r (view d')"
  proof (cases r)
    case (Done x)
    with assms(2) f have "wp (k x) (view d') P" by blast
    then show ?thesis using f Done unfolding runs_def by (auto simp: bindr_def)
  qed (use f assms(3,4) in \<open>auto simp: bindr_def\<close>)
qed

lemma wp_catch:
  assumes "wp f m Q" and "\<And>x m'. Q (Done x) m' \<Longrightarrow> wp (k (Some x)) m' P"
    and "\<And>m'. Q Failed m' \<Longrightarrow> wp (k None) m' P" and "\<And>m'. Q Hung m' \<Longrightarrow> P Hung m'"
  shows "wp (catchr f k) m P"
  unfolding runs_def
proof (intro allI impI)
  fix d assume d: "ok d \<and> view d = m"
  with assms(1) obtain r d' where f: "f d = (r, d')" "ok d'" "Q r (view d')" unfolding runs_def by blast
  show "\<exists>r d'. catchr f k d = (r, d') \<and> ok d' \<and> P r (view d')"
  proof (cases r)
    case (Done x)
    with assms(2) f have "wp (k (Some x)) (view d') P" by blast
    then show ?thesis using f Done unfolding runs_def by (auto simp: catchr_def)
  next
    case Failed
    with assms(3) f have "wp (k None) (view d') P" by blast
    then show ?thesis using f Failed unfolding runs_def by (auto simp: catchr_def)
  qed (use f assms(4) in \<open>auto simp: catchr_def\<close>)
qed

text \<open>Sequencing after a call that returns 0, for each kind of goal.\<close>

lemma wp_bind_gives: "gives f m Q \<Longrightarrow> (\<And>x m'. Q x m' \<Longrightarrow> wp (k x) m' P) \<Longrightarrow> wp (bindr f k) m P"
  unfolding returns_def by (erule wp_bind) auto

lemma gives_bind: "gives f m Q \<Longrightarrow> (\<And>x m'. Q x m' \<Longrightarrow> gives (k x) m' P) \<Longrightarrow> gives (bindr f k) m P"
  by (simp add: returns_def [of _ _ "bindr f k"] returns_def [of _ _ "k _"] wp_bind_gives)

lemma wp_bind_yields: "gets f m y \<Longrightarrow> wp (k y) m P \<Longrightarrow> wp (bindr f k) m P"
  unfolding gets_def by (erule wp_bind_gives) simp

lemma gives_bind_yields: "gets f m y \<Longrightarrow> gives (k y) m P \<Longrightarrow> gives (bindr f k) m P"
  unfolding gets_def by (erule gives_bind) simp

lemma yields_bind: "gets f m y \<Longrightarrow> gets (k y) m z \<Longrightarrow> gets (bindr f k) m z"
  unfolding gets_def [of "bindr f k"] gets_def [of "k y"] by (rule gives_bind_yields)

lemma wp_catch_yields: "gets f m y \<Longrightarrow> wp (k (Some y)) m P \<Longrightarrow> wp (catchr f k) m P"
  unfolding gets_def returns_def by (erule wp_catch) auto

lemma gives_catch_yields: "gets f m y \<Longrightarrow> gives (k (Some y)) m P \<Longrightarrow> gives (catchr f k) m P"
  unfolding returns_def by (rule wp_catch_yields)

lemma yields_catch: "gets f m y \<Longrightarrow> gets (k (Some y)) m z \<Longrightarrow> gets (catchr f k) m z"
  unfolding gets_def [of "catchr f k"] gets_def [of "k (Some y)"] by (rule gives_catch_yields)

lemma yields_read: "n < N \<Longrightarrow> gets (read_sector io n) m (m n)"
  unfolding gets_def returns_def runs_def
proof (intro allI impI)
  fix d assume "n < N" "ok d \<and> view d = m"
  with reads [of d n] show "\<exists>r d'. read_sector io n d = (r, d') \<and> ok d' \<and>
      (\<exists>x. r = Done x \<and> x = m n \<and> view d' = m)"
    by (auto simp: read_sector_def)
qed

lemma gives_write:
  "n < N \<Longrightarrow> length b = 512 \<Longrightarrow> gives (write_sector io n b) m (\<lambda>_ m'. m' = m(n := b))"
  unfolding returns_def runs_def
proof (intro allI impI)
  fix d assume "n < N" "length b = 512" "ok d \<and> view d = m"
  with writes [of d n b] show "\<exists>r d'. write_sector io n b d = (r, d') \<and> ok d' \<and>
      (\<exists>x. r = Done x \<and> view d' = m(n := b))"
    by (auto simp: write_sector_def)
qed

lemmas read_bind = gives_bind_yields [OF yields_read]

lemma write_bind:
  "n < N \<Longrightarrow> length b = 512 \<Longrightarrow> gives (k ()) (m(n := b)) P \<Longrightarrow> gives (bindr (write_sector io n b) k) m P"
  by (rule gives_bind [OF gives_write]) auto

lemma view_sound: "ok d \<Longrightarrow> sound_disk N (view d)"
  by (simp add: sound_disk_def sectors)

end

end
