(* ===== verification/Fat32_Table.thy ===== *)
theory Fat32_Table
  imports Fat32_Disk
begin

text \<open>
  The file allocation table as a function from clusters to entries, and the bytes of a cluster: what the
  accessors of \<open>fat32.c\<close> do to these two views of a disk. \<open>geom\<close> is the geometry of a volume that has_room
  its device.
\<close>

section \<open>Views of a disk\<close>

definition geom :: "nat \<Rightarrow> fat32_state \<Rightarrow> bool" where
  "geom N g \<longleftrightarrow> mounted g \<and> bytes_per_sector g = 512 \<and> 0 < sectors_per_cluster g \<and> sectors_per_cluster g < 256
     \<and> 0 < sectors_per_fat g \<and> sectors_per_fat g < 2097152
     \<and> fat_start_sector g + sectors_per_fat g \<le> data_start_sector g
     \<and> data_start_sector g \<le> total_sectors g \<and> total_sectors g \<le> N \<and> N < 4294967296"

definition in_volume :: "fat32_state \<Rightarrow> nat \<Rightarrow> bool" where
  "in_volume g c \<longleftrightarrow> 2 \<le> c \<and> c < max_cluster_index g"

definition fat_entry :: "fat32_state \<Rightarrow> disk \<Rightarrow> nat \<Rightarrow> nat" where
  "fat_entry g m c = u32_at (m (fat_start_sector g + c div 128)) (c mod 128 * 4) AND FAT32_CLUSTER_EOC"

definition fat :: "fat32_state \<Rightarrow> disk \<Rightarrow> nat \<Rightarrow> nat" where
  "fat g m c = (if in_volume g c then fat_entry g m c else 0)"

definition sector_bytes :: "disk \<Rightarrow> nat \<Rightarrow> nat \<Rightarrow> bytes" where
  "sector_bytes m s k = concat (map m [s..<s + k])"

definition first_sector :: "fat32_state \<Rightarrow> nat \<Rightarrow> nat" where
  "first_sector g c = data_start_sector g + (c - 2) * sectors_per_cluster g"

definition cluster_data :: "fat32_state \<Rightarrow> disk \<Rightarrow> nat \<Rightarrow> bytes" where
  "cluster_data g m c = sector_bytes m (first_sector g c) (sectors_per_cluster g)"

definition fat_area :: "fat32_state \<Rightarrow> nat set" where
  "fat_area g = {fat_start_sector g..<fat_start_sector g + sectors_per_fat g}"

definition cluster_area :: "fat32_state \<Rightarrow> nat \<Rightarrow> nat set" where
  "cluster_area g c = {first_sector g c..<first_sector g c + sectors_per_cluster g}"

definition agree :: "disk \<Rightarrow> disk \<Rightarrow> nat set \<Rightarrow> bool" where
  "agree m m' X \<longleftrightarrow> (\<forall>n. n \<notin> X \<longrightarrow> m' n = m n)"

lemma agree_refl [simp]: "agree m m X"
  by (simp add: agree_def)

lemma agree_trans: "agree m m1 X \<Longrightarrow> agree m1 m2 Y \<Longrightarrow> agree m m2 (X \<union> Y)"
  by (simp add: agree_def)

lemma agree_mono: "agree m m' X \<Longrightarrow> X \<subseteq> Y \<Longrightarrow> agree m m' Y"
  by (auto simp: agree_def)

section \<open>Geometry\<close>

lemma mask28: "FAT32_CLUSTER_EOC = mask 28"
  by (simp add: FAT32_CLUSTER_EOC_def mask_eq_exp_minus_1)

lemma and_EOC: "v < 268435456 \<Longrightarrow> v AND FAT32_CLUSTER_EOC = v"
  by (simp add: mask28 flip: take_bit_eq_mask) (simp add: take_bit_nat_eq_self)

lemma and_EOC_bound: "v AND FAT32_CLUSTER_EOC < 268435456"
proof -
  have "take_bit 28 v < 2 ^ 28" by (rule take_bit_nat_less_exp)
  then show ?thesis by (simp add: mask28 take_bit_eq_mask)
qed

lemma geom_capacity: "geom N g \<Longrightarrow> fat_entry_capacity g = sectors_per_fat g * 128"
  by (simp add: geom_def fat_entry_capacity_def BLOCKDEV_SECTOR_SIZE_def)

lemma geom_max:
  assumes "geom N g" "c < max_cluster_index g"
  shows "c < sectors_per_fat g * 128"
    and "c < 2 + (total_sectors g - data_start_sector g) div sectors_per_cluster g"
proof -
  let ?q = "(total_sectors g - data_start_sector g) div sectors_per_cluster g"
  have "sub32 (total_sectors g) (data_start_sector g) = total_sectors g - data_start_sector g"
    using assms(1) by (simp add: geom_def)
  moreover have "add32 2 ?q \<le> 2 + ?q" by (simp add: add32_def)
  moreover have "2 \<le> sectors_per_fat g * 128" using assms(1) by (simp add: geom_def)
  ultimately show "c < sectors_per_fat g * 128" "c < 2 + ?q"
    using assms by (auto simp: max_cluster_index_def clamp_cluster_limit_def Let_def geom_capacity split: if_splits)
qed

lemma in_volume_data: "geom N g \<Longrightarrow> in_volume g c \<Longrightarrow> is_data_cluster c"
  using geom_max(1) [of N g c] by (auto simp: geom_def in_volume_def is_data_cluster_def FAT32_CLUSTER_EOC_MIN_def)

lemma cluster_fits:
  assumes "geom N g" "in_volume g c"
  shows "first_sector g c + sectors_per_cluster g \<le> N"
proof -
  let ?t = "total_sectors g - data_start_sector g" and ?k = "sectors_per_cluster g"
  have "c - 2 + 1 \<le> ?t div ?k" using geom_max(2) [OF assms(1), of c] assms(2) by (auto simp: in_volume_def)
  then have "(c - 2 + 1) * ?k \<le> ?t div ?k * ?k" by (rule mult_le_mono1)
  also have "\<dots> \<le> ?t" by simp
  finally have "(c - 2) * ?k + ?k \<le> ?t" by simp
  then show ?thesis using assms(1) by (auto simp: first_sector_def geom_def)
qed

lemma cluster_sector:
  assumes "geom N g" "in_volume g c"
  shows "cluster_to_sector g c = first_sector g c"
proof -
  have "c < 4294967296" "2 \<le> c" using geom_max(1) [OF assms(1), of c] assms by (auto simp: geom_def in_volume_def)
  moreover have "first_sector g c < 4294967296"
    using cluster_fits [OF assms] assms(1) by (auto simp: geom_def)
  ultimately show ?thesis by (auto simp: cluster_to_sector_def first_sector_def)
qed

lemma cluster_apart:
  assumes "in_volume g c" "in_volume g c'" "c \<noteq> c'"
  shows "cluster_area g c \<inter> cluster_area g c' = {}"
proof -
  have *: "first_sector g a + sectors_per_cluster g \<le> first_sector g b" if "2 \<le> a" "a < b" for a b
  proof -
    have "(a - 2 + 1) * sectors_per_cluster g \<le> (b - 2) * sectors_per_cluster g"
      using that by (intro mult_le_mono1) auto
    then show ?thesis by (simp add: first_sector_def)
  qed
  show ?thesis using *[of c c'] *[of c' c] assms by (cases "c < c'") (auto simp: cluster_area_def in_volume_def)
qed

lemma fat_apart: "geom N g \<Longrightarrow> n \<in> fat_area g \<Longrightarrow> n \<notin> cluster_area g c"
  by (auto simp: geom_def fat_area_def cluster_area_def first_sector_def)

lemma fat_sector_in:
  "geom N g \<Longrightarrow> in_volume g c \<Longrightarrow> fat_start_sector g + c div 128 \<in> fat_area g"
  using geom_max(1) [of N g c] by (auto simp: in_volume_def fat_area_def less_mult_imp_div_less)

lemma fat_area_fits: "geom N g \<Longrightarrow> n \<in> fat_area g \<Longrightarrow> n < N"
  by (auto simp: geom_def fat_area_def)

lemma cluster_area_fits: "geom N g \<Longrightarrow> in_volume g c \<Longrightarrow> n \<in> cluster_area g c \<Longrightarrow> n < N"
  using cluster_fits [of N g c] by (auto simp: cluster_area_def)

lemma cluster_bytes_512: "geom N g \<Longrightarrow> cluster_bytes g = 512 * sectors_per_cluster g"
  by (simp add: cluster_bytes_def geom_def)

lemma cluster_data_agree:
  "agree m m' X \<Longrightarrow> X \<inter> cluster_area g c = {} \<Longrightarrow> cluster_data g m' c = cluster_data g m c"
  unfolding cluster_data_def sector_bytes_def agree_def cluster_area_def
  by (intro arg_cong [where f = concat] map_cong) auto

lemma fat_agree: "geom N g \<Longrightarrow> agree m m' X \<Longrightarrow> X \<inter> fat_area g = {} \<Longrightarrow> fat g m' = fat g m"
  using fat_sector_in [of N g] by (fastforce simp: fat_def fat_entry_def agree_def)

section \<open>Sector runs as one byte string\<close>

lemma length_sector_bytes:
  "(\<And>n. s \<le> n \<Longrightarrow> n < s + k \<Longrightarrow> length (m n) = 512) \<Longrightarrow> length (sector_bytes m s k) = 512 * k"
proof (induction k)
  case (Suc k)
  then have "length (sector_bytes m s k) = 512 * k" "length (m (s + k)) = 512" by simp_all
  then show ?case by (simp add: sector_bytes_def)
qed (simp add: sector_bytes_def)

lemma nth_sector_bytes:
  assumes "\<And>n. s \<le> n \<Longrightarrow> n < s + k \<Longrightarrow> length (m n) = 512" "i < 512 * k"
  shows "sector_bytes m s k ! i = m (s + i div 512) ! (i mod 512)"
  using assms
proof (induction k)
  case (Suc k)
  have len: "length (sector_bytes m s k) = 512 * k" using Suc.prems by (intro length_sector_bytes) auto
  have cut: "sector_bytes m s (Suc k) = sector_bytes m s k @ m (s + k)" by (simp add: sector_bytes_def)
  show ?case
  proof (cases "i < 512 * k")
    case True
    with Suc len show ?thesis by (simp add: cut nth_append)
  next
    case False
    then have "i div 512 = k" using Suc.prems(2) by (intro div_nat_eqI) auto
    moreover from this have "i mod 512 = i - 512 * k" using minus_mult_div_eq_mod [of i 512] by simp
    ultimately show ?thesis using False len by (simp add: cut nth_append)
  qed
qed simp

lemma div_mod_off:
  fixes off i :: nat
  assumes "off mod 512 + i < 512"
  shows "(off + i) div 512 = off div 512" "(off + i) mod 512 = off mod 512 + i"
proof -
  have "off div 512 * 512 + off mod 512 = off" by simp
  then have "512 * (off div 512) \<le> off + i" "off + i < 512 * (off div 512) + 512" using assms by linarith+
  then show "(off + i) div 512 = off div 512" by (intro div_nat_eqI) simp_all
  then show "(off + i) mod 512 = off mod 512 + i"
    using div_mult_mod_eq [of "off + i" 512] div_mult_mod_eq [of off 512] by linarith
qed

lemma chunk_of_sector:
  assumes "\<And>n. s \<le> n \<Longrightarrow> n < s + k \<Longrightarrow> length (m n) = 512"
    and "off + n \<le> 512 * k" "off mod 512 + n \<le> 512" "0 < n"
  shows "take n (drop (off mod 512) (m (s + off div 512))) = take n (drop off (sector_bytes m s k))"
proof (rule nth_equalityI)
  have "off div 512 < k" using assms(2,4) by (auto intro!: less_mult_imp_div_less)
  then have "length (m (s + off div 512)) = 512" by (intro assms(1)) auto
  moreover have l: "length (sector_bytes m s k) = 512 * k" using assms(1) by (rule length_sector_bytes)
  ultimately show "length (take n (drop (off mod 512) (m (s + off div 512)))) =
      length (take n (drop off (sector_bytes m s k)))"
    using assms by simp
  fix i assume "i < length (take n (drop (off mod 512) (m (s + off div 512))))"
  then have i: "i < n" "off mod 512 + i < length (m (s + off div 512))" by auto
  then have "off mod 512 + i < 512" "off + i < 512 * k" using assms(2,3) by auto
  then show "take n (drop (off mod 512) (m (s + off div 512))) ! i = take n (drop off (sector_bytes m s k)) ! i"
    using i l nth_sector_bytes [OF assms(1), of s k "\<lambda>n. n" "off + i"] assms(1)
    by (simp add: nth_sector_bytes div_mod_off)
qed

lemma poke_in_sector:
  assumes "\<And>n. s \<le> n \<Longrightarrow> n < s + k \<Longrightarrow> length (m n) = 512"
    and "off + length xs \<le> 512 * k" "off mod 512 + length xs \<le> 512" "xs \<noteq> []"
  shows "sector_bytes (m(s + off div 512 := poke (off mod 512) xs (m (s + off div 512)))) s k =
         poke off xs (sector_bytes m s k)" (is "sector_bytes ?m1 s k = _")
proof (rule nth_equalityI)
  let ?q = "off div 512"
  have "?q < k" using assms(2,4) by (cases xs) (auto intro!: less_mult_imp_div_less)
  then have lq: "length (m (s + ?q)) = 512" by (intro assms(1)) auto
  have l: "length (sector_bytes m s k) = 512 * k" using assms(1) by (rule length_sector_bytes)
  have len1: "\<And>n. s \<le> n \<Longrightarrow> n < s + k \<Longrightarrow> length (?m1 n) = 512" using assms(1,3) lq by simp
  then have l1: "length (sector_bytes ?m1 s k) = 512 * k" by (rule length_sector_bytes)
  show "length (sector_bytes ?m1 s k) = length (poke off xs (sector_bytes m s k))" using l l1 assms(2) by simp
  fix i assume "i < length (sector_bytes ?m1 s k)"
  then have i: "i < 512 * k" using l1 by simp
  have 1: "sector_bytes ?m1 s k ! i = ?m1 (s + i div 512) ! (i mod 512)"
    using len1 i by (rule nth_sector_bytes)
  have 2: "sector_bytes m s k ! i = m (s + i div 512) ! (i mod 512)"
    using assms(1) i by (rule nth_sector_bytes)
  show "sector_bytes ?m1 s k ! i = poke off xs (sector_bytes m s k) ! i"
  proof (cases "i div 512 = ?q")
    case True
    then have "off mod 512 \<le> i mod 512 \<longleftrightarrow> off \<le> i" "i mod 512 - off mod 512 = i - off"
      "i mod 512 < off mod 512 + length xs \<longleftrightarrow> i < off + length xs"
      using div_mult_mod_eq [of i 512] div_mult_mod_eq [of off 512] by linarith+
    then show ?thesis using 1 2 True lq l i assms(2,3) by (simp add: nth_poke)
  next
    case False
    then have "\<not> (off \<le> i \<and> i < off + length xs)"
      using assms(3) div_mod_off [of off "i - off"] by fastforce
    then show ?thesis using 1 2 False l i assms(2) by (auto simp: nth_poke)
  qed
qed

section \<open>The accessors\<close>

lemma fat_offset:
  assumes "geom N g" "in_volume g c"
  shows "mul32 c 4 div 512 = c div 128" "mul32 c 4 mod 512 = c mod 128 * 4" "\<not> fat_entry_capacity g \<le> c"
    "add32 (fat_start_sector g) (c div 128) = fat_start_sector g + c div 128"
    "fat_start_sector g + c div 128 < N"
proof -
  have c: "c < sectors_per_fat g * 128" using geom_max(1) [OF assms(1)] assms(2) by (simp add: in_volume_def)
  then have "c * 4 < 4294967296" using assms(1) by (simp add: geom_def)
  then have "mul32 c 4 = c * 4" by simp
  then show "mul32 c 4 div 512 = c div 128" "mul32 c 4 mod 512 = c mod 128 * 4"
    using div_mult_mult2 [of 4 c 128] mult_mod_right [of 4 c 128] by (simp_all add: mult.commute)
  show "\<not> fat_entry_capacity g \<le> c" using c assms(1) by (simp add: geom_capacity)
  show n: "fat_start_sector g + c div 128 < N"
    using fat_area_fits [OF assms(1) fat_sector_in [OF assms]] .
  with assms(1) show "add32 (fat_start_sector g) (c div 128) = fat_start_sector g + c div 128"
    by (simp add: geom_def)
qed

lemma offset_in_sector: "c mod 128 * 4 + 4 \<le> (512 :: nat)"
  using mod_less_divisor [of 128 c] by linarith

lemma fat_entry_update:
  assumes "sound_disk N m" "geom N g" "in_volume g c"
  shows "fat g (m(fat_start_sector g + c div 128 := put_u32 (c mod 128 * 4) (v AND FAT32_CLUSTER_EOC)
           (m (fat_start_sector g + c div 128)))) = (fat g m)(c := v AND FAT32_CLUSTER_EOC)"
proof (rule ext)
  fix c'
  let ?n = "fat_start_sector g + c div 128"
  have len: "length (m ?n) = 512" using assms(1) fat_offset(5) [OF assms(2,3)] by (simp add: sound_disk_def)
  have v: "(v AND FAT32_CLUSTER_EOC) mod 4294967296 = v AND FAT32_CLUSTER_EOC"
    "v AND FAT32_CLUSTER_EOC AND FAT32_CLUSTER_EOC = v AND FAT32_CLUSTER_EOC"
    using and_EOC_bound [of v] by (simp_all add: ac_simps)
  have apart: "c' mod 128 * 4 + 4 \<le> c mod 128 * 4 \<or> c mod 128 * 4 + 4 \<le> c' mod 128 * 4"
    if "c' \<noteq> c" "c' div 128 = c div 128"
  proof -
    have "c' mod 128 \<noteq> c mod 128" using that div_mult_mod_eq [of c 128] div_mult_mod_eq [of c' 128] by metis
    then show ?thesis by linarith
  qed
  show "fat g (m(?n := put_u32 (c mod 128 * 4) (v AND FAT32_CLUSTER_EOC) (m ?n))) c' =
      ((fat g m)(c := v AND FAT32_CLUSTER_EOC)) c'"
    using assms(3) len offset_in_sector [of c] offset_in_sector [of c'] apart v
    by (auto simp: fat_def fat_entry_def u32_at_put_same u32_at_put_other)
qed

context block_device
begin

lemma yields_fat:
  assumes "geom N g" "in_volume g c"
  shows "gets (read_fat_entry io g c) m (fat g m c)"
proof -
  let ?n = "fat_start_sector g + c div 128"
  have "read_fat_entry io g c = catchr (read_sector io ?n) (\<lambda>r. case r of None \<Rightarrow> ret FAT32_CLUSTER_EOC
      | Some b \<Rightarrow> ret (u32_at b (c mod 128 * 4) AND FAT32_CLUSTER_EOC))"
    using assms by (simp add: read_fat_entry_def Let_def BLOCKDEV_SECTOR_SIZE_def fat_offset)
  moreover have "gets \<dots> m (fat g m c)"
    using assms by (intro yields_catch [OF yields_read]) (simp_all add: fat_offset fat_def fat_entry_def)
  ultimately show ?thesis by simp
qed

lemma gives_set_fat:
  assumes "sound_disk N m" "geom N g" "in_volume g c"
  shows "gives (write_fat_entry io g c v) m (\<lambda>_ m'. sound_disk N m' \<and> agree m m' (fat_area g)
           \<and> fat g m' = (fat g m)(c := v AND FAT32_CLUSTER_EOC))"
proof -
  let ?n = "fat_start_sector g + c div 128"
  let ?b = "put_u32 (c mod 128 * 4) (v AND FAT32_CLUSTER_EOC) (m ?n)"
  have n: "?n < N" "?n \<in> fat_area g"
    using fat_offset(5) [OF assms(2,3)] fat_sector_in [OF assms(2,3)] by auto
  have "length (m ?n) = 512" using assms(1) n by (simp add: sound_disk_def)
  then have b: "length ?b = 512" using offset_in_sector [of c] by simp
  have "write_fat_entry io g c v = bindr (read_sector io ?n) (\<lambda>b. write_sector io ?n
      (put_u32 (c mod 128 * 4) (v AND FAT32_CLUSTER_EOC) b))"
    using assms by (simp add: write_fat_entry_def Let_def BLOCKDEV_SECTOR_SIZE_def fat_offset)
  moreover have "gives \<dots> m (\<lambda>_ m'. m' = m(?n := ?b))"
    using n b by (intro read_bind gives_write)
  ultimately have "gives (write_fat_entry io g c v) m (\<lambda>_ m'. m' = m(?n := ?b))" by simp
  then show ?thesis
    by (rule gives_weaken) (use assms n b in \<open>auto simp: sound_disk_def agree_def fat_entry_update\<close>)
qed

lemma yields_cluster_loop:
  assumes "s + k \<le> N" "N < 4294967296" "sound_disk N m" "off + n \<le> 512 * k"
  shows "gets (read_cluster_loop io s off n) m (take n (drop off (sector_bytes m s k)))"
  using assms(4)
proof (induction n arbitrary: off rule: less_induct)
  case (less n)
  show ?case
  proof (cases "n = 0")
    case False
    let ?c = "sector_chunk off n"
    have c: "0 < ?c" "?c \<le> n" "off mod 512 + ?c \<le> 512"
      using False mod_less_divisor [of 512 off] by (auto simp: sector_chunk_def BLOCKDEV_SECTOR_SIZE_def Let_def)
    have q: "off div 512 < k" using less.prems False by (auto intro!: less_mult_imp_div_less)
    have len: "\<And>i. s \<le> i \<Longrightarrow> i < s + k \<Longrightarrow> length (m i) = 512" using assms(1,3) by (simp add: sound_disk_def)
    have part: "take ?c (drop (off mod 512) (m (s + off div 512))) = take ?c (drop off (sector_bytes m s k))"
      using len c less.prems by (intro chunk_of_sector) auto
    have "gets (read_cluster_loop io s (off + ?c) (n - ?c)) m
        (take (n - ?c) (drop (off + ?c) (sector_bytes m s k)))"
      using c less.prems by (intro less.IH) auto
    moreover have "take n (drop off (sector_bytes m s k)) =
        take ?c (drop off (sector_bytes m s k)) @ take (n - ?c) (drop (off + ?c) (sector_bytes m s k))"
      using c take_add [of ?c "n - ?c" "drop off (sector_bytes m s k)"] by (simp add: add.commute)
    ultimately show ?thesis
      using q assms(1,2) part False
      by (subst read_cluster_loop.simps)
        (simp add: Let_def BLOCKDEV_SECTOR_SIZE_def yields_bind [OF yields_read] yields_bind)
  qed (simp add: read_cluster_loop.simps)
qed

lemma yields_cluster:
  assumes "geom N g" "in_volume g c" "sound_disk N m" "0 < n" "n \<le> cluster_bytes g"
  shows "gets (read_cluster_bytes io g c 0 n) m (take n (cluster_data g m c))"
proof -
  have "N < 4294967296" "sectors_per_cluster g < 256" using assms(1) by (simp_all add: geom_def)
  then show ?thesis
    using yields_cluster_loop [OF cluster_fits [OF assms(1,2)], of m 0 n] assms
      in_volume_data [OF assms(1,2)] cluster_bytes_512 [OF assms(1)]
    by (simp add: read_cluster_bytes_def cluster_sector cluster_data_def)
qed

lemma gives_cluster_loop:
  assumes "s + k \<le> N" "N < 4294967296" "sound_disk N m" "off + length buf \<le> 512 * k"
  shows "gives (write_cluster_loop io s off buf) m (\<lambda>_ m'. sound_disk N m' \<and> agree m m' {s..<s + k}
           \<and> sector_bytes m' s k = poke off buf (sector_bytes m s k))"
  using assms(3,4)
proof (induction "length buf" arbitrary: off buf m rule: less_induct)
  case less
  show ?case
  proof (cases "buf = []")
    case False
    let ?c = "sector_chunk off (length buf)"
    let ?xs = "take ?c buf" and ?n = "s + off div 512"
    let ?b = "poke (off mod 512) ?xs (m ?n)"
    have c: "0 < ?c" "?c \<le> length buf" "off mod 512 + ?c \<le> 512" "?xs \<noteq> []"
      using False mod_less_divisor [of 512 off] by (auto simp: sector_chunk_def BLOCKDEV_SECTOR_SIZE_def Let_def)
    have q: "?n < s + k" "?n < N" using less.prems(2) False assms(1)
      by (cases buf; auto intro!: less_mult_imp_div_less)+
    have len: "length (m i) = 512" if "s \<le> i" "i < s + k" for i
      using that assms(1) less.prems(1) by (simp add: sound_disk_def)
    have b: "length ?b = 512" using len [of ?n] q c by simp
    have m1: "sound_disk N (m(?n := ?b))" using less.prems(1) b by (simp add: sound_disk_def)
    have one: "sector_bytes (m(?n := ?b)) s k = poke off ?xs (sector_bytes m s k)"
      using len less.prems(2) c by (intro poke_in_sector) auto
    have l: "length (sector_bytes m s k) = 512 * k" using len by (rule length_sector_bytes)
    have "poke off buf (sector_bytes m s k) = poke (off + ?c) (drop ?c buf) (poke off ?xs (sector_bytes m s k))"
      using poke_append [of off ?xs "drop ?c buf" "sector_bytes m s k"] c l less.prems(2) by simp
    moreover have "gives (write_cluster_loop io s (off + ?c) (drop ?c buf)) (m(?n := ?b)) (\<lambda>_ m'. sound_disk N m' \<and>
        agree (m(?n := ?b)) m' {s..<s + k} \<and>
        sector_bytes m' s k = poke (off + ?c) (drop ?c buf) (sector_bytes (m(?n := ?b)) s k))"
      using c less.prems(2) m1 by (intro less.hyps) auto
    ultimately have rest: "gives (write_cluster_loop io s (off + ?c) (drop ?c buf)) (m(?n := ?b)) (\<lambda>_ m'.
        sound_disk N m' \<and> agree m m' {s..<s + k} \<and> sector_bytes m' s k = poke off buf (sector_bytes m s k))"
      using one q(1) by (auto simp: agree_def elim!: gives_weaken)
    show ?thesis
      using q assms(2) False
      by (subst write_cluster_loop.simps)
        (simp add: Let_def BLOCKDEV_SECTOR_SIZE_def, intro read_bind write_bind rest b)
  qed (simp add: write_cluster_loop.simps gives_ret less.prems)
qed

lemma gives_cluster:
  assumes "geom N g" "in_volume g c" "sound_disk N m" "buf \<noteq> []" "off + length buf \<le> cluster_bytes g"
  shows "gives (write_cluster_bytes io g c off buf) m (\<lambda>_ m'. sound_disk N m'
           \<and> agree m m' (cluster_area g c) \<and> cluster_data g m' c = poke off buf (cluster_data g m c))"
proof -
  have "N < 4294967296" "sectors_per_cluster g < 256" using assms(1) by (simp_all add: geom_def)
  then show ?thesis
    using gives_cluster_loop [OF cluster_fits [OF assms(1,2)], of m off buf] assms
      in_volume_data [OF assms(1,2)] cluster_bytes_512 [OF assms(1)]
    by (simp add: write_cluster_bytes_def cluster_sector cluster_data_def cluster_area_def)
qed

lemma gives_zeros:
  assumes "\<forall>i \<in> set is. add32 s i < N" "sound_disk N m"
  shows "gives (write_zeros io s is) m (\<lambda>_ m'. sound_disk N m' \<and> agree m m' (add32 s ` set is)
           \<and> (\<forall>n \<in> add32 s ` set is. m' n = replicate 512 0))"
  using assms
proof (induction "is" arbitrary: m)
  case (Cons i "is")
  let ?z = "replicate 512 (0 :: u8)"
  have "gives (write_zeros io s is) (m(add32 s i := ?z)) (\<lambda>_ m'. sound_disk N m' \<and>
      agree (m(add32 s i := ?z)) m' (add32 s ` set is) \<and> (\<forall>n \<in> add32 s ` set is. m' n = ?z))"
    using Cons.prems by (intro Cons.IH) (auto simp: sound_disk_def)
  then have "gives (write_zeros io s is) (m(add32 s i := ?z)) (\<lambda>_ m'. sound_disk N m' \<and>
      agree m m' (add32 s ` set (i # is)) \<and> (\<forall>n \<in> add32 s ` set (i # is). m' n = ?z))"
  proof (rule gives_weaken, elim conjE, intro conjI)
    fix m' assume a: "agree (m(add32 s i := ?z)) m' (add32 s ` set is)" and z: "\<forall>n \<in> add32 s ` set is. m' n = ?z"
    show "agree m m' (add32 s ` set (i # is))" using a by (auto simp: agree_def)
    show "\<forall>n \<in> add32 s ` set (i # is). m' n = ?z"
    proof
      fix n assume "n \<in> add32 s ` set (i # is)"
      then show "m' n = ?z" using a z by (cases "n \<in> add32 s ` set is") (auto simp: agree_def)
    qed
  qed
  then show ?case using Cons.prems
    by (auto simp: BLOCKDEV_SECTOR_SIZE_def intro!: write_bind)
qed (simp add: gives_ret)

lemma gives_clear:
  assumes "geom N g" "in_volume g c" "sound_disk N m"
  shows "gives (clear_cluster io g c) m (\<lambda>_ m'. sound_disk N m' \<and> agree m m' (cluster_area g c)
           \<and> (\<forall>n \<in> cluster_area g c. m' n = replicate 512 0))"
proof -
  let ?s = "first_sector g c"
  have s: "add32 ?s i = ?s + i" if "i < sectors_per_cluster g" for i
    using that cluster_fits [OF assms(1,2)] assms(1) by (simp add: geom_def)
  then have area: "add32 ?s ` set [0..<sectors_per_cluster g] = cluster_area g c"
    by (force simp: cluster_area_def image_iff intro: bexI [of _ "_ - ?s"])
  show ?thesis
    unfolding clear_cluster_def cluster_sector [OF assms(1,2)] area [symmetric]
    using s cluster_fits [OF assms(1,2)] by (intro gives_zeros assms) auto
qed

end

end
