(* ===== verification/Fat32_Chain.thy ===== *)
theory Fat32_Chain
  imports Fat32_Table
begin

text \<open>
  Cluster chains: allocation, release and extension, each as an update of the table seen as a function,
  with the sectors it may touch.
\<close>

text \<open>The clusters of the chain that starts at \<open>c\<close>; its end mark is not 0, so no member looks free.\<close>

fun chain :: "fat32_state \<Rightarrow> (nat \<Rightarrow> nat) \<Rightarrow> nat \<Rightarrow> nat list \<Rightarrow> bool" where
  "chain g F c [] \<longleftrightarrow> \<not> is_data_cluster c \<and> c \<noteq> 0"
| "chain g F c (x # xs) \<longleftrightarrow> c = x \<and> in_volume g x \<and> x \<notin> set xs \<and> chain g F (F x) xs"

definition free_clusters :: "fat32_state \<Rightarrow> disk \<Rightarrow> nat set" where
  "free_clusters g m = {c. in_volume g c \<and> fat g m c = 0}"

definition clusters_area :: "fat32_state \<Rightarrow> nat list \<Rightarrow> nat set" where
  "clusters_area g cs = (\<Union>c \<in> set cs. cluster_area g c)"

lemma chain_cong: "(\<And>x. x \<in> set cs \<Longrightarrow> F' x = F x) \<Longrightarrow> chain g F' c cs = chain g F c cs"
  by (induction cs arbitrary: c) auto

lemma chain_in_volume: "chain g F c cs \<Longrightarrow> x \<in> set cs \<Longrightarrow> in_volume g x"
  by (induction cs arbitrary: c) auto

lemma chain_distinct: "chain g F c cs \<Longrightarrow> distinct cs"
  by (induction cs arbitrary: c) auto

lemma chain_start: "chain g F c cs \<Longrightarrow> cs \<noteq> [] \<Longrightarrow> c = hd cs"
  by (cases cs) auto

lemma chain_not_free: "chain g F c cs \<Longrightarrow> x \<in> set cs \<Longrightarrow> F x \<noteq> 0"
proof (induction cs arbitrary: c)
  case (Cons y ys)
  have "F y \<noteq> 0" using Cons.prems(1) by (cases ys) (auto simp: in_volume_def)
  then show ?case using Cons by auto
qed simp

lemma chain_apart_free: "chain g (fat g m) c cs \<Longrightarrow> set cs \<inter> free_clusters g m = {}"
  using chain_not_free by (fastforce simp: free_clusters_def)

lemma finite_free: "finite (free_clusters g m)"
  by (rule finite_subset [of _ "{0..<max_cluster_index g}"]) (auto simp: free_clusters_def in_volume_def)

lemma not_data_EOC: "\<not> is_data_cluster FAT32_CLUSTER_EOC" "FAT32_CLUSTER_EOC \<noteq> 0"
  by (simp_all add: is_data_cluster_def FAT32_CLUSTER_EOC_def FAT32_CLUSTER_EOC_MIN_def)

lemma in_volume_mask: "geom N g \<Longrightarrow> in_volume g c \<Longrightarrow> c AND FAT32_CLUSTER_EOC = c"
  using in_volume_data [of N g c] by (intro and_EOC) (simp add: is_data_cluster_def FAT32_CLUSTER_EOC_MIN_def)

lemma EOC_mask [simp]: "FAT32_CLUSTER_EOC AND FAT32_CLUSTER_EOC = FAT32_CLUSTER_EOC"
  "FAT32_CLUSTER_FREE AND FAT32_CLUSTER_EOC = 0"
  by (simp_all add: FAT32_CLUSTER_FREE_def)

lemma clusters_area_simps [simp]:
  "clusters_area g [] = {}" "clusters_area g (c # cs) = cluster_area g c \<union> clusters_area g cs"
  "clusters_area g (cs @ ds) = clusters_area g cs \<union> clusters_area g ds"
  by (auto simp: clusters_area_def)

lemma clusters_apart:
  "(\<And>x. x \<in> set cs \<Longrightarrow> in_volume g x) \<Longrightarrow> in_volume g c \<Longrightarrow> c \<notin> set cs \<Longrightarrow>
   clusters_area g cs \<inter> cluster_area g c = {}"
  using cluster_apart [of g _ c] by (fastforce simp: clusters_area_def)

lemma fat_clusters_apart: "geom N g \<Longrightarrow> fat_area g \<inter> clusters_area g cs = {}"
  using fat_apart [of N g] by (auto simp: clusters_area_def)

text \<open>What an allocation of the clusters \<open>new\<close> leaves alone.\<close>

definition allocates :: "nat \<Rightarrow> fat32_state \<Rightarrow> disk \<Rightarrow> disk \<Rightarrow> nat list \<Rightarrow> nat set \<Rightarrow> bool" where
  "allocates N g m m' new touched \<longleftrightarrow> sound_disk N m' \<and> set new \<subseteq> free_clusters g m \<and> distinct new
     \<and> (\<forall>c. c \<notin> set new \<union> touched \<longrightarrow> fat g m' c = fat g m c)
     \<and> agree m m' (fat_area g \<union> clusters_area g new)"

context block_device
begin

lemma gives_allocate_from:
  assumes "geom N g" "sound_disk N m" "\<forall>c \<in> set cs. in_volume g c" "\<exists>c \<in> set cs. fat g m c = 0"
  shows "gives (allocate_from io g cs) m (\<lambda>c m'. sound_disk N m' \<and> c \<in> free_clusters g m
           \<and> fat g m' = (fat g m)(c := FAT32_CLUSTER_EOC) \<and> agree m m' (fat_area g \<union> cluster_area g c))"
    (is "gives _ m ?P")
  using assms(3,4)
proof (induction cs)
  case (Cons c cs)
  show ?case
  proof (cases "fat g m c = 0")
    case True
    have set: "gives (write_fat_entry io g c FAT32_CLUSTER_EOC) m (\<lambda>_ m'. sound_disk N m' \<and> agree m m' (fat_area g)
        \<and> fat g m' = (fat g m)(c := FAT32_CLUSTER_EOC))"
      using gives_set_fat [OF assms(2,1), of c FAT32_CLUSTER_EOC] Cons.prems(1) by simp
    have clear: "gives (bindr (clear_cluster io g c) (\<lambda>_. ret c)) m1 ?P"
      if m1: "sound_disk N m1 \<and> agree m m1 (fat_area g) \<and> fat g m1 = (fat g m)(c := FAT32_CLUSTER_EOC)" for m1
    proof (rule gives_bind [OF gives_clear [OF assms(1)]])
      show "in_volume g c" "sound_disk N m1" using Cons.prems(1) m1 by simp_all
      fix m' assume m': "sound_disk N m' \<and> agree m1 m' (cluster_area g c) \<and> (\<forall>n\<in>cluster_area g c. m' n = replicate 512 0)"
      have "fat g m' = fat g m1" using m' fat_apart [OF assms(1)] by (intro fat_agree [OF assms(1)]) auto
      then show "gives (ret c) m' ?P"
        using m1 m' True Cons.prems(1) agree_trans
        by (auto simp: free_clusters_def intro!: gives_ret)
    qed
    show ?thesis unfolding allocate_from.simps
    proof (rule gives_bind_yields [OF yields_fat [OF assms(1)]])
      show "in_volume g c" using Cons.prems(1) by simp
      show "gives (if fat g m c = FAT32_CLUSTER_FREE then bindr (write_fat_entry io g c FAT32_CLUSTER_EOC)
          (\<lambda>_. bindr (clear_cluster io g c) (\<lambda>_. ret c)) else allocate_from io g cs) m ?P"
        unfolding True FAT32_CLUSTER_FREE_def if_P [OF refl] by (rule gives_bind [OF set clear])
    qed
  next
    case False
    then have rest: "gives (allocate_from io g cs) m ?P" using Cons by (intro Cons.IH) auto
    show ?thesis unfolding allocate_from.simps
    proof (rule gives_bind_yields [OF yields_fat [OF assms(1)]])
      show "in_volume g c" using Cons.prems(1) by simp
      show "gives (if fat g m c = FAT32_CLUSTER_FREE then bindr (write_fat_entry io g c FAT32_CLUSTER_EOC)
          (\<lambda>_. bindr (clear_cluster io g c) (\<lambda>_. ret c)) else allocate_from io g cs) m ?P"
        unfolding FAT32_CLUSTER_FREE_def if_not_P [OF False] by (rule rest)
    qed
  qed
qed simp

lemma gives_allocate:
  assumes "geom N g" "sound_disk N m" "free_clusters g m \<noteq> {}"
  shows "gives (allocate_cluster io g) m (\<lambda>c m'. allocates N g m m' [c] {} \<and> fat g m' = (fat g m)(c := FAT32_CLUSTER_EOC))"
proof -
  have "gives (allocate_cluster io g) m (\<lambda>c m'. sound_disk N m' \<and> c \<in> free_clusters g m
      \<and> fat g m' = (fat g m)(c := FAT32_CLUSTER_EOC) \<and> agree m m' (fat_area g \<union> cluster_area g c))"
    unfolding allocate_cluster_def using assms
    by (intro gives_allocate_from) (auto simp: free_clusters_def in_volume_def)
  then show ?thesis by (rule gives_weaken) (auto simp: allocates_def)
qed

lemma allocate_full:
  assumes "geom N g" "free_clusters g m = {}"
  shows "wp (allocate_cluster io g) m (\<lambda>r m'. r = Failed \<and> m' = m)"
proof -
  have "wp (allocate_from io g cs) m (\<lambda>r m'. r = Failed \<and> m' = m)"
    if "\<forall>c \<in> set cs. in_volume g c" for cs
    using that
  proof (induction cs)
    case (Cons c cs)
    then have "fat g m c \<noteq> 0" using assms(2) by (auto simp: free_clusters_def)
    then show ?case using Cons
      by (simp add: FAT32_CLUSTER_FREE_def wp_bind_yields [OF yields_fat [OF assms(1)]])
  qed (simp add: wp_failr)
  then show ?thesis by (simp add: allocate_cluster_def in_volume_def)
qed

text \<open>Release of a chain of at most \<open>left\<close> clusters.\<close>

lemma gives_free_loop:
  assumes "geom N g"
  shows "chain g (fat g m) c cs \<Longrightarrow> length cs \<le> left \<Longrightarrow> sound_disk N m \<Longrightarrow>
    gives (free_chain_loop io g left c) m (\<lambda>_ m'. sound_disk N m' \<and> agree m m' (fat_area g)
      \<and> fat g m' = (\<lambda>x. if x \<in> set cs then 0 else fat g m x))"
proof (induction cs arbitrary: c m left)
  case Nil
  then show ?case by (subst free_chain_loop.simps) (simp add: gives_ret)
next
  case (Cons x xs)
  then obtain left' where left: "left = Suc left'" "length xs \<le> left'" by (cases left) auto
  have x: "c = x" "in_volume g x" "x \<notin> set xs" using Cons.prems(1) by simp_all
  have rest: "gives (free_chain_loop io g left' (fat g m x)) m1 (\<lambda>_ m'. sound_disk N m' \<and> agree m m' (fat_area g)
      \<and> fat g m' = (\<lambda>y. if y \<in> set (x # xs) then 0 else fat g m y))"
    if m1: "sound_disk N m1" "agree m m1 (fat_area g)" "fat g m1 = (fat g m)(x := 0)" for m1
  proof -
    have "chain g (fat g m1) (fat g m x) xs = chain g (fat g m) (fat g m x) xs"
      using x(3) m1(3) by (intro chain_cong) auto
    then have "gives (free_chain_loop io g left' (fat g m x)) m1 (\<lambda>_ m'. sound_disk N m' \<and> agree m1 m' (fat_area g)
        \<and> fat g m' = (\<lambda>y. if y \<in> set xs then 0 else fat g m1 y))"
      using Cons.prems(1) left(2) m1(1) by (intro Cons.IH) auto
    then show ?thesis
      by (rule gives_weaken) (use m1 in \<open>auto simp: agree_def\<close>)
  qed
  have set: "gives (write_fat_entry io g x FAT32_CLUSTER_FREE) m (\<lambda>_ m'. sound_disk N m' \<and> agree m m' (fat_area g)
      \<and> fat g m' = (fat g m)(x := 0))"
    using gives_set_fat [OF Cons.prems(3) assms x(2), of FAT32_CLUSTER_FREE] by simp
  show ?case
    unfolding x(1) left(1) free_chain_loop.simps [of io g "Suc left'"] if_P [OF in_volume_data [OF assms x(2)]] nat.case
    by (rule gives_bind_yields [OF yields_fat [OF assms x(2)]], rule gives_bind [OF set], rule rest) blast+
qed

lemma gives_free_chain:
  "geom N g \<Longrightarrow> sound_disk N m \<Longrightarrow> chain g (fat g m) c cs \<Longrightarrow> length cs \<le> 4096 \<Longrightarrow>
   gives (free_cluster_chain io g c) m (\<lambda>_ m'. sound_disk N m' \<and> agree m m' (fat_area g)
      \<and> fat g m' = (\<lambda>x. if x \<in> set cs then 0 else fat g m x))"
  unfolding free_cluster_chain_def by (rule gives_free_loop)

text \<open>A longer chain is cut short and the call fails.\<close>

lemma free_loop_long:
  assumes "geom N g"
  shows "chain g (fat g m) c cs \<Longrightarrow> left < length cs \<Longrightarrow> sound_disk N m \<Longrightarrow>
    wp (free_chain_loop io g left c) m (\<lambda>r m'. r = Failed \<and> sound_disk N m' \<and> agree m m' (fat_area g)
      \<and> fat g m' = (\<lambda>x. if x \<in> set (take (Suc left) cs) then 0 else fat g m x))"
proof (induction cs arbitrary: c m left)
  case (Cons x xs)
  have x: "c = x" "in_volume g x" "x \<notin> set xs" using Cons.prems(1) by simp_all
  have set: "gives (write_fat_entry io g x FAT32_CLUSTER_FREE) m (\<lambda>_ m'. sound_disk N m' \<and> agree m m' (fat_area g)
      \<and> fat g m' = (fat g m)(x := 0))"
    using gives_set_fat [OF Cons.prems(3) assms x(2), of FAT32_CLUSTER_FREE] by simp
  have rest: "wp (case left of 0 \<Rightarrow> failr | Suc left \<Rightarrow> free_chain_loop io g left (fat g m x)) m1
      (\<lambda>r m'. r = Failed \<and> sound_disk N m' \<and> agree m m' (fat_area g)
        \<and> fat g m' = (\<lambda>y. if y \<in> set (take (Suc left) (x # xs)) then 0 else fat g m y))" (is "wp ?f m1 ?P")
    if m1: "sound_disk N m1" "agree m m1 (fat_area g)" "fat g m1 = (fat g m)(x := 0)" for m1
  proof (cases left)
    case 0
    then show ?thesis using m1 by (auto intro!: wp_failr simp: fun_eq_iff)
  next
    case (Suc left')
    have "chain g (fat g m1) (fat g m x) xs = chain g (fat g m) (fat g m x) xs"
      using x(3) m1(3) by (intro chain_cong) auto
    then have "wp (free_chain_loop io g left' (fat g m x)) m1 (\<lambda>r m'. r = Failed \<and> sound_disk N m' \<and> agree m1 m' (fat_area g)
        \<and> fat g m' = (\<lambda>y. if y \<in> set (take (Suc left') xs) then 0 else fat g m1 y))"
      using Cons.prems(1,2) Suc m1(1) by (intro Cons.IH) auto
    then have "wp (free_chain_loop io g left' (fat g m x)) m1 ?P"
      by (rule wp_weaken) (use m1 Suc in \<open>auto simp: agree_def\<close>)
    then show ?thesis using Suc by simp
  qed
  show ?case
    unfolding x(1) free_chain_loop.simps [of io g left] if_P [OF in_volume_data [OF assms x(2)]]
    by (rule wp_bind_yields [OF yields_fat [OF assms x(2)]], rule wp_bind_gives [OF set], rule rest) blast+
qed simp

text \<open>
  Following or extending a chain: \<open>rest\<close> is what follows the current cluster, \<open>new\<close> what is allocated.
\<close>

lemma gives_extend:
  assumes "geom N g"
  shows "chain g (fat g m) cur (cur # rest) \<Longrightarrow> length rest \<le> missing \<Longrightarrow> sound_disk N m \<Longrightarrow>
    missing - length rest \<le> card (free_clusters g m) \<Longrightarrow>
    gives (extend_chain io g missing cur) m (\<lambda>end m'. \<exists>new. allocates N g m m' new (set (cur # rest))
      \<and> chain g (fat g m') cur (cur # rest @ new) \<and> end = last (cur # rest @ new) \<and> length new = missing - length rest)"
    (is "_ \<Longrightarrow> _ \<Longrightarrow> _ \<Longrightarrow> _ \<Longrightarrow> gives _ m (?P m cur rest missing)")
proof (induction missing arbitrary: cur rest m)
  case 0
  then have "?P m cur rest 0 cur m" by (auto simp: allocates_def intro!: exI [of _ "[]"])
  then show ?case unfolding extend_chain.simps by (rule gives_ret)
next
  case (Suc k)
  have cur: "in_volume g cur" "cur \<notin> set rest" "fat g m cur \<noteq> 0" "cur \<notin> free_clusters g m"
    using Suc.prems(1) chain_not_free [OF Suc.prems(1), of cur] by (auto simp: free_clusters_def)
  show ?case
  proof (cases rest)
    case (Cons r rs)
    then have r: "fat g m cur = r" "is_data_cluster r" "chain g (fat g m) r (r # rs)"
      using Suc.prems(1) in_volume_data [OF assms] by auto
    have "gives (extend_chain io g k r) m (?P m r rs k)"
      using Suc.prems Cons r by (intro Suc.IH) auto
    then have go: "gives (extend_chain io g k r) m (?P m cur rest (Suc k))"
    proof (rule gives_weaken)
      fix e m' assume "?P m r rs k e m'"
      then obtain new where new: "allocates N g m m' new (set (r # rs))" "chain g (fat g m') r (r # rs @ new)"
        "e = last (r # rs @ new)" "length new = k - length rs" by blast
      then have "cur \<notin> set (r # rs @ new)" using cur Cons by (auto simp: allocates_def)
      moreover from this have "fat g m' cur = r" using new(1) r(1) by (auto simp: allocates_def)
      ultimately show "?P m cur rest (Suc k) e m'" using new Cons cur(1)
        by (auto simp: allocates_def intro!: exI [of _ new])
    qed
    show ?thesis unfolding extend_chain.simps
      by (rule gives_bind_yields [OF yields_fat [OF assms cur(1)]]) (simp only: r(1,2) not_True_eq_False if_False go)
  next
    case Nil
    then have e: "\<not> is_data_cluster (fat g m cur)" using Suc.prems(1) by simp
    have free: "free_clusters g m \<noteq> {}" using Suc.prems(4) Nil by auto
    have link: "gives (bindr (write_fat_entry io g cur a) (\<lambda>_. extend_chain io g k a)) m1 (?P m cur rest (Suc k))"
      if m1: "allocates N g m m1 [a] {} \<and> fat g m1 = (fat g m)(a := FAT32_CLUSTER_EOC)" for a m1
    proof (rule gives_bind [OF gives_set_fat [OF _ assms cur(1)]])
      have a: "in_volume g a" "fat g m a = 0" "a \<noteq> cur" using m1 cur(3) by (auto simp: allocates_def free_clusters_def)
      show "sound_disk N m1" using m1 by (simp add: allocates_def)
      fix m2 assume "sound_disk N m2 \<and> agree m1 m2 (fat_area g) \<and> fat g m2 = (fat g m1)(cur := a AND FAT32_CLUSTER_EOC)"
      then have m2: "sound_disk N m2" "agree m1 m2 (fat_area g)"
        "fat g m2 = (fat g m)(a := FAT32_CLUSTER_EOC, cur := a)"
        using m1 in_volume_mask [OF assms a(1)] by simp_all
      have free2: "free_clusters g m2 = free_clusters g m - {a}"
        using m2(3) a cur not_data_EOC(2) by (auto simp: free_clusters_def in_volume_def)
      have "gives (extend_chain io g k a) m2 (?P m2 a [] k)"
      proof (rule Suc.IH)
        show "chain g (fat g m2) a [a]" using a not_data_EOC m2(3) by simp
        show "k - length [] \<le> card (free_clusters g m2)"
          using Suc.prems(4) Nil free2 a finite_free [of g m] by (simp add: free_clusters_def card_Diff_singleton)
      qed (simp_all add: m2)
      then show "gives (extend_chain io g k a) m2 (?P m cur rest (Suc k))"
      proof (rule gives_weaken)
        fix e m' assume "?P m2 a [] k e m'"
        then obtain new where new: "allocates N g m2 m' new (set [a])" "chain g (fat g m') a (a # new)"
          "e = last (a # new)" "length new = k" by auto
        have f: "set new \<subseteq> free_clusters g m - {a}" using new(1) free2 by (simp add: allocates_def)
        have curn: "cur \<notin> set (a # new)" using f a(3) cur(4) by auto
        have "agree m m' (fat_area g \<union> clusters_area g (a # new))"
          using m1 m2(2) new(1) by (auto simp: agree_def allocates_def)
        moreover have "fat g m' c = fat g m c" if "c \<notin> set (a # new) \<union> {cur}" for c
          using that new(1) m2(3) by (auto simp: allocates_def)
        ultimately have "allocates N g m m' (a # new) (set [cur])"
          using f new(1) a by (auto simp: allocates_def free_clusters_def)
        moreover have "fat g m' cur = a" using new(1) m2(3) curn by (auto simp: allocates_def)
        then have "chain g (fat g m') cur (cur # a # new)" using new(2) cur(1) curn by simp
        ultimately show "?P m cur rest (Suc k) e m'" using Nil new by (auto intro!: exI [of _ "a # new"])
      qed
    qed
    show ?thesis unfolding extend_chain.simps
      by (rule gives_bind_yields [OF yields_fat [OF assms cur(1)]])
        (simp only: e not_False_eq_True if_True, rule gives_bind [OF gives_allocate [OF assms Suc.prems(3) free] link])
  qed
qed

text \<open>The end of \<open>ensure_file_cluster_chain\<close>, when nothing hangs on behind the last cluster.\<close>

lemma gives_ensure_from:
  assumes "geom N g" "chain g (fat g m) first (first # rest)" "length (first # rest) \<le> required" "sound_disk N m"
    and "required - length (first # rest) \<le> card (free_clusters g m)"
  shows "gives (bindr (extend_chain io g (required - 1) first) (\<lambda>current.
           bindr (read_fat_entry io g current) (\<lambda>e.
           bindr (write_fat_entry io g current FAT32_CLUSTER_EOC) (\<lambda>_.
             if is_data_cluster e then bindr (free_cluster_chain io g e) (\<lambda>_. ret first) else ret first)))) m
    (\<lambda>c m'. c = first \<and> (\<exists>new. allocates N g m m' new (set (first # rest))
      \<and> chain g (fat g m') first (first # rest @ new) \<and> length (first # rest @ new) = required))"
    (is "gives _ m ?P")
proof (rule gives_bind [OF gives_extend [OF assms(1,2)]], goal_cases)
  case (4 current m1)
  then obtain new where new: "allocates N g m m1 new (set (first # rest))"
    "chain g (fat g m1) first (first # rest @ new)" "current = last (first # rest @ new)"
    "length new = required - 1 - length rest" by blast
  have last: "in_volume g current" "\<not> is_data_cluster (fat g m1 current)"
  proof -
    have "in_volume g (last cs) \<and> \<not> is_data_cluster (F (last cs))" if "chain g F c cs" "cs \<noteq> []" for F c cs
      using that by (induction cs arbitrary: c) auto
    from this [OF new(2)] show "in_volume g current" "\<not> is_data_cluster (fat g m1 current)"
      unfolding new(3) by simp_all
  qed
  have cut: "chain g (F(last cs := FAT32_CLUSTER_EOC)) c cs" if "chain g F c cs" "cs \<noteq> []" for F c cs
    using that
  proof (induction cs arbitrary: c)
    case (Cons x xs)
    show ?case
    proof (cases xs)
      case Nil
      then show ?thesis using Cons.prems not_data_EOC by simp
    next
      case (Cons y ys)
      then show ?thesis using Cons.prems Cons.IH [of "F x"] by auto
    qed
  qed simp
  have close: "gives (bindr (write_fat_entry io g current FAT32_CLUSTER_EOC) (\<lambda>_. ret first)) m1 ?P"
  proof (rule gives_bind [OF gives_set_fat [OF _ assms(1) last(1)]])
    show "sound_disk N m1" using new(1) by (simp add: allocates_def)
    fix m2 assume m2: "sound_disk N m2 \<and> agree m1 m2 (fat_area g)
      \<and> fat g m2 = (fat g m1)(current := FAT32_CLUSTER_EOC AND FAT32_CLUSTER_EOC)"
    have "agree m m2 (fat_area g \<union> clusters_area g new)"
      using m2 new(1) by (auto simp: agree_def allocates_def)
    moreover have "fat g m2 c = fat g m c" if "c \<notin> set new \<union> set (first # rest)" for c
    proof -
      have "current \<in> set (first # rest @ new)" unfolding new(3) by (rule last_in_set) simp
      then have "c \<noteq> current" using that by auto
      then show ?thesis using that m2 new(1) by (auto simp: allocates_def)
    qed
    ultimately have "allocates N g m m2 new (set (first # rest))" using m2 new(1) by (auto simp: allocates_def)
    moreover have "chain g (fat g m2) first (first # rest @ new)"
      using cut [OF new(2)] m2 unfolding new(3) by simp
    ultimately have "?P first m2" using new(4) assms(3) by (auto intro!: exI [of _ new])
    then show "gives (ret first) m2 ?P" by (rule gives_ret)
  qed
  show ?case
    by (rule gives_bind_yields [OF yields_fat [OF assms(1) last(1)]]) (simp only: last(2) if_False close)
qed (use assms in auto)

lemma gives_ensure:
  assumes "geom N g" "chain g (fat g m) first cs" "cs \<noteq> []" "length cs \<le> required" "sound_disk N m"
    and "required - length cs \<le> card (free_clusters g m)"
  shows "gives (ensure_file_cluster_chain io g first required) m (\<lambda>c m'. c = first \<and> (\<exists>new.
    allocates N g m m' new (set cs) \<and> chain g (fat g m') first (cs @ new) \<and> length (cs @ new) = required))"
proof -
  obtain rest where cs: "cs = first # rest" using assms(2,3) by (cases cs) auto
  have "is_data_cluster first" "required \<noteq> 0" using assms(2,4) in_volume_data [OF assms(1)] cs by auto
  then have "ensure_file_cluster_chain io g first required =
      bindr (ret first) (\<lambda>first. bindr (extend_chain io g (required - 1) first) (\<lambda>current.
           bindr (read_fat_entry io g current) (\<lambda>e.
           bindr (write_fat_entry io g current FAT32_CLUSTER_EOC) (\<lambda>_.
             if is_data_cluster e then bindr (free_cluster_chain io g e) (\<lambda>_. ret first) else ret first))))"
    by (simp add: ensure_file_cluster_chain_def)
  moreover have "gives \<dots> m (\<lambda>c m'. c = first \<and> (\<exists>new.
    allocates N g m m' new (set cs) \<and> chain g (fat g m') first (cs @ new) \<and> length (cs @ new) = required))"
    using gives_ensure_from [OF assms(1), of m first rest required] assms cs
    by (intro gives_bind_yields [OF yields_ret]) simp
  ultimately show ?thesis by simp
qed

lemma gives_ensure_fresh:
  assumes "geom N g" "\<not> is_data_cluster first" "sound_disk N m" "0 < required"
    and "required \<le> card (free_clusters g m)"
  shows "gives (ensure_file_cluster_chain io g first required) m (\<lambda>c m'. \<exists>cs.
    allocates N g m m' cs {} \<and> chain g (fat g m') c cs \<and> length cs = required)" (is "gives _ m ?P")
proof -
  have free: "free_clusters g m \<noteq> {}" using assms(4,5) by auto
  let ?finish = "\<lambda>a. bindr (extend_chain io g (required - 1) a) (\<lambda>current.
           bindr (read_fat_entry io g current) (\<lambda>e.
           bindr (write_fat_entry io g current FAT32_CLUSTER_EOC) (\<lambda>_.
             if is_data_cluster e then bindr (free_cluster_chain io g e) (\<lambda>_. ret a) else ret a)))"
  have "ensure_file_cluster_chain io g first required = bindr (allocate_cluster io g) ?finish"
    using assms(2,4) by (simp add: ensure_file_cluster_chain_def)
  moreover have "gives \<dots> m ?P"
  proof (rule gives_bind [OF gives_allocate [OF assms(1,3) free]])
    fix a m1 assume m1: "allocates N g m m1 [a] {} \<and> fat g m1 = (fat g m)(a := FAT32_CLUSTER_EOC)"
    then have a: "a \<in> free_clusters g m" "in_volume g a" by (auto simp: allocates_def free_clusters_def)
    have free1: "free_clusters g m1 = free_clusters g m - {a}"
      using m1 not_data_EOC(2) by (auto simp: free_clusters_def)
    have "gives (?finish a) m1 (\<lambda>c m'. c = a \<and> (\<exists>new. allocates N g m1 m' new (set [a])
      \<and> chain g (fat g m') a (a # [] @ new) \<and> length (a # [] @ new) = required))"
    proof (rule gives_ensure_from [OF assms(1)])
      show "chain g (fat g m1) a [a]" using m1 a not_data_EOC by simp
      show "required - length [a] \<le> card (free_clusters g m1)"
        using assms(5) a finite_free [of g m] by (simp add: free1 card_Diff_singleton)
    qed (use assms m1 in \<open>auto simp: allocates_def\<close>)
    then show "gives (?finish a) m1 ?P"
    proof (rule gives_weaken, elim conjE exE)
      fix c m' new
      assume new: "c = a" "allocates N g m1 m' new (set [a])" "chain g (fat g m') a (a # [] @ new)"
        "length (a # [] @ new) = required"
      have "agree m m' (fat_area g \<union> clusters_area g (a # new))"
        using m1 new(2) by (auto simp: agree_def allocates_def)
      then have "allocates N g m m' (a # new) {}"
        using new(2) m1 a(1) by (auto simp: allocates_def free1)
      then show "?P c m'" using new by (auto intro!: exI [of _ "a # new"])
    qed
  qed
  ultimately show ?thesis by simp
qed

end

end
