(* ===== verification/Fat32_File.thy ===== *)
theory Fat32_File
  imports Fat32_Chain
begin

text \<open>
  Files: the bytes along a chain, how the loops of \<open>fat32_write_file\<close> and \<open>fat32_read_file\<close> change and
  read them, and the directory entry that holds first cluster and size.
\<close>

section \<open>The bytes along a chain\<close>

definition file_data :: "fat32_state \<Rightarrow> disk \<Rightarrow> nat list \<Rightarrow> bytes" where
  "file_data g m cs = concat (map (cluster_data g m) cs)"

lemma file_data_simps [simp]:
  "file_data g m [] = []" "file_data g m (c # cs) = cluster_data g m c @ file_data g m cs"
  "file_data g m (cs @ ds) = file_data g m cs @ file_data g m ds"
  by (simp_all add: file_data_def)

lemma cluster_bytes_pos: "geom N g \<Longrightarrow> 0 < cluster_bytes g" "geom N g \<Longrightarrow> cluster_bytes g < 131072"
  by (simp_all add: cluster_bytes_512, simp_all add: geom_def)

lemma length_cluster_data:
  assumes "geom N g" "sound_disk N m" "in_volume g c"
  shows "length (cluster_data g m c) = cluster_bytes g"
  unfolding cluster_data_def cluster_bytes_512 [OF assms(1)]
  using cluster_fits [OF assms(1,3)] assms(2) by (intro length_sector_bytes) (simp add: sound_disk_def)

lemma length_file_data:
  assumes "geom N g" "sound_disk N m" "\<And>c. c \<in> set cs \<Longrightarrow> in_volume g c"
  shows "length (file_data g m cs) = length cs * cluster_bytes g"
  using assms(3) by (induction cs) (simp_all add: length_cluster_data [OF assms(1,2)])

lemma file_data_agree:
  "agree m m' X \<Longrightarrow> (\<And>c. c \<in> set cs \<Longrightarrow> X \<inter> cluster_area g c = {}) \<Longrightarrow> file_data g m' cs = file_data g m cs"
  by (induction cs) (auto simp: cluster_data_agree)

lemma poke_across:
  assumes "off \<le> length a" "length a \<le> off + length xs" "off + length xs \<le> length a + length b"
  shows "poke off xs (a @ b) =
    poke off (take (length a - off) xs) a @ poke 0 (drop (length a - off) xs) b"
  by (rule nth_equalityI) (use assms in \<open>auto simp: nth_poke nth_append\<close>)

lemma poke_within: "off + length xs \<le> length a \<Longrightarrow> poke off xs (a @ b) = poke off xs a @ b"
  by (simp add: poke_def)

context block_device
begin

lemma yields_seek:
  assumes "geom N g"
  shows "chain g (fat g m) c cs \<Longrightarrow> off < length cs * cluster_bytes g \<Longrightarrow>
    gets (seek_cluster io g c off) m (cs ! (off div cluster_bytes g), off mod cluster_bytes g)"
proof (induction cs arbitrary: c off)
  case (Cons x xs)
  have pos: "0 < cluster_bytes g" using assms by (rule cluster_bytes_pos)
  have x: "c = x" "in_volume g x" "chain g (fat g m) (fat g m x) xs" using Cons.prems(1) by simp_all
  show ?case
  proof (cases "off < cluster_bytes g")
    case True
    then show ?thesis using x(1) by (subst seek_cluster.simps) simp
  next
    case False
    then have "off - cluster_bytes g < length xs * cluster_bytes g" using Cons.prems(2) by auto
    then have ih: "gets (seek_cluster io g (fat g m x) (off - cluster_bytes g)) m
        (xs ! ((off - cluster_bytes g) div cluster_bytes g), (off - cluster_bytes g) mod cluster_bytes g)"
      using x(3) by (intro Cons.IH)
    have "xs \<noteq> []" using False Cons.prems(2) by auto
    then have "is_data_cluster (fat g m x)"
      using x(3) in_volume_data [OF assms] by (cases xs) auto
    moreover have "off div cluster_bytes g = Suc ((off - cluster_bytes g) div cluster_bytes g)"
      using False pos by (simp add: le_div_geq)
    moreover have "off mod cluster_bytes g = (off - cluster_bytes g) mod cluster_bytes g"
      using False by (simp add: le_mod_geq)
    ultimately show ?thesis using False pos ih x(1)
      by (subst seek_cluster.simps) (simp add: yields_bind [OF yields_fat [OF assms x(2)]])
  qed
qed simp

lemma yields_read_chain:
  assumes "geom N g" "sound_disk N m"
  shows "chain g (fat g m) c cs \<Longrightarrow> n \<le> length cs * cluster_bytes g \<Longrightarrow>
    gets (read_chain io g c n) m (take n (file_data g m cs))"
proof (induction cs arbitrary: c n)
  case Nil
  then show ?case by (subst read_chain.simps) simp
next
  case (Cons x xs)
  let ?k = "cluster_bytes g"
  have pos: "0 < ?k" using assms(1) by (rule cluster_bytes_pos)
  have x: "c = x" "in_volume g x" "chain g (fat g m) (fat g m x) xs" using Cons.prems(1) by simp_all
  have l: "length (cluster_data g m x) = ?k" using assms x(2) by (rule length_cluster_data)
  show ?case
  proof (cases "n \<le> ?k")
    case True
    show ?thesis
    proof (cases "n = 0")
      case False
      have "gets (read_cluster_bytes io g x 0 n) m (take n (cluster_data g m x))"
        using False True by (intro yields_cluster assms x) auto
      then show ?thesis using False True pos l x(1)
        by (subst read_chain.simps) (auto simp: Let_def intro!: yields_bind)
    qed (subst read_chain.simps, simp)
  next
    case False
    have "gets (read_cluster_bytes io g x 0 ?k) m (take ?k (cluster_data g m x))"
      using pos by (intro yields_cluster assms x) auto
    then have one: "gets (read_cluster_bytes io g x 0 ?k) m (cluster_data g m x)" using l by simp
    have "n - ?k \<le> length xs * ?k" using Cons.prems(2) False by auto
    then have ih: "gets (read_chain io g (fat g m x) (n - ?k)) m (take (n - ?k) (file_data g m xs))"
      using x(3) by (intro Cons.IH)
    have "xs \<noteq> []" using False Cons.prems(2) by auto
    then have e: "is_data_cluster (fat g m x)" using x(3) in_volume_data [OF assms(1)] by (cases xs) auto
    have "read_chain io g c n = bindr (read_cluster_bytes io g x 0 ?k) (\<lambda>ys.
        bindr (read_fat_entry io g x) (\<lambda>e. if \<not> is_data_cluster e then failr
          else bindr (read_chain io g e (n - ?k)) (\<lambda>rest. ret (ys @ rest))))"
      using False pos x(1) by (subst read_chain.simps) (simp add: Let_def)
    moreover have "gets (if \<not> is_data_cluster (fat g m x) then failr
        else bindr (read_chain io g (fat g m x) (n - ?k)) (\<lambda>rest. ret (cluster_data g m x @ rest))) m
        (take n (file_data g m (x # xs)))"
      using e False l by (simp add: yields_bind [OF ih])
    ultimately show ?thesis
      by (simp only:) (rule yields_bind [OF one], rule yields_bind [OF yields_fat [OF assms(1) x(2)]])
  qed
qed

lemma gives_write_chain:
  assumes "geom N g"
  shows "chain g (fat g m) c cs \<Longrightarrow> sound_disk N m \<Longrightarrow> off < cluster_bytes g \<Longrightarrow> buf \<noteq> [] \<Longrightarrow>
    off + length buf \<le> length cs * cluster_bytes g \<Longrightarrow>
    gives (write_chain io g c off buf) m (\<lambda>_ m'. sound_disk N m' \<and> fat g m' = fat g m
      \<and> agree m m' (clusters_area g cs) \<and> file_data g m' cs = poke off buf (file_data g m cs))"
proof (induction cs arbitrary: c m off buf)
  case (Cons x xs)
  let ?k = "cluster_bytes g"
  let ?n = "if length buf < ?k - off then length buf else ?k - off"
  have k: "0 < ?k" "?k < 4294967296" using cluster_bytes_pos [OF assms] by simp_all
  have x: "c = x" "in_volume g x" "chain g (fat g m) (fat g m x) xs" "x \<notin> set xs" using Cons.prems(1) by simp_all
  have l: "length (cluster_data g m x) = ?k" using assms Cons.prems(2) x(2) by (rule length_cluster_data)
  have n: "0 < ?n" "?n \<le> length buf" "off + ?n \<le> ?k" using Cons.prems(3,4) by auto
  have one: "gives (write_cluster_bytes io g x off (take ?n buf)) m (\<lambda>_ m'. sound_disk N m'
      \<and> agree m m' (cluster_area g x) \<and> cluster_data g m' x = poke off (take ?n buf) (cluster_data g m x))"
    using n Cons.prems(2) by (intro gives_cluster assms x) auto
  define P where "P = (\<lambda>(_ :: unit) m'. sound_disk N m' \<and> fat g m' = fat g m
      \<and> agree m m' (clusters_area g (x # xs)) \<and> file_data g m' (x # xs) = poke off buf (file_data g m (x # xs)))"
  have rest: "gives (if drop ?n buf = [] then ret () else if ?n = 0 then hang
      else bindr (read_fat_entry io g x) (\<lambda>e. if \<not> is_data_cluster e then failr
        else write_chain io g e 0 (drop ?n buf))) m1 P"
    if m1: "sound_disk N m1 \<and> agree m m1 (cluster_area g x)
      \<and> cluster_data g m1 x = poke off (take ?n buf) (cluster_data g m x)" for m1
  proof -
    have fat1: "fat g m1 = fat g m" using m1 fat_apart [OF assms] by (intro fat_agree [OF assms]) auto
    have xs1: "file_data g m1 xs = file_data g m xs"
      using m1 cluster_apart [OF x(2)] chain_in_volume [OF x(3)] x(4)
      by (intro file_data_agree [of m m1]) auto
    show ?thesis
    proof (cases "length buf \<le> ?k - off")
      case True
      then have "P () m1" unfolding P_def using m1 fat1 xs1 l Cons.prems(3)
        by (auto simp: poke_within agree_def)
      moreover have "drop ?n buf = []" using True by simp
      ultimately show ?thesis by (simp add: gives_ret)
    next
      case False
      then have nk: "?n = ?k - off" by simp
      have bound: "length (drop ?n buf) \<le> length xs * ?k" using Cons.prems(3,5) False by auto
      then have "xs \<noteq> []" using False by auto
      then have e: "is_data_cluster (fat g m1 x)" unfolding fat1
        using x(3) in_volume_data [OF assms] by (cases xs) auto
      have "gives (write_chain io g (fat g m1 x) 0 (drop ?n buf)) m1 (\<lambda>_ m'. sound_disk N m' \<and> fat g m' = fat g m1
        \<and> agree m1 m' (clusters_area g xs) \<and> file_data g m' xs = poke 0 (drop ?n buf) (file_data g m1 xs))"
        using x(3) m1 bound False k by (intro Cons.IH) (auto simp: fat1)
      then have "gives (write_chain io g (fat g m1 x) 0 (drop ?n buf)) m1 P"
      proof (rule gives_weaken, elim conjE)
        fix u m' assume m': "sound_disk N m'" "fat g m' = fat g m1" "agree m1 m' (clusters_area g xs)"
          "file_data g m' xs = poke 0 (drop ?n buf) (file_data g m1 xs)"
        have "cluster_data g m' x = cluster_data g m1 x"
          using m'(3) clusters_apart [of xs g x] chain_in_volume [OF x(3)] x(2,4)
          by (intro cluster_data_agree [of m1 m']) auto
        moreover have "length (file_data g m xs) = length xs * ?k"
          using chain_in_volume [OF x(3)] by (intro length_file_data [OF assms Cons.prems(2)])
        ultimately show "P u m'" unfolding P_def
          using m1 m' fat1 xs1 l Cons.prems(3,5) False nk
            poke_across [of off "cluster_data g m x" buf "file_data g m xs"]
          by (auto simp: agree_def)
      qed
      then have "gives (bindr (read_fat_entry io g x) (\<lambda>e. if \<not> is_data_cluster e then failr
        else write_chain io g e 0 (drop ?n buf))) m1 P"
        using e by (intro gives_bind_yields [OF yields_fat [OF assms x(2)]]) simp
      moreover have "drop ?n buf \<noteq> []" "?n \<noteq> 0" using False n(1) by auto
      ultimately show ?thesis by simp
    qed
  qed
  have "write_chain io g c off buf = bindr (write_cluster_bytes io g x off (take ?n buf)) (\<lambda>_.
      if drop ?n buf = [] then ret () else if ?n = 0 then hang
      else bindr (read_fat_entry io g x) (\<lambda>e. if \<not> is_data_cluster e then failr
        else write_chain io g e 0 (drop ?n buf)))"
    using Cons.prems(3,4) k by (subst write_chain.simps) (simp add: Let_def x(1))
  then show ?case unfolding P_def [symmetric] using gives_bind [OF one rest] by simp
qed simp

end

section \<open>Directory entries\<close>

lemma u16_bytes: "u16_of_le (le_of_u16 v ! 0) (le_of_u16 v ! 1) = v"
  using u16_of_le_bytes [of v] by (simp add: le_of_u16_def)

lemma length_put_u16 [simp]: "off + 2 \<le> length b \<Longrightarrow> length (put_u16 off v b) = length b"
  by (simp add: put_u16_def)

lemma nth_put [simp]:
  "off + 2 \<le> length b \<Longrightarrow> i < length b \<Longrightarrow> i < off \<or> off + 2 \<le> i \<Longrightarrow> put_u16 off v b ! i = b ! i"
  "off + 4 \<le> length b \<Longrightarrow> i < length b \<Longrightarrow> i < off \<or> off + 4 \<le> i \<Longrightarrow> put_u32 off v b ! i = b ! i"
  by (auto simp: put_u16_def put_u32_def nth_poke)

lemma u16_at_put_same: "off + 2 \<le> length b \<Longrightarrow> u16_at (put_u16 off v b) off = v mod 65536"
  using u16_bytes [of "of_nat v"] by (simp add: u16_at_def put_u16_def nth_poke unat_of_nat)

lemma length_update_entry [simp]: "length e = 32 \<Longrightarrow> length (update_entry c sz e) = 32"
  by (simp add: update_entry_def set_entry_cluster_def)

lemma update_entry_nth: "length e = 32 \<Longrightarrow> i < 20 \<Longrightarrow> update_entry c sz e ! i = e ! i"
  by (simp add: update_entry_def set_entry_cluster_def)

lemma update_entry_size:
  "length e = 32 \<Longrightarrow> sz < 4294967296 \<Longrightarrow> u32_at (update_entry c sz e) 28 = sz"
  by (simp add: update_entry_def set_entry_cluster_def u32_at_put_same)

lemma update_entry_cluster:
  assumes "length e = 32" "c < 4294967296"
  shows "entry_cluster (update_entry c sz e) = c"
proof -
  have "u16_at (update_entry c sz e) 26 = c mod 65536"
    using u16_at_put_same [of 26 "put_u16 20 (c div 65536 mod 65536) e" "c mod 65536"] assms(1)
    by (simp add: update_entry_def set_entry_cluster_def u16_at_def)
  moreover have "u16_at (update_entry c sz e) 20 = c div 65536"
    using u16_at_put_same [of 20 e "c div 65536 mod 65536"] assms
    by (simp add: update_entry_def set_entry_cluster_def u16_at_def)
  ultimately show ?thesis by (simp add: entry_cluster_def)
qed

section \<open>Files\<close>

text \<open>The entry \<open>e\<close> describes a file with the clusters \<open>cs\<close> and the contents \<open>data\<close>.\<close>

definition clusters_for :: "fat32_state \<Rightarrow> nat \<Rightarrow> nat" where
  "clusters_for g n = (n + cluster_bytes g - 1) div cluster_bytes g"

definition file_at :: "fat32_state \<Rightarrow> disk \<Rightarrow> bytes \<Rightarrow> nat list \<Rightarrow> bytes \<Rightarrow> bool" where
  "file_at g m e cs data \<longleftrightarrow> length e = 32 \<and> u32_at e 28 = length data \<and> length cs = clusters_for g (length data)
     \<and> (if cs = [] then \<not> is_data_cluster (entry_cluster e) else chain g (fat g m) (entry_cluster e) cs)
     \<and> take (length data) (file_data g m cs) = data"

lemma clusters_for_bounds:
  assumes "0 < cluster_bytes g"
  shows "n \<le> clusters_for g n * cluster_bytes g" "clusters_for g n = 0 \<longleftrightarrow> n = 0"
    "a < n \<Longrightarrow> a div cluster_bytes g < clusters_for g n" "a \<le> n \<Longrightarrow> clusters_for g a \<le> clusters_for g n"
proof -
  define k where "k = cluster_bytes g"
  have k: "0 < k" using assms by (simp add: k_def)
  define q where "q = (n + k - 1) div k"
  have "n + k - 1 < q * k + k" unfolding q_def using dividend_less_div_times [OF k] by (simp add: add.commute)
  then have n: "n \<le> q * k" using k by simp
  then show "n \<le> clusters_for g n * cluster_bytes g" by (simp add: clusters_for_def q_def k_def)
  show "clusters_for g n = 0 \<longleftrightarrow> n = 0" using k
    by (cases n) (auto simp: clusters_for_def div_eq_0_iff simp flip: k_def)
  show "a div cluster_bytes g < clusters_for g n" if "a < n"
  proof -
    have "a < q * k" using that n by simp
    then have "a div k < q" by (rule less_mult_imp_div_less)
    then show ?thesis by (simp add: clusters_for_def q_def k_def)
  qed
  show "clusters_for g a \<le> clusters_for g n" if "a \<le> n"
    using that by (simp add: clusters_for_def div_le_mono)
qed

lemma chain_drop: "chain g F c cs \<Longrightarrow> i < length cs \<Longrightarrow> chain g F (cs ! i) (drop i cs)"
proof (induction cs arbitrary: c i)
  case (Cons x xs)
  show ?case
  proof (cases i)
    case (Suc j)
    then show ?thesis using Cons.prems Cons.IH [of "F x" j] by simp
  qed (use Cons.prems in simp)
qed simp

lemma poke_second: "poke (length a + off) xs (a @ b) = a @ poke off xs b"
  by (simp add: poke_def)

context block_device
begin

lemma file_read:
  assumes "geom N g" "sound_disk N m" "file_at g m e cs data" "length data < capacity"
  shows "gets (read_contents io g e capacity) m data"
proof -
  have pos: "0 < cluster_bytes g" using assms(1) by (rule cluster_bytes_pos)
  show ?thesis
  proof (cases "data = []")
    case True
    then show ?thesis using assms by (simp add: read_contents_def file_at_def)
  next
    case False
    have e: "u32_at e 28 = length data" "length cs = clusters_for g (length data)"
      "take (length data) (file_data g m cs) = data" using assms(3) by (auto simp: file_at_def)
    have "cs \<noteq> []" using e(2) False clusters_for_bounds(2) [OF pos, of "length data"] by auto
    then have c: "chain g (fat g m) (entry_cluster e) cs" using assms(3) by (simp add: file_at_def)
    then have "is_data_cluster (entry_cluster e)"
      using \<open>cs \<noteq> []\<close> in_volume_data [OF assms(1)] by (cases cs) auto
    moreover have "gets (read_chain io g (entry_cluster e) (length data)) m data"
      using yields_read_chain [OF assms(1,2) c, of "length data"] e clusters_for_bounds(1) [OF pos, of "length data"]
      by simp
    ultimately show ?thesis using assms(4) False e(1) by (simp add: read_contents_def Let_def)
  qed
qed

text \<open>The middle of \<open>fat32_write_file\<close>: \<open>cs\<close> holds \<open>old\<close>, and \<open>buf\<close> goes behind it.\<close>

lemma gives_fill:
  assumes "geom N g" "sound_disk N m" "length cs = clusters_for g (length old)" "buf \<noteq> []"
    and "if cs = [] then \<not> is_data_cluster first else chain g (fat g m) first cs"
    and "take (length old) (file_data g m cs) = old"
    and "clusters_for g (length old + length buf) \<le> length cs + card (free_clusters g m)"
    and k: "\<And>first m' cs'. sound_disk N m' \<Longrightarrow> chain g (fat g m') first cs' \<Longrightarrow>
      length cs' = clusters_for g (length old + length buf) \<Longrightarrow>
      take (length old + length buf) (file_data g m' cs') = old @ buf \<Longrightarrow>
      set cs' \<subseteq> set cs \<union> free_clusters g m \<Longrightarrow> (\<forall>c. c \<notin> set cs' \<longrightarrow> fat g m' c = fat g m c) \<Longrightarrow>
      agree m m' (fat_area g \<union> clusters_area g cs') \<Longrightarrow> gives (k first) m' P"
  shows "gives (bindr (ensure_file_cluster_chain io g first (clusters_for g (length old + length buf))) (\<lambda>first.
                bindr (seek_cluster io g first (length old)) (\<lambda>(c, woff).
                bindr (write_chain io g c woff buf) (\<lambda>_. k first)))) m P"
proof (rule gives_bind)
  let ?req = "clusters_for g (length old + length buf)"
  have pos: "0 < cluster_bytes g" using assms(1) by (rule cluster_bytes_pos)
  define Q where "Q = (\<lambda>c m'. \<exists>cs'. sound_disk N m' \<and> chain g (fat g m') c cs' \<and> length cs' = ?req
      \<and> take (length old) (file_data g m' cs') = old \<and> set cs' \<subseteq> set cs \<union> free_clusters g m
      \<and> (\<forall>c. c \<notin> set cs' \<longrightarrow> fat g m' c = fat g m c) \<and> agree m m' (fat_area g \<union> clusters_area g cs'))"
  show "gives (ensure_file_cluster_chain io g first ?req) m Q"
  proof (cases "cs = []")
    case True
    then have "length old = 0" using assms(3) clusters_for_bounds(2) [OF pos] by auto
    moreover have "0 < ?req" using clusters_for_bounds(2) [OF pos, of "length old + length buf"] assms(4) by simp
    ultimately show ?thesis
      using assms(5,7) True
      by (intro gives_weaken [OF gives_ensure_fresh [OF assms(1) _ assms(2)]])
        (auto simp: Q_def allocates_def)
  next
    case False
    then have c: "chain g (fat g m) first cs" using assms(5) by simp
    have "length cs \<le> ?req" unfolding assms(3) by (intro clusters_for_bounds(4) pos) simp
    then have "gives (ensure_file_cluster_chain io g first ?req) m (\<lambda>c m'. c = first \<and> (\<exists>new.
      allocates N g m m' new (set cs) \<and> chain g (fat g m') first (cs @ new) \<and> length (cs @ new) = ?req))"
      using assms(7) by (intro gives_ensure assms(1,2) c False) auto
    then show ?thesis
    proof (rule gives_weaken, elim conjE exE)
      fix f m' new
      assume new: "f = first" "allocates N g m m' new (set cs)" "chain g (fat g m') first (cs @ new)"
        "length (cs @ new) = ?req"
      have "file_data g m' cs = file_data g m cs"
      proof (rule file_data_agree)
        show "agree m m' (fat_area g \<union> clusters_area g new)" using new(2) by (simp add: allocates_def)
        fix x assume x: "x \<in> set cs"
        have "x \<notin> set new" using chain_apart_free [OF c] new(2) x by (auto simp: allocates_def)
        moreover have "in_volume g y" if "y \<in> set new" for y
          using new(2) that by (auto simp: allocates_def free_clusters_def)
        ultimately show "(fat_area g \<union> clusters_area g new) \<inter> cluster_area g x = {}"
          using clusters_apart [of new g x] chain_in_volume [OF c x] fat_apart [OF assms(1)] by auto
      qed
      then have "take (length old) (file_data g m' (cs @ new)) = old"
        using assms(6) length_file_data [OF assms(1,2) chain_in_volume [OF c]]
          clusters_for_bounds(1) [OF pos, of "length old"] assms(3) by simp
      then show "Q f m'" unfolding Q_def using new
        by (auto simp: allocates_def intro!: exI [of _ "cs @ new"] elim: agree_mono)
    qed
  qed
next
  let ?req = "clusters_for g (length old + length buf)" and ?k = "cluster_bytes g"
  have pos: "0 < ?k" using assms(1) by (rule cluster_bytes_pos)
  fix first m1
  assume "\<exists>cs'. sound_disk N m1 \<and> chain g (fat g m1) first cs' \<and> length cs' = ?req
      \<and> take (length old) (file_data g m1 cs') = old \<and> set cs' \<subseteq> set cs \<union> free_clusters g m
      \<and> (\<forall>c. c \<notin> set cs' \<longrightarrow> fat g m1 c = fat g m c) \<and> agree m m1 (fat_area g \<union> clusters_area g cs')"
  then obtain cs' where c: "sound_disk N m1" "chain g (fat g m1) first cs'" "length cs' = ?req"
      "take (length old) (file_data g m1 cs') = old" "set cs' \<subseteq> set cs \<union> free_clusters g m"
      "\<forall>c. c \<notin> set cs' \<longrightarrow> fat g m1 c = fat g m c" "agree m m1 (fat_area g \<union> clusters_area g cs')"
    by blast
  define i w where "i = length old div ?k" and "w = length old mod ?k"
  have i: "i < length cs'" "length old = i * ?k + w" "w < ?k"
    using clusters_for_bounds(3) [OF pos, of "length old" "length old + length buf"] assms(4) pos c(3)
    by (simp_all add: i_def w_def)
  have cap: "length old + length buf \<le> length cs' * ?k" using clusters_for_bounds(1) [OF pos] c(3) by simp
  have seek: "gets (seek_cluster io g first (length old)) m1 (cs' ! i, w)"
  proof -
    have "length old < length cs' * ?k" using cap assms(4) by (cases buf) auto
    then show ?thesis unfolding i_def w_def by (rule yields_seek [OF assms(1) c(2)])
  qed
  have "length old + length buf \<le> i * ?k + (length cs' - i) * ?k"
    using cap i(1) by (simp flip: add_mult_distrib)
  then have fill: "gives (write_chain io g (cs' ! i) w buf) m1 (\<lambda>_ m'. sound_disk N m' \<and> fat g m' = fat g m1
      \<and> agree m1 m' (clusters_area g (drop i cs'))
      \<and> file_data g m' (drop i cs') = poke w buf (file_data g m1 (drop i cs')))"
    using i assms(4) by (intro gives_write_chain [OF assms(1) chain_drop [OF c(2)]] c(1)) auto
  show "gives (bindr (seek_cluster io g first (length old)) (\<lambda>(c, woff).
      bindr (write_chain io g c woff buf) (\<lambda>_. k first))) m1 P"
  proof (rule gives_bind_yields [OF seek], simp only: prod.case, rule gives_bind [OF fill], elim conjE)
    fix u m2
    assume m2: "sound_disk N m2" "fat g m2 = fat g m1" "agree m1 m2 (clusters_area g (drop i cs'))"
      "file_data g m2 (drop i cs') = poke w buf (file_data g m1 (drop i cs'))"
    have sub: "set (drop i cs') \<subseteq> set cs'" by (rule set_drop_subset)
    have vol: "in_volume g x" if "x \<in> set cs'" for x using c(2) that by (rule chain_in_volume)
    have keep: "file_data g m2 (take i cs') = file_data g m1 (take i cs')"
    proof (rule file_data_agree [OF m2(3)])
      fix x assume x: "x \<in> set (take i cs')"
      have "x \<notin> set (drop i cs')"
        using set_take_disj_set_drop_if_distinct [OF chain_distinct [OF c(2)], of i i] x by auto
      then show "clusters_area g (drop i cs') \<inter> cluster_area g x = {}"
        using sub vol set_take_subset [of i cs'] x by (intro clusters_apart) auto
    qed
    have lk: "length (file_data g m1 (take i cs')) = i * ?k"
      using length_file_data [OF assms(1) c(1), of "take i cs'"] vol set_take_subset [of i cs'] i(1) by auto
    have split: "file_data g m' cs' = file_data g m' (take i cs') @ file_data g m' (drop i cs')" for m'
      by (simp flip: file_data_simps(3))
    have "file_data g m2 cs' = poke (length old) buf (file_data g m1 cs')"
      unfolding split [of m2] split [of m1] keep m2(4)
      using poke_second [of "file_data g m1 (take i cs')" w buf] lk i(2) by simp
    moreover have "length (file_data g m1 cs') = length cs' * ?k"
      using length_file_data [OF assms(1) c(1)] vol by simp
    ultimately have data: "take (length old + length buf) (file_data g m2 cs') = old @ buf"
      using cap c(4) by (simp add: poke_def)
    have "clusters_area g (drop i cs') \<subseteq> clusters_area g cs'" using sub by (auto simp: clusters_area_def)
    then have "agree m m2 (fat_area g \<union> clusters_area g cs')" using c(7) m2(3) by (auto simp: agree_def)
    then show "gives (k first) m2 P"
      using c m2 data by (intro k [of m2 first cs']) auto
  qed
qed

lemma gives_entry:
  "n < N \<Longrightarrow> sound_disk N m \<Longrightarrow> off + length e \<le> 512 \<Longrightarrow>
   gives (write_directory_entry io n off e) m (\<lambda>_ m'. m' = m(n := poke off e (m n)))"
  unfolding write_directory_entry_def
  by (rule read_bind, assumption) (rule gives_write, auto simp: sound_disk_def)

end

text \<open>
  What a call of \<open>fat32_write_file\<close> leaves on the disk: the entry in its slot describes a file with the
  contents \<open>data\<close>; only its old and new clusters, free clusters, the table and the slot have changed.
\<close>

definition written ::
    "nat \<Rightarrow> fat32_state \<Rightarrow> disk \<Rightarrow> disk \<Rightarrow> nat \<Rightarrow> nat \<Rightarrow> bytes \<Rightarrow> nat list \<Rightarrow> bytes \<Rightarrow> bytes \<Rightarrow> nat list \<Rightarrow> bool" where
  "written N g m m' n off e cs data e' cs' \<longleftrightarrow> sound_disk N m' \<and> m' n = poke off e' (m n)
     \<and> file_at g m' e' cs' data \<and> take 20 e' = take 20 e \<and> set cs' \<subseteq> set cs \<union> free_clusters g m
     \<and> (\<forall>c. c \<notin> set cs \<union> set cs' \<longrightarrow> fat g m' c = fat g m c)
     \<and> agree m m' (fat_area g \<union> clusters_area g cs' \<union> {n})"

definition slot_ok :: "nat \<Rightarrow> fat32_state \<Rightarrow> disk \<Rightarrow> nat list \<Rightarrow> nat \<Rightarrow> nat \<Rightarrow> bool" where
  "slot_ok N g m cs n off \<longleftrightarrow> n < N \<and> off + 32 \<le> 512 \<and> n \<notin> fat_area g
     \<and> (\<forall>c \<in> set cs \<union> free_clusters g m. n \<notin> cluster_area g c)"

lemma file_at_entry:
  "length e = 32 \<Longrightarrow> u32_at e 28 = length data \<Longrightarrow> entry_cluster e = c \<Longrightarrow> cs \<noteq> [] \<Longrightarrow> chain g (fat g m) c cs \<Longrightarrow>
   length cs = clusters_for g (length data) \<Longrightarrow> take (length data) (file_data g m cs) = data \<Longrightarrow>
   file_at g m e cs data"
  by (simp add: file_at_def)

lemma take_update_entry: "length e = 32 \<Longrightarrow> take 20 (update_entry c sz e) = take 20 e"
  by (rule nth_equalityI) (simp_all add: update_entry_nth)

context block_device
begin

text \<open>The last step, once the clusters hold the data.\<close>

lemma gives_close:
  assumes "geom N g" "length e = 32" "slot_ok N g m cs n off" "length data < 4294967296" "data \<noteq> []"
    and "sound_disk N m'" "chain g (fat g m') first cs'" "length cs' = clusters_for g (length data)"
    and "take (length data) (file_data g m' cs') = data" "set cs' \<subseteq> set cs \<union> free_clusters g m"
    and "\<forall>c. c \<notin> set cs \<union> set cs' \<longrightarrow> fat g m' c = fat g m c" "agree m m' (fat_area g \<union> clusters_area g cs')"
  shows "gives (write_directory_entry io n off (update_entry first (length data) e)) m' (\<lambda>_ m'.
    \<exists>e' cs'. written N g m m' n off e cs data e' cs')"
proof (rule gives_weaken [OF gives_entry [OF _ assms(6)]], goal_cases)
  case 1
  show ?case using assms(3) by (simp add: slot_ok_def)
next
  case 2
  show ?case using assms(2,3) by (simp add: slot_ok_def)
next
  case (3 u m2)
  let ?e = "update_entry first (length data) e"
  have n: "n < N" "off + 32 \<le> 512" "n \<notin> fat_area g" "n \<notin> clusters_area g cs'"
    using assms(3,10) by (auto simp: slot_ok_def clusters_area_def)
  have "m' n = m n" using assms(12) n by (simp add: agree_def)
  then have m2: "m2 = m'(n := poke off ?e (m n))" using 3 by simp
  have "length (m n) = 512" using assms(6) n \<open>m' n = m n\<close> by (auto simp: sound_disk_def)
  then have s2: "sound_disk N m2" using assms(2,6) n by (simp add: m2 sound_disk_def)
  have one: "agree m' m2 {n}" by (simp add: m2 agree_def)
  have fat2: "fat g m2 = fat g m'" using n one by (intro fat_agree [OF assms(1)]) auto
  have data2: "file_data g m2 cs' = file_data g m' cs'"
    using n one by (intro file_data_agree) (auto simp: clusters_area_def)
  have ne: "cs' \<noteq> []" using assms(5,8) clusters_for_bounds(2) [OF cluster_bytes_pos(1) [OF assms(1)], of "length data"]
    by auto
  then have "is_data_cluster first" using assms(7) in_volume_data [OF assms(1)] by (cases cs') auto
  then have "first < 4294967296" by (simp add: is_data_cluster_def FAT32_CLUSTER_EOC_MIN_def)
  then have "file_at g m2 ?e cs' data"
    using assms(2,4,7,8,9) ne
    by (intro file_at_entry [where c = first]) (simp_all add: update_entry_size update_entry_cluster fat2 data2)
  moreover have "agree m m2 (fat_area g \<union> clusters_area g cs' \<union> {n})"
    using assms(12) one by (rule agree_trans)
  ultimately have "written N g m m2 n off e cs data ?e cs'"
    using s2 assms(10,11) fat2 m2 take_update_entry [OF assms(2)] by (simp add: written_def)
  then show ?case by blast
qed

lemma gives_write_new:
  assumes "geom N g" "sound_disk N m" "file_at g m e cs old" "length cs \<le> 4096" "slot_ok N g m cs n off"
    and "length buf + cluster_bytes g < 4294967296"
    and "clusters_for g (length buf) \<le> length cs + card (free_clusters g m)"
  shows "gives (write_contents io g (n, off, e) buf False) m (\<lambda>_ m'. \<exists>e' cs'. written N g m m' n off e cs buf e' cs')"
proof -
  let ?k = "cluster_bytes g" and ?first = "entry_cluster e"
  have pos: "0 < ?k" using assms(1) by (rule cluster_bytes_pos)
  have e: "length e = 32" using assms(3) by (simp add: file_at_def)
  have req: "sub32 (add32 (length buf) ?k) 1 div ?k = clusters_for g (length buf)"
    using assms(6) pos by (simp add: clusters_for_def)
  define tail where "tail = (\<lambda>first. if length buf = 0 then write_directory_entry io n off (update_entry 0 0 e)
      else bindr (ensure_file_cluster_chain io g first (clusters_for g (length buf))) (\<lambda>first.
           bindr (seek_cluster io g first 0) (\<lambda>(c, woff). bindr (write_chain io g c woff buf) (\<lambda>_.
             write_directory_entry io n off (update_entry first (length buf) e)))))"
  have unfold: "write_contents io g (n, off, e) buf False =
      bindr (bindr (if is_data_cluster ?first then free_cluster_chain io g ?first else ret ()) (\<lambda>_. ret 0)) tail"
    by (simp add: write_contents_def Let_def tail_def req cong: if_cong del: One_nat_def)
  have free: "gives (if is_data_cluster ?first then free_cluster_chain io g ?first else ret ()) m (\<lambda>_ m1.
      sound_disk N m1 \<and> agree m m1 (fat_area g) \<and> fat g m1 = (\<lambda>x. if x \<in> set cs then 0 else fat g m x))"
  proof (cases "cs = []")
    case True
    then have "\<not> is_data_cluster ?first" using assms(3) by (simp add: file_at_def)
    then show ?thesis using True assms(2) by (simp add: gives_ret)
  next
    case False
    then have c: "chain g (fat g m) ?first cs" using assms(3) by (simp add: file_at_def)
    then have "is_data_cluster ?first" using False in_volume_data [OF assms(1)] by (cases cs) auto
    then show ?thesis using gives_free_chain [OF assms(1,2) c assms(4)] by simp
  qed
  have rest: "gives (tail 0) m1 (\<lambda>_ m'. \<exists>e' cs'. written N g m m' n off e cs buf e' cs')"
    if m1: "sound_disk N m1" "agree m m1 (fat_area g)" "fat g m1 = (\<lambda>x. if x \<in> set cs then 0 else fat g m x)" for m1
  proof (cases "buf = []")
    case True
    have n: "n < N" "off + 32 \<le> 512" "n \<notin> fat_area g" using assms(5) by (auto simp: slot_ok_def)
    have "m1 n = m n" using m1(2) n by (simp add: agree_def)
    have "gives (write_directory_entry io n off (update_entry 0 0 e)) m1 (\<lambda>_ m'. m' = m1(n := poke off (update_entry 0 0 e) (m1 n)))"
      using n e by (intro gives_entry m1) auto
    then have "gives (write_directory_entry io n off (update_entry 0 0 e)) m1 (\<lambda>_ m'.
        \<exists>e' cs'. written N g m m' n off e cs buf e' cs')"
    proof (rule gives_weaken)
      fix u m2 assume m2: "m2 = m1(n := poke off (update_entry 0 0 e) (m1 n))"
      have "fat g m2 = fat g m1" using n m2 by (intro fat_agree [OF assms(1), of m1 m2 "{n}"]) (auto simp: agree_def)
      moreover have "sound_disk N m2" using m1(1) n e by (auto simp: m2 sound_disk_def)
      moreover have "agree m m2 (fat_area g \<union> clusters_area g [] \<union> {n})" using m1(2) by (auto simp: m2 agree_def)
      moreover have "file_at g m2 (update_entry 0 0 e) [] []"
        using e clusters_for_bounds(2) [OF pos, of 0]
        by (simp add: file_at_def update_entry_size update_entry_cluster is_data_cluster_def)
      ultimately have "written N g m m2 n off e cs buf (update_entry 0 0 e) []"
        using m1(3) m2 \<open>m1 n = m n\<close> take_update_entry [OF e] True by (simp add: written_def)
      then show "\<exists>e' cs'. written N g m m2 n off e cs buf e' cs'" by blast
    qed
    then show ?thesis by (simp add: tail_def True)
  next
    case False
    have vol: "in_volume g x" if "x \<in> set cs" for x
      using that assms(3) chain_in_volume [of g "fat g m"] by (auto simp: file_at_def split: if_splits)
    have free1: "free_clusters g m1 = set cs \<union> free_clusters g m"
      using m1(3) vol by (auto simp: free_clusters_def)
    have "set cs \<inter> free_clusters g m = {}"
      using assms(3) chain_apart_free [of g m ?first cs] by (cases "cs = []") (auto simp: file_at_def)
    moreover have "distinct cs"
      using assms(3) chain_distinct [of g "fat g m" ?first cs] by (cases "cs = []") (auto simp: file_at_def)
    ultimately have card: "card (free_clusters g m1) = length cs + card (free_clusters g m)"
      by (simp add: free1 card_Un_disjoint finite_free distinct_card)
    have "gives (bindr (ensure_file_cluster_chain io g 0 (clusters_for g (length ([] :: bytes) + length buf))) (\<lambda>first.
           bindr (seek_cluster io g first (length ([] :: bytes))) (\<lambda>(c, woff). bindr (write_chain io g c woff buf) (\<lambda>_.
             write_directory_entry io n off (update_entry first (length buf) e))))) m1
        (\<lambda>_ m'. \<exists>e' cs'. written N g m m' n off e cs buf e' cs')"
    proof (rule gives_fill [OF assms(1) m1(1), where cs = "[]"])
      show "length ([] :: nat list) = clusters_for g (length ([] :: bytes))"
        using clusters_for_bounds(2) [OF pos, of 0] by simp
      fix first m2 cs'
      assume "sound_disk N m2" "chain g (fat g m2) first cs'"
        "length cs' = clusters_for g (length ([] :: bytes) + length buf)"
        "take (length ([] :: bytes) + length buf) (file_data g m2 cs') = [] @ buf"
        "set cs' \<subseteq> set [] \<union> free_clusters g m1"
        and r: "\<forall>c. c \<notin> set cs' \<longrightarrow> fat g m2 c = fat g m1 c" "agree m1 m2 (fat_area g \<union> clusters_area g cs')"
      moreover have "agree m m2 (fat_area g \<union> clusters_area g cs')" using m1(2) r(2) by (auto simp: agree_def)
      ultimately show "gives (write_directory_entry io n off (update_entry first (length buf) e)) m2
          (\<lambda>_ m'. \<exists>e' cs'. written N g m m' n off e cs buf e' cs')"
        using assms(6) False m1(3) by (intro gives_close [OF assms(1) e assms(5)]) (auto simp: free1)
    qed (use False assms(7) card in \<open>auto simp: is_data_cluster_def\<close>)
    then show ?thesis using False by (simp add: tail_def)
  qed
  show ?thesis unfolding unfold
    by (rule gives_bind [where Q = "\<lambda>c m1. c = 0 \<and> sound_disk N m1 \<and> agree m m1 (fat_area g)
        \<and> fat g m1 = (\<lambda>x. if x \<in> set cs then 0 else fat g m x)"])
      (rule gives_bind [OF free], rule gives_ret, blast, simp only:, rule rest, blast+)
qed

lemma gives_write_append:
  assumes "geom N g" "sound_disk N m" "file_at g m e cs old" "slot_ok N g m cs n off" "buf \<noteq> []"
    and "length old + length buf + cluster_bytes g < 4294967296"
    and "clusters_for g (length old + length buf) \<le> length cs + card (free_clusters g m)"
  shows "gives (write_contents io g (n, off, e) buf True) m
    (\<lambda>_ m'. \<exists>e' cs'. written N g m m' n off e cs (old @ buf) e' cs')"
proof -
  let ?k = "cluster_bytes g" and ?len = "length old + length buf"
  have pos: "0 < ?k" using assms(1) by (rule cluster_bytes_pos)
  have e: "length e = 32" "u32_at e 28 = length old" "length cs = clusters_for g (length old)"
    "if cs = [] then \<not> is_data_cluster (entry_cluster e) else chain g (fat g m) (entry_cluster e) cs"
    "take (length old) (file_data g m cs) = old" using assms(3) by (auto simp: file_at_def)
  have req: "sub32 (add32 ?len ?k) 1 div ?k = clusters_for g ?len"
    using assms(6) pos by (simp add: clusters_for_def)
  have nowrap: "\<not> 4294967295 - length old < length buf" using assms(6) pos by linarith
  have "write_contents io g (n, off, e) buf True =
      bindr (ret (entry_cluster e)) (\<lambda>first. bindr (ensure_file_cluster_chain io g first (clusters_for g ?len)) (\<lambda>first.
           bindr (seek_cluster io g first (length old)) (\<lambda>(c, woff). bindr (write_chain io g c woff buf) (\<lambda>_.
             write_directory_entry io n off (update_entry first ?len e)))))"
    using assms(5) nowrap by (simp add: write_contents_def Let_def req e(2) cong: if_cong del: One_nat_def)
  moreover have "gives \<dots> m (\<lambda>_ m'. \<exists>e' cs'. written N g m m' n off e cs (old @ buf) e' cs')"
  proof (rule gives_bind_yields [OF yields_ret], rule gives_fill [OF assms(1,2) e(3) assms(5) e(4,5) assms(7)])
    fix first m' cs'
    assume *: "sound_disk N m'" "chain g (fat g m') first cs'" "length cs' = clusters_for g ?len"
      "take ?len (file_data g m' cs') = old @ buf" "set cs' \<subseteq> set cs \<union> free_clusters g m"
      "\<forall>c. c \<notin> set cs' \<longrightarrow> fat g m' c = fat g m c" "agree m m' (fat_area g \<union> clusters_area g cs')"
    show "gives (write_directory_entry io n off (update_entry first ?len e)) m'
        (\<lambda>_ m'. \<exists>e' cs'. written N g m m' n off e cs (old @ buf) e' cs')"
      using gives_close [OF assms(1) e(1) assms(4), of "old @ buf" m' first cs'] * assms(5,6) by simp
  qed
  ultimately show ?thesis by simp
qed

end

end
