(* ===== verification/Fat32_Dir.thy ===== *)
theory Fat32_Dir
  imports Fat32_File
begin

text \<open>
  Directories as lists of 32-byte slots, look-up in such a list, and paths. From these come the theorems
  on whole calls: what \<open>fat32_write_file\<close> wrote \<open>fat32_read_file\<close> reads.
\<close>

section \<open>Look-up in a list of slots\<close>

type_synonym slot = "nat \<times> nat"

definition slot_entry :: "disk \<Rightarrow> slot \<Rightarrow> bytes" where
  "slot_entry m s = take 32 (drop (snd s) (m (fst s)))"

definition dir_slots :: "fat32_state \<Rightarrow> nat list \<Rightarrow> slot list" where
  "dir_slots g ds = concat (map (\<lambda>c. concat (map (\<lambda>n. map (Pair n) entry_offsets)
     [first_sector g c..<first_sector g c + sectors_per_cluster g])) ds)"

definition deleted :: "bytes \<Rightarrow> bool" where
  "deleted e \<longleftrightarrow> e ! 0 = 0xE5 \<or> e ! 11 = FAT32_ATTR_LFN"

fun lookup :: "(slot \<Rightarrow> bytes) \<Rightarrow> bytes \<Rightarrow> slot list \<Rightarrow> free_slot \<Rightarrow> slot_search + free_slot" where
  "lookup E name [] free = Inr free"
| "lookup E name (s # ss) free =
     (if E s ! 0 = 0 then Inl (case free of None \<Rightarrow> Slot_Free (fst s) (snd s) | Some (n, k) \<Rightarrow> Slot_Free n k)
      else if deleted (E s) then lookup E name ss (case free of None \<Rightarrow> Some s | Some f \<Rightarrow> Some f)
      else if take 11 (E s) = name then Inl (Slot_Found (fst s) (snd s) (E s))
      else lookup E name ss free)"

lemma lookup_append:
  "lookup E name (xs @ ys) free = (case lookup E name xs free of Inl r \<Rightarrow> Inl r | Inr f \<Rightarrow> lookup E name ys f)"
  by (induction xs arbitrary: free) auto

lemma lookup_cong: "(\<And>s. s \<in> set ss \<Longrightarrow> E' s = E s) \<Longrightarrow> lookup E' name ss free = lookup E name ss free"
  by (induction ss arbitrary: free) auto

lemma lookup_found:
  "lookup E name ss free = Inl (Slot_Found n off e) \<Longrightarrow>
   (n, off) \<in> set ss \<and> e = E (n, off) \<and> e ! 0 \<noteq> 0 \<and> \<not> deleted e \<and> take 11 e = name"
  by (induction ss arbitrary: free) (auto split: if_splits option.splits)

lemma lookup_free_kept:
  "lookup E name ss (Some (n, k)) = Inl (Slot_Free n' k') \<Longrightarrow> n' = n \<and> k' = k"
  by (induction ss) (auto split: if_splits)

lemma lookup_free:
  "lookup E name ss None = Inl (Slot_Free n off) \<Longrightarrow>
   (n, off) \<in> set ss \<and> (E (n, off) ! 0 = 0 \<or> deleted (E (n, off)))"
proof (induction ss)
  case (Cons s ss)
  then show ?case using lookup_free_kept [of E name ss "fst s" "snd s" n off]
    by (cases s) (auto split: if_splits)
qed simp

text \<open>After an entry is changed but not renamed, and after it is created.\<close>

lemma lookup_update:
  assumes "lookup E name ss free = Inl (Slot_Found n off e)" "e' ! 0 = e ! 0" "e' ! 11 = e ! 11" "take 11 e' = take 11 e"
  shows "lookup (E((n, off) := e')) name ss free = Inl (Slot_Found n off e')"
  using assms
proof (induction ss arbitrary: free)
  case (Cons s ss)
  have e: "e = E (n, off)" "e ! 0 \<noteq> 0" "\<not> deleted e" "take 11 e = name"
    using lookup_found [OF Cons.prems(1)] by auto
  show ?case
  proof (cases "s = (n, off)")
    case True
    then show ?thesis using e Cons.prems(2-4) by (auto simp: deleted_def)
  next
    case False
    then show ?thesis using Cons by (auto split: if_splits option.splits)
  qed
qed simp

lemma lookup_create:
  assumes "lookup E name ss None = Inl (Slot_Free n off)" "e' ! 0 \<noteq> 0" "\<not> deleted e'" "take 11 e' = name"
  shows "lookup (E((n, off) := e')) name ss None = Inl (Slot_Found n off e')"
  using assms(1)
proof (induction ss)
  case (Cons s ss)
  show ?case
  proof (cases "s = (n, off)")
    case True
    then show ?thesis using assms(2-4) by simp
  next
    case False
    then have "E s ! 0 \<noteq> 0 \<and> \<not> deleted (E s)"
      using Cons.prems lookup_free_kept [of E name ss "fst s" "snd s" n off]
      by (cases s) (auto split: if_splits)
    then show ?thesis using False Cons by (auto split: if_splits)
  qed
qed simp

section \<open>Slots on the disk\<close>

lemma scan_entries_lookup:
  "(\<And>off. off \<in> set offs \<Longrightarrow> off + 32 \<le> length (m n)) \<Longrightarrow>
   scan_entries n (m n) name offs free = lookup (slot_entry m) name (map (Pair n) offs) free"
proof (induction offs arbitrary: free)
  case (Cons off offs)
  then have "off + 32 \<le> length (m n)" by simp
  then have "slot_entry m (n, off) ! 0 = m n ! off" "slot_entry m (n, off) ! 11 = m n ! (off + 11)"
    "take 11 (slot_entry m (n, off)) = take 11 (drop off (m n))"
    by (simp_all add: slot_entry_def min_def)
  moreover have "take 32 (drop off (m n)) = slot_entry m (n, off)" by (simp add: slot_entry_def)
  ultimately show ?case using Cons by (auto simp: deleted_def split: option.splits)
qed simp

lemma entry_offset_bound: "off \<in> set entry_offsets \<Longrightarrow> off + 32 \<le> 512"
  by (auto simp: entry_offsets_def)

lemma dir_slots_area:
  assumes "(n, off) \<in> set (dir_slots g ds)"
  shows "\<exists>c \<in> set ds. n \<in> cluster_area g c" "off \<in> set entry_offsets"
  using assms by (auto simp: dir_slots_def cluster_area_def)

lemma slot_entry_poke:
  assumes "length (m n) = 512" "length e = 32" "off \<in> set entry_offsets" "off' \<in> set entry_offsets"
  shows "slot_entry (m(n := poke off e (m n))) (n', off') =
    (if (n', off') = (n, off) then e else slot_entry m (n', off'))"
proof (cases "n' = n")
  case True
  have "off + 32 \<le> 512" "off' + 32 \<le> 512" using assms(3,4) entry_offset_bound by auto
  moreover have "off' = off \<or> off' + 32 \<le> off \<or> off + 32 \<le> off'"
    using assms(3,4) by (auto simp: entry_offsets_def)
  ultimately show ?thesis using True assms(1,2)
    by (auto simp: slot_entry_def nth_poke intro!: nth_equalityI)
qed (simp add: slot_entry_def)

section \<open>Paths\<close>

text \<open>
  The directories on the way of \<open>resolve_parent\<close>: \<open>dss\<close> lists the chains of those it looks in.
\<close>

fun dir_path :: "fat32_state \<Rightarrow> disk \<Rightarrow> bytes \<Rightarrow> bytes \<Rightarrow> nat \<Rightarrow> nat list list \<Rightarrow> nat \<Rightarrow> bytes \<Rightarrow> bool" where
  "dir_path g m component cursor c [] parent leaf \<longleftrightarrow>
     next_path_component cursor = Path_End \<and> component_to_short_name component = Some leaf \<and> parent = c"
| "dir_path g m component cursor c (ds # dss) parent leaf \<longleftrightarrow>
     (case (next_path_component cursor, component_to_short_name component) of
        (Path_Component following rest, Some name) \<Rightarrow>
          chain g (fat g m) c ds \<and> length ds \<le> 4097
          \<and> (case lookup (slot_entry m) name (dir_slots g ds) None of
               Inl (Slot_Found _ _ e) \<Rightarrow> is_directory_entry e \<and> 2 \<le> entry_cluster e
                 \<and> dir_path g m following (dropWhile (\<lambda>c. c = sep) rest) (entry_cluster e) dss parent leaf
             | _ \<Rightarrow> False)
      | _ \<Rightarrow> False)"

definition path_to :: "fat32_state \<Rightarrow> disk \<Rightarrow> bytes \<Rightarrow> nat list list \<Rightarrow> nat \<Rightarrow> bytes \<Rightarrow> bool" where
  "path_to g m path dss parent leaf \<longleftrightarrow>
     (case next_path_component path of
        Path_Component component cursor \<Rightarrow>
          2 \<le> length path \<and> hd path = sep \<and> dir_path g m component cursor (root_cluster g) dss parent leaf
      | _ \<Rightarrow> False)"

text \<open>A change elsewhere on the disk leaves a directory and a path as they were.\<close>

definition same_dir :: "fat32_state \<Rightarrow> disk \<Rightarrow> disk \<Rightarrow> nat list \<Rightarrow> bool" where
  "same_dir g m m' ds \<longleftrightarrow> (\<forall>c \<in> set ds. fat g m' c = fat g m c \<and> (\<forall>n \<in> cluster_area g c. m' n = m n))"

lemma same_dir_lookup:
  assumes "same_dir g m m' ds"
  shows "lookup (slot_entry m') name (dir_slots g ds) free = lookup (slot_entry m) name (dir_slots g ds) free"
proof (rule lookup_cong)
  fix s assume "s \<in> set (dir_slots g ds)"
  then show "slot_entry m' s = slot_entry m s"
    using dir_slots_area(1) [of "fst s" "snd s" g ds] assms by (auto simp: slot_entry_def same_dir_def)
qed

lemma same_dir_chain: "same_dir g m m' ds \<Longrightarrow> chain g (fat g m') c ds = chain g (fat g m) c ds"
  by (rule chain_cong) (simp add: same_dir_def)

lemma dir_path_same:
  assumes "\<forall>ds \<in> set dss. same_dir g m m' ds"
  shows "dir_path g m' component cursor c dss parent leaf = dir_path g m component cursor c dss parent leaf"
  using assms
proof (induction dss arbitrary: component cursor c)
  case (Cons ds dss)
  then have "same_dir g m m' ds" and
    ih: "dir_path g m' component cursor c dss parent leaf = dir_path g m component cursor c dss parent leaf"
    for component cursor c by auto
  from this(1) show ?case
    by (auto simp: same_dir_lookup same_dir_chain ih split: path_step.splits option.splits sum.splits slot_search.splits)
qed simp

lemma path_to_same:
  "\<forall>ds \<in> set dss. same_dir g m m' ds \<Longrightarrow> path_to g m' path dss parent leaf = path_to g m path dss parent leaf"
  by (simp add: path_to_def dir_path_same split: path_step.splits)

context block_device
begin

lemma yields_scan_sectors:
  assumes "sound_disk N m" "\<forall>n \<in> set ns. n < N"
  shows "gets (scan_sectors io name ns free) m
    (lookup (slot_entry m) name (concat (map (\<lambda>n. map (Pair n) entry_offsets) ns)) free)"
  using assms(2)
proof (induction ns arbitrary: free)
  case (Cons n ns)
  have "length (m n) = 512" using assms(1) Cons.prems by (simp add: sound_disk_def)
  then have scan: "scan_entries n (m n) name entry_offsets free =
      lookup (slot_entry m) name (map (Pair n) entry_offsets) free"
    using entry_offset_bound by (intro scan_entries_lookup) simp
  have "gets (case scan_entries n (m n) name entry_offsets free of Inl r \<Rightarrow> ret (Inl r)
      | Inr free \<Rightarrow> scan_sectors io name ns free) m
    (lookup (slot_entry m) name (concat (map (\<lambda>n. map (Pair n) entry_offsets) (n # ns))) free)"
    using Cons by (simp add: scan lookup_append split: sum.split)
  then show ?case using Cons.prems unfolding scan_sectors.simps by (intro yields_bind [OF yields_read]) auto
qed simp

lemma cluster_sectors_range:
  "geom N g \<Longrightarrow> in_volume g c \<Longrightarrow>
   cluster_sectors g c = [first_sector g c..<first_sector g c + sectors_per_cluster g]"
  using cluster_fits [of N g c]
  by (auto simp: cluster_sectors_def cluster_sector geom_def intro!: nth_equalityI)

lemma scan_clusters_lookup:
  assumes "geom N g" "sound_disk N m"
  shows "chain g (fat g m) c ds \<Longrightarrow> length ds \<le> Suc left \<Longrightarrow>
    wp (scan_clusters io g name left c free) m (\<lambda>r m'. m' = m \<and>
      r = (case lookup (slot_entry m) name (dir_slots g ds) free of Inl r \<Rightarrow> Done r | Inr _ \<Rightarrow> Failed))"
proof (induction ds arbitrary: c left free)
  case Nil
  then show ?case by (subst scan_clusters.simps) (simp add: dir_slots_def wp_failr)
next
  case (Cons x xs)
  have x: "c = x" "in_volume g x" "chain g (fat g m) (fat g m x) xs" using Cons.prems(1) by simp_all
  let ?here = "concat (map (\<lambda>n. map (Pair n) entry_offsets) (cluster_sectors g x))"
  have split: "dir_slots g (x # xs) = ?here @ dir_slots g xs"
    by (simp add: dir_slots_def cluster_sectors_range [OF assms(1) x(2)])
  have here: "gets (scan_sectors io name (cluster_sectors g x) free) m (lookup (slot_entry m) name ?here free)"
    using cluster_fits [OF assms(1) x(2)]
    by (intro yields_scan_sectors assms) (auto simp: cluster_sectors_range [OF assms(1) x(2)])
  define P where "P = (\<lambda>r m'. m' = m \<and>
      r = (case lookup (slot_entry m) name (dir_slots g (x # xs)) free of Inl r \<Rightarrow> Done r | Inr _ \<Rightarrow> Failed))"
  have go: "wp (case lookup (slot_entry m) name ?here free of Inl found \<Rightarrow> ret found
      | Inr free \<Rightarrow> bindr (read_fat_entry io g x) (\<lambda>e.
          case left of 0 \<Rightarrow> failr | Suc left \<Rightarrow> scan_clusters io g name left e free)) m P"
  proof (cases "lookup (slot_entry m) name ?here free")
    case (Inl r)
    then show ?thesis by (simp add: P_def split lookup_append wp_ret)
  next
    case (Inr free')
    have "wp (case left of 0 \<Rightarrow> failr | Suc left \<Rightarrow> scan_clusters io g name left (fat g m x) free') m P"
    proof (cases left)
      case 0
      then have "xs = []" using Cons.prems(2) by simp
      then have "dir_slots g (x # xs) = ?here" using split by (simp add: dir_slots_def)
      then show ?thesis using 0 Inr by (simp add: P_def wp_failr)
    next
      case (Suc l)
      then have "wp (scan_clusters io g name l (fat g m x) free') m (\<lambda>r m'. m' = m \<and>
          r = (case lookup (slot_entry m) name (dir_slots g xs) free' of Inl r \<Rightarrow> Done r | Inr _ \<Rightarrow> Failed))"
        using x(3) Cons.prems(2) by (intro Cons.IH) auto
      then show ?thesis using Suc Inr by (simp add: P_def split lookup_append)
    qed
    then show ?thesis using Inr by (simp add: wp_bind_yields [OF yields_fat [OF assms(1) x(2)]])
  qed
  show ?case unfolding x(1) P_def [symmetric] scan_clusters.simps [of io g name left x] if_P [OF in_volume_data [OF assms(1) x(2)]]
    by (rule wp_bind_yields [OF here]) (rule go)
qed

lemma wp_yields: "wp f m (\<lambda>r m'. m' = m \<and> r = Done x) \<Longrightarrow> gets f m x"
  unfolding gets_def returns_def by (erule wp_weaken) auto

lemma yields_find:
  assumes "geom N g" "sound_disk N m" "chain g (fat g m) c ds" "length ds \<le> 4097"
    and "lookup (slot_entry m) name (dir_slots g ds) None = Inl r"
  shows "gets (find_entry_in_directory io g c name) m r"
  unfolding find_entry_in_directory_def
  using scan_clusters_lookup [OF assms(1-3), of 4096 name None] assms(4,5) by (intro wp_yields) simp

lemma yields_enter:
  assumes "geom N g" "sound_disk N m" "chain g (fat g m) c ds" "length ds \<le> 4097"
    and "component_to_short_name component = Some name"
    and "lookup (slot_entry m) name (dir_slots g ds) None = Inl (Slot_Found n off e)"
    and "is_directory_entry e" "2 \<le> entry_cluster e"
  shows "gets (enter_directory io g c component) m (entry_cluster e)"
  unfolding enter_directory_def using assms
  by (simp add: yields_bind [OF yields_find])

lemma yields_resolve_parent:
  assumes "geom N g" "sound_disk N m"
  shows "dir_path g m component cursor c dss parent leaf \<Longrightarrow>
    gets (resolve_parent io g component cursor c) m (parent, leaf)"
proof (induction dss arbitrary: component cursor c)
  case Nil
  then show ?case by (subst resolve_parent.simps) simp
next
  case (Cons ds dss)
  then obtain following rest name n off e where
    step: "next_path_component cursor = Path_Component following rest" "component_to_short_name component = Some name"
      "chain g (fat g m) c ds" "length ds \<le> 4097"
      "lookup (slot_entry m) name (dir_slots g ds) None = Inl (Slot_Found n off e)"
      "is_directory_entry e" "2 \<le> entry_cluster e"
      "dir_path g m following (dropWhile (\<lambda>c. c = sep) rest) (entry_cluster e) dss parent leaf"
    by (auto split: path_step.splits option.splits sum.splits slot_search.splits)
  show ?case
    by (subst resolve_parent.simps)
      (simp add: step(1) yields_bind [OF yields_enter [OF assms step(3,4,2,5-7)]] Cons.IH [OF step(8)])
qed

lemma yields_path:
  "geom N g \<Longrightarrow> sound_disk N m \<Longrightarrow> path_to g m path dss parent leaf \<Longrightarrow>
   gets (resolve_parent_and_leaf io g path) m (parent, leaf)"
  by (cases path rule: remdups_adj.cases)
    (auto simp: path_to_def resolve_parent_and_leaf_def yields_resolve_parent split: path_step.splits)

end

end
