(* ===== verification/Fat32_Calls.thy ===== *)
theory Fat32_Calls
  imports Fat32_Dir
begin

text \<open>
  Whole calls of the driver on a volume that holds a file: reading, overwriting, appending, creating and
  removing it, and what these calls leave alone.
\<close>

section \<open>A file on a volume\<close>

text \<open>
  \<open>path\<close> leads through the directories \<open>dss\<close> to the directory with the clusters \<open>ds\<close>, where slot \<open>s\<close> holds
  the entry \<open>e\<close> of a file with the clusters \<open>cs\<close> and the contents \<open>data\<close>.
\<close>

definition leads_to :: "fat32_state \<Rightarrow> disk \<Rightarrow> bytes \<Rightarrow> nat list list \<Rightarrow> nat list \<Rightarrow> nat \<Rightarrow> bytes \<Rightarrow> bool" where
  "leads_to g m path dss ds parent leaf \<longleftrightarrow>
     path_to g m path dss parent leaf \<and> chain g (fat g m) parent ds \<and> length ds \<le> 4097"

definition holds_file ::
    "fat32_state \<Rightarrow> disk \<Rightarrow> bytes \<Rightarrow> nat list list \<Rightarrow> nat list \<Rightarrow> slot \<Rightarrow> bytes \<Rightarrow> nat list \<Rightarrow> bytes \<Rightarrow> bool" where
  "holds_file g m path dss ds s e cs data \<longleftrightarrow>
     (\<exists>parent leaf. leads_to g m path dss ds parent leaf
        \<and> lookup (slot_entry m) leaf (dir_slots g ds) None = Inl (Slot_Found (fst s) (snd s) e))
     \<and> \<not> is_directory_entry e \<and> file_at g m e cs data \<and> (\<forall>x \<in> set (ds # dss). set x \<inter> set cs = {})"

text \<open>The clusters of the directories a path goes through are a chain each.\<close>

lemma dir_path_chains: "dir_path g m component cursor c dss parent leaf \<Longrightarrow> ds \<in> set dss \<Longrightarrow> \<exists>c. chain g (fat g m) c ds"
proof (induction dss arbitrary: component cursor c)
  case (Cons d dss)
  then show ?case by (auto split: path_step.splits option.splits sum.splits slot_search.splits)
qed simp

lemma leads_to_chains:
  "leads_to g m path dss ds parent leaf \<Longrightarrow> x \<in> set (ds # dss) \<Longrightarrow> \<exists>c. chain g (fat g m) c x"
  using dir_path_chains by (auto simp: leads_to_def path_to_def split: path_step.splits)

section \<open>A slot rewritten in place\<close>

lemma lookup_rewrite:
  assumes "e' ! 0 = E s ! 0" "e' ! 11 = E s ! 11" "take 11 e' = take 11 (E s)"
  shows "lookup (E(s := e')) name ss free =
    (case lookup E name ss free of
       Inl (Slot_Found n off e) \<Rightarrow> Inl (Slot_Found n off (if (n, off) = s then e' else e))
     | r \<Rightarrow> r)"
proof (induction ss arbitrary: free)
  case (Cons t ss)
  show ?case using assms Cons by (cases "t = s") (auto simp: deleted_def split: option.splits)
qed simp

text \<open>
  The effect of \<open>written\<close> on a directory that shares no cluster with the file: only the slot changes.
\<close>

lemma written_slot:
  assumes w: "written N g m m' n off e cs data e' cs'" and g: "geom N g" and m: "sound_disk N m"
    and off: "off \<in> set entry_offsets"
    and c: "chain g (fat g m) c ds" and apart: "set ds \<inter> set cs = {}" and s: "s \<in> set (dir_slots g ds)"
  shows "slot_entry m' s = (if s = (n, off) then e' else slot_entry m s)"
proof -
  obtain n' off' where s': "s = (n', off')" by (cases s)
  from dir_slots_area [of n' off' g ds] s s' obtain x where
    x: "x \<in> set ds" "n' \<in> cluster_area g x" and off': "off' \<in> set entry_offsets" by auto
  have vol: "in_volume g x" using c x(1) by (rule chain_in_volume)
  have "x \<notin> set cs'" using w apart chain_apart_free [OF c] x(1) by (auto simp: written_def)
  moreover have "in_volume g y" if "y \<in> set cs'" for y
    using w that chain_in_volume [of g "fat g m'" "entry_cluster e'" cs' y]
    by (cases "cs' = []") (auto simp: written_def file_at_def)
  ultimately have "n' \<notin> clusters_area g cs'"
    using clusters_apart [of cs' g x] vol x(2) by auto
  moreover have "n' \<notin> fat_area g" using fat_apart [OF g, of n' x] x(2) by auto
  ultimately have other: "n' \<noteq> n \<Longrightarrow> m' n' = m n'" using w by (auto simp: written_def agree_def)
  show ?thesis
  proof (cases "n' = n")
    case True
    have "n < N" using cluster_area_fits [OF g vol] x(2) True by simp
    then have len: "length (m n) = 512" using m by (simp add: sound_disk_def)
    have "length e' = 32" using w by (simp add: written_def file_at_def)
    then have "slot_entry (m(n := poke off e' (m n))) (n, off') =
        (if (n, off') = (n, off) then e' else slot_entry m (n, off'))"
      using slot_entry_poke [of m n, OF len _ off off'] by blast
    moreover have "slot_entry m' (n, off') = slot_entry (m(n := poke off e' (m n))) (n, off')"
      using w by (simp add: slot_entry_def written_def)
    ultimately show ?thesis using True s' by simp
  qed (use other in \<open>simp add: s' slot_entry_def\<close>)
qed

lemma written_fat:
  assumes "written N g m m' n off e cs data e' cs'" "chain g (fat g m) c ds" "set ds \<inter> set cs = {}" "x \<in> set ds"
  shows "fat g m' x = fat g m x"
  using assms chain_apart_free [OF assms(2)] by (auto simp: written_def)

lemma nth_of_take: "take 20 a = take 20 b \<Longrightarrow> i < 20 \<Longrightarrow> a ! i = b ! (i :: nat)"
  by (metis nth_take)

lemma written_lookup:
  assumes "written N g m m' n off e cs data e' cs'" "geom N g" "sound_disk N m" "off \<in> set entry_offsets"
    and "chain g (fat g m) c ds" "set ds \<inter> set cs = {}" "slot_entry m (n, off) = e"
  shows "lookup (slot_entry m') name (dir_slots g ds) free =
    (case lookup (slot_entry m) name (dir_slots g ds) free of
       Inl (Slot_Found n1 off1 x) \<Rightarrow> Inl (Slot_Found n1 off1 (if (n1, off1) = (n, off) then e' else x))
     | r \<Rightarrow> r)"
proof -
  have "lookup (slot_entry m') name (dir_slots g ds) free =
      lookup ((slot_entry m)((n, off) := e')) name (dir_slots g ds) free"
    using written_slot [OF assms(1-6)] by (intro lookup_cong) simp
  moreover have t: "take 20 e' = take 20 e" using assms(1) by (simp add: written_def)
  have "take 11 (take 20 e') = take 11 (take 20 e)" using t by simp
  then have "take 11 e' = take 11 e" by (simp add: min_def)
  ultimately show ?thesis
    using lookup_rewrite [of e' "slot_entry m" "(n, off)"] nth_of_take [OF t] assms(7) by simp
qed

lemma written_path:
  assumes "written N g m m' n off e cs data e' cs'" "geom N g" "sound_disk N m" "off \<in> set entry_offsets"
    and "slot_entry m (n, off) = e" "\<not> is_directory_entry e"
  shows "dir_path g m component cursor c dss parent leaf \<Longrightarrow> \<forall>x \<in> set dss. set x \<inter> set cs = {} \<Longrightarrow>
    dir_path g m' component cursor c dss parent leaf"
proof (induction dss arbitrary: component cursor c)
  case (Cons ds dss)
  then obtain following rest name n1 off1 x where
    step: "next_path_component cursor = Path_Component following rest" "component_to_short_name component = Some name"
      "chain g (fat g m) c ds" "length ds \<le> 4097"
      "lookup (slot_entry m) name (dir_slots g ds) None = Inl (Slot_Found n1 off1 x)"
      "is_directory_entry x" "2 \<le> entry_cluster x"
      "dir_path g m following (dropWhile (\<lambda>c. c = sep) rest) (entry_cluster x) dss parent leaf"
    by (auto split: path_step.splits option.splits sum.splits slot_search.splits)
  have apart: "set ds \<inter> set cs = {}" using Cons.prems(2) by simp
  have "x = slot_entry m (n1, off1)" using lookup_found [OF step(5)] by simp
  then have "(n1, off1) \<noteq> (n, off)" using assms(5,6) step(6) by auto
  then have "lookup (slot_entry m') name (dir_slots g ds) None = Inl (Slot_Found n1 off1 x)"
    using written_lookup [OF assms(1-4) step(3) apart assms(5)] step(5) by auto
  moreover have "chain g (fat g m') c ds"
    using chain_cong [of ds "fat g m'" "fat g m"] written_fat [OF assms(1) step(3) apart] step(3) by simp
  moreover have "dir_path g m' following (dropWhile (\<lambda>c. c = sep) rest) (entry_cluster x) dss parent leaf"
    using Cons.prems(2) by (intro Cons.IH step(8)) simp
  ultimately show ?case using step by simp
qed simp

lemma written_leads:
  assumes "written N g m m' n off e cs data e' cs'" "geom N g" "sound_disk N m" "off \<in> set entry_offsets"
    and "slot_entry m (n, off) = e" "\<not> is_directory_entry e"
    and "leads_to g m path dss ds parent leaf" "\<forall>x \<in> set (ds # dss). set x \<inter> set cs = {}"
  shows "leads_to g m' path dss ds parent leaf"
proof -
  have "path_to g m' path dss parent leaf"
    using assms(7,8) written_path [OF assms(1-6)] by (auto simp: leads_to_def path_to_def split: path_step.splits)
  moreover have "chain g (fat g m) parent ds" using assms(7) by (simp add: leads_to_def)
  then have "chain g (fat g m') parent ds"
    using chain_cong [of ds "fat g m'" "fat g m"] written_fat [OF assms(1)] assms(8) by auto
  ultimately show ?thesis using assms(7) by (simp add: leads_to_def)
qed

text \<open>The file itself and every other file afterwards.\<close>

lemma written_holds:
  assumes "geom N g" "sound_disk N m" "holds_file g m path dss ds (n, off) e cs old"
    and "written N g m m' n off e cs data e' cs'"
  shows "holds_file g m' path dss ds (n, off) e' cs' data"
proof -
  from assms(3) obtain parent leaf where l: "leads_to g m path dss ds parent leaf"
    "lookup (slot_entry m) leaf (dir_slots g ds) None = Inl (Slot_Found n off e)"
    by (auto simp: holds_file_def)
  have d: "\<not> is_directory_entry e" "\<forall>x \<in> set (ds # dss). set x \<inter> set cs = {}"
    using assms(3) by (auto simp: holds_file_def)
  have s: "(n, off) \<in> set (dir_slots g ds)" "slot_entry m (n, off) = e" using lookup_found [OF l(2)] by auto
  have off: "off \<in> set entry_offsets" using dir_slots_area(2) [OF s(1)] .
  have c: "chain g (fat g m) parent ds" using l(1) by (simp add: leads_to_def)
  have "lookup (slot_entry m') leaf (dir_slots g ds) None = Inl (Slot_Found n off e')"
    using written_lookup [OF assms(4,1,2) off c _ s(2)] d(2) l(2) by simp
  moreover have "leads_to g m' path dss ds parent leaf"
    by (rule written_leads [OF assms(4,1,2) off s(2) d(1) l(1) d(2)])
  moreover have "e' ! 11 = e ! 11" using assms(4) nth_of_take [of e' e 11] by (simp add: written_def)
  then have "\<not> is_directory_entry e'" using d(1) by (simp add: is_directory_entry_def attributes_def)
  moreover have "set x \<inter> set cs' = {}" if x: "x \<in> set (ds # dss)" for x
    using leads_to_chains [OF l(1) x] chain_apart_free d(2) x assms(4) by (fastforce simp: written_def)
  ultimately show ?thesis using assms(4) unfolding holds_file_def by (auto simp: written_def)
qed

lemma file_at_same:
  assumes "geom N g" "file_at g m e cs data" "\<And>x. x \<in> set cs \<Longrightarrow> fat g m' x = fat g m x"
    and "agree m m' X" "\<And>x. x \<in> set cs \<Longrightarrow> X \<inter> cluster_area g x = {}"
  shows "file_at g m' e cs data"
proof -
  have "file_data g m' cs = file_data g m cs" using assms(4,5) by (rule file_data_agree)
  then show ?thesis using assms(2,3) chain_cong [of cs "fat g m'" "fat g m"] by (simp add: file_at_def)
qed

lemma written_other:
  assumes "geom N g" "sound_disk N m" "holds_file g m path dss ds (n, off) e cs old"
    and "written N g m m' n off e cs data e' cs'"
    and "holds_file g m path2 dss2 ds2 s2 e2 cs2 data2" "s2 \<noteq> (n, off)" "set cs2 \<inter> set cs = {}"
    and "\<forall>x \<in> set (ds2 # dss2). set x \<inter> set cs = {}" "set cs2 \<inter> set ds = {}"
  shows "holds_file g m' path2 dss2 ds2 s2 e2 cs2 data2"
proof -
  from assms(3) obtain parent leaf where l: "leads_to g m path dss ds parent leaf"
    "lookup (slot_entry m) leaf (dir_slots g ds) None = Inl (Slot_Found n off e)" and d: "\<not> is_directory_entry e"
    by (auto simp: holds_file_def)
  have s: "(n, off) \<in> set (dir_slots g ds)" "slot_entry m (n, off) = e" using lookup_found [OF l(2)] by auto
  have off: "off \<in> set entry_offsets" using dir_slots_area(2) [OF s(1)] .
  from assms(5) obtain parent2 leaf2 where l2: "leads_to g m path2 dss2 ds2 parent2 leaf2"
    "lookup (slot_entry m) leaf2 (dir_slots g ds2) None = Inl (Slot_Found (fst s2) (snd s2) e2)"
    by (auto simp: holds_file_def)
  have c2: "chain g (fat g m) parent2 ds2" using l2(1) by (simp add: leads_to_def)
  have "lookup (slot_entry m') leaf2 (dir_slots g ds2) None = Inl (Slot_Found (fst s2) (snd s2) e2)"
    using written_lookup [OF assms(4,1,2) off c2 _ s(2)] assms(6,8) l2(2) by auto
  moreover have "leads_to g m' path2 dss2 ds2 parent2 leaf2"
    by (rule written_leads [OF assms(4,1,2) off s(2) d l2(1) assms(8)])
  moreover have "file_at g m' e2 cs2 data2"
  proof (rule file_at_same [OF assms(1)])
    show f2: "file_at g m e2 cs2 data2" using assms(5) by (simp add: holds_file_def)
    show "agree m m' (fat_area g \<union> clusters_area g cs' \<union> {n})" using assms(4) by (simp add: written_def)
    fix x assume x: "x \<in> set cs2"
    then have c: "chain g (fat g m) (entry_cluster e2) cs2" using f2 by (cases cs2) (auto simp: file_at_def)
    have x': "x \<notin> set cs'" using assms(4,7) chain_apart_free [OF c] x by (auto simp: written_def)
    then show "fat g m' x = fat g m x" using assms(4,7) x by (auto simp: written_def)
    have vol: "in_volume g x" using c x by (rule chain_in_volume)
    have vol': "in_volume g y" if "y \<in> set cs'" for y
      using assms(4) that chain_in_volume [of g "fat g m'" "entry_cluster e'" cs' y]
      by (cases "cs' = []") (auto simp: written_def file_at_def)
    obtain z where z: "z \<in> set ds" "n \<in> cluster_area g z" using dir_slots_area(1) [OF s(1)] by blast
    have "in_volume g z" using l(1) z(1) chain_in_volume [of g "fat g m" parent ds] by (simp add: leads_to_def)
    moreover have "z \<noteq> x" using z(1) x assms(9) by auto
    ultimately have "n \<notin> cluster_area g x" using cluster_apart [of g z x] vol z(2) by auto
    then show "(fat_area g \<union> clusters_area g cs' \<union> {n}) \<inter> cluster_area g x = {}"
      using clusters_apart [of cs' g x] vol vol' x' fat_apart [OF assms(1)] by auto
  qed
  ultimately show ?thesis using assms(5) unfolding holds_file_def by blast
qed

lemma holds_slot_ok:
  assumes "geom N g" "holds_file g m path dss ds (n, off) e cs data"
  shows "slot_ok N g m cs n off"
proof -
  from assms(2) obtain parent leaf where l: "leads_to g m path dss ds parent leaf"
    "lookup (slot_entry m) leaf (dir_slots g ds) None = Inl (Slot_Found n off e)"
    by (auto simp: holds_file_def)
  have s: "(n, off) \<in> set (dir_slots g ds)" using lookup_found [OF l(2)] by auto
  obtain z where z: "z \<in> set ds" "n \<in> cluster_area g z" using dir_slots_area(1) [OF s] by blast
  have c: "chain g (fat g m) parent ds" using l(1) by (simp add: leads_to_def)
  have vz: "in_volume g z" using c z(1) by (rule chain_in_volume)
  have "n \<notin> cluster_area g x" if x: "x \<in> set cs \<union> free_clusters g m" for x
  proof -
    have "in_volume g x"
      using x assms(2) chain_in_volume [of g "fat g m" "entry_cluster e" cs x]
      by (cases "cs = []") (auto simp: holds_file_def file_at_def free_clusters_def)
    moreover have "x \<noteq> z" using x z(1) assms(2) chain_apart_free [OF c] by (auto simp: holds_file_def)
    ultimately show ?thesis using cluster_apart [of g x z] vz z(2) by auto
  qed
  moreover have "n \<notin> fat_area g" using fat_apart [OF assms(1)] z(2) by blast
  moreover have "n < N" using cluster_area_fits [OF assms(1) vz z(2)] .
  moreover have "off + 32 \<le> 512" using entry_offset_bound [OF dir_slots_area(2) [OF s]] .
  ultimately show ?thesis by (simp add: slot_ok_def)
qed

section \<open>A new entry\<close>

lemma short_name_length: "component_to_short_name component = Some leaf \<Longrightarrow> length leaf = 11"
  by (auto simp: component_to_short_name_def pad_name_def Let_def split: if_splits)

lemma put_zero:
  "off + 2 \<le> length b \<Longrightarrow> b ! off = 0 \<Longrightarrow> b ! (off + 1) = 0 \<Longrightarrow> put_u16 off 0 b = b"
  by (rule nth_equalityI) (auto simp: put_u16_def nth_poke le_of_u16_def nth_Cons' less_Suc_eq)

lemma put_zero4:
  assumes "off + 4 \<le> length b" "\<forall>i < 4. b ! (off + i) = 0"
  shows "put_u32 off 0 b = b"
proof (rule nth_equalityI)
  fix i assume i: "i < length (put_u32 off 0 b)"
  have "le_of_u32 0 ! k = 0" if "k < 4" for k using that by (auto simp: le_of_u32_def less_Suc_eq numeral_eq_Suc)
  moreover have "b ! i = 0" if "off \<le> i" "i < off + 4" using assms(2) that by (metis le_add_diff_inverse nat_add_left_cancel_less)
  ultimately show "put_u32 off 0 b ! i = b ! i" using assms(1) i by (auto simp: put_u32_def nth_poke)
qed (use assms in simp)

lemma new_entry_fields:
  assumes "length leaf = 11"
  shows "length (new_entry leaf a 0 0) = 32" "take 11 (new_entry leaf a 0 0) = leaf"
    "new_entry leaf a 0 0 ! 0 = leaf ! 0" "new_entry leaf a 0 0 ! 11 = a"
    "u32_at (new_entry leaf a 0 0) 28 = 0" "entry_cluster (new_entry leaf a 0 0) = 0"
proof -
  have b: "poke 11 [a] (poke 0 leaf (replicate 32 0)) = leaf @ [a] @ replicate 20 0"
    using assms by (intro nth_equalityI) (auto simp: nth_poke nth_append nth_Cons')
  have e: "new_entry leaf a 0 0 = leaf @ [a] @ replicate 20 0"
    unfolding new_entry_def set_entry_cluster_def b
    using assms by (simp add: put_zero put_zero4 nth_append nth_Cons')
  show "length (new_entry leaf a 0 0) = 32" "take 11 (new_entry leaf a 0 0) = leaf"
    "new_entry leaf a 0 0 ! 0 = leaf ! 0" "new_entry leaf a 0 0 ! 11 = a"
    using assms by (simp_all add: e nth_append)
  show "u32_at (new_entry leaf a 0 0) 28 = 0" "entry_cluster (new_entry leaf a 0 0) = 0"
    using assms by (simp_all add: e u32_at_def u16_at_def entry_cluster_def nth_append nth_Cons'
        u32_of_le_def u16_of_le_def)
qed

text \<open>The path ends at no entry of that name; \<open>(n, off)\<close> is the slot a new one takes.\<close>

definition lacks_file ::
    "fat32_state \<Rightarrow> disk \<Rightarrow> bytes \<Rightarrow> nat list list \<Rightarrow> nat list \<Rightarrow> slot \<Rightarrow> bytes \<Rightarrow> bool" where
  "lacks_file g m path dss ds s leaf \<longleftrightarrow>
     (\<exists>parent. leads_to g m path dss ds parent leaf
        \<and> lookup (slot_entry m) leaf (dir_slots g ds) None = Inl (Slot_Free (fst s) (snd s)))
     \<and> length leaf = 11 \<and> leaf ! 0 \<noteq> 0 \<and> leaf ! 0 \<noteq> 0xE5 \<and> (\<forall>x \<in> set dss. set x \<inter> set ds = {})"

lemma created_holds:
  assumes "geom N g" "sound_disk N m" "lacks_file g m path dss ds (n, off) leaf"
    and m1: "m1 = m(n := poke off (new_entry leaf 0x20 0 0) (m n))"
  shows "holds_file g m1 path dss ds (n, off) (new_entry leaf 0x20 0 0) [] []"
    "sound_disk N m1" "fat g m1 = fat g m" "n < N" "off + 32 \<le> 512"
proof -
  let ?e = "new_entry leaf 0x20 0 0"
  from assms(3) obtain parent where l: "leads_to g m path dss ds parent leaf"
    "lookup (slot_entry m) leaf (dir_slots g ds) None = Inl (Slot_Free n off)"
    by (auto simp: lacks_file_def)
  have leaf: "length leaf = 11" "leaf ! 0 \<noteq> 0" "leaf ! 0 \<noteq> 0xE5" using assms(3) by (auto simp: lacks_file_def)
  have s: "(n, off) \<in> set (dir_slots g ds)" using lookup_free [OF l(2)] by auto
  have off: "off \<in> set entry_offsets" using dir_slots_area(2) [OF s] .
  then show off32: "off + 32 \<le> 512" by (rule entry_offset_bound)
  obtain z where z: "z \<in> set ds" "n \<in> cluster_area g z" using dir_slots_area(1) [OF s] by blast
  have c: "chain g (fat g m) parent ds" using l(1) by (simp add: leads_to_def)
  have vz: "in_volume g z" using c z(1) by (rule chain_in_volume)
  show n: "n < N" using cluster_area_fits [OF assms(1) vz z(2)] .
  have len: "length (m n) = 512" using assms(2) n by (simp add: sound_disk_def)
  show "sound_disk N m1" using assms(2) len off32 new_entry_fields(1) [OF leaf(1)] by (simp add: m1 sound_disk_def)
  have one: "agree m m1 {n}" by (simp add: m1 agree_def)
  show fat1: "fat g m1 = fat g m"
    using fat_apart [OF assms(1)] z(2) by (intro fat_agree [OF assms(1) one]) blast
  have "slot_entry m1 t = ((slot_entry m)((n, off) := ?e)) t" if "t \<in> set (dir_slots g ds)" for t
    using slot_entry_poke [of m n ?e off "snd t" "fst t", OF len new_entry_fields(1) [OF leaf(1)] off]
      dir_slots_area(2) [of "fst t" "snd t" g ds] that by (cases t) (auto simp: m1)
  then have "lookup (slot_entry m1) leaf (dir_slots g ds) None =
      lookup ((slot_entry m)((n, off) := ?e)) leaf (dir_slots g ds) None"
    by (rule lookup_cong)
  also have "\<dots> = Inl (Slot_Found n off ?e)"
  proof (rule lookup_create [OF l(2)])
    show "?e ! 0 \<noteq> 0" "take 11 ?e = leaf" using new_entry_fields [OF leaf(1)] leaf by simp_all
    show "\<not> deleted ?e" using new_entry_fields [OF leaf(1)] leaf by (simp add: deleted_def FAT32_ATTR_LFN_def)
  qed
  finally have found: "lookup (slot_entry m1) leaf (dir_slots g ds) None = Inl (Slot_Found n off ?e)" .
  have same: "same_dir g m m1 x" if x: "x \<in> set dss" for x
  proof -
    obtain c' where c': "chain g (fat g m) c' x" using leads_to_chains [OF l(1)] x by auto
    have "n \<notin> cluster_area g y" if "y \<in> set x" for y
    proof -
      have "y \<noteq> z" using that z(1) x assms(3) by (auto simp: lacks_file_def)
      then show ?thesis using cluster_apart [of g y z] chain_in_volume [OF c' that] vz z(2) by auto
    qed
    then show ?thesis using fat1 by (auto simp: same_dir_def m1 [symmetric]) (auto simp: m1)
  qed
  then have "path_to g m1 path dss parent leaf = path_to g m path dss parent leaf"
    by (intro path_to_same) blast
  then have "leads_to g m1 path dss ds parent leaf" using l(1) by (simp add: leads_to_def fat1)
  moreover have "\<not> is_directory_entry ?e"
    using new_entry_fields(4) [OF leaf(1)] by (simp add: is_directory_entry_def attributes_def FAT32_ATTR_DIRECTORY_def)
  moreover have "file_at g m1 ?e [] []"
    using new_entry_fields [OF leaf(1)] clusters_for_bounds(2) [OF cluster_bytes_pos(1) [OF assms(1)], of 0]
    by (simp add: file_at_def is_data_cluster_def)
  ultimately show "holds_file g m1 path dss ds (n, off) ?e [] []"
    using found unfolding holds_file_def by auto
qed

section \<open>The calls\<close>

context block_device
begin

lemma yields_found:
  assumes "geom N g" "sound_disk N m" "leads_to g m path dss ds parent leaf"
    and "lookup (slot_entry m) leaf (dir_slots g ds) None = Inl r"
  shows "gets (resolve_parent_and_leaf io g path) m (parent, leaf)"
    "gets (find_entry_in_directory io g parent leaf) m r"
  using assms yields_path yields_find by (auto simp: leads_to_def)

lemma yields_read_file:
  assumes "geom N g" "sound_disk N m" "holds_file g m path dss ds s e cs data" "length data < capacity"
  shows "gets (fat32_read_file io g path capacity) m data"
proof -
  from assms(3) obtain parent leaf where l: "leads_to g m path dss ds parent leaf"
    "lookup (slot_entry m) leaf (dir_slots g ds) None = Inl (Slot_Found (fst s) (snd s) e)"
    and e: "\<not> is_directory_entry e" "file_at g m e cs data" by (auto simp: holds_file_def)
  have "mounted g" "capacity \<noteq> 0" using assms(1,4) by (auto simp: geom_def)
  then show ?thesis unfolding fat32_read_file_def
    using file_read [OF assms(1,2) e(2) assms(4)] e(1)
    by (simp add: yields_bind [OF yields_found(1) [OF assms(1,2) l]] yields_bind [OF yields_found(2) [OF assms(1,2) l]])
qed

lemma write_file_found:
  assumes "geom N g" "sound_disk N m" "holds_file g m path dss ds (n, off) e cs data"
    and "gives (write_contents io g (n, off, e) buf app) m P"
  shows "gives (fat32_write_file io g path buf app) m P"
proof -
  from assms(3) obtain parent leaf where l: "leads_to g m path dss ds parent leaf"
    "lookup (slot_entry m) leaf (dir_slots g ds) None = Inl (Slot_Found n off e)"
    and e: "\<not> is_directory_entry e" by (auto simp: holds_file_def)
  have "gets (catchr (find_entry_in_directory io g parent leaf) (\<lambda>r. case r of
      Some (Slot_Found n off e) \<Rightarrow> ret (n, off, e)
    | _ \<Rightarrow> bindr (create_entry_in_directory io g parent leaf 0x20 0 0) (\<lambda>_.
           bindr (find_entry_in_directory io g parent leaf) (\<lambda>r.
             case r of Slot_Found n off e \<Rightarrow> ret (n, off, e) | Slot_Free _ _ \<Rightarrow> failr)))) m (n, off, e)"
    by (rule yields_catch [OF yields_found(2) [OF assms(1,2) l]]) simp
  then show ?thesis unfolding fat32_write_file_def
    using assms(1,4) e
    by (simp add: geom_def gives_bind_yields [OF yields_found(1) [OF assms(1,2) l]] gives_bind_yields)
qed

lemma write_file_created:
  assumes "geom N g" "sound_disk N m" "lacks_file g m path dss ds (n, off) leaf"
    and "m1 = m(n := poke off (new_entry leaf 0x20 0 0) (m n))"
    and "gives (write_contents io g (n, off, new_entry leaf 0x20 0 0) buf app) m1 P"
  shows "gives (fat32_write_file io g path buf app) m P"
proof -
  let ?e = "new_entry leaf 0x20 0 0"
  note new = created_holds [OF assms(1-4)]
  from assms(3) obtain parent where l: "leads_to g m path dss ds parent leaf"
    "lookup (slot_entry m) leaf (dir_slots g ds) None = Inl (Slot_Free n off)" and leaf: "length leaf = 11"
    by (auto simp: lacks_file_def)
  from new(1) obtain parent' leaf' where l': "leads_to g m1 path dss ds parent' leaf'"
    "lookup (slot_entry m1) leaf' (dir_slots g ds) None = Inl (Slot_Found n off ?e)"
    and e: "\<not> is_directory_entry ?e" by (auto simp: holds_file_def)
  have "leaf' = leaf" using lookup_found [OF l'(2)] new_entry_fields(2) [OF leaf] by simp
  have "parent' = parent"
    using l(1) l'(1) \<open>leaf' = leaf\<close> lookup_found [OF l'(2)] dir_slots_def
    by (cases ds) (auto simp: leads_to_def)
  have here: "gives (write_directory_entry io n off ?e) m (\<lambda>_ m'. m' = m1)"
    using gives_entry [OF new(4) assms(2), of off ?e] new(5) new_entry_fields(1) [OF leaf] by (simp add: assms(4))
  have create: "gives (create_entry_in_directory io g parent leaf 0x20 0 0) m (\<lambda>_ m'. m' = m1)"
    unfolding create_entry_in_directory_def
    by (rule gives_bind_yields [OF yields_found(2) [OF assms(1,2) l]]) (use here in simp)
  have again: "gets (find_entry_in_directory io g parent leaf) m1 (Slot_Found n off ?e)"
    using yields_found(2) [OF assms(1) new(2) l'] \<open>leaf' = leaf\<close> \<open>parent' = parent\<close> by simp
  have "gives (bindr (create_entry_in_directory io g parent leaf 0x20 0 0) (\<lambda>_.
           bindr (find_entry_in_directory io g parent leaf) (\<lambda>r.
             case r of Slot_Found n off e \<Rightarrow> ret (n, off, e) | Slot_Free _ _ \<Rightarrow> failr))) m
       (\<lambda>r m'. r = (n, off, ?e) \<and> m' = m1)"
  proof (rule gives_bind [OF create])
    fix u m' assume "m' = m1"
    then show "gives (bindr (find_entry_in_directory io g parent leaf) (\<lambda>r.
        case r of Slot_Found n off e \<Rightarrow> ret (n, off, e) | Slot_Free _ _ \<Rightarrow> failr)) m' (\<lambda>r m'. r = (n, off, ?e) \<and> m' = m1)"
      using again by (auto intro!: gives_bind_yields gives_ret)
  qed
  then have "gives (catchr (find_entry_in_directory io g parent leaf) (\<lambda>r. case r of
      Some (Slot_Found n off e) \<Rightarrow> ret (n, off, e)
    | _ \<Rightarrow> bindr (create_entry_in_directory io g parent leaf 0x20 0 0) (\<lambda>_.
           bindr (find_entry_in_directory io g parent leaf) (\<lambda>r.
             case r of Slot_Found n off e \<Rightarrow> ret (n, off, e) | Slot_Free _ _ \<Rightarrow> failr)))) m
       (\<lambda>r m'. r = (n, off, ?e) \<and> m' = m1)"
    by (intro gives_catch_yields [OF yields_found(2) [OF assms(1,2) l]]) simp
  from gives_bind [OF this] have go: "gives (k (n, off, ?e)) m1 Q \<Longrightarrow>
      gives (bindr (catchr (find_entry_in_directory io g parent leaf) (\<lambda>r. case r of
      Some (Slot_Found n off e) \<Rightarrow> ret (n, off, e)
    | _ \<Rightarrow> bindr (create_entry_in_directory io g parent leaf 0x20 0 0) (\<lambda>_.
           bindr (find_entry_in_directory io g parent leaf) (\<lambda>r.
             case r of Slot_Found n off e \<Rightarrow> ret (n, off, e) | Slot_Free _ _ \<Rightarrow> failr)))) k) m Q" for k Q
    by auto
  have "mounted g" using assms(1) by (simp add: geom_def)
  then show ?thesis unfolding fat32_write_file_def
    using assms(5) e
    by (simp add: gives_bind_yields [OF yields_found(1) [OF assms(1,2) l]] go)
qed

end

end
