(* ===== verification/Fat32_Contract.thy ===== *)
theory Fat32_Contract
  imports Fat32_Calls
begin

text \<open>
  What the file calls of the FAT32 driver promise on any device that keeps the contract of the sector
  interface. The last section is a volume of eight sectors on which the theorems are used.
\<close>

section \<open>Removal\<close>

context block_device
begin

lemma yields_path_entry:
  assumes "geom N g" "sound_disk N m" "holds_file g m path dss ds s e cs data"
  shows "\<exists>parent. gets (find_path_entry io g path) m (parent, fst s, snd s, e)"
proof -
  from assms(3) obtain parent leaf where l: "leads_to g m path dss ds parent leaf"
    "lookup (slot_entry m) leaf (dir_slots g ds) None = Inl (Slot_Found (fst s) (snd s) e)"
    by (auto simp: holds_file_def)
  have "gets (find_path_entry io g path) m (parent, fst s, snd s, e)"
    unfolding find_path_entry_def
    by (simp add: yields_bind [OF yields_found(1) [OF assms(1,2) l]] yields_bind [OF yields_found(2) [OF assms(1,2) l]])
  then show ?thesis by blast
qed

lemma gives_remove:
  assumes "geom N g" "sound_disk N m" "holds_file g m path dss ds (n, off) e cs data" "length cs \<le> 4096"
  shows "gives (fat32_remove_file io g path) m (\<lambda>_ m'. sound_disk N m' \<and> agree m m' (fat_area g \<union> {n})
    \<and> m' n = poke off (poke 0 [0xE5] e) (m n) \<and> fat g m' = (\<lambda>c. if c \<in> set cs then 0 else fat g m c))"
    (is "gives _ m ?P")
proof -
  have e: "\<not> is_directory_entry e" "file_at g m e cs data" "length e = 32"
    using assms(3) by (auto simp: holds_file_def file_at_def)
  have s: "n < N" "off + 32 \<le> 512" "n \<notin> fat_area g"
    using holds_slot_ok [OF assms(1,3)] by (auto simp: slot_ok_def)
  obtain parent where p: "gets (find_path_entry io g path) m (parent, n, off, e)"
    using yields_path_entry [OF assms(1-3)] by auto
  have free: "gives (if 2 \<le> entry_cluster e then free_cluster_chain io g (entry_cluster e) else ret ()) m (\<lambda>_ m1.
      sound_disk N m1 \<and> agree m m1 (fat_area g) \<and> fat g m1 = (\<lambda>c. if c \<in> set cs then 0 else fat g m c))"
  proof (cases "cs = []")
    case True
    then have "\<not> is_data_cluster (entry_cluster e)" using e(2) by (simp add: file_at_def)
    then have "free_cluster_chain io g (entry_cluster e) = ret ()"
      unfolding free_cluster_chain_def by (subst free_chain_loop.simps) simp
    then show ?thesis using True assms(2) by (simp add: gives_ret)
  next
    case False
    then have c: "chain g (fat g m) (entry_cluster e) cs" using e(2) by (simp add: file_at_def)
    then have "2 \<le> entry_cluster e" using False by (cases cs) (auto simp: in_volume_def)
    then show ?thesis using gives_free_chain [OF assms(1,2) c assms(4)] by simp
  qed
  have "gives (delete_entry io g (n, off, e)) m ?P"
    unfolding delete_entry_def prod.case
  proof (rule gives_bind [OF free], elim conjE)
    fix u m1
    assume m1: "sound_disk N m1" "agree m m1 (fat_area g)" "fat g m1 = (\<lambda>c. if c \<in> set cs then 0 else fat g m c)"
    have len: "length (poke 0 [0xE5] e) = 32" using e(3) by simp
    show "gives (write_directory_entry io n off (poke 0 [0xE5] e)) m1 ?P"
    proof (rule gives_weaken [OF gives_entry [OF s(1) m1(1)]])
      show "off + length (poke 0 [0xE5] e) \<le> 512" using len s(2) by simp
      fix v m2 assume m2: "m2 = m1(n := poke off (poke 0 [0xE5] e) (m1 n))"
      have "m1 n = m n" using m1(2) s(3) by (simp add: agree_def)
      moreover have "fat g m2 = fat g m1"
        using s(3) by (intro fat_agree [OF assms(1), of m1 m2 "{n}"]) (auto simp: m2 agree_def)
      moreover have "length (m1 n) = 512" using m1(1) s(1) by (simp add: sound_disk_def)
      then have "sound_disk N m2" using m1(1) len s(2) by (simp add: m2 sound_disk_def)
      ultimately show "?P v m2" using m1 m2 by (auto simp: agree_def)
    qed
  qed
  then show ?thesis unfolding fat32_remove_file_def
    using assms(1) e(1) by (simp add: geom_def gives_bind_yields [OF p])
qed

lemma remove_long:
  assumes "geom N g" "sound_disk N m" "holds_file g m path dss ds (n, off) e cs data" "4096 < length cs"
  shows "wp (fat32_remove_file io g path) m (\<lambda>r m'. r = Failed \<and> sound_disk N m' \<and> agree m m' (fat_area g)
    \<and> fat g m' = (\<lambda>c. if c \<in> set (take 4097 cs) then 0 else fat g m c))"
    (is "wp _ m ?P")
proof -
  have e: "\<not> is_directory_entry e" "file_at g m e cs data"
    using assms(3) by (auto simp: holds_file_def)
  obtain parent where p: "gets (find_path_entry io g path) m (parent, n, off, e)"
    using yields_path_entry [OF assms(1-3)] by auto
  have ne: "cs \<noteq> []" using assms(4) by auto
  then have c: "chain g (fat g m) (entry_cluster e) cs" using e(2) by (simp add: file_at_def)
  then have two: "2 \<le> entry_cluster e" using ne by (cases cs) (auto simp: in_volume_def)
  have "wp (free_cluster_chain io g (entry_cluster e)) m ?P"
    unfolding free_cluster_chain_def using free_loop_long [OF assms(1) c assms(4,2)] by simp
  then have "wp (delete_entry io g (n, off, e)) m ?P"
    unfolding delete_entry_def prod.case if_P [OF two] by (rule wp_bind) auto
  then show ?thesis unfolding fat32_remove_file_def
    using assms(1) e(1) by (simp add: geom_def wp_bind_yields [OF p])
qed

end

section \<open>The contract\<close>

lemma returnsD:
  "returns ok view f m P \<Longrightarrow> ok d \<Longrightarrow> view d = m \<Longrightarrow> \<exists>x d'. f d = (Done x, d') \<and> ok d' \<and> P x (view d')"
  by (fastforce simp: returns_def runs_def)

text \<open>The conclusion the three writing calls share: the call returns 0 and the file then reads as \<open>data\<close>.\<close>

definition stored ::
    "'d blockdev \<Rightarrow> ('d \<Rightarrow> disk) \<Rightarrow> fat32_state \<Rightarrow> bytes \<Rightarrow> nat list list \<Rightarrow> nat list \<Rightarrow> slot \<Rightarrow> bytes \<Rightarrow>
     unit io_res \<times> 'd \<Rightarrow> bool" where
  "stored io view g path dss ds s data = (\<lambda>(r, d'). r = Done ()
     \<and> (\<exists>e' cs'. holds_file g (view d') path dss ds s e' cs' data)
     \<and> (\<forall>capacity. length data < capacity \<longrightarrow>
          (\<exists>d''. fat32_read_file io g path capacity d' = (Done data, d'') \<and> view d'' = view d')))"

lemma written_sound: "written N g m m' n off e cs data e' cs' \<Longrightarrow> sound_disk N m'"
  by (simp add: written_def)

text \<open>The room a file of \<open>n\<close> bytes needs, when \<open>cs\<close> are its clusters so far.\<close>

definition has_room :: "fat32_state \<Rightarrow> disk \<Rightarrow> nat list \<Rightarrow> nat \<Rightarrow> bool" where
  "has_room g m cs n \<longleftrightarrow> n + cluster_bytes g < 4294967296
     \<and> clusters_for g n \<le> length cs + card (free_clusters g m)"

context block_device
begin

lemma stored_intro:
  assumes "geom N g" "ok d" "gives f (view d) (\<lambda>_ m'. sound_disk N m' \<and>
    (\<exists>e' cs'. holds_file g m' path dss ds s e' cs' data))"
  shows "stored io view g path dss ds s data (f d)"
proof -
  from returnsD [OF assms(3,2) refl] obtain d' e' cs' where
    d': "f d = (Done (), d')" "ok d'" "sound_disk N (view d')" "holds_file g (view d') path dss ds s e' cs' data"
    by auto
  have "\<exists>d''. fat32_read_file io g path capacity d' = (Done data, d'') \<and> view d'' = view d'"
    if "length data < capacity" for capacity
    using returnsD [OF yields_read_file [OF assms(1) d'(3,4) that, unfolded gets_def] d'(2)] by auto
  then show ?thesis using d' unfolding stored_def by auto
qed

lemma overwrite_stores:
  assumes "geom N g" "ok d" "holds_file g (view d) path dss ds s e cs old" "length cs \<le> 4096"
    and "has_room g (view d) cs (length buf)"
  shows "stored io view g path dss ds s buf (fat32_write_file io g path buf False d)"
proof -
  obtain n off where s: "s = (n, off)" by (cases s)
  have m: "sound_disk N (view d)" using assms(2) by (rule view_sound)
  have f: "file_at g (view d) e cs old" using assms(3) by (simp add: holds_file_def)
  have "gives (write_contents io g (n, off, e) buf False) (view d)
      (\<lambda>_ m'. \<exists>e' cs'. written N g (view d) m' n off e cs buf e' cs')"
    using assms(5) by (intro gives_write_new [OF assms(1) m f assms(4) holds_slot_ok [OF assms(1)
        assms(3) [unfolded s]]]) (auto simp: has_room_def)
  then have "gives (write_contents io g (n, off, e) buf False) (view d)
      (\<lambda>_ m'. sound_disk N m' \<and> (\<exists>e' cs'. holds_file g m' path dss ds (n, off) e' cs' buf))"
    by (rule gives_weaken)
      (use written_holds [OF assms(1) m assms(3) [unfolded s]] written_sound in blast)
  then show ?thesis unfolding s
    by (intro stored_intro assms(1,2) write_file_found [OF assms(1) m assms(3) [unfolded s]])
qed

lemma append_stores:
  assumes "geom N g" "ok d" "holds_file g (view d) path dss ds s e cs old" "buf \<noteq> []"
    and "has_room g (view d) cs (length old + length buf)"
  shows "stored io view g path dss ds s (old @ buf) (fat32_write_file io g path buf True d)"
proof -
  obtain n off where s: "s = (n, off)" by (cases s)
  have m: "sound_disk N (view d)" using assms(2) by (rule view_sound)
  have f: "file_at g (view d) e cs old" using assms(3) by (simp add: holds_file_def)
  have "gives (write_contents io g (n, off, e) buf True) (view d)
      (\<lambda>_ m'. \<exists>e' cs'. written N g (view d) m' n off e cs (old @ buf) e' cs')"
    using assms(5) by (intro gives_write_append [OF assms(1) m f holds_slot_ok [OF assms(1)
        assms(3) [unfolded s]] assms(4)]) (auto simp: has_room_def)
  then have "gives (write_contents io g (n, off, e) buf True) (view d)
      (\<lambda>_ m'. sound_disk N m' \<and> (\<exists>e' cs'. holds_file g m' path dss ds (n, off) e' cs' (old @ buf)))"
    by (rule gives_weaken)
      (use written_holds [OF assms(1) m assms(3) [unfolded s]] written_sound in blast)
  then show ?thesis unfolding s
    by (intro stored_intro assms(1,2) write_file_found [OF assms(1) m assms(3) [unfolded s]])
qed

lemma create_stores:
  assumes "geom N g" "ok d" "lacks_file g (view d) path dss ds s leaf" "has_room g (view d) [] (length buf)"
  shows "stored io view g path dss ds s buf (fat32_write_file io g path buf False d)"
proof -
  obtain n off where s: "s = (n, off)" by (cases s)
  have m: "sound_disk N (view d)" using assms(2) by (rule view_sound)
  let ?e = "new_entry leaf 0x20 0 0"
  define m1 where "m1 = (view d)(n := poke off ?e (view d n))"
  note new = created_holds [OF assms(1) m assms(3) [unfolded s] m1_def]
  have f: "file_at g m1 ?e [] []" using new(1) by (simp add: holds_file_def)
  have "free_clusters g m1 = free_clusters g (view d)" using new(3) by (simp add: free_clusters_def)
  then have "gives (write_contents io g (n, off, ?e) buf False) m1
      (\<lambda>_ m'. \<exists>e' cs'. written N g m1 m' n off ?e [] buf e' cs')"
    using assms(4) by (intro gives_write_new [OF assms(1) new(2) f _ holds_slot_ok [OF assms(1) new(1)]])
      (auto simp: has_room_def)
  then have "gives (write_contents io g (n, off, ?e) buf False) m1
      (\<lambda>_ m'. sound_disk N m' \<and> (\<exists>e' cs'. holds_file g m' path dss ds (n, off) e' cs' buf))"
    by (rule gives_weaken)
      (use written_holds [OF assms(1) new(2,1)] written_sound in blast)
  then show ?thesis unfolding s
    by (intro stored_intro assms(1,2) write_file_created [OF assms(1) m assms(3) [unfolded s] m1_def])
qed

lemma overwrite_keeps:
  assumes "geom N g" "ok d" "holds_file g (view d) path dss ds s e cs old" "length cs \<le> 4096"
    and "has_room g (view d) cs (length buf)"
    and "holds_file g (view d) path2 dss2 ds2 s2 e2 cs2 data2" "s2 \<noteq> s" "set cs2 \<inter> (set cs \<union> set ds) = {}"
    and "\<forall>x \<in> set (ds2 # dss2). set x \<inter> set cs = {}"
  shows "\<exists>d'. fat32_write_file io g path buf False d = (Done (), d') \<and>
    holds_file g (view d') path2 dss2 ds2 s2 e2 cs2 data2"
proof -
  obtain n off where s: "s = (n, off)" by (cases s)
  have m: "sound_disk N (view d)" using assms(2) by (rule view_sound)
  have f: "file_at g (view d) e cs old" using assms(3) by (simp add: holds_file_def)
  have "gives (write_contents io g (n, off, e) buf False) (view d)
      (\<lambda>_ m'. \<exists>e' cs'. written N g (view d) m' n off e cs buf e' cs')"
    using assms(5) by (intro gives_write_new [OF assms(1) m f assms(4) holds_slot_ok [OF assms(1)
        assms(3) [unfolded s]]]) (auto simp: has_room_def)
  from returnsD [OF write_file_found [OF assms(1) m assms(3) [unfolded s] this] assms(2) refl]
  show ?thesis
    using written_other [OF assms(1) m assms(3) [unfolded s] _ assms(6)] assms(7-9) s by fastforce
qed

lemma remove_frees:
  assumes "geom N g" "ok d" "holds_file g (view d) path dss ds s e cs data" "length cs \<le> 4096"
  shows "\<exists>d'. fat32_remove_file io g path d = (Done (), d')
    \<and> free_clusters g (view d') = free_clusters g (view d) \<union> set cs
    \<and> slot_entry (view d') s = 0xE5 # tl e"
proof -
  obtain n off where s: "s = (n, off)" by (cases s)
  have m: "sound_disk N (view d)" using assms(2) by (rule view_sound)
  have vol: "in_volume g x" if "x \<in> set cs" for x
    using that assms(3) chain_in_volume [of g "fat g (view d)" "entry_cluster e" cs x]
    by (cases "cs = []") (auto simp: holds_file_def file_at_def)
  have e: "length e = 32" using assms(3) by (simp add: holds_file_def file_at_def)
  have n: "n < N" "off + 32 \<le> 512" using holds_slot_ok [OF assms(1) assms(3) [unfolded s]] by (auto simp: slot_ok_def)
  have len: "length (view d n) = 512" using m n by (simp add: sound_disk_def)
  obtain x xs where x: "e = x # xs" using e by (cases e) auto
  have p: "poke 0 [0xE5] (x # xs) = 0xE5 # xs" by (simp add: poke_def)
  from returnsD [OF gives_remove [OF assms(1) m assms(3) [unfolded s] assms(4)] assms(2) refl]
  obtain d' where d': "fat32_remove_file io g path d = (Done (), d')"
    "view d' n = poke off (poke 0 [0xE5] e) (view d n)"
    "fat g (view d') = (\<lambda>c. if c \<in> set cs then 0 else fat g (view d) c)" by auto
  have "free_clusters g (view d') = free_clusters g (view d) \<union> set cs"
    using d'(3) vol by (auto simp: free_clusters_def)
  moreover have "slot_entry (view d') s = 0xE5 # tl e"
    using take_drop_poke [of off "0xE5 # tl e" "view d n"] e n len d'(2) by (simp add: slot_entry_def s p x)
  ultimately show ?thesis using d'(1) by blast
qed

lemma remove_long_dangles:
  assumes "geom N g" "ok d" "holds_file g (view d) path dss ds s e cs data" "4096 < length cs"
  shows "\<exists>d'. fat32_remove_file io g path d = (Failed, d')
    \<and> slot_entry (view d') s = e \<and> entry_cluster e \<in> free_clusters g (view d')"
proof -
  obtain n off where s: "s = (n, off)" by (cases s)
  have m: "sound_disk N (view d)" using assms(2) by (rule view_sound)
  from remove_long [OF assms(1) m assms(3) [unfolded s] assms(4)] assms(2) obtain d' where
    d': "fat32_remove_file io g path d = (Failed, d')" "agree (view d) (view d') (fat_area g)"
      "fat g (view d') = (\<lambda>c. if c \<in> set (take 4097 cs) then 0 else fat g (view d) c)"
    unfolding runs_def by blast
  obtain c cs' where cs: "cs = c # cs'" using assms(4) by (cases cs) auto
  have "chain g (fat g (view d)) (entry_cluster e) cs"
    using assms(3) cs by (simp add: holds_file_def file_at_def)
  then have c: "entry_cluster e = c" "in_volume g c" using cs by auto
  have "entry_cluster e \<in> free_clusters g (view d')" using c d'(3) cs by (simp add: free_clusters_def)
  moreover have "n \<notin> fat_area g" using holds_slot_ok [OF assms(1) assms(3) [unfolded s]] by (simp add: slot_ok_def)
  then have "slot_entry (view d') s = slot_entry (view d) s" using d'(2) by (simp add: s slot_entry_def agree_def)
  moreover have "slot_entry (view d) s = e"
    using assms(3) lookup_found [of "slot_entry (view d)" _ _ None "fst s" "snd s" e] by (auto simp: holds_file_def)
  ultimately show ?thesis using d'(1) by auto
qed

end

section \<open>Devices in memory\<close>

definition ram_disk :: "nat \<Rightarrow> disk blockdev" where
  "ram_disk N = \<lparr>bd_read = \<lambda>n m. (if n < N then Some (m n) else None, m),
     bd_write = \<lambda>n b m. if n < N then (True, m(n := b)) else (False, m), bd_count = \<lambda>_. N\<rparr>"

lemma ram_disk_contract: "block_device (ram_disk N) (sound_disk N) (\<lambda>m. m) N"
  by unfold_locales (auto simp: ram_disk_def sound_disk_def)

text \<open>
  A volume of eight sectors: the root directory in cluster 2, the file \<open>A\<close> in cluster 3 and the file \<open>C\<close> in
  cluster 4.
\<close>

definition tiny :: fat32_state where
  "tiny = \<lparr>mounted = True, bytes_per_sector = 512, sectors_per_cluster = 1, reserved_sectors = 1,
     fat_count = 1, total_sectors = 8, sectors_per_fat = 1, root_cluster = 2, fat_start_sector = 1,
     data_start_sector = 2\<rparr>"

definition tiny_A :: bytes where
  "tiny_A = text_bytes ''A          '' @ [0x20] @ replicate 14 0 @ [3, 0, 2, 0, 0, 0]"

definition tiny_C :: bytes where
  "tiny_C = text_bytes ''C          '' @ [0x20] @ replicate 14 0 @ [4, 0, 1, 0, 0, 0]"

definition tiny_disk :: disk where
  "tiny_disk n =
     (if n = 1 then [0xF8, 0xFF, 0xFF, 0x0F, 0xFF, 0xFF, 0xFF, 0x0F, 0xFF, 0xFF, 0xFF, 0x0F, 0xFF, 0xFF, 0xFF, 0x0F,
                     0xFF, 0xFF, 0xFF, 0x0F] @ replicate 492 0
      else if n = 2 then tiny_A @ tiny_C @ replicate 448 0
      else if n = 3 then [0x68, 0x69] @ replicate 510 0
      else if n = 4 then [0x21] @ replicate 511 0
      else replicate 512 0)"

lemma tiny_sound: "sound_disk 8 tiny_disk"
  by (simp add: sound_disk_def tiny_disk_def tiny_A_def tiny_C_def text_bytes_def)

lemma tiny_geom: "geom 8 tiny"
  by (simp add: geom_def tiny_def)

lemma tiny_volume: "in_volume tiny c \<longleftrightarrow> c \<in> {2, 3, 4, 5, 6, 7}"
  by (auto simp: in_volume_def max_cluster_index_def clamp_cluster_limit_def fat_entry_capacity_def tiny_def
      BLOCKDEV_SECTOR_SIZE_def Let_def)

lemma tiny_fat: "fat tiny tiny_disk = (\<lambda>c. if c \<in> {2, 3, 4} then FAT32_CLUSTER_EOC else 0)"
proof (rule ext)
  fix c :: nat
  have b: "tiny_disk (Suc 0) = [0xF8, 0xFF, 0xFF, 0x0F, 0xFF, 0xFF, 0xFF, 0x0F, 0xFF, 0xFF, 0xFF, 0x0F,
    0xFF, 0xFF, 0xFF, 0x0F, 0xFF, 0xFF, 0xFF, 0x0F] @ replicate 492 0" by (simp add: tiny_disk_def)
  have start: "fat_start_sector tiny = 1" by (simp add: tiny_def)
  have e: "fat_entry tiny tiny_disk 2 = 0xFFFFFFF" "fat_entry tiny tiny_disk 3 = 0xFFFFFFF"
    "fat_entry tiny tiny_disk 4 = 0xFFFFFFF"
    by (simp_all add: fat_entry_def start b u32_at_def u32_of_le_def nth_append FAT32_CLUSTER_EOC_def)
  have z: "fat_entry tiny tiny_disk c = 0" if "5 \<le> c" "c < 8" for c
  proof -
    have "u32_at (tiny_disk (Suc 0)) (c * 4) = 0" using that by (simp add: b u32_at_def u32_of_le_def nth_append)
    then show ?thesis using that by (simp add: fat_entry_def start)
  qed
  show "fat tiny tiny_disk c = (if c \<in> {2, 3, 4} then FAT32_CLUSTER_EOC else 0)"
    using e z [of c] by (auto simp: fat_def tiny_volume FAT32_CLUSTER_EOC_def)
qed

lemma tiny_free: "free_clusters tiny tiny_disk = {5, 6, 7}"
  by (auto simp: free_clusters_def tiny_fat tiny_volume FAT32_CLUSTER_EOC_def)

lemma tiny_chain: "c \<in> {2, 3, 4} \<Longrightarrow> chain tiny (fat tiny tiny_disk) c [c]"
  by (auto simp: tiny_volume tiny_fat not_data_EOC)

lemma tiny_slots: "dir_slots tiny [2] = map (Pair 2) entry_offsets"
  by (simp add: dir_slots_def first_sector_def tiny_def)

lemma tiny_lookup:
  "lookup (slot_entry tiny_disk) (text_bytes ''A          '') (dir_slots tiny [2]) None = Inl (Slot_Found 2 0 tiny_A)"
  "lookup (slot_entry tiny_disk) (text_bytes ''C          '') (dir_slots tiny [2]) None = Inl (Slot_Found 2 32 tiny_C)"
  "lookup (slot_entry tiny_disk) (text_bytes ''B          '') (dir_slots tiny [2]) None = Inl (Slot_Free 2 64)"
  unfolding tiny_slots entry_offsets_def
  by (simp_all add: upt_rec [of 0] upt_rec [of "Suc 0"] upt_rec [of "Suc (Suc 0)"] slot_entry_def tiny_disk_def
      tiny_A_def tiny_C_def text_bytes_def deleted_def FAT32_ATTR_LFN_def nth_append)

lemma tiny_names:
  "component_to_short_name (text_bytes ''A'') = Some (text_bytes ''A          '')"
  "component_to_short_name (text_bytes ''B'') = Some (text_bytes ''B          '')"
  "component_to_short_name (text_bytes ''C'') = Some (text_bytes ''C          '')"
  "next_path_component (text_bytes ''/A'') = Path_Component (text_bytes ''A'') []"
  "next_path_component (text_bytes ''/B'') = Path_Component (text_bytes ''B'') []"
  "next_path_component (text_bytes ''/C'') = Path_Component (text_bytes ''C'') []"
  "next_path_component [] = Path_End"
  by code_simp+

lemma tiny_leads:
  "leads_to tiny tiny_disk (text_bytes ''/A'') [] [2] 2 (text_bytes ''A          '')"
  "leads_to tiny tiny_disk (text_bytes ''/B'') [] [2] 2 (text_bytes ''B          '')"
  "leads_to tiny tiny_disk (text_bytes ''/C'') [] [2] 2 (text_bytes ''C          '')"
proof -
  have "root_cluster tiny = 2" by (simp add: tiny_def)
  then show "leads_to tiny tiny_disk (text_bytes ''/A'') [] [2] 2 (text_bytes ''A          '')"
    "leads_to tiny tiny_disk (text_bytes ''/B'') [] [2] 2 (text_bytes ''B          '')"
    "leads_to tiny tiny_disk (text_bytes ''/C'') [] [2] 2 (text_bytes ''C          '')"
    using tiny_chain [of 2] unfolding leads_to_def path_to_def tiny_names path_step.case dir_path.simps
    by (simp_all add: tiny_names) (simp_all add: text_bytes_def sep_def)
qed

lemma tiny_bytes: "cluster_bytes tiny = 512"
  by (simp add: cluster_bytes_def tiny_def)

lemma tiny_file_at:
  "file_at tiny tiny_disk tiny_A [3] [0x68, 0x69]" "file_at tiny tiny_disk tiny_C [4] [0x21]"
proof -
  have "entry_cluster tiny_A = 3" "u32_at tiny_A 28 = 2" "length tiny_A = 32"
    "entry_cluster tiny_C = 4" "u32_at tiny_C 28 = 1" "length tiny_C = 32"
    by (simp_all add: tiny_A_def tiny_C_def text_bytes_def entry_cluster_def u16_at_def u32_at_def u16_of_le_def
        u32_of_le_def nth_append)
  moreover have "cluster_data tiny tiny_disk 3 = [0x68, 0x69] @ replicate 510 0"
    "cluster_data tiny tiny_disk 4 = [0x21] @ replicate 511 0"
    by (simp_all add: cluster_data_def sector_bytes_def first_sector_def tiny_def tiny_disk_def)
  ultimately show "file_at tiny tiny_disk tiny_A [3] [0x68, 0x69]" "file_at tiny tiny_disk tiny_C [4] [0x21]"
    using tiny_chain [of 3] tiny_chain [of 4] by (simp_all add: file_at_def clusters_for_def tiny_bytes)
qed

lemma tiny_holds:
  "holds_file tiny tiny_disk (text_bytes ''/A'') [] [2] (2, 0) tiny_A [3] [0x68, 0x69]"
  "holds_file tiny tiny_disk (text_bytes ''/C'') [] [2] (2, 32) tiny_C [4] [0x21]"
proof -
  have "\<not> is_directory_entry tiny_A" "\<not> is_directory_entry tiny_C"
    by (simp_all add: is_directory_entry_def attributes_def tiny_A_def tiny_C_def text_bytes_def FAT32_ATTR_DIRECTORY_def)
  then show "holds_file tiny tiny_disk (text_bytes ''/A'') [] [2] (2, 0) tiny_A [3] [0x68, 0x69]"
    "holds_file tiny tiny_disk (text_bytes ''/C'') [] [2] (2, 32) tiny_C [4] [0x21]"
    unfolding holds_file_def fst_conv snd_conv using tiny_leads tiny_lookup tiny_file_at by auto
qed

lemma tiny_lacks: "lacks_file tiny tiny_disk (text_bytes ''/B'') [] [2] (2, 64) (text_bytes ''B          '')"
  unfolding lacks_file_def fst_conv snd_conv using tiny_leads(2) tiny_lookup(3)
  by (auto simp: text_bytes_def)

lemma tiny_fits: "n \<le> 1024 \<Longrightarrow> has_room tiny tiny_disk cs n"
proof -
  assume n: "n \<le> 1024"
  then have "clusters_for tiny n \<le> clusters_for tiny 1024" by (intro clusters_for_bounds(4)) (simp_all add: tiny_bytes)
  then have "clusters_for tiny n \<le> 3" by (simp add: clusters_for_def tiny_bytes)
  then show ?thesis using n by (simp add: has_room_def tiny_free tiny_bytes)
qed

section \<open>Theorems\<close>

text \<open>
  C21. Writing to a path whose last directory holds no entry of that name creates the file: the call
  returns 0, the path then leads to a file with exactly these contents, and \<open>fat32_read_file\<close> returns them.
\<close>

lemma fat32_create:
  assumes "block_device io ok view N" "geom N g" "ok d" "lacks_file g (view d) path dss ds s leaf"
    and "has_room g (view d) [] (length buf)"
  shows "stored io view g path dss ds s buf (fat32_write_file io g path buf False d)"
  by (rule block_device.create_stores [OF assms])

lemma fat32_create_witness:
  "stored (ram_disk 8) (\<lambda>m. m) tiny (text_bytes ''/B'') [] [2] (2, 64) (replicate 600 7)
     (fat32_write_file (ram_disk 8) tiny (text_bytes ''/B'') (replicate 600 7) False tiny_disk)"
  by (rule fat32_create [where ok = "sound_disk 8" and view = "\<lambda>m. m" and N = 8 and leaf = "text_bytes ''B          ''"])
    (simp_all add: ram_disk_contract tiny_geom tiny_sound tiny_lacks tiny_fits)

text \<open>
  Writing over a file of at most 4096 clusters replaces its contents: the old chain is
  released, a new one takes the bytes, the entry is updated, and the file reads as what was written.
\<close>

lemma fat32_overwrite:
  assumes "block_device io ok view N" "geom N g" "ok d" "holds_file g (view d) path dss ds s e cs old"
    and "length cs \<le> 4096" "has_room g (view d) cs (length buf)"
  shows "stored io view g path dss ds s buf (fat32_write_file io g path buf False d)"
  by (rule block_device.overwrite_stores [OF assms])

lemma fat32_overwrite_witness:
  "stored (ram_disk 8) (\<lambda>m. m) tiny (text_bytes ''/A'') [] [2] (2, 0) (replicate 600 7)
     (fat32_write_file (ram_disk 8) tiny (text_bytes ''/A'') (replicate 600 7) False tiny_disk)"
  by (rule fat32_overwrite [where ok = "sound_disk 8" and view = "\<lambda>m. m" and N = 8 and e = tiny_A and cs = "[3]"
        and old = "[0x68, 0x69]"])
    (simp_all add: ram_disk_contract tiny_geom tiny_sound tiny_holds tiny_fits)

text \<open>
  C22. Appending a non-empty buffer leaves the old contents and puts the buffer behind them, across
  the end of the last cluster where necessary.
\<close>

lemma fat32_append:
  assumes "block_device io ok view N" "geom N g" "ok d" "holds_file g (view d) path dss ds s e cs old"
    and "buf \<noteq> []" "has_room g (view d) cs (length old + length buf)"
  shows "stored io view g path dss ds s (old @ buf) (fat32_write_file io g path buf True d)"
  by (rule block_device.append_stores [OF assms])

lemma fat32_append_witness:
  "stored (ram_disk 8) (\<lambda>m. m) tiny (text_bytes ''/A'') [] [2] (2, 0) ([0x68, 0x69] @ replicate 600 7)
     (fat32_write_file (ram_disk 8) tiny (text_bytes ''/A'') (replicate 600 7) True tiny_disk)"
  by (rule fat32_append [where ok = "sound_disk 8" and view = "\<lambda>m. m" and N = 8 and e = tiny_A and cs = "[3]"
        and old = "[0x68, 0x69]"])
    (simp_all add: ram_disk_contract tiny_geom tiny_sound tiny_holds tiny_fits)

text \<open>
  C23. Writing over one file leaves every other file as it is: another slot, with clusters of its
  own, still leads to the same contents.
\<close>

lemma fat32_isolation:
  assumes "block_device io ok view N" "geom N g" "ok d" "holds_file g (view d) path dss ds s e cs old"
    and "length cs \<le> 4096" "has_room g (view d) cs (length buf)"
    and "holds_file g (view d) path2 dss2 ds2 s2 e2 cs2 data2" "s2 \<noteq> s" "set cs2 \<inter> (set cs \<union> set ds) = {}"
    and "\<forall>x \<in> set (ds2 # dss2). set x \<inter> set cs = {}"
  shows "\<exists>d'. fat32_write_file io g path buf False d = (Done (), d') \<and>
    holds_file g (view d') path2 dss2 ds2 s2 e2 cs2 data2"
  by (rule block_device.overwrite_keeps [OF assms])

lemma fat32_isolation_witness:
  "\<exists>d'. fat32_write_file (ram_disk 8) tiny (text_bytes ''/A'') (replicate 600 7) False tiny_disk = (Done (), d') \<and>
     holds_file tiny d' (text_bytes ''/C'') [] [2] (2, 32) tiny_C [4] [0x21]"
  by (rule fat32_isolation [where ok = "sound_disk 8" and view = "\<lambda>m. m" and N = 8 and e = tiny_A and cs = "[3]"
        and old = "[0x68, 0x69]" and dss = "[]" and ds = "[2]" and s = "(2, 0)"])
    (simp_all add: ram_disk_contract tiny_geom tiny_sound tiny_holds tiny_fits)

text \<open>
  C24. Removing a file of at most 4096 clusters marks its slot as deleted and makes exactly its
  clusters free again.
\<close>

lemma fat32_remove:
  assumes "block_device io ok view N" "geom N g" "ok d" "holds_file g (view d) path dss ds s e cs data"
    and "length cs \<le> 4096"
  shows "\<exists>d'. fat32_remove_file io g path d = (Done (), d')
    \<and> free_clusters g (view d') = free_clusters g (view d) \<union> set cs
    \<and> slot_entry (view d') s = 0xE5 # tl e"
  by (rule block_device.remove_frees [OF assms])

lemma fat32_remove_witness:
  "\<exists>d'. fat32_remove_file (ram_disk 8) tiny (text_bytes ''/A'') tiny_disk = (Done (), d')
    \<and> free_clusters tiny d' = free_clusters tiny tiny_disk \<union> set [3]
    \<and> slot_entry d' (2, 0) = 0xE5 # tl tiny_A"
  by (rule fat32_remove [where ok = "sound_disk 8" and view = "\<lambda>m. m" and N = 8 and e = tiny_A and cs = "[3]"
        and data = "[0x68, 0x69]" and dss = "[]" and ds = "[2]"])
    (simp_all add: ram_disk_contract tiny_geom tiny_sound tiny_holds)

end
