(* ===== verification/Fat32_Limits.thy ===== *)
theory Fat32_Limits
  imports Fat32_Contract
begin

text \<open>
  Where the driver falls short: a file of more than 4096 clusters (2 MiB on the volumes that
  \<open>fat32_format_volume\<close> makes) cannot be removed, and the attempt damages the volume. The example is a volume
  whose file \<open>A\<close> has 4098 clusters.
\<close>

section \<open>A long chain\<close>

lemma u32_at_words: "i < length ws \<Longrightarrow> u32_at (concat (map le_of_u32 ws)) (i * 4) = unat (ws ! i)"
proof (induction ws arbitrary: i)
  case (Cons w ws)
  show ?case
  proof (cases i)
    case 0
    then show ?thesis using u32_bytes [of w] by (simp add: u32_at_def nth_append numeral_eq_Suc)
  next
    case (Suc j)
    have skip: "u32_at (le_of_u32 w @ xs) (4 + k) = u32_at xs k" for xs k
      by (simp add: u32_at_def nth_append add.commute [of k])
    have "u32_at (concat (map le_of_u32 ws)) (j * 4) = unat (ws ! j)" using Suc Cons by simp
    then show ?thesis using skip [of "concat (map le_of_u32 ws)" "j * 4"] Suc by simp
  qed
qed simp

definition long_entry :: "nat \<Rightarrow> nat" where
  "long_entry c = (if c = 2 \<or> c = 4100 then FAT32_CLUSTER_EOC else if 3 \<le> c \<and> c < 4100 then c + 1 else 0)"

definition long_volume :: fat32_state where
  "long_volume = \<lparr>mounted = True, bytes_per_sector = 512, sectors_per_cluster = 1, reserved_sectors = 1,
     fat_count = 1, total_sectors = 4200, sectors_per_fat = 33, root_cluster = 2, fat_start_sector = 1,
     data_start_sector = 34\<rparr>"

definition long_A :: bytes where
  "long_A = text_bytes ''A          '' @ [0x20] @ replicate 14 0 @ [3, 0, 0, 4, 0x20, 0]"

definition long_disk :: disk where
  "long_disk n =
     (if 1 \<le> n \<and> n < 34 then concat (map le_of_u32 (map (\<lambda>k. of_nat (long_entry ((n - 1) * 128 + k))) [0..<128]))
      else if n = 34 then long_A @ replicate 480 0
      else replicate 512 0)"

lemma long_sound: "sound_disk 4200 long_disk"
proof -
  have "length (concat (map le_of_u32 ws)) = 4 * length ws" for ws by (induction ws) simp_all
  from this [of "map f [0..<128]" for f] have "length (concat (map le_of_u32 (map f [0..<128]))) = 512" for f by simp
  moreover have "length long_A = 32" by (simp add: long_A_def text_bytes_def)
  ultimately show ?thesis unfolding sound_disk_def long_disk_def by auto
qed

lemma long_geom: "geom 4200 long_volume"
  by (simp add: geom_def long_volume_def)

lemma long_in_volume: "in_volume long_volume c \<longleftrightarrow> 2 \<le> c \<and> c < 4168"
  by (auto simp: in_volume_def max_cluster_index_def clamp_cluster_limit_def fat_entry_capacity_def long_volume_def
      BLOCKDEV_SECTOR_SIZE_def Let_def)

lemma long_fat: "fat long_volume long_disk c = (if 2 \<le> c \<and> c < 4168 then long_entry c else 0)"
proof (cases "2 \<le> c \<and> c < 4168")
  case True
  have b: "long_entry c < 268435456" by (simp add: long_entry_def FAT32_CLUSTER_EOC_def)
  have s: "fat_start_sector long_volume = 1" by (simp add: long_volume_def)
  have "c div 128 < 33" using True by (simp add: less_mult_imp_div_less)
  then have "long_disk (1 + c div 128) =
      concat (map le_of_u32 (map (\<lambda>k. of_nat (long_entry (c div 128 * 128 + k))) [0..<128]))"
    by (simp add: long_disk_def)
  then have "u32_at (long_disk (1 + c div 128)) (c mod 128 * 4) =
      unat (of_nat (long_entry (c div 128 * 128 + c mod 128)) :: u32)"
    by (simp only: u32_at_words length_map length_upt) (simp add: u32_at_words del: map_map)
  also have "\<dots> = long_entry c" using b by (simp add: unat_of_nat)
  finally show ?thesis using True b by (simp add: fat_def long_in_volume fat_entry_def s and_EOC)
qed (auto simp: fat_def long_in_volume)

definition long_clusters :: "nat list" where "long_clusters = [3..<4101]"

lemma long_clusters_facts: "length long_clusters = 4098" "set long_clusters = {3..<4101}"
  unfolding long_clusters_def length_upt set_upt by simp_all

lemma long_chain_from: "3 \<le> c \<Longrightarrow> c \<le> 4100 \<Longrightarrow> chain long_volume (fat long_volume long_disk) c [c..<4101]"
proof (induction "4100 - c" arbitrary: c)
  case 0
  then have "c = 4100" by simp
  moreover have "[4100..<4101] = [4100 :: nat]" by (simp add: upt_rec [of 4100 4101])
  ultimately show ?case by (simp add: long_in_volume long_fat long_entry_def not_data_EOC)
next
  case (Suc k)
  have "chain long_volume (fat long_volume long_disk) (Suc c) [Suc c..<4101]" using Suc.prems Suc.hyps(2) by (intro Suc.hyps(1)) auto
  moreover have "[c..<4101] = c # [Suc c..<4101]" using Suc.prems by (simp add: upt_conv_Cons)
  ultimately show ?case using Suc.prems Suc.hyps(2) not_data_EOC by (cases "c = 4100") (simp_all add: long_in_volume long_fat long_entry_def)
qed

lemma long_chain: "chain long_volume (fat long_volume long_disk) 3 long_clusters"
  unfolding long_clusters_def by (rule long_chain_from) simp_all

lemma long_bytes: "cluster_bytes long_volume = 512"
  by (simp add: cluster_bytes_def long_volume_def)

lemma long_file_at:
  "file_at long_volume long_disk long_A long_clusters (take 2098176 (file_data long_volume long_disk long_clusters))"
proof -
  have "length (file_data long_volume long_disk long_clusters) = 4098 * 512"
    using length_file_data [OF long_geom long_sound, of "long_clusters"] by (simp add: long_in_volume long_bytes long_clusters_facts)
  moreover have "entry_cluster long_A = 3" "u32_at long_A 28 = 2098176" "length long_A = 32"
    by (simp_all add: long_A_def text_bytes_def entry_cluster_def u16_at_def u32_at_def u16_of_le_def
        u32_of_le_def nth_append)
  ultimately show ?thesis
    using long_chain long_clusters_facts by (auto simp: file_at_def clusters_for_def long_bytes)
qed

lemma long_holds:
  "holds_file long_volume long_disk (text_bytes ''/A'') [] [2] (34, 0) long_A long_clusters
     (take 2098176 (file_data long_volume long_disk long_clusters))"
proof -
  have root: "root_cluster long_volume = 2" by (simp add: long_volume_def)
  have "chain long_volume (fat long_volume long_disk) 2 [2]"
    by (simp add: long_in_volume long_fat long_entry_def not_data_EOC)
  then have "leads_to long_volume long_disk (text_bytes ''/A'') [] [2] 2 (text_bytes ''A          '')"
    unfolding leads_to_def path_to_def tiny_names path_step.case dir_path.simps root
    by (simp add: tiny_names) (simp add: text_bytes_def sep_def)
  moreover have "dir_slots long_volume [2] = map (Pair 34) entry_offsets"
    by (simp add: dir_slots_def first_sector_def long_volume_def)
  then have "lookup (slot_entry long_disk) (text_bytes ''A          '') (dir_slots long_volume [2]) None =
      Inl (Slot_Found 34 0 long_A)"
    by (simp add: entry_offsets_def upt_rec [of 0] slot_entry_def long_disk_def long_A_def text_bytes_def deleted_def
        FAT32_ATTR_LFN_def nth_append)
  moreover have "\<not> is_directory_entry long_A"
    by (simp add: is_directory_entry_def attributes_def long_A_def text_bytes_def FAT32_ATTR_DIRECTORY_def)
  ultimately show ?thesis
    using long_file_at long_clusters_facts(2) unfolding holds_file_def fst_conv snd_conv by auto
qed

section \<open>Removing it\<close>

text \<open>
  Removing a file of more than 4096 clusters fails after its first 4097 clusters have been
  freed, and the entry stays: it points to a cluster that the next allocation may hand out.
\<close>

lemma fat32_remove_long:
  assumes "block_device io ok view N" "geom N g" "ok d" "holds_file g (view d) path dss ds s e cs data"
    and "4096 < length cs"
  shows "\<exists>d'. fat32_remove_file io g path d = (Failed, d')
    \<and> slot_entry (view d') s = e \<and> entry_cluster e \<in> free_clusters g (view d')"
  by (rule block_device.remove_long_dangles [OF assms])

lemma fat32_remove_long_witness:
  "\<exists>d'. fat32_remove_file (ram_disk 4200) long_volume (text_bytes ''/A'') long_disk = (Failed, d')
    \<and> slot_entry d' (34, 0) = long_A \<and> entry_cluster long_A \<in> free_clusters long_volume d'"
  by (rule fat32_remove_long [where ok = "sound_disk 4200" and view = "\<lambda>m. m" and N = 4200
        and cs = "long_clusters" and dss = "[]" and ds = "[2]"
        and data = "take 2098176 (file_data long_volume long_disk long_clusters)"])
    (simp_all add: ram_disk_contract long_geom long_sound long_holds long_clusters_facts)

end
