(* ===== verification/Fat32_Volume.thy ===== *)
theory Fat32_Volume
  imports Fat32
begin

text \<open>
  \<open>filesystem/fat32/fat32.c\<close>, second part: formatting and shrinking a volume and its label. The resize
  functions return one of the \<open>FAT32_RESIZE\<close> codes.
\<close>

datatype resize = RESIZE_OK | RESIZE_ERROR_IO | RESIZE_ERROR_DATA_PRESENT | RESIZE_ERROR_INVALID

text \<open>A step that ends the function with a code when the device fails.\<close>

definition or_io :: "('d \<Rightarrow> 'a io_res \<times> 'd) \<Rightarrow> ('a \<Rightarrow> 'd \<Rightarrow> resize \<times> 'd) \<Rightarrow> 'd \<Rightarrow> resize \<times> 'd" where
  "or_io m k d = (case m d of (Done x, d) \<Rightarrow> k x d | (_, d) \<Rightarrow> (RESIZE_ERROR_IO, d))"

definition or_code :: "('d \<Rightarrow> resize \<times> 'd) \<Rightarrow> ('d \<Rightarrow> resize \<times> 'd) \<Rightarrow> 'd \<Rightarrow> resize \<times> 'd" where
  "or_code m k d = (case m d of (RESIZE_OK, d) \<Rightarrow> k d | (c, d) \<Rightarrow> (c, d))"

section \<open>Shrinking\<close>

text \<open>What one FAT sector shows about the tail that is to go.\<close>

fun tail_in_sector :: "nat \<Rightarrow> nat \<Rightarrow> nat \<Rightarrow> bytes \<Rightarrow> nat list \<Rightarrow> resize" where
  "tail_in_sector new_limit old_limit first_cluster b [] = RESIZE_OK"
| "tail_in_sector new_limit old_limit first_cluster b (off # offs) =
     (let c = first_cluster + off div 4;
          e = u32_at b off AND 0x0FFFFFFF
      in if c < 2 \<or> old_limit \<le> c then tail_in_sector new_limit old_limit first_cluster b offs
         else if new_limit \<le> c
         then (if e \<noteq> FAT32_CLUSTER_FREE then RESIZE_ERROR_DATA_PRESENT
               else tail_in_sector new_limit old_limit first_cluster b offs)
         else if new_limit \<le> e \<and> e < FAT32_CLUSTER_EOC_MIN then RESIZE_ERROR_DATA_PRESENT
         else tail_in_sector new_limit old_limit first_cluster b offs)"

fun tail_sectors ::
    "'d blockdev \<Rightarrow> fat32_state \<Rightarrow> nat \<Rightarrow> nat \<Rightarrow> nat list \<Rightarrow> 'd \<Rightarrow> resize \<times> 'd" where
  "tail_sectors io g new_limit old_limit [] d = (RESIZE_OK, d)"
| "tail_sectors io g new_limit old_limit (k # ks) d =
     (let first_cluster = mul32 k BLOCKDEV_SECTOR_SIZE div 4
      in if old_limit \<le> first_cluster then (RESIZE_OK, d)
         else or_io (read_sector io (add32 (fat_start_sector g) k)) (\<lambda>b d.
                case tail_in_sector new_limit old_limit first_cluster b fat_offsets of
                  RESIZE_OK \<Rightarrow> tail_sectors io g new_limit old_limit ks d
                | c \<Rightarrow> (c, d)) d)"

definition fat32_shrink_tail_is_free ::
    "'d blockdev \<Rightarrow> fat32_state \<Rightarrow> nat \<Rightarrow> nat \<Rightarrow> 'd \<Rightarrow> resize \<times> 'd" where
  "fat32_shrink_tail_is_free io g new_limit old_limit =
     tail_sectors io g new_limit old_limit [0..<sectors_per_fat g]"

definition fat32_invalidate_fsinfo :: "'d blockdev \<Rightarrow> fat32_state \<Rightarrow> nat \<Rightarrow> 'd \<Rightarrow> resize \<times> 'd" where
  "fat32_invalidate_fsinfo io g n d =
     (if reserved_sectors g \<le> n then (RESIZE_ERROR_INVALID, d)
      else or_io (read_sector io n) (\<lambda>b d.
             if u32_at b 0 \<noteq> 0x41615252 \<or> u32_at b 484 \<noteq> 0x61417272 \<or> u32_at b 508 \<noteq> 0xAA550000
             then (RESIZE_OK, d)
             else or_io (write_sector io n (put_u32 492 0xFFFFFFFF (put_u32 488 0xFFFFFFFF b)))
                    (\<lambda>_ d. (RESIZE_OK, d)) d) d)"

text \<open>The two boot sectors are written last, the primary one after its backup.\<close>

definition write_boot_sectors ::
    "'d blockdev \<Rightarrow> fat32_state \<Rightarrow> nat \<Rightarrow> bytes \<Rightarrow> (nat \<times> bytes) option \<Rightarrow> 'd \<Rightarrow> resize \<times> 'd" where
  "write_boot_sectors io g new_total primary backup d =
     (let finish = (\<lambda>d.
            case write_sector io 0 (put_u32 32 new_total primary) d of
              (Done _, d) \<Rightarrow> (RESIZE_OK, d)
            | (_, d) \<Rightarrow>
                (case backup of
                   None \<Rightarrow> (RESIZE_ERROR_IO, d)
                 | Some (n, b) \<Rightarrow>
                     (RESIZE_ERROR_IO, snd (write_sector io n (put_u32 32 (total_sectors g) b) d))))
      in case backup of
           None \<Rightarrow> finish d
         | Some (n, b) \<Rightarrow> or_io (write_sector io n (put_u32 32 new_total b)) (\<lambda>_. finish) d)"

definition shrink_metadata ::
    "'d blockdev \<Rightarrow> fat32_state \<Rightarrow> nat \<Rightarrow> bytes \<Rightarrow> (nat \<times> bytes) option \<Rightarrow> 'd \<Rightarrow> resize \<times> 'd" where
  "shrink_metadata io g new_total primary backup =
     (let fsinfo = u16_at primary 48
      in or_code (\<lambda>d. if fsinfo \<noteq> 0 \<and> fsinfo \<noteq> 0xFFFF then fat32_invalidate_fsinfo io g fsinfo d
                      else (RESIZE_OK, d))
         (or_code (\<lambda>d. case backup of
                    None \<Rightarrow> (RESIZE_OK, d)
                  | Some (n, b) \<Rightarrow>
                      (let k = u16_at b 48; m = n + k
                       in if k \<noteq> 0 \<and> k \<noteq> 0xFFFF \<and> m \<noteq> fsinfo \<and> m < reserved_sectors g
                          then fat32_invalidate_fsinfo io g m d else (RESIZE_OK, d)))
           (write_boot_sectors io g new_total primary backup)))"

definition fat32_shrink_volume ::
    "'d blockdev \<Rightarrow> nat \<Rightarrow> fat32_state \<Rightarrow> 'd \<Rightarrow> resize \<times> fat32_state \<times> 'd" where
  "fat32_shrink_volume io new_total g d =
     (if \<not> mounted g \<or> new_total \<le> data_start_sector g \<or> bd_count io d < new_total
      then (RESIZE_ERROR_INVALID, g, d)
      else if new_total = total_sectors g then (RESIZE_OK, g, d)
      else if total_sectors g < new_total then (RESIZE_ERROR_INVALID, g, d)
      else
        (let cluster_count = (new_total - data_start_sector g) div sectors_per_cluster g
         in if cluster_count < FAT32_MIN_CLUSTER_COUNT \<or> 0x0FFFFFF0 - 2 < cluster_count
            then (RESIZE_ERROR_INVALID, g, d)
            else
              (let new_limit = clamp_cluster_limit g (2 + cluster_count);
                   old_limit = max_cluster_index g
               in if new_limit \<le> root_cluster g \<or> old_limit < new_limit
                  then (RESIZE_ERROR_INVALID, g, d)
                  else
                    (let (code, d) =
                       or_code (fat32_shrink_tail_is_free io g new_limit old_limit)
                         (or_io (read_sector io 0) (\<lambda>primary d.
                            if u32_at primary 32 \<noteq> total_sectors g then (RESIZE_ERROR_IO, d)
                            else
                              (let n = u16_at primary 50
                               in if n \<noteq> 0 \<and> n < reserved_sectors g \<and> n < total_sectors g
                                  then or_io (read_sector io n) (\<lambda>b.
                                         shrink_metadata io g new_total primary (Some (n, b))) d
                                  else shrink_metadata io g new_total primary None d))) d
                     in if code = RESIZE_OK then (RESIZE_OK, g\<lparr>total_sectors := new_total\<rparr>, d)
                        else (code, g, d)))))"

section \<open>Labels\<close>

definition label_char :: "u8 \<Rightarrow> bool" where
  "label_char c \<longleftrightarrow> 65 \<le> c \<and> c \<le> 90 \<or> 97 \<le> c \<and> c \<le> 122 \<or> 48 \<le> c \<and> c \<le> 57 \<or> c = 95 \<or> c = 45"

definition fat32_prepare_volume_label :: "bytes \<Rightarrow> bytes option" where
  "fat32_prepare_volume_label label =
     (if label = [] then None
      else if 11 < length label \<or> \<not> list_all label_char label then None
      else Some (map to_upper label @ replicate (11 - length label) space))"

text \<open>One directory sector: \<open>Inl None\<close> is the end mark, \<open>Inl (Some b)\<close> the sector with the label changed.\<close>

fun label_in_sector :: "bytes \<Rightarrow> bytes \<Rightarrow> nat list \<Rightarrow> bytes option + unit" where
  "label_in_sector label b [] = Inr ()"
| "label_in_sector label b (off # offs) =
     (if b ! off = 0 then Inl None
      else if b ! off \<noteq> 0xE5 \<and> b ! (off + 11) AND FAT32_ATTR_VOLUME_ID \<noteq> 0
              \<and> b ! (off + 11) \<noteq> FAT32_ATTR_LFN
      then Inl (Some (poke off label b))
      else label_in_sector label b offs)"

text \<open>\<open>ret True\<close> ends the search.\<close>

fun label_in_sectors :: "'d blockdev \<Rightarrow> bytes \<Rightarrow> nat list \<Rightarrow> 'd \<Rightarrow> bool io_res \<times> 'd" where
  "label_in_sectors io label [] = ret False"
| "label_in_sectors io label (n # ns) =
     bindr (read_sector io n) (\<lambda>b.
       case label_in_sector label b entry_offsets of
         Inl None \<Rightarrow> ret True
       | Inl (Some b) \<Rightarrow> bindr (write_sector io n b) (\<lambda>_. ret True)
       | Inr _ \<Rightarrow> label_in_sectors io label ns)"

primrec label_in_clusters ::
    "'d blockdev \<Rightarrow> fat32_state \<Rightarrow> bytes \<Rightarrow> nat \<Rightarrow> nat \<Rightarrow> 'd \<Rightarrow> unit io_res \<times> 'd" where
  "label_in_clusters io g label 0 c = ret ()"
| "label_in_clusters io g label (Suc left) c =
     (if is_data_cluster c \<and> c < max_cluster_index g
      then bindr (label_in_sectors io label (cluster_sectors g c)) (\<lambda>stop.
             if stop then ret ()
             else bindr (read_fat_entry io g c) (label_in_clusters io g label left))
      else ret ())"

definition fat32_update_root_volume_entry ::
    "'d blockdev \<Rightarrow> fat32_state \<Rightarrow> bytes \<Rightarrow> 'd \<Rightarrow> unit io_res \<times> 'd" where
  "fat32_update_root_volume_entry io g label = label_in_clusters io g label 1024 (root_cluster g)"

definition label_text :: "bytes \<Rightarrow> bytes" where
  "label_text b = rev (dropWhile (\<lambda>c. c = space \<or> c = 0) (rev (take 11 (drop 71 b))))"

definition fat32_get_volume_label :: "'d blockdev \<Rightarrow> fat32_state \<Rightarrow> nat \<Rightarrow> 'd \<Rightarrow> bytes io_res \<times> 'd" where
  "fat32_get_volume_label io g capacity =
     (if \<not> mounted g \<or> capacity < 12 then failr
      else bindr (read_sector io 0) (\<lambda>b. ret (label_text b)))"

definition fat32_set_volume_label :: "'d blockdev \<Rightarrow> fat32_state \<Rightarrow> bytes \<Rightarrow> 'd \<Rightarrow> unit io_res \<times> 'd" where
  "fat32_set_volume_label io g label =
     (case fat32_prepare_volume_label label of
        None \<Rightarrow> failr
      | Some l \<Rightarrow>
          if \<not> mounted g then failr
          else bindr (read_sector io 0) (\<lambda>b.
               bindr (fat32_update_root_volume_entry io g l) (\<lambda>_.
                 let n = u16_at b 50
                 in bindr (if n \<noteq> 0 \<and> n < total_sectors g
                           then bindr (read_sector io n) (\<lambda>backup. write_sector io n (poke 71 l backup))
                           else ret ()) (\<lambda>_. write_sector io 0 (poke 71 l b)))))"

section \<open>Formatting\<close>

definition FORMAT_RESERVED :: nat where "FORMAT_RESERVED = 32"

text \<open>The FAT size is searched for at most 16 times; the result is the size and the number of data clusters.\<close>

primrec format_fat_size :: "nat \<Rightarrow> nat \<Rightarrow> nat \<Rightarrow> (nat \<times> nat) option" where
  "format_fat_size 0 total_count spf = None"
| "format_fat_size (Suc n) total_count spf =
     (if (total_count - FORMAT_RESERVED) div 2 < spf then None
      else
        (let data_clusters = total_count - FORMAT_RESERVED - 2 * spf;
             required = sub32 (add32 (mul32 (add32 data_clusters 2) 4) BLOCKDEV_SECTOR_SIZE) 1
                        div BLOCKDEV_SECTOR_SIZE
         in if required = spf then Some (spf, data_clusters)
            else format_fat_size n total_count required))"

definition format_first_fat_sector :: bytes where
  "format_first_fat_sector =
     [0xF8, 0xFF, 0xFF, 0x0F, 0xFF, 0xFF, 0xFF, 0x0F, 0xFF, 0xFF, 0xFF, 0x0F] @ replicate 500 0"

fun write_fat_sectors :: "'d blockdev \<Rightarrow> nat \<Rightarrow> nat list \<Rightarrow> 'd \<Rightarrow> unit io_res \<times> 'd" where
  "write_fat_sectors io start [] = ret ()"
| "write_fat_sectors io start (k # ks) =
     bindr (write_sector io (start + k)
              (if k = 0 then format_first_fat_sector else replicate BLOCKDEV_SECTOR_SIZE 0)) (\<lambda>_.
       write_fat_sectors io start ks)"

definition format_fsinfo :: "nat \<Rightarrow> bytes" where
  "format_fsinfo data_clusters =
     put_u32 508 0xAA550000 (put_u32 492 3 (put_u32 488 (data_clusters - 1)
       (put_u32 484 0x61417272 (put_u32 0 0x41615252 (replicate BLOCKDEV_SECTOR_SIZE 0)))))"

definition format_root :: "bytes \<Rightarrow> bytes" where
  "format_root label = poke 11 [FAT32_ATTR_VOLUME_ID] (poke 0 label (replicate BLOCKDEV_SECTOR_SIZE 0))"

definition format_boot :: "bytes \<Rightarrow> nat \<Rightarrow> nat \<Rightarrow> nat \<Rightarrow> bytes" where
  "format_boot label hidden total_count spf =
     (let b = replicate BLOCKDEV_SECTOR_SIZE 0;
          b = poke 0 [0xEB, 0x58, 0x90] b;
          b = poke 3 (text_bytes ''PRISMOS '') b;
          b = put_u16 11 BLOCKDEV_SECTOR_SIZE b;
          b = poke 13 [1] b;
          b = put_u16 14 FORMAT_RESERVED b;
          b = poke 16 [2] b;
          b = put_u16 17 0 b;
          b = put_u16 19 0 b;
          b = poke 21 [0xF8] b;
          b = put_u16 22 0 b;
          b = put_u16 24 63 b;
          b = put_u16 26 255 b;
          b = put_u32 28 hidden b;
          b = put_u32 32 total_count b;
          b = put_u32 36 spf b;
          b = put_u16 40 0 b;
          b = put_u16 42 0 b;
          b = put_u32 44 2 b;
          b = put_u16 48 1 b;
          b = put_u16 50 6 b;
          b = poke 64 [0x80] b;
          b = poke 66 [0x29] b;
          b = put_u32 67 (hidden XOR total_count XOR 0x50524953) b;
          b = poke 71 label b;
          b = poke 82 (text_bytes ''FAT32   '') b
      in poke 510 [0x55, 0xAA] b)"

definition format_write ::
    "'d blockdev \<Rightarrow> bytes \<Rightarrow> nat \<Rightarrow> nat \<Rightarrow> nat \<Rightarrow> nat \<Rightarrow> 'd \<Rightarrow> unit io_res \<times> 'd" where
  "format_write io label hidden total_count spf data_clusters =
     bindr (write_fat_sectors io FORMAT_RESERVED [0..<spf]) (\<lambda>_.
     bindr (write_fat_sectors io (FORMAT_RESERVED + spf) [0..<spf]) (\<lambda>_.
     bindr (write_sector io 1 (format_fsinfo data_clusters)) (\<lambda>_.
     bindr (write_sector io 7 (format_fsinfo data_clusters)) (\<lambda>_.
     bindr (write_sector io (FORMAT_RESERVED + 2 * spf) (format_root label)) (\<lambda>_.
     bindr (write_sector io 6 (format_boot label hidden total_count spf)) (\<lambda>_.
       write_sector io 0 (format_boot label hidden total_count spf)))))))"

text \<open>The volume is unmounted before the first write.\<close>

definition fat32_format_volume ::
    "'d blockdev \<Rightarrow> bytes \<Rightarrow> nat \<Rightarrow> fat32_state \<Rightarrow> 'd \<Rightarrow> resize \<times> fat32_state \<times> 'd" where
  "fat32_format_volume io label hidden g d =
     (let total_count = bd_count io d
      in if total_count \<le> FORMAT_RESERVED + 2 * 2 then (RESIZE_ERROR_INVALID, g, d)
         else case fat32_prepare_volume_label label of
           None \<Rightarrow> (RESIZE_ERROR_INVALID, g, d)
         | Some l \<Rightarrow>
             (case format_fat_size 16 total_count 1 of
                None \<Rightarrow> (RESIZE_ERROR_INVALID, g, d)
              | Some (spf, data_clusters) \<Rightarrow>
                  if data_clusters = 0 \<or> 0x0FFFFFF0 - 2 < data_clusters
                     \<or> spf * (BLOCKDEV_SECTOR_SIZE div 4) < data_clusters + 2
                  then (RESIZE_ERROR_INVALID, g, d)
                  else case format_write io l hidden total_count spf data_clusters d of
                    (Done _, d) \<Rightarrow> (RESIZE_OK, fat32_unmount g, d)
                  | (_, d) \<Rightarrow> (RESIZE_ERROR_IO, fat32_unmount g, d)))"

section \<open>Sizes that cannot be formatted\<close>

lemma format_never_meets:
  assumes s: "s < 8000000" and e: "e = 1 \<or> e = 2"
  shows "format_fat_size n (130 * s + 30 + e) spf = None"
proof (induction n arbitrary: spf)
  case (Suc n)
  let ?t = "130 * s + 30 + e"
  have "sub32 (add32 (mul32 (add32 (?t - 32 - 2 * spf) 2) 4) 512) 1 div 512 \<noteq> spf"
    if le: "spf \<le> (?t - 32) div 2"
  proof
    define q where "q = ?t - 32 - 2 * spf"
    have q: "q + 32 + 2 * spf = ?t \<or> s = 0 \<and> q = 0 \<and> spf = 0" using le e unfolding q_def by auto
    have b: "q < 1040000000" using s e unfolding q_def by auto
    have "sub32 (add32 (mul32 (add32 q 2) 4) 512) 1 = 4 * q + 519"
      using b by simp
    moreover assume "sub32 (add32 (mul32 (add32 (?t - 32 - 2 * spf) 2) 4) 512) 1 div 512 = spf"
    ultimately have "(4 * q + 519) div 512 = spf" unfolding q_def [symmetric] by simp
    then have "512 * spf \<le> 4 * q + 519" "4 * q + 519 < 512 * spf + 512" by auto
    then show False using q e by (cases "spf \<le> s") auto
  qed
  then show ?case using Suc by (simp add: FORMAT_RESERVED_def BLOCKDEV_SECTOR_SIZE_def Let_def)
qed simp

text \<open>
  C25. The search for the FAT size alternates between two values for two of every 130 volume
  sizes and never meets its own result, so \<open>fat32_format_volume\<close> refuses a volume of \<open>130 s + 31\<close> or
  \<open>130 s + 32\<close> sectors as invalid and touches nothing.
\<close>

lemma fat32_format_refuses:
  assumes "bd_count io d = 130 * s + 30 + e" "s < 8000000" "e = 1 \<or> e = 2"
  shows "fat32_format_volume io label hidden g d = (RESIZE_ERROR_INVALID, g, d)"
  unfolding fat32_format_volume_def
  by (simp add: Let_def assms(1) format_never_meets [OF assms(2,3)] split: option.splits)

lemma fat32_format_refuses_witness:
  "fat32_format_volume \<lparr>bd_read = \<lambda>n d. (None, d), bd_write = \<lambda>n b d. (True, d), bd_count = \<lambda>d. 2621481\<rparr>
     (text_bytes ''PRISM'') 0 fs_zero () = (RESIZE_ERROR_INVALID, fs_zero, ())"
  by (rule fat32_format_refuses [of _ _ 20165 1]) simp_all

end
