(* ===== verification/Fat32_Format.thy ===== *)
theory Fat32_Format
  imports Fat32_Volume Fat32_Contract
begin

text \<open>
  A volume that \<open>fat32_format_volume\<close> made mounts, and is empty: the geometry read back from the boot sector
  is the one formatted, every cluster but the root is free, and the root directory holds the label only.
\<close>

section \<open>Reading the boot sector back\<close>

definition format_geometry :: "nat \<Rightarrow> nat \<Rightarrow> fat32_state" where
  "format_geometry sectors spf = \<lparr>mounted = True, bytes_per_sector = 512, sectors_per_cluster = 1,
     reserved_sectors = 32, fat_count = 2, total_sectors = sectors, sectors_per_fat = spf, root_cluster = 2,
     fat_start_sector = 32, data_start_sector = 32 + 2 * spf\<rparr>"

text \<open>A buffer filled by a list of writes, and what its bytes are: the last write that covers an index counts.\<close>

fun pokes :: "(nat \<times> bytes) list \<Rightarrow> bytes \<Rightarrow> bytes" where
  "pokes [] b = b"
| "pokes ((off, xs) # ps) b = pokes ps (poke off xs b)"

fun byte_of :: "(nat \<times> bytes) list \<Rightarrow> nat \<Rightarrow> u8 \<Rightarrow> u8" where
  "byte_of [] i x = x"
| "byte_of ((off, xs) # ps) i x =
     byte_of ps i (if off \<le> i \<and> i < off + length xs then xs ! (i - off) else x)"

definition in_buffer :: "nat \<Rightarrow> (nat \<times> bytes) list \<Rightarrow> bool" where
  "in_buffer n ps \<longleftrightarrow> (\<forall>(off, xs) \<in> set ps. off + length xs \<le> n)"

lemma pokes_bytes:
  "in_buffer (length b) ps \<Longrightarrow> length (pokes ps b) = length b \<and>
    (\<forall>i < length b. pokes ps b ! i = byte_of ps i (b ! i))"
proof (induction ps b rule: pokes.induct)
  case (2 off xs ps b)
  then have len: "off + length xs \<le> length b" by (simp add: in_buffer_def)
  then have "in_buffer (length (poke off xs b)) ps" using 2(2) by (auto simp: in_buffer_def)
  then show ?case using 2(1) len by (simp add: nth_poke)
qed simp

lemma text_bytes_length [simp]: "length (text_bytes s) = length s"
  by (simp add: text_bytes_def)

definition boot_writes :: "bytes \<Rightarrow> nat \<Rightarrow> nat \<Rightarrow> nat \<Rightarrow> (nat \<times> bytes) list" where
  "boot_writes label hidden sectors spf =
     [(0, [0xEB, 0x58, 0x90]), (3, text_bytes ''PRISMOS ''), (11, le_of_u16 512), (13, [1]), (14, le_of_u16 32),
      (16, [2]), (17, le_of_u16 0), (19, le_of_u16 0), (21, [0xF8]), (22, le_of_u16 0), (24, le_of_u16 63),
      (26, le_of_u16 255), (28, le_of_u32 (of_nat hidden)), (32, le_of_u32 (of_nat sectors)),
      (36, le_of_u32 (of_nat spf)), (40, le_of_u16 0), (42, le_of_u16 0), (44, le_of_u32 2), (48, le_of_u16 1),
      (50, le_of_u16 6), (64, [0x80]), (66, [0x29]),
      (67, le_of_u32 (of_nat (hidden XOR sectors XOR 0x50524953))), (71, label), (82, text_bytes ''FAT32   ''),
      (510, [0x55, 0xAA])]"

lemma format_boot_writes:
  "format_boot label hidden sectors spf = pokes (boot_writes label hidden sectors spf) (replicate 512 0)"
  by (simp add: format_boot_def boot_writes_def Let_def put_u16_def put_u32_def BLOCKDEV_SECTOR_SIZE_def
      FORMAT_RESERVED_def)

lemma format_boot_bytes:
  assumes "length label = 11"
  shows "length (format_boot label hidden sectors spf) = 512"
    "i < 512 \<Longrightarrow> format_boot label hidden sectors spf ! i = byte_of (boot_writes label hidden sectors spf) i 0"
proof -
  have "in_buffer (length (replicate 512 (0 :: u8))) (boot_writes label hidden sectors spf)"
    using assms by (simp add: in_buffer_def boot_writes_def)
  then show "length (format_boot label hidden sectors spf) = 512"
    "i < 512 \<Longrightarrow> format_boot label hidden sectors spf ! i = byte_of (boot_writes label hidden sectors spf) i 0"
    using pokes_bytes by (auto simp: format_boot_writes)
qed

lemma format_boot_fields:
  assumes "length label = 11" "sectors < 4294967296" "spf < 4294967296"
    and b: "b = format_boot label hidden sectors spf"
  shows "b ! 510 = 0x55" "b ! 511 = 0xAA" "u16_at b 11 = 512" "b ! 13 = 1" "u16_at b 14 = 32" "b ! 16 = 2"
    "u32_at b 32 = sectors" "u32_at b 36 = spf" "u32_at b 44 = 2"
proof -
  have byte: "b ! i = byte_of (boot_writes label hidden sectors spf) i 0" if "i < 512" for i
    unfolding b by (rule format_boot_bytes(2) [OF assms(1) that])
  show "b ! 510 = 0x55" "b ! 511 = 0xAA" "b ! 13 = 1" "b ! 16 = 2"
    by (simp_all add: byte) (simp_all add: boot_writes_def assms(1))
  show "u16_at b 11 = 512" "u16_at b 14 = 32"
    unfolding u16_at_def using u16_bytes [of 512] u16_bytes [of 32]
    by (simp_all add: byte) (simp_all add: boot_writes_def assms(1))
  show "u32_at b 32 = sectors" "u32_at b 36 = spf" "u32_at b 44 = 2"
    unfolding u32_at_def using u32_bytes [of "of_nat sectors"] u32_bytes [of "of_nat spf"] u32_bytes [of 2]
    by (simp_all add: byte) (simp_all add: boot_writes_def assms unat_of_nat)
qed

lemma format_fat_size_meets:
  assumes "format_fat_size k sectors x = Some (spf, dc)" "sectors < 268435456"
  shows "dc = sectors - 32 - 2 * spf" "(dc + 2) * 4 \<le> spf * 512" "2 * spf \<le> sectors - 32"
    "spf * 512 \<le> (dc + 2) * 4 + 511"
proof -
  have "dc = sectors - 32 - 2 * spf \<and> (dc + 2) * 4 \<le> spf * 512 \<and> 2 * spf \<le> sectors - 32
      \<and> spf * 512 \<le> (dc + 2) * 4 + 511"
    using assms(1)
  proof (induction k arbitrary: x)
    case (Suc k)
    let ?dc = "sectors - 32 - 2 * x"
    let ?req = "sub32 (add32 (mul32 (add32 ?dc 2) 4) 512) 1 div 512"
    have x: "x \<le> (sectors - 32) div 2"
      using Suc.prems by (auto simp: FORMAT_RESERVED_def split: if_splits)
    have "sub32 (add32 (mul32 (add32 ?dc 2) 4) 512) 1 = (?dc + 2) * 4 + 511" using assms(2) by simp
    moreover have "(?dc + 2) * 4 \<le> ((?dc + 2) * 4 + 511) div 512 * 512" by linarith
    moreover have "((?dc + 2) * 4 + 511) div 512 * 512 \<le> (?dc + 2) * 4 + 511" by (rule div_times_less_eq_dividend)
    ultimately have req: "(?dc + 2) * 4 \<le> ?req * 512" "?req * 512 \<le> (?dc + 2) * 4 + 511" by simp_all
    show ?case
    proof (cases "?req = x")
      case True
      then have "spf = x \<and> dc = ?dc" using Suc.prems x
        by (auto simp: FORMAT_RESERVED_def BLOCKDEV_SECTOR_SIZE_def Let_def)
      then show ?thesis using req True x by auto
    next
      case False
      then show ?thesis using Suc x by (simp add: FORMAT_RESERVED_def BLOCKDEV_SECTOR_SIZE_def Let_def)
    qed
  qed simp
  then show "dc = sectors - 32 - 2 * spf" "(dc + 2) * 4 \<le> spf * 512" "2 * spf \<le> sectors - 32"
    "spf * 512 \<le> (dc + 2) * 4 + 511" by auto
qed

section \<open>What formatting writes\<close>

definition formatted :: "nat \<Rightarrow> bytes \<Rightarrow> nat \<Rightarrow> nat \<Rightarrow> disk \<Rightarrow> bool" where
  "formatted N label hidden spf m \<longleftrightarrow> sound_disk N m \<and> m 0 = format_boot label hidden N spf
     \<and> (\<forall>k < spf. m (32 + k) = (if k = 0 then format_first_fat_sector else replicate 512 0))
     \<and> m (32 + 2 * spf) = format_root label"

lemma prepared_label:
  assumes "fat32_prepare_volume_label label = Some l"
  shows "length l = 11" "l ! 0 \<noteq> 0" "l ! 0 \<noteq> 0xE5"
proof -
  have label: "label \<noteq> []" "length label \<le> 11" "list_all label_char label"
    "l = map to_upper label @ replicate (11 - length label) space"
    using assms by (auto simp: fat32_prepare_volume_label_def split: if_splits)
  then show "length l = 11" by simp
  obtain x xs where x: "label = x # xs" using label(1) by (cases label) auto
  have "label_char x \<longrightarrow> to_upper x \<noteq> 0 \<and> to_upper x \<noteq> 0xE5" for x
    by (rule byte_all [of "\<lambda>x. label_char x \<longrightarrow> to_upper x \<noteq> 0 \<and> to_upper x \<noteq> 0xE5"]) code_simp
  then show "l ! 0 \<noteq> 0" "l ! 0 \<noteq> 0xE5" using label x by (simp_all add: nth_append)
qed

lemma length_format_root: "length label = 11 \<Longrightarrow> length (format_root label) = 512"
  by (simp add: format_root_def BLOCKDEV_SECTOR_SIZE_def)

lemma length_format_first: "length format_first_fat_sector = 512"
  by (simp add: format_first_fat_sector_def)

lemma length_format_fsinfo: "length (format_fsinfo n) = 512"
  by (simp add: format_fsinfo_def BLOCKDEV_SECTOR_SIZE_def)

context block_device
begin

lemma gives_fat_sectors:
  "\<forall>k \<in> set ks. start + k < N \<Longrightarrow> gives (write_fat_sectors io start ks) m (\<lambda>_ m'. \<forall>n. m' n =
     (if n \<in> (+) start ` set ks then (if n = start then format_first_fat_sector else replicate 512 0) else m n))"
proof (induction ks arbitrary: m)
  case (Cons k ks)
  let ?b = "if k = 0 then format_first_fat_sector else replicate BLOCKDEV_SECTOR_SIZE 0"
  have "gives (write_fat_sectors io start ks) (m(start + k := ?b)) (\<lambda>_ m'. \<forall>n. m' n =
     (if n \<in> (+) start ` set ks then (if n = start then format_first_fat_sector else replicate 512 0)
      else (m(start + k := ?b)) n))"
    using Cons.prems by (intro Cons.IH) auto
  then have "gives (write_fat_sectors io start ks) (m(start + k := ?b)) (\<lambda>_ m'. \<forall>n. m' n =
     (if n \<in> (+) start ` set (k # ks) then (if n = start then format_first_fat_sector else replicate 512 0) else m n))"
    by (rule gives_weaken) (auto simp: BLOCKDEV_SECTOR_SIZE_def)
  then show ?case using Cons.prems unfolding write_fat_sectors.simps
    by (intro write_bind) (auto simp: BLOCKDEV_SECTOR_SIZE_def length_format_first)
qed (simp add: gives_ret)

lemma gives_format:
  assumes "length label = 11" "sound_disk N m" "32 + 2 * spf < N" "0 < spf"
  shows "gives (format_write io label hidden N spf dc) m (\<lambda>_. formatted N label hidden spf)"
proof -
  let ?fats = "\<lambda>m2. \<forall>n. m2 n = (if 32 \<le> n \<and> n < 32 + spf then (if n = 32 then format_first_fat_sector else replicate 512 0)
      else if 32 + spf \<le> n \<and> n < 32 + 2 * spf
      then (if n = 32 + spf then format_first_fat_sector else replicate 512 0) else m n)"
  have area: "(+) a ` set [0..<spf] = {a..<a + spf}" for a :: nat by (auto simp: image_iff intro: bexI [of _ "_ - a"])
  have root: "gives (bindr (write_sector io 1 (format_fsinfo dc)) (\<lambda>_. bindr (write_sector io 7 (format_fsinfo dc)) (\<lambda>_.
     bindr (write_sector io (FORMAT_RESERVED + 2 * spf) (format_root label)) (\<lambda>_.
     bindr (write_sector io 6 (format_boot label hidden N spf)) (\<lambda>_.
       write_sector io 0 (format_boot label hidden N spf)))))) m2 (\<lambda>_. formatted N label hidden spf)"
    if m2: "?fats m2" for m2
  proof (intro write_bind)
    let ?m = "m2(1 := format_fsinfo dc, 7 := format_fsinfo dc, FORMAT_RESERVED + 2 * spf := format_root label,
        6 := format_boot label hidden N spf)"
    have "formatted N label hidden spf (?m(0 := format_boot label hidden N spf))"
      unfolding formatted_def
    proof (intro conjI allI impI)
      show "sound_disk N (?m(0 := format_boot label hidden N spf))"
        using m2 assms(1,2) by (auto simp: sound_disk_def length_format_fsinfo length_format_root
            format_boot_bytes(1) length_format_first)
      fix k assume "k < spf"
      then show "(?m(0 := format_boot label hidden N spf)) (32 + k) =
          (if k = 0 then format_first_fat_sector else replicate 512 0)"
        using m2 by (simp add: FORMAT_RESERVED_def)
    qed (simp_all add: FORMAT_RESERVED_def)
    then show "gives (write_sector io 0 (format_boot label hidden N spf)) ?m (\<lambda>_. formatted N label hidden spf)"
      using assms(1,3) by (intro gives_weaken [OF gives_write]) (auto simp: format_boot_bytes(1))
  qed (use assms(1,3) in \<open>simp_all add: length_format_fsinfo length_format_root format_boot_bytes(1) FORMAT_RESERVED_def\<close>)
  show ?thesis unfolding format_write_def
  proof (rule gives_bind [OF gives_fat_sectors], goal_cases)
    case 1
    then show ?case using assms(3) by (simp add: FORMAT_RESERVED_def)
  next
    case (2 u m1)
    note m1 = this
    show ?case
    proof (rule gives_bind [OF gives_fat_sectors], goal_cases)
      case 1
      then show ?case using assms(3) by (simp add: FORMAT_RESERVED_def)
    next
      case (2 v m2)
      have "?fats m2" using 2 m1 unfolding area FORMAT_RESERVED_def by auto
      then show ?case by (rule root)
    qed
  qed
qed

end

section \<open>The volume read back\<close>

lemma formatted_geom:
  assumes "32 + 2 * spf + dc = N" "0 < spf" "N < 268435456" "dc + 2 \<le> spf * 128" "2 * spf \<le> N" "spf < 2097152"
  shows "geom N (format_geometry N spf)"
  using assms by (simp add: geom_def format_geometry_def)

lemma formatted_volume:
  assumes "32 + 2 * spf + dc = N" "N < 268435456" "dc + 2 \<le> spf * 128" "spf < 2097152"
  shows "in_volume (format_geometry N spf) c \<longleftrightarrow> 2 \<le> c \<and> c < 2 + dc"
proof -
  have "fat_entry_capacity (format_geometry N spf) = spf * 128"
    using assms by (simp add: fat_entry_capacity_def format_geometry_def BLOCKDEV_SECTOR_SIZE_def)
  moreover have "sub32 (total_sectors (format_geometry N spf)) (data_start_sector (format_geometry N spf)) = dc"
    using assms by (simp add: format_geometry_def)
  moreover have "sectors_per_cluster (format_geometry N spf) = 1" by (simp add: format_geometry_def)
  ultimately show ?thesis using assms
    by (auto simp: in_volume_def max_cluster_index_def clamp_cluster_limit_def Let_def)
qed

lemma formatted_fat:
  assumes "formatted N label hidden spf m" "in_volume (format_geometry N spf) c" "c < spf * 128"
  shows "fat (format_geometry N spf) m c = (if c = 2 then FAT32_CLUSTER_EOC else 0)"
proof -
  let ?g = "format_geometry N spf"
  have s: "fat_start_sector ?g = 32" by (simp add: format_geometry_def)
  have c: "2 \<le> c" "c div 128 < spf" using assms(2,3) by (auto simp: in_volume_def intro: less_mult_imp_div_less)
  have b: "m (32 + c div 128) = (if c div 128 = 0 then format_first_fat_sector else replicate 512 0)"
    using assms(1) c(2) by (simp add: formatted_def)
  have off: "c mod 128 * 4 + 4 \<le> 512" by (rule offset_in_sector)
  have zero: "u32_at (replicate 512 0) (c mod 128 * 4) = 0" using off by (simp add: u32_at_def u32_of_le_def)
  have first: "u32_at format_first_fat_sector 8 = 0xFFFFFFF"
    by (simp add: u32_at_def u32_of_le_def format_first_fat_sector_def)
  have rest: "u32_at format_first_fat_sector (c * 4) = 0" if "3 \<le> c" "c < 128"
    using that by (simp add: u32_at_def u32_of_le_def format_first_fat_sector_def nth_append)
  have "fat_entry ?g m c = (if c = 2 then FAT32_CLUSTER_EOC else 0)"
  proof (cases "c < 128")
    case True
    then show ?thesis using b c(1) first rest by (cases "c = 2") (simp_all add: fat_entry_def s FAT32_CLUSTER_EOC_def)
  next
    case False
    then have "c div 128 \<noteq> 0" by simp
    then show ?thesis using b zero False by (simp add: fat_entry_def s)
  qed
  then show ?thesis using assms(2) by (simp add: fat_def)
qed

lemma formatted_root:
  assumes "formatted N label hidden spf m" "length label = 11" "label ! 0 \<noteq> 0" "label ! 0 \<noteq> 0xE5"
  shows "lookup (slot_entry m) name (dir_slots (format_geometry N spf) [2]) None =
    Inl (if name = label then Slot_Found (32 + 2 * spf) 0 (label @ [8] @ replicate 20 0) else Slot_Free (32 + 2 * spf) 32)"
proof -
  let ?n = "32 + 2 * spf"
  have "[?n..<?n + 1] = [?n]" using upt_conv_Cons [of ?n "?n + 1"] by simp
  then have slots: "dir_slots (format_geometry N spf) [2] = map (Pair ?n) entry_offsets"
    unfolding dir_slots_def first_sector_def by (simp add: format_geometry_def)
  have root: "m ?n = label @ [8] @ replicate 500 0"
    using assms(1,2) by (simp add: formatted_def format_root_def poke_def BLOCKDEV_SECTOR_SIZE_def FAT32_ATTR_VOLUME_ID_def)
  have e0: "slot_entry m (?n, 0) = label @ [8] @ replicate 20 0"
    using assms(2) by (simp add: slot_entry_def root)
  have e1: "slot_entry m (?n, 32) = replicate 32 0"
    using assms(2) by (simp add: slot_entry_def root)
  have offs: "entry_offsets = 0 # 32 # map (\<lambda>i. i * 32) [2..<16]"
    by (simp add: entry_offsets_def upt_rec [of 0] upt_rec [of "Suc 0"] numeral_2_eq_2)
  show ?thesis unfolding slots offs
    using assms(2-4) by (simp add: e0 e1 deleted_def nth_append FAT32_ATTR_LFN_def)
qed

context block_device
begin

lemma mount_formatted:
  assumes "ok d" "formatted N label hidden spf (view d)" "length label = 11" "geom N (format_geometry N spf)"
    and "32 + 2 * spf < N"
  shows "\<exists>d'. fat32_mount io d = ((True, format_geometry N spf), d') \<and> view d' = view d"
proof -
  let ?b = "format_boot label hidden N spf"
  have size: "spf < 2097152" "0 < spf" "N < 4294967296"
    using assms(4) by (simp_all add: geom_def format_geometry_def)
  have boot: "view d 0 = ?b" using assms(2) by (simp add: formatted_def)
  from returnsD [OF yields_read [of 0 "view d", unfolded gets_def] assms(1) refl] assms(5)
  obtain d' where d': "read_sector io 0 d = (Done ?b, d')" "ok d'" "view d' = view d" using boot by auto
  note f = format_boot_fields [OF assms(3), of N spf ?b hidden]
  have "boot_geometry ?b = fs_zero\<lparr>bytes_per_sector := 512, sectors_per_cluster := 1, reserved_sectors := 32,
      fat_count := 2, total_sectors := N, sectors_per_fat := spf, root_cluster := 2\<rparr>"
    using f size by (simp add: boot_geometry_def)
  moreover have "add32 32 (mul32 2 spf) = 32 + 2 * spf" using size by simp
  ultimately have "(layout_geometry (boot_geometry ?b))\<lparr>mounted := True\<rparr> = format_geometry N spf"
    "layout_geometry (boot_geometry ?b) = (format_geometry N spf)\<lparr>mounted := False\<rparr>"
    by (simp_all add: layout_geometry_def format_geometry_def fs_zero_def)
  then have "fat32_mount io d = ((True, format_geometry N spf), d')"
    using f size d'(1) assms(5) count [OF d'(2)] \<open>boot_geometry ?b = _\<close>
    by (simp add: fat32_mount_def Let_def BLOCKDEV_SECTOR_SIZE_def) (simp add: format_geometry_def)
  then show ?thesis using d'(3) by blast
qed

lemma format_result:
  assumes "ok d" "N < 268435456" "fat32_format_volume io label hidden g d = (RESIZE_OK, g', d')"
  shows "\<exists>l spf dc. fat32_prepare_volume_label label = Some l \<and> formatted N l hidden spf (view d') \<and> ok d'
    \<and> 32 + 2 * spf + dc = N \<and> 0 < dc \<and> 0 < spf \<and> dc + 2 \<le> spf * 128 \<and> spf < 2097152"
proof -
  obtain l spf dc where l: "fat32_prepare_volume_label label = Some l"
    and search: "format_fat_size 16 N 1 = Some (spf, dc)"
    and ok: "0 < dc" "N > 36" and run: "fst (format_write io l hidden N spf dc d) = Done ()"
      "snd (format_write io l hidden N spf dc d) = d'"
    using assms(3) count [OF assms(1)]
    by (auto simp: fat32_format_volume_def Let_def FORMAT_RESERVED_def split: option.splits if_splits prod.splits io_res.splits)
  note meets = format_fat_size_meets [OF search assms(2)]
  have sum: "32 + 2 * spf + dc = N" using meets ok by simp
  have spf: "0 < spf" "dc + 2 \<le> spf * 128" using meets ok by simp_all
  have small: "spf < 2097152" using meets(4) sum assms(2) by simp
  have "formatted N l hidden spf (view d') \<and> ok d'"
    using returnsD [OF gives_format [OF prepared_label(1) [OF l] view_sound [OF assms(1)], of spf hidden dc] assms(1) refl]
      run sum ok spf by auto
  then show ?thesis using l sum ok spf small by blast
qed

end

section \<open>The theorem\<close>

text \<open>The empty volume: what \<open>fat32_mount\<close> and a look-up in the root directory find.\<close>

definition empty_volume :: "fat32_state \<Rightarrow> disk \<Rightarrow> bytes \<Rightarrow> bool" where
  "empty_volume g m l \<longleftrightarrow> chain g (fat g m) (root_cluster g) [root_cluster g]
     \<and> free_clusters g m = {c. in_volume g c} - {root_cluster g}
     \<and> (\<forall>name. lookup (slot_entry m) name (dir_slots g [root_cluster g]) None =
          Inl (if name = l then Slot_Found (data_start_sector g) 0 (l @ [8] @ replicate 20 0)
               else Slot_Free (data_start_sector g) 32))"

context block_device
begin

lemma format_then_mount:
  assumes "N < 268435456" "ok d" "fat32_format_volume io label hidden g d = (RESIZE_OK, g', d')"
  shows "\<exists>g1 l d''. fat32_mount io d' = ((True, g1), d'') \<and> view d'' = view d' \<and> geom N g1
    \<and> fat32_prepare_volume_label label = Some l \<and> empty_volume g1 (view d') l"
proof -
  from format_result [OF assms(2,1,3)] obtain l spf dc where
    f: "fat32_prepare_volume_label label = Some l" "formatted N l hidden spf (view d')" "ok d'"
      "32 + 2 * spf + dc = N" "0 < dc" "0 < spf" "dc + 2 \<le> spf * 128" "spf < 2097152" by blast
  let ?g = "format_geometry N spf"
  have geom: "geom N ?g" using f assms(1) by (intro formatted_geom [of spf dc]) auto
  have vol: "in_volume ?g c \<longleftrightarrow> 2 \<le> c \<and> c < 2 + dc" for c
    by (rule formatted_volume [OF f(4) assms(1) f(7,8)])
  have fat: "fat ?g (view d') c = (if c = 2 then FAT32_CLUSTER_EOC else 0)" if "in_volume ?g c" for c
    using that f(7) vol by (intro formatted_fat [OF f(2)]) auto
  have two: "in_volume ?g 2" using vol f(5) by simp
  have g: "root_cluster ?g = 2" "data_start_sector ?g = 32 + 2 * spf" by (simp_all add: format_geometry_def)
  have "chain ?g (fat ?g (view d')) 2 [2]" using two fat [OF two] not_data_EOC by simp
  moreover have "free_clusters ?g (view d') = {c. in_volume ?g c} - {2}"
    using fat not_data_EOC(2) by (auto simp: free_clusters_def split: if_splits)
  ultimately have "empty_volume ?g (view d') l"
    using formatted_root [OF f(2) prepared_label [OF f(1)]] by (simp add: empty_volume_def g)
  moreover have "32 + 2 * spf < N" using f(4,5) by simp
  ultimately show ?thesis
    using mount_formatted [OF f(3,2) prepared_label(1) [OF f(1)] geom] geom f(1) by blast
qed

lemma format_succeeds:
  assumes "ok d" "36 < N" "fat32_prepare_volume_label label = Some l" "format_fat_size 16 N 1 = Some (spf, dc)"
    and "0 < dc" "dc + 2 \<le> spf * 128" "dc \<le> 0x0FFFFFEE" "32 + 2 * spf < N"
  shows "\<exists>d'. fat32_format_volume io label hidden g d = (RESIZE_OK, fat32_unmount g, d')"
proof -
  have "0 < spf" using assms(5,6) by (cases spf) auto
  from returnsD [OF gives_format [OF prepared_label(1) [OF assms(3)] view_sound [OF assms(1)] assms(8) this,
        of hidden dc] assms(1) refl]
  obtain d' where "format_write io l hidden N spf dc d = (Done (), d')" by auto
  then show ?thesis using assms(2-7) count [OF assms(1)]
    by (simp add: fat32_format_volume_def Let_def FORMAT_RESERVED_def BLOCKDEV_SECTOR_SIZE_def)
qed

end

text \<open>
  C26. A volume that \<open>fat32_format_volume\<close> reports as formatted mounts; all its clusters are
  free but the root, and the root directory is empty except for the entry of the label: a look-up finds only a
  name that equals the padded label.
\<close>

lemma fat32_format_mounts:
  assumes "block_device io ok view N" "N < 268435456" "ok d"
    and "fat32_format_volume io label hidden g d = (RESIZE_OK, g', d')"
  shows "\<exists>g1 l d''. fat32_mount io d' = ((True, g1), d'') \<and> view d'' = view d' \<and> geom N g1
    \<and> fat32_prepare_volume_label label = Some l \<and> empty_volume g1 (view d') l"
  by (rule block_device.format_then_mount [OF assms])

lemma fat32_format_mounts_witness:
  "\<exists>d' g1 l d''. fat32_format_volume (ram_disk 100) (text_bytes ''PRISM'') 0 fs_zero (\<lambda>n. replicate 512 0) =
       (RESIZE_OK, fat32_unmount fs_zero, d')
     \<and> fat32_mount (ram_disk 100) d' = ((True, g1), d'') \<and> d'' = d' \<and> geom 100 g1
     \<and> fat32_prepare_volume_label (text_bytes ''PRISM'') = Some l \<and> empty_volume g1 d' l"
proof -
  let ?m = "\<lambda>n :: nat. replicate 512 (0 :: u8)"
  have m: "sound_disk 100 ?m" by (simp add: sound_disk_def)
  have l: "fat32_prepare_volume_label (text_bytes ''PRISM'') = Some (text_bytes ''PRISM      '')" by code_simp
  have s: "format_fat_size 16 100 1 = Some (1, 66)"
    using format_fat_size.simps(2) [of 15 100 1] by (simp add: FORMAT_RESERVED_def BLOCKDEV_SECTOR_SIZE_def)
  obtain d' where d': "fat32_format_volume (ram_disk 100) (text_bytes ''PRISM'') 0 fs_zero ?m =
      (RESIZE_OK, fat32_unmount fs_zero, d')"
    using block_device.format_succeeds [where ok = "sound_disk 100" and view = "\<lambda>m. m",
        OF ram_disk_contract m _ l s] by auto
  have n: "(100 :: nat) < 268435456" by simp
  from fat32_format_mounts [where ok = "sound_disk 100" and view = "\<lambda>m. m", OF ram_disk_contract n m d'] d'
  show ?thesis by blast
qed

end
