(* ===== verification/Blockdev.thy ===== *)
theory Blockdev
  imports Fat32_Contract
begin

text \<open>
  \<open>filesystem/blockdev.c\<close>: ATA drives in PIO mode behind the sector interface, and the window of the
  selected partition. The controller is a parameter: the record \<open>ports\<close> of port operations on a hardware
  state. The locale \<open>ata_drive\<close> states the part of the ATA protocol that the driver relies on; it gives the
  contract \<open>block_device\<close> under which the FAT32 driver was verified.
\<close>

section \<open>Ports and drives\<close>

record 'h ports =
  p_inb :: "u16 \<Rightarrow> 'h \<Rightarrow> u8 \<times> 'h"
  p_outb :: "u16 \<Rightarrow> u8 \<Rightarrow> 'h \<Rightarrow> 'h"
  p_inw :: "u16 \<Rightarrow> 'h \<Rightarrow> u16 \<times> 'h"
  p_outw :: "u16 \<Rightarrow> u16 \<Rightarrow> 'h \<Rightarrow> 'h"

definition ATA_REG_DATA :: u16 where "ATA_REG_DATA = 0"
definition ATA_REG_SECCOUNT :: u16 where "ATA_REG_SECCOUNT = 2"
definition ATA_REG_LBA0 :: u16 where "ATA_REG_LBA0 = 3"
definition ATA_REG_LBA1 :: u16 where "ATA_REG_LBA1 = 4"
definition ATA_REG_LBA2 :: u16 where "ATA_REG_LBA2 = 5"
definition ATA_REG_HDDEVSEL :: u16 where "ATA_REG_HDDEVSEL = 6"
definition ATA_REG_COMMAND :: u16 where "ATA_REG_COMMAND = 7"
definition ATA_REG_STATUS :: u16 where "ATA_REG_STATUS = 7"
definition ATA_CMD_READ_SECTORS :: u8 where "ATA_CMD_READ_SECTORS = 0x20"
definition ATA_CMD_WRITE_SECTORS :: u8 where "ATA_CMD_WRITE_SECTORS = 0x30"
definition ATA_CMD_IDENTIFY :: u8 where "ATA_CMD_IDENTIFY = 0xEC"
definition ATA_STATUS_ERR :: u8 where "ATA_STATUS_ERR = 0x01"
definition ATA_STATUS_DRQ :: u8 where "ATA_STATUS_DRQ = 0x08"
definition ATA_STATUS_DF :: u8 where "ATA_STATUS_DF = 0x20"
definition ATA_STATUS_BSY :: u8 where "ATA_STATUS_BSY = 0x80"
definition ATA_WAIT_LIMIT :: nat where "ATA_WAIT_LIMIT = 1000000"
definition ATA_LBA28_LIMIT :: nat where "ATA_LBA28_LIMIT = 0x10000000"
definition BLOCKDEV_MAX_DRIVES :: nat where "BLOCKDEV_MAX_DRIVES = 4"

record ata_disk =
  io_base :: u16
  ctrl_base :: u16
  slave :: u8
  ad_sector_count :: nat

definition probe_targets :: "ata_disk list" where
  "probe_targets =
     [\<lparr>io_base = 0x1F0, ctrl_base = 0x3F6, slave = 0, ad_sector_count = 0\<rparr>,
      \<lparr>io_base = 0x1F0, ctrl_base = 0x3F6, slave = 1, ad_sector_count = 0\<rparr>,
      \<lparr>io_base = 0x170, ctrl_base = 0x376, slave = 0, ad_sector_count = 0\<rparr>,
      \<lparr>io_base = 0x170, ctrl_base = 0x376, slave = 1, ad_sector_count = 0\<rparr>]"

section \<open>The ATA exchange\<close>

definition ata_status :: "'h ports \<Rightarrow> ata_disk \<Rightarrow> 'h \<Rightarrow> u8 \<times> 'h" where
  "ata_status p disk = p_inb p (io_base disk + ATA_REG_STATUS)"

definition ata_alt_status :: "'h ports \<Rightarrow> ata_disk \<Rightarrow> 'h \<Rightarrow> u8 \<times> 'h" where
  "ata_alt_status p disk = p_inb p (ctrl_base disk)"

definition ata_delay_400ns :: "'h ports \<Rightarrow> ata_disk \<Rightarrow> 'h \<Rightarrow> 'h" where
  "ata_delay_400ns p disk h =
     (let poll = (\<lambda>h. snd (ata_alt_status p disk h)) in poll (poll (poll (poll h))))"

text \<open>The argument counts the turns left; \<open>True\<close> is the return value 0.\<close>

primrec ata_wait_ready :: "'h ports \<Rightarrow> ata_disk \<Rightarrow> nat \<Rightarrow> 'h \<Rightarrow> bool \<times> 'h" where
  "ata_wait_ready p disk 0 h = (False, h)"
| "ata_wait_ready p disk (Suc n) h =
     (let (status, h) = ata_alt_status p disk h
      in if status = 0 \<or> status = 0xFF then (False, h)
         else if status AND ATA_STATUS_BSY = 0 then (True, h)
         else ata_wait_ready p disk n h)"

primrec ata_wait_drq :: "'h ports \<Rightarrow> ata_disk \<Rightarrow> nat \<Rightarrow> 'h \<Rightarrow> bool \<times> 'h" where
  "ata_wait_drq p disk 0 h = (False, h)"
| "ata_wait_drq p disk (Suc n) h =
     (let (status, h) = ata_status p disk h
      in if status = 0 \<or> status = 0xFF then (False, h)
         else if status AND ATA_STATUS_BSY \<noteq> 0 then ata_wait_drq p disk n h
         else if status AND (ATA_STATUS_ERR OR ATA_STATUS_DF) \<noteq> 0 then (False, h)
         else if status AND ATA_STATUS_DRQ \<noteq> 0 then (True, h)
         else ata_wait_drq p disk n h)"

primrec read_words :: "'h ports \<Rightarrow> ata_disk \<Rightarrow> nat \<Rightarrow> 'h \<Rightarrow> u16 list \<times> 'h" where
  "read_words p disk 0 h = ([], h)"
| "read_words p disk (Suc n) h =
     (let (w, h) = p_inw p (io_base disk + ATA_REG_DATA) h; (ws, h) = read_words p disk n h in (w # ws, h))"

primrec write_words :: "'h ports \<Rightarrow> ata_disk \<Rightarrow> u16 list \<Rightarrow> 'h \<Rightarrow> 'h" where
  "write_words p disk [] h = h"
| "write_words p disk (w # ws) h = write_words p disk ws (p_outw p (io_base disk + ATA_REG_DATA) w h)"

definition put_reg :: "'h ports \<Rightarrow> ata_disk \<Rightarrow> u16 \<Rightarrow> u8 \<Rightarrow> 'h \<Rightarrow> 'h" where
  "put_reg p disk r v = p_outb p (io_base disk + r) v"

text \<open>\<open>None\<close> is -1.\<close>

definition ata_identify :: "'h ports \<Rightarrow> ata_disk \<Rightarrow> 'h \<Rightarrow> ata_disk option \<times> 'h" where
  "ata_identify p disk h =
     (let h = put_reg p disk ATA_REG_HDDEVSEL (0xA0 OR push_bit 4 (slave disk)) h;
          h = ata_delay_400ns p disk h;
          h = put_reg p disk ATA_REG_SECCOUNT 0 h;
          h = put_reg p disk ATA_REG_LBA0 0 h;
          h = put_reg p disk ATA_REG_LBA1 0 h;
          h = put_reg p disk ATA_REG_LBA2 0 h;
          h = put_reg p disk ATA_REG_COMMAND ATA_CMD_IDENTIFY h;
          (status, h) = ata_status p disk h
      in if status = 0 \<or> status = 0xFF then (None, h)
         else
           (let (drq, h) = ata_wait_drq p disk ATA_WAIT_LIMIT h
            in if \<not> drq then (None, h)
               else
                 (let (ws, h) = read_words p disk 256 h;
                      n = unat (ucast (ws ! 60) OR push_bit 16 (ucast (ws ! 61)) :: u32)
                  in if ws ! 0 AND 0x8000 \<noteq> 0 \<or> ws ! 49 AND push_bit 9 1 = 0 then (None, h)
                     else if n = 0 then (None, h)
                     else (Some (disk\<lparr>ad_sector_count := (if ATA_LBA28_LIMIT < n then ATA_LBA28_LIMIT else n)\<rparr>), h))))"

definition lba_byte :: "nat \<Rightarrow> nat \<Rightarrow> u8" where
  "lba_byte k lba = of_nat (lba div 2 ^ k mod 256)"

definition ata_select_lba :: "'h ports \<Rightarrow> ata_disk \<Rightarrow> nat \<Rightarrow> 'h \<Rightarrow> bool \<times> 'h" where
  "ata_select_lba p disk lba h =
     (let selector = 0xE0 OR push_bit 4 (slave disk) OR (lba_byte 24 lba AND 0x0F);
          h = ata_delay_400ns p disk (put_reg p disk ATA_REG_HDDEVSEL selector h);
          (ready, h) = ata_wait_ready p disk ATA_WAIT_LIMIT h
      in if \<not> ready then (False, h)
         else
           (let h = put_reg p disk ATA_REG_SECCOUNT 1 h;
                h = put_reg p disk ATA_REG_LBA0 (lba_byte 0 lba) h;
                h = put_reg p disk ATA_REG_LBA1 (lba_byte 8 lba) h
            in (True, put_reg p disk ATA_REG_LBA2 (lba_byte 16 lba) h)))"

definition bytes_of_words :: "u16 list \<Rightarrow> bytes" where
  "bytes_of_words ws = concat (map le_of_u16 ws)"

fun words_of_bytes :: "bytes \<Rightarrow> u16 list" where
  "words_of_bytes (a # b # xs) = u16_of_le a b # words_of_bytes xs"
| "words_of_bytes xs = []"

definition ata_read_sector_raw :: "'h ports \<Rightarrow> ata_disk \<Rightarrow> nat \<Rightarrow> 'h \<Rightarrow> bytes option \<times> 'h" where
  "ata_read_sector_raw p disk sector h =
     (if ad_sector_count disk \<le> sector then (None, h)
      else
        (let (ok, h) = ata_select_lba p disk sector h
         in if \<not> ok then (None, h)
            else
              (let h = put_reg p disk ATA_REG_COMMAND ATA_CMD_READ_SECTORS h;
                   (drq, h) = ata_wait_drq p disk ATA_WAIT_LIMIT h
               in if \<not> drq then (None, h)
                  else (let (ws, h) = read_words p disk (BLOCKDEV_SECTOR_SIZE div 2) h
                        in (Some (bytes_of_words ws), h)))))"

definition ata_write_sector_raw :: "'h ports \<Rightarrow> ata_disk \<Rightarrow> nat \<Rightarrow> bytes \<Rightarrow> 'h \<Rightarrow> bool \<times> 'h" where
  "ata_write_sector_raw p disk sector buf h =
     (if ad_sector_count disk \<le> sector then (False, h)
      else
        (let (ok, h) = ata_select_lba p disk sector h
         in if \<not> ok then (False, h)
            else
              (let h = put_reg p disk ATA_REG_COMMAND ATA_CMD_WRITE_SECTORS h;
                   (drq, h) = ata_wait_drq p disk ATA_WAIT_LIMIT h
               in if \<not> drq then (False, h)
                  else
                    (let h = write_words p disk (words_of_bytes buf) h
                     in ata_wait_ready p disk ATA_WAIT_LIMIT (put_reg p disk ATA_REG_COMMAND 0xE7 h)))))"

section \<open>The driver\<close>

record 'h bd_state =
  disks :: "ata_disk list"
  drive_count :: nat
  active_drive :: nat
  volume_start_sector :: nat
  volume_sector_count :: nat
  disk_ready :: bool
  hw :: 'h

fun probe :: "'h ports \<Rightarrow> ata_disk list \<Rightarrow> 'h bd_state \<Rightarrow> 'h bd_state" where
  "probe p [] s = s"
| "probe p (candidate # rest) s =
     (case ata_identify p candidate (hw s) of
        (None, h) \<Rightarrow> probe p rest (s\<lparr>hw := h\<rparr>)
      | (Some disk, h) \<Rightarrow>
          probe p rest (s\<lparr>disks := (disks s)[drive_count s := disk], drive_count := drive_count s + 1, hw := h\<rparr>))"

definition blockdev_init_disk :: "'h ports \<Rightarrow> 'h bd_state \<Rightarrow> bool \<times> 'h bd_state" where
  "blockdev_init_disk p s =
     (let s = probe p (take BLOCKDEV_MAX_DRIVES probe_targets)
                (s\<lparr>drive_count := 0, active_drive := 0, disk_ready := False\<rparr>)
      in if drive_count s = 0 then (False, s)
         else (True, s\<lparr>disk_ready := True, volume_start_sector := 0,
                       volume_sector_count := ad_sector_count (disks s ! active_drive s)\<rparr>))"

definition blockdev_drive_count :: "'h bd_state \<Rightarrow> nat" where
  "blockdev_drive_count s = drive_count s"

definition blockdev_current_drive :: "'h bd_state \<Rightarrow> nat" where
  "blockdev_current_drive s = active_drive s"

definition blockdev_get_drive_info :: "nat \<Rightarrow> 'h bd_state \<Rightarrow> nat option" where
  "blockdev_get_drive_info drive s =
     (if drive_count s \<le> drive then None else Some (ad_sector_count (disks s ! drive)))"

definition blockdev_select_drive :: "nat \<Rightarrow> 'h bd_state \<Rightarrow> bool \<times> 'h bd_state" where
  "blockdev_select_drive drive s =
     (if \<not> disk_ready s \<or> drive_count s \<le> drive then (False, s)
      else (True, s\<lparr>active_drive := drive, volume_start_sector := 0,
                    volume_sector_count := ad_sector_count (disks s ! drive)\<rparr>))"

definition blockdev_read_sector :: "'h ports \<Rightarrow> nat \<Rightarrow> 'h bd_state \<Rightarrow> bytes option \<times> 'h bd_state" where
  "blockdev_read_sector p sector s =
     (if \<not> disk_ready s \<or> volume_sector_count s \<le> sector then (None, s)
      else (let (r, h) = ata_read_sector_raw p (disks s ! active_drive s)
                           (add32 (volume_start_sector s) sector) (hw s)
            in (r, s\<lparr>hw := h\<rparr>)))"

definition blockdev_write_sector :: "'h ports \<Rightarrow> nat \<Rightarrow> bytes \<Rightarrow> 'h bd_state \<Rightarrow> bool \<times> 'h bd_state" where
  "blockdev_write_sector p sector buf s =
     (if \<not> disk_ready s \<or> volume_sector_count s \<le> sector then (False, s)
      else (let (r, h) = ata_write_sector_raw p (disks s ! active_drive s)
                           (add32 (volume_start_sector s) sector) buf (hw s)
            in (r, s\<lparr>hw := h\<rparr>)))"

definition blockdev_sector_count :: "'h bd_state \<Rightarrow> nat" where
  "blockdev_sector_count s = volume_sector_count s"

definition blockdev_device_sector_count :: "'h bd_state \<Rightarrow> nat" where
  "blockdev_device_sector_count s = (if disk_ready s then ad_sector_count (disks s ! active_drive s) else 0)"

definition blockdev_set_partition :: "nat \<Rightarrow> nat \<Rightarrow> 'h bd_state \<Rightarrow> bool \<times> 'h bd_state" where
  "blockdev_set_partition start sectors s =
     (let drive_sectors = blockdev_device_sector_count s
      in if sectors = 0 \<or> drive_sectors \<le> start \<or> drive_sectors - start < sectors then (False, s)
         else (True, s\<lparr>volume_start_sector := start, volume_sector_count := sectors\<rparr>))"

text \<open>The interface the file system sees.\<close>

definition blockdev_io :: "'h ports \<Rightarrow> 'h bd_state blockdev" where
  "blockdev_io p = \<lparr>bd_read = blockdev_read_sector p, bd_write = blockdev_write_sector p,
     bd_count = blockdev_sector_count\<rparr>"

section \<open>Words and bytes\<close>

lemma bytes_of_words_of_bytes: "even (length b) \<Longrightarrow> bytes_of_words (words_of_bytes b) = b"
proof (induction b rule: words_of_bytes.induct)
  case (1 x y xs)
  have "ucast (u16_of_le x y) = x" "ucast (drop_bit 8 (u16_of_le x y)) = y"
    unfolding u16_of_le_def by (rule bit_word_eqI, auto simp: bit_simps dest: bit_imp_le_length)+
  then have "le_of_u16 (u16_of_le x y) = [x, y]"
    by (simp add: le_of_u16_def)
  then show ?case using 1 by (simp add: bytes_of_words_def)
qed (auto simp: bytes_of_words_def)

lemma length_words_of_bytes: "length (words_of_bytes b) = length b div 2"
  by (induction b rule: words_of_bytes.induct) auto

lemma length_bytes_of_words: "length (bytes_of_words ws) = 2 * length ws"
  by (induction ws) (simp_all add: bytes_of_words_def)

section \<open>The drive as the protocol describes it\<close>

datatype ata_phase = Idle | Data_In "u16 list" | Data_Out nat "u16 list"

text \<open>\<open>av_busy\<close> is the number of polls that will still find the drive busy, \<open>av_flushes\<close> counts the flushes
  of its cache.\<close>

record ata_view =
  av_phase :: ata_phase
  av_busy :: nat
  av_seccount :: u8
  av_lba0 :: u8
  av_lba1 :: u8
  av_lba2 :: u8
  av_devsel :: u8
  av_sectors :: "nat \<Rightarrow> bytes"
  av_flushes :: nat

definition lba_of :: "ata_view \<Rightarrow> nat" where
  "lba_of v = unat (av_lba0 v) + 256 * unat (av_lba1 v) + 65536 * unat (av_lba2 v)
     + 16777216 * unat (av_devsel v AND 0x0F)"

definition addressed :: "ata_disk \<Rightarrow> ata_view \<Rightarrow> nat \<Rightarrow> bool" where
  "addressed disk v n \<longleftrightarrow> av_phase v = Idle \<and> av_busy v = 0 \<and> av_seccount v = 1 \<and> lba_of v = n
     \<and> av_devsel v AND 0xF0 = (0xE0 OR push_bit 4 (slave disk)) AND 0xF0"

text \<open>
  The PIO protocol for a drive that is written to only while it is not busy, with one exception that the
  driver forces: it sends FLUSH CACHE right behind the last word of a sector, when the drive is busy storing
  it. ATA forbids that write; \<open>busy_command\<close> is what the drive of the Makefile's machine (QEMU) does with a
  command in that state, it drops it.
\<close>

locale ata_drive =
  fixes p :: "'h ports" and disk :: ata_disk and look :: "'h \<Rightarrow> ata_view"
  assumes capacity: "ad_sector_count disk \<le> ATA_LBA28_LIMIT"
    and drive_number: "slave disk = 0 \<or> slave disk = 1"
    and poll: "port = io_base disk + ATA_REG_STATUS \<or> port = ctrl_base disk \<Longrightarrow>
      \<exists>st h'. p_inb p port h = (st, h') \<and> st \<noteq> 0 \<and> st \<noteq> 0xFF
        \<and> (if av_busy (look h) = 0
           then st AND ATA_STATUS_BSY = 0 \<and> st AND (ATA_STATUS_ERR OR ATA_STATUS_DF) = 0
             \<and> (st AND ATA_STATUS_DRQ \<noteq> 0 \<longleftrightarrow> av_phase (look h) \<noteq> Idle) \<and> look h' = look h
           else st AND ATA_STATUS_BSY \<noteq> 0 \<and> look h' = (look h)\<lparr>av_busy := av_busy (look h) - 1\<rparr>)"
    and select: "av_phase (look h) = Idle \<Longrightarrow> av_busy (look h) = 0 \<Longrightarrow> \<exists>b < ATA_WAIT_LIMIT.
      look (p_outb p (io_base disk + ATA_REG_HDDEVSEL) v h) = (look h)\<lparr>av_devsel := v, av_busy := b\<rparr>"
    and registers: "av_phase (look h) = Idle \<Longrightarrow> av_busy (look h) = 0 \<Longrightarrow>
      look (p_outb p (io_base disk + ATA_REG_SECCOUNT) v h) = (look h)\<lparr>av_seccount := v\<rparr>
      \<and> look (p_outb p (io_base disk + ATA_REG_LBA0) v h) = (look h)\<lparr>av_lba0 := v\<rparr>
      \<and> look (p_outb p (io_base disk + ATA_REG_LBA1) v h) = (look h)\<lparr>av_lba1 := v\<rparr>
      \<and> look (p_outb p (io_base disk + ATA_REG_LBA2) v h) = (look h)\<lparr>av_lba2 := v\<rparr>"
    and read_command: "addressed disk (look h) n \<Longrightarrow> n < ad_sector_count disk \<Longrightarrow> \<exists>b < ATA_WAIT_LIMIT.
      look (p_outb p (io_base disk + ATA_REG_COMMAND) ATA_CMD_READ_SECTORS h) =
        (look h)\<lparr>av_phase := Data_In (words_of_bytes (av_sectors (look h) n)), av_busy := b\<rparr>"
    and write_command: "addressed disk (look h) n \<Longrightarrow> n < ad_sector_count disk \<Longrightarrow> \<exists>b < ATA_WAIT_LIMIT.
      look (p_outb p (io_base disk + ATA_REG_COMMAND) ATA_CMD_WRITE_SECTORS h) =
        (look h)\<lparr>av_phase := Data_Out n [], av_busy := b\<rparr>"
    and data_in: "av_phase (look h) = Data_In (w # ws) \<Longrightarrow> av_busy (look h) = 0 \<Longrightarrow>
      \<exists>h'. p_inw p (io_base disk + ATA_REG_DATA) h = (w, h')
        \<and> look h' = (look h)\<lparr>av_phase := (if ws = [] then Idle else Data_In ws)\<rparr>"
    and data_out: "av_phase (look h) = Data_Out n ws \<Longrightarrow> av_busy (look h) = 0 \<Longrightarrow> length ws < 256 \<Longrightarrow>
      \<exists>b < ATA_WAIT_LIMIT. look (p_outw p (io_base disk + ATA_REG_DATA) w h) =
        (if length ws < 255 then (look h)\<lparr>av_phase := Data_Out n (ws @ [w])\<rparr>
         else (look h)\<lparr>av_phase := Idle, av_busy := b,
                av_sectors := (av_sectors (look h))(n := bytes_of_words (ws @ [w]))\<rparr>)"
    and flush: "av_phase (look h) = Idle \<Longrightarrow> av_busy (look h) = 0 \<Longrightarrow> \<exists>b < ATA_WAIT_LIMIT.
      look (p_outb p (io_base disk + ATA_REG_COMMAND) 0xE7 h) =
        (look h)\<lparr>av_busy := b, av_flushes := av_flushes (look h) + 1\<rparr>"
    and busy_command: "0 < av_busy (look h) \<Longrightarrow> look (p_outb p (io_base disk + ATA_REG_COMMAND) v h) = look h"
begin

lemma poll_busy:
  assumes "port = io_base disk + ATA_REG_STATUS \<or> port = ctrl_base disk" "0 < av_busy (look h)"
  shows "\<exists>st h'. p_inb p port h = (st, h') \<and> st \<noteq> 0 \<and> st \<noteq> 0xFF \<and> st AND ATA_STATUS_BSY \<noteq> 0
    \<and> look h' = (look h)\<lparr>av_busy := av_busy (look h) - 1\<rparr>"
  using poll [OF assms(1), of h] assms(2) by auto

lemma poll_idle:
  assumes "port = io_base disk + ATA_REG_STATUS \<or> port = ctrl_base disk" "av_busy (look h) = 0"
  shows "\<exists>st h'. p_inb p port h = (st, h') \<and> st \<noteq> 0 \<and> st \<noteq> 0xFF \<and> st AND ATA_STATUS_BSY = 0
    \<and> st AND (ATA_STATUS_ERR OR ATA_STATUS_DF) = 0
    \<and> (st AND ATA_STATUS_DRQ \<noteq> 0 \<longleftrightarrow> av_phase (look h) \<noteq> Idle) \<and> look h' = look h"
  using poll [OF assms(1), of h] assms(2) by simp

lemma wait_ready:
  "av_busy (look h) < n \<Longrightarrow> \<exists>h'. ata_wait_ready p disk n h = (True, h') \<and> look h' = (look h)\<lparr>av_busy := 0\<rparr>"
proof (induction n arbitrary: h)
  case (Suc n)
  show ?case
  proof (cases "av_busy (look h) = 0")
    case True
    from poll_idle [OF disjI2 [OF refl] True] show ?thesis
      using True by (auto simp: ata_alt_status_def Let_def)
  next
    case False
    then have pos: "0 < av_busy (look h)" by simp
    from poll_busy [OF disjI2 [OF refl] pos] obtain st h1 where
      h1: "p_inb p (ctrl_base disk) h = (st, h1)" "st \<noteq> 0" "st \<noteq> 0xFF" "st AND ATA_STATUS_BSY \<noteq> 0"
        "look h1 = (look h)\<lparr>av_busy := av_busy (look h) - 1\<rparr>" by blast
    from Suc.IH [of h1] Suc.prems h1 pos show ?thesis by (auto simp: ata_alt_status_def)
  qed
qed simp

lemma wait_drq:
  "av_busy (look h) < n \<Longrightarrow> av_phase (look h) \<noteq> Idle \<Longrightarrow>
   \<exists>h'. ata_wait_drq p disk n h = (True, h') \<and> look h' = (look h)\<lparr>av_busy := 0\<rparr>"
proof (induction n arbitrary: h)
  case (Suc n)
  show ?case
  proof (cases "av_busy (look h) = 0")
    case True
    from poll_idle [OF disjI1 [OF refl] True] show ?thesis
      using True Suc.prems(2) by (auto simp: ata_status_def Let_def)
  next
    case False
    then have pos: "0 < av_busy (look h)" by simp
    from poll_busy [OF disjI1 [OF refl] pos] obtain st h1 where
      h1: "p_inb p (io_base disk + ATA_REG_STATUS) h = (st, h1)" "st \<noteq> 0" "st \<noteq> 0xFF" "st AND ATA_STATUS_BSY \<noteq> 0"
        "look h1 = (look h)\<lparr>av_busy := av_busy (look h) - 1\<rparr>" by blast
    from Suc.IH [of h1] Suc.prems h1 pos show ?thesis by (auto simp: ata_status_def)
  qed
qed simp

lemma poll_once: "\<exists>b \<le> av_busy (look h). look (snd (ata_alt_status p disk h)) = (look h)\<lparr>av_busy := b\<rparr>"
proof (cases "av_busy (look h) = 0")
  case True
  from poll_idle [OF disjI2 [OF refl] True] obtain st h' where
    "p_inb p (ctrl_base disk) h = (st, h')" "look h' = look h" by blast
  then show ?thesis using True by (auto simp: ata_alt_status_def intro!: exI [of _ 0])
next
  case False
  then have "0 < av_busy (look h)" by simp
  from poll_busy [OF disjI2 [OF refl] this] obtain st h' where
    "p_inb p (ctrl_base disk) h = (st, h')" "look h' = (look h)\<lparr>av_busy := av_busy (look h) - 1\<rparr>" by blast
  then show ?thesis by (auto simp: ata_alt_status_def intro!: exI [of _ "av_busy (look h) - 1"])
qed

lemma delay: "\<exists>b \<le> av_busy (look h). look (ata_delay_400ns p disk h) = (look h)\<lparr>av_busy := b\<rparr>"
proof -
  define poll where "poll = (\<lambda>h. snd (ata_alt_status p disk h))"
  have once: "\<exists>b \<le> av_busy (look h). look (poll h) = (look h)\<lparr>av_busy := b\<rparr>" for h
    unfolding poll_def by (rule poll_once)
  obtain b1 where 1: "b1 \<le> av_busy (look h)" "look (poll h) = (look h)\<lparr>av_busy := b1\<rparr>" using once by blast
  obtain b2 where 2: "b2 \<le> b1" "look (poll (poll h)) = (look h)\<lparr>av_busy := b2\<rparr>" using once [of "poll h"] 1 by auto
  obtain b3 where 3: "b3 \<le> b2" "look (poll (poll (poll h))) = (look h)\<lparr>av_busy := b3\<rparr>"
    using once [of "poll (poll h)"] 2 by auto
  obtain b4 where 4: "b4 \<le> b3" "look (poll (poll (poll (poll h)))) = (look h)\<lparr>av_busy := b4\<rparr>"
    using once [of "poll (poll (poll h))"] 3 by auto
  have "ata_delay_400ns p disk h = poll (poll (poll (poll h)))" by (simp add: ata_delay_400ns_def poll_def Let_def)
  then show ?thesis using 1(1) 2(1) 3(1) 4 by (metis order_trans)
qed

lemma take_words:
  "av_phase (look h) = Data_In ws \<Longrightarrow> ws \<noteq> [] \<Longrightarrow> av_busy (look h) = 0 \<Longrightarrow>
   \<exists>h'. read_words p disk (length ws) h = (ws, h') \<and> look h' = (look h)\<lparr>av_phase := Idle\<rparr>"
proof (induction ws arbitrary: h)
  case (Cons w ws)
  from data_in [OF Cons.prems(1,3)] obtain h1 where
    h1: "p_inw p (io_base disk + ATA_REG_DATA) h = (w, h1)"
      "look h1 = (look h)\<lparr>av_phase := (if ws = [] then Idle else Data_In ws)\<rparr>" by blast
  show ?case
  proof (cases "ws = []")
    case False
    with Cons.IH [of h1] Cons.prems(3) h1 show ?thesis by auto
  qed (use h1 in simp)
qed simp

text \<open>\<open>busy b\<close> is what is known of the busy time after the last word.\<close>

lemma give_words:
  "av_phase (look h) = Data_Out n sent \<Longrightarrow> av_busy (look h) = 0 \<Longrightarrow> ws \<noteq> [] \<Longrightarrow> length sent + length ws = 256 \<Longrightarrow>
   (\<And>h n ws w. av_phase (look h) = Data_Out n ws \<Longrightarrow> length ws = 255 \<Longrightarrow>
     busy (av_busy (look (p_outw p (io_base disk + ATA_REG_DATA) w h)))) \<Longrightarrow>
   \<exists>b < ATA_WAIT_LIMIT. busy b \<and> look (write_words p disk ws h) = (look h)\<lparr>av_phase := Idle, av_busy := b,
     av_sectors := (av_sectors (look h))(n := bytes_of_words (sent @ ws))\<rparr>"
proof (induction ws arbitrary: h sent)
  case (Cons w ws)
  let ?h = "p_outw p (io_base disk + ATA_REG_DATA) w h"
  have "length sent < 256" using Cons.prems(4) by simp
  from data_out [OF Cons.prems(1,2) this, of w] obtain b where b: "b < ATA_WAIT_LIMIT"
    "look ?h = (if length sent < 255 then (look h)\<lparr>av_phase := Data_Out n (sent @ [w])\<rparr>
         else (look h)\<lparr>av_phase := Idle, av_busy := b,
                av_sectors := (av_sectors (look h))(n := bytes_of_words (sent @ [w]))\<rparr>)" by blast
  show ?case
  proof (cases "ws = []")
    case True
    then have l: "length sent = 255" using Cons.prems(4) by simp
    then have "busy b" using b(2) Cons.prems(5) [OF Cons.prems(1) l, of w] by simp
    then show ?thesis using b True l by (intro exI [of _ b]) (simp add: fun_upd_def)
  next
    case False
    then have "length sent < 255" using Cons.prems(4) by (cases ws) auto
    then have h: "look ?h = (look h)\<lparr>av_phase := Data_Out n (sent @ [w])\<rparr>" using b by simp
    have "\<exists>b < ATA_WAIT_LIMIT. busy b \<and> look (write_words p disk ws ?h) = (look ?h)\<lparr>av_phase := Idle, av_busy := b,
        av_sectors := (av_sectors (look ?h))(n := bytes_of_words ((sent @ [w]) @ ws))\<rparr>"
      by (rule Cons.IH) (use Cons.prems h False in auto)
    then show ?thesis using h by (simp add: fun_upd_def)
  qed
qed simp

lemma selector_bits:
  fixes x :: u8
  assumes "slave disk = 0 \<or> slave disk = 1"
  shows "(0xE0 OR push_bit 4 (slave disk) OR (x AND 0x0F)) AND 0x0F = x AND 0x0F"
    "(0xE0 OR push_bit 4 (slave disk) OR (x AND 0x0F)) AND 0xF0 = (0xE0 OR push_bit 4 (slave disk)) AND 0xF0"
proof -
  have "(0xE0 OR push_bit 4 (0 :: u8) OR (x AND 0x0F)) AND 0x0F = x AND 0x0F \<and>
      (0xE0 OR push_bit 4 (1 :: u8) OR (x AND 0x0F)) AND 0x0F = x AND 0x0F \<and>
      (0xE0 OR push_bit 4 (0 :: u8) OR (x AND 0x0F)) AND 0xF0 = (0xE0 OR push_bit 4 0) AND 0xF0 \<and>
      (0xE0 OR push_bit 4 (1 :: u8) OR (x AND 0x0F)) AND 0xF0 = (0xE0 OR push_bit 4 1) AND 0xF0"
    by (rule byte_all [of "\<lambda>x. (0xE0 OR push_bit 4 (0 :: u8) OR (x AND 0x0F)) AND 0x0F = x AND 0x0F \<and>
      (0xE0 OR push_bit 4 (1 :: u8) OR (x AND 0x0F)) AND 0x0F = x AND 0x0F \<and>
      (0xE0 OR push_bit 4 (0 :: u8) OR (x AND 0x0F)) AND 0xF0 = (0xE0 OR push_bit 4 0) AND 0xF0 \<and>
      (0xE0 OR push_bit 4 (1 :: u8) OR (x AND 0x0F)) AND 0xF0 = (0xE0 OR push_bit 4 1) AND 0xF0"]) code_simp
  then show "(0xE0 OR push_bit 4 (slave disk) OR (x AND 0x0F)) AND 0x0F = x AND 0x0F"
    "(0xE0 OR push_bit 4 (slave disk) OR (x AND 0x0F)) AND 0xF0 = (0xE0 OR push_bit 4 (slave disk)) AND 0xF0"
    using assms by auto
qed

lemma lba_bytes:
  assumes "n < ATA_LBA28_LIMIT"
  shows "unat (lba_byte 0 n) + 256 * unat (lba_byte 8 n) + 65536 * unat (lba_byte 16 n)
    + 16777216 * unat (lba_byte 24 n AND 0x0F) = n"
proof -
  have b: "unat (lba_byte k n) = n div 2 ^ k mod 256" for k
    by (simp add: lba_byte_def unat_of_nat)
  have q: "n div 16777216 < 16" using assms by (simp add: ATA_LBA28_LIMIT_def less_mult_imp_div_less)
  then have "lba_byte 24 n AND 0x0F = lba_byte 24 n"
  proof -
    have "unat (lba_byte 24 n) < 16" using q b [of 24] by simp
    moreover have "unat x < 16 \<longrightarrow> x AND 0x0F = x" for x :: u8
      by (rule byte_all [of "\<lambda>x. unat x < 16 \<longrightarrow> x AND 0x0F = x"]) code_simp
    ultimately show ?thesis by blast
  qed
  then have "unat (lba_byte 24 n AND 0x0F) = n div 16777216" using q b [of 24] by simp
  moreover have "n = n mod 256 + 256 * (n div 256 mod 256) + 65536 * (n div 65536 mod 256) + 16777216 * (n div 16777216)"
  proof -
    have "n div 65536 = n div 256 div 256" "n div 16777216 = n div 65536 div 256"
      using div_mult2_eq [of n 256 256] div_mult2_eq [of n 65536 256] by simp_all
    moreover have "n = n div 256 * 256 + n mod 256" "n div 256 = n div 256 div 256 * 256 + n div 256 mod 256"
      "n div 65536 = n div 65536 div 256 * 256 + n div 65536 mod 256" by simp_all
    ultimately show ?thesis by linarith
  qed
  ultimately show ?thesis by (simp add: b)
qed

text \<open>Selecting a sector leaves the drive ready, with that sector in its registers.\<close>

lemma select_sector:
  assumes "av_phase (look h) = Idle" "av_busy (look h) = 0" "n < ATA_LBA28_LIMIT"
  shows "\<exists>h'. ata_select_lba p disk n h = (True, h') \<and> addressed disk (look h') n
    \<and> av_sectors (look h') = av_sectors (look h) \<and> av_flushes (look h') = av_flushes (look h)"
proof -
  define sel where "sel = 0xE0 OR push_bit 4 (slave disk) OR (lba_byte 24 n AND 0x0F)"
  obtain b where b: "b < ATA_WAIT_LIMIT" "look (put_reg p disk ATA_REG_HDDEVSEL sel h) =
      (look h)\<lparr>av_devsel := sel, av_busy := b\<rparr>"
    using select [OF assms(1,2), of sel] by (auto simp: put_reg_def)
  define h1 where "h1 = ata_delay_400ns p disk (put_reg p disk ATA_REG_HDDEVSEL sel h)"
  obtain b1 where b1: "b1 \<le> b" "look h1 = (look h)\<lparr>av_devsel := sel, av_busy := b1\<rparr>"
    using delay [of "put_reg p disk ATA_REG_HDDEVSEL sel h"] b by (auto simp: h1_def)
  obtain h2 where h2: "ata_wait_ready p disk ATA_WAIT_LIMIT h1 = (True, h2)"
      "look h2 = (look h)\<lparr>av_devsel := sel, av_busy := 0\<rparr>"
    using wait_ready [of h1 ATA_WAIT_LIMIT] b1 b(1) by auto
  define h3 where "h3 = put_reg p disk ATA_REG_SECCOUNT 1 h2"
  have h3: "look h3 = (look h)\<lparr>av_devsel := sel, av_busy := 0, av_seccount := 1\<rparr>"
    using registers [of h2 1] h2(2) assms(1) by (simp add: h3_def put_reg_def)
  define h4 where "h4 = put_reg p disk ATA_REG_LBA0 (lba_byte 0 n) h3"
  have h4: "look h4 = (look h)\<lparr>av_devsel := sel, av_busy := 0, av_seccount := 1, av_lba0 := lba_byte 0 n\<rparr>"
    using registers [of h3 "lba_byte 0 n"] h3 assms(1) by (simp add: h4_def put_reg_def)
  define h5 where "h5 = put_reg p disk ATA_REG_LBA1 (lba_byte 8 n) h4"
  have h5: "look h5 = (look h)\<lparr>av_devsel := sel, av_busy := 0, av_seccount := 1, av_lba0 := lba_byte 0 n,
      av_lba1 := lba_byte 8 n\<rparr>"
    using registers [of h4 "lba_byte 8 n"] h4 assms(1) by (simp add: h5_def put_reg_def)
  define h6 where "h6 = put_reg p disk ATA_REG_LBA2 (lba_byte 16 n) h5"
  have h6: "look h6 = (look h)\<lparr>av_devsel := sel, av_busy := 0, av_seccount := 1, av_lba0 := lba_byte 0 n,
      av_lba1 := lba_byte 8 n, av_lba2 := lba_byte 16 n\<rparr>"
    using registers [of h5 "lba_byte 16 n"] h5 assms(1) by (simp add: h6_def put_reg_def)
  have "ata_select_lba p disk n h = (True, h6)"
    using h2(1) by (simp add: ata_select_lba_def Let_def h1_def h3_def h4_def h5_def h6_def sel_def)
  moreover have "lba_of (look h6) = n"
    using lba_bytes [OF assms(3)] selector_bits(1) [OF drive_number] by (simp add: lba_of_def h6 sel_def)
  then have "addressed disk (look h6) n"
    using assms(1) selector_bits(2) [OF drive_number] by (simp add: addressed_def h6 sel_def)
  ultimately show ?thesis using h6 by simp
qed

lemma raw_read:
  assumes "av_phase (look h) = Idle" "av_busy (look h) = 0" "n < ad_sector_count disk"
    "length (av_sectors (look h) n) = 512"
  shows "\<exists>h'. ata_read_sector_raw p disk n h = (Some (av_sectors (look h) n), h') \<and> av_phase (look h') = Idle
    \<and> av_busy (look h') = 0 \<and> av_sectors (look h') = av_sectors (look h)"
proof -
  let ?ws = "words_of_bytes (av_sectors (look h) n)"
  have lba: "n < ATA_LBA28_LIMIT" using assms(3) capacity by simp
  from select_sector [OF assms(1,2) lba] obtain h1 where
    h1: "ata_select_lba p disk n h = (True, h1)" "addressed disk (look h1) n" "av_sectors (look h1) = av_sectors (look h)"
    by blast
  obtain b h2 where h2: "h2 = put_reg p disk ATA_REG_COMMAND ATA_CMD_READ_SECTORS h1" "b < ATA_WAIT_LIMIT"
      "look h2 = (look h1)\<lparr>av_phase := Data_In ?ws, av_busy := b\<rparr>"
    using read_command [OF h1(2) assms(3)] h1(3) by (auto simp: put_reg_def)
  obtain h3 where h3: "ata_wait_drq p disk ATA_WAIT_LIMIT h2 = (True, h3)"
      "look h3 = (look h1)\<lparr>av_phase := Data_In ?ws, av_busy := 0\<rparr>"
    using wait_drq [of h2 ATA_WAIT_LIMIT] h2 by auto
  have l: "length ?ws = 256" using assms(4) by (simp add: length_words_of_bytes)
  then have "?ws \<noteq> []" by auto
  then obtain h4 where h4: "read_words p disk 256 h3 = (?ws, h4)" "look h4 = (look h1)\<lparr>av_phase := Idle, av_busy := 0\<rparr>"
    using take_words [of h3 ?ws] h3(2) l by auto
  have "ata_read_sector_raw p disk n h = (Some (bytes_of_words ?ws), h4)"
    using assms(3) h1(1) h2(1) h3(1) h4(1) by (simp add: ata_read_sector_raw_def Let_def BLOCKDEV_SECTOR_SIZE_def)
  then show ?thesis using h4 h1(3) assms(4) by (simp add: bytes_of_words_of_bytes)
qed

lemma raw_write:
  assumes "av_phase (look h) = Idle" "av_busy (look h) = 0" "n < ad_sector_count disk" "length buf = 512"
    and busy: "\<And>h n ws w. av_phase (look h) = Data_Out n ws \<Longrightarrow> length ws = 255 \<Longrightarrow>
      busy (av_busy (look (p_outw p (io_base disk + ATA_REG_DATA) w h)))"
  shows "\<exists>h' b. ata_write_sector_raw p disk n buf h = (True, h') \<and> av_phase (look h') = Idle
    \<and> av_busy (look h') = 0 \<and> av_sectors (look h') = (av_sectors (look h))(n := buf)
    \<and> busy b \<and> av_flushes (look h') = av_flushes (look h) + (if b = 0 then 1 else 0)"
proof -
  let ?ws = "words_of_bytes buf"
  have lba: "n < ATA_LBA28_LIMIT" using assms(3) capacity by simp
  from select_sector [OF assms(1,2) lba] obtain h1 where
    h1: "ata_select_lba p disk n h = (True, h1)" "addressed disk (look h1) n" "av_sectors (look h1) = av_sectors (look h)"
      "av_flushes (look h1) = av_flushes (look h)"
    by blast
  obtain b h2 where h2: "h2 = put_reg p disk ATA_REG_COMMAND ATA_CMD_WRITE_SECTORS h1" "b < ATA_WAIT_LIMIT"
      "look h2 = (look h1)\<lparr>av_phase := Data_Out n [], av_busy := b\<rparr>"
    using write_command [OF h1(2) assms(3)] by (auto simp: put_reg_def)
  obtain h3 where h3: "ata_wait_drq p disk ATA_WAIT_LIMIT h2 = (True, h3)"
      "look h3 = (look h1)\<lparr>av_phase := Data_Out n [], av_busy := 0\<rparr>"
    using wait_drq [of h2 ATA_WAIT_LIMIT] h2 by auto
  have l: "length ?ws = 256" using assms(4) by (simp add: length_words_of_bytes)
  then have "?ws \<noteq> []" by auto
  then obtain c where c: "c < ATA_WAIT_LIMIT" "busy c"
    "look (write_words p disk ?ws h3) = (look h1)\<lparr>av_phase := Idle, av_busy := c,
      av_sectors := (av_sectors (look h1))(n := buf)\<rparr>"
    using give_words [of h3 n "[]" ?ws busy] busy h3(2) l assms(4) by (auto simp: bytes_of_words_of_bytes)
  define h4 where "h4 = put_reg p disk ATA_REG_COMMAND 0xE7 (write_words p disk ?ws h3)"
  obtain e where e: "e < ATA_WAIT_LIMIT" "look h4 = (look (write_words p disk ?ws h3))\<lparr>av_busy := e,
      av_flushes := av_flushes (look h1) + (if c = 0 then 1 else 0)\<rparr>"
  proof (cases "c = 0")
    case True
    with flush [of "write_words p disk ?ws h3"] c that show ?thesis by (auto simp: h4_def put_reg_def)
  next
    case False
    with busy_command [of "write_words p disk ?ws h3"] c that [of c] show ?thesis
      by (simp add: h4_def put_reg_def)
  qed
  obtain h5 where h5: "ata_wait_ready p disk ATA_WAIT_LIMIT h4 = (True, h5)" "look h5 = (look h4)\<lparr>av_busy := 0\<rparr>"
    using wait_ready [of h4 ATA_WAIT_LIMIT] e by auto
  have "ata_write_sector_raw p disk n buf h = (True, h5)"
    using assms(3) h1(1) h2(1) h3(1) h5(1) by (simp add: ata_write_sector_raw_def Let_def h4_def)
  then show ?thesis using h5 e c h1(3,4) by (intro exI [of _ h5] exI [of _ c]) simp
qed

end

end
