(* ===== verification/Blockdev_Volume.thy ===== *)
theory Blockdev_Volume
  imports Blockdev
begin

text \<open>
  The block device as the provider of the sector interface: the contract \<open>block_device\<close> follows from the ATA
  protocol, so that the theorems on FAT32 hold down to the ports; and the invariant of the driver's tables,
  by which no request leaves the window of the selected partition. The last locale instance is a simulated
  controller.
\<close>

section \<open>From the protocol to the contract\<close>

definition ata_ok :: "ata_disk \<Rightarrow> ('h \<Rightarrow> ata_view) \<Rightarrow> nat \<Rightarrow> nat \<Rightarrow> 'h bd_state \<Rightarrow> bool" where
  "ata_ok disk look start N s \<longleftrightarrow> disk_ready s \<and> disks s ! active_drive s = disk
     \<and> volume_start_sector s = start \<and> volume_sector_count s = N
     \<and> av_phase (look (hw s)) = Idle \<and> av_busy (look (hw s)) = 0
     \<and> (\<forall>n < ad_sector_count disk. length (av_sectors (look (hw s)) n) = 512)"

definition ata_contents :: "('h \<Rightarrow> ata_view) \<Rightarrow> nat \<Rightarrow> 'h bd_state \<Rightarrow> disk" where
  "ata_contents look start s = (\<lambda>n. av_sectors (look (hw s)) (start + n))"

locale ata_volume = ata_drive +
  fixes start :: nat and N :: nat
  assumes window: "start + N \<le> ad_sector_count disk"
begin

lemma sector_in_window: "n < N \<Longrightarrow> add32 start n = start + n \<and> start + n < ad_sector_count disk"
  using window capacity by (simp add: ATA_LBA28_LIMIT_def)

lemma volume_read:
  assumes "ata_ok disk look start N s" "n < N"
  shows "\<exists>s'. blockdev_read_sector p n s = (Some (ata_contents look start s n), s') \<and> ata_ok disk look start N s'
    \<and> ata_contents look start s' = ata_contents look start s"
proof -
  have n: "add32 start n = start + n" "start + n < ad_sector_count disk" using sector_in_window [OF assms(2)] by auto
  from raw_read [of "hw s" "start + n"] assms(1) n obtain h where
    "ata_read_sector_raw p disk (start + n) (hw s) = (Some (av_sectors (look (hw s)) (start + n)), h)"
    "av_phase (look h) = Idle" "av_busy (look h) = 0" "av_sectors (look h) = av_sectors (look (hw s))" by (auto simp: ata_ok_def)
  then show ?thesis using assms n by (auto simp: blockdev_read_sector_def ata_ok_def ata_contents_def)
qed

lemma volume_write:
  assumes "ata_ok disk look start N s" "n < N" "length b = 512"
  shows "\<exists>s'. blockdev_write_sector p n b s = (True, s') \<and> ata_ok disk look start N s'
    \<and> ata_contents look start s' = (ata_contents look start s)(n := b)"
proof -
  have n: "add32 start n = start + n" "start + n < ad_sector_count disk" using sector_in_window [OF assms(2)] by auto
  from raw_write [of "hw s" "start + n" b "\<lambda>_. True"] assms n obtain h where
    "ata_write_sector_raw p disk (start + n) b (hw s) = (True, h)"
    "av_phase (look h) = Idle" "av_busy (look h) = 0" "av_sectors (look h) = (av_sectors (look (hw s)))(start + n := b)"
    by (auto simp: ata_ok_def)
  then show ?thesis using assms n
    by (auto simp: blockdev_write_sector_def ata_ok_def ata_contents_def fun_eq_iff)
qed

end

sublocale ata_volume \<subseteq> block_device "blockdev_io p" "ata_ok disk look start N" "ata_contents look start" N
proof
  fix d n and b :: bytes
  assume d: "ata_ok disk look start N d"
  show "bd_count (blockdev_io p) d = N"
    using d by (simp add: blockdev_io_def blockdev_sector_count_def ata_ok_def)
  show "n < N \<Longrightarrow> length (ata_contents look start d n) = 512"
    using d window by (simp add: ata_ok_def ata_contents_def)
  show "n < N \<Longrightarrow> \<exists>d'. bd_read (blockdev_io p) n d = (Some (ata_contents look start d n), d') \<and>
      ata_ok disk look start N d' \<and> ata_contents look start d' = ata_contents look start d"
    using volume_read [OF d] by (simp add: blockdev_io_def)
  show "n < N \<Longrightarrow> length b = 512 \<Longrightarrow> \<exists>d'. bd_write (blockdev_io p) n b d = (True, d') \<and>
      ata_ok disk look start N d' \<and> ata_contents look start d' = (ata_contents look start d)(n := b)"
    using volume_write [OF d] by (simp add: blockdev_io_def)
  show "N \<le> n \<Longrightarrow> bd_read (blockdev_io p) n d = (None, d)"
    using d by (simp add: blockdev_io_def blockdev_read_sector_def ata_ok_def)
  show "N \<le> n \<Longrightarrow> bd_write (blockdev_io p) n b d = (False, d)"
    using d by (simp add: blockdev_io_def blockdev_write_sector_def ata_ok_def)
qed

context ata_volume
begin

lemma contract: "block_device (blockdev_io p) (ata_ok disk look start N) (ata_contents look start) N"
  by (rule block_device_axioms)

end

section \<open>A simulated controller\<close>

definition sim_drive :: "nat \<Rightarrow> ata_disk" where
  "sim_drive k = \<lparr>io_base = 0x1F0, ctrl_base = 0x3F6, slave = 0, ad_sector_count = k\<rparr>"

definition sim_disk :: ata_disk where "sim_disk = sim_drive 100"

text \<open>The drive stays busy for three polls after a command and after the last word of a sector, and drops a
  command it gets meanwhile; \<open>av_sectors\<close> is the medium.\<close>

definition sim_ports :: "ata_view ports" where
  "sim_ports = \<lparr>
     p_inb = (\<lambda>port v.
       if port = 0x1F7 \<or> port = 0x3F6
       then if av_busy v = 0 then (if av_phase v = Idle then 0x40 else 0x48, v)
            else (0x80, v\<lparr>av_busy := av_busy v - 1\<rparr>)
       else (0, v)),
     p_outb = (\<lambda>port x v.
       if port = 0x1F2 then v\<lparr>av_seccount := x\<rparr>
       else if port = 0x1F3 then v\<lparr>av_lba0 := x\<rparr>
       else if port = 0x1F4 then v\<lparr>av_lba1 := x\<rparr>
       else if port = 0x1F5 then v\<lparr>av_lba2 := x\<rparr>
       else if port = 0x1F6 then v\<lparr>av_devsel := x, av_busy := 3\<rparr>
       else if port = 0x1F7 then
         if av_busy v \<noteq> 0 then v
         else if x = ATA_CMD_READ_SECTORS
         then v\<lparr>av_phase := Data_In (words_of_bytes (av_sectors v (lba_of v))), av_busy := 3\<rparr>
         else if x = ATA_CMD_WRITE_SECTORS then v\<lparr>av_phase := Data_Out (lba_of v) [], av_busy := 3\<rparr>
         else if x = 0xE7 then v\<lparr>av_busy := 3, av_flushes := av_flushes v + 1\<rparr>
         else v
       else v),
     p_inw = (\<lambda>port v.
       case av_phase v of
         Data_In (w # ws) \<Rightarrow> (w, v\<lparr>av_phase := if ws = [] then Idle else Data_In ws\<rparr>)
       | _ \<Rightarrow> (0, v)),
     p_outw = (\<lambda>port w v.
       case av_phase v of
         Data_Out n ws \<Rightarrow>
           if length ws < 255 then v\<lparr>av_phase := Data_Out n (ws @ [w])\<rparr>
           else v\<lparr>av_phase := Idle, av_busy := 3, av_sectors := (av_sectors v)(n := bytes_of_words (ws @ [w]))\<rparr>
       | _ \<Rightarrow> v)\<rparr>"

lemmas sim_defs = sim_ports_def sim_drive_def ATA_REG_DATA_def ATA_REG_SECCOUNT_def ATA_REG_LBA0_def ATA_REG_LBA1_def
  ATA_REG_LBA2_def ATA_REG_HDDEVSEL_def ATA_REG_COMMAND_def ATA_REG_STATUS_def ATA_CMD_READ_SECTORS_def
  ATA_CMD_WRITE_SECTORS_def ATA_STATUS_ERR_def ATA_STATUS_DRQ_def ATA_STATUS_DF_def ATA_STATUS_BSY_def

lemma simulated_drive:
  assumes "k \<le> ATA_LBA28_LIMIT"
  shows "ata_drive sim_ports (sim_drive k) (\<lambda>v. v)"
proof
  fix port v w n ws and x :: u8
  show "ad_sector_count (sim_drive k) \<le> ATA_LBA28_LIMIT" using assms by (simp add: sim_drive_def)
  show "slave (sim_drive k) = 0 \<or> slave (sim_drive k) = 1" by (simp add: sim_drive_def)
  show "port = io_base (sim_drive k) + ATA_REG_STATUS \<or> port = ctrl_base (sim_drive k) \<Longrightarrow>
      \<exists>st v'. p_inb sim_ports port v = (st, v') \<and> st \<noteq> 0 \<and> st \<noteq> 0xFF
        \<and> (if av_busy v = 0
           then st AND ATA_STATUS_BSY = 0 \<and> st AND (ATA_STATUS_ERR OR ATA_STATUS_DF) = 0
             \<and> (st AND ATA_STATUS_DRQ \<noteq> 0 \<longleftrightarrow> av_phase v \<noteq> Idle) \<and> v' = v
           else st AND ATA_STATUS_BSY \<noteq> 0 \<and> v' = v\<lparr>av_busy := av_busy v - 1\<rparr>)"
    by (auto simp: sim_defs)
  have limit: "3 < ATA_WAIT_LIMIT" by (simp add: ATA_WAIT_LIMIT_def)
  show "av_phase v = Idle \<Longrightarrow> av_busy v = 0 \<Longrightarrow> \<exists>b < ATA_WAIT_LIMIT.
      p_outb sim_ports (io_base (sim_drive k) + ATA_REG_HDDEVSEL) x v = v\<lparr>av_devsel := x, av_busy := b\<rparr>"
    using limit by (auto simp: sim_defs)
  show "av_phase v = Idle \<Longrightarrow> av_busy v = 0 \<Longrightarrow>
      p_outb sim_ports (io_base (sim_drive k) + ATA_REG_SECCOUNT) x v = v\<lparr>av_seccount := x\<rparr>
      \<and> p_outb sim_ports (io_base (sim_drive k) + ATA_REG_LBA0) x v = v\<lparr>av_lba0 := x\<rparr>
      \<and> p_outb sim_ports (io_base (sim_drive k) + ATA_REG_LBA1) x v = v\<lparr>av_lba1 := x\<rparr>
      \<and> p_outb sim_ports (io_base (sim_drive k) + ATA_REG_LBA2) x v = v\<lparr>av_lba2 := x\<rparr>"
    by (simp add: sim_defs)
  show "addressed (sim_drive k) v n \<Longrightarrow> n < ad_sector_count (sim_drive k) \<Longrightarrow> \<exists>b < ATA_WAIT_LIMIT.
      p_outb sim_ports (io_base (sim_drive k) + ATA_REG_COMMAND) ATA_CMD_READ_SECTORS v =
        v\<lparr>av_phase := Data_In (words_of_bytes (av_sectors v n)), av_busy := b\<rparr>"
    using limit by (auto simp: sim_defs addressed_def)
  show "addressed (sim_drive k) v n \<Longrightarrow> n < ad_sector_count (sim_drive k) \<Longrightarrow> \<exists>b < ATA_WAIT_LIMIT.
      p_outb sim_ports (io_base (sim_drive k) + ATA_REG_COMMAND) ATA_CMD_WRITE_SECTORS v =
        v\<lparr>av_phase := Data_Out n [], av_busy := b\<rparr>"
    using limit by (auto simp: sim_defs addressed_def)
  show "av_phase v = Data_In (w # ws) \<Longrightarrow> av_busy v = 0 \<Longrightarrow>
      \<exists>v'. p_inw sim_ports (io_base (sim_drive k) + ATA_REG_DATA) v = (w, v')
        \<and> v' = v\<lparr>av_phase := (if ws = [] then Idle else Data_In ws)\<rparr>"
    by (simp add: sim_defs)
  show "av_phase v = Data_Out n ws \<Longrightarrow> av_busy v = 0 \<Longrightarrow> length ws < 256 \<Longrightarrow>
      \<exists>b < ATA_WAIT_LIMIT. p_outw sim_ports (io_base (sim_drive k) + ATA_REG_DATA) w v =
        (if length ws < 255 then v\<lparr>av_phase := Data_Out n (ws @ [w])\<rparr>
         else v\<lparr>av_phase := Idle, av_busy := b, av_sectors := (av_sectors v)(n := bytes_of_words (ws @ [w]))\<rparr>)"
    using limit by (intro exI [of _ 3]) (simp add: sim_defs)
  show "av_phase v = Idle \<Longrightarrow> av_busy v = 0 \<Longrightarrow> \<exists>b < ATA_WAIT_LIMIT.
      p_outb sim_ports (io_base (sim_drive k) + ATA_REG_COMMAND) 0xE7 v =
        v\<lparr>av_busy := b, av_flushes := av_flushes v + 1\<rparr>"
    using limit by (auto simp: sim_defs)
  show "0 < av_busy v \<Longrightarrow> p_outb sim_ports (io_base (sim_drive k) + ATA_REG_COMMAND) x v = v"
    by (simp add: sim_defs)
qed

interpretation sim: ata_volume sim_ports sim_disk "\<lambda>v. v" 20 8
  using simulated_drive [of 100]
  by (simp add: sim_disk_def ata_volume_def ata_volume_axioms_def ATA_LBA28_LIMIT_def)
    (simp add: sim_drive_def)

text \<open>
  C27. The FAT32 driver on a partition of an ATA drive: when the drive follows the PIO protocol,
  answers in time and drops a command it gets while it is busy, a file created through the ports is there and
  reads back. The last condition is one the driver forces on the drive: it sends FLUSH CACHE to a busy drive
  (\<open>ata_flush_lost\<close>).
\<close>

lemma ata_create_file:
  assumes "ata_volume p disk look start N" "geom N g" "ata_ok disk look start N d"
    and "lacks_file g (ata_contents look start d) path dss ds s leaf"
    and "has_room g (ata_contents look start d) [] (length buf)"
  shows "stored (blockdev_io p) (ata_contents look start) g path dss ds s buf
    (fat32_write_file (blockdev_io p) g path buf False d)"
  by (rule block_device.create_stores [OF ata_volume.contract [OF assms(1)] assms(2-5)])

definition sim_state :: "ata_view bd_state" where
  "sim_state = \<lparr>disks = [sim_disk, sim_disk, sim_disk, sim_disk], drive_count = 1, active_drive = 0,
     volume_start_sector = 20, volume_sector_count = 8, disk_ready = True,
     hw = \<lparr>av_phase = Idle, av_busy = 0, av_seccount = 0, av_lba0 = 0, av_lba1 = 0, av_lba2 = 0, av_devsel = 0,
            av_sectors = (\<lambda>n. tiny_disk (n - 20)), av_flushes = 0\<rparr>\<rparr>"

lemma ata_create_file_witness:
  "stored (blockdev_io sim_ports) (ata_contents (\<lambda>v. v) 20) tiny (text_bytes ''/B'') [] [2] (2, 64) (replicate 600 7)
     (fat32_write_file (blockdev_io sim_ports) tiny (text_bytes ''/B'') (replicate 600 7) False sim_state)"
proof -
  have len: "length (tiny_disk n) = 512" for n
    by (simp add: tiny_disk_def tiny_A_def tiny_C_def text_bytes_def)
  have v: "ata_contents (\<lambda>v. v) 20 sim_state = tiny_disk" by (simp add: ata_contents_def sim_state_def)
  show ?thesis
  proof (rule ata_create_file [OF sim.ata_volume_axioms tiny_geom, where leaf = "text_bytes ''B          ''"])
    show "ata_ok sim_disk (\<lambda>v. v) 20 8 sim_state" using len by (simp add: ata_ok_def sim_state_def)
  qed (use tiny_lacks tiny_fits in \<open>simp_all add: v\<close>)
qed

text \<open>On a drive that is busy with a sector after its last word, as the protocol has it, the driver's FLUSH CACHE
  goes to a busy drive and is lost: the write is reported as done and no flush has taken place.\<close>

lemma ata_flush_lost:
  assumes "ata_drive p disk look" "av_phase (look h) = Idle" "av_busy (look h) = 0"
    and "n < ad_sector_count disk" "length buf = 512"
    and "\<And>h n ws w. av_phase (look h) = Data_Out n ws \<Longrightarrow> length ws = 255 \<Longrightarrow>
      0 < av_busy (look (p_outw p (io_base disk + ATA_REG_DATA) w h))"
  shows "\<exists>h'. ata_write_sector_raw p disk n buf h = (True, h')
    \<and> av_sectors (look h') = (av_sectors (look h))(n := buf) \<and> av_flushes (look h') = av_flushes (look h)"
  using ata_drive.raw_write [OF assms(1-5), of "\<lambda>b. 0 < b"] assms(6) by auto

lemma sim_flush_lost:
  "\<exists>h'. ata_write_sector_raw sim_ports sim_disk 30 (replicate 512 7) (hw sim_state) = (True, h')
    \<and> av_sectors h' = (\<lambda>n. tiny_disk (n - 20))(30 := replicate 512 7) \<and> av_flushes h' = 0"
  using ata_flush_lost [of sim_ports sim_disk "\<lambda>v. v" "hw sim_state" 30 "replicate 512 7"] simulated_drive [of 100]
  by (simp add: sim_disk_def sim_state_def ATA_LBA28_LIMIT_def) (simp add: sim_defs)

section \<open>The window\<close>

text \<open>The statics at boot; \<open>disks\<close> is an array of four.\<close>

definition bd_zero :: "'h \<Rightarrow> 'h bd_state" where
  "bd_zero h = \<lparr>disks = replicate BLOCKDEV_MAX_DRIVES \<lparr>io_base = 0, ctrl_base = 0, slave = 0, ad_sector_count = 0\<rparr>,
     drive_count = 0, active_drive = 0, volume_start_sector = 0, volume_sector_count = 0, disk_ready = False, hw = h\<rparr>"

datatype bd_request = Init_Disk | Select_Drive nat | Set_Partition nat nat | Read_Sector nat | Write_Sector nat bytes

fun bd_step :: "'h ports \<Rightarrow> 'h bd_state \<Rightarrow> bd_request \<Rightarrow> 'h bd_state" where
  "bd_step p s Init_Disk = snd (blockdev_init_disk p s)"
| "bd_step p s (Select_Drive drive) = snd (blockdev_select_drive drive s)"
| "bd_step p s (Set_Partition start n) = snd (blockdev_set_partition start n s)"
| "bd_step p s (Read_Sector n) = snd (blockdev_read_sector p n s)"
| "bd_step p s (Write_Sector n b) = snd (blockdev_write_sector p n b s)"

definition window_ok :: "'h bd_state \<Rightarrow> bool" where
  "window_ok s \<longleftrightarrow> length (disks s) = BLOCKDEV_MAX_DRIVES \<and> drive_count s \<le> BLOCKDEV_MAX_DRIVES
     \<and> (\<forall>i < drive_count s. 0 < ad_sector_count (disks s ! i) \<and> ad_sector_count (disks s ! i) \<le> ATA_LBA28_LIMIT)
     \<and> (disk_ready s \<longrightarrow> active_drive s < drive_count s \<and> 0 < volume_sector_count s
          \<and> volume_start_sector s + volume_sector_count s \<le> ad_sector_count (disks s ! active_drive s))"

lemma identified_size:
  "ata_identify p candidate h = (Some d, h') \<Longrightarrow> 0 < ad_sector_count d \<and> ad_sector_count d \<le> ATA_LBA28_LIMIT"
  by (auto simp: ata_identify_def Let_def ATA_LBA28_LIMIT_def split: prod.splits if_splits)

lemma probe_window:
  "window_ok s \<Longrightarrow> \<not> disk_ready s \<Longrightarrow> drive_count s + length ts \<le> BLOCKDEV_MAX_DRIVES \<Longrightarrow>
   window_ok (probe p ts s) \<and> \<not> disk_ready (probe p ts s) \<and> active_drive (probe p ts s) = active_drive s"
proof (induction p ts s rule: probe.induct)
  case (2 p candidate rest s)
  obtain r h where r: "ata_identify p candidate (hw s) = (r, h)" by fastforce
  show ?case
  proof (cases r)
    case None
    then show ?thesis using 2 r by (auto simp: window_ok_def)
  next
    case (Some d)
    have "window_ok (s\<lparr>disks := (disks s)[drive_count s := d], drive_count := drive_count s + 1, hw := h\<rparr>)"
      using "2.prems" identified_size [of p candidate "hw s" d h] r Some
      by (auto simp: window_ok_def nth_list_update less_Suc_eq)
    then show ?thesis using 2 r Some by auto
  qed
qed simp

lemma bd_step_window: "window_ok s \<Longrightarrow> window_ok (bd_step p s r)"
proof (cases r)
  case Init_Disk
  assume w: "window_ok s"
  have "window_ok (probe p (take BLOCKDEV_MAX_DRIVES probe_targets)
      (s\<lparr>drive_count := 0, active_drive := 0, disk_ready := False\<rparr>)) \<and>
    active_drive (probe p (take BLOCKDEV_MAX_DRIVES probe_targets)
      (s\<lparr>drive_count := 0, active_drive := 0, disk_ready := False\<rparr>)) = 0"
    using w probe_window [of "s\<lparr>drive_count := 0, active_drive := 0, disk_ready := False\<rparr>"
        "take BLOCKDEV_MAX_DRIVES probe_targets" p]
    by (simp add: window_ok_def probe_targets_def)
  then show ?thesis using Init_Disk by (auto simp: blockdev_init_disk_def Let_def window_ok_def)
next
  case (Select_Drive x)
  assume "window_ok s"
  with Select_Drive show ?thesis by (auto simp: blockdev_select_drive_def window_ok_def)
next
  case (Set_Partition a b)
  assume "window_ok s"
  with Set_Partition show ?thesis
    by (auto simp: blockdev_set_partition_def blockdev_device_sector_count_def window_ok_def Let_def)
next
  case (Read_Sector x)
  assume "window_ok s"
  with Read_Sector show ?thesis by (auto simp: blockdev_read_sector_def window_ok_def split: prod.splits)
next
  case (Write_Sector x b)
  assume "window_ok s"
  with Write_Sector show ?thesis by (auto simp: blockdev_write_sector_def window_ok_def split: prod.splits)
qed

lemma window_run: "window_ok s \<Longrightarrow> window_ok (foldl (bd_step p) s rs)"
  by (induction rs arbitrary: s) (simp_all add: bd_step_window)

lemma window_zero: "window_ok (bd_zero h)"
  by (simp add: window_ok_def bd_zero_def)

lemma window_address:
  assumes "window_ok s"
  shows "blockdev_read_sector p n s =
      (if disk_ready s \<and> n < volume_sector_count s
       then (let (r, h) = ata_read_sector_raw p (disks s ! active_drive s) (volume_start_sector s + n) (hw s)
             in (r, s\<lparr>hw := h\<rparr>)) else (None, s))"
    "blockdev_write_sector p n b s =
      (if disk_ready s \<and> n < volume_sector_count s
       then (let (r, h) = ata_write_sector_raw p (disks s ! active_drive s) (volume_start_sector s + n) b (hw s)
             in (r, s\<lparr>hw := h\<rparr>)) else (False, s))"
proof -
  have "add32 (volume_start_sector s) n = volume_start_sector s + n" if "disk_ready s" "n < volume_sector_count s"
    using assms that by (auto simp: window_ok_def ATA_LBA28_LIMIT_def)
  then show "blockdev_read_sector p n s =
      (if disk_ready s \<and> n < volume_sector_count s
       then (let (r, h) = ata_read_sector_raw p (disks s ! active_drive s) (volume_start_sector s + n) (hw s)
             in (r, s\<lparr>hw := h\<rparr>)) else (None, s))"
    "blockdev_write_sector p n b s =
      (if disk_ready s \<and> n < volume_sector_count s
       then (let (r, h) = ata_write_sector_raw p (disks s ! active_drive s) (volume_start_sector s + n) b (hw s)
             in (r, s\<lparr>hw := h\<rparr>)) else (False, s))"
    by (auto simp: blockdev_read_sector_def blockdev_write_sector_def)
qed

text \<open>
  C40. After any sequence of requests from boot on, whatever the hardware answers, the driver's
  tables are within bounds, the partition's window lies inside the selected drive, and a sector request reaches
  the drive only inside that window, at the sector's address without wrap-around.
\<close>

lemma blockdev_window:
  "let s = foldl (bd_step p) (bd_zero h) rs
   in window_ok s
    \<and> blockdev_read_sector p n s =
      (if disk_ready s \<and> n < volume_sector_count s
       then (let (r, h) = ata_read_sector_raw p (disks s ! active_drive s) (volume_start_sector s + n) (hw s)
             in (r, s\<lparr>hw := h\<rparr>)) else (None, s))
    \<and> blockdev_write_sector p n b s =
      (if disk_ready s \<and> n < volume_sector_count s
       then (let (r, h) = ata_write_sector_raw p (disks s ! active_drive s) (volume_start_sector s + n) b (hw s)
             in (r, s\<lparr>hw := h\<rparr>)) else (False, s))"
  unfolding Let_def [of "foldl (bd_step p) (bd_zero h) rs"]
  by (intro conjI window_run window_zero window_address)

end
