(* ===== verification/Partition.thy ===== *)
theory Partition
  imports Blockdev_Volume Fat32_Volume
begin

text \<open>
  \<open>filesystem/partition_manager.c\<close>: the MBR partition table of the selected drive. The statics of the file
  and the block device under it are the record \<open>pm\<close>; an operation returns its result code with the new state.
  A flag byte that holds 0 or 1 is a \<open>bool\<close>.
\<close>

section \<open>State\<close>

definition PARTITION_MANAGER_MAX_PARTITIONS :: nat where "PARTITION_MANAGER_MAX_PARTITIONS = 4"
definition MBR_PARTITION_TABLE_OFFSET :: nat where "MBR_PARTITION_TABLE_OFFSET = 446"
definition MBR_PARTITION_ENTRY_SIZE :: nat where "MBR_PARTITION_ENTRY_SIZE = 16"
definition MBR_SIGNATURE_OFFSET :: nat where "MBR_SIGNATURE_OFFSET = 510"
definition MBR_TYPE_FAT32 :: u8 where "MBR_TYPE_FAT32 = 0x0B"
definition MBR_TYPE_FAT32_LBA :: u8 where "MBR_TYPE_FAT32_LBA = 0x0C"
definition MBR_TYPE_GPT_PROTECTIVE :: u8 where "MBR_TYPE_GPT_PROTECTIVE = 0xEE"

lemmas mbr_defs = PARTITION_MANAGER_MAX_PARTITIONS_def MBR_PARTITION_TABLE_OFFSET_def
  MBR_PARTITION_ENTRY_SIZE_def MBR_SIGNATURE_OFFSET_def

record partition_info =
  pt_type :: u8
  pt_bootable :: bool
  pt_valid :: bool
  pt_selected :: bool
  pt_start :: nat
  pt_count :: nat

record 'h pm =
  partitions :: "partition_info list"
  partition_count :: nat
  superfloppy :: bool
  dev :: "'h bd_state"

datatype pm_code = PM_OK | PM_ARGUMENT | PM_SUPERFLOPPY | PM_TABLE | PM_NO_SLOT | PM_NO_SPACE | PM_PROTECTED
  | PM_IO | PM_UNSUPPORTED | PM_DATA_PRESENT | PM_PARTIAL

text \<open>The calls on the block device.\<close>

definition pm_window :: "nat \<Rightarrow> nat \<Rightarrow> 'h pm \<Rightarrow> bool \<times> 'h pm" where
  "pm_window start n s = (let (ok, d) = blockdev_set_partition start n (dev s) in (ok, s\<lparr>dev := d\<rparr>))"

definition pm_read :: "'h ports \<Rightarrow> nat \<Rightarrow> 'h pm \<Rightarrow> bytes option \<times> 'h pm" where
  "pm_read p n s = (let (r, d) = blockdev_read_sector p n (dev s) in (r, s\<lparr>dev := d\<rparr>))"

definition pm_write :: "'h ports \<Rightarrow> nat \<Rightarrow> bytes \<Rightarrow> 'h pm \<Rightarrow> bool \<times> 'h pm" where
  "pm_write p n b s = (let (ok, d) = blockdev_write_sector p n b (dev s) in (ok, s\<lparr>dev := d\<rparr>))"

definition drive_size :: "'h pm \<Rightarrow> nat" where
  "drive_size s = blockdev_device_sector_count (dev s)"

section \<open>Boot sectors and table entries\<close>

definition is_fat32_type :: "u8 \<Rightarrow> bool" where
  "is_fat32_type t \<longleftrightarrow> t = MBR_TYPE_FAT32 \<or> t = MBR_TYPE_FAT32_LBA"

definition mbr_signed :: "bytes \<Rightarrow> bool" where
  "mbr_signed b \<longleftrightarrow> b ! MBR_SIGNATURE_OFFSET = 0x55 \<and> b ! (MBR_SIGNATURE_OFFSET + 1) = 0xAA"

definition valid_fat32_boot_sector :: "bytes \<Rightarrow> nat \<Rightarrow> bool" where
  "valid_fat32_boot_sector b volume \<longleftrightarrow>
     mbr_signed b \<and>
     (let reserved = u16_at b 14; fats = unat (b ! 16); total_count = u32_at b 32; spf = u32_at b 36
      in u16_at b 11 = BLOCKDEV_SECTOR_SIZE \<and> b ! 13 \<noteq> 0 \<and> reserved \<noteq> 0 \<and> fats \<noteq> 0 \<and> spf \<noteq> 0
         \<and> 2 \<le> u32_at b 44 \<and> total_count \<noteq> 0 \<and> total_count \<le> volume \<and> reserved < volume
         \<and> spf \<le> (volume - reserved) div fats
         \<and> add32 reserved (mul32 fats spf) < volume)"

definition entry_at :: "nat \<Rightarrow> nat" where
  "entry_at i = MBR_PARTITION_TABLE_OFFSET + i * MBR_PARTITION_ENTRY_SIZE"

definition entry_type :: "bytes \<Rightarrow> nat \<Rightarrow> u8" where "entry_type mbr i = mbr ! (entry_at i + 4)"
definition entry_start :: "bytes \<Rightarrow> nat \<Rightarrow> nat" where "entry_start mbr i = u32_at mbr (entry_at i + 8)"
definition entry_count :: "bytes \<Rightarrow> nat \<Rightarrow> nat" where "entry_count mbr i = u32_at mbr (entry_at i + 12)"

definition mbr_entry_is_empty :: "bytes \<Rightarrow> nat \<Rightarrow> bool" where
  "mbr_entry_is_empty mbr i \<longleftrightarrow> entry_type mbr i = 0 \<and> entry_start mbr i = 0 \<and> entry_count mbr i = 0"

section \<open>Scanning and selecting\<close>

definition no_partition :: partition_info where
  "no_partition = \<lparr>pt_type = 0, pt_bootable = False, pt_valid = False, pt_selected = False, pt_start = 0, pt_count = 0\<rparr>"

definition clear_partitions :: "'h pm \<Rightarrow> 'h pm" where
  "clear_partitions s = s\<lparr>partitions := replicate PARTITION_MANAGER_MAX_PARTITIONS no_partition,
     partition_count := 0, superfloppy := False\<rparr>"

definition try_select_fat32_partition :: "'h ports \<Rightarrow> nat \<Rightarrow> 'h pm \<Rightarrow> bool \<times> 'h pm" where
  "try_select_fat32_partition p i s =
     (let t = partitions s ! i; drive = drive_size s
      in if \<not> pt_valid t \<or> \<not> is_fat32_type (pt_type t) then (False, s)
         else
           (let (ok, s) = pm_window (pt_start t) (pt_count t) s;
                (boot, s) = (if ok then pm_read p 0 s else (None, s))
            in case boot of
                 Some b \<Rightarrow>
                   if valid_fat32_boot_sector b (pt_count t)
                   then (True, s\<lparr>partitions := (partitions s)[i := t\<lparr>pt_selected := True\<rparr>]\<rparr>)
                   else (False, snd (pm_window 0 drive s))
               | None \<Rightarrow> (False, snd (pm_window 0 drive s))))"

definition scanned_entry :: "bytes \<Rightarrow> nat \<Rightarrow> nat \<Rightarrow> partition_info" where
  "scanned_entry mbr drive i =
     (let t = entry_type mbr i; start = entry_start mbr i; n = entry_count mbr i
      in \<lparr>pt_type = t, pt_bootable = (mbr ! entry_at i = 0x80),
          pt_valid = (t \<noteq> 0 \<and> n \<noteq> 0 \<and> start < drive \<and> n \<le> drive - start),
          pt_selected = False, pt_start = start, pt_count = n\<rparr>)"

fun try_in_order :: "'h ports \<Rightarrow> nat list \<Rightarrow> 'h pm \<Rightarrow> bool \<times> 'h pm" where
  "try_in_order p [] s = (False, s)"
| "try_in_order p (i # is) s =
     (case try_select_fat32_partition p i s of
        (True, s) \<Rightarrow> (True, s) | (False, s) \<Rightarrow> try_in_order p is s)"

definition partition_manager_init :: "'h ports \<Rightarrow> 'h pm \<Rightarrow> bool \<times> 'h pm" where
  "partition_manager_init p s =
     (let s = clear_partitions s; drive = drive_size s;
          (ok, s) = (if drive = 0 then (False, s) else pm_window 0 drive s);
          (r, s) = (if ok then pm_read p 0 s else (None, s))
      in case r of
           None \<Rightarrow> (False, s)
         | Some mbr \<Rightarrow>
             if valid_fat32_boot_sector mbr drive
             then (True, s\<lparr>partitions := (partitions s)[0 := no_partition\<lparr>pt_valid := True, pt_selected := True,
                              pt_count := drive\<rparr>], partition_count := 1, superfloppy := True\<rparr>)
             else if \<not> mbr_signed mbr then (False, s)
             else
               (let slots = [0..<PARTITION_MANAGER_MAX_PARTITIONS];
                    used = filter (\<lambda>i. \<not> mbr_entry_is_empty mbr i) slots;
                    s = s\<lparr>partitions := map (scanned_entry mbr drive) slots,
                          partition_count := (if used = [] then 0 else last used + 1)\<rparr>
                in if used = [] \<or> (\<exists>i \<in> set slots. entry_type mbr i = MBR_TYPE_GPT_PROTECTIVE) then (False, s)
                   else
                     (let bootable = filter (\<lambda>i. pt_bootable (partitions s ! i)) [0..<partition_count s]
                      in case try_in_order p bootable s of
                           (True, s) \<Rightarrow> (True, s)
                         | (False, s) \<Rightarrow>
                             (case try_in_order p [0..<partition_count s] s of
                                (True, s) \<Rightarrow> (True, s)
                              | (False, s) \<Rightarrow> (False, snd (pm_window 0 drive s))))))"

definition partition_manager_count :: "'h pm \<Rightarrow> nat" where
  "partition_manager_count s = partition_count s"

definition partition_manager_get :: "nat \<Rightarrow> 'h pm \<Rightarrow> partition_info option" where
  "partition_manager_get i s = (if partition_count s \<le> i then None else Some (partitions s ! i))"

definition partition_manager_is_superfloppy :: "'h pm \<Rightarrow> bool" where
  "partition_manager_is_superfloppy s = superfloppy s"

definition selected_slot :: "'h pm \<Rightarrow> nat option" where
  "selected_slot s = find (\<lambda>i. pt_selected (partitions s ! i)) [0..<partition_count s]"

definition partition_manager_get_selected_index :: "'h pm \<Rightarrow> nat option" where
  "partition_manager_get_selected_index s =
     (if superfloppy s then None else map_option Suc (selected_slot s))"

definition partition_manager_select :: "'h ports \<Rightarrow> nat \<Rightarrow> 'h pm \<Rightarrow> pm_code \<times> 'h pm" where
  "partition_manager_select p index s =
     (let previous = partition_manager_get_selected_index s
      in if index = 0 \<or> partition_count s < index then (PM_ARGUMENT, s)
         else if superfloppy s then (PM_SUPERFLOPPY, s)
         else
           (let t = partitions s ! (index - 1)
            in if \<not> pt_valid t then (PM_TABLE, s)
               else if \<not> is_fat32_type (pt_type t) then (PM_UNSUPPORTED, s)
               else
                 (let (ok, s) = pm_window (pt_start t) (pt_count t) s;
                      (boot, s) = (if ok then pm_read p 0 s else (None, s))
                  in if (case boot of Some b \<Rightarrow> valid_fat32_boot_sector b (pt_count t) | None \<Rightarrow> False)
                     then (PM_OK, s\<lparr>partitions :=
                             map (\<lambda>slot. let q = partitions s ! slot
                                         in if slot < partition_count s then q\<lparr>pt_selected := (slot = index - 1)\<rparr>
                                            else q) [0..<length (partitions s)]\<rparr>)
                     else
                       (case previous of
                          Some k \<Rightarrow>
                            (let q = partitions s ! (k - 1)
                             in if k \<le> partition_count s
                                then (PM_UNSUPPORTED, snd (pm_window (pt_start q) (pt_count q) s))
                                else (PM_UNSUPPORTED, snd (pm_window 0 (drive_size s) s)))
                        | None \<Rightarrow> (PM_UNSUPPORTED, snd (pm_window 0 (drive_size s) s))))))"

fun usage_loop :: "nat \<Rightarrow> partition_info list \<Rightarrow> nat \<Rightarrow> nat option" where
  "usage_loop drive [] allocated = Some allocated"
| "usage_loop drive (t # ts) allocated =
     (if pt_valid t
      then if sub32 drive (pt_count t) < allocated then None
           else usage_loop drive ts (add32 allocated (pt_count t))
      else usage_loop drive ts allocated)"

definition partition_manager_get_usage :: "'h pm \<Rightarrow> (nat \<times> nat) option" where
  "partition_manager_get_usage s =
     (if drive_size s = 0 \<or> superfloppy s then None
      else (case usage_loop (drive_size s) (take (partition_count s) (partitions s)) 0 of
              None \<Rightarrow> None
            | Some allocated \<Rightarrow> Some (allocated, sub32 (drive_size s) allocated)))"

section \<open>The table on the drive\<close>

text \<open>
  The window to go back to after the table was accessed through the whole drive: \<open>None\<close> when no partition is
  selected.
\<close>

definition restore_window :: "'h pm \<Rightarrow> (nat \<times> nat) option" where
  "restore_window s =
     (if superfloppy s then Some (0, drive_size s)
      else map_option (\<lambda>i. (pt_start (partitions s ! i), pt_count (partitions s ! i))) (selected_slot s))"

definition read_full_drive_mbr :: "'h ports \<Rightarrow> 'h pm \<Rightarrow> bytes option \<times> 'h pm" where
  "read_full_drive_mbr p s =
     (if drive_size s = 0 then (None, s)
      else (case restore_window s of
              None \<Rightarrow> (None, s)
            | Some (start, n) \<Rightarrow>
                (let (ok, s) = pm_window 0 (drive_size s) s;
                     (r, s) = (if ok then pm_read p 0 s else (None, s))
                 in case r of
                      None \<Rightarrow> (None, snd (pm_window start n s))
                    | Some mbr \<Rightarrow> (Some mbr, s))))"

definition write_full_drive_mbr :: "'h ports \<Rightarrow> bytes \<Rightarrow> nat \<Rightarrow> 'h pm \<Rightarrow> bool \<times> 'h pm" where
  "write_full_drive_mbr p mbr drive s =
     (case (if superfloppy s then Some (0, drive) else restore_window s) of
        None \<Rightarrow> (False, s)
      | Some (start, n) \<Rightarrow>
          (let (ok, s) = pm_write p 0 mbr s
           in if ok then pm_window start n s else (False, snd (pm_window start n s))))"

definition entry_in_drive :: "bytes \<Rightarrow> nat \<Rightarrow> nat \<Rightarrow> bool" where
  "entry_in_drive mbr drive i \<longleftrightarrow>
     (let start = entry_start mbr i; n = entry_count mbr i
      in if entry_type mbr i = 0 then start = 0 \<and> n = 0
         else \<not> (start = 0 \<or> n = 0 \<or> drive \<le> start \<or> drive - start < n))"

definition entries_overlap :: "bytes \<Rightarrow> nat \<Rightarrow> nat \<Rightarrow> bool" where
  "entries_overlap mbr i j \<longleftrightarrow>
     entry_count mbr i \<noteq> 0 \<and> entry_count mbr j \<noteq> 0
     \<and> entry_start mbr i < add32 (entry_start mbr j) (entry_count mbr j)
     \<and> entry_start mbr j < add32 (entry_start mbr i) (entry_count mbr i)"

definition validate_mbr_entries :: "bytes \<Rightarrow> nat \<Rightarrow> bool" where
  "validate_mbr_entries mbr drive \<longleftrightarrow>
     list_all (entry_in_drive mbr drive) [0..<PARTITION_MANAGER_MAX_PARTITIONS]
     \<and> list_all (\<lambda>i. list_all (\<lambda>j. \<not> entries_overlap mbr i j) [i + 1..<PARTITION_MANAGER_MAX_PARTITIONS])
         [0..<PARTITION_MANAGER_MAX_PARTITIONS]"

section \<open>Creating a partition\<close>

text \<open>The scan over the entries that moves the candidate behind every entry it overlaps.\<close>

fun next_candidate :: "(nat \<times> nat) list \<Rightarrow> nat \<Rightarrow> nat \<Rightarrow> nat \<Rightarrow> nat" where
  "next_candidate [] c c_end n = n"
| "next_candidate ((start, count) # es) c c_end n =
     (let e = add32 start count
      in next_candidate es c c_end (if count \<noteq> 0 \<and> c < e \<and> start < c_end \<and> n < e then e else n))"

lemma next_candidate_le: "n \<le> next_candidate es c c_end n"
proof (induction es arbitrary: n)
  case (Cons x es)
  obtain start count where x: "x = (start, count)" by fastforce
  let ?n = "if count \<noteq> 0 \<and> c < add32 start count \<and> start < c_end \<and> n < add32 start count
            then add32 start count else n"
  have "n \<le> ?n" by simp
  also have "\<dots> \<le> next_candidate es c c_end ?n" by (rule Cons.IH)
  finally show ?case by (simp add: x Let_def)
qed simp

function place :: "(nat \<times> nat) list \<Rightarrow> nat \<Rightarrow> nat \<Rightarrow> nat \<Rightarrow> nat option" where
  "place es drive requested c =
     (let c_end = add32 c requested; n = next_candidate es c c_end c
      in if drive < c_end then None
         else if n = c then Some c
         else if 0xFFFFFFFF - 2047 < n then None
         else place es drive requested ((n + 2047) div 2048 * 2048))"
  by auto
termination
proof (relation "measure (\<lambda>(es, drive, requested, c). 4294967296 - c)")
  fix es drive requested c c_end n
  assume "n = next_candidate es c c_end c" "n \<noteq> c" "\<not> 0xFFFFFFFF - 2047 < n"
  then have "c < n" "n \<le> 4294965248" using next_candidate_le [of c es c c_end] by auto
  then show "((es, drive, requested, (n + 2047) div 2048 * 2048), es, drive, requested, c)
      \<in> measure (\<lambda>(es, drive, requested, c). 4294967296 - c)" by simp
qed simp

declare place.simps [simp del]

definition table_entries :: "bytes \<Rightarrow> (nat \<times> nat) list" where
  "table_entries mbr = map (\<lambda>i. (entry_start mbr i, entry_count mbr i)) [0..<PARTITION_MANAGER_MAX_PARTITIONS]"

definition new_mbr_entry :: "nat \<Rightarrow> nat \<Rightarrow> nat \<Rightarrow> bytes \<Rightarrow> bytes" where
  "new_mbr_entry slot start n mbr =
     (let e = entry_at slot
      in put_u32 (e + 12) n (put_u32 (e + 8) start
           (poke (e + 4) [MBR_TYPE_FAT32_LBA] (poke e (replicate MBR_PARTITION_ENTRY_SIZE 0) mbr))))"

text \<open>What is decided on the table alone: the slot and the start of the new partition.\<close>

definition plan_partition :: "bytes \<Rightarrow> nat \<Rightarrow> nat \<Rightarrow> pm_code + nat \<times> nat" where
  "plan_partition mbr drive size_mib =
     (if \<not> mbr_signed mbr \<or> \<not> validate_mbr_entries mbr drive then Inl PM_TABLE
      else if 0xFFFFFFFF div 2048 < size_mib then Inl PM_ARGUMENT
      else
        (let requested = mul32 size_mib 2048
         in case find (mbr_entry_is_empty mbr) [0..<PARTITION_MANAGER_MAX_PARTITIONS] of
              None \<Rightarrow> Inl PM_NO_SLOT
            | Some slot \<Rightarrow>
                if drive \<le> 2048 \<or> drive - 2048 < requested then Inl PM_NO_SPACE
                else (case place (table_entries mbr) drive requested 2048 of
                        None \<Rightarrow> Inl PM_NO_SPACE
                      | Some start \<Rightarrow> Inr (slot, start))))"

definition create_failed :: "'h pm \<Rightarrow> 'h pm" where
  "create_failed s =
     (let (start, n) = (case restore_window s of Some w \<Rightarrow> w | None \<Rightarrow> (0, drive_size s))
      in snd (pm_window start n s))"

definition partition_manager_create ::
    "'h ports \<Rightarrow> nat \<Rightarrow> 'h pm \<Rightarrow> (pm_code + nat \<times> nat) \<times> 'h pm" where
  "partition_manager_create p size_mib s =
     (if size_mib = 0 then (Inl PM_ARGUMENT, s)
      else if superfloppy s then (Inl PM_SUPERFLOPPY, s)
      else
        (let (r, s) = read_full_drive_mbr p s
         in case r of
              None \<Rightarrow> (Inl PM_IO, s)
            | Some mbr \<Rightarrow>
                (case plan_partition mbr (drive_size s) size_mib of
                   Inl code \<Rightarrow> (Inl code, create_failed s)
                 | Inr (slot, start) \<Rightarrow>
                     (let (ok, s) = write_full_drive_mbr p
                            (new_mbr_entry slot start (mul32 size_mib 2048) mbr) (drive_size s) s
                      in if ok then (Inr (slot + 1, start), s) else (Inl PM_IO, create_failed s)))))"

section \<open>Deleting and shrinking\<close>

definition entry_matches :: "bytes \<Rightarrow> nat \<Rightarrow> partition_info \<Rightarrow> bool" where
  "entry_matches mbr slot t \<longleftrightarrow>
     entry_start mbr slot = pt_start t \<and> entry_count mbr slot = pt_count t \<and> entry_type mbr slot = pt_type t"

definition delete_failed :: "'h pm \<Rightarrow> 'h pm" where
  "delete_failed s =
     (case partition_manager_get_selected_index s of
        None \<Rightarrow> s
      | Some k \<Rightarrow>
          (case partition_manager_get (k - 1) s of
             None \<Rightarrow> s
           | Some t \<Rightarrow> snd (pm_window (pt_start t) (pt_count t) s)))"

definition partition_manager_delete :: "'h ports \<Rightarrow> nat \<Rightarrow> 'h pm \<Rightarrow> pm_code \<times> 'h pm" where
  "partition_manager_delete p index s =
     (if index = 0 \<or> PARTITION_MANAGER_MAX_PARTITIONS < index then (PM_ARGUMENT, s)
      else if superfloppy s then (PM_SUPERFLOPPY, s)
      else
        (case partition_manager_get (index - 1) s of
           None \<Rightarrow> (PM_NO_SLOT, s)
         | Some t \<Rightarrow>
             if \<not> pt_valid t then (PM_TABLE, s)
             else if pt_selected t then (PM_PROTECTED, s)
             else if pt_type t = 0x05 \<or> pt_type t = 0x0F \<or> pt_type t = 0x85 \<or> pt_type t = MBR_TYPE_GPT_PROTECTIVE
             then (PM_UNSUPPORTED, s)
             else
               (let (r, s) = read_full_drive_mbr p s
                in case r of
                     None \<Rightarrow> (PM_IO, s)
                   | Some mbr \<Rightarrow>
                       if \<not> entry_matches mbr (index - 1) t then (PM_TABLE, delete_failed s)
                       else
                         (let (ok, s) = write_full_drive_mbr p
                                (poke (entry_at (index - 1)) (replicate MBR_PARTITION_ENTRY_SIZE 0) mbr)
                                (drive_size s) s
                          in if ok then (PM_OK, s) else (PM_IO, delete_failed s)))))"

definition resize_code :: "resize \<Rightarrow> pm_code" where
  "resize_code r =
     (case r of RESIZE_ERROR_IO \<Rightarrow> PM_IO | RESIZE_ERROR_DATA_PRESENT \<Rightarrow> PM_DATA_PRESENT | _ \<Rightarrow> PM_ARGUMENT)"

text \<open>Once the file system has been cut down, the table follows.\<close>

definition shrink_table ::
    "'h ports \<Rightarrow> bytes \<Rightarrow> nat \<Rightarrow> partition_info \<Rightarrow> nat \<Rightarrow> nat \<Rightarrow> 'h pm \<Rightarrow> pm_code \<times> 'h pm" where
  "shrink_table p mbr slot t drive n s =
     (let (ok, s) = pm_window 0 drive s;
          (ok, s) = (if ok then write_full_drive_mbr p (put_u32 (entry_at slot + 12) n mbr) drive s else (False, s))
      in if \<not> ok then (PM_PARTIAL, s)
         else
           (let s = s\<lparr>partitions := (partitions s)[slot := (partitions s ! slot)\<lparr>pt_count := n\<rparr>]\<rparr>;
                (ok, s) = pm_window (pt_start t) n s
            in (if ok then PM_OK else PM_PARTIAL, s)))"

definition partition_manager_shrink ::
    "'h ports \<Rightarrow> nat \<Rightarrow> nat \<Rightarrow> fat32_state \<Rightarrow> 'h pm \<Rightarrow> pm_code \<times> fat32_state \<times> 'h pm" where
  "partition_manager_shrink p index shrink_mib g s =
     (if index = 0 \<or> PARTITION_MANAGER_MAX_PARTITIONS < index \<or> shrink_mib = 0 \<or> 0xFFFFFFFF div 2048 < shrink_mib
      then (PM_ARGUMENT, g, s)
      else if superfloppy s then (PM_SUPERFLOPPY, g, s)
      else
        (case partition_manager_get (index - 1) s of
           None \<Rightarrow> (PM_NO_SLOT, g, s)
         | Some t \<Rightarrow>
             if \<not> pt_valid t then (PM_TABLE, g, s)
             else if \<not> pt_selected t \<or> \<not> is_fat32_type (pt_type t) then (PM_PROTECTED, g, s)
             else
               (let cut = mul32 shrink_mib 2048
                in if pt_count t \<le> cut then (PM_ARGUMENT, g, s)
                   else
                     (let n = pt_count t - cut; (r, s) = read_full_drive_mbr p s
                      in case r of
                           None \<Rightarrow> (PM_IO, g, s)
                         | Some mbr \<Rightarrow>
                             if \<not> mbr_signed mbr \<or> \<not> validate_mbr_entries mbr (drive_size s)
                                \<or> \<not> entry_matches mbr (index - 1) t
                             then (PM_TABLE, g, snd (pm_window (pt_start t) (pt_count t) s))
                             else
                               (let drive = drive_size s; (ok, s) = pm_window (pt_start t) (pt_count t) s
                                in if \<not> ok then (PM_IO, g, s)
                                   else
                                     (case fat32_shrink_volume (blockdev_io p) n g (dev s) of
                                        (code, g, d) \<Rightarrow>
                                          (let s = s\<lparr>dev := d\<rparr>
                                           in if code \<noteq> RESIZE_OK then (resize_code code, g, s)
                                              else (let (c, s) = shrink_table p mbr (index - 1) t drive n s
                                                    in (c, g, s)))))))))"

end
