(* ===== verification/Partition_Create.thy ===== *)
theory Partition_Create
  imports Partition
begin

text \<open>
  Creating a partition: the search returns the first aligned gap, and the whole call writes exactly one new entry
  into the table or changes nothing, on a drive that keeps the ATA protocol.
\<close>

section \<open>The first gap\<close>

definition is_gap :: "(nat \<times> nat) list \<Rightarrow> nat \<Rightarrow> nat \<Rightarrow> nat \<Rightarrow> bool" where
  "is_gap es drive requested y \<longleftrightarrow> 2048 \<le> y \<and> 2048 dvd y \<and> y + requested \<le> drive
     \<and> (\<forall>(start, n) \<in> set es. n \<noteq> 0 \<longrightarrow> y + requested \<le> start \<or> start + n \<le> y)"

definition inside :: "(nat \<times> nat) list \<Rightarrow> nat \<Rightarrow> bool" where
  "inside es drive \<longleftrightarrow> (\<forall>(start, n) \<in> set es. start + n \<le> drive)"

lemma next_candidate_moves:
  assumes "inside es drive" "drive < 4294967296"
  shows "next_candidate es c c_end n = n \<or>
    (\<exists>(start, k) \<in> set es. k \<noteq> 0 \<and> c < start + k \<and> start < c_end \<and> next_candidate es c c_end n = start + k)"
  using assms(1)
proof (induction es arbitrary: n)
  case (Cons x es)
  obtain start k where x: "x = (start, k)" by fastforce
  have "start + k < 4294967296" using Cons.prems assms(2) by (auto simp: inside_def x)
  then have e: "add32 start k = start + k" by simp
  have "inside es drive" using Cons.prems by (auto simp: inside_def)
  from Cons.IH [OF this, of n] Cons.IH [OF this, of "start + k"] show ?case
    by (auto simp: x e Let_def)
qed simp

lemma next_candidate_covers:
  assumes "inside es drive" "drive < 4294967296" "(start, k) \<in> set es" "k \<noteq> 0" "c < start + k" "start < c_end"
  shows "start + k \<le> next_candidate es c c_end n"
  using assms(1,3)
proof (induction es arbitrary: n)
  case (Cons x es)
  obtain a b where x: "x = (a, b)" by fastforce
  have "a + b < 4294967296" using Cons.prems assms(2) by (auto simp: inside_def x)
  then have e: "add32 a b = a + b" by simp
  have ins: "inside es drive" using Cons.prems by (auto simp: inside_def)
  show ?case
  proof (cases "x = (start, k)")
    case True
    let ?n = "if k \<noteq> 0 \<and> c < start + k \<and> start < c_end \<and> n < start + k then start + k else n"
    have "start + k \<le> ?n" using assms(4-6) by auto
    also have "\<dots> \<le> next_candidate es c c_end ?n" by (rule next_candidate_le)
    finally show ?thesis using True x e by (simp add: Let_def)
  next
    case False
    then have "(start, k) \<in> set es" using Cons.prems(2) by auto
    from Cons.IH [OF ins this] show ?thesis by (simp add: x Let_def)
  qed
qed simp

lemma place_first_gap:
  assumes "inside es drive" "drive \<le> 268435456" "0 < requested" "requested \<le> drive"
  shows "2048 \<le> c \<Longrightarrow> 2048 dvd c \<Longrightarrow> c \<le> drive + 2047 \<Longrightarrow> (\<forall>y. is_gap es drive requested y \<longrightarrow> c \<le> y) \<Longrightarrow>
    (case place es drive requested c of
       None \<Rightarrow> \<forall>y. \<not> is_gap es drive requested y
     | Some x \<Rightarrow> is_gap es drive requested x \<and> (\<forall>y. is_gap es drive requested y \<longrightarrow> x \<le> y))"
  using assms
proof (induction es drive requested c rule: place.induct)
  case (1 es drive requested c)
  define n where "n = next_candidate es c (c + requested) c"
  have "add32 c requested = c + requested" using "1.prems" by simp
  then have unfold: "place es drive requested c =
      (if drive < c + requested then None
       else if n = c then Some c
       else if 0xFFFFFFFF - 2047 < n then None
       else place es drive requested ((n + 2047) div 2048 * 2048))"
    by (simp add: place.simps [of es drive requested c] n_def Let_def)
  have behind: "n \<le> y" if y: "is_gap es drive requested y" for y
  proof -
    have "c \<le> y" using "1.prems"(4) y by blast
    then show ?thesis
      using next_candidate_moves [OF "1.prems"(5), of c "c + requested" c] "1.prems"(6) y
      by (fastforce simp: n_def is_gap_def)
  qed
  show ?case
  proof (cases "drive < c + requested")
    case True
    then show ?thesis using "1.prems"(4) by (fastforce simp: unfold is_gap_def)
  next
    case fits: False
    show ?thesis
    proof (cases "n = c")
      case True
      have "is_gap es drive requested c"
        using next_candidate_covers [OF "1.prems"(5), of _ _ c "c + requested" c] "1.prems" fits True
        by (fastforce simp: n_def is_gap_def not_le)
      then show ?thesis using True fits "1.prems"(4) by (simp add: unfold)
    next
      case False
      have "c \<le> n" unfolding n_def by (rule next_candidate_le)
      moreover have "n \<le> drive"
        using next_candidate_moves [OF "1.prems"(5), of c "c + requested" c] "1.prems"(5,6) False
        by (auto simp: n_def inside_def)
      ultimately have n: "c \<le> n" "n \<le> drive" "\<not> 0xFFFFFFFF - 2047 < n" using "1.prems"(6) by auto
      let ?c = "(n + 2047) div 2048 * 2048"
      have up: "n \<le> ?c" "?c \<le> n + 2047" by simp_all
      have "?c \<le> y" if "is_gap es drive requested y" for y
      proof -
        obtain k where k: "y = 2048 * k" using \<open>is_gap es drive requested y\<close> by (auto simp: is_gap_def)
        then have "(n + 2047) div 2048 \<le> k" using behind [OF that] by simp
        then show ?thesis using k by simp
      qed
      then have "case place es drive requested ?c of
          None \<Rightarrow> \<forall>y. \<not> is_gap es drive requested y
        | Some x \<Rightarrow> is_gap es drive requested x \<and> (\<forall>y. is_gap es drive requested y \<longrightarrow> x \<le> y)"
        using "1.IH" [OF refl refl] "1.prems" fits False n up by (simp add: n_def)
      then show ?thesis using False fits n by (simp add: unfold)
    qed
  qed
qed

section \<open>The table\<close>

definition entry_sound :: "bytes \<Rightarrow> nat \<Rightarrow> nat \<Rightarrow> bool" where
  "entry_sound mbr drive i \<longleftrightarrow>
     (if entry_type mbr i = 0 then entry_start mbr i = 0 \<and> entry_count mbr i = 0
      else 0 < entry_start mbr i \<and> 0 < entry_count mbr i \<and> entry_start mbr i + entry_count mbr i \<le> drive)"

definition entries_apart :: "bytes \<Rightarrow> nat \<Rightarrow> nat \<Rightarrow> bool" where
  "entries_apart mbr i j \<longleftrightarrow> entry_count mbr i = 0 \<or> entry_count mbr j = 0
     \<or> entry_start mbr i + entry_count mbr i \<le> entry_start mbr j
     \<or> entry_start mbr j + entry_count mbr j \<le> entry_start mbr i"

definition table_sound :: "bytes \<Rightarrow> nat \<Rightarrow> bool" where
  "table_sound mbr drive \<longleftrightarrow> (\<forall>i < 4. entry_sound mbr drive i) \<and> (\<forall>i < 4. \<forall>j < 4. i \<noteq> j \<longrightarrow> entries_apart mbr i j)"

lemma entry_in_drive_sound:
  "drive \<le> 268435456 \<Longrightarrow> entry_in_drive mbr drive i \<longleftrightarrow> entry_sound mbr drive i"
  by (auto simp: entry_in_drive_def entry_sound_def Let_def)

lemma entry_sound_end: "entry_sound mbr drive i \<Longrightarrow> entry_start mbr i + entry_count mbr i \<le> drive"
  by (auto simp: entry_sound_def split: if_splits)

lemma overlap_apart:
  "drive \<le> 268435456 \<Longrightarrow> entry_sound mbr drive i \<Longrightarrow> entry_sound mbr drive j \<Longrightarrow>
   entries_overlap mbr i j \<longleftrightarrow> \<not> entries_apart mbr i j"
  using entry_sound_end [of mbr drive i] entry_sound_end [of mbr drive j]
  by (auto simp: entries_overlap_def entries_apart_def)

lemma apart_sym: "entries_apart mbr i j \<Longrightarrow> entries_apart mbr j i"
  by (auto simp: entries_apart_def)

lemma apart_below:
  "(\<forall>i < 4. \<forall>j < 4. i \<noteq> j \<longrightarrow> entries_apart mbr i j) \<longleftrightarrow> (\<forall>i < 4. \<forall>j < 4. i < j \<longrightarrow> entries_apart mbr i j)"
proof (intro iffI allI impI)
  fix i j :: nat
  assume less: "\<forall>i < 4. \<forall>j < 4. i < j \<longrightarrow> entries_apart mbr i j" and ij: "i < 4" "j < 4" "i \<noteq> j"
  then consider "i < j" | "j < i" by linarith
  then show "entries_apart mbr i j" using less ij by cases (auto intro: apart_sym)
qed auto

lemma validate_sound:
  assumes "drive \<le> 268435456"
  shows "validate_mbr_entries mbr drive \<longleftrightarrow> table_sound mbr drive"
proof -
  have "validate_mbr_entries mbr drive \<longleftrightarrow> (\<forall>i < 4. entry_sound mbr drive i)
      \<and> (\<forall>i < 4. \<forall>j < 4. i < j \<longrightarrow> \<not> entries_overlap mbr i j)"
    unfolding validate_mbr_entries_def list_all_iff PARTITION_MANAGER_MAX_PARTITIONS_def
    by (auto simp: entry_in_drive_sound [OF assms] atLeast0LessThan Suc_le_eq)
  also have "\<dots> \<longleftrightarrow> (\<forall>i < 4. entry_sound mbr drive i) \<and> (\<forall>i < 4. \<forall>j < 4. i < j \<longrightarrow> entries_apart mbr i j)"
    by (rule conj_cong [OF refl]) (simp add: overlap_apart [OF assms] cong: imp_cong)
  finally show ?thesis by (simp only: table_sound_def apart_below)
qed

lemma table_inside: "table_sound mbr drive \<Longrightarrow> inside (table_entries mbr) drive"
  by (auto simp: table_sound_def inside_def table_entries_def PARTITION_MANAGER_MAX_PARTITIONS_def
      dest: entry_sound_end)

lemma gap_apart:
  "is_gap (table_entries mbr) drive requested y \<longleftrightarrow> 2048 \<le> y \<and> 2048 dvd y \<and> y + requested \<le> drive
     \<and> (\<forall>i < 4. entry_count mbr i \<noteq> 0 \<longrightarrow>
          y + requested \<le> entry_start mbr i \<or> entry_start mbr i + entry_count mbr i \<le> y)"
  unfolding is_gap_def table_entries_def PARTITION_MANAGER_MAX_PARTITIONS_def
  by (simp add: atLeast0LessThan) blast

section \<open>The new entry\<close>

text \<open>\<open>mbr'\<close> is \<open>mbr\<close> with a partition entered in the slot and nothing else changed.\<close>

definition partition_entered :: "bytes \<Rightarrow> nat \<Rightarrow> nat \<Rightarrow> nat \<Rightarrow> bytes \<Rightarrow> bool" where
  "partition_entered mbr slot start n mbr' \<longleftrightarrow> length mbr' = 512
     \<and> (\<forall>i < 512. i < entry_at slot \<or> entry_at slot + 16 \<le> i \<longrightarrow> mbr' ! i = mbr ! i)
     \<and> entry_type mbr' slot = MBR_TYPE_FAT32_LBA \<and> entry_start mbr' slot = start \<and> entry_count mbr' slot = n"

lemma new_mbr_entry_entered:
  assumes "length mbr = 512" "slot < 4" "start < 4294967296" "n < 4294967296"
  shows "partition_entered mbr slot start n (new_mbr_entry slot start n mbr)"
proof -
  have at: "entry_at slot + 16 \<le> 512" "entry_at slot = 446 + slot * 16"
    using assms(2) by (simp_all add: entry_at_def mbr_defs)
  let ?a = "poke (entry_at slot) (replicate 16 0) mbr"
  let ?b = "poke (entry_at slot + 4) [MBR_TYPE_FAT32_LBA] ?a"
  let ?c = "put_u32 (entry_at slot + 8) start ?b"
  have l: "length ?a = 512" "length ?b = 512" "length ?c = 512" using assms(1) at by simp_all
  have new: "new_mbr_entry slot start n mbr = put_u32 (entry_at slot + 12) n ?c"
    by (simp add: new_mbr_entry_def Let_def mbr_defs)
  have "length (new_mbr_entry slot start n mbr) = 512" using l at by (simp add: new)
  moreover have "entry_start (new_mbr_entry slot start n mbr) slot = start"
    using u32_at_put_other [of "entry_at slot + 12" ?c "entry_at slot + 8" n] u32_at_put_same [of "entry_at slot + 8" ?b start]
      l at assms(3) by (simp add: new entry_start_def)
  moreover have "entry_count (new_mbr_entry slot start n mbr) slot = n"
    using u32_at_put_same [of "entry_at slot + 12" ?c n] l at assms(4) by (simp add: new entry_count_def)
  moreover have "entry_type (new_mbr_entry slot start n mbr) slot = MBR_TYPE_FAT32_LBA"
    using l at by (simp add: new entry_type_def put_u32_def nth_poke)
  moreover have "new_mbr_entry slot start n mbr ! i = mbr ! i"
    if "i < 512" "i < entry_at slot \<or> entry_at slot + 16 \<le> i" for i
    using l at that assms(1) by (auto simp: new put_u32_def nth_poke)
  ultimately show ?thesis by (simp add: partition_entered_def)
qed

lemma entered_other:
  assumes "partition_entered mbr slot start n mbr'" "slot < 4" "i < 4" "i \<noteq> slot"
  shows "entry_type mbr' i = entry_type mbr i" "entry_start mbr' i = entry_start mbr i"
    "entry_count mbr' i = entry_count mbr i"
proof -
  have "mbr' ! (entry_at i + k) = mbr ! (entry_at i + k)" if "k < 16" for k
  proof -
    have "i < slot \<or> slot < i" using assms(4) by auto
    then show ?thesis using assms(1-3) that
      by (auto simp: partition_entered_def entry_at_def mbr_defs)
  qed
  then have "mbr' ! (entry_at i + k) = mbr ! (entry_at i + k)" if "k \<in> {4, 8, 9, 10, 11, 12, 13, 14, 15}" for k
    using that by (elim insertE) simp_all
  then show "entry_type mbr' i = entry_type mbr i" "entry_start mbr' i = entry_start mbr i"
    "entry_count mbr' i = entry_count mbr i"
    by (simp_all add: entry_type_def entry_start_def entry_count_def u32_at_def add.commute [of _ "entry_at i"]
        del: add_2_eq_Suc add_2_eq_Suc')
qed

lemma entered_sound:
  assumes "partition_entered mbr slot start n mbr'" "slot < 4" "table_sound mbr drive" "0 < n"
    and "is_gap (table_entries mbr) drive n start"
  shows "table_sound mbr' drive"
proof -
  note e = assms(1) [unfolded partition_entered_def] and g = assms(5) [unfolded gap_apart]
  have new: "entry_sound mbr' drive slot"
    using e g assms(4) by (simp add: entry_sound_def MBR_TYPE_FAT32_LBA_def)
  have apart: "entries_apart mbr' slot i" if "i < 4" "i \<noteq> slot" for i
    using e g entered_other [OF assms(1,2) that] that by (auto simp: entries_apart_def)
  have old: "entry_sound mbr' drive i" if "i < 4" "i \<noteq> slot" for i
    using assms(3) entered_other [OF assms(1,2) that] that by (simp add: table_sound_def entry_sound_def)
  have old2: "entries_apart mbr' i j" if "i < 4" "j < 4" "i \<noteq> j" "i \<noteq> slot" "j \<noteq> slot" for i j
    using assms(3) entered_other [OF assms(1,2) that(1,4)] entered_other [OF assms(1,2) that(2,5)] that
    by (simp add: table_sound_def entries_apart_def)
  show ?thesis unfolding table_sound_def
    using new apart old old2 apart_sym by metis
qed

section \<open>The plan\<close>

text \<open>What creating a partition of \<open>requested\<close> sectors is to do with a table.\<close>

definition plan_correct :: "bytes \<Rightarrow> nat \<Rightarrow> nat \<Rightarrow> pm_code + nat \<times> nat \<Rightarrow> bool" where
  "plan_correct mbr drive size_mib r \<longleftrightarrow>
     (let requested = size_mib * 2048; gap = is_gap (table_entries mbr) drive requested
      in case r of
           Inr (slot, start) \<Rightarrow> mbr_signed mbr \<and> table_sound mbr drive \<and> slot < 4
             \<and> mbr_entry_is_empty mbr slot \<and> (\<forall>i < slot. \<not> mbr_entry_is_empty mbr i)
             \<and> gap start \<and> (\<forall>y. gap y \<longrightarrow> start \<le> y)
         | Inl code \<Rightarrow>
             (if \<not> mbr_signed mbr \<or> \<not> table_sound mbr drive then code = PM_TABLE
              else if 2097151 < size_mib then code = PM_ARGUMENT
              else if \<forall>i < 4. \<not> mbr_entry_is_empty mbr i then code = PM_NO_SLOT
              else code = PM_NO_SPACE \<and> (\<forall>y. \<not> gap y)))"

lemma find_slot_None: "find P [0..<4] = None \<longleftrightarrow> (\<forall>i < 4. \<not> P i)"
  by (auto simp: find_None_iff)

lemma find_slot_Some: "find P [0..<4] = Some k \<Longrightarrow> k < 4 \<and> P k \<and> (\<forall>i < k. \<not> P i)"
  by (auto simp: find_Some_iff)

lemma plan_partition_correct:
  assumes "drive \<le> 268435456" "0 < size_mib"
  shows "plan_correct mbr drive size_mib (plan_partition mbr drive size_mib)"
proof (cases "mbr_signed mbr \<and> table_sound mbr drive \<and> size_mib \<le> 2097151")
  case False
  then show ?thesis
    by (auto simp: plan_correct_def plan_partition_def validate_sound [OF assms(1)] Let_def)
next
  case True
  define requested where "requested = size_mib * 2048"
  define gap where "gap = is_gap (table_entries mbr) drive requested"
  have r: "mul32 size_mib 2048 = requested" using True by (simp add: requested_def mul32_def)
  have plan: "plan_partition mbr drive size_mib =
      (case find (mbr_entry_is_empty mbr) [0..<4] of
         None \<Rightarrow> Inl PM_NO_SLOT
       | Some slot \<Rightarrow>
           if drive \<le> 2048 \<or> drive - 2048 < requested then Inl PM_NO_SPACE
           else (case place (table_entries mbr) drive requested 2048 of
                   None \<Rightarrow> Inl PM_NO_SPACE | Some start \<Rightarrow> Inr (slot, start)))"
    using True by (simp add: plan_partition_def validate_sound [OF assms(1)] r PARTITION_MANAGER_MAX_PARTITIONS_def Let_def)
  show ?thesis
  proof (cases "find (mbr_entry_is_empty mbr) [0..<4]")
    case None
    then show ?thesis using True find_slot_None [of "mbr_entry_is_empty mbr"]
      by (simp add: plan plan_correct_def Let_def)
  next
    case (Some slot)
    note slot = find_slot_Some [OF Some]
    show ?thesis
    proof (cases "drive \<le> 2048 \<or> drive - 2048 < requested")
      case full: True
      then have "\<not> gap y" for y using assms(2) by (auto simp: gap_def is_gap_def requested_def)
      then show ?thesis using True slot full Some
        by (auto simp: plan plan_correct_def gap_def requested_def Let_def)
    next
      case room: False
      have req: "0 < requested" "requested \<le> drive" "2048 \<le> drive + 2047" using room assms(2) by (auto simp: requested_def)
      have "\<forall>y. is_gap (table_entries mbr) drive requested y \<longrightarrow> 2048 \<le> y" by (simp add: is_gap_def)
      from place_first_gap [OF table_inside assms(1) req(1,2) _ _ req(3) this] True
      have "case place (table_entries mbr) drive requested 2048 of
          None \<Rightarrow> \<forall>y. \<not> gap y | Some x \<Rightarrow> gap x \<and> (\<forall>y. gap y \<longrightarrow> x \<le> y)"
        unfolding gap_def by simp
      then show ?thesis using True slot room Some
        by (auto simp: plan plan_correct_def gap_def requested_def Let_def split: option.splits)
    qed
  qed
qed

section \<open>The whole call\<close>

definition pm_table :: "'h pm \<Rightarrow> partition_info list \<times> nat \<times> bool" where
  "pm_table s = (partitions s, partition_count s, superfloppy s)"

definition medium :: "('h \<Rightarrow> ata_view) \<Rightarrow> 'h pm \<Rightarrow> disk" where
  "medium look s = av_sectors (look (hw (dev s)))"

text \<open>The statics \<open>t\<close>, the window from \<open>a\<close> of \<open>n\<close> sectors selected, and \<open>m\<close> on the drive.\<close>

definition pm_at ::
    "ata_disk \<Rightarrow> ('h \<Rightarrow> ata_view) \<Rightarrow> partition_info list \<times> nat \<times> bool \<Rightarrow> nat \<Rightarrow> nat \<Rightarrow> disk \<Rightarrow> 'h pm \<Rightarrow> bool" where
  "pm_at disk look t a n m s \<longleftrightarrow> pm_table s = t \<and> ata_ok disk look a n (dev s) \<and> medium look s = m"

context ata_drive
begin

lemma pm_at_size: "pm_at disk look t a n m s \<Longrightarrow> drive_size s = ad_sector_count disk"
  by (simp add: pm_at_def ata_ok_def drive_size_def blockdev_device_sector_count_def)

lemma pm_at_window:
  assumes "pm_at disk look t a n m s" "0 < k" "b + k \<le> ad_sector_count disk"
  shows "\<exists>s'. pm_window b k s = (True, s') \<and> pm_at disk look t b k m s'"
proof -
  have "drive_size s = ad_sector_count disk" by (rule pm_at_size [OF assms(1)])
  then have "pm_window b k s = (True, s\<lparr>dev := (dev s)\<lparr>volume_start_sector := b, volume_sector_count := k\<rparr>\<rparr>)"
    using assms(2,3) by (simp add: pm_window_def blockdev_set_partition_def drive_size_def Let_def)
  then show ?thesis using assms(1)
    by (auto simp: pm_at_def ata_ok_def pm_table_def medium_def)
qed

lemma window_volume: "a + n \<le> ad_sector_count disk \<Longrightarrow> ata_volume p disk look a n"
  by (rule ata_volume.intro [OF ata_drive_axioms ata_volume_axioms.intro])

lemma pm_at_read:
  assumes "pm_at disk look t a n m s" "a + n \<le> ad_sector_count disk" "k < n"
  shows "\<exists>s'. pm_read p k s = (Some (m (a + k)), s') \<and> pm_at disk look t a n m s'"
proof -
  have d: "ata_ok disk look a n (dev s)" "medium look s = m" "pm_table s = t" using assms(1) by (simp_all add: pm_at_def)
  from ata_volume.volume_read [OF window_volume [OF assms(2)] d(1) assms(3)] obtain d' where
    d': "blockdev_read_sector p k (dev s) = (Some (ata_contents look a (dev s) k), d')" "ata_ok disk look a n d'"
    by blast
  have "av_sectors (look (hw d')) = av_sectors (look (hw (dev s)))"
  proof -
    from raw_read [of "hw (dev s)" "a + k"] d(1) assms(2,3) obtain h where
      h: "ata_read_sector_raw p disk (a + k) (hw (dev s)) = (Some (av_sectors (look (hw (dev s))) (a + k)), h)"
        "av_sectors (look h) = av_sectors (look (hw (dev s)))"
      by (auto simp: ata_ok_def)
    have "add32 a k = a + k" using assms(2,3) capacity by (simp add: ATA_LBA28_LIMIT_def)
    then show ?thesis using d'(1) h d(1) assms(3) by (auto simp: blockdev_read_sector_def ata_ok_def)
  qed
  then show ?thesis using d d' by (simp add: pm_read_def pm_at_def pm_table_def medium_def ata_contents_def)
qed

lemma pm_at_write:
  assumes "pm_at disk look t a n m s" "a + n \<le> ad_sector_count disk" "k < n" "length b = 512"
  shows "\<exists>s'. pm_write p k b s = (True, s') \<and> pm_at disk look t a n (m(a + k := b)) s'"
proof -
  have d: "ata_ok disk look a n (dev s)" "medium look s = m" "pm_table s = t" using assms(1) by (simp_all add: pm_at_def)
  from ata_volume.volume_write [OF window_volume [OF assms(2)] d(1) assms(3,4)] obtain d' where
    d': "blockdev_write_sector p k b (dev s) = (True, d')" "ata_ok disk look a n d'"
    by blast
  have "av_sectors (look (hw d')) = (av_sectors (look (hw (dev s))))(a + k := b)"
  proof -
    from raw_write [of "hw (dev s)" "a + k" b "\<lambda>_. True"] d(1) assms(2-4) obtain h where
      h: "ata_write_sector_raw p disk (a + k) b (hw (dev s)) = (True, h)"
        "av_sectors (look h) = (av_sectors (look (hw (dev s))))(a + k := b)"
      by (auto simp: ata_ok_def)
    have "add32 a k = a + k" using assms(2,3) capacity by (simp add: ATA_LBA28_LIMIT_def)
    then show ?thesis using d'(1) h d(1) assms(3) by (auto simp: blockdev_write_sector_def ata_ok_def)
  qed
  then show ?thesis using d d' by (simp add: pm_write_def pm_at_def pm_table_def medium_def)
qed

lemma restore_same: "pm_table s = pm_table s' \<Longrightarrow> \<not> superfloppy s \<Longrightarrow> restore_window s' = restore_window s"
  by (simp add: pm_table_def restore_window_def selected_slot_def)

lemma mbr_read:
  assumes "pm_at disk look t a n m s" "\<not> superfloppy s" "restore_window s = Some w" "0 < ad_sector_count disk"
  shows "\<exists>s'. read_full_drive_mbr p s = (Some (m 0), s') \<and> pm_at disk look t 0 (ad_sector_count disk) m s'"
proof -
  obtain x y where w: "w = (x, y)" by fastforce
  from pm_at_window [OF assms(1,4), of 0] obtain s1 where
    s1: "pm_window 0 (ad_sector_count disk) s = (True, s1)" "pm_at disk look t 0 (ad_sector_count disk) m s1" by auto
  from pm_at_read [OF s1(2) _ assms(4)] obtain s2 where
    "pm_read p 0 s1 = (Some (m 0), s2)" "pm_at disk look t 0 (ad_sector_count disk) m s2" by auto
  then show ?thesis using s1 assms(3,4) pm_at_size [OF assms(1)] by (simp add: read_full_drive_mbr_def w)
qed

lemma mbr_written:
  assumes "pm_at disk look t 0 (ad_sector_count disk) m s" "\<not> superfloppy s" "restore_window s = Some (a, n)"
    and "0 < n" "a + n \<le> ad_sector_count disk" "length b = 512"
  shows "\<exists>s'. write_full_drive_mbr p b drive s = (True, s') \<and> pm_at disk look t a n (m(0 := b)) s'"
proof -
  have "0 < ad_sector_count disk" using assms(4,5) by simp
  from pm_at_write [OF assms(1) _ this assms(6)] obtain s1 where
    s1: "pm_write p 0 b s = (True, s1)" "pm_at disk look t 0 (ad_sector_count disk) (m(0 := b)) s1" by auto
  from pm_at_window [OF s1(2) assms(4,5)] obtain s2 where
    "pm_window a n s1 = (True, s2)" "pm_at disk look t a n (m(0 := b)) s2" by blast
  then show ?thesis using s1 assms(2,3) by (simp add: write_full_drive_mbr_def)
qed

lemma create_runs:
  assumes "pm_at disk look t a n m s" "\<not> superfloppy s" "restore_window s = Some (a, n)"
    and "0 < n" "a + n \<le> ad_sector_count disk" "0 < size_mib"
  shows "\<exists>r s' m'. partition_manager_create p size_mib s = (r, s') \<and> pm_at disk look t a n m' s'
    \<and> (case plan_partition (m 0) (ad_sector_count disk) size_mib of
         Inl code \<Rightarrow> r = Inl code \<and> m' = m
       | Inr (slot, start) \<Rightarrow> r = Inr (slot + 1, start)
           \<and> m' = m(0 := new_mbr_entry slot start (mul32 size_mib 2048) (m 0)))"
proof -
  have pos: "0 < ad_sector_count disk" using assms(4,5) by simp
  have len: "length (m 0) = 512" using assms(1) pos by (auto simp: pm_at_def ata_ok_def medium_def)
  from mbr_read [OF assms(1-3) pos] obtain s1 where
    s1: "read_full_drive_mbr p s = (Some (m 0), s1)" "pm_at disk look t 0 (ad_sector_count disk) m s1" by blast
  have same: "pm_table s1 = pm_table s" using assms(1) s1(2) by (simp add: pm_at_def)
  then have sf: "\<not> superfloppy s1" using assms(2) by (simp add: pm_table_def)
  have w: "restore_window s1 = Some (a, n)" using restore_same [of s s1] same assms(2,3) by simp
  have size1: "drive_size s1 = ad_sector_count disk" by (rule pm_at_size [OF s1(2)])
  show ?thesis
  proof (cases "plan_partition (m 0) (ad_sector_count disk) size_mib")
    case (Inl code)
    from pm_at_window [OF s1(2) assms(4,5)] obtain s2 where
      "pm_window a n s1 = (True, s2)" "pm_at disk look t a n m s2" by blast
    then show ?thesis using s1 w assms(2,6) Inl size1
      by (simp add: partition_manager_create_def create_failed_def)
  next
    case (Inr x)
    obtain slot start where x: "x = (slot, start)" by fastforce
    have "slot < 4" using Inr x find_slot_Some
      by (auto simp: plan_partition_def PARTITION_MANAGER_MAX_PARTITIONS_def Let_def split: if_splits option.splits)
    then have at: "entry_at slot + 16 \<le> 512" by (simp add: entry_at_def mbr_defs)
    then have "length (new_mbr_entry slot start (mul32 size_mib 2048) (m 0)) = 512"
      using len by (simp add: new_mbr_entry_def Let_def MBR_PARTITION_ENTRY_SIZE_def)
    from mbr_written [OF s1(2) sf w assms(4,5) this] obtain s2 where
      "write_full_drive_mbr p (new_mbr_entry slot start (mul32 size_mib 2048) (m 0)) (ad_sector_count disk) s1 = (True, s2)"
      "pm_at disk look t a n (m(0 := new_mbr_entry slot start (mul32 size_mib 2048) (m 0))) s2" by blast
    then show ?thesis using s1 assms(2,6) Inr x size1
      by (simp add: partition_manager_create_def)
  qed
qed

end

text \<open>The result of a call, the first sector before it, and the medium after it.\<close>

definition created :: "nat \<Rightarrow> nat \<Rightarrow> disk \<Rightarrow> disk \<Rightarrow> pm_code + nat \<times> nat \<Rightarrow> bool" where
  "created drive size_mib m m' r \<longleftrightarrow>
     (case r of
        Inl code \<Rightarrow> plan_correct (m 0) drive size_mib (Inl code) \<and> m' = m
      | Inr (index, start) \<Rightarrow> 0 < index \<and> plan_correct (m 0) drive size_mib (Inr (index - 1, start))
          \<and> (\<exists>mbr. m' = m(0 := mbr) \<and> partition_entered (m 0) (index - 1) start (size_mib * 2048) mbr
               \<and> table_sound mbr drive))"

text \<open>
  C28. Creating a partition on a drive that keeps the ATA protocol and drops a command it gets while
  it is busy, when the drive is no superfloppy and a partition is selected (without one the window cannot be set
  back and the call ends with an I/O error): when the table is signed and sound, a slot is empty and some 1 MiB-aligned gap of that size lies behind the first 2048 sectors, the first
  such gap is entered into the first empty slot, the rest of the sector and of the drive stay as they are and
  the table is sound again; otherwise the code says which of these is missing and the drive is unchanged. Either
  way the window of the mounted partition is selected again.
\<close>

lemma partition_create:
  assumes "ata_drive p disk look" "pm_at disk look t a n m s" "\<not> superfloppy s" "restore_window s = Some (a, n)"
    and "0 < n" "a + n \<le> ad_sector_count disk" "0 < size_mib"
  shows "\<exists>r s' m'. partition_manager_create p size_mib s = (r, s') \<and> pm_at disk look t a n m' s'
    \<and> created (ad_sector_count disk) size_mib m m' r"
proof -
  let ?drive = "ad_sector_count disk"
  have drive: "?drive \<le> 268435456"
    using ata_drive.capacity [OF assms(1)] by (simp add: ATA_LBA28_LIMIT_def)
  note plan = plan_partition_correct [OF drive assms(7), of "m 0"]
  have len: "length (m 0) = 512" using assms(2,5,6) by (auto simp: pm_at_def ata_ok_def medium_def)
  from ata_drive.create_runs [OF assms] obtain r s' m' where
    run: "partition_manager_create p size_mib s = (r, s')" "pm_at disk look t a n m' s'" and
    out: "case plan_partition (m 0) ?drive size_mib of
         Inl code \<Rightarrow> r = Inl code \<and> m' = m
       | Inr (slot, start) \<Rightarrow> r = Inr (slot + 1, start)
           \<and> m' = m(0 := new_mbr_entry slot start (mul32 size_mib 2048) (m 0))" by blast
  have "created ?drive size_mib m m' r"
  proof (cases "plan_partition (m 0) ?drive size_mib")
    case (Inl code)
    then show ?thesis using plan out by (simp add: created_def)
  next
    case (Inr x)
    obtain slot start where x: "x = (slot, start)" by fastforce
    have c: "slot < 4" "table_sound (m 0) ?drive" "is_gap (table_entries (m 0)) ?drive (size_mib * 2048) start"
      using plan Inr x by (simp_all add: plan_correct_def Let_def)
    then have bound: "start + size_mib * 2048 \<le> ?drive" by (simp add: is_gap_def)
    then have n: "mul32 size_mib 2048 = size_mib * 2048" using drive by (simp add: mul32_def)
    have e: "partition_entered (m 0) slot start (size_mib * 2048) (new_mbr_entry slot start (size_mib * 2048) (m 0))"
      by (rule new_mbr_entry_entered) (use len c bound drive in simp_all)
    with entered_sound [OF e c(1,2) _ c(3)] show ?thesis using out plan Inr x assms(7) n
      by (auto simp: created_def)
  qed
  with run show ?thesis by blast
qed

section \<open>A drive with one partition\<close>

definition one_mbr :: bytes where
  "one_mbr = replicate 446 0 @ [0x80, 0, 0, 0, 0x0C, 0, 0, 0, 0, 8, 0, 0, 0, 8, 0, 0] @ replicate 48 0 @ [0x55, 0xAA]"

definition one_partition :: "ata_view pm" where
  "one_partition = \<lparr>
     partitions = \<lparr>pt_type = MBR_TYPE_FAT32_LBA, pt_bootable = True, pt_valid = True, pt_selected = True,
                   pt_start = 2048, pt_count = 2048\<rparr> # replicate 3 no_partition,
     partition_count = 1, superfloppy = False,
     dev = \<lparr>disks = replicate 4 (sim_drive 8192), drive_count = 1, active_drive = 0, volume_start_sector = 2048,
            volume_sector_count = 2048, disk_ready = True,
            hw = \<lparr>av_phase = Idle, av_busy = 0, av_seccount = 0, av_lba0 = 0, av_lba1 = 0, av_lba2 = 0,
                  av_devsel = 0, av_sectors = (\<lambda>n. if n = 0 then one_mbr else replicate 512 0),
                  av_flushes = 0\<rparr>\<rparr>\<rparr>"

lemma one_mbr_length: "length one_mbr = 512"
  by (simp add: one_mbr_def)

lemma one_partition_at:
  "pm_at (sim_drive 8192) (\<lambda>v. v) (pm_table one_partition) 2048 2048 (medium (\<lambda>v. v) one_partition) one_partition"
  by (simp add: pm_at_def ata_ok_def one_partition_def sim_drive_def one_mbr_length)

lemma partition_create_witness:
  "\<exists>r s' m'. partition_manager_create sim_ports 1 one_partition = (r, s')
    \<and> pm_at (sim_drive 8192) (\<lambda>v. v) (pm_table one_partition) 2048 2048 m' s'
    \<and> created (ad_sector_count (sim_drive 8192)) 1 (medium (\<lambda>v. v) one_partition) m' r"
proof (rule partition_create [OF simulated_drive one_partition_at])
  show "restore_window one_partition = Some (2048, 2048)"
    by (simp add: restore_window_def selected_slot_def one_partition_def no_partition_def)
qed (simp_all add: one_partition_def sim_drive_def ATA_LBA28_LIMIT_def)

end
