(* ===== verification/Vfs.thy ===== *)
theory Vfs
  imports Vfs_Path Fat32_Volume
begin

text \<open>
  The calls of \<open>filesystem/vfs.c\<close> that hand over to the FAT32 driver. Paths are absolute here; the shell makes
  them so with \<open>vfs_normalize_path\<close>.
\<close>

record vfs_entry =
  ve_name :: bytes
  ve_is_directory :: bool
  ve_size :: nat

text \<open>The name buffer has 13 bytes.\<close>

definition vfs_list_adapter :: "(vfs_entry \<Rightarrow> 'c \<Rightarrow> bool \<times> 'c) \<Rightarrow> 'c visitor" where
  "vfs_list_adapter visit e =
     visit \<lparr>ve_name = take 12 (de_name e), ve_is_directory = de_is_directory e, ve_size = de_size e\<rparr>"

definition vfs_init :: "'d blockdev \<Rightarrow> 'd \<Rightarrow> (bool \<times> fat32_state) \<times> 'd" where
  "vfs_init io = fat32_mount io"

definition vfs_unmount :: "fat32_state \<Rightarrow> fat32_state" where
  "vfs_unmount g = fat32_unmount g"

definition vfs_path_is_dir :: "'d blockdev \<Rightarrow> fat32_state \<Rightarrow> bytes \<Rightarrow> 'd \<Rightarrow> bool io_res \<times> 'd" where
  "vfs_path_is_dir io g path = fat32_path_is_dir io g path"

definition vfs_list ::
    "'d blockdev \<Rightarrow> fat32_state \<Rightarrow> bytes \<Rightarrow> (vfs_entry \<Rightarrow> 'c \<Rightarrow> bool \<times> 'c) \<Rightarrow> 'c \<Rightarrow> 'd \<Rightarrow> 'c io_res \<times> 'd" where
  "vfs_list io g path visit ctx =
     (if \<not> fat32_is_mounted g then failr else fat32_list_dir io g path (vfs_list_adapter visit) ctx)"

definition vfs_touch :: "'d blockdev \<Rightarrow> fat32_state \<Rightarrow> bytes \<Rightarrow> 'd \<Rightarrow> unit io_res \<times> 'd" where
  "vfs_touch io g path = fat32_touch_file io g path"

definition vfs_mkdir :: "'d blockdev \<Rightarrow> fat32_state \<Rightarrow> bytes \<Rightarrow> 'd \<Rightarrow> unit io_res \<times> 'd" where
  "vfs_mkdir io g path = fat32_make_dir io g path"

definition vfs_rm :: "'d blockdev \<Rightarrow> fat32_state \<Rightarrow> bytes \<Rightarrow> 'd \<Rightarrow> unit io_res \<times> 'd" where
  "vfs_rm io g path = fat32_remove_file io g path"

definition vfs_rmdir :: "'d blockdev \<Rightarrow> fat32_state \<Rightarrow> bytes \<Rightarrow> 'd \<Rightarrow> unit io_res \<times> 'd" where
  "vfs_rmdir io g path = fat32_remove_dir io g path"

definition vfs_read_file :: "'d blockdev \<Rightarrow> fat32_state \<Rightarrow> bytes \<Rightarrow> nat \<Rightarrow> 'd \<Rightarrow> bytes io_res \<times> 'd" where
  "vfs_read_file io g path capacity = fat32_read_file io g path capacity"

definition vfs_write_file ::
    "'d blockdev \<Rightarrow> fat32_state \<Rightarrow> bytes \<Rightarrow> bytes \<Rightarrow> bool \<Rightarrow> 'd \<Rightarrow> unit io_res \<times> 'd" where
  "vfs_write_file io g path buf app = fat32_write_file io g path buf app"

definition vfs_get_space :: "'d blockdev \<Rightarrow> fat32_state \<Rightarrow> 'd \<Rightarrow> (nat \<times> nat \<times> nat) io_res \<times> 'd" where
  "vfs_get_space io g = fat32_get_space io g"

definition vfs_get_volume_label :: "'d blockdev \<Rightarrow> fat32_state \<Rightarrow> nat \<Rightarrow> 'd \<Rightarrow> bytes io_res \<times> 'd" where
  "vfs_get_volume_label io g capacity = fat32_get_volume_label io g capacity"

definition vfs_set_volume_label :: "'d blockdev \<Rightarrow> fat32_state \<Rightarrow> bytes \<Rightarrow> 'd \<Rightarrow> unit io_res \<times> 'd" where
  "vfs_set_volume_label io g label = fat32_set_volume_label io g label"

text \<open>
  A path that \<open>vfs_normalize_path\<close> has produced is one the FAT32 driver can walk: its scanner takes the components
  off one after the other and never meets one that is too long.
\<close>

fun scan_path :: "nat \<Rightarrow> bytes \<Rightarrow> bytes list option" where
  "scan_path 0 cursor = None"
| "scan_path (Suc n) cursor =
     (case next_path_component cursor of
        Path_End \<Rightarrow> Some []
      | Path_Bad \<Rightarrow> None
      | Path_Component c rest \<Rightarrow> map_option ((#) c) (scan_path n rest))"

lemma next_component_text:
  assumes "component_ok c" "rest = [] \<or> hd rest = slash"
  shows "next_path_component (slash # c @ rest) = Path_Component c rest"
proof -
  have c: "c \<noteq> []" "\<forall>x \<in> set c. x \<noteq> slash" "length c \<le> 12" using assms(1) by (auto simp: component_ok_def)
  have s: "sep = slash" by (simp add: sep_def slash_def)
  have "dropWhile (\<lambda>x. x = slash) (slash # c @ rest) = c @ rest" using c by (cases c) auto
  moreover have "takeWhile (\<lambda>x. x \<noteq> slash) (c @ rest) = c" "dropWhile (\<lambda>x. x \<noteq> slash) (c @ rest) = rest"
    using c(2) assms(2) by (cases rest; simp)+
  ultimately show ?thesis using c by (simp add: next_path_component_def s)
qed

lemma scan_components:
  "list_all component_ok cs \<Longrightarrow> length cs < n \<Longrightarrow> scan_path n (slash # tail_text cs) = Some cs"
proof (induction cs arbitrary: n)
  case Nil
  then obtain k where "n = Suc k" by (cases n) auto
  then show ?case by (simp add: next_path_component_def sep_def slash_def)
next
  case (Cons c cs)
  then obtain k where k: "n = Suc k" "length cs < k" by (cases n) auto
  let ?rest = "if cs = [] then [] else slash # tail_text cs"
  have "next_path_component (slash # c @ ?rest) = Path_Component c ?rest"
    using next_component_text [of c ?rest] Cons.prems by (simp split: if_splits)
  moreover have "scan_path k ?rest = Some cs"
  proof (cases "cs = []")
    case True
    then show ?thesis using k by (cases k) (simp_all add: next_path_component_def)
  qed (use Cons.IH [of k] Cons.prems k in simp)
  ultimately show ?case by (simp add: k)
qed

lemma normalized_path_scans:
  assumes "vfs_normalize_path cwd input capacity = Some path"
  shows "scan_path 17 path = Some (foldl walk [] (segments (meant cwd input)))"
proof -
  from assms obtain cs where "cs = foldl walk [] (segments (meant cwd input))" "components_ok cs"
    "join_components capacity [slash] cs = Some path" by (rule normalize_components)
  moreover from this have "path = slash # tail_text cs" using join_components_text [of capacity "[slash]" cs path] by simp
  ultimately show ?thesis using scan_components [of cs 17] by (simp add: components_ok_def)
qed

end
