(* ===== verification/Net_Base.thy ===== *)
theory Net_Base
  imports Prelude
begin

text \<open>
  What the protocols of \<open>net/\<close> share: big-endian fields, and the Internet checksum of \<open>net/ipv4.c\<close> with the
  reason why a receiver accepts what a sender has summed up. A packet is the list of its bytes.
\<close>

section \<open>Fields\<close>

definition be16_at :: "bytes \<Rightarrow> nat \<Rightarrow> u16" where
  "be16_at b i = u16_of_le (b ! (i + 1)) (b ! i)"

definition be32_at :: "bytes \<Rightarrow> nat \<Rightarrow> u32" where
  "be32_at b i = u32_of_le (b ! (i + 3)) (b ! (i + 2)) (b ! (i + 1)) (b ! i)"

definition address_equal :: "bytes \<Rightarrow> bytes \<Rightarrow> bool" where
  "address_equal a b \<longleftrightarrow> take 4 a = take 4 b"

definition address_is_zero :: "bytes \<Rightarrow> bool" where
  "address_is_zero a \<longleftrightarrow> a ! 0 = 0 \<and> a ! 1 = 0 \<and> a ! 2 = 0 \<and> a ! 3 = 0"

lemma be16_at_written [codec]: "be16_at (a @ be_of_u16 v @ c) (length a) = v"
  by (simp add: be16_at_def nth_append be_of_u16_def codec)

lemma be32_at_written [codec]: "be32_at (a @ be_of_u32 v @ c) (length a) = v"
  by (simp add: be32_at_def nth_append be_of_u32_def codec)

section \<open>The checksum\<close>

text \<open>
  The sum of the 16-bit words, an odd last byte in the high half. The source keeps it in 32 bits, which hold
  it for every 16-bit length.
\<close>

fun be_sum :: "bytes \<Rightarrow> nat" where
  "be_sum [] = 0"
| "be_sum [x] = unat x * 256"
| "be_sum (x # y # b) = unat x * 256 + unat y + be_sum b"

lemma carry_less: "s div 65536 \<noteq> 0 \<Longrightarrow> s mod 65536 + s div 65536 < (s :: nat)"
  using div_mult_mod_eq [of s 65536] by linarith

function fold_carries :: "nat \<Rightarrow> nat" where
  "fold_carries s = (if s div 65536 = 0 then s else fold_carries (s mod 65536 + s div 65536))"
  by auto
termination
  by (relation "measure id") (use carry_less in auto)

declare fold_carries.simps [simp del]

definition ipv4_checksum :: "bytes \<Rightarrow> nat" where
  "ipv4_checksum b = 65535 - fold_carries (be_sum b)"

definition ipv4_transport_checksum :: "bytes \<Rightarrow> bytes \<Rightarrow> u8 \<Rightarrow> bytes \<Rightarrow> nat" where
  "ipv4_transport_checksum source destination protocol segment =
     65535 - fold_carries (be_sum (take 4 source) + be_sum (take 4 destination) + unat protocol
       + length segment + be_sum segment)"

lemma be_sum_bound: "2 * be_sum b \<le> 65535 * (length b + 1)"
proof (induction b rule: be_sum.induct)
  case (2 x)
  have "unat x < 256" by (rule unat_bounds)
  then show ?case by simp
next
  case (3 x y b)
  have "unat x < 256" "unat y < 256" by (rule unat_bounds)+
  then show ?case using 3 by simp
qed simp

lemma be_sum_fits: "length b < 65536 \<Longrightarrow> be_sum b + 4 * 65535 + 255 + 65535 < 4294967296"
  using be_sum_bound [of b] by simp

lemma fold_carries_value:
  "fold_carries s \<le> 65535 \<and> fold_carries s mod 65535 = s mod 65535 \<and> (fold_carries s = 0 \<longleftrightarrow> s = 0)"
proof (induction s rule: fold_carries.induct)
  case (1 s)
  show ?case
  proof (cases "s div 65536 = 0")
    case True
    then have "s < 65536" by (simp add: div_eq_0_iff)
    then show ?thesis using True by (simp add: fold_carries.simps [of s])
  next
    case False
    have "s = 65535 * (s div 65536) + (s mod 65536 + s div 65536)" using div_mult_mod_eq [of s 65536] by linarith
    then have "(s mod 65536 + s div 65536) mod 65535 = s mod 65535"
      by (metis mod_mult_self4)
    moreover have "s mod 65536 + s div 65536 \<noteq> 0" "s \<noteq> 0" using False by auto
    ultimately show ?thesis using 1 False by (simp add: fold_carries.simps [of s])
  qed
qed

lemma checksum_zero: "65535 - fold_carries s = 0 \<longleftrightarrow> 0 < s \<and> 65535 dvd s"
proof -
  note f = fold_carries_value [of s]
  have "fold_carries s = 65535 \<longleftrightarrow> 0 < s \<and> 65535 dvd s"
  proof
    assume "0 < s \<and> 65535 dvd s"
    then have "fold_carries s mod 65535 = 0" "fold_carries s \<noteq> 0" using f by auto
    then have "65535 dvd fold_carries s" by (simp add: mod_eq_0_iff_dvd)
    then show "fold_carries s = 65535" using f \<open>fold_carries s \<noteq> 0\<close> dvd_imp_le by fastforce
  next
    assume e: "fold_carries s = 65535"
    then have "s mod 65535 = 0" "s \<noteq> 0" using f by auto
    then show "0 < s \<and> 65535 dvd s" by (simp add: mod_eq_0_iff_dvd)
  qed
  then show ?thesis using f by linarith
qed

text \<open>A sum, with its own complement added, checks.\<close>

lemma checksum_added: "65535 - fold_carries (s + (65535 - fold_carries s)) = 0"
proof -
  note f = fold_carries_value [of s]
  have "(s + (65535 - fold_carries s)) mod 65535 = (fold_carries s + (65535 - fold_carries s)) mod 65535"
    by (metis f mod_add_left_eq)
  also have "\<dots> = 0" using f by simp
  finally have "65535 dvd s + (65535 - fold_carries s)" by (simp add: mod_eq_0_iff_dvd)
  moreover have "0 < s + (65535 - fold_carries s)" using f by (cases "s = 0") auto
  ultimately show ?thesis using checksum_zero by blast
qed

lemma be_sum_append: "even (length a) \<Longrightarrow> be_sum (a @ b) = be_sum a + be_sum b"
  by (induction a rule: be_sum.induct) auto

lemma be_sum_field: "be_sum (be_of_u16 (of_nat v) @ b) = v mod 65536 + be_sum b"
proof -
  let ?w = "of_nat v :: u16"
  have "unat (ucast (drop_bit 8 ?w) :: u8) * 256 + unat (ucast ?w :: u8) = unat ?w"
  proof -
    have d: "unat (drop_bit 8 w) = unat w div 256" for w :: u16
      unfolding unsigned_drop_bit_eq using unat_bounds(2) [of w]
      by (simp add: drop_bit_eq_div take_bit_eq_mod less_mult_imp_div_less)
    have "unat ?w div 256 < 256" using unat_bounds(2) [of ?w] by (simp add: less_mult_imp_div_less)
    then have "unat (ucast (drop_bit 8 ?w) :: u8) = unat ?w div 256"
      by (simp add: unsigned_ucast_eq take_bit_eq_mod d)
    moreover have "unat (ucast ?w :: u8) = unat ?w mod 256"
      by (simp add: unsigned_ucast_eq take_bit_eq_mod)
    ultimately show ?thesis by simp
  qed
  then show ?thesis by (simp add: be_of_u16_def unat_of_nat)
qed

lemma checksum_less: "65535 - fold_carries s < 65536"
  by simp

lemma be_sum_patched:
  assumes "even (length a)" "v < 65536"
  shows "be_sum (a @ be_of_u16 (of_nat v) @ b) = be_sum (a @ be_of_u16 0 @ b) + v"
  using assms be_sum_field [of v b] be_sum_field [of 0 b] by (simp add: be_sum_append)

lemma ipv4_checksum_checks:
  assumes "even (length a)"
  shows "ipv4_checksum (a @ be_of_u16 (of_nat (ipv4_checksum (a @ be_of_u16 0 @ b))) @ b) = 0"
  using checksum_added [of "be_sum (a @ be_of_u16 0 @ b)"]
  by (simp add: ipv4_checksum_def be_sum_patched [OF assms checksum_less])

lemma transport_checksum_checks:
  fixes source destination protocol a b
  defines "ck \<equiv> ipv4_transport_checksum source destination protocol (a @ be_of_u16 0 @ b)"
  assumes "even (length a)"
  shows "ipv4_transport_checksum source destination protocol (a @ be_of_u16 (of_nat ck) @ b) = 0"
proof -
  let ?s = "be_sum (take 4 source) + be_sum (take 4 destination) + unat protocol
    + length (a @ be_of_u16 0 @ b) + be_sum (a @ be_of_u16 0 @ b)"
  have ck: "ck = 65535 - fold_carries ?s" by (simp add: ck_def ipv4_transport_checksum_def)
  have "be_sum (a @ be_of_u16 (of_nat ck) @ b) = be_sum (a @ be_of_u16 0 @ b) + ck"
    by (rule be_sum_patched [OF assms(2)]) (simp add: ck)
  then show ?thesis using checksum_added [of ?s]
    by (simp add: ipv4_transport_checksum_def ck add.assoc)
qed

end
