(* ===== verification/Net.thy ===== *)
theory Net
  imports Net_Base "HOL-Library.While_Combinator"
begin

text \<open>
  \<open>net/network.c\<close>, \<open>net/ethernet.c\<close>, \<open>net/arp.c\<close> and \<open>net/ipv4.c\<close>: interfaces, frames, the address cache and IPv4
  packets. The statics of these files are the record \<open>net\<close>, which the protocols above extend by theirs. An
  interface is its index in the table; a handler registered for a protocol is a constructor, and what it does
  is the argument \<open>call\<close> of the functions that dispatch. The network card is the list \<open>card\<close> of its answers to
  the next transmissions, and \<open>sent\<close> holds the frames it has taken. Waiting calls \<open>poll\<close>, which stands for
  \<open>network_poll\<close> and the time until the next interrupt.
\<close>

section \<open>State\<close>

definition NETWORK_MAX_INTERFACES :: nat where "NETWORK_MAX_INTERFACES = 4"
definition NETWORK_MAX_FRAME_SIZE :: nat where "NETWORK_MAX_FRAME_SIZE = 1518"
definition NETWORK_MIN_FRAME_SIZE :: nat where "NETWORK_MIN_FRAME_SIZE = 14"
definition NETWORK_RX_QUEUE_SIZE :: nat where "NETWORK_RX_QUEUE_SIZE = 8"
definition ETHERNET_HEADER_SIZE :: nat where "ETHERNET_HEADER_SIZE = 14"
definition ETHERNET_PROTOCOL_ARP :: u16 where "ETHERNET_PROTOCOL_ARP = 0x0806"
definition ETHERNET_PROTOCOL_IPV4 :: u16 where "ETHERNET_PROTOCOL_IPV4 = 0x0800"
definition ETHERNET_BROADCAST_ADDRESS :: bytes where "ETHERNET_BROADCAST_ADDRESS = replicate 6 0xFF"
definition ETHERNET_MAX_PROTOCOL_HANDLERS :: nat where "ETHERNET_MAX_PROTOCOL_HANDLERS = 8"
definition ARP_HARDWARE_ETHERNET :: u16 where "ARP_HARDWARE_ETHERNET = 1"
definition ARP_PROTOCOL_IPV4 :: u16 where "ARP_PROTOCOL_IPV4 = 0x0800"
definition ARP_OPERATION_REQUEST :: u16 where "ARP_OPERATION_REQUEST = 1"
definition ARP_OPERATION_REPLY :: u16 where "ARP_OPERATION_REPLY = 2"
definition ARP_ADDRESS_CACHE_SIZE :: nat where "ARP_ADDRESS_CACHE_SIZE = 8"
definition IPV4_PROTOCOL_ICMP :: u8 where "IPV4_PROTOCOL_ICMP = 1"
definition IPV4_PROTOCOL_TCP :: u8 where "IPV4_PROTOCOL_TCP = 6"
definition IPV4_HEADER_SIZE :: nat where "IPV4_HEADER_SIZE = 20"
definition IPV4_MAX_PROTOCOL_HANDLERS :: nat where "IPV4_MAX_PROTOCOL_HANDLERS = 8"
definition IPV4_FLAG_DONT_FRAGMENT :: u16 where "IPV4_FLAG_DONT_FRAGMENT = 0x4000"
definition IPV4_FRAGMENT_MASK :: u16 where "IPV4_FRAGMENT_MASK = 0x3FFF"

lemmas net_sizes = NETWORK_MAX_FRAME_SIZE_def NETWORK_MIN_FRAME_SIZE_def ETHERNET_HEADER_SIZE_def
  IPV4_HEADER_SIZE_def NETWORK_RX_QUEUE_SIZE_def ARP_ADDRESS_CACHE_SIZE_def

record network_stats =
  transmitted_frames :: nat
  received_frames :: nat
  dropped_frames :: nat
  transmit_errors :: nat
  receive_errors :: nat

record network_interface =
  if_name :: bytes
  mac_address :: bytes
  mtu :: nat
  link_up :: bool
  stats :: network_stats

record arp_cache_entry =
  ac_valid :: bool
  ac_ip :: bytes
  ac_mac :: bytes

record ipv4_configuration =
  ip_address :: bytes
  ip_netmask :: bytes
  ip_gateway :: bytes
  ip_dns :: bytes
  lease_seconds :: nat

datatype eth_handler = Handle_ARP | Handle_IPv4
datatype ip_handler = Handle_ICMP | Handle_TCP | Handle_UDP

record net =
  interfaces :: "network_interface list"
  receive_queue :: "(nat \<times> bytes) list"
  receive_head :: nat
  receive_tail :: nat
  receive_count :: nat
  eth_handlers :: "(u16 \<times> eth_handler) list"
  arp_entries :: "arp_cache_entry list"
  arp_cache_next :: nat
  active_configuration :: ipv4_configuration
  active_interface :: "nat option"
  ip_handlers :: "(u8 \<times> ip_handler) list"
  uptime :: u32
  card :: "bool list"
  sent :: "bytes list"

section \<open>Interfaces and frames\<close>

definition network_register_interface ::
    "bytes \<Rightarrow> bytes \<Rightarrow> nat \<Rightarrow> bool \<Rightarrow> 'z net_scheme \<Rightarrow> nat option \<times> 'z net_scheme" where
  "network_register_interface name mac m link n =
     (if m = 0 \<or> NETWORK_MAX_INTERFACES \<le> length (interfaces n) then (None, n)
      else (Some (length (interfaces n)),
            n\<lparr>interfaces := interfaces n @ [\<lparr>if_name = take 15 name, mac_address = take 6 mac, mtu = m, link_up = link,
               stats = \<lparr>transmitted_frames = 0, received_frames = 0, dropped_frames = 0, transmit_errors = 0,
                        receive_errors = 0\<rparr>\<rparr>]\<rparr>))"

definition network_interface_count :: "'z net_scheme \<Rightarrow> nat" where
  "network_interface_count n = length (interfaces n)"

definition network_interface_get :: "nat \<Rightarrow> 'z net_scheme \<Rightarrow> nat option" where
  "network_interface_get i n = (if i < length (interfaces n) then Some i else None)"

definition network_default_interface :: "'z net_scheme \<Rightarrow> nat option" where
  "network_default_interface n = (if interfaces n = [] then None else Some 0)"

definition count_stat ::
    "((nat \<Rightarrow> nat) \<Rightarrow> network_stats \<Rightarrow> network_stats) \<Rightarrow> nat \<Rightarrow> 'z net_scheme \<Rightarrow> 'z net_scheme" where
  "count_stat field i n =
     n\<lparr>interfaces := (interfaces n)[i := (interfaces n ! i)\<lparr>stats := field (\<lambda>k. add32 k 1) (stats (interfaces n ! i))\<rparr>]\<rparr>"

text \<open>The card's \<open>transmit\<close>: an exhausted list of answers means that it takes the frame.\<close>

definition card_transmit :: "bytes \<Rightarrow> 'z net_scheme \<Rightarrow> bool \<times> 'z net_scheme" where
  "card_transmit frame n =
     (case card n of
        False # answers \<Rightarrow> (False, n\<lparr>card := answers\<rparr>)
      | _ \<Rightarrow> (True, n\<lparr>card := tl (card n), sent := sent n @ [frame]\<rparr>))"

definition network_transmit_frame :: "bytes \<Rightarrow> 'z net_scheme \<Rightarrow> bool \<times> 'z net_scheme" where
  "network_transmit_frame frame n =
     (case network_default_interface n of
        None \<Rightarrow> (False, n)
      | Some i \<Rightarrow>
          if length frame < NETWORK_MIN_FRAME_SIZE \<or> NETWORK_MAX_FRAME_SIZE < length frame
             \<or> mtu (interfaces n ! i) + ETHERNET_HEADER_SIZE < length frame
          then (False, n)
          else
            (let (ok, n) = (if link_up (interfaces n ! i) then card_transmit frame n else (False, n))
             in if ok then (True, count_stat transmitted_frames_update i n)
                else (False, count_stat transmit_errors_update i n)))"

section \<open>Ethernet\<close>

definition ethernet_init :: "'z net_scheme \<Rightarrow> 'z net_scheme" where
  "ethernet_init n = n\<lparr>eth_handlers := []\<rparr>"

definition ethernet_register_protocol :: "u16 \<Rightarrow> eth_handler \<Rightarrow> 'z net_scheme \<Rightarrow> bool \<times> 'z net_scheme" where
  "ethernet_register_protocol protocol h n =
     (if ETHERNET_MAX_PROTOCOL_HANDLERS \<le> length (eth_handlers n) \<or> protocol \<in> fst ` set (eth_handlers n)
      then (False, n)
      else (True, n\<lparr>eth_handlers := eth_handlers n @ [(protocol, h)]\<rparr>))"

definition ethernet_frame :: "bytes \<Rightarrow> bytes \<Rightarrow> u16 \<Rightarrow> bytes \<Rightarrow> bytes" where
  "ethernet_frame destination source protocol payload =
     take 6 destination @ take 6 source @ be_of_u16 protocol @ payload"

definition ethernet_send :: "nat \<Rightarrow> bytes \<Rightarrow> u16 \<Rightarrow> bytes \<Rightarrow> 'z net_scheme \<Rightarrow> bool \<times> 'z net_scheme" where
  "ethernet_send i destination protocol payload n =
     (let frame_length = ETHERNET_HEADER_SIZE + length payload
      in if NETWORK_MAX_FRAME_SIZE < frame_length \<or> mtu (interfaces n ! i) + ETHERNET_HEADER_SIZE < frame_length
         then (False, n)
         else network_transmit_frame
                (ethernet_frame destination (mac_address (interfaces n ! i)) protocol payload) n)"

section \<open>The address cache\<close>

definition slot_of :: "bytes \<Rightarrow> 'z net_scheme \<Rightarrow> nat option" where
  "slot_of ip n =
     find (\<lambda>k. ac_valid (arp_entries n ! k) \<and> address_equal (ac_ip (arp_entries n ! k)) ip) [0..<ARP_ADDRESS_CACHE_SIZE]"

definition arp_cache_update :: "bytes \<Rightarrow> bytes \<Rightarrow> 'z net_scheme \<Rightarrow> 'z net_scheme" where
  "arp_cache_update ip mac n =
     (case slot_of ip n of
        Some k \<Rightarrow> n\<lparr>arp_entries := (arp_entries n)[k := (arp_entries n ! k)\<lparr>ac_mac := take 6 mac\<rparr>]\<rparr>
      | None \<Rightarrow>
          n\<lparr>arp_entries := (arp_entries n)[arp_cache_next n := \<lparr>ac_valid = True, ac_ip = take 4 ip, ac_mac = take 6 mac\<rparr>],
            arp_cache_next := (arp_cache_next n + 1) mod ARP_ADDRESS_CACHE_SIZE\<rparr>)"

definition arp_lookup_ipv4 :: "bytes \<Rightarrow> 'z net_scheme \<Rightarrow> bytes option" where
  "arp_lookup_ipv4 ip n = map_option (\<lambda>k. ac_mac (arp_entries n ! k)) (slot_of ip n)"

definition arp_learn_ipv4 :: "bytes \<Rightarrow> bytes \<Rightarrow> 'z net_scheme \<Rightarrow> 'z net_scheme" where
  "arp_learn_ipv4 ip mac n = (if address_equal ip [0, 0, 0, 0] then n else arp_cache_update ip mac n)"

definition arp_packet :: "u16 \<Rightarrow> bytes \<Rightarrow> bytes \<Rightarrow> bytes \<Rightarrow> bytes \<Rightarrow> bytes" where
  "arp_packet operation sender_mac sender_ip target_mac target_ip =
     be_of_u16 ARP_HARDWARE_ETHERNET @ be_of_u16 ARP_PROTOCOL_IPV4 @ [6, 4] @ be_of_u16 operation
     @ take 6 sender_mac @ take 4 sender_ip @ take 6 target_mac @ take 4 target_ip"

definition ipv4_get_configuration :: "'z net_scheme \<Rightarrow> ipv4_configuration option" where
  "ipv4_get_configuration n = (if active_interface n = None then None else Some (active_configuration n))"

definition arp_receive :: "nat \<Rightarrow> bytes \<Rightarrow> bytes \<Rightarrow> 'z net_scheme \<Rightarrow> 'z net_scheme" where
  "arp_receive i source_mac payload n =
     (if length payload < 28 \<or> be16_at payload 0 \<noteq> ARP_HARDWARE_ETHERNET \<or> be16_at payload 2 \<noteq> ARP_PROTOCOL_IPV4
         \<or> payload ! 4 \<noteq> 6 \<or> payload ! 5 \<noteq> 4 then n
      else
        (let operation = be16_at payload 6; sender_mac = take 6 (drop 8 payload); sender_ip = take 4 (drop 14 payload)
         in if operation \<noteq> ARP_OPERATION_REQUEST \<and> operation \<noteq> ARP_OPERATION_REPLY then n
            else if sender_mac \<noteq> take 6 source_mac \<or> address_equal sender_ip [0, 0, 0, 0] then n
            else
              (let n = arp_cache_update sender_ip sender_mac n
               in case ipv4_get_configuration n of
                    None \<Rightarrow> n
                  | Some configuration \<Rightarrow>
                      if operation = ARP_OPERATION_REQUEST
                         \<and> address_equal (drop 24 payload) (ip_address configuration)
                      then snd (ethernet_send i source_mac ETHERNET_PROTOCOL_ARP
                             (arp_packet ARP_OPERATION_REPLY (mac_address (interfaces n ! i)) (ip_address configuration)
                                sender_mac sender_ip) n)
                      else n)))"

definition arp_init :: "'z net_scheme \<Rightarrow> 'z net_scheme" where
  "arp_init n =
     snd (ethernet_register_protocol ETHERNET_PROTOCOL_ARP Handle_ARP
       (n\<lparr>arp_entries := map (ac_valid_update (\<lambda>_. False)) (arp_entries n), arp_cache_next := 0\<rparr>))"

definition arp_request_ipv4 :: "nat \<Rightarrow> bytes \<Rightarrow> bytes \<Rightarrow> 'z net_scheme \<Rightarrow> bool \<times> 'z net_scheme" where
  "arp_request_ipv4 i sender_ip target_ip n =
     ethernet_send i ETHERNET_BROADCAST_ADDRESS ETHERNET_PROTOCOL_ARP
       (arp_packet ARP_OPERATION_REQUEST (mac_address (interfaces n ! i)) sender_ip (replicate 6 0) target_ip) n"

section \<open>IPv4\<close>

definition same_under :: "bytes \<Rightarrow> bytes \<Rightarrow> bytes \<Rightarrow> nat \<Rightarrow> bool" where
  "same_under m a b k \<longleftrightarrow> a ! k AND m ! k = b ! k AND m ! k"

definition ipv4_is_broadcast :: "bytes \<Rightarrow> 'z net_scheme \<Rightarrow> bool" where
  "ipv4_is_broadcast a n =
     (let c = active_configuration n
      in if a ! 0 = 255 \<and> a ! 1 = 255 \<and> a ! 2 = 255 \<and> a ! 3 = 255 then True
         else if \<not> address_is_zero (ip_netmask c)
         then list_all (\<lambda>k. same_under (ip_netmask c) a (ip_address c) k \<and> a ! k OR ip_netmask c ! k = 255) [0, 1, 2, 3]
         else False)"

definition ipv4_is_configured :: "'z net_scheme \<Rightarrow> bool" where
  "ipv4_is_configured n \<longleftrightarrow> active_interface n \<noteq> None \<and> \<not> address_is_zero (ip_address (active_configuration n))"

text \<open>\<open>call h i source destination payload\<close> is the handler \<open>h\<close> of a transport protocol.\<close>

definition ipv4_receive ::
    "(ip_handler \<Rightarrow> nat \<Rightarrow> bytes \<Rightarrow> bytes \<Rightarrow> bytes \<Rightarrow> 'z net_scheme \<Rightarrow> 'z net_scheme) \<Rightarrow>
     nat \<Rightarrow> bytes \<Rightarrow> bytes \<Rightarrow> 'z net_scheme \<Rightarrow> 'z net_scheme" where
  "ipv4_receive call i source_mac packet n =
     (if length packet < IPV4_HEADER_SIZE \<or> drop_bit 4 (packet ! 0) \<noteq> 4 then n
      else
        (let header_length = unat (packet ! 0 AND 0x0F) * 4; total_length = unat (be16_at packet 2)
         in if header_length < IPV4_HEADER_SIZE \<or> length packet < header_length \<or> total_length < header_length
               \<or> length packet < total_length \<or> ipv4_checksum (take header_length packet) \<noteq> 0 then n
            else if be16_at packet 6 AND IPV4_FRAGMENT_MASK \<noteq> 0 then n
            else
              (let source = take 4 (drop 12 packet); destination = take 4 (drop 16 packet)
               in if \<not> ipv4_is_broadcast destination n
                     \<and> (\<not> ipv4_is_configured n
                        \<or> \<not> address_equal destination (ip_address (active_configuration n))) then n
                  else
                    (let n = (if \<not> address_is_zero source then arp_learn_ipv4 source source_mac n else n)
                     in case map_of (ip_handlers n) (packet ! 9) of
                          None \<Rightarrow> n
                        | Some h \<Rightarrow> call h i source destination
                            (take (total_length - header_length) (drop header_length packet)) n))))"

definition zero_configuration :: ipv4_configuration where
  "zero_configuration = \<lparr>ip_address = replicate 4 0, ip_netmask = replicate 4 0, ip_gateway = replicate 4 0,
     ip_dns = replicate 4 0, lease_seconds = 0\<rparr>"

definition ipv4_init :: "'z net_scheme \<Rightarrow> 'z net_scheme" where
  "ipv4_init n =
     snd (ethernet_register_protocol ETHERNET_PROTOCOL_IPV4 Handle_IPv4
       (n\<lparr>active_configuration := zero_configuration, active_interface := None, ip_handlers := []\<rparr>))"

definition ipv4_register_protocol :: "u8 \<Rightarrow> ip_handler \<Rightarrow> 'z net_scheme \<Rightarrow> bool \<times> 'z net_scheme" where
  "ipv4_register_protocol protocol h n =
     (if IPV4_MAX_PROTOCOL_HANDLERS \<le> length (ip_handlers n) \<or> protocol \<in> fst ` set (ip_handlers n) then (False, n)
      else (True, n\<lparr>ip_handlers := ip_handlers n @ [(protocol, h)]\<rparr>))"

definition ipv4_configure :: "nat \<Rightarrow> ipv4_configuration \<Rightarrow> 'z net_scheme \<Rightarrow> bool \<times> 'z net_scheme" where
  "ipv4_configure i configuration n =
     (if Some i \<noteq> network_default_interface n then (False, n)
      else (True, n\<lparr>active_configuration := configuration, active_interface := Some i\<rparr>))"

text \<open>The next hop: the gateway, when there is one and the address lies outside the subnet.\<close>

definition next_hop :: "bytes \<Rightarrow> 'z net_scheme \<Rightarrow> bytes" where
  "next_hop a n =
     (let c = active_configuration n
      in if \<not> address_is_zero (ip_gateway c) \<and> \<not> list_all (same_under (ip_netmask c) a (ip_address c)) [0, 1, 2, 3]
         then take 4 (ip_gateway c) else take 4 a)"

text \<open>A wait of at most \<open>timeout\<close> milliseconds while \<open>b\<close> holds; \<open>None\<close> is a wait without end.\<close>

definition wait_while ::
    "('z net_scheme \<Rightarrow> 'z net_scheme) \<Rightarrow> ('z net_scheme \<Rightarrow> bool) \<Rightarrow> u32 \<Rightarrow> u32 \<Rightarrow> 'z net_scheme \<Rightarrow> 'z net_scheme option" where
  "wait_while poll b started timeout n = while_option (\<lambda>n. b n \<and> uptime n - started < timeout) poll n"

definition ipv4_resolve ::
    "('z net_scheme \<Rightarrow> 'z net_scheme) \<Rightarrow> bytes \<Rightarrow> u32 \<Rightarrow> 'z net_scheme \<Rightarrow> (bytes option \<times> 'z net_scheme) option" where
  "ipv4_resolve poll a timeout n =
     (case network_default_interface n of
        None \<Rightarrow> Some (None, n)
      | Some i \<Rightarrow>
          if \<not> ipv4_is_configured n then Some (None, n)
          else
            (let hop = next_hop a n
             in case arp_lookup_ipv4 hop n of
                  Some mac \<Rightarrow> Some (Some mac, n)
                | None \<Rightarrow>
                    (let (ok, n) = arp_request_ipv4 i (ip_address (active_configuration n)) hop n
                     in if \<not> ok then Some (None, n)
                        else map_option (\<lambda>n. (arp_lookup_ipv4 hop n, n))
                               (wait_while poll (\<lambda>n. arp_lookup_ipv4 hop n = None) (uptime n) timeout n))))"

definition ipv4_header :: "nat \<Rightarrow> u16 \<Rightarrow> u8 \<Rightarrow> nat \<Rightarrow> bytes \<Rightarrow> bytes \<Rightarrow> bytes" where
  "ipv4_header total_length identifier protocol checksum source destination =
     [0x45, 0] @ be_of_u16 (of_nat total_length) @ be_of_u16 identifier @ be_of_u16 IPV4_FLAG_DONT_FRAGMENT
     @ [64, protocol] @ be_of_u16 (of_nat checksum) @ take 4 source @ take 4 destination"

definition ipv4_packet :: "u16 \<Rightarrow> bytes \<Rightarrow> bytes \<Rightarrow> u8 \<Rightarrow> bytes \<Rightarrow> bytes" where
  "ipv4_packet identifier source destination protocol payload =
     (let total_length = IPV4_HEADER_SIZE + length payload;
          checksum = ipv4_checksum (ipv4_header total_length identifier protocol 0 source destination)
      in ipv4_header total_length identifier protocol checksum source destination @ payload)"

definition ipv4_send_from ::
    "nat \<Rightarrow> bytes \<Rightarrow> bytes \<Rightarrow> u8 \<Rightarrow> bytes \<Rightarrow> 'z net_scheme \<Rightarrow> bool \<times> 'z net_scheme" where
  "ipv4_send_from i source destination protocol payload n =
     (let total_length = IPV4_HEADER_SIZE + length payload;
          own = (Some i = active_interface n \<and> ipv4_is_configured n);
          hop = (if own then next_hop destination n else take 4 destination)
      in if mtu (interfaces n ! i) < total_length \<or> NETWORK_MAX_FRAME_SIZE < total_length then (False, n)
         else
           (case (if ipv4_is_broadcast destination n then Some ETHERNET_BROADCAST_ADDRESS
                  else arp_lookup_ipv4 hop n) of
              None \<Rightarrow>
                (False, if own then snd (arp_request_ipv4 i (ip_address (active_configuration n)) hop n) else n)
            | Some mac \<Rightarrow>
                ethernet_send i mac ETHERNET_PROTOCOL_IPV4
                  (ipv4_packet (ucast (uptime n)) source destination protocol payload) n))"

definition ipv4_send :: "nat \<Rightarrow> bytes \<Rightarrow> u8 \<Rightarrow> bytes \<Rightarrow> 'z net_scheme \<Rightarrow> bool \<times> 'z net_scheme" where
  "ipv4_send i destination protocol payload n =
     (if Some i \<noteq> active_interface n \<or> \<not> ipv4_is_configured n then (False, n)
      else ipv4_send_from i (ip_address (active_configuration n)) destination protocol payload n)"

section \<open>Receiving frames\<close>

definition ethernet_receive ::
    "(ip_handler \<Rightarrow> nat \<Rightarrow> bytes \<Rightarrow> bytes \<Rightarrow> bytes \<Rightarrow> 'z net_scheme \<Rightarrow> 'z net_scheme) \<Rightarrow>
     nat \<Rightarrow> bytes \<Rightarrow> 'z net_scheme \<Rightarrow> 'z net_scheme" where
  "ethernet_receive call i frame n =
     (if length frame < ETHERNET_HEADER_SIZE then n
      else
        (case map_of (eth_handlers n) (be16_at frame 12) of
           None \<Rightarrow> n
         | Some Handle_ARP \<Rightarrow> arp_receive i (take 6 (drop 6 frame)) (drop 14 frame) n
         | Some Handle_IPv4 \<Rightarrow> ipv4_receive call i (take 6 (drop 6 frame)) (drop 14 frame) n))"

definition network_submit_received_frame ::
    "(ip_handler \<Rightarrow> nat \<Rightarrow> bytes \<Rightarrow> bytes \<Rightarrow> bytes \<Rightarrow> 'z net_scheme \<Rightarrow> 'z net_scheme) \<Rightarrow>
     nat \<Rightarrow> bytes \<Rightarrow> 'z net_scheme \<Rightarrow> bool \<times> 'z net_scheme" where
  "network_submit_received_frame call i frame n =
     (if length (interfaces n) \<le> i then (False, n)
      else if length frame < NETWORK_MIN_FRAME_SIZE \<or> NETWORK_MAX_FRAME_SIZE < length frame
      then (False, count_stat receive_errors_update i n)
      else
        (let n = (if NETWORK_RX_QUEUE_SIZE \<le> receive_count n
                  then count_stat dropped_frames_update i
                    (n\<lparr>receive_tail := (receive_tail n + 1) mod NETWORK_RX_QUEUE_SIZE,
                       receive_count := receive_count n - 1\<rparr>)
                  else n);
             n = count_stat received_frames_update i
                   (n\<lparr>receive_queue := (receive_queue n)[receive_head n := (i, frame)],
                      receive_head := (receive_head n + 1) mod NETWORK_RX_QUEUE_SIZE,
                      receive_count := receive_count n + 1\<rparr>)
         in (True, ethernet_receive call i frame n)))"

definition network_receive_frame :: "nat \<Rightarrow> 'z net_scheme \<Rightarrow> (int + bytes) \<times> 'z net_scheme" where
  "network_receive_frame capacity n =
     (if receive_count n = 0 then (Inl (- 1), n)
      else
        (let (_, frame) = receive_queue n ! receive_tail n
         in if capacity < length frame then (Inl (- 2), n)
            else (Inr frame, n\<lparr>receive_tail := (receive_tail n + 1) mod NETWORK_RX_QUEUE_SIZE,
                               receive_count := receive_count n - 1\<rparr>)))"

end
