(* ===== verification/Udp.thy ===== *)
theory Udp
  imports Net
begin

text \<open>
  \<open>net/udp.c\<close> and \<open>net/icmp.c\<close>. A port's handler is a constructor; what it does is the argument \<open>call\<close> of
  \<open>udp_receive\<close>.
\<close>

section \<open>UDP\<close>

definition UDP_PROTOCOL_NUMBER :: u8 where "UDP_PROTOCOL_NUMBER = 17"
definition UDP_HEADER_SIZE :: nat where "UDP_HEADER_SIZE = 8"
definition UDP_MAX_HANDLERS :: nat where "UDP_MAX_HANDLERS = 8"
definition IPV4_MAX_PAYLOAD :: nat where "IPV4_MAX_PAYLOAD = 1484"

datatype udp_handler = Handle_DHCP | Handle_DNS

record udp_net = net +
  udp_handlers :: "(u16 \<times> udp_handler) list"

definition udp_receive ::
    "(udp_handler \<Rightarrow> nat \<Rightarrow> bytes \<Rightarrow> bytes \<Rightarrow> u16 \<Rightarrow> u16 \<Rightarrow> bytes \<Rightarrow> 'z udp_net_scheme \<Rightarrow> 'z udp_net_scheme) \<Rightarrow>
     nat \<Rightarrow> bytes \<Rightarrow> bytes \<Rightarrow> bytes \<Rightarrow> 'z udp_net_scheme \<Rightarrow> 'z udp_net_scheme" where
  "udp_receive call i source destination packet n =
     (if length packet < UDP_HEADER_SIZE then n
      else
        (let len = unat (be16_at packet 4); checksum = be16_at packet 6
         in if len < UDP_HEADER_SIZE \<or> length packet < len then n
            else if checksum \<noteq> 0
                    \<and> ipv4_transport_checksum source destination UDP_PROTOCOL_NUMBER (take len packet) \<noteq> 0 then n
            else
              (let destination_port = be16_at packet 2
               in case map_of (udp_handlers n) destination_port of
                    None \<Rightarrow> n
                  | Some h \<Rightarrow> call h i source destination (be16_at packet 0) destination_port
                      (take (len - UDP_HEADER_SIZE) (drop UDP_HEADER_SIZE packet)) n)))"

definition udp_init :: "'z udp_net_scheme \<Rightarrow> 'z udp_net_scheme" where
  "udp_init n = snd (ipv4_register_protocol UDP_PROTOCOL_NUMBER Handle_UDP (n\<lparr>udp_handlers := []\<rparr>))"

definition udp_register_port :: "u16 \<Rightarrow> udp_handler \<Rightarrow> 'z udp_net_scheme \<Rightarrow> bool \<times> 'z udp_net_scheme" where
  "udp_register_port port h n =
     (if port = 0 \<or> UDP_MAX_HANDLERS \<le> length (udp_handlers n) \<or> port \<in> fst ` set (udp_handlers n) then (False, n)
      else (True, n\<lparr>udp_handlers := udp_handlers n @ [(port, h)]\<rparr>))"

definition udp_header :: "u16 \<Rightarrow> u16 \<Rightarrow> nat \<Rightarrow> bytes" where
  "udp_header source_port destination_port len =
     be_of_u16 source_port @ be_of_u16 destination_port @ be_of_u16 (of_nat len)"

definition udp_packet :: "bytes \<Rightarrow> bytes \<Rightarrow> u16 \<Rightarrow> u16 \<Rightarrow> bytes \<Rightarrow> bytes" where
  "udp_packet source destination source_port destination_port payload =
     (let h = udp_header source_port destination_port (UDP_HEADER_SIZE + length payload);
          checksum = ipv4_transport_checksum source destination UDP_PROTOCOL_NUMBER (h @ be_of_u16 0 @ payload)
      in h @ be_of_u16 (of_nat (if checksum = 0 then 0xFFFF else checksum)) @ payload)"

definition udp_send ::
    "nat \<Rightarrow> bytes \<Rightarrow> bytes \<Rightarrow> u16 \<Rightarrow> u16 \<Rightarrow> bytes \<Rightarrow> 'z udp_net_scheme \<Rightarrow> bool \<times> 'z udp_net_scheme" where
  "udp_send i source destination source_port destination_port payload n =
     (if source_port = 0 \<or> destination_port = 0 \<or> IPV4_MAX_PAYLOAD < add16 UDP_HEADER_SIZE (length payload)
      then (False, n)
      else ipv4_send_from i source destination UDP_PROTOCOL_NUMBER
             (udp_packet source destination source_port destination_port payload) n)"

section \<open>ICMP echo\<close>

definition ICMP_ECHO_REPLY :: u8 where "ICMP_ECHO_REPLY = 0"
definition ICMP_ECHO_REQUEST :: u8 where "ICMP_ECHO_REQUEST = 8"
definition ICMP_HEADER_SIZE :: nat where "ICMP_HEADER_SIZE = 8"

record icmp_net = udp_net +
  next_identifier :: u16
  next_sequence :: u16
  pending_identifier :: u16
  pending_sequence :: u16
  pending_destination :: bytes
  pending :: bool
  reply_received :: bool

text \<open>A message with its checksum at offset 2; the last argument is what follows it.\<close>

definition icmp_message :: "u8 \<Rightarrow> u8 \<Rightarrow> bytes \<Rightarrow> bytes" where
  "icmp_message message code rest =
     [message, code] @ be_of_u16 (of_nat (ipv4_checksum ([message, code] @ be_of_u16 0 @ rest))) @ rest"

definition icmp_receive :: "nat \<Rightarrow> bytes \<Rightarrow> bytes \<Rightarrow> bytes \<Rightarrow> 'z icmp_net_scheme \<Rightarrow> 'z icmp_net_scheme" where
  "icmp_receive i source destination packet n =
     (if length packet < ICMP_HEADER_SIZE \<or> ipv4_checksum packet \<noteq> 0 then n
      else if packet ! 0 = ICMP_ECHO_REPLY \<and> pending n \<and> be16_at packet 4 = pending_identifier n
         \<and> be16_at packet 6 = pending_sequence n \<and> address_equal source (pending_destination n)
      then n\<lparr>reply_received := True\<rparr>
      else if packet ! 0 \<noteq> ICMP_ECHO_REQUEST \<or> packet ! 1 \<noteq> 0 \<or> IPV4_MAX_PAYLOAD < length packet then n
      else snd (ipv4_send i source IPV4_PROTOCOL_ICMP (icmp_message ICMP_ECHO_REPLY (packet ! 1) (drop 4 packet)) n))"

definition icmp_init :: "'z icmp_net_scheme \<Rightarrow> 'z icmp_net_scheme" where
  "icmp_init n =
     snd (ipv4_register_protocol IPV4_PROTOCOL_ICMP Handle_ICMP (n\<lparr>pending := False, reply_received := False\<rparr>))"

definition icmp_payload :: bytes where
  "icmp_payload = [0x50, 0x72, 0x69, 0x73, 0x6D, 0x4F, 0x53, 0x21]"

definition icmp_ping ::
    "('z icmp_net_scheme \<Rightarrow> 'z icmp_net_scheme) \<Rightarrow> bytes \<Rightarrow> u32 \<Rightarrow> 'z icmp_net_scheme \<Rightarrow>
     ((int + u32) \<times> 'z icmp_net_scheme) option" where
  "icmp_ping poll destination timeout n =
     (case network_default_interface n of
        None \<Rightarrow> Some (Inl (- 1), n)
      | Some i \<Rightarrow>
          if \<not> link_up (interfaces n ! i) \<or> \<not> ipv4_is_configured n \<or> pending n then Some (Inl (- 1), n)
          else
            (case ipv4_resolve poll destination timeout n of
               None \<Rightarrow> None
             | Some (None, n) \<Rightarrow> Some (Inl (- 2), n)
             | Some (Some mac, n) \<Rightarrow>
                 (let n = n\<lparr>pending_identifier := next_identifier n, next_identifier := next_identifier n + 1,
                            pending_sequence := next_sequence n, next_sequence := next_sequence n + 1\<rparr>;
                      packet = icmp_message ICMP_ECHO_REQUEST 0
                        (be_of_u16 (pending_identifier n) @ be_of_u16 (pending_sequence n) @ icmp_payload);
                      n = n\<lparr>pending_destination := take 4 destination, pending := True, reply_received := False\<rparr>;
                      started = uptime n;
                      (ok, n) = ipv4_send i destination IPV4_PROTOCOL_ICMP packet n
                  in if \<not> ok then Some (Inl (- 3), n\<lparr>pending := False\<rparr>)
                     else map_option (\<lambda>n. (if reply_received n then Inr (uptime n - started) else Inl (- 4),
                                           n\<lparr>pending := False\<rparr>))
                            (wait_while poll (\<lambda>n. \<not> reply_received n) started timeout n))))"

end
