(* ===== verification/Tcp.thy ===== *)
theory Tcp
  imports Udp
begin

text \<open>
  \<open>net/tcp.c\<close>: one connection, with one segment in flight. The receive buffer of the model holds the bytes in use.
  When no configuration is active \<open>tcp_build_segment\<close> sums over an uninitialised address; the model takes zeros
  there, and \<open>ipv4_send\<close> refuses the packet.
\<close>

section \<open>State\<close>

definition TCP_HEADER_SIZE :: nat where "TCP_HEADER_SIZE = 20"
definition TCP_MAX_PAYLOAD :: nat where "TCP_MAX_PAYLOAD = 512"
definition TCP_PORT_EPHEMERAL_BASE :: u16 where "TCP_PORT_EPHEMERAL_BASE = 49152"
definition TCP_RETRANSMIT_MS :: u32 where "TCP_RETRANSMIT_MS = 500"
definition TCP_MAX_RETRIES :: nat where "TCP_MAX_RETRIES = 4"
definition TCP_FLAG_FIN :: u8 where "TCP_FLAG_FIN = 0x01"
definition TCP_FLAG_SYN :: u8 where "TCP_FLAG_SYN = 0x02"
definition TCP_FLAG_RST :: u8 where "TCP_FLAG_RST = 0x04"
definition TCP_FLAG_PSH :: u8 where "TCP_FLAG_PSH = 0x08"
definition TCP_FLAG_ACK :: u8 where "TCP_FLAG_ACK = 0x10"
definition TCP_OUTSTANDING_CAPACITY :: nat where "TCP_OUTSTANDING_CAPACITY = TCP_HEADER_SIZE + TCP_MAX_PAYLOAD"

lemmas tcp_flags = TCP_FLAG_FIN_def TCP_FLAG_SYN_def TCP_FLAG_RST_def TCP_FLAG_PSH_def TCP_FLAG_ACK_def

datatype tcp_state = CLOSED | SYN_SENT | ESTABLISHED | FIN_WAIT | CLOSE_WAIT | TIME_WAIT | RESET

record tcp_connection =
  tcp_state :: tcp_state
  peer_address :: bytes
  local_port :: u16
  peer_port :: u16
  send_unacknowledged :: u32
  send_next :: u32
  receive_next :: u32
  last_transmit_ms :: u32
  retries :: nat
  outstanding :: bool
  outstanding_length :: nat
  outstanding_packet :: bytes
  receive_buffer :: bytes

record tcp_net = icmp_net +
  connection :: tcp_connection
  next_ephemeral_port :: u16

definition on_connection :: "(tcp_connection \<Rightarrow> tcp_connection) \<Rightarrow> 'z tcp_net_scheme \<Rightarrow> 'z tcp_net_scheme" where
  "on_connection f n = n\<lparr>connection := f (connection n)\<rparr>"

section \<open>Sending\<close>

definition tcp_header :: "tcp_connection \<Rightarrow> u8 \<Rightarrow> u32 \<Rightarrow> u32 \<Rightarrow> bytes" where
  "tcp_header c flags sequence acknowledgement =
     be_of_u16 (local_port c) @ be_of_u16 (peer_port c) @ be_of_u32 sequence @ be_of_u32 acknowledgement
     @ [0x50, flags] @ be_of_u16 (of_nat TCP_MAX_PAYLOAD - of_nat (length (receive_buffer c)))"

definition tcp_build_segment :: "u8 \<Rightarrow> bytes \<Rightarrow> u32 \<Rightarrow> u32 \<Rightarrow> 'z tcp_net_scheme \<Rightarrow> bytes" where
  "tcp_build_segment flags payload sequence acknowledgement n =
     (let c = connection n;
          own = (case ipv4_get_configuration n of Some k \<Rightarrow> ip_address k | None \<Rightarrow> replicate 4 0);
          h = tcp_header c flags sequence acknowledgement;
          checksum = ipv4_transport_checksum own (peer_address c) IPV4_PROTOCOL_TCP (h @ be_of_u16 0 @ [0, 0] @ payload)
      in h @ be_of_u16 (of_nat checksum) @ [0, 0] @ payload)"

definition tcp_transmit_packet :: "bytes \<Rightarrow> 'z tcp_net_scheme \<Rightarrow> bool \<times> 'z tcp_net_scheme" where
  "tcp_transmit_packet packet n =
     (case network_default_interface n of
        None \<Rightarrow> (False, n)
      | Some i \<Rightarrow> ipv4_send i (peer_address (connection n)) IPV4_PROTOCOL_TCP packet n)"

text \<open>A segment built in the buffer for the outstanding one.\<close>

definition put_outstanding :: "bytes \<Rightarrow> tcp_connection \<Rightarrow> tcp_connection" where
  "put_outstanding packet c = c\<lparr>outstanding_packet := packet @ drop (length packet) (outstanding_packet c)\<rparr>"

definition track :: "nat \<Rightarrow> u32 \<Rightarrow> u32 \<Rightarrow> tcp_connection \<Rightarrow> tcp_connection" where
  "track len now advance c =
     c\<lparr>outstanding_length := len, outstanding := True, last_transmit_ms := now, retries := 0,
       send_next := send_next c + advance\<rparr>"

definition tcp_send_control :: "u8 \<Rightarrow> bool \<Rightarrow> 'z tcp_net_scheme \<Rightarrow> bool \<times> 'z tcp_net_scheme" where
  "tcp_send_control flags tracked n =
     (let c = connection n; packet = tcp_build_segment flags [] (send_next c) (receive_next c) n;
          (ok, n) = tcp_transmit_packet packet (on_connection (put_outstanding packet) n)
      in if \<not> ok then (False, n)
         else if tracked
         then (True, on_connection (track (length packet) (uptime n)
                ((if flags AND TCP_FLAG_SYN \<noteq> 0 then 1 else 0) + (if flags AND TCP_FLAG_FIN \<noteq> 0 then 1 else 0))) n)
         else (True, n))"

definition tcp_send_ack :: "'z tcp_net_scheme \<Rightarrow> 'z tcp_net_scheme" where
  "tcp_send_ack n =
     (let c = connection n
      in snd (tcp_transmit_packet (tcp_build_segment TCP_FLAG_ACK [] (send_next c) (receive_next c) n) n))"

section \<open>Receiving\<close>

text \<open>A segment that has passed the checks, cut into its fields.\<close>

record tcp_segment =
  seg_sequence :: u32
  seg_acknowledgement :: u32
  seg_flags :: u8
  seg_data :: bytes

definition tcp_parse :: "tcp_connection \<Rightarrow> bytes \<Rightarrow> bytes \<Rightarrow> bytes \<Rightarrow> tcp_segment option" where
  "tcp_parse c source destination packet =
     (if length packet < TCP_HEADER_SIZE
         \<or> ipv4_transport_checksum source destination IPV4_PROTOCOL_TCP packet \<noteq> 0 then None
      else if tcp_state c = CLOSED \<or> be16_at packet 2 \<noteq> local_port c \<or> be16_at packet 0 \<noteq> peer_port c
         \<or> \<not> address_equal source (peer_address c) then None
      else
        (let header_length = unat (drop_bit 4 (packet ! 12)) * 4
         in if header_length < TCP_HEADER_SIZE \<or> length packet < header_length then None
            else Some \<lparr>seg_sequence = be32_at packet 4, seg_acknowledgement = be32_at packet 8,
                       seg_flags = packet ! 13, seg_data = drop header_length packet\<rparr>))"

definition tcp_acknowledge :: "tcp_segment \<Rightarrow> tcp_connection \<Rightarrow> tcp_connection" where
  "tcp_acknowledge g c =
     (let a = seg_acknowledgement g
      in if seg_flags g AND TCP_FLAG_ACK \<noteq> 0 \<and> 0 \<le> sint (a - send_unacknowledged c) \<and> 0 \<le> sint (send_next c - a)
         then c\<lparr>send_unacknowledged := a, outstanding := (outstanding c \<and> a \<noteq> send_next c)\<rparr>
         else c)"

definition tcp_accept :: "tcp_segment \<Rightarrow> tcp_connection \<Rightarrow> tcp_connection" where
  "tcp_accept g c =
     (let free_space = TCP_MAX_PAYLOAD - length (receive_buffer c); accepted = take free_space (seg_data g)
      in c\<lparr>receive_buffer := receive_buffer c @ accepted, receive_next := receive_next c + of_nat (length accepted)\<rparr>)"

definition tcp_finish :: "tcp_connection \<Rightarrow> tcp_connection" where
  "tcp_finish c = c\<lparr>receive_next := receive_next c + 1,
     tcp_state := (if tcp_state c = FIN_WAIT then TIME_WAIT else CLOSE_WAIT)\<rparr>"

definition tcp_segment_arrives :: "tcp_segment \<Rightarrow> 'z tcp_net_scheme \<Rightarrow> 'z tcp_net_scheme" where
  "tcp_segment_arrives g n =
     (let c = connection n; flags = seg_flags g;
          syn_ack = (flags AND (TCP_FLAG_SYN OR TCP_FLAG_ACK) = (TCP_FLAG_SYN OR TCP_FLAG_ACK))
      in if flags AND TCP_FLAG_RST \<noteq> 0
         then on_connection (\<lambda>c. c\<lparr>tcp_state := RESET, outstanding := False\<rparr>) n
         else if tcp_state c = SYN_SENT \<and> syn_ack \<and> seg_acknowledgement g = send_next c
         then tcp_send_ack (on_connection (\<lambda>c. c\<lparr>receive_next := seg_sequence g + 1,
                send_unacknowledged := seg_acknowledgement g, outstanding := False, tcp_state := ESTABLISHED\<rparr>) n)
         else if tcp_state c = SYN_SENT \<and> syn_ack then n
         else
           (let n = on_connection (tcp_acknowledge g) n
            in if seg_sequence g \<noteq> receive_next (connection n)
               then (if seg_data g \<noteq> [] \<or> flags AND TCP_FLAG_FIN \<noteq> 0 then tcp_send_ack n else n)
               else
                 (let n = (if seg_data g \<noteq> [] then tcp_send_ack (on_connection (tcp_accept g) n) else n)
                  in if flags AND TCP_FLAG_FIN \<noteq> 0 then tcp_send_ack (on_connection tcp_finish n) else n)))"

definition tcp_receive :: "nat \<Rightarrow> bytes \<Rightarrow> bytes \<Rightarrow> bytes \<Rightarrow> 'z tcp_net_scheme \<Rightarrow> 'z tcp_net_scheme" where
  "tcp_receive i source destination packet n =
     (case tcp_parse (connection n) source destination packet of
        None \<Rightarrow> n | Some g \<Rightarrow> tcp_segment_arrives g n)"

section \<open>Timer and calls\<close>

definition tcp_init :: "'z tcp_net_scheme \<Rightarrow> 'z tcp_net_scheme" where
  "tcp_init n =
     snd (ipv4_register_protocol IPV4_PROTOCOL_TCP Handle_TCP
       ((on_connection (\<lambda>c. c\<lparr>tcp_state := CLOSED, outstanding := False, receive_buffer := []\<rparr>) n)
          \<lparr>next_ephemeral_port := TCP_PORT_EPHEMERAL_BASE\<rparr>))"

definition tcp_poll :: "'z tcp_net_scheme \<Rightarrow> 'z tcp_net_scheme" where
  "tcp_poll n =
     (let c = connection n
      in if \<not> outstanding c \<or> uptime n - last_transmit_ms c < TCP_RETRANSMIT_MS then n
         else if TCP_MAX_RETRIES \<le> retries c
         then on_connection (\<lambda>c. c\<lparr>outstanding := False, tcp_state := RESET\<rparr>) n
         else
           (let (ok, n) = tcp_transmit_packet (take (outstanding_length c) (outstanding_packet c)) n
            in if ok then on_connection (\<lambda>c. c\<lparr>retries := retries c + 1, last_transmit_ms := uptime n\<rparr>) n else n))"

definition tcp_get_state :: "'z tcp_net_scheme \<Rightarrow> tcp_state" where
  "tcp_get_state n = tcp_state (connection n)"

text \<open>The connection record and the port counter of a new attempt.\<close>

definition tcp_open :: "bytes \<Rightarrow> u16 \<Rightarrow> 'z tcp_net_scheme \<Rightarrow> 'z tcp_net_scheme" where
  "tcp_open address port n =
     (let isn = push_bit 12 (uptime n) XOR 0x50524953; p = next_ephemeral_port n + 1
      in (on_connection (\<lambda>c. c\<lparr>tcp_state := SYN_SENT, peer_address := take 4 address, peer_port := port,
            local_port := next_ephemeral_port n, send_unacknowledged := isn, send_next := isn, receive_next := 0,
            receive_buffer := []\<rparr>) n)
          \<lparr>next_ephemeral_port := (if p < TCP_PORT_EPHEMERAL_BASE then TCP_PORT_EPHEMERAL_BASE else p)\<rparr>)"

definition tcp_connect ::
    "('z tcp_net_scheme \<Rightarrow> 'z tcp_net_scheme) \<Rightarrow> bytes \<Rightarrow> u16 \<Rightarrow> u32 \<Rightarrow> 'z tcp_net_scheme \<Rightarrow>
     (int \<times> 'z tcp_net_scheme) option" where
  "tcp_connect poll address port timeout n =
     (case network_default_interface n of
        None \<Rightarrow> Some (- 1, n)
      | Some i \<Rightarrow>
          if port = 0 \<or> \<not> link_up (interfaces n ! i)
             \<or> tcp_state (connection n) \<noteq> CLOSED \<and> tcp_state (connection n) \<noteq> RESET then Some (- 1, n)
          else
            (case ipv4_resolve poll address timeout n of
               None \<Rightarrow> None
             | Some (None, n) \<Rightarrow> Some (- 2, n)
             | Some (Some mac, n) \<Rightarrow>
                 (let (ok, n) = tcp_send_control TCP_FLAG_SYN True (tcp_open address port n)
                  in if \<not> ok then Some (- 3, on_connection (\<lambda>c. c\<lparr>tcp_state := CLOSED\<rparr>) n)
                     else map_option (\<lambda>n.
                            if tcp_state (connection n) = ESTABLISHED then (0, n)
                            else
                              (let n = on_connection (\<lambda>c. c\<lparr>outstanding := False\<rparr>) n
                               in if tcp_state (connection n) = SYN_SENT
                                  then (- 4, on_connection (\<lambda>c. c\<lparr>tcp_state := CLOSED\<rparr>) n) else (- 5, n)))
                          (wait_while poll (\<lambda>n. tcp_state (connection n) = SYN_SENT) (uptime n) timeout n))))"

definition tcp_send_start :: "bytes \<Rightarrow> 'z tcp_net_scheme \<Rightarrow> bool \<times> 'z tcp_net_scheme" where
  "tcp_send_start buf n =
     (let c = connection n;
          packet = tcp_build_segment (TCP_FLAG_ACK OR TCP_FLAG_PSH) buf (send_next c) (receive_next c) n;
          (ok, n) = tcp_transmit_packet packet (on_connection (put_outstanding packet) n)
      in if ok then (True, on_connection (track (length packet) (uptime n) (of_nat (length buf))) n) else (False, n))"

definition tcp_send ::
    "('z tcp_net_scheme \<Rightarrow> 'z tcp_net_scheme) \<Rightarrow> bytes \<Rightarrow> u32 \<Rightarrow> 'z tcp_net_scheme \<Rightarrow>
     (int \<times> 'z tcp_net_scheme) option" where
  "tcp_send poll buf timeout n =
     (if tcp_state (connection n) \<noteq> ESTABLISHED \<or> buf = [] \<or> TCP_MAX_PAYLOAD < length buf
         \<or> outstanding (connection n) then Some (- 1, n)
      else
        (let (ok, n) = tcp_send_start buf n
         in if \<not> ok then Some (- 2, n)
            else map_option (\<lambda>n. (if outstanding (connection n) then - 3 else 0, n))
                   (wait_while poll (\<lambda>n. outstanding (connection n) \<and> tcp_state (connection n) = ESTABLISHED)
                      (uptime n) timeout n)))"

definition tcp_read :: "nat \<Rightarrow> 'z tcp_net_scheme \<Rightarrow> bytes option \<times> 'z tcp_net_scheme" where
  "tcp_read capacity n =
     (let b = receive_buffer (connection n)
      in if capacity = 0 \<or> b = [] then (None, n)
         else
           (let len = min capacity (length b);
                n = on_connection (\<lambda>c. c\<lparr>receive_buffer := drop len b\<rparr>) n
            in (Some (take len b),
                if tcp_state (connection n) = ESTABLISHED \<or> tcp_state (connection n) = CLOSE_WAIT
                then tcp_send_ack n else n)))"

definition tcp_over :: "tcp_state \<Rightarrow> bool" where
  "tcp_over s \<longleftrightarrow> s = CLOSE_WAIT \<or> s = RESET \<or> s = TIME_WAIT \<or> s = CLOSED"

definition tcp_read_wait ::
    "('z tcp_net_scheme \<Rightarrow> 'z tcp_net_scheme) \<Rightarrow> nat \<Rightarrow> u32 \<Rightarrow> 'z tcp_net_scheme \<Rightarrow>
     ((int + bytes) \<times> 'z tcp_net_scheme) option" where
  "tcp_read_wait poll capacity timeout n =
     (if capacity = 0 then Some (Inl (- 1), n)
      else map_option (\<lambda>n.
             if receive_buffer (connection n) = []
             then (Inl (if tcp_over (tcp_state (connection n)) then - 2 else - 3), n)
             else (case tcp_read capacity n of (Some b, n) \<Rightarrow> (Inr b, n) | (None, n) \<Rightarrow> (Inl (- 1), n)))
           (wait_while poll (\<lambda>n. receive_buffer (connection n) = [] \<and> \<not> tcp_over (tcp_state (connection n)))
              (uptime n) timeout n))"

definition tcp_close_start :: "'z tcp_net_scheme \<Rightarrow> bool \<times> 'z tcp_net_scheme" where
  "tcp_close_start n =
     (let (ok, n) = tcp_send_control (TCP_FLAG_FIN OR TCP_FLAG_ACK) True
            (on_connection (\<lambda>c. c\<lparr>tcp_state := FIN_WAIT\<rparr>) n)
      in (ok, if ok then n else on_connection (\<lambda>c. c\<lparr>tcp_state := RESET\<rparr>) n))"

definition tcp_close_end :: "'z tcp_net_scheme \<Rightarrow> 'z tcp_net_scheme" where
  "tcp_close_end n =
     on_connection (\<lambda>c. c\<lparr>tcp_state := (if tcp_state c \<noteq> RESET then CLOSED else RESET), outstanding := False\<rparr>) n"

definition tcp_close ::
    "('z tcp_net_scheme \<Rightarrow> 'z tcp_net_scheme) \<Rightarrow> u32 \<Rightarrow> 'z tcp_net_scheme \<Rightarrow> (int \<times> 'z tcp_net_scheme) option" where
  "tcp_close poll timeout n =
     (if tcp_state (connection n) \<noteq> CLOSE_WAIT \<and> tcp_state (connection n) \<noteq> ESTABLISHED then Some (- 1, n)
      else
        (let (ok, n) = tcp_close_start n
         in if \<not> ok then Some (- 2, n)
            else map_option (\<lambda>n. (0, tcp_close_end n))
                   (wait_while poll (\<lambda>n. outstanding (connection n) \<and> tcp_state (connection n) \<noteq> RESET)
                      (uptime n) timeout n)))"

end
