(* ===== verification/Dns.thy ===== *)
theory Dns
  imports Tcp
begin

text \<open>\<open>net/dns.c\<close>: the resolver and its cache. A host name is a C string without its terminator.\<close>

section \<open>State\<close>

definition DNS_CLIENT_PORT :: u16 where "DNS_CLIENT_PORT = 53053"
definition DNS_SERVER_PORT :: u16 where "DNS_SERVER_PORT = 53"
definition DNS_HEADER_SIZE :: nat where "DNS_HEADER_SIZE = 12"
definition DNS_PACKET_CAPACITY :: nat where "DNS_PACKET_CAPACITY = 512"
definition DNS_MAX_NAME_SIZE :: nat where "DNS_MAX_NAME_SIZE = 254"
definition DNS_CACHE_ENTRIES :: nat where "DNS_CACHE_ENTRIES = 4"
definition DNS_TYPE_A :: u16 where "DNS_TYPE_A = 1"
definition DNS_CLASS_IN :: u16 where "DNS_CLASS_IN = 1"
definition DNS_FLAG_RESPONSE :: u16 where "DNS_FLAG_RESPONSE = 0x8000"
definition DNS_RECURSION_DESIRED :: u16 where "DNS_RECURSION_DESIRED = 0x0100"
definition DNS_MAX_TTL_SECONDS :: u32 where "DNS_MAX_TTL_SECONDS = 86400"

record dns_cache_entry =
  dc_hostname :: bytes
  dc_address :: bytes
  dc_expires_ms :: u32
  dc_valid :: bool

record dns_net = tcp_net +
  dns_next_identifier :: u16
  active_identifier :: u16
  active_server :: bytes
  active_answer :: bytes
  active_encoded_name :: bytes
  active_hostname :: bytes
  active_result :: int
  resolution_active :: bool
  dns_cache :: "dns_cache_entry list"
  next_cache_entry :: nat

section \<open>Cache\<close>

definition dns_lower :: "u8 \<Rightarrow> u8" where
  "dns_lower c = (if 65 \<le> c \<and> c \<le> 90 then c - 65 + 97 else c)"

definition dns_hostname_equal :: "bytes \<Rightarrow> bytes \<Rightarrow> bool" where
  "dns_hostname_equal a b \<longleftrightarrow> map dns_lower a = map dns_lower b"

definition dns_cache_lookup :: "bytes \<Rightarrow> 'z dns_net_scheme \<Rightarrow> bytes option" where
  "dns_cache_lookup hostname n =
     map_option dc_address (find (\<lambda>e. dc_valid e \<and> sint (uptime n - dc_expires_ms e) < 0
       \<and> dns_hostname_equal hostname (dc_hostname e)) (take DNS_CACHE_ENTRIES (dns_cache n)))"

definition dns_cache_store :: "bytes \<Rightarrow> bytes \<Rightarrow> u32 \<Rightarrow> 'z dns_net_scheme \<Rightarrow> 'z dns_net_scheme" where
  "dns_cache_store hostname address ttl n =
     (let k = next_cache_entry n mod DNS_CACHE_ENTRIES;
          n = n\<lparr>next_cache_entry := add32 (next_cache_entry n) 1\<rparr>
      in if ttl = 0 then n
         else n\<lparr>dns_cache := (dns_cache n)[k := \<lparr>dc_hostname = take (DNS_MAX_NAME_SIZE - 1) hostname,
                  dc_address = take 4 address, dc_expires_ms = uptime n + min ttl DNS_MAX_TTL_SECONDS * 1000,
                  dc_valid = True\<rparr>]\<rparr>)"

section \<open>Names\<close>

definition digit :: "u8 \<Rightarrow> bool" where "digit c \<longleftrightarrow> 48 \<le> c \<and> c \<le> 57"

fun literal_number :: "nat \<Rightarrow> nat \<Rightarrow> bytes \<Rightarrow> (nat \<times> bytes) option" where
  "literal_number v digits [] = (if digits = 0 then None else Some (v, []))"
| "literal_number v digits (c # cs) =
     (if digit c
      then (let v = v * 10 + unat (c - 48) in if 255 < v then None else literal_number v (digits + 1) cs)
      else if digits = 0 then None else Some (v, c # cs))"

text \<open>The octets still to come after the first of them.\<close>

fun literal_octets :: "nat \<Rightarrow> bytes \<Rightarrow> bytes option" where
  "literal_octets 0 cursor =
     (case literal_number 0 0 cursor of Some (v, []) \<Rightarrow> Some [of_nat v] | _ \<Rightarrow> None)"
| "literal_octets (Suc k) cursor =
     (case literal_number 0 0 cursor of
        Some (v, c # rest) \<Rightarrow> if c = 46 then map_option ((#) (of_nat v)) (literal_octets k rest) else None
      | _ \<Rightarrow> None)"

definition dns_parse_ipv4_literal :: "bytes \<Rightarrow> bytes option" where
  "dns_parse_ipv4_literal hostname = literal_octets 3 hostname"

definition host_char :: "u8 \<Rightarrow> bool" where
  "host_char c \<longleftrightarrow> 97 \<le> c \<and> c \<le> 122 \<or> 65 \<le> c \<and> c \<le> 90 \<or> digit c \<or> c = 45"

lemma label_shorter: "dropWhile P label = c # rest \<Longrightarrow> length rest < length label"
  using length_dropWhile_le [of P label] by simp

function encode_labels :: "nat \<Rightarrow> bytes \<Rightarrow> bytes \<Rightarrow> bytes option" where
  "encode_labels capacity out label =
     (if label = [] then Some out
      else
        (let l = takeWhile (\<lambda>c. c \<noteq> 46) label
         in if \<not> list_all host_char l then None
            else if l = [] \<or> 63 < length l \<or> capacity \<le> length out + length l + 1 then None
            else
              (let out = out @ [of_nat (length l)] @ l
               in case dropWhile (\<lambda>c. c \<noteq> 46) label of
                    [] \<Rightarrow> Some out
                  | _ # rest \<Rightarrow> if rest = [] then Some out else encode_labels capacity out rest)))"
  by auto
termination
  by (relation "measure (\<lambda>(capacity, out, label). length label)") (auto dest: label_shorter)

declare encode_labels.simps [simp del]

definition dns_encode_name :: "bytes \<Rightarrow> nat \<Rightarrow> bytes option" where
  "dns_encode_name hostname capacity =
     (if hostname = [] then None
      else (case encode_labels capacity [] hostname of
              None \<Rightarrow> None
            | Some out \<Rightarrow>
                if capacity < length out + 1 \<or> DNS_MAX_NAME_SIZE < length out + 1 then None else Some (out @ [0])))"

text \<open>The offset behind a name in a packet, at most 254 labels on.\<close>

fun dns_skip_labels :: "nat \<Rightarrow> bytes \<Rightarrow> nat \<Rightarrow> nat option" where
  "dns_skip_labels 0 packet cursor = None"
| "dns_skip_labels (Suc left) packet cursor =
     (if length packet \<le> cursor then None
      else
        (let l = packet ! cursor; cursor = cursor + 1
         in if l = 0 then Some cursor
            else if l AND 0xC0 = 0xC0 then (if length packet \<le> cursor then None else Some (cursor + 1))
            else if l AND 0xC0 \<noteq> 0 \<or> length packet < cursor + unat l then None
            else dns_skip_labels left packet (cursor + unat l)))"

definition dns_skip_name :: "bytes \<Rightarrow> nat \<Rightarrow> nat option" where
  "dns_skip_name packet offset = dns_skip_labels DNS_MAX_NAME_SIZE packet offset"

section \<open>Query and answer\<close>

definition dns_query :: "u16 \<Rightarrow> bytes \<Rightarrow> bytes" where
  "dns_query identifier name =
     be_of_u16 identifier @ be_of_u16 DNS_RECURSION_DESIRED @ be_of_u16 1 @ replicate 6 0 @ name
     @ be_of_u16 DNS_TYPE_A @ be_of_u16 DNS_CLASS_IN"

definition dns_send_query :: "nat \<Rightarrow> ipv4_configuration \<Rightarrow> bytes \<Rightarrow> 'z dns_net_scheme \<Rightarrow> bool \<times> 'z dns_net_scheme" where
  "dns_send_query i configuration name n =
     (if DNS_PACKET_CAPACITY < DNS_HEADER_SIZE + length name + 4 then (False, n)
      else udp_send i (ip_address configuration) (ip_dns configuration) DNS_CLIENT_PORT DNS_SERVER_PORT
             (dns_query (active_identifier n) name) n)"

definition dns_fail :: "'z dns_net_scheme \<Rightarrow> 'z dns_net_scheme" where
  "dns_fail n = n\<lparr>active_result := - 3\<rparr>"

text \<open>The answer records; \<open>None\<close> is a bad packet or one without an address.\<close>

fun dns_answers :: "nat \<Rightarrow> bytes \<Rightarrow> nat \<Rightarrow> (bytes \<times> u32) option" where
  "dns_answers 0 packet offset = None"
| "dns_answers (Suc left) packet offset =
     (case dns_skip_name packet offset of
        None \<Rightarrow> None
      | Some offset \<Rightarrow>
          if length packet < offset + 10 then None
          else
            (let data_length = unat (be16_at packet (offset + 8))
             in if length packet < offset + 10 + data_length then None
                else if be16_at packet offset = DNS_TYPE_A \<and> be16_at packet (offset + 2) = DNS_CLASS_IN \<and> data_length = 4
                then Some (take 4 (drop (offset + 10) packet), be32_at packet (offset + 4))
                else dns_answers left packet (offset + 10 + data_length)))"

definition dns_receive ::
    "nat \<Rightarrow> bytes \<Rightarrow> bytes \<Rightarrow> u16 \<Rightarrow> u16 \<Rightarrow> bytes \<Rightarrow> 'z dns_net_scheme \<Rightarrow> 'z dns_net_scheme" where
  "dns_receive i source destination source_port destination_port packet n =
     (if \<not> resolution_active n \<or> length packet < DNS_HEADER_SIZE \<or> source_port \<noteq> DNS_SERVER_PORT
         \<or> destination_port \<noteq> DNS_CLIENT_PORT \<or> \<not> address_equal source (active_server n)
         \<or> be16_at packet 0 \<noteq> active_identifier n then n
      else
        (let flags = be16_at packet 2; name = active_encoded_name n; after = DNS_HEADER_SIZE + length name
         in if flags AND DNS_FLAG_RESPONSE = 0 then n
            else if flags AND 0x000F \<noteq> 0 then dns_fail n
            else if be16_at packet 4 \<noteq> 1 \<or> name = [] \<or> length packet < after + 4 then dns_fail n
            else if take (length name) (drop DNS_HEADER_SIZE packet) \<noteq> name then dns_fail n
            else if be16_at packet after \<noteq> DNS_TYPE_A \<or> be16_at packet (after + 2) \<noteq> DNS_CLASS_IN then dns_fail n
            else
              (case dns_answers (unat (be16_at packet 6)) packet (after + 4) of
                 None \<Rightarrow> dns_fail n
               | Some (answer, ttl) \<Rightarrow>
                   dns_cache_store (active_hostname n) answer ttl (n\<lparr>active_answer := answer, active_result := 1\<rparr>))))"

definition dns_init :: "'z dns_net_scheme \<Rightarrow> 'z dns_net_scheme" where
  "dns_init n =
     snd (udp_register_port DNS_CLIENT_PORT Handle_DNS
       (n\<lparr>active_result := 0, resolution_active := False, next_cache_entry := 0, active_hostname := [],
          dns_cache := map (dc_valid_update (\<lambda>_. False)) (dns_cache n)\<rparr>))"

text \<open>One turn of the wait: the query is sent again after half of the time.\<close>

definition dns_turn ::
    "('z dns_net_scheme \<Rightarrow> 'z dns_net_scheme) \<Rightarrow> nat \<Rightarrow> ipv4_configuration \<Rightarrow> bytes \<Rightarrow> u32 \<Rightarrow> u32 \<Rightarrow>
     bool \<times> 'z dns_net_scheme \<Rightarrow> bool \<times> 'z dns_net_scheme" where
  "dns_turn poll i configuration name started half = (\<lambda>(retried, n).
     if \<not> retried \<and> half \<le> uptime n - started
     then (True, poll (snd (dns_send_query i configuration name n)))
     else (retried, poll n))"

definition dns_resolve_ipv4 ::
    "('z dns_net_scheme \<Rightarrow> 'z dns_net_scheme) \<Rightarrow> bytes \<Rightarrow> u32 \<Rightarrow> 'z dns_net_scheme \<Rightarrow>
     ((int + bytes) \<times> 'z dns_net_scheme) option" where
  "dns_resolve_ipv4 poll hostname timeout n =
     (case dns_parse_ipv4_literal hostname of
        Some a \<Rightarrow> Some (Inr a, n)
      | None \<Rightarrow>
     (case dns_cache_lookup hostname n of
        Some a \<Rightarrow> Some (Inr a, n)
      | None \<Rightarrow>
     (case (network_default_interface n, ipv4_get_configuration n, dns_encode_name hostname DNS_MAX_NAME_SIZE) of
        (Some i, Some configuration, Some name) \<Rightarrow>
          if \<not> link_up (interfaces n ! i) \<or> address_is_zero (ip_dns configuration) \<or> resolution_active n \<or> timeout = 0
          then Some (Inl (- 1), n)
          else
            (case ipv4_resolve poll (ip_dns configuration) timeout n of
               None \<Rightarrow> None
             | Some (None, n) \<Rightarrow> Some (Inl (- 2), n)
             | Some (Some mac, n) \<Rightarrow>
                 (let n = n\<lparr>active_identifier := dns_next_identifier n, dns_next_identifier := dns_next_identifier n + 1,
                            active_server := ip_dns configuration, active_result := 0, active_encoded_name := name,
                            active_hostname := take (DNS_MAX_NAME_SIZE - 1) hostname, resolution_active := True\<rparr>;
                      (ok, n) = dns_send_query i configuration name n
                  in if \<not> ok then Some (Inl (- 1), n\<lparr>resolution_active := False\<rparr>)
                     else
                       (let started = uptime n; half = (if timeout div 2 = 0 then timeout else timeout div 2)
                        in map_option (\<lambda>(_, n).
                             (if active_result n = 1 then Inr (active_answer n)
                              else Inl (if active_result n < 0 then active_result n else - 2),
                              n\<lparr>resolution_active := False\<rparr>))
                             (while_option (\<lambda>(_, n). active_result n = 0 \<and> uptime n - started < timeout)
                               (dns_turn poll i configuration name started half) (False, n)))))
      | _ \<Rightarrow> Some (Inl (- 1), n))))"

end
