(* ===== verification/Dhcp.thy ===== *)
theory Dhcp
  imports Dns
begin

text \<open>\<open>net/dhcp.c\<close>: the address of the interface, and its renewal.\<close>

section \<open>State\<close>

definition DHCP_CLIENT_PORT :: u16 where "DHCP_CLIENT_PORT = 68"
definition DHCP_SERVER_PORT :: u16 where "DHCP_SERVER_PORT = 67"
definition DHCP_FIXED_HEADER_SIZE :: nat where "DHCP_FIXED_HEADER_SIZE = 240"
definition DHCP_MAGIC_COOKIE :: u32 where "DHCP_MAGIC_COOKIE = 0x63825363"
definition DHCP_DISCOVER :: u8 where "DHCP_DISCOVER = 1"
definition DHCP_OFFER :: u8 where "DHCP_OFFER = 2"
definition DHCP_REQUEST :: u8 where "DHCP_REQUEST = 3"
definition DHCP_ACK :: u8 where "DHCP_ACK = 5"
definition DHCP_MESSAGE_TYPE :: u8 where "DHCP_MESSAGE_TYPE = 53"
definition DHCP_SERVER_IDENTIFIER :: u8 where "DHCP_SERVER_IDENTIFIER = 54"
definition DHCP_REQUESTED_ADDRESS :: u8 where "DHCP_REQUESTED_ADDRESS = 50"
definition DHCP_SUBNET_MASK :: u8 where "DHCP_SUBNET_MASK = 1"
definition DHCP_ROUTER :: u8 where "DHCP_ROUTER = 3"
definition DHCP_DNS :: u8 where "DHCP_DNS = 6"
definition DHCP_LEASE_TIME :: u8 where "DHCP_LEASE_TIME = 51"
definition DHCP_END :: u8 where "DHCP_END = 255"
definition DHCP_RETRY_MS :: u32 where "DHCP_RETRY_MS = 4000"
definition DHCP_MAX_RETRIES :: nat where "DHCP_MAX_RETRIES = 3"

lemmas dhcp_codes = DHCP_DISCOVER_def DHCP_OFFER_def DHCP_REQUEST_def DHCP_ACK_def DHCP_MESSAGE_TYPE_def
  DHCP_SERVER_IDENTIFIER_def DHCP_SUBNET_MASK_def DHCP_ROUTER_def DHCP_DNS_def DHCP_LEASE_TIME_def DHCP_END_def

datatype dhcp_state = STOPPED | DISCOVERING | REQUESTING | RENEWING | REBINDING | BOUND | FAILED

record dhcp_net = dns_net +
  dhcp_state :: dhcp_state
  transaction_id :: u32
  dhcp_last_transmit_ms :: u32
  lease_acquired_ms :: u32
  retry_count :: nat
  offered_address :: bytes
  server_address :: bytes
  dhcp_interface :: "nat option"

section \<open>Sending\<close>

definition dhcp_option :: "u8 \<Rightarrow> bytes \<Rightarrow> bytes" where
  "dhcp_option code contents = [code, of_nat (length contents)] @ contents"

definition dhcp_packet :: "u8 \<Rightarrow> bytes \<Rightarrow> bytes \<Rightarrow> 'z dhcp_net_scheme \<Rightarrow> bytes" where
  "dhcp_packet message_type source mac n =
     (let s = dhcp_state n;
          p = [1, 1, 6, 0] @ be_of_u32 (transaction_id n) @ [0, 0]
            @ be_of_u16 (if s = DISCOVERING \<or> s = REQUESTING \<or> s = REBINDING then 0x8000 else 0)
            @ (if s = RENEWING \<or> s = REBINDING then take 4 source else replicate 4 0) @ replicate 12 0
            @ take 6 mac @ replicate 202 0 @ be_of_u32 DHCP_MAGIC_COOKIE
            @ dhcp_option DHCP_MESSAGE_TYPE [message_type]
            @ (if message_type = DHCP_REQUEST \<and> s = REQUESTING
               then dhcp_option DHCP_REQUESTED_ADDRESS (offered_address n)
                    @ dhcp_option DHCP_SERVER_IDENTIFIER (server_address n) else [])
            @ dhcp_option 61 ([1] @ take 6 mac)
            @ dhcp_option 55 [DHCP_SUBNET_MASK, DHCP_ROUTER, DHCP_DNS, DHCP_LEASE_TIME] @ [DHCP_END]
      in p @ replicate (300 - length p) 0)"

definition dhcp_send :: "u8 \<Rightarrow> 'z dhcp_net_scheme \<Rightarrow> bool \<times> 'z dhcp_net_scheme" where
  "dhcp_send message_type n =
     (case dhcp_interface n of
        None \<Rightarrow> (False, n)
      | Some i \<Rightarrow>
          (let s = dhcp_state n;
               current = (if s = RENEWING \<or> s = REBINDING then ipv4_get_configuration n else None);
               source = (case current of Some c \<Rightarrow> ip_address c | None \<Rightarrow> replicate 4 0);
               destination = (if current \<noteq> None \<and> s = RENEWING then server_address n else replicate 4 255)
           in udp_send i source destination DHCP_CLIENT_PORT DHCP_SERVER_PORT
                (dhcp_packet message_type source (mac_address (interfaces n ! i)) n)
                (n\<lparr>dhcp_last_transmit_ms := uptime n\<rparr>)))"

section \<open>Receiving\<close>

text \<open>The options read so far; the server identifier goes into a static of the file.\<close>

record dhcp_options =
  opt_message_type :: u8
  opt_subnet_mask :: bytes
  opt_router :: bytes
  opt_dns :: bytes
  opt_lease_time :: u32
  opt_server :: bytes

definition dhcp_apply_option :: "u8 \<Rightarrow> bytes \<Rightarrow> dhcp_options \<Rightarrow> dhcp_options" where
  "dhcp_apply_option code v os =
     (if code = DHCP_MESSAGE_TYPE \<and> length v = 1 then os\<lparr>opt_message_type := v ! 0\<rparr>
      else if code = DHCP_SERVER_IDENTIFIER \<and> 4 \<le> length v then os\<lparr>opt_server := take 4 v\<rparr>
      else if code = DHCP_SUBNET_MASK \<and> 4 \<le> length v then os\<lparr>opt_subnet_mask := take 4 v\<rparr>
      else if code = DHCP_ROUTER \<and> 4 \<le> length v then os\<lparr>opt_router := take 4 v\<rparr>
      else if code = DHCP_DNS \<and> 4 \<le> length v then os\<lparr>opt_dns := take 4 v\<rparr>
      else if code = DHCP_LEASE_TIME \<and> length v = 4 then os\<lparr>opt_lease_time := be32_at v 0\<rparr>
      else os)"

text \<open>\<open>False\<close> is a packet that ends inside an option.\<close>

fun dhcp_parse_options :: "bytes \<Rightarrow> dhcp_options \<Rightarrow> bool \<times> dhcp_options" where
  "dhcp_parse_options [] os = (True, os)"
| "dhcp_parse_options (code # rest) os =
     (if code = 0 then dhcp_parse_options rest os
      else if code = DHCP_END then (True, os)
      else
        (case rest of
           [] \<Rightarrow> (False, os)
         | len # rest \<Rightarrow>
             if length rest < unat len then (False, os)
             else dhcp_parse_options (drop (unat len) rest) (dhcp_apply_option code (take (unat len) rest) os)))"

definition no_options :: "bytes \<Rightarrow> dhcp_options" where
  "no_options server = \<lparr>opt_message_type = 0, opt_subnet_mask = [255, 255, 255, 0], opt_router = replicate 4 0,
     opt_dns = replicate 4 0, opt_lease_time = 0, opt_server = server\<rparr>"

definition dhcp_offered :: "bytes \<Rightarrow> bytes \<Rightarrow> 'z dhcp_net_scheme \<Rightarrow> 'z dhcp_net_scheme" where
  "dhcp_offered source packet n =
     (let n = n\<lparr>offered_address := take 4 (drop 16 packet)\<rparr>;
          n = (if address_is_zero (server_address n) then n\<lparr>server_address := take 4 source\<rparr> else n);
          (ok, n) = dhcp_send DHCP_REQUEST (n\<lparr>dhcp_state := REQUESTING, retry_count := 0\<rparr>)
      in if ok then n else n\<lparr>dhcp_state := FAILED\<rparr>)"

definition dhcp_acknowledged :: "nat \<Rightarrow> bytes \<Rightarrow> dhcp_options \<Rightarrow> 'z dhcp_net_scheme \<Rightarrow> 'z dhcp_net_scheme" where
  "dhcp_acknowledged i packet os n =
     (let own = take 4 (drop 16 packet);
          (ok, n) = ipv4_configure i \<lparr>ip_address = (if address_is_zero own then offered_address n else own),
                      ip_netmask = opt_subnet_mask os, ip_gateway = opt_router os, ip_dns = opt_dns os,
                      lease_seconds = unat (opt_lease_time os)\<rparr> n
      in if ok then n\<lparr>dhcp_state := BOUND, lease_acquired_ms := uptime n\<rparr> else n\<lparr>dhcp_state := FAILED\<rparr>)"

definition dhcp_receive ::
    "nat \<Rightarrow> bytes \<Rightarrow> bytes \<Rightarrow> u16 \<Rightarrow> u16 \<Rightarrow> bytes \<Rightarrow> 'z dhcp_net_scheme \<Rightarrow> 'z dhcp_net_scheme" where
  "dhcp_receive i source destination source_port destination_port packet n =
     (if Some i \<noteq> dhcp_interface n \<or> length packet < DHCP_FIXED_HEADER_SIZE \<or> packet ! 0 \<noteq> 2
         \<or> be32_at packet 4 \<noteq> transaction_id n \<or> take 6 (drop 28 packet) \<noteq> mac_address (interfaces n ! i)
         \<or> be32_at packet 236 \<noteq> DHCP_MAGIC_COOKIE then n
      else
        (let (complete, os) = dhcp_parse_options (drop DHCP_FIXED_HEADER_SIZE packet) (no_options (server_address n));
             n = n\<lparr>server_address := opt_server os\<rparr>; t = opt_message_type os; s = dhcp_state n
         in if \<not> complete then n
            else if t = DHCP_OFFER \<and> s = DISCOVERING then dhcp_offered source packet n
            else if t = DHCP_ACK \<and> (s = REQUESTING \<or> s = RENEWING \<or> s = REBINDING)
            then dhcp_acknowledged i packet os n
            else n))"

section \<open>Start and timer\<close>

definition dhcp_init :: "'z dhcp_net_scheme \<Rightarrow> 'z dhcp_net_scheme" where
  "dhcp_init n =
     snd (udp_register_port DHCP_CLIENT_PORT Handle_DHCP
       (n\<lparr>dhcp_state := STOPPED, dhcp_interface := None, retry_count := 0, lease_acquired_ms := 0,
          offered_address := replicate 4 0, server_address := replicate 4 0\<rparr>))"

definition dhcp_start :: "'z dhcp_net_scheme \<Rightarrow> bool \<times> 'z dhcp_net_scheme" where
  "dhcp_start n =
     (let n = n\<lparr>dhcp_interface := network_default_interface n\<rparr>
      in case dhcp_interface n of
           None \<Rightarrow> (False, n\<lparr>dhcp_state := FAILED\<rparr>)
         | Some i \<Rightarrow>
             if \<not> link_up (interfaces n ! i) then (False, n\<lparr>dhcp_state := FAILED\<rparr>)
             else
               (let seed = foldl (\<lambda>x b. (x * 33) XOR ucast b) 0x50524D00 (take 6 (mac_address (interfaces n ! i)));
                    (ok, n) = dhcp_send DHCP_DISCOVER
                      (n\<lparr>transaction_id := seed XOR uptime n, dhcp_state := DISCOVERING, retry_count := 0,
                         offered_address := replicate 4 0, server_address := replicate 4 0\<rparr>)
                in if ok then (True, n) else (False, n\<lparr>dhcp_state := FAILED\<rparr>)))"

definition dhcp_retry :: "'z dhcp_net_scheme \<Rightarrow> 'z dhcp_net_scheme" where
  "dhcp_retry n =
     (let s = dhcp_state n
      in if s \<noteq> DISCOVERING \<and> s \<noteq> REQUESTING \<and> s \<noteq> RENEWING \<and> s \<noteq> REBINDING
            \<or> uptime n - dhcp_last_transmit_ms n < DHCP_RETRY_MS then n
         else if DHCP_MAX_RETRIES \<le> retry_count n \<and> (s = DISCOVERING \<or> s = REQUESTING)
         then n\<lparr>dhcp_state := FAILED\<rparr>
         else
           (let (ok, n) = dhcp_send (if s = DISCOVERING then DHCP_DISCOVER else DHCP_REQUEST)
                  (n\<lparr>retry_count := add32 (retry_count n) 1\<rparr>)
            in if ok then n else n\<lparr>dhcp_state := FAILED\<rparr>))"

definition lease_ms :: "nat \<Rightarrow> nat" where
  "lease_ms seconds = (if 0xFFFFFFFF div 1000 < seconds then 0xFFFFFFFF else seconds * 1000)"

definition dhcp_poll :: "'z dhcp_net_scheme \<Rightarrow> 'z dhcp_net_scheme" where
  "dhcp_poll n =
     (let elapsed = unat (uptime n - lease_acquired_ms n)
      in if dhcp_state n = BOUND
         then
           (case ipv4_get_configuration n of
              None \<Rightarrow> n
            | Some c \<Rightarrow>
                if lease_seconds c = 0 then n
                else if lease_ms (lease_seconds c) \<le> elapsed
                then (let n = (case dhcp_interface n of
                                 Some i \<Rightarrow> snd (ipv4_configure i zero_configuration n) | None \<Rightarrow> n)
                      in n\<lparr>dhcp_state := FAILED\<rparr>)
                else if lease_ms (lease_seconds c) div 2 \<le> elapsed
                then snd (dhcp_send DHCP_REQUEST (n\<lparr>dhcp_state := RENEWING, retry_count := 0\<rparr>))
                else n)
         else if dhcp_state n = RENEWING
                 \<and> (let l = (case ipv4_get_configuration n of
                               Some c \<Rightarrow> lease_ms (lease_seconds c) | None \<Rightarrow> 0xFFFFFFFF)
                    in l - l div 8 \<le> elapsed)
         then snd (dhcp_send DHCP_REQUEST (n\<lparr>dhcp_state := REBINDING, retry_count := 0\<rparr>))
         else dhcp_retry n)"

definition dhcp_get_state :: "'z dhcp_net_scheme \<Rightarrow> dhcp_state" where
  "dhcp_get_state n = dhcp_state n"

end
