(* ===== verification/Http.thy ===== *)
theory Http
  imports Dhcp "HOL-Library.Monad_Syntax"
begin

text \<open>
  \<open>net/http.c\<close>: an HTTP/1.0 GET over TCP, and the parser of the response. The static \<open>raw_response\<close> has
  \<open>HTTP_RAW_RESPONSE_CAPACITY\<close> bytes; a write behind its end is the outcome \<open>Http_Overrun\<close>.
\<close>

definition HTTP_MAX_BODY_SIZE :: nat where "HTTP_MAX_BODY_SIZE = 8192"
definition HTTP_CONTENT_TYPE_SIZE :: nat where "HTTP_CONTENT_TYPE_SIZE = 64"
definition HTTP_REQUEST_CAPACITY :: nat where "HTTP_REQUEST_CAPACITY = 512"
definition HTTP_RAW_RESPONSE_CAPACITY :: nat where "HTTP_RAW_RESPONSE_CAPACITY = HTTP_MAX_BODY_SIZE + 2048"
definition HTTP_READ_CHUNK_SIZE :: nat where "HTTP_READ_CHUNK_SIZE = 512"

record http_response =
  status_code :: nat
  http_body :: bytes
  content_type :: bytes

section \<open>Characters\<close>

definition http_append :: "nat \<Rightarrow> bytes \<Rightarrow> bytes \<Rightarrow> bytes option" where
  "http_append capacity source destination =
     (if capacity \<le> length destination + length source then None else Some (destination @ source))"

definition http_host_char :: "u8 \<Rightarrow> bool" where
  "http_host_char c \<longleftrightarrow> 97 \<le> c \<and> c \<le> 122 \<or> 65 \<le> c \<and> c \<le> 90 \<or> 48 \<le> c \<and> c \<le> 57 \<or> c = 46 \<or> c = 45"

definition http_valid_host :: "bytes \<Rightarrow> bool" where
  "http_valid_host hostname \<longleftrightarrow> hostname \<noteq> [] \<and> length hostname \<le> 253 \<and> list_all http_host_char hostname"

definition http_valid_path :: "bytes \<Rightarrow> bool" where
  "http_valid_path path \<longleftrightarrow> path \<noteq> [] \<and> hd path = 47 \<and> list_all (\<lambda>c. 33 \<le> c \<and> c \<le> 126) path"

definition http_lower :: "u8 \<Rightarrow> u8" where
  "http_lower c = (if 65 \<le> c \<and> c \<le> 90 then c - 65 + 97 else c)"

definition http_equal_case :: "bytes \<Rightarrow> bytes \<Rightarrow> bool" where
  "http_equal_case a b \<longleftrightarrow> map http_lower a = map http_lower b"

fun http_contains_case :: "bytes \<Rightarrow> bytes \<Rightarrow> bool" where
  "http_contains_case [] text = (text = [])"
| "http_contains_case (c # cs) text =
     (length text \<le> length (c # cs)
      \<and> (http_equal_case (take (length text) (c # cs)) text \<or> http_contains_case cs text))"

definition blank :: "u8 \<Rightarrow> bool" where "blank c \<longleftrightarrow> c = 32 \<or> c = 9"
definition is_digit :: "u8 \<Rightarrow> bool" where "is_digit c \<longleftrightarrow> 48 \<le> c \<and> c \<le> 57"

section \<open>The response\<close>

text \<open>The offset of the body, behind the first empty line.\<close>

fun http_find_header_end :: "bytes \<Rightarrow> nat \<Rightarrow> nat option" where
  "http_find_header_end (a # b # c # d # rest) index =
     (if a = 13 \<and> b = 10 \<and> c = 13 \<and> d = 10 then Some (index + 4)
      else http_find_header_end (b # c # d # rest) (index + 1))"
| "http_find_header_end _ index = None"

fun decimal_digits :: "nat \<Rightarrow> bytes \<Rightarrow> nat option" where
  "decimal_digits v [] = Some v"
| "decimal_digits v (c # cs) =
     (if is_digit c
      then (let digit = unat (c - 48)
            in if (0xFFFFFFFF - digit) div 10 < v then None else decimal_digits (v * 10 + digit) cs)
      else Some v)"

definition http_parse_decimal :: "bytes \<Rightarrow> nat option" where
  "http_parse_decimal b =
     (case dropWhile blank b of
        [] \<Rightarrow> None
      | c # cs \<Rightarrow> if is_digit c then decimal_digits 0 (c # cs) else None)"

definition http_parse_status :: "bytes \<Rightarrow> nat option" where
  "http_parse_status line =
     (if length line < 12 \<or> take 5 line \<noteq> ascii ''HTTP/'' then None
      else
        (case dropWhile (\<lambda>c. c = 32) (dropWhile (\<lambda>c. c \<noteq> 32) line) of
           x # y # z # _ \<Rightarrow>
             if is_digit x \<and> is_digit y \<and> is_digit z
             then Some (unat (x - 48) * 100 + unat (y - 48) * 10 + unat (z - 48)) else None
         | _ \<Rightarrow> None))"

text \<open>
  The end of the line from an offset on: the loop stops at a CR LF, or one byte before the end of the header.
\<close>

fun line_length :: "bytes \<Rightarrow> nat" where
  "line_length (a # b # rest) = (if a = 13 \<and> b = 10 then 0 else Suc (line_length (b # rest)))"
| "line_length _ = 0"

lemma line_length_le: "line_length b \<le> length b"
  by (induction b rule: line_length.induct) auto

definition header_field :: "bytes \<Rightarrow> (bytes \<times> bytes) option" where
  "header_field line =
     (case dropWhile (\<lambda>c. c \<noteq> 58) line of
        [] \<Rightarrow> None
      | _ # rest \<Rightarrow> Some (takeWhile (\<lambda>c. c \<noteq> 58) line, dropWhile blank rest))"

text \<open>The header from an offset on, which must leave two bytes; a line that is empty ends the scan.\<close>

function http_copy_content_type :: "bytes \<Rightarrow> bytes option" where
  "http_copy_content_type header =
     (if length header < 2 then None
      else
        (let k = line_length header; line = take k header
         in if k = 0 then None
            else
              (case header_field line of
                 Some (name, v) \<Rightarrow>
                   if http_equal_case name (ascii ''Content-Type'') then Some (take (HTTP_CONTENT_TYPE_SIZE - 1) v)
                   else http_copy_content_type (drop (k + 2) header)
               | None \<Rightarrow> http_copy_content_type (drop (k + 2) header))))"
  by auto
termination
  by (relation "measure length") auto

declare http_copy_content_type.simps [simp del]

function http_scan_header :: "bytes \<Rightarrow> nat option \<Rightarrow> bool \<Rightarrow> (nat option \<times> bool) option" where
  "http_scan_header header content_length chunked =
     (if length header < 2 then Some (content_length, chunked)
      else
        (let k = line_length header; line = take k header; rest = drop (k + 2) header
         in if k = 0 then Some (content_length, chunked)
            else
              (case header_field line of
                 None \<Rightarrow> http_scan_header rest content_length chunked
               | Some (name, v) \<Rightarrow>
                   if http_equal_case name (ascii ''Content-Length'')
                   then (case http_parse_decimal v of
                           None \<Rightarrow> None
                         | Some len \<Rightarrow> http_scan_header rest (Some len) chunked)
                   else if http_equal_case name (ascii ''Transfer-Encoding'')
                   then http_scan_header rest content_length (http_contains_case v (ascii ''chunked''))
                   else http_scan_header rest content_length chunked)))"
  by auto
termination
  by (relation "measure (\<lambda>(header, content_length, chunked). length header)") auto

declare http_scan_header.simps [simp del]

definition hex_value :: "u8 \<Rightarrow> nat option" where
  "hex_value c =
     (if 48 \<le> c \<and> c \<le> 57 then Some (unat (c - 48))
      else if 97 \<le> c \<and> c \<le> 102 then Some (unat (c - 97) + 10)
      else if 65 \<le> c \<and> c \<le> 70 then Some (unat (c - 65) + 10)
      else None)"

text \<open>The size line of a chunk: the number, how many digits it has, and what follows them.\<close>

fun chunk_size :: "nat \<Rightarrow> nat \<Rightarrow> bytes \<Rightarrow> (nat \<times> nat \<times> bytes) option" where
  "chunk_size v digits [] = Some (v, digits, [])"
| "chunk_size v digits (c # cs) =
     (if c = 13 \<or> c = 59 then Some (v, digits, c # cs)
      else
        (case hex_value c of
           None \<Rightarrow> None
         | Some d \<Rightarrow> if (0xFFFFFFFF - d) div 16 < v then None else chunk_size (v * 16 + d) (digits + 1) cs))"

definition chunk_line :: "bytes \<Rightarrow> (nat \<times> bytes) option" where
  "chunk_line input =
     (case chunk_size 0 0 input of
        None \<Rightarrow> None
      | Some (v, digits, rest) \<Rightarrow>
          if digits = 0 then None
          else (case dropWhile (\<lambda>c. c \<noteq> 13) rest of
                  _ # b # rest \<Rightarrow> if b = 10 then Some (v, rest) else None
                | _ \<Rightarrow> None))"

lemma chunk_size_le: "chunk_size v digits b = Some (w, k, rest) \<Longrightarrow> length rest \<le> length b"
  by (induction v digits b rule: chunk_size.induct) (auto split: if_splits option.splits)

lemma chunk_line_less: "chunk_line b = Some (v, rest) \<Longrightarrow> length rest < length b"
proof -
  assume a: "chunk_line b = Some (v, rest)"
  then obtain digits r where r: "chunk_size 0 0 b = Some (v, digits, r)"
      "\<exists>x. dropWhile (\<lambda>c. c \<noteq> 13) r = x # 10 # rest"
    by (auto simp: chunk_line_def split: option.splits if_splits list.splits)
  then obtain x where x: "dropWhile (\<lambda>c. c \<noteq> 13) r = x # 10 # rest" by blast
  have "length (dropWhile (\<lambda>c. c \<noteq> 13) r) \<le> length r" by (rule length_dropWhile_le)
  then show ?thesis using chunk_size_le [OF r(1)] by (simp add: x)
qed

function http_decode_chunks :: "bytes \<Rightarrow> nat \<Rightarrow> bytes \<Rightarrow> bytes option" where
  "http_decode_chunks input capacity written =
     (if input = [] then None
      else
        (case chunk_line input of
           None \<Rightarrow> None
         | Some (n, rest) \<Rightarrow>
             if n = 0 then Some written
             else if length rest < n \<or> length rest < n + 2 \<or> capacity - length written < n then None
             else if rest ! n \<noteq> 13 \<or> rest ! (n + 1) \<noteq> 10 then None
             else http_decode_chunks (drop (n + 2) rest) capacity (written @ take n rest)))"
  by auto
termination
  by (relation "measure (\<lambda>(input, capacity, written). length input)") (auto dest: chunk_line_less)

declare http_decode_chunks.simps [simp del]

definition http_parse_response :: "bytes \<Rightarrow> nat \<Rightarrow> int + http_response" where
  "http_parse_response raw body_capacity =
     (case http_find_header_end raw 0 of
        None \<Rightarrow> Inl (- 1)
      | Some body_offset \<Rightarrow>
          (let header = take (body_offset - 4) raw; k = line_length header
           in case http_parse_status (take k header) of
                None \<Rightarrow> Inl (- 1)
              | Some status \<Rightarrow>
                  (case http_scan_header (drop (k + 2) header) None False of
                     None \<Rightarrow> Inl (- 1)
                   | Some (content_length, chunked) \<Rightarrow>
                       (let kind = (case http_copy_content_type header of Some t \<Rightarrow> t | None \<Rightarrow> []);
                            body = drop body_offset raw
                        in if chunked
                           then (case http_decode_chunks body body_capacity [] of
                                   None \<Rightarrow> Inl (- 1)
                                 | Some b \<Rightarrow> Inr \<lparr>status_code = status, http_body = b, content_type = kind\<rparr>)
                           else
                             (let len = (case content_length of Some l \<Rightarrow> l | None \<Rightarrow> length body)
                              in if length body < len then Inl (- 2)
                                 else if body_capacity < len then Inl (- 3)
                                 else Inr \<lparr>status_code = status, http_body = take len body, content_type = kind\<rparr>)))))"

section \<open>The request\<close>

fun port_digits :: "nat \<Rightarrow> bytes" where
  "port_digits v = (if v < 10 then [of_nat (48 + v)] else port_digits (v div 10) @ [of_nat (48 + v mod 10)])"

declare port_digits.simps [simp del]

definition crlf :: bytes where "crlf = [13, 10]"

definition http_request :: "bytes \<Rightarrow> bytes \<Rightarrow> u16 \<Rightarrow> bytes option" where
  "http_request hostname path port =
     (let app = http_append HTTP_REQUEST_CAPACITY
      in do {
        r \<leftarrow> app (ascii ''GET '') [];
        r \<leftarrow> app path r;
        r \<leftarrow> app (ascii '' HTTP/1.0'' @ crlf @ ascii ''Host: '') r;
        r \<leftarrow> app hostname r;
        r \<leftarrow> (if port \<noteq> 80 then do { r \<leftarrow> app (ascii '':'') r; app (port_digits (unat port)) r } else Some r);
        app (crlf @ ascii ''User-Agent: PrismOS/0.1'' @ crlf @ ascii ''Connection: close'' @ crlf @ crlf) r
      })"

text \<open>The loop that collects the response.\<close>

datatype http_end = Http_Overrun | Http_Code int | Http_Raw bytes

partial_function (option) http_collect ::
    "('z tcp_net_scheme \<Rightarrow> 'z tcp_net_scheme) \<Rightarrow> u32 \<Rightarrow> u32 \<Rightarrow> bytes \<Rightarrow> 'z tcp_net_scheme \<Rightarrow>
     (http_end \<times> 'z tcp_net_scheme) option" where
  "http_collect poll started timeout raw n =
     (if HTTP_RAW_RESPONSE_CAPACITY \<le> length raw then Some (Http_Raw raw, n)
      else if timeout \<le> uptime n - started then Some (Http_Code (- 5), n)
      else
        Option.bind (tcp_read_wait poll HTTP_READ_CHUNK_SIZE (timeout - (uptime n - started)) n) (\<lambda>(r, n).
          case r of
            Inl code \<Rightarrow> Some (if code = - 2 then Http_Raw raw else Http_Code (- 5), n)
          | Inr piece \<Rightarrow>
              if HTTP_RAW_RESPONSE_CAPACITY < length raw + length piece then Some (Http_Overrun, n)
              else http_collect poll started timeout (raw @ piece) n))"

text \<open>What a call returns.\<close>

datatype http_result = Http_Memory | Http_Failed int | Http_Done http_response

definition http_outcome :: "bytes \<Rightarrow> nat \<Rightarrow> http_result" where
  "http_outcome raw body_capacity =
     (case http_parse_response raw body_capacity of
        Inr r \<Rightarrow> Http_Done r
      | Inl code \<Rightarrow> Http_Failed (if code = - 2 then - 5 else if code = - 3 then - 6 else - 7))"

definition http_close ::
    "('z dns_net_scheme \<Rightarrow> 'z dns_net_scheme) \<Rightarrow> http_result \<Rightarrow> 'z dns_net_scheme \<Rightarrow>
     (http_result \<times> 'z dns_net_scheme) option" where
  "http_close poll r n = map_option (\<lambda>(_, n). (r, n)) (tcp_close poll 1000 n)"

definition http_get ::
    "('z dns_net_scheme \<Rightarrow> 'z dns_net_scheme) \<Rightarrow> bytes \<Rightarrow> bytes \<Rightarrow> u16 \<Rightarrow> u32 \<Rightarrow> nat \<Rightarrow> 'z dns_net_scheme \<Rightarrow>
     (http_result \<times> 'z dns_net_scheme) option" where
  "http_get poll hostname path port timeout body_capacity n =
     (if body_capacity = 0 \<or> port = 0 \<or> timeout = 0 \<or> \<not> http_valid_host hostname \<or> \<not> http_valid_path path
         \<or> (case network_default_interface n of None \<Rightarrow> True | Some i \<Rightarrow> \<not> link_up (interfaces n ! i))
      then Some (Http_Failed (- 1), n)
      else do {
        (address, n) \<leftarrow> dns_resolve_ipv4 poll hostname timeout n;
        case address of
          Inl _ \<Rightarrow> Some (Http_Failed (- 2), n)
        | Inr address \<Rightarrow> do {
            (code, n) \<leftarrow> tcp_connect poll address port timeout n;
            if code \<noteq> 0 then Some (Http_Failed (- 3), n)
            else
              (case http_request hostname path port of
                 None \<Rightarrow> http_close poll (Http_Failed (- 1)) n
               | Some request \<Rightarrow> do {
                   (code, n) \<leftarrow> tcp_send poll request timeout n;
                   if code \<noteq> 0 then http_close poll (Http_Failed (- 4)) n
                   else do {
                     (e, n) \<leftarrow> http_collect poll (uptime n) timeout [] n;
                     case e of
                       Http_Overrun \<Rightarrow> Some (Http_Memory, n)
                     | Http_Code code \<Rightarrow> http_close poll (Http_Failed code) n
                     | Http_Raw raw \<Rightarrow> http_close poll (http_outcome raw body_capacity) n
                   }
                 })
          }
      })"

end
