(* ===== verification/Network.thy ===== *)
theory Network
  imports Http
begin

text \<open>
  The stack put together: the handlers behind the tables, \<open>network_init\<close> and \<open>network_poll\<close> of \<open>net/network.c\<close>.
  \<open>arrivals\<close> is what the card will find at the coming polls: the state of the link, the frames, and the time that
  passes in the \<open>hlt\<close> after the poll; when it is used up nothing more arrives and the timer ticks.
\<close>

record network = dhcp_net +
  arrivals :: "(bool \<times> bytes list \<times> u32) list"

definition udp_call ::
    "udp_handler \<Rightarrow> nat \<Rightarrow> bytes \<Rightarrow> bytes \<Rightarrow> u16 \<Rightarrow> u16 \<Rightarrow> bytes \<Rightarrow> 'z dhcp_net_scheme \<Rightarrow> 'z dhcp_net_scheme" where
  "udp_call h = (case h of Handle_DHCP \<Rightarrow> dhcp_receive | Handle_DNS \<Rightarrow> dns_receive)"

definition ip_call ::
    "ip_handler \<Rightarrow> nat \<Rightarrow> bytes \<Rightarrow> bytes \<Rightarrow> bytes \<Rightarrow> 'z dhcp_net_scheme \<Rightarrow> 'z dhcp_net_scheme" where
  "ip_call h =
     (case h of Handle_ICMP \<Rightarrow> icmp_receive | Handle_TCP \<Rightarrow> tcp_receive | Handle_UDP \<Rightarrow> udp_receive udp_call)"

definition network_init :: "(bytes \<times> nat \<times> bool) option \<Rightarrow> 'z dhcp_net_scheme \<Rightarrow> bool \<times> 'z dhcp_net_scheme" where
  "network_init found n =
     (let n = n\<lparr>interfaces := [], receive_head := 0, receive_tail := 0, receive_count := 0\<rparr>;
          n = tcp_init (icmp_init (dhcp_init (dns_init (udp_init (ipv4_init (arp_init (ethernet_init n)))))))
      in case found of
           None \<Rightarrow> (False, n)
         | Some (mac, m, link) \<Rightarrow>
             (let (i, n) = network_register_interface (ascii ''e1000'') mac m link n
              in if i = None then (False, n) else (True, snd (dhcp_start n))))"

definition card_poll :: "bool \<times> bytes list \<times> u32 \<Rightarrow> nat \<Rightarrow> 'z dhcp_net_scheme \<Rightarrow> 'z dhcp_net_scheme" where
  "card_poll = (\<lambda>(link, frames, _) i n.
     foldl (\<lambda>n frame. snd (network_submit_received_frame ip_call i frame n))
       (n\<lparr>interfaces := (interfaces n)[i := (interfaces n ! i)\<lparr>link_up := link\<rparr>]\<rparr>) frames)"

definition network_poll :: "network \<Rightarrow> network" where
  "network_poll n =
     (let n = (case (network_default_interface n, arrivals n) of
                 (Some i, a # as) \<Rightarrow> card_poll a i (n\<lparr>arrivals := as\<rparr>) | _ \<Rightarrow> n)
      in tcp_poll (dhcp_poll n))"

text \<open>A turn of a waiting loop: the poll and the \<open>hlt\<close> after it.\<close>

definition poll_and_halt :: "network \<Rightarrow> network" where
  "poll_and_halt n =
     (let passed = (case arrivals n of (_, _, t) # _ \<Rightarrow> t | [] \<Rightarrow> 10); n = network_poll n
      in n\<lparr>uptime := uptime n + passed\<rparr>)"

end
