(* ===== verification/Net_Delivery.thy ===== *)
theory Net_Delivery
  imports Network
begin

text \<open>
  Two machines: what one passes down the stack arrives unchanged at the handler of the other, through the
  headers and checksums of Ethernet, IPv4 and TCP.
\<close>

section \<open>Frames\<close>

lemma frame_fields:
  assumes "length destination = 6" "length source = 6"
  shows "be16_at (ethernet_frame destination source protocol payload) 12 = protocol"
    "take 6 (drop 6 (ethernet_frame destination source protocol payload)) = source"
    "drop 14 (ethernet_frame destination source protocol payload) = payload"
    "length (ethernet_frame destination source protocol payload) = 14 + length payload"
  using be16_at_written [of "destination @ source" protocol payload] assms by (simp_all add: ethernet_frame_def)

lemma frame_arrives:
  assumes "length destination = 6" "length source = 6" "map_of (eth_handlers n) ETHERNET_PROTOCOL_IPV4 = Some Handle_IPv4"
  shows "ethernet_receive call i (ethernet_frame destination source ETHERNET_PROTOCOL_IPV4 packet) n
    = ipv4_receive call i source packet n"
  using assms(3) frame_fields [OF assms(1,2)] by (simp add: ethernet_receive_def ETHERNET_HEADER_SIZE_def)

section \<open>IPv4 packets\<close>

lemma header_fields:
  fixes t ident protocol checksum source destination
  assumes "length source = 4" "length destination = 4" "t < 65536"
  defines "h \<equiv> ipv4_header t ident protocol checksum source destination"
  shows "length h = 20" "h ! 0 = 0x45" "h ! 9 = protocol" "unat (be16_at (h @ r) 2) = t"
    "be16_at (h @ r) 6 = IPV4_FLAG_DONT_FRAGMENT" "take 4 (drop 12 h) = source" "take 4 (drop 16 h) = destination"
proof -
  note w = be16_at_written
  show "length h = 20" "h ! 0 = 0x45" "h ! 9 = protocol" "take 4 (drop 12 h) = source" "take 4 (drop 16 h) = destination"
    using assms(1,2) by (simp_all add: h_def ipv4_header_def be_of_u16_def)
  have "be16_at (h @ r) 2 = of_nat t"
    using w [of "[0x45, 0]" "of_nat t" "be_of_u16 ident @ be_of_u16 IPV4_FLAG_DONT_FRAGMENT @ [64, protocol]
      @ be_of_u16 (of_nat checksum) @ take 4 source @ take 4 destination @ r"]
    by (simp add: h_def ipv4_header_def numeral_2_eq_2)
  then show "unat (be16_at (h @ r) 2) = t" using assms(3) by (simp add: unat_of_nat)
  show "be16_at (h @ r) 6 = IPV4_FLAG_DONT_FRAGMENT"
    using w [of "[0x45, 0] @ be_of_u16 (of_nat t) @ be_of_u16 ident" IPV4_FLAG_DONT_FRAGMENT
      "[64, protocol] @ be_of_u16 (of_nat checksum) @ take 4 source @ take 4 destination @ r"]
    by (simp add: h_def ipv4_header_def)
qed

lemma header_checks:
  "ipv4_checksum (ipv4_header t ident protocol
     (ipv4_checksum (ipv4_header t ident protocol 0 source destination)) source destination) = 0"
  using ipv4_checksum_checks [of "[0x45, 0] @ be_of_u16 (of_nat t) @ be_of_u16 ident
      @ be_of_u16 IPV4_FLAG_DONT_FRAGMENT @ [64, protocol]" "take 4 source @ take 4 destination"]
  by (simp add: ipv4_header_def)

lemma packet_arrives:
  assumes "length source = 4" "length destination = 4" "length payload \<le> 1498"
    and "ipv4_is_broadcast destination n \<or>
      ipv4_is_configured n \<and> address_equal destination (ip_address (active_configuration n))"
    and "\<not> address_is_zero source" "map_of (ip_handlers n) protocol = Some h"
  shows "ipv4_receive call i mac (ipv4_packet ident source destination protocol payload) n
    = call h i source destination payload (arp_learn_ipv4 source mac n)"
proof -
  let ?t = "20 + length payload"
  define k where "k = ipv4_checksum (ipv4_header ?t ident protocol 0 source destination)"
  define header where "header = ipv4_header ?t ident protocol k source destination"
  have p: "ipv4_packet ident source destination protocol payload = header @ payload"
    by (simp add: ipv4_packet_def IPV4_HEADER_SIZE_def header_def k_def Let_def)
  have t: "?t < 65536" using assms(3) by simp
  note f = header_fields [OF assms(1,2) t, of ident protocol k, folded header_def]
  have c: "ipv4_checksum header = 0" unfolding header_def k_def by (rule header_checks)
  have at: "(header @ payload) ! 0 = 0x45" "(header @ payload) ! 9 = protocol" "take 20 (header @ payload) = header"
    "take 4 (drop 12 (header @ payload)) = source" "take 4 (drop 16 (header @ payload)) = destination"
    "drop 20 (header @ payload) = payload"
    using f assms(1,2) by (simp_all add: nth_append)
  have handlers: "ip_handlers (arp_learn_ipv4 source mac n) = ip_handlers n"
    by (simp add: arp_learn_ipv4_def arp_cache_update_def split: option.split)
  have "IPV4_FLAG_DONT_FRAGMENT AND IPV4_FRAGMENT_MASK = 0"
    by (simp add: IPV4_FLAG_DONT_FRAGMENT_def IPV4_FRAGMENT_MASK_def)
  then show ?thesis
    unfolding ipv4_receive_def p
    using f(1,4,5) c at assms(4-6) handlers by (auto simp: IPV4_HEADER_SIZE_def Let_def)
qed

section \<open>Sending\<close>

definition macs_ok :: "'z net_scheme \<Rightarrow> bool" where
  "macs_ok n \<longleftrightarrow> (\<forall>i < length (interfaces n). length (mac_address (interfaces n ! i)) = 6)
     \<and> (\<forall>e \<in> set (arp_entries n). length (ac_mac e) = 6) \<and> length (arp_entries n) = ARP_ADDRESS_CACHE_SIZE"

lemma lookup_mac: "macs_ok n \<Longrightarrow> arp_lookup_ipv4 ip n = Some mac \<Longrightarrow> length mac = 6"
  by (auto simp: macs_ok_def arp_lookup_ipv4_def slot_of_def find_Some_iff)

lemma transmit_sent:
  "network_transmit_frame frame n = (True, n') \<Longrightarrow> sent n' = sent n @ [frame]"
  by (auto simp: network_transmit_frame_def card_transmit_def count_stat_def split: option.splits if_splits list.splits
      bool.splits)

lemma ipv4_sends:
  assumes "ipv4_send_from i source destination protocol payload n = (True, n')" "macs_ok n"
  shows "\<exists>mac. length mac = 6 \<and> length payload \<le> 1498 \<and>
    sent n' = sent n @ [ethernet_frame mac (mac_address (interfaces n ! i)) ETHERNET_PROTOCOL_IPV4
      (ipv4_packet (ucast (uptime n)) source destination protocol payload)]"
proof -
  from assms(1) obtain mac where mac:
    "(if ipv4_is_broadcast destination n then Some ETHERNET_BROADCAST_ADDRESS
      else arp_lookup_ipv4 (if Some i = active_interface n \<and> ipv4_is_configured n then next_hop destination n
        else take 4 destination) n) = Some mac"
    "length payload \<le> 1498"
    "ethernet_send i mac ETHERNET_PROTOCOL_IPV4 (ipv4_packet (ucast (uptime n)) source destination protocol payload) n
      = (True, n')"
    by (auto simp: ipv4_send_from_def Let_def net_sizes split: if_splits option.splits)
  have "length mac = 6" using mac(1) lookup_mac [OF assms(2)]
    by (auto simp: ETHERNET_BROADCAST_ADDRESS_def split: if_splits)
  moreover have "sent n' = sent n @ [ethernet_frame mac (mac_address (interfaces n ! i)) ETHERNET_PROTOCOL_IPV4
      (ipv4_packet (ucast (uptime n)) source destination protocol payload)]"
    using mac(3) by (auto simp: ethernet_send_def Let_def split: if_splits intro: transmit_sent)
  ultimately show ?thesis using mac(2) by blast
qed

section \<open>TCP segments\<close>

lemma tcp_fields:
  fixes c flags sequence acknowledgement r
  defines "p \<equiv> tcp_header c flags sequence acknowledgement @ r"
  shows "length (tcp_header c flags sequence acknowledgement) = 16" "be16_at p 0 = local_port c"
    "be16_at p 2 = peer_port c" "be32_at p 4 = sequence" "be32_at p 8 = acknowledgement" "p ! 12 = 0x50" "p ! 13 = flags"
proof -
  let ?w = "be_of_u16 (of_nat TCP_MAX_PAYLOAD - of_nat (length (receive_buffer c)))"
  let ?a = "be_of_u16 (local_port c)" and ?b = "be_of_u16 (peer_port c)"
  let ?s = "be_of_u32 sequence" and ?k = "be_of_u32 acknowledgement"
  show "length (tcp_header c flags sequence acknowledgement) = 16" by (simp add: tcp_header_def)
  show "be16_at p 0 = local_port c" using be16_at_written [of "[]" "local_port c" "?b @ ?s @ ?k @ [0x50, flags] @ ?w @ r"]
    by (simp add: p_def tcp_header_def)
  show "be16_at p 2 = peer_port c" using be16_at_written [of ?a "peer_port c" "?s @ ?k @ [0x50, flags] @ ?w @ r"]
    by (simp add: p_def tcp_header_def)
  show "be32_at p 4 = sequence" using be32_at_written [of "?a @ ?b" sequence "?k @ [0x50, flags] @ ?w @ r"]
    by (simp add: p_def tcp_header_def)
  show "be32_at p 8 = acknowledgement"
    using be32_at_written [of "?a @ ?b @ ?s" acknowledgement "[0x50, flags] @ ?w @ r"]
    by (simp add: p_def tcp_header_def)
  show "p ! 12 = 0x50" "p ! 13 = flags" by (simp_all add: p_def tcp_header_def nth_append)
qed

definition segment :: "u32 \<Rightarrow> u32 \<Rightarrow> u8 \<Rightarrow> bytes \<Rightarrow> tcp_segment" where
  "segment sequence acknowledgement flags payload =
     \<lparr>seg_sequence = sequence, seg_acknowledgement = acknowledgement, seg_flags = flags, seg_data = payload\<rparr>"

text \<open>The two ends of a connection: each has the other's address and ports.\<close>

definition facing :: "'y tcp_net_scheme \<Rightarrow> 'z tcp_net_scheme \<Rightarrow> bool" where
  "facing a b \<longleftrightarrow> (let own = ip_address (active_configuration a); peer = peer_address (connection a)
     in ipv4_is_configured a \<and> ipv4_is_configured b \<and> length own = 4 \<and> length peer = 4
        \<and> ip_address (active_configuration b) = peer \<and> peer_address (connection b) = own
        \<and> local_port (connection b) = peer_port (connection a) \<and> peer_port (connection b) = local_port (connection a)
        \<and> tcp_state (connection b) \<noteq> CLOSED)"

lemma segment_parsed:
  assumes "facing a b"
  shows "tcp_parse (connection b) (ip_address (active_configuration a)) (peer_address (connection a))
      (tcp_build_segment flags payload sequence acknowledgement a)
    = Some (segment sequence acknowledgement flags payload)"
proof -
  let ?own = "ip_address (active_configuration a)" and ?peer = "peer_address (connection a)"
  define h where "h = tcp_header (connection a) flags sequence acknowledgement"
  define k where "k = ipv4_transport_checksum ?own ?peer IPV4_PROTOCOL_TCP (h @ be_of_u16 0 @ [0, 0] @ payload)"
  have "ipv4_get_configuration a = Some (active_configuration a)"
    using assms by (simp add: facing_def ipv4_get_configuration_def ipv4_is_configured_def Let_def)
  then have p: "tcp_build_segment flags payload sequence acknowledgement a = h @ be_of_u16 (of_nat k) @ [0, 0] @ payload"
    by (simp add: tcp_build_segment_def h_def k_def Let_def)
  note f = tcp_fields [of "connection a" flags sequence acknowledgement, folded h_def]
  have "ipv4_transport_checksum ?own ?peer IPV4_PROTOCOL_TCP (h @ be_of_u16 (of_nat k) @ [0, 0] @ payload) = 0"
    unfolding k_def by (rule transport_checksum_checks) (simp add: f(1))
  moreover have "drop 20 (h @ be_of_u16 (of_nat k) @ [0, 0] @ payload) = payload" using f(1) by simp
  ultimately show ?thesis using assms f
    by (auto simp: p tcp_parse_def facing_def TCP_HEADER_SIZE_def segment_def address_equal_def Let_def)
qed

text \<open>
  C29. A segment that one machine has handed to its card is, when the frame comes in at the
  peer, processed there with exactly its sequence numbers, flags and bytes: the checksums hold, the headers
  are taken off, the right handler is called and the sender's hardware address is learnt.
\<close>

lemma tcp_segment_travels:
  assumes "facing a b" "macs_ok a" "network_default_interface a = Some i"
    and "map_of (eth_handlers b) ETHERNET_PROTOCOL_IPV4 = Some Handle_IPv4"
    and "map_of (ip_handlers b) IPV4_PROTOCOL_TCP = Some Handle_TCP"
    and "tcp_transmit_packet (tcp_build_segment flags payload sequence acknowledgement a) a = (True, a')"
  shows "\<exists>frame. sent a' = sent a @ [frame] \<and>
    ethernet_receive ip_call j frame b =
      tcp_segment_arrives (segment sequence acknowledgement flags payload)
        (arp_learn_ipv4 (ip_address (active_configuration a)) (mac_address (interfaces a ! i)) b)"
proof -
  let ?own = "ip_address (active_configuration a)" and ?peer = "peer_address (connection a)"
  let ?mac = "mac_address (interfaces a ! i)" and ?p = "tcp_build_segment flags payload sequence acknowledgement a"
  note f = assms(1) [unfolded facing_def Let_def]
  have "ipv4_send_from i ?own ?peer IPV4_PROTOCOL_TCP ?p a = (True, a')"
    using assms(3,6) by (auto simp: tcp_transmit_packet_def ipv4_send_def split: if_splits)
  from ipv4_sends [OF this assms(2)] obtain mac where mac: "length mac = 6" "length ?p \<le> 1498"
    "sent a' = sent a @ [ethernet_frame mac ?mac ETHERNET_PROTOCOL_IPV4
      (ipv4_packet (ucast (uptime a)) ?own ?peer IPV4_PROTOCOL_TCP ?p)]" by blast
  have "length ?mac = 6" using assms(2,3) by (auto simp: macs_ok_def network_default_interface_def split: if_splits)
  from frame_arrives [OF mac(1) this assms(4)]
  have "ethernet_receive ip_call j (ethernet_frame mac ?mac ETHERNET_PROTOCOL_IPV4
      (ipv4_packet (ucast (uptime a)) ?own ?peer IPV4_PROTOCOL_TCP ?p)) b =
    ipv4_receive ip_call j ?mac (ipv4_packet (ucast (uptime a)) ?own ?peer IPV4_PROTOCOL_TCP ?p) b" .
  also have "\<dots> = ip_call Handle_TCP j ?own ?peer ?p (arp_learn_ipv4 ?own ?mac b)"
    by (rule packet_arrives) (use f mac(2) assms(5) in \<open>auto simp: ipv4_is_configured_def address_equal_def\<close>)
  also have "\<dots> = tcp_segment_arrives (segment sequence acknowledgement flags payload) (arp_learn_ipv4 ?own ?mac b)"
  proof -
    have "connection (arp_learn_ipv4 ?own ?mac b) = connection b"
      by (simp add: arp_learn_ipv4_def arp_cache_update_def split: option.split)
    then show ?thesis using segment_parsed [OF assms(1)] by (simp add: ip_call_def tcp_receive_def)
  qed
  finally show ?thesis using mac(3) by blast
qed

section \<open>Two machines\<close>

text \<open>A machine with one interface, the peer in its address cache and a connection to the peer.\<close>

definition machine :: "bytes \<Rightarrow> bytes \<Rightarrow> bytes \<Rightarrow> bytes \<Rightarrow> u16 \<Rightarrow> u16 \<Rightarrow> dhcp_net" where
  "machine own mac peer peer_mac port1 port2 = \<lparr>
     interfaces = [\<lparr>if_name = ascii ''e1000'', mac_address = mac, mtu = 1500, link_up = True,
       stats = \<lparr>transmitted_frames = 0, received_frames = 0, dropped_frames = 0, transmit_errors = 0,
         receive_errors = 0\<rparr>\<rparr>],
     receive_queue = replicate 8 (0, []), receive_head = 0, receive_tail = 0, receive_count = 0,
     eth_handlers = [(ETHERNET_PROTOCOL_ARP, Handle_ARP), (ETHERNET_PROTOCOL_IPV4, Handle_IPv4)],
     arp_entries = \<lparr>ac_valid = True, ac_ip = peer, ac_mac = peer_mac\<rparr>
       # replicate 7 \<lparr>ac_valid = False, ac_ip = replicate 4 0, ac_mac = replicate 6 0\<rparr>,
     arp_cache_next = 1,
     active_configuration = \<lparr>ip_address = own, ip_netmask = [255, 255, 255, 0], ip_gateway = replicate 4 0,
       ip_dns = replicate 4 0, lease_seconds = 0\<rparr>,
     active_interface = Some 0,
     ip_handlers = [(UDP_PROTOCOL_NUMBER, Handle_UDP), (IPV4_PROTOCOL_ICMP, Handle_ICMP), (IPV4_PROTOCOL_TCP, Handle_TCP)],
     uptime = 1000, card = [], sent = [],
     udp_handlers = [(DNS_CLIENT_PORT, Handle_DNS), (DHCP_CLIENT_PORT, Handle_DHCP)],
     next_identifier = 0x5052, next_sequence = 1, pending_identifier = 0, pending_sequence = 0,
     pending_destination = replicate 4 0, pending = False, reply_received = False,
     connection = \<lparr>tcp_state = ESTABLISHED, peer_address = peer, local_port = port1, peer_port = port2,
       send_unacknowledged = 100, send_next = 100, receive_next = 501, last_transmit_ms = 0, retries = 0,
       outstanding = False, outstanding_length = 0, outstanding_packet = replicate TCP_OUTSTANDING_CAPACITY 0,
       receive_buffer = []\<rparr>,
     next_ephemeral_port = 49153,
     dns_next_identifier = 0x5052, active_identifier = 0, active_server = replicate 4 0, active_answer = replicate 4 0,
     active_encoded_name = [], active_hostname = [], active_result = 0, resolution_active = False,
     dns_cache = replicate 4 \<lparr>dc_hostname = [], dc_address = replicate 4 0, dc_expires_ms = 0, dc_valid = False\<rparr>,
     next_cache_entry = 0,
     dhcp_state = STOPPED, transaction_id = 0, dhcp_last_transmit_ms = 0, lease_acquired_ms = 0, retry_count = 0,
     offered_address = replicate 4 0, server_address = replicate 4 0, dhcp_interface = None\<rparr>"

definition left_ip :: bytes where "left_ip = [10, 0, 0, 1]"
definition right_ip :: bytes where "right_ip = [10, 0, 0, 2]"
definition left :: dhcp_net where
  "left = machine left_ip (replicate 6 1) right_ip (replicate 6 2) 49152 80"
definition right :: dhcp_net where
  "right = machine right_ip (replicate 6 2) left_ip (replicate 6 1) 80 49152"

lemma left_facing_right: "facing left right" "facing right left"
  by (simp_all add: facing_def left_def right_def machine_def left_ip_def right_ip_def ipv4_is_configured_def
      address_is_zero_def)

lemma machine_macs: "length mac = 6 \<Longrightarrow> length peer_mac = 6 \<Longrightarrow> macs_ok (machine own mac peer peer_mac p q)"
  by (simp add: machine_def macs_ok_def ARP_ADDRESS_CACHE_SIZE_def)

lemma left_transmits:
  assumes "20 \<le> length packet" "length packet \<le> 1000"
  shows "fst (tcp_transmit_packet packet left)"
proof -
  have n: "mtu (interfaces left ! 0) = 1500" "link_up (interfaces left ! 0)" "network_default_interface left = Some 0"
    "card left = []" "ipv4_is_configured left" "ip_address (active_configuration left) = left_ip"
    "peer_address (connection left) = right_ip" "active_interface left = Some 0"
    by (simp_all add: left_def machine_def network_default_interface_def ipv4_is_configured_def left_ip_def address_is_zero_def)
  have b: "\<not> ipv4_is_broadcast right_ip left"
    by (simp add: ipv4_is_broadcast_def left_def machine_def left_ip_def right_ip_def same_under_def address_is_zero_def Let_def)
  have hop: "next_hop right_ip left = right_ip"
    by (simp add: next_hop_def left_def machine_def right_ip_def address_is_zero_def Let_def)
  have mac: "arp_lookup_ipv4 right_ip left = Some (replicate 6 2)"
    by (simp add: arp_lookup_ipv4_def slot_of_def left_def machine_def right_ip_def ARP_ADDRESS_CACHE_SIZE_def upt_rec
        address_equal_def)
  have header: "length (ipv4_packet k left_ip right_ip IPV4_PROTOCOL_TCP packet) = 20 + length packet" for k
    by (simp add: ipv4_packet_def Let_def header_fields(1) left_ip_def right_ip_def ipv4_header_def IPV4_HEADER_SIZE_def)
  have "fst (ethernet_send 0 (replicate 6 2) p (ipv4_packet k left_ip right_ip IPV4_PROTOCOL_TCP packet) left)" for k p
    using assms n header
    by (simp add: ethernet_send_def network_transmit_frame_def card_transmit_def net_sizes ethernet_frame_def Let_def
        left_def machine_def)
  then show ?thesis using assms n b hop mac
    by (simp add: tcp_transmit_packet_def ipv4_send_def ipv4_send_from_def net_sizes Let_def)
qed

lemma tcp_segment_travels_witness:
  "\<exists>frame. sent (snd (tcp_transmit_packet (tcp_build_segment TCP_FLAG_ACK [72, 105] 100 501 left) left))
      = sent left @ [frame] \<and>
    ethernet_receive ip_call 0 frame right =
      tcp_segment_arrives (segment 100 501 TCP_FLAG_ACK [72, 105])
        (arp_learn_ipv4 (ip_address (active_configuration left)) (mac_address (interfaces left ! 0)) right)"
proof (rule tcp_segment_travels [OF left_facing_right(1)])
  show "macs_ok left" unfolding left_def by (rule machine_macs) simp_all
  show "tcp_transmit_packet (tcp_build_segment TCP_FLAG_ACK [72, 105] 100 501 left) left
    = (True, snd (tcp_transmit_packet (tcp_build_segment TCP_FLAG_ACK [72, 105] 100 501 left) left))"
    using left_transmits [of "tcp_build_segment TCP_FLAG_ACK [72, 105] 100 501 left"]
    by (cases "tcp_transmit_packet (tcp_build_segment TCP_FLAG_ACK [72, 105] 100 501 left) left")
      (simp add: tcp_build_segment_def tcp_fields(1) Let_def)
qed (simp_all add: left_def right_def machine_def network_default_interface_def ETHERNET_PROTOCOL_ARP_def
    ETHERNET_PROTOCOL_IPV4_def UDP_PROTOCOL_NUMBER_def IPV4_PROTOCOL_ICMP_def IPV4_PROTOCOL_TCP_def)

end
