(* ===== verification/Tcp_Stream.thy ===== *)
theory Tcp_Stream
  imports Net_Delivery
begin

text \<open>
  What the application reads from a connection: the peer's bytes in order, whatever segments are lost, repeated,
  reordered or cut by the receive buffer. Then two things \<open>net/tcp.c\<close> does not do: keep this when a segment with
  FIN does not fit, and report a failed transmission.
\<close>

section \<open>Sending leaves the connection alone\<close>

lemma frame_sent_connection:
  fixes n :: "'z tcp_net_scheme"
  shows "connection (snd (network_transmit_frame frame n)) = connection n"
    "uptime (snd (network_transmit_frame frame n)) = uptime n"
  by (auto simp: network_transmit_frame_def card_transmit_def count_stat_def Let_def
      split: option.splits list.splits bool.splits)

lemma ethernet_connection:
  fixes n :: "'z tcp_net_scheme"
  shows "connection (snd (ethernet_send i mac protocol payload n)) = connection n"
    "uptime (snd (ethernet_send i mac protocol payload n)) = uptime n"
  by (simp_all add: ethernet_send_def Let_def frame_sent_connection)

lemma ipv4_connection:
  fixes n :: "'z tcp_net_scheme"
  shows "connection (snd (ipv4_send i destination protocol payload n)) = connection n"
    "uptime (snd (ipv4_send i destination protocol payload n)) = uptime n"
  by (auto simp: ipv4_send_def ipv4_send_from_def arp_request_ipv4_def Let_def ethernet_connection split: option.splits)

lemma transmit_connection:
  "connection (snd (tcp_transmit_packet packet n)) = connection n"
  "uptime (snd (tcp_transmit_packet packet n)) = uptime n"
  by (auto simp: tcp_transmit_packet_def ipv4_connection split: option.split)

lemma ack_connection [simp]: "connection (tcp_send_ack n) = connection n" "uptime (tcp_send_ack n) = uptime n"
  by (simp_all add: tcp_send_ack_def Let_def transmit_connection)

lemma on_connection_simps [simp]:
  "connection (on_connection f n) = f (connection n)" "uptime (on_connection f n) = uptime n"
  by (simp_all add: on_connection_def)

section \<open>The receiving side\<close>

definition receiving :: "tcp_connection \<Rightarrow> bytes \<times> u32 \<times> bool" where
  "receiving c = (receive_buffer c, receive_next c, tcp_state c = SYN_SENT)"

lemma receiving_track: "receiving (track len now k c) = receiving c" "receiving (put_outstanding p c) = receiving c"
  by (simp_all add: receiving_def track_def put_outstanding_def)

lemma control_receiving:
  "receiving (connection (snd (tcp_send_control flags tracked n))) = receiving (connection n)"
proof -
  define packet where "packet = tcp_build_segment flags [] (send_next (connection n)) (receive_next (connection n)) n"
  obtain ok m where m: "tcp_transmit_packet packet (on_connection (put_outstanding packet) n) = (ok, m)" by fastforce
  then have "connection m = put_outstanding packet (connection n)"
    using transmit_connection(1) [of packet "on_connection (put_outstanding packet) n"] by simp
  then show ?thesis using m
    by (simp add: tcp_send_control_def Let_def packet_def [symmetric] receiving_track)
qed

lemma send_start_receiving:
  "receiving (connection (snd (tcp_send_start buf n))) = receiving (connection n)"
proof -
  define packet where
    "packet = tcp_build_segment (TCP_FLAG_ACK OR TCP_FLAG_PSH) buf (send_next (connection n)) (receive_next (connection n)) n"
  obtain ok m where m: "tcp_transmit_packet packet (on_connection (put_outstanding packet) n) = (ok, m)" by fastforce
  then have "connection m = put_outstanding packet (connection n)"
    using transmit_connection(1) [of packet "on_connection (put_outstanding packet) n"] by simp
  then show ?thesis using m
    by (simp add: tcp_send_start_def Let_def packet_def [symmetric] receiving_track)
qed

lemma poll_receiving:
  "tcp_state (connection n) \<noteq> SYN_SENT \<Longrightarrow> receiving (connection (tcp_poll n)) = receiving (connection n)"
  using transmit_connection(1) [of "take (outstanding_length (connection n)) (outstanding_packet (connection n))" n]
  by (auto simp: tcp_poll_def Let_def receiving_def split: prod.splits)

lemma close_receiving:
  assumes "tcp_state (connection n) \<noteq> SYN_SENT"
  shows "receiving (connection (snd (tcp_close_start n))) = receiving (connection n)"
proof -
  let ?n = "on_connection (\<lambda>c. c\<lparr>tcp_state := FIN_WAIT\<rparr>) n"
  have "receiving (connection (snd (tcp_send_control (TCP_FLAG_FIN OR TCP_FLAG_ACK) True ?n))) = receiving (connection n)"
    using control_receiving [of "TCP_FLAG_FIN OR TCP_FLAG_ACK" True ?n] assms by (simp add: receiving_def)
  then show ?thesis using assms by (auto simp: tcp_close_start_def receiving_def split: prod.splits)
qed

text \<open>
  The peer sends the bytes \<open>S\<close>; its initial sequence number is \<open>irs\<close>. A segment of it carries some stretch of
  them under the sequence number of its first byte. FIN comes with the last byte or behind it.
\<close>

definition honest :: "bytes \<Rightarrow> u32 \<Rightarrow> tcp_segment \<Rightarrow> bool" where
  "honest S irs g \<longleftrightarrow> (\<exists>i. i + length (seg_data g) \<le> length S \<and> seg_sequence g = irs + 1 + of_nat i
     \<and> seg_data g = take (length (seg_data g)) (drop i S)
     \<and> (seg_flags g AND TCP_FLAG_FIN \<noteq> 0 \<longrightarrow> i + length (seg_data g) = length S))"

text \<open>Space for the data of a segment that also closes the stream.\<close>

definition finishes_in_window :: "tcp_segment \<Rightarrow> tcp_connection \<Rightarrow> bool" where
  "finishes_in_window g c \<longleftrightarrow>
     seg_flags g AND TCP_FLAG_FIN \<noteq> 0 \<longrightarrow> length (seg_data g) \<le> TCP_MAX_PAYLOAD - length (receive_buffer c)"

text \<open>One step of a connection; the second component collects what \<open>tcp_read\<close> has returned.\<close>

inductive tcp_step :: "bytes \<Rightarrow> u32 \<Rightarrow> 'z tcp_net_scheme \<times> bytes \<Rightarrow> 'z tcp_net_scheme \<times> bytes \<Rightarrow> bool"
  for S :: bytes and irs :: u32 where
  arrives: "tcp_parse (connection n) source destination packet = Some g \<Longrightarrow> honest S irs g \<Longrightarrow>
    finishes_in_window g (connection n) \<Longrightarrow>
    tcp_step S irs (n, got) (tcp_receive i source destination packet n, got)"
| rejected: "tcp_parse (connection n) source destination packet = None \<Longrightarrow>
    tcp_step S irs (n, got) (tcp_receive i source destination packet n, got)"
| reads: "tcp_read capacity n = (Some b, m) \<Longrightarrow> tcp_step S irs (n, got) (m, got @ b)"
| polls: "tcp_step S irs (n, got) (tcp_poll n, got)"
| others: "connection m = connection n \<Longrightarrow> tcp_step S irs (n, got) (m, got)"
| sends: "tcp_step S irs (n, got) (snd (tcp_send_start buf n), got)"
| closes: "tcp_step S irs (n, got) (snd (tcp_close_start n), got)"
| closed: "tcp_step S irs (n, got) (tcp_close_end n, got)"

definition in_order :: "bytes \<Rightarrow> u32 \<Rightarrow> 'z tcp_net_scheme \<times> bytes \<Rightarrow> bool" where
  "in_order S irs x \<longleftrightarrow> (case receiving (connection (fst x)) of (b, nxt, syn) \<Rightarrow>
     \<not> syn \<and> length b \<le> TCP_MAX_PAYLOAD
     \<and> (\<exists>k \<le> length S. snd x @ b = take k S
          \<and> (nxt = irs + 1 + of_nat k \<or> k = length S \<and> nxt = irs + 1 + of_nat k + 1)))"

lemma acknowledge_receiving: "receiving (tcp_acknowledge g c) = receiving c"
  by (simp add: tcp_acknowledge_def receiving_def Let_def)

definition arrived :: "tcp_segment \<Rightarrow> tcp_connection \<Rightarrow> tcp_connection" where
  "arrived g c =
     (if seg_sequence g \<noteq> receive_next c then c
      else (let c = (if seg_data g \<noteq> [] then tcp_accept g c else c)
            in if seg_flags g AND TCP_FLAG_FIN \<noteq> 0 then tcp_finish c else c))"

lemma arrives_connection:
  assumes "tcp_state (connection n) \<noteq> SYN_SENT" "seg_flags g AND TCP_FLAG_RST = 0"
  shows "connection (tcp_segment_arrives g n) = arrived g (tcp_acknowledge g (connection n))"
  using assms by (simp add: tcp_segment_arrives_def arrived_def Let_def)

lemma arrived_receiving:
  "receiving (arrived g c) =
     (let r = length (receive_buffer c); m = min (TCP_MAX_PAYLOAD - r) (length (seg_data g))
      in if seg_sequence g \<noteq> receive_next c then receiving c
         else (receive_buffer c @ take (TCP_MAX_PAYLOAD - r) (seg_data g),
               receive_next c + of_nat m + (if seg_flags g AND TCP_FLAG_FIN \<noteq> 0 then 1 else 0),
               seg_flags g AND TCP_FLAG_FIN = 0 \<and> tcp_state c = SYN_SENT))"
  by (auto simp: arrived_def receiving_def tcp_accept_def tcp_finish_def Let_def min.commute)

lemma sequence_number:
  assumes "irs + 1 + of_nat i = (irs + 1 + of_nat k :: u32)" "i < 4294967296" "k < 4294967296"
  shows "i = k"
proof -
  have "(of_nat i :: u32) = of_nat k" using assms(1) by simp
  then have "unat (of_nat i :: u32) = unat (of_nat k :: u32)" by simp
  then show ?thesis using assms(2,3) by (simp add: unat_of_nat)
qed

lemma arrived_in_order:
  assumes "honest S irs g" "finishes_in_window g c" "length S + 1 < 4294967296"
    and "receiving c = (b, nxt, False)" "length b \<le> TCP_MAX_PAYLOAD"
    and "got @ b = take k S" "k \<le> length S"
    and "nxt = irs + 1 + of_nat k \<or> k = length S \<and> nxt = irs + 1 + of_nat k + 1"
  shows "\<exists>b' nxt' k'. receiving (arrived g c) = (b', nxt', False) \<and> length b' \<le> TCP_MAX_PAYLOAD \<and> k' \<le> length S
    \<and> got @ b' = take k' S \<and> (nxt' = irs + 1 + of_nat k' \<or> k' = length S \<and> nxt' = irs + 1 + of_nat k' + 1)"
proof (cases "seg_sequence g = nxt")
  case False
  then have "arrived g c = c" using assms(4) by (auto simp: arrived_def receiving_def)
  then show ?thesis using assms(4-8) by auto
next
  case True
  from assms(1) obtain i where i: "i + length (seg_data g) \<le> length S" "seg_sequence g = irs + 1 + of_nat i"
    "seg_data g = take (length (seg_data g)) (drop i S)"
    "seg_flags g AND TCP_FLAG_FIN \<noteq> 0 \<longrightarrow> i + length (seg_data g) = length S" by (auto simp: honest_def)
  have "i = k"
  proof -
    have small: "i < 4294967296" "k < 4294967296" "k + 1 < 4294967296" using i(1) assms(3,7) by auto
    show ?thesis
      using assms(8)
    proof
      assume "nxt = irs + 1 + of_nat k"
      then show ?thesis using sequence_number [of irs i k] True i(2) small by simp
    next
      assume a: "k = length S \<and> nxt = irs + 1 + of_nat k + 1"
      then have "irs + 1 + of_nat i = (irs + 1 + of_nat (k + 1) :: u32)" using True i(2) by (simp add: add.assoc)
      then have "i = k + 1" using sequence_number [of irs i "k + 1"] small by simp
      then show ?thesis using a i(1) by simp
    qed
  qed
  define m where "m = min (TCP_MAX_PAYLOAD - length b) (length (seg_data g))"
  have fields: "receive_buffer c = b" "receive_next c = nxt" "tcp_state c \<noteq> SYN_SENT"
    using assms(4) by (auto simp: receiving_def)
  have taken: "take (TCP_MAX_PAYLOAD - length b) (seg_data g) = take m (drop k S)"
  proof -
    have "take (TCP_MAX_PAYLOAD - length b) (seg_data g) = take m (seg_data g)" by (simp add: m_def min_def)
    also have "\<dots> = take m (take (length (seg_data g)) (drop k S))" using i(3) \<open>i = k\<close> by simp
    also have "\<dots> = take m (drop k S)" by (simp add: m_def min.absorb1)
    finally show ?thesis .
  qed
  have full: "k + m \<le> length S" "m \<le> TCP_MAX_PAYLOAD - length b" using i(1) \<open>i = k\<close> by (auto simp: m_def)
  have "got @ (b @ take m (drop k S)) = take (k + m) S"
    using assms(6) full(1) by (simp add: take_add flip: append_assoc)
  moreover have "length (b @ take m (drop k S)) \<le> TCP_MAX_PAYLOAD" using full assms(5) by simp
  moreover have nxt: "nxt = irs + 1 + of_nat k" using True i(2) \<open>i = k\<close> by simp
  moreover have "k + m = length S" if "seg_flags g AND TCP_FLAG_FIN \<noteq> 0"
    using i(4) assms(2) \<open>i = k\<close> that fields(1) by (simp add: finishes_in_window_def m_def)
  moreover have "receiving (arrived g c) = (b @ take m (drop k S),
      irs + 1 + of_nat (k + m) + (if seg_flags g AND TCP_FLAG_FIN \<noteq> 0 then 1 else 0), False)"
    using True fields taken nxt by (simp add: arrived_receiving Let_def m_def [symmetric] add.assoc)
  ultimately show ?thesis using full(1)
    by (intro exI [of _ "b @ take m (drop k S)"]
        exI [of _ "irs + 1 + of_nat (k + m) + (if seg_flags g AND TCP_FLAG_FIN \<noteq> 0 then 1 else 0)"] exI [of _ "k + m"]) auto
qed

lemma step_in_order:
  assumes "tcp_step S irs x y" "length S + 1 < 4294967296" "in_order S irs x"
  shows "in_order S irs y"
proof -
  have same: "in_order S irs (m, got)"
    if "receiving (connection m) = receiving (connection n)" "in_order S irs (n, got)" for m n :: "'a tcp_net_scheme" and got
    using that by (simp add: in_order_def)
  show ?thesis using assms(1,3)
  proof cases
    case (arrives n source destination packet g got i)
    have n: "tcp_state (connection n) \<noteq> SYN_SENT" using assms(3) arrives(1) by (auto simp: in_order_def receiving_def)
    have y: "y = (tcp_segment_arrives g n, got)" using arrives by (simp add: tcp_receive_def)
    show ?thesis
    proof (cases "seg_flags g AND TCP_FLAG_RST = 0")
      case False
      then have "receiving (connection (tcp_segment_arrives g n)) = receiving (connection n)"
        using n by (simp add: tcp_segment_arrives_def Let_def receiving_def)
      then show ?thesis using y arrives(1) assms(3) by (simp add: same)
    next
      case True
      let ?c = "tcp_acknowledge g (connection n)"
      obtain b nxt k where r: "receiving ?c = (b, nxt, False)" "length b \<le> TCP_MAX_PAYLOAD" "got @ b = take k S"
        "k \<le> length S" "nxt = irs + 1 + of_nat k \<or> k = length S \<and> nxt = irs + 1 + of_nat k + 1"
        using assms(3) arrives(1) by (auto simp: in_order_def acknowledge_receiving split: prod.splits)
      have "finishes_in_window g ?c" using arrives(5) by (simp add: finishes_in_window_def tcp_acknowledge_def Let_def)
      from arrived_in_order [OF arrives(4) this assms(2) r(1,2,3,4,5)]
      show ?thesis using y arrives_connection [OF n True] by (auto simp: in_order_def)
    qed
  next
    case (rejected n source destination packet got i)
    then show ?thesis using assms(3) by (simp add: tcp_receive_def)
  next
    case (reads capacity n b m got)
    have "receive_buffer (connection n) = b @ receive_buffer (connection m)"
      "receive_next (connection m) = receive_next (connection n)" "tcp_state (connection m) = tcp_state (connection n)"
      using reads(3) by (auto simp: tcp_read_def Let_def split: if_splits)
    then show ?thesis using assms(3) reads(1,2) by (auto simp: in_order_def receiving_def)
  next
    case (polls n got)
    then show ?thesis using assms(3) same [OF poll_receiving] by (auto simp: in_order_def receiving_def)
  next
    case (others m n got)
    then show ?thesis using assms(3) by (simp add: in_order_def)
  next
    case (sends n got buf)
    then show ?thesis using assms(3) same [OF send_start_receiving] by simp
  next
    case (closes n got)
    have "receiving (connection (snd (tcp_close_start n))) = receiving (connection n)"
      if "tcp_state (connection n) \<noteq> SYN_SENT"
      using that by (rule close_receiving)
    then show ?thesis using assms(3) closes same by (auto simp: in_order_def receiving_def)
  next
    case (closed n got)
    have "receiving (connection (tcp_close_end n)) = receiving (connection n)"
      if "tcp_state (connection n) \<noteq> SYN_SENT"
      using that by (simp add: tcp_close_end_def receiving_def)
    then show ?thesis using assms(3) closed same by (auto simp: in_order_def receiving_def)
  qed
qed

lemma steps_in_order:
  assumes "(tcp_step S irs)\<^sup>*\<^sup>* x y" "length S + 1 < 4294967296" "in_order S irs x"
  shows "in_order S irs y"
  using assms(1)
proof induction
  case base
  show ?case by (rule assms(3))
next
  case (step y z)
  then show ?case by (blast intro: step_in_order assms(2))
qed

text \<open>
  C30. However the peer's segments are lost, repeated, reordered or cut, and however they alternate with
  reads, timer ticks, sends and a close: what the application has read so far, followed by what waits in the
  receive buffer, is a prefix of the bytes the peer sends, and the buffer never holds more than 512 bytes. Segments
  whose checksum or addresses are wrong change nothing. Two things are asked of the peer: a segment with FIN arrives
  only when its data fit in the receive buffer (\<open>finishes_in_window\<close>; otherwise bytes are lost, \<open>tcp_finish_cut\<close>),
  and the stream with its FIN is shorter than the 2^32 sequence numbers.
\<close>

theorem tcp_in_order:
  assumes "(tcp_step S irs)\<^sup>*\<^sup>* (n, []) (m, got)" "length S + 1 < 4294967296"
    and "tcp_state (connection n) = ESTABLISHED" "receive_buffer (connection n) = []"
    and "receive_next (connection n) = irs + 1"
  shows "(\<exists>k \<le> length S. got @ receive_buffer (connection m) = take k S)
    \<and> length (receive_buffer (connection m)) \<le> TCP_MAX_PAYLOAD"
proof -
  have "in_order S irs (n, [])" using assms(3-5) by (auto simp: in_order_def receiving_def intro: exI [of _ 0])
  from steps_in_order [OF assms(1,2) this] show ?thesis by (auto simp: in_order_def receiving_def)
qed

lemma right_receives:
  assumes "length payload \<le> 100"
  defines "m \<equiv> tcp_receive 0 left_ip right_ip (tcp_build_segment TCP_FLAG_ACK payload 501 100 left) right"
  shows "tcp_parse (connection right) left_ip right_ip (tcp_build_segment TCP_FLAG_ACK payload 501 100 left)
      = Some (segment 501 100 TCP_FLAG_ACK payload)"
    "receive_buffer (connection m) = payload" "tcp_state (connection m) = ESTABLISHED"
proof -
  have a: "ip_address (active_configuration left) = left_ip" "peer_address (connection left) = right_ip"
    by (simp_all add: left_def machine_def)
  show p: "tcp_parse (connection right) left_ip right_ip (tcp_build_segment TCP_FLAG_ACK payload 501 100 left)
      = Some (segment 501 100 TCP_FLAG_ACK payload)"
    using segment_parsed [OF left_facing_right(1), of TCP_FLAG_ACK payload 501 100] by (simp add: a)
  have r: "receive_buffer (connection right) = []" "receive_next (connection right) = 501"
    "tcp_state (connection right) = ESTABLISHED" by (simp_all add: right_def machine_def)
  have m: "connection m = arrived (segment 501 100 TCP_FLAG_ACK payload)
      (tcp_acknowledge (segment 501 100 TCP_FLAG_ACK payload) (connection right))"
    using p r by (simp add: m_def tcp_receive_def arrives_connection segment_def tcp_flags)
  have "tcp_state (connection m) = ESTABLISHED"
    by (simp add: m arrived_def tcp_accept_def tcp_acknowledge_def segment_def tcp_flags r Let_def)
  then show "receive_buffer (connection m) = payload" "tcp_state (connection m) = ESTABLISHED"
    using assms(1) by (simp_all add: m arrived_def tcp_accept_def tcp_acknowledge_def segment_def tcp_flags r Let_def
        TCP_MAX_PAYLOAD_def)
qed

lemma tcp_in_order_witness:
  "\<exists>m. (tcp_step [72, 105] 500)\<^sup>*\<^sup>* (right, []) (m, [72]) \<and> receive_buffer (connection m) = [105] \<and>
    (\<exists>k \<le> 2. [72] @ receive_buffer (connection m) = take k [72, 105])"
proof -
  let ?packet = "tcp_build_segment TCP_FLAG_ACK [72, 105] 501 100 left"
  define n where "n = tcp_receive 0 left_ip right_ip ?packet right"
  note r = right_receives [of "[72, 105]", folded n_def, simplified]
  have first: "tcp_step [72, 105] 500 (right, []) (n, [])"
    unfolding n_def
    by (rule tcp_step.arrives [OF r(1)])
      (auto simp: honest_def finishes_in_window_def segment_def tcp_flags intro: exI [of _ 0])
  obtain m where m: "tcp_read 1 n = (Some [72], m)" "receive_buffer (connection m) = [105]"
    using r(2) by (auto simp: tcp_read_def Let_def)
  have "tcp_step [72, 105] 500 (n, []) (m, [] @ [72])" by (rule tcp_step.reads [OF m(1)])
  with first have steps: "(tcp_step [72, 105] 500)\<^sup>*\<^sup>* (right, []) (m, [72])" by auto
  have "(\<exists>k \<le> length [72, 105 :: u8]. [72] @ receive_buffer (connection m) = take k [72, 105])
    \<and> length (receive_buffer (connection m)) \<le> TCP_MAX_PAYLOAD"
    by (rule tcp_in_order [OF steps]) (simp_all add: right_def machine_def)
  then show ?thesis using steps m(2) by (intro exI [of _ m]) (simp add: numeral_2_eq_2)
qed

section \<open>Two flaws\<close>

text \<open>
  A segment with FIN of which only a part fits: the sequence number of FIN is counted behind the accepted bytes,
  so the rest of the data is lost and the connection counts as closed by the peer.
\<close>

lemma tcp_finish_cut:
  assumes "tcp_state (connection n) = ESTABLISHED" "seg_sequence g = receive_next (connection n)"
    and "seg_flags g = TCP_FLAG_FIN OR TCP_FLAG_ACK"
    and "length (receive_buffer (connection n)) = TCP_MAX_PAYLOAD" "seg_data g \<noteq> []"
  defines "m \<equiv> tcp_segment_arrives g n"
  shows "receive_buffer (connection m) = receive_buffer (connection n)"
    "receive_next (connection m) = receive_next (connection n) + 1" "tcp_state (connection m) = CLOSE_WAIT"
  using assms(1-5) arrives_connection [of n g]
  by (simp_all add: m_def arrived_def tcp_acknowledge_def tcp_accept_def tcp_finish_def Let_def tcp_flags)

text \<open>
  \<open>tcp_send\<close> takes the end of the wait for success when no segment is outstanding any more. That is also so
  after a reset by the peer and after the last retransmission: the call then returns 0 in the state \<open>RESET\<close>.
\<close>

lemma send_start_connection:
  assumes "tcp_send_start buf n = (True, m)"
  shows "outstanding (connection m)" "tcp_state (connection m) = tcp_state (connection n)"
proof -
  define packet where
    "packet = tcp_build_segment (TCP_FLAG_ACK OR TCP_FLAG_PSH) buf (send_next (connection n)) (receive_next (connection n)) n"
  obtain ok k where k: "tcp_transmit_packet packet (on_connection (put_outstanding packet) n) = (ok, k)" by fastforce
  then have "connection k = put_outstanding packet (connection n)"
    using transmit_connection(1) [of packet "on_connection (put_outstanding packet) n"] by simp
  then show "outstanding (connection m)" "tcp_state (connection m) = tcp_state (connection n)"
    using assms k by (auto simp: tcp_send_start_def Let_def packet_def [symmetric] track_def put_outstanding_def
        split: if_splits)
qed

lemma tcp_send_reset:
  assumes "tcp_state (connection n) = ESTABLISHED" "\<not> outstanding (connection n)" "buf \<noteq> []"
    and "length buf \<le> TCP_MAX_PAYLOAD" "tcp_send_start buf n = (True, m)" "0 < timeout"
    and "tcp_state (connection (poll m)) = RESET" "\<not> outstanding (connection (poll m))"
  shows "tcp_send poll buf timeout n = Some (0, poll m)"
proof -
  have "wait_while poll (\<lambda>n. outstanding (connection n) \<and> tcp_state (connection n) = ESTABLISHED) (uptime m) timeout m
      = Some (poll m)"
    using send_start_connection [OF assms(5)] assms(1,6,8) by (simp add: wait_while_def while_option_unfold)
  then show ?thesis using assms by (simp add: tcp_send_def)
qed

end
