(* ===== verification/Dhcp_Lease.thy ===== *)
theory Dhcp_Lease
  imports Tcp_Stream
begin

text \<open>
  The lease of \<open>net/dhcp.c\<close>: its end is looked at in the state \<open>BOUND\<close> only, and that state is left at half of
  the lease.
\<close>

lemma frame_sent_configuration:
  fixes n :: "'z net_scheme"
  shows "active_configuration (snd (network_transmit_frame frame n)) = active_configuration n"
  by (simp add: network_transmit_frame_def card_transmit_def count_stat_def Let_def
      split: option.splits list.splits bool.splits)

lemma ipv4_sent_configuration:
  fixes n :: "'z net_scheme"
  shows "active_configuration (snd (ipv4_send_from i source destination protocol payload n)) = active_configuration n"
    "active_configuration (snd (ipv4_send i destination protocol payload n)) = active_configuration n"
  by (auto simp: ipv4_send_def ipv4_send_from_def arp_request_ipv4_def ethernet_send_def Let_def frame_sent_configuration
      split: option.splits)

lemma dhcp_sent_configuration:
  fixes n :: "'z dhcp_net_scheme"
  shows "active_configuration (snd (dhcp_send t n)) = active_configuration n"
proof -
  have "active_configuration (snd (udp_send i source destination p q payload m)) = active_configuration m"
    for i source destination p q payload and m :: "'z dhcp_net_scheme"
    by (auto simp: udp_send_def Let_def ipv4_sent_configuration)
  then show ?thesis by (auto simp: dhcp_send_def Let_def split: option.split)
qed

text \<open>A lease that is being renewed never ends: no tick of the timer takes the address away.\<close>

lemma dhcp_lease_kept:
  assumes "dhcp_state n = RENEWING \<or> dhcp_state n = REBINDING"
  shows "active_configuration (dhcp_poll n) = active_configuration n"
proof -
  have "active_configuration (dhcp_retry m) = active_configuration m" for m :: "'a dhcp_net_scheme"
  proof -
    define k where "k = m\<lparr>retry_count := add32 (retry_count m) 1\<rparr>"
    have k: "active_configuration k = active_configuration m" by (simp add: k_def)
    have "active_configuration (case dhcp_send t k of (ok, n) \<Rightarrow> if ok then n else n\<lparr>dhcp_state := FAILED\<rparr>)
        = active_configuration m" for t
      using dhcp_sent_configuration [of t k] k by (auto split: prod.split)
    then show ?thesis by (simp add: dhcp_retry_def Let_def k_def)
  qed
  then show ?thesis using assms by (auto simp: dhcp_poll_def Let_def dhcp_sent_configuration)
qed

end
