(* ===== verification/Http_Parse.thy ===== *)
theory Http_Parse
  imports Http
begin

text \<open>
  What \<open>net/http.c\<close> makes of a response: chunked bodies are put together again, and the last header line loses
  its last byte.
\<close>

section \<open>Decimal numbers\<close>

lemma digit_bytes:
  assumes "d < 10"
  shows "is_digit (of_nat (48 + d))" "unat ((of_nat (48 + d) :: u8) - 48) = d"
proof -
  have "unat (of_nat (48 + d) :: u8) = 48 + d"
    by (subst unat_of_nat) (use assms in simp)
  then show "is_digit (of_nat (48 + d))" using assms
    by (simp add: is_digit_def word_le_nat_alt)
  have "(of_nat (48 + d) :: u8) - 48 = of_nat d" by simp
  then show "unat ((of_nat (48 + d) :: u8) - 48) = d" using assms by (simp add: unat_of_nat)
qed

lemma port_digits_start: "port_digits v \<noteq> [] \<and> is_digit (hd (port_digits v))"
proof (induction v rule: port_digits.induct)
  case (1 v)
  show ?case
  proof (cases "v < 10")
    case True
    then show ?thesis using digit_bytes(1) [of v] by (simp add: port_digits.simps [of v])
  next
    case False
    then show ?thesis using 1 by (simp add: port_digits.simps [of v])
  qed
qed

lemma decimal_digits_append:
  "w < 4294967296 \<Longrightarrow> decimal_digits 0 (port_digits w @ rest) = decimal_digits w rest"
proof (induction w arbitrary: rest rule: port_digits.induct)
  case (1 w)
  show ?case
  proof (cases "w < 10")
    case True
    then show ?thesis using digit_bytes [OF True] by (simp add: port_digits.simps [of w])
  next
    case False
    let ?d = "w mod 10"
    have "port_digits w @ rest = port_digits (w div 10) @ (of_nat (48 + ?d) # rest)"
      using False by (simp add: port_digits.simps [of w])
    moreover have "decimal_digits 0 (port_digits (w div 10) @ (of_nat (48 + ?d) # rest))
        = decimal_digits (w div 10) (of_nat (48 + ?d) # rest)"
      using "1.IH" [OF False] "1.prems" by simp
    moreover have "\<not> (0xFFFFFFFF - ?d) div 10 < w div 10"
    proof -
      have "w = 10 * (w div 10) + ?d" by simp
      then have "10 * (w div 10) \<le> 0xFFFFFFFF - ?d" using "1.prems" by linarith
      then have "10 * (w div 10) div 10 \<le> (0xFFFFFFFF - ?d) div 10" by (rule div_le_mono)
      then show ?thesis by simp
    qed
    ultimately show ?thesis using digit_bytes [of ?d] by simp
  qed
qed

lemma decimal_digits_all: "w < 4294967296 \<Longrightarrow> decimal_digits 0 (port_digits w) = Some w"
  using decimal_digits_append [of w "[]"] by simp

lemma port_digits_butlast: "10 \<le> w \<Longrightarrow> butlast (port_digits w) = port_digits (w div 10)"
  by (simp add: port_digits.simps [of w])

lemma port_digits_no_cr: "13 \<notin> set (port_digits w)"
proof (induction w rule: port_digits.induct)
  case (1 w)
  have "(13 :: u8) \<noteq> of_nat (48 + d)" if "d < 10" for d
  proof -
    have "\<not> is_digit 13" by (simp add: is_digit_def)
    then show ?thesis using digit_bytes(1) [OF that] by metis
  qed
  then show ?case using 1 by (auto simp: port_digits.simps [of w] simp del: of_nat_add)
qed

section \<open>Lines\<close>

lemma header_end_skip:
  "13 \<notin> set l \<Longrightarrow> 4 \<le> length rest \<Longrightarrow> http_find_header_end (l @ rest) i = http_find_header_end rest (i + length l)"
proof (induction l arbitrary: i)
  case (Cons c l)
  have "3 \<le> length (l @ rest)" using Cons.prems(2) by simp
  then obtain x y z r where r: "l @ rest = x # y # z # r"
    by (cases "l @ rest" rule: remdups_adj.cases; cases "tl (tl (l @ rest))") auto
  have "http_find_header_end ((c # l) @ rest) i = http_find_header_end (l @ rest) (i + 1)"
    using Cons.prems(1) r by simp
  then show ?case using Cons by simp
qed simp

lemma header_end_line:
  "c \<noteq> 13 \<Longrightarrow> 2 \<le> length rest \<Longrightarrow> http_find_header_end (crlf @ c # rest) i = http_find_header_end (c # rest) (i + 2)"
  by (cases rest rule: remdups_adj.cases) (auto simp: crlf_def)

lemma header_end_here: "http_find_header_end (crlf @ crlf @ body) i = Some (i + 4)"
  by (simp add: crlf_def)

lemma line_length_to: "13 \<notin> set l \<Longrightarrow> line_length (l @ crlf @ rest) = length l"
  by (induction l rule: line_length.induct) (auto simp: crlf_def)

text \<open>The line before the empty one stops short.\<close>

lemma line_length_last: "13 \<notin> set l \<Longrightarrow> line_length l = length l - 1"
  by (induction l rule: line_length.induct) auto

text \<open>A header as its lines.\<close>

definition line_ok :: "bytes \<Rightarrow> bool" where "line_ok l \<longleftrightarrow> l \<noteq> [] \<and> 13 \<notin> set l"

definition lines_text :: "bytes list \<Rightarrow> bytes" where "lines_text ls = concat (map (\<lambda>l. l @ crlf) ls)"

lemma header_end_lines:
  "list_all line_ok (l # ls) \<Longrightarrow>
   http_find_header_end (lines_text (l # ls) @ crlf @ body) i = Some (i + length (lines_text (l # ls)) + 2)"
proof (induction ls arbitrary: l i)
  case Nil
  then have "http_find_header_end (l @ crlf @ crlf @ body) i = http_find_header_end (crlf @ crlf @ body) (i + length l)"
    by (intro header_end_skip) (simp_all add: line_ok_def crlf_def)
  then show ?case using header_end_here [of body "i + length l"] by (simp add: lines_text_def crlf_def)
next
  case (Cons k ls)
  let ?rest = "lines_text (k # ls) @ crlf @ body"
  obtain c cs where c: "k = c # cs" "c \<noteq> 13" using Cons.prems by (cases k) (auto simp: line_ok_def)
  have rest: "?rest = c # cs @ crlf @ lines_text ls @ crlf @ body" by (simp add: lines_text_def c(1))
  have "http_find_header_end (l @ crlf @ ?rest) i = http_find_header_end (crlf @ ?rest) (i + length l)"
    using Cons.prems by (intro header_end_skip) (simp_all add: line_ok_def crlf_def)
  also have "\<dots> = http_find_header_end ?rest (i + length l + 2)"
    unfolding rest by (rule header_end_line [OF c(2)]) (simp add: crlf_def)
  also have "\<dots> = Some (i + length l + 2 + length (lines_text (k # ls)) + 2)"
    using Cons.prems by (intro Cons.IH) simp
  finally show ?case by (simp add: lines_text_def crlf_def)
qed

text \<open>A line that says nothing of the length of the body.\<close>

definition plain_line :: "bytes \<Rightarrow> bool" where
  "plain_line l \<longleftrightarrow> line_ok l \<and> (case header_field l of None \<Rightarrow> True
     | Some (name, v) \<Rightarrow> \<not> http_equal_case name (ascii ''Content-Length'')
         \<and> \<not> http_equal_case name (ascii ''Transfer-Encoding''))"

lemma scan_plain_lines:
  "list_all plain_line ls \<Longrightarrow> http_scan_header (lines_text ls @ rest) len False = http_scan_header rest len False"
proof (induction ls)
  case (Cons l ls)
  let ?h = "l @ crlf @ lines_text ls @ rest"
  have l: "line_length ?h = length l" "l \<noteq> []"
    using Cons.prems line_length_to by (auto simp: plain_line_def line_ok_def)
  have "\<not> length ?h < 2" "take (length l) ?h = l" "drop (length l + 2) ?h = lines_text ls @ rest"
    by (simp_all add: crlf_def)
  then have "http_scan_header ?h len False = http_scan_header (lines_text ls @ rest) len False"
    using Cons.prems l by (subst http_scan_header.simps) (auto simp: Let_def plain_line_def split: option.split)
  then show ?case using Cons by (simp add: lines_text_def)
qed (simp add: lines_text_def)

definition status_line :: bytes where "status_line = ascii ''HTTP/1.0 200 OK''"
definition length_name :: bytes where "length_name = ascii ''Content-Length: ''"

lemma length_name_facts:
  "13 \<notin> set length_name" "length length_name = 16"
  "takeWhile (\<lambda>c. c \<noteq> 58) (length_name @ v) = ascii ''Content-Length''"
  "dropWhile (\<lambda>c. c \<noteq> 58) (length_name @ v) = 58 # 32 # v"
  by (simp_all add: length_name_def ascii_def)

lemma last_line:
  assumes "n < 4294967296"
  shows "http_scan_header (length_name @ port_digits n) None False =
    (if n < 10 then None else Some (Some (n div 10), False))"
proof -
  let ?h = "length_name @ port_digits n" and ?v = "butlast (port_digits n)"
  have "13 \<notin> set ?h" using length_name_facts(1) port_digits_no_cr by auto
  then have k: "line_length ?h = length ?h - 1" by (rule line_length_last)
  have cut: "take (length ?h - 1) ?h = length_name @ ?v"
  proof -
    have "take (length ?h - 1) ?h = butlast ?h" by (simp add: butlast_conv_take)
    then show ?thesis using port_digits_start [of n] by (simp add: butlast_append)
  qed
  have long: "\<not> length ?h < 2" "length ?h - 1 \<noteq> 0" "drop (length ?h - 1 + 2) ?h = []"
    using length_name_facts(2) by simp_all
  note scan = http_scan_header.simps [of ?h] http_scan_header.simps [of "[]"]
  show ?thesis
  proof (cases "n < 10")
    case True
    then have v: "?v = []" by (simp add: port_digits.simps [of n])
    then have "header_field (length_name @ ?v) = Some (ascii ''Content-Length'', [])"
      by (simp add: header_field_def length_name_facts(3,4) [of "[]", simplified] blank_def)
    then show ?thesis using True cut k long v
      by (simp add: scan Let_def http_equal_case_def http_parse_decimal_def del: One_nat_def)
  next
    case False
    then have n: "10 \<le> n" by simp
    have v: "?v = port_digits (n div 10)" by (rule port_digits_butlast [OF n])
    obtain c cs where c: "port_digits (n div 10) = c # cs" "is_digit c"
      using port_digits_start [of "n div 10"] by (cases "port_digits (n div 10)") auto
    have "\<not> blank c" using c(2) by (auto simp: is_digit_def blank_def)
    then have field: "header_field (length_name @ ?v) = Some (ascii ''Content-Length'', port_digits (n div 10))"
      "http_parse_decimal (port_digits (n div 10)) = Some (n div 10)"
      using c v decimal_digits_all [of "n div 10"] assms
      by (simp_all add: header_field_def length_name_facts blank_def http_parse_decimal_def)
    then show ?thesis using False cut k long by (simp add: scan Let_def http_equal_case_def del: One_nat_def)
  qed
qed

section \<open>The length of the body\<close>

text \<open>
  C32. The last line of the header is read without its last byte. So when that line is
  \<open>Content-Length\<close> with the length of the body, and no line before it speaks of the length or the encoding of the
  body, a complete response is never received as it was sent: a body of ten bytes or more is reported as received and
  cut to a tenth of its length, a shorter one is refused as malformed. The body may have any length below 4 GiB
  that fits the caller's buffer.
\<close>

lemma http_length_cut:
  assumes "line_ok status" "http_parse_status status = Some code" "list_all plain_line ls"
    and "length body < 4294967296" "length body \<le> body_capacity"
  shows "case http_parse_response
      (lines_text (status # ls @ [length_name @ port_digits (length body)]) @ crlf @ body) body_capacity of
      Inl error \<Rightarrow> length body < 10 \<and> error = - 1
    | Inr r \<Rightarrow> 10 \<le> length body \<and> status_code r = code \<and> http_body r = take (length body div 10) body"
    (is "case http_parse_response ?raw _ of Inl error \<Rightarrow> _ error | Inr r \<Rightarrow> _ r")
proof -
  define last where "last = length_name @ port_digits (length body)"
  define raw where "raw = ?raw"
  define head where "head = status @ crlf @ lines_text ls @ last"
  have "line_ok last"
    using length_name_facts(1) port_digits_no_cr by (auto simp: last_def line_ok_def length_name_def ascii_def)
  moreover have "list_all line_ok ls" using assms(3) by (auto simp: list_all_iff plain_line_def)
  ultimately have "http_find_header_end raw 0 = Some (length (lines_text (status # ls @ [last])) + 2)"
    using header_end_lines [of status "ls @ [last]" body 0] assms(1) by (simp add: raw_def last_def)
  moreover have whole: "lines_text (status # ls @ [last]) = head @ crlf" by (simp add: head_def lines_text_def)
  ultimately have e: "http_find_header_end raw 0 = Some (length head + 4)" by (simp add: crlf_def)
  have "raw = head @ crlf @ crlf @ body" using whole by (simp add: raw_def last_def)
  then have h: "take (length head) raw = head" "drop (length head + 4) raw = body" by (simp_all add: crlf_def)
  have k: "line_length head = length status" "take (length status) head = status"
    "drop (Suc (Suc (length status))) head = lines_text ls @ last"
    using line_length_to assms(1) by (simp_all add: head_def line_ok_def) (simp add: crlf_def)
  have "http_scan_header (lines_text ls @ last) None False =
      (if length body < 10 then None else Some (Some (length body div 10), False))"
    unfolding last_def by (simp only: scan_plain_lines [OF assms(3)] last_line [OF assms(4)])
  moreover have "\<not> length body < length body div 10" by simp
  ultimately show ?thesis using assms(2,5) unfolding raw_def [symmetric]
    by (simp add: http_parse_response_def Let_def e h k del: One_nat_def)
qed

text \<open>A body of twelve bytes comes out as its first byte.\<close>

lemma http_length_cut_witness:
  "case http_parse_response (lines_text ([status_line] @ [ascii ''Server: x''] @
        [length_name @ port_digits (length (replicate 12 (65 :: u8)))]) @ crlf @ replicate 12 65) 8192 of
      Inl error \<Rightarrow> False | Inr r \<Rightarrow> status_code r = 200 \<and> http_body r = [65]"
proof -
  have "line_ok status_line" "http_parse_status status_line = Some 200" "list_all plain_line [ascii ''Server: x'']"
    by (simp_all add: status_line_def ascii_def http_parse_status_def is_digit_def line_ok_def plain_line_def
        header_field_def blank_def http_equal_case_def http_lower_def)
  from http_length_cut [OF this, of "replicate 12 65" 8192] show ?thesis
    by (simp add: numeral_2_eq_2 split: sum.splits)
qed

section \<open>Chunked bodies\<close>

definition hex_char :: "nat \<Rightarrow> u8" where
  "hex_char d = (if d < 10 then of_nat (48 + d) else of_nat (87 + d))"

fun hex_digits :: "nat \<Rightarrow> bytes" where
  "hex_digits v = (if v < 16 then [hex_char v] else hex_digits (v div 16) @ [hex_char (v mod 16)])"

declare hex_digits.simps [simp del]

definition chunked_body :: "bytes list \<Rightarrow> bytes" where
  "chunked_body ps = concat (map (\<lambda>p. hex_digits (length p) @ crlf @ p @ crlf) ps) @ [48] @ crlf @ crlf"

lemma hex_char_value:
  assumes "d < 16"
  shows "hex_value (hex_char d) = Some d" "hex_char d \<noteq> 13" "hex_char d \<noteq> 59"
proof -
  have "d \<in> set [0..<16]" using assms by simp
  moreover have "list_all (\<lambda>d. hex_value (hex_char d) = Some d \<and> hex_char d \<noteq> 13 \<and> hex_char d \<noteq> 59) [0..<16]"
    by code_simp
  ultimately show "hex_value (hex_char d) = Some d" "hex_char d \<noteq> 13" "hex_char d \<noteq> 59"
    unfolding list_all_iff by auto
qed

lemma chunk_size_digits:
  "w < 4294967296 \<Longrightarrow> chunk_size 0 0 (hex_digits w @ rest) = chunk_size w (length (hex_digits w)) rest"
proof (induction w arbitrary: rest rule: hex_digits.induct)
  case (1 w)
  show ?case
  proof (cases "w < 16")
    case True
    then show ?thesis using hex_char_value [OF True] by (simp add: hex_digits.simps [of w])
  next
    case False
    let ?d = "w mod 16"
    have "w = 16 * (w div 16) + ?d" by simp
    then have "16 * (w div 16) \<le> 0xFFFFFFFF - ?d" using "1.prems" by linarith
    then have "16 * (w div 16) div 16 \<le> (0xFFFFFFFF - ?d) div 16" by (rule div_le_mono)
    then have "\<not> (0xFFFFFFFF - ?d) div 16 < w div 16" by simp
    moreover have "hex_digits w = hex_digits (w div 16) @ [hex_char ?d]"
      using False by (simp add: hex_digits.simps [of w])
    moreover have "chunk_size 0 0 (hex_digits (w div 16) @ hex_char ?d # rest)
        = chunk_size (w div 16) (length (hex_digits (w div 16))) (hex_char ?d # rest)"
      using "1.IH" [OF False] "1.prems" by simp
    ultimately show ?thesis using hex_char_value [of ?d] by simp
  qed
qed

lemma chunk_line_digits: "w < 4294967296 \<Longrightarrow> chunk_line (hex_digits w @ crlf @ rest) = Some (w, rest)"
proof -
  assume w: "w < 4294967296"
  have "length (hex_digits w) \<noteq> 0" by (simp add: hex_digits.simps [of w])
  then show ?thesis using chunk_size_digits [OF w, of "crlf @ rest"] by (simp add: chunk_line_def crlf_def)
qed

lemma decode_chunk:
  assumes "p \<noteq> []" "length p < 4294967296" "length written + length p \<le> capacity"
  shows "http_decode_chunks (hex_digits (length p) @ crlf @ p @ crlf @ rest) capacity written
    = http_decode_chunks rest capacity (written @ p)"
proof -
  let ?in = "hex_digits (length p) @ crlf @ p @ crlf @ rest"
  have line: "chunk_line ?in = Some (length p, p @ crlf @ rest)" using chunk_line_digits [OF assms(2)] by simp
  have "?in \<noteq> []" by (simp add: crlf_def)
  moreover have "(p @ crlf @ rest) ! length p = 13" "(p @ crlf @ rest) ! (length p + 1) = 10"
    "length p + 2 \<le> length (p @ crlf @ rest)" "drop (length p + 2) (p @ crlf @ rest) = rest"
    by (simp_all add: crlf_def nth_append)
  moreover have "\<not> capacity - length written < length p" using assms(3) by simp
  ultimately show ?thesis
    by (subst http_decode_chunks.simps) (use line assms in simp)
qed

text \<open>
  C31. A chunked body that fits the caller's buffer is decoded to the concatenation of its chunks.
\<close>

lemma http_chunks_decoded:
  assumes "list_all (\<lambda>p. p \<noteq> [] \<and> length p < 4294967296) ps" "length (concat ps) \<le> capacity"
  shows "http_decode_chunks (chunked_body ps) capacity [] = Some (concat ps)"
proof -
  have "http_decode_chunks (chunked_body ps) capacity written = Some (written @ concat ps)"
    if "length written + length (concat ps) \<le> capacity" for written
    using assms(1) that
  proof (induction ps arbitrary: written)
    case Nil
    have "chunk_line ([48] @ crlf @ crlf) = Some (0, crlf)" by (simp add: crlf_def chunk_line_def hex_value_def)
    then show ?case by (subst http_decode_chunks.simps) (simp add: chunked_body_def)
  next
    case (Cons p ps)
    have "chunked_body (p # ps) = hex_digits (length p) @ crlf @ p @ crlf @ chunked_body ps"
      by (simp add: chunked_body_def)
    then show ?case using decode_chunk [of p written capacity "chunked_body ps"] Cons.IH [of "written @ p"] Cons.prems
      by simp
  qed
  then show ?thesis using assms(2) by simp
qed

lemma http_chunks_decoded_witness:
  "http_decode_chunks (chunked_body [[1, 2, 3], replicate 20 7]) 100 [] = Some (concat [[1, 2, 3], replicate 20 7])"
  by (rule http_chunks_decoded) simp_all

end
