(* ===== verification/Http_Overrun.thy ===== *)
theory Http_Overrun
  imports Tcp_Stream
begin

text \<open>
  The loop of \<open>http_get\<close> that collects the response, run against a peer that first sends one byte and then full
  segments: the loop asks for room only before it reads, so the last read goes past the end of \<open>raw_response\<close>.
\<close>

section \<open>One read\<close>

text \<open>A peer that answers with the bytes \<open>d r\<close> for the sequence number \<open>r\<close>.\<close>

definition answer :: "(u32 \<Rightarrow> bytes) \<Rightarrow> 'z tcp_net_scheme \<Rightarrow> 'z tcp_net_scheme" where
  "answer d n =
     (let r = receive_next (connection n)
      in tcp_segment_arrives (segment r (send_next (connection n)) TCP_FLAG_ACK (d r)) n)"

definition ready :: "u32 \<Rightarrow> u32 \<Rightarrow> 'z tcp_net_scheme \<Rightarrow> bool" where
  "ready now r n \<longleftrightarrow> uptime n = now \<and> tcp_state (connection n) = ESTABLISHED \<and> receive_buffer (connection n) = []
     \<and> receive_next (connection n) = r"

lemma segment_uptime: "uptime (tcp_segment_arrives g n) = uptime n"
  by (simp add: tcp_segment_arrives_def Let_def)

lemma answer_connection:
  assumes "ready now r n" "length (d r) \<le> TCP_MAX_PAYLOAD"
  shows "uptime (answer d n) = now" "tcp_state (connection (answer d n)) = ESTABLISHED"
    "receive_buffer (connection (answer d n)) = d r"
    "receive_next (connection (answer d n)) = r + of_nat (length (d r))"
proof -
  define g where "g = segment r (send_next (connection n)) TCP_FLAG_ACK (d r)"
  have n: "answer d n = tcp_segment_arrives g n" using assms(1) by (simp add: answer_def ready_def g_def)
  have g: "seg_flags g = TCP_FLAG_ACK" "seg_sequence g = r" "seg_data g = d r" by (simp_all add: g_def segment_def)
  have c: "connection (answer d n) = arrived g (tcp_acknowledge g (connection n))"
    unfolding n by (rule arrives_connection) (use assms(1) g in \<open>simp_all add: ready_def tcp_flags\<close>)
  have r: "receiving (tcp_acknowledge g (connection n)) = ([], r, False)"
    unfolding acknowledge_receiving using assms(1) by (simp add: receiving_def ready_def)
  show "uptime (answer d n) = now" unfolding n segment_uptime using assms(1) by (simp add: ready_def)
  show "tcp_state (connection (answer d n)) = ESTABLISHED"
    using assms(1) by (simp add: c arrived_def tcp_accept_def tcp_acknowledge_def g(1) tcp_flags ready_def Let_def)
  have "receiving (connection (answer d n)) = (d r, r + of_nat (length (d r)), False)"
    using assms(2) r unfolding c arrived_receiving
    by (simp add: g receiving_def tcp_flags min_absorb2 Let_def)
  then show "receive_buffer (connection (answer d n)) = d r"
    "receive_next (connection (answer d n)) = r + of_nat (length (d r))"
    by (simp_all add: receiving_def)
qed

lemma read_answer:
  assumes "ready now r n" "length (d r) \<le> TCP_MAX_PAYLOAD" "d r \<noteq> []" "0 < timeout"
  shows "\<exists>m. tcp_read_wait (answer d) HTTP_READ_CHUNK_SIZE timeout n = Some (Inr (d r), m)
    \<and> ready now (r + of_nat (length (d r))) m"
proof -
  note a = answer_connection [of now r n d, OF assms(1,2)]
  have "wait_while (answer d) (\<lambda>n. receive_buffer (connection n) = [] \<and> \<not> tcp_over (tcp_state (connection n)))
      (uptime n) timeout n = Some (answer d n)"
    using a(3) assms(1,3,4) by (simp add: wait_while_def while_option_unfold ready_def tcp_over_def)
  moreover have "\<exists>m. tcp_read HTTP_READ_CHUNK_SIZE (answer d n) = (Some (d r), m)
      \<and> ready now (r + of_nat (length (d r))) m"
    using a assms(2,3)
    by (simp add: tcp_read_def ready_def HTTP_READ_CHUNK_SIZE_def TCP_MAX_PAYLOAD_def min_absorb2 Let_def)
  ultimately show ?thesis using a(3) assms(3) by (auto simp: tcp_read_wait_def HTTP_READ_CHUNK_SIZE_def)
qed

section \<open>The loop\<close>

text \<open>One byte under the sequence number \<open>r0\<close>, full segments afterwards.\<close>

definition flood :: "u32 \<Rightarrow> u32 \<Rightarrow> bytes" where
  "flood r0 r = replicate (if r = r0 then 1 else TCP_MAX_PAYLOAD) 65"

lemma flood_lengths: "length (flood r0 r) \<le> TCP_MAX_PAYLOAD" "flood r0 r \<noteq> []"
  by (simp_all add: flood_def TCP_MAX_PAYLOAD_def)

lemma collect_step:
  assumes "ready now r n" "0 < timeout" "length raw < HTTP_RAW_RESPONSE_CAPACITY"
  shows "\<exists>m. ready now (r + of_nat (length (flood r0 r))) m \<and>
    http_collect (answer (flood r0)) now timeout raw n =
      (if HTTP_RAW_RESPONSE_CAPACITY < length raw + length (flood r0 r) then Some (Http_Overrun, m)
       else http_collect (answer (flood r0)) now timeout (raw @ flood r0 r) m)"
proof -
  obtain m where m: "tcp_read_wait (answer (flood r0)) HTTP_READ_CHUNK_SIZE timeout n = Some (Inr (flood r0 r), m)"
    "ready now (r + of_nat (length (flood r0 r))) m"
    using read_answer [of now r n "flood r0", OF assms(1) flood_lengths assms(2)] by blast
  have "uptime n - now = 0" using assms(1) by (simp add: ready_def)
  moreover have "timeout \<noteq> 0" using assms(2) by (simp add: word_gt_0)
  ultimately show ?thesis using m assms(3)
    by (intro exI [of _ m]) (subst http_collect.simps, simp add: not_le)
qed

lemma later_sequence: "k \<le> 19 \<Longrightarrow> r0 + 1 + 512 * of_nat k \<noteq> (r0 :: u32)"
proof
  assume "k \<le> 19" "r0 + 1 + 512 * of_nat k = (r0 :: u32)"
  then have "(of_nat (1 + 512 * k) :: u32) = 0" by (simp add: algebra_simps)
  then have "unat (of_nat (1 + 512 * k) :: u32) = 0" by (simp only: unat_0)
  then show False using \<open>k \<le> 19\<close> unfolding unat_of_nat by simp
qed

lemma collect_overruns:
  assumes "ready now (r0 + 1 + 512 * of_nat k) n" "length raw = 1 + 512 * k" "k + j = 19" "0 < timeout"
  shows "\<exists>m. http_collect (answer (flood r0)) now timeout raw n = Some (Http_Overrun, m)"
  using assms
proof (induction j arbitrary: k n raw)
  case (0 k n raw)
  then have "length (flood r0 (r0 + 1 + 512 * of_nat k)) = 512"
    using later_sequence [of k r0] by (simp add: flood_def TCP_MAX_PAYLOAD_def)
  then show ?case
    using 0 collect_step [of now "r0 + 1 + 512 * of_nat k" n timeout raw r0]
    by (auto simp: HTTP_RAW_RESPONSE_CAPACITY_def HTTP_MAX_BODY_SIZE_def)
next
  case (Suc j k n raw)
  then have len: "length (flood r0 (r0 + 1 + 512 * of_nat k)) = 512"
    using later_sequence [of k r0] by (simp add: flood_def TCP_MAX_PAYLOAD_def)
  obtain m where m: "ready now (r0 + 1 + 512 * of_nat k + 512) m"
    "http_collect (answer (flood r0)) now timeout raw n =
       http_collect (answer (flood r0)) now timeout (raw @ flood r0 (r0 + 1 + 512 * of_nat k)) m"
    using Suc.prems collect_step [of now "r0 + 1 + 512 * of_nat k" n timeout raw r0] len
    by (auto simp: HTTP_RAW_RESPONSE_CAPACITY_def HTTP_MAX_BODY_SIZE_def)
  have "ready now (r0 + 1 + 512 * of_nat (Suc k)) m" using m(1) by (simp add: algebra_simps)
  from Suc.IH [OF this, of "raw @ flood r0 (r0 + 1 + 512 * of_nat k)"] show ?case
    using m(2) len Suc.prems by simp
qed

text \<open>
  C33. A server that sends one byte and then full segments makes \<open>http_get\<close> write behind the end of
  its static response buffer, whatever the connection and the timeout are: after 9729 bytes the loop still reads
  a chunk of 512.
\<close>

theorem http_overrun:
  assumes "tcp_state (connection n) = ESTABLISHED" "receive_buffer (connection n) = []" "0 < timeout"
  shows "\<exists>m. http_collect (answer (flood (receive_next (connection n)))) (uptime n) timeout [] n = Some (Http_Overrun, m)"
proof -
  let ?r = "receive_next (connection n)"
  have "ready (uptime n) ?r n" using assms by (simp add: ready_def)
  then obtain m where m: "ready (uptime n) (?r + 1) m"
    "http_collect (answer (flood ?r)) (uptime n) timeout [] n =
       http_collect (answer (flood ?r)) (uptime n) timeout [65] m"
    using collect_step [of "uptime n" ?r n timeout "[]" ?r] assms(3)
    by (auto simp: flood_def HTTP_RAW_RESPONSE_CAPACITY_def HTTP_MAX_BODY_SIZE_def)
  from collect_overruns [of "uptime n" ?r 0 m "[65]" 19 timeout] m assms(3) show ?thesis by simp
qed

lemma http_overrun_witness:
  "\<exists>m. http_collect (answer (flood 501)) 1000 5000 [] left = Some (Http_Overrun, m)"
  using http_overrun [of left 5000] by (simp add: left_def machine_def)

end
