(* ===== verification/Package_Manager.thy ===== *)
theory Package_Manager
  imports Network Vfs Sha256 Prismcc
begin

text \<open>
  \<open>apps/package_manager.c\<close>: the catalog of the repository, the registry of what is installed, and the installer.
  The HTTP client and the file system are passed as arguments (\<open>get\<close>, \<open>fs\<close>); \<open>repository_get\<close> and
  \<open>vfs_calls\<close> are the ones of the system. A call returns a result, an error code, does not return, or has
  made the HTTP client write behind its buffer.
\<close>

section \<open>State\<close>

definition CATALOG_CAPACITY :: nat where "CATALOG_CAPACITY = 6144"
definition MANIFEST_CAPACITY :: nat where "MANIFEST_CAPACITY = 2048"
definition PACKAGE_CAPACITY :: nat where "PACKAGE_CAPACITY = 65536"
definition CHUNK_CAPACITY :: nat where "CHUNK_CAPACITY = 4096"
definition INSTALLED_DB_CAPACITY :: nat where "INSTALLED_DB_CAPACITY = 4096"
definition FAVORITES_DB_CAPACITY :: nat where "FAVORITES_DB_CAPACITY = 2048"
definition PACKAGE_MANAGER_MAX_PACKAGES :: nat where "PACKAGE_MANAGER_MAX_PACKAGES = 64"
definition PACKAGE_MANAGER_ID_CAPACITY :: nat where "PACKAGE_MANAGER_ID_CAPACITY = 33"
definition PACKAGE_MANAGER_VERSION_CAPACITY :: nat where "PACKAGE_MANAGER_VERSION_CAPACITY = 33"
definition PACKAGE_MANAGER_PATH_CAPACITY :: nat where "PACKAGE_MANAGER_PATH_CAPACITY = 24"
definition PRISM_APP_FLAG_DRIVER :: u16 where "PRISM_APP_FLAG_DRIVER = 1"
definition INSTALLED_DB :: bytes where "INSTALLED_DB = ascii ''/PKGDB.TXT''"
definition FAVORITES_DB :: bytes where "FAVORITES_DB = ascii ''/PKGFAV.TXT''"
definition PACKAGES_DIR :: bytes where "PACKAGES_DIR = ascii ''/PKGS''"

lemmas pkg_capacities = CATALOG_CAPACITY_def MANIFEST_CAPACITY_def PACKAGE_CAPACITY_def CHUNK_CAPACITY_def
  INSTALLED_DB_CAPACITY_def FAVORITES_DB_CAPACITY_def PACKAGE_MANAGER_MAX_PACKAGES_def
  PACKAGE_MANAGER_ID_CAPACITY_def PACKAGE_MANAGER_VERSION_CAPACITY_def PACKAGE_MANAGER_PATH_CAPACITY_def

datatype pkg_error = PKG_NETWORK | PKG_PROTOCOL | PKG_STORAGE | PKG_LIMIT | PKG_HASH | PKG_APP_FORMAT | PKG_NOT_FOUND
  | PKG_ALREADY_INSTALLED | PKG_DNS | PKG_CONNECT | PKG_TIMEOUT

record pkg_entry =
  pe_id :: bytes
  pe_version :: bytes
  pe_sha256 :: bytes
  pe_installed_path :: bytes
  pe_size :: nat
  pe_installed :: bool
  pe_favorite :: bool

record installed_record =
  ir_id :: bytes
  ir_version :: bytes
  ir_path :: bytes

record favorite_record =
  fr_id :: bytes
  fr_version :: bytes

record ('n, 'f) pkg =
  repository :: 'n
  files :: 'f
  package_entries :: "pkg_entry list"
  installed_records :: "installed_record list"
  favorite_records :: "favorite_record list"

text \<open>The calls into \<open>filesystem/vfs.c\<close>.\<close>

record 'f file_calls =
  fc_is_dir :: "bytes \<Rightarrow> 'f \<Rightarrow> bool io_res \<times> 'f"
  fc_mkdir :: "bytes \<Rightarrow> 'f \<Rightarrow> unit io_res \<times> 'f"
  fc_touch :: "bytes \<Rightarrow> 'f \<Rightarrow> unit io_res \<times> 'f"
  fc_read :: "bytes \<Rightarrow> nat \<Rightarrow> 'f \<Rightarrow> bytes io_res \<times> 'f"
  fc_write :: "bytes \<Rightarrow> bytes \<Rightarrow> bool \<Rightarrow> 'f \<Rightarrow> unit io_res \<times> 'f"
  fc_list :: "bytes \<Rightarrow> (vfs_entry \<Rightarrow> bool \<Rightarrow> bool \<times> bool) \<Rightarrow> bool \<Rightarrow> 'f \<Rightarrow> bool io_res \<times> 'f"
  fc_rm :: "bytes \<Rightarrow> 'f \<Rightarrow> unit io_res \<times> 'f"

definition vfs_calls :: "'d blockdev \<Rightarrow> fat32_state \<Rightarrow> 'd file_calls" where
  "vfs_calls io g = \<lparr>fc_is_dir = Vfs.vfs_path_is_dir io g, fc_mkdir = vfs_mkdir io g, fc_touch = vfs_touch io g,
     fc_read = Vfs.vfs_read_file io g, fc_write = Vfs.vfs_write_file io g, fc_list = vfs_list io g,
     fc_rm = vfs_rm io g\<rparr>"

type_synonym 'n http_client = "bytes \<Rightarrow> nat \<Rightarrow> 'n \<Rightarrow> (http_result \<times> 'n) option" \<comment> \<open>path, capacity\<close>

definition repository_get :: "network http_client" where
  "repository_get path capacity n = http_get poll_and_halt (ascii ''10.0.2.2'') path 8080 15000 capacity n"

section \<open>Results\<close>

datatype 'a pkg_res = Returns 'a | Fails pkg_error | Never_Returns | Overruns

type_synonym ('n, 'f, 'a) pkg_call = "('n, 'f) pkg \<Rightarrow> 'a pkg_res \<times> ('n, 'f) pkg"

definition pgive :: "'a \<Rightarrow> ('n, 'f, 'a) pkg_call" where "pgive a s = (Returns a, s)"
definition pfail :: "pkg_error \<Rightarrow> ('n, 'f, 'a) pkg_call" where "pfail e s = (Fails e, s)"

definition pseq :: "('n, 'f, 'a) pkg_call \<Rightarrow> ('a \<Rightarrow> ('n, 'f, 'b) pkg_call) \<Rightarrow> ('n, 'f, 'b) pkg_call" where
  "pseq m f s =
     (case m s of (Returns a, s) \<Rightarrow> f a s | (Fails e, s) \<Rightarrow> (Fails e, s)
      | (Never_Returns, s) \<Rightarrow> (Never_Returns, s) | (Overruns, s) \<Rightarrow> (Overruns, s))"

text \<open>A failure that the caller answers itself.\<close>

definition pcatch :: "('n, 'f, unit) pkg_call \<Rightarrow> (bool \<Rightarrow> ('n, 'f, 'b) pkg_call) \<Rightarrow> ('n, 'f, 'b) pkg_call" where
  "pcatch m f s =
     (case m s of (Returns _, s) \<Rightarrow> f True s | (Fails e, s) \<Rightarrow> f False s
      | (Never_Returns, s) \<Rightarrow> (Never_Returns, s) | (Overruns, s) \<Rightarrow> (Overruns, s))"

definition pcheck :: "bool \<Rightarrow> pkg_error \<Rightarrow> ('n, 'f, unit) pkg_call" where
  "pcheck b e = (if b then pgive () else pfail e)"

definition on_files :: "('f \<Rightarrow> 'a io_res \<times> 'f) \<Rightarrow> ('n, 'f, 'a) pkg_call" where
  "on_files m s =
     (case m (files s) of (io_res.Done a, d) \<Rightarrow> (Returns a, s\<lparr>files := d\<rparr>) | (Failed, d) \<Rightarrow> (Fails PKG_STORAGE, s\<lparr>files := d\<rparr>)
      | (Hung, d) \<Rightarrow> (Never_Returns, s\<lparr>files := d\<rparr>))"

section \<open>Text\<close>

definition text_copy :: "nat \<Rightarrow> bytes \<Rightarrow> bytes" where
  "text_copy capacity source = take (capacity - 1) (takeWhile (\<lambda>c. c \<noteq> 0) source)"

definition alphanumeric :: "u8 \<Rightarrow> bool" where
  "alphanumeric c \<longleftrightarrow> 65 \<le> c \<and> c \<le> 90 \<or> 97 \<le> c \<and> c \<le> 122 \<or> 48 \<le> c \<and> c \<le> 57"

definition segment_valid :: "bytes \<Rightarrow> bool" where
  "segment_valid t \<longleftrightarrow> t \<noteq> [] \<and> length t \<le> 32 \<and> alphanumeric (hd t)
     \<and> list_all (\<lambda>c. alphanumeric c \<or> c = 46 \<or> c = 95 \<or> c = 45) (tl t)"

fun decimal_loop :: "nat \<Rightarrow> bytes \<Rightarrow> nat option" where
  "decimal_loop v [] = Some v"
| "decimal_loop v (c # cs) =
     (if \<not> (48 \<le> c \<and> c \<le> 57) then None
      else (let digit = unat (c - 48)
            in if (0xFFFFFFFF - digit) div 10 < v then None else decimal_loop (v * 10 + digit) cs))"

definition parse_decimal :: "bytes \<Rightarrow> nat option" where
  "parse_decimal t = (if t = [] \<or> 1 < length t \<and> hd t = 48 then None else decimal_loop 0 t)"

definition sha_text_valid :: "bytes \<Rightarrow> bool" where
  "sha_text_valid t \<longleftrightarrow> length t = 64 \<and> list_all (\<lambda>c. 48 \<le> c \<and> c \<le> 57 \<or> 97 \<le> c \<and> c \<le> 102) t"

definition content_type_is :: "bytes \<Rightarrow> bytes \<Rightarrow> bool" where
  "content_type_is actual expected \<longleftrightarrow>
     map http_lower (take (length expected) actual) = expected
     \<and> (case drop (length expected) actual of [] \<Rightarrow> True | c # _ \<Rightarrow> c = 59)"

text \<open>Pieces put one behind the other while they leave room for the terminator.\<close>

fun join_parts :: "nat \<Rightarrow> bytes \<Rightarrow> bytes list \<Rightarrow> bytes option" where
  "join_parts capacity out [] = Some out"
| "join_parts capacity out (p # ps) =
     (if capacity - length out \<le> length p then None else join_parts capacity (out @ p) ps)"

definition make_endpoint :: "nat \<Rightarrow> bytes \<Rightarrow> bytes \<Rightarrow> bytes \<Rightarrow> bytes \<Rightarrow> bytes \<Rightarrow> bytes option" where
  "make_endpoint capacity prefix ident separator version suffix =
     join_parts capacity [] [prefix, ident, separator, version, suffix]"

definition append_text :: "nat \<Rightarrow> bytes \<Rightarrow> bytes \<Rightarrow> bytes" where
  "append_text capacity text out = out @ take (capacity - 1 - length out) text"

definition append_uint :: "nat \<Rightarrow> nat \<Rightarrow> bytes \<Rightarrow> bytes" where
  "append_uint capacity v out = append_text capacity (port_digits v) out"

definition key_matches :: "bytes \<Rightarrow> bytes \<Rightarrow> bytes \<Rightarrow> bytes \<Rightarrow> bool" where
  "key_matches left_id left_version right_id right_version \<longleftrightarrow> left_id = right_id \<and> left_version = right_version"

definition text_line :: "bytes \<Rightarrow> bytes" where "text_line t = takeWhile (\<lambda>c. c \<noteq> 10) t"
definition next_line :: "bytes \<Rightarrow> bytes" where "next_line t = drop (length (text_line t) + 1) t"

lemma next_line_less: "t \<noteq> [] \<Longrightarrow> length (next_line t) < length t"
  by (cases t) (auto simp: next_line_def)

section \<open>The repository\<close>

definition http_fetch :: "'n http_client \<Rightarrow> bytes \<Rightarrow> nat \<Rightarrow> bytes \<Rightarrow> ('n, 'f, bytes) pkg_call" where
  "http_fetch get path capacity kind s =
     (case get path capacity (repository s) of
        None \<Rightarrow> (Never_Returns, s)
      | Some (Http_Memory, n) \<Rightarrow> (Overruns, s\<lparr>repository := n\<rparr>)
      | Some (Http_Failed code, n) \<Rightarrow>
          (Fails (if code = - 2 then PKG_DNS else if code = - 3 then PKG_CONNECT else if code = - 5 then PKG_TIMEOUT
                  else PKG_NETWORK), s\<lparr>repository := n\<rparr>)
      | Some (Http_Done r, n) \<Rightarrow>
          (if status_code r \<noteq> 200 \<or> \<not> content_type_is (Http.content_type r) kind then Fails PKG_PROTOCOL
           else if capacity < length (http_body r) then Fails PKG_LIMIT
           else Returns (http_body r), s\<lparr>repository := n\<rparr>))"

text \<open>The fields of a line, separated by tabs.\<close>

fun split_tabs :: "bytes \<Rightarrow> bytes list" where
  "split_tabs [] = [[]]"
| "split_tabs (c # cs) =
     (if c = 9 then [] # split_tabs cs else (case split_tabs cs of f # fs \<Rightarrow> (c # f) # fs | [] \<Rightarrow> [[c]]))"

definition catalog_entry :: "bytes \<Rightarrow> bytes \<Rightarrow> bytes \<Rightarrow> bytes \<Rightarrow> bytes \<Rightarrow> pkg_entry option" where
  "catalog_entry ident version number sha path =
     (if \<not> segment_valid ident \<or> \<not> segment_valid version \<or> \<not> sha_text_valid sha
         \<or> make_endpoint 128 (ascii ''/api/v1/packages/'') ident (ascii ''/'') version (ascii ''/manifest'')
             \<noteq> Some path
      then None
      else (case parse_decimal number of
              None \<Rightarrow> None
            | Some n \<Rightarrow>
                if n = 0 then None
                else Some \<lparr>pe_id = text_copy PACKAGE_MANAGER_ID_CAPACITY ident,
                       pe_version = text_copy PACKAGE_MANAGER_VERSION_CAPACITY version, pe_sha256 = sha,
                       pe_installed_path = [], pe_size = n, pe_installed = False, pe_favorite = False\<rparr>))"

definition parse_catalog_row :: "bytes \<Rightarrow> pkg_entry option" where
  "parse_catalog_row row =
     (if \<not> list_all (\<lambda>c. c = 9 \<or> 0x20 \<le> c \<and> c \<le> 0x7E) row then None
      else
        (case split_tabs row of
           [ident, version, number, sha, path] \<Rightarrow> catalog_entry ident version number sha path
         | _ \<Rightarrow> None))"

record pkg_manifest =
  mf_id :: bool
  mf_version :: bool
  mf_size :: "nat option"
  mf_sha256 :: "bytes option"
  mf_chunk_size :: "nat option"
  mf_path :: bool
  mf_description :: bytes

definition no_manifest :: pkg_manifest where
  "no_manifest = \<lparr>mf_id = False, mf_version = False, mf_size = None, mf_sha256 = None, mf_chunk_size = None,
     mf_path = False, mf_description = []\<rparr>"

definition manifest_field :: "pkg_entry \<Rightarrow> bytes \<Rightarrow> bytes \<Rightarrow> pkg_manifest \<Rightarrow> pkg_manifest option" where
  "manifest_field e key v m =
     (if key = ascii ''id'' then (if v = pe_id e then Some (m\<lparr>mf_id := True\<rparr>) else None)
      else if key = ascii ''version'' then (if v = pe_version e then Some (m\<lparr>mf_version := True\<rparr>) else None)
      else if key = ascii ''size''
      then map_option (\<lambda>n. m\<lparr>mf_size := Some n\<rparr>) (parse_decimal v)
      else if key = ascii ''sha256'' then (if sha_text_valid v then Some (m\<lparr>mf_sha256 := Some v\<rparr>) else None)
      else if key = ascii ''chunk-size''
      then (case parse_decimal v of
              None \<Rightarrow> None
            | Some n \<Rightarrow> if n = 0 \<or> CHUNK_CAPACITY < n then None else Some (m\<lparr>mf_chunk_size := Some n\<rparr>))
      else if key = ascii ''chunk-path''
      then (if make_endpoint 128 (ascii ''/api/v1/packages/'') (pe_id e) (ascii ''/'') (pe_version e) (ascii ''/chunk'')
               = Some v then Some (m\<lparr>mf_path := True\<rparr>) else None)
      else if key = ascii ''description''
      then Some (m\<lparr>mf_description := map (\<lambda>c. if 32 \<le> c \<and> c \<le> 126 then c else 32) (take 120 v)\<rparr>)
      else Some m)"

text \<open>The key ends at the first tab behind the first character.\<close>

function manifest_lines :: "pkg_entry \<Rightarrow> bytes \<Rightarrow> pkg_manifest \<Rightarrow> pkg_manifest option" where
  "manifest_lines e t m =
     (if t = [] then Some m
      else
        (let line = text_line t; key = take 1 line @ takeWhile (\<lambda>c. c \<noteq> 9) (tl line)
         in if 13 \<in> set line \<or> 0 \<in> set line \<or> 9 \<notin> set (tl line) then None
            else (case manifest_field e key (drop (length key + 1) line) m of
                    None \<Rightarrow> None | Some m \<Rightarrow> manifest_lines e (next_line t) m)))"
  by auto
termination
  by (relation "measure (\<lambda>(e, t, m). length t)") (auto simp: next_line_less)

declare manifest_lines.simps [simp del]

definition parse_manifest :: "pkg_entry \<Rightarrow> bytes \<Rightarrow> (bytes \<times> nat \<times> nat) option" where
  "parse_manifest e t =
     (let header = ascii ''PRISMPKG-MANIFEST/1'' @ [10]
      in if take (length header) t \<noteq> header then None
         else (case manifest_lines e (drop (length header) t) no_manifest of
                 None \<Rightarrow> None
               | Some m \<Rightarrow>
                   (case (mf_size m, mf_sha256 m, mf_chunk_size m) of
                      (Some n, Some sha, Some chunk_len) \<Rightarrow>
                        if mf_id m \<and> mf_version m \<and> mf_path m \<and> n = pe_size e \<and> sha = pe_sha256 e
                        then Some (mf_description m, n, chunk_len) else None
                    | _ \<Rightarrow> None)))"

text \<open>The description, the size and the chunk size; the digest is the one of the entry.\<close>

definition fetch_manifest :: "'n http_client \<Rightarrow> pkg_entry \<Rightarrow> ('n, 'f, bytes \<times> nat \<times> nat) pkg_call" where
  "fetch_manifest get e =
     (case make_endpoint 128 (ascii ''/api/v1/packages/'') (pe_id e) (ascii ''/'') (pe_version e)
             (ascii ''/manifest'') of
        None \<Rightarrow> pfail PKG_PROTOCOL
      | Some path \<Rightarrow>
          pseq (http_fetch get path MANIFEST_CAPACITY (ascii ''text/plain'')) (\<lambda>t.
            case parse_manifest e t of None \<Rightarrow> pfail PKG_PROTOCOL | Some m \<Rightarrow> pgive m))"

end
