(* ===== verification/Package_Install.thy ===== *)
theory Package_Install
  imports Package_Manager
begin

text \<open>\<open>apps/package_manager.c\<close>, second part: the registry on the disk, and the calls that change it.\<close>

section \<open>The registry\<close>

definition installed_header :: bytes where "installed_header = ascii ''PRISMPKG-INSTALLED/1'' @ [10]"
definition favorites_header :: bytes where "favorites_header = ascii ''PRISMPKG-FAVORITES/1'' @ [10]"

definition path_is_installed_file :: "bytes \<Rightarrow> bool" where
  "path_is_installed_file path \<longleftrightarrow>
     length path = 18 \<and> take 7 path = ascii ''/PKGS/P''
     \<and> list_all (\<lambda>c. 48 \<le> c \<and> c \<le> 57) (take 7 (drop 7 path)) \<and> drop 14 path = ascii ''.APP''"

text \<open>
  One line of the registry: identifier and version between the first two tabs; the path is copied from behind the
  second tab up to the next terminator, not up to the end of the line.
\<close>

definition installed_line :: "bytes \<Rightarrow> installed_record option" where
  "installed_line t =
     (let line = text_line t; a = takeWhile (\<lambda>c. c \<noteq> 9) line; rest = drop (length a + 1) line;
          b = takeWhile (\<lambda>c. c \<noteq> 9) rest
      in if 9 \<notin> set line \<or> 9 \<notin> set rest \<or> \<not> segment_valid a \<or> \<not> segment_valid b then None
         else Some \<lparr>ir_id = text_copy PACKAGE_MANAGER_ID_CAPACITY a,
                    ir_version = text_copy PACKAGE_MANAGER_VERSION_CAPACITY b,
                    ir_path = text_copy PACKAGE_MANAGER_PATH_CAPACITY (drop (length a + length b + 2) t)\<rparr>)"

text \<open>The flag says whether the whole text was accepted; a record with a bad path is counted before it is refused.\<close>

function read_installed :: "bytes \<Rightarrow> installed_record list \<Rightarrow> bool \<times> installed_record list" where
  "read_installed t rs =
     (if t = [] then (True, rs)
      else
        (case installed_line t of
           None \<Rightarrow> (False, rs)
         | Some r \<Rightarrow>
             if PACKAGE_MANAGER_MAX_PACKAGES \<le> length rs then (False, rs)
             else if \<not> path_is_installed_file (ir_path r) then (False, rs @ [r])
             else read_installed (next_line t) (rs @ [r])))"
  by auto
termination
  by (relation "measure (\<lambda>(t, rs). length t)") (auto simp: next_line_less)

declare read_installed.simps [simp del]

text \<open>The last tab of the line ends the identifier; the version, too, is copied up to the next terminator.\<close>

definition favorite_line :: "bytes \<Rightarrow> favorite_record option" where
  "favorite_line t =
     (let line = text_line t; b = rev (takeWhile (\<lambda>c. c \<noteq> 9) (rev line)); a = take (length line - length b - 1) line
      in if 9 \<notin> set line \<or> a = [] \<or> b = [] \<or> \<not> segment_valid a \<or> \<not> segment_valid b then None
         else Some \<lparr>fr_id = text_copy PACKAGE_MANAGER_ID_CAPACITY a,
                    fr_version = text_copy PACKAGE_MANAGER_VERSION_CAPACITY (drop (length a + 1) t)\<rparr>)"

function read_favorites :: "bytes \<Rightarrow> favorite_record list \<Rightarrow> bool \<times> favorite_record list" where
  "read_favorites t rs =
     (if t = [] then (True, rs)
      else
        (case favorite_line t of
           None \<Rightarrow> (False, rs)
         | Some r \<Rightarrow>
             if PACKAGE_MANAGER_MAX_PACKAGES \<le> length rs then (False, rs)
             else read_favorites (next_line t) (rs @ [r])))"
  by auto
termination
  by (relation "measure (\<lambda>(t, rs). length t)") (auto simp: next_line_less)

declare read_favorites.simps [simp del]

text \<open>The text of a registry file behind its header; an empty file gets the header.\<close>

definition registry_text :: "'f file_calls \<Rightarrow> bytes \<Rightarrow> bytes \<Rightarrow> nat \<Rightarrow> ('n, 'f, bytes) pkg_call" where
  "registry_text fs path header capacity =
     pseq (on_files (fc_read fs path (capacity - 1))) (\<lambda>t.
       if t = [] then pseq (on_files (fc_write fs path header False)) (\<lambda>_. pgive [])
       else if take (length header) t \<noteq> header then pfail PKG_STORAGE
       else pgive (drop (length header) t))"

definition set_installed :: "installed_record list \<Rightarrow> ('n, 'f, unit) pkg_call" where
  "set_installed rs s = (Returns (), s\<lparr>installed_records := rs\<rparr>)"

definition set_favorites :: "favorite_record list \<Rightarrow> ('n, 'f, unit) pkg_call" where
  "set_favorites rs s = (Returns (), s\<lparr>favorite_records := rs\<rparr>)"

definition packages_directory :: "'f file_calls \<Rightarrow> ('n, 'f, unit) pkg_call" where
  "packages_directory fs s =
     (case fc_is_dir fs PACKAGES_DIR (files s) of
        (io_res.Done d, f) \<Rightarrow> pcheck d PKG_STORAGE (s\<lparr>files := f\<rparr>)
      | (Failed, f) \<Rightarrow> on_files (fc_mkdir fs PACKAGES_DIR) (s\<lparr>files := f\<rparr>)
      | (Hung, f) \<Rightarrow> (Never_Returns, s\<lparr>files := f\<rparr>))"

definition parse_local_records :: "'f file_calls \<Rightarrow> ('n, 'f, unit) pkg_call" where
  "parse_local_records fs =
     pseq (set_installed []) (\<lambda>_.
     pseq (set_favorites []) (\<lambda>_.
     pseq (packages_directory fs) (\<lambda>_.
     pseq (on_files (fc_touch fs INSTALLED_DB)) (\<lambda>_.
     pseq (on_files (fc_touch fs FAVORITES_DB)) (\<lambda>_.
     pseq (registry_text fs INSTALLED_DB installed_header INSTALLED_DB_CAPACITY) (\<lambda>t.
     pseq (set_installed (snd (read_installed t []))) (\<lambda>_.
     pseq (pcheck (fst (read_installed t [])) PKG_STORAGE) (\<lambda>_.
     pseq (registry_text fs FAVORITES_DB favorites_header FAVORITES_DB_CAPACITY) (\<lambda>t.
     pseq (set_favorites (snd (read_favorites t []))) (\<lambda>_.
     pcheck (fst (read_favorites t [])) PKG_STORAGE))))))))))"

definition installed_fields :: "installed_record \<Rightarrow> bytes list" where
  "installed_fields r = [ir_id r, [9], ir_version r, [9], ir_path r, [10]]"

definition favorite_fields :: "favorite_record \<Rightarrow> bytes list" where
  "favorite_fields r = [fr_id r, [9], fr_version r, [10]]"

definition save_installed_records :: "'f file_calls \<Rightarrow> ('n, 'f, unit) pkg_call" where
  "save_installed_records fs s =
     (case join_parts INSTALLED_DB_CAPACITY installed_header (concat (map installed_fields (installed_records s))) of
        None \<Rightarrow> (Fails PKG_STORAGE, s)
      | Some t \<Rightarrow> on_files (fc_write fs INSTALLED_DB t False) s)"

definition save_favorite_records :: "'f file_calls \<Rightarrow> ('n, 'f, unit) pkg_call" where
  "save_favorite_records fs s =
     (case join_parts FAVORITES_DB_CAPACITY favorites_header (concat (map favorite_fields (favorite_records s))) of
        None \<Rightarrow> (Fails PKG_STORAGE, s)
      | Some t \<Rightarrow> on_files (fc_write fs FAVORITES_DB t False) s)"

definition annotate_entry :: "installed_record list \<Rightarrow> favorite_record list \<Rightarrow> pkg_entry \<Rightarrow> pkg_entry" where
  "annotate_entry rs fs e =
     (let e = e\<lparr>pe_installed := False, pe_favorite := False, pe_installed_path := []\<rparr>;
          e = (case find (\<lambda>r. key_matches (pe_id e) (pe_version e) (ir_id r) (ir_version r)) rs of
                 Some r \<Rightarrow> e\<lparr>pe_installed := True,
                             pe_installed_path := text_copy PACKAGE_MANAGER_PATH_CAPACITY (ir_path r)\<rparr>
               | None \<Rightarrow> e)
      in if list_ex (\<lambda>r. key_matches (pe_id e) (pe_version e) (fr_id r) (fr_version r)) fs
         then e\<lparr>pe_favorite := True\<rparr> else e)"

definition annotate_entries :: "('n, 'f, unit) pkg_call" where
  "annotate_entries s =
     (Returns (), s\<lparr>package_entries :=
        map (annotate_entry (installed_records s) (favorite_records s)) (package_entries s)\<rparr>)"

section \<open>The catalog\<close>

text \<open>The rows are taken up to the first that is refused; the entries before it stay.\<close>

function catalog_rows :: "bytes \<Rightarrow> pkg_entry list \<Rightarrow> bool \<times> pkg_entry list" where
  "catalog_rows t es =
     (if t = [] then (True, es)
      else if text_line t = [] \<or> PACKAGE_MANAGER_MAX_PACKAGES \<le> length es then (False, es)
      else
        (case parse_catalog_row (text_line t) of
           None \<Rightarrow> (False, es)
         | Some e \<Rightarrow>
             if list_ex (\<lambda>p. key_matches (pe_id p) (pe_version p) (pe_id e) (pe_version e)) es then (False, es)
             else catalog_rows (next_line t) (es @ [e])))"
  by auto
termination
  by (relation "measure (\<lambda>(t, es). length t)") (auto simp: next_line_less)

declare catalog_rows.simps [simp del]

definition set_entries :: "pkg_entry list \<Rightarrow> ('n, 'f, unit) pkg_call" where
  "set_entries es s = (Returns (), s\<lparr>package_entries := es\<rparr>)"

definition package_manager_refresh :: "'n http_client \<Rightarrow> 'f file_calls \<Rightarrow> ('n, 'f, unit) pkg_call" where
  "package_manager_refresh get fs =
     pseq (http_fetch get (ascii ''/api/v1/catalog'') CATALOG_CAPACITY (ascii ''text/plain'')) (\<lambda>t.
       let header = ascii ''PRISMPKG-CATALOG/1'' @ [10]; rows = catalog_rows (drop (length header) t) []
       in if take (length header) t \<noteq> header then pfail PKG_PROTOCOL
          else pseq (set_entries (snd rows)) (\<lambda>_.
               pseq (pcheck (fst rows) PKG_PROTOCOL) (\<lambda>_.
               pseq (parse_local_records fs) (\<lambda>_. annotate_entries))))"

definition package_manager_count :: "('n, 'f) pkg \<Rightarrow> nat" where
  "package_manager_count s = length (package_entries s)"

definition package_manager_get_entry :: "nat \<Rightarrow> ('n, 'f) pkg \<Rightarrow> pkg_entry option" where
  "package_manager_get_entry i s = (if length (package_entries s) \<le> i then None else Some (package_entries s ! i))"

definition package_manager_get_details :: "'n http_client \<Rightarrow> nat \<Rightarrow> nat \<Rightarrow> ('n, 'f, bytes) pkg_call" where
  "package_manager_get_details get i capacity s =
     (if length (package_entries s) \<le> i \<or> capacity = 0 then (Fails PKG_NOT_FOUND, s)
      else pseq (fetch_manifest get (package_entries s ! i)) (\<lambda>(description, _, _).
             pgive (text_copy capacity description)) s)"

section \<open>Installing\<close>

definition hex_digit :: "nat \<Rightarrow> u8" where
  "hex_digit k = (if k < 10 then of_nat (48 + k) else of_nat (87 + k))"

definition hex_text :: "bytes \<Rightarrow> bytes" where
  "hex_text b = concat (map (\<lambda>x. [hex_digit (unat x div 16), hex_digit (unat x mod 16)]) b)"

definition digest_matches :: "bytes \<Rightarrow> bytes \<Rightarrow> bool" where
  "digest_matches digest expected \<longleftrightarrow> take 64 expected = hex_text digest"

definition app_image_valid :: "bytes \<Rightarrow> bool" where
  "app_image_valid b \<longleftrightarrow>
     (if length b < PRISM_APP_HEADER_SIZE then False
      else if u32_at b 0 \<noteq> unat PRISM_APP_MAGIC \<or> u16_at b 4 \<noteq> unat PRISM_APP_FORMAT_VERSION
              \<or> of_nat (u16_at b 6) AND PRISM_APP_FLAG_DRIVER \<noteq> 0 then False
      else (let image_size = u32_at b 12; entry_offset = u32_at b 8
            in image_size = length b - PRISM_APP_HEADER_SIZE \<and> image_size \<noteq> 0 \<and> entry_offset < image_size))"

definition chunk_endpoint :: "pkg_entry \<Rightarrow> nat \<Rightarrow> nat \<Rightarrow> bytes" where
  "chunk_endpoint e offset requested =
     (let p = append_text 192 (ascii ''/api/v1/packages/'') [];
          p = append_text 192 (pe_id e) p; p = append_text 192 (ascii ''/'') p; p = append_text 192 (pe_version e) p;
          p = append_text 192 (ascii ''/chunk?offset='') p; p = append_uint 192 offset p;
          p = append_text 192 (ascii ''&length='') p
      in append_uint 192 requested p)"

text \<open>
  The download loop: the bytes so far and the hash of them. \<open>parse_manifest\<close> refuses the chunk size 0, with
  which the loop would not advance. A failed hash step would be an access outside the block buffer.
\<close>

function download ::
    "'n http_client \<Rightarrow> pkg_entry \<Rightarrow> nat \<Rightarrow> nat \<Rightarrow> bytes \<Rightarrow> sha256_context \<Rightarrow> ('n, 'f, bytes \<times> sha256_context) pkg_call"
  where
  "download get e wanted chunk_len img hash s =
     (if wanted \<le> length img then (Returns (img, hash), s)
      else
        (let requested = min (wanted - length img) chunk_len
         in case http_fetch get (chunk_endpoint e (length img) requested) CHUNK_CAPACITY
                   (ascii ''application/octet-stream'') s of
              (Returns piece, s) \<Rightarrow>
                if length piece \<noteq> requested then (Fails PKG_NETWORK, s)
                else if requested = 0 then (Never_Returns, s)
                else (case sha256_update piece hash of
                        None \<Rightarrow> (Overruns, s)
                      | Some hash \<Rightarrow> download get e wanted chunk_len (img @ piece) hash s)
            | (Fails _, s) \<Rightarrow> (Fails PKG_NETWORK, s)
            | (Never_Returns, s) \<Rightarrow> (Never_Returns, s)
            | (Overruns, s) \<Rightarrow> (Overruns, s)))"
  by auto
termination
  by (relation "measure (\<lambda>(get, e, wanted, chunk_len, img, hash, s). wanted - length img)") auto

declare download.simps [simp del]

definition install_name :: "nat \<Rightarrow> bytes" where
  "install_name slot =
     [80] @ map (\<lambda>k. of_nat (48 + slot div 10 ^ k mod 10)) [6, 5, 4, 3, 2, 1, 0] @ ascii ''.APP''"

definition find_name :: "bytes \<Rightarrow> vfs_entry \<Rightarrow> bool \<Rightarrow> bool \<times> bool" where
  "find_name name e found = (if ve_name e = name then (True, True) else (False, found))"

function allocate_install_path :: "'f file_calls \<Rightarrow> nat \<Rightarrow> ('n, 'f, bytes) pkg_call" where
  "allocate_install_path fs slot s =
     (if 10000000 \<le> slot then (Fails PKG_STORAGE, s)
      else
        (case on_files (fc_list fs PACKAGES_DIR (find_name (install_name slot)) False) s of
           (Returns found, s) \<Rightarrow>
             if found then allocate_install_path fs (slot + 1) s
             else (Returns (append_text PACKAGE_MANAGER_PATH_CAPACITY (install_name slot)
                              (append_text PACKAGE_MANAGER_PATH_CAPACITY (ascii ''/PKGS/'') [])), s)
         | (Fails e, s) \<Rightarrow> (Fails e, s) | (Never_Returns, s) \<Rightarrow> (Never_Returns, s) | (Overruns, s) \<Rightarrow> (Overruns, s)))"
  by auto
termination
  by (relation "measure (\<lambda>(fs, slot, s). 10000000 - slot)") auto

declare allocate_install_path.simps [simp del]

text \<open>Behind the download: the checks of the image.\<close>

definition check_image :: "pkg_entry \<Rightarrow> bytes \<Rightarrow> sha256_context \<Rightarrow> ('n, 'f, unit) pkg_call" where
  "check_image e img hash =
     (case sha256_final hash of
        None \<Rightarrow> (\<lambda>s. (Overruns, s))
      | Some digest \<Rightarrow>
          if \<not> digest_matches digest (pe_sha256 e) then pfail PKG_HASH
          else if \<not> app_image_valid img then pfail PKG_APP_FORMAT else pgive ())"

text \<open>Behind the checks: the file and the registry.\<close>

definition store_behind :: "'f file_calls \<Rightarrow> pkg_entry \<Rightarrow> bytes \<Rightarrow> installed_record list \<Rightarrow> ('n, 'f, unit) pkg_call" where
  "store_behind fs e img rs =
     (if PACKAGE_MANAGER_MAX_PACKAGES \<le> length rs then pfail PKG_STORAGE
      else
        pseq (allocate_install_path fs 1) (\<lambda>path.
        pseq (on_files (fc_write fs path img False)) (\<lambda>_.
        pseq (set_installed (rs @ [\<lparr>ir_id = text_copy PACKAGE_MANAGER_ID_CAPACITY (pe_id e),
            ir_version = text_copy PACKAGE_MANAGER_VERSION_CAPACITY (pe_version e),
            ir_path = text_copy PACKAGE_MANAGER_PATH_CAPACITY path\<rparr>])) (\<lambda>_.
        pcatch (save_installed_records fs) (\<lambda>ok.
          if ok then annotate_entries
          else pseq (set_installed rs) (\<lambda>_.
               pcatch (on_files (fc_rm fs path)) (\<lambda>_. pfail PKG_STORAGE)))))))"

definition store_package :: "'f file_calls \<Rightarrow> pkg_entry \<Rightarrow> bytes \<Rightarrow> ('n, 'f, unit) pkg_call" where
  "store_package fs e img =
     pseq (parse_local_records fs) (\<lambda>_ s. store_behind fs e img (installed_records s) s)"

text \<open>\<open>junk\<close> is the uninitialised hash context on the stack.\<close>

definition package_manager_install ::
    "'n http_client \<Rightarrow> 'f file_calls \<Rightarrow> sha256_context \<Rightarrow> nat \<Rightarrow> ('n, 'f, unit) pkg_call" where
  "package_manager_install get fs junk i s =
     (if length (package_entries s) \<le> i then (Fails PKG_NOT_FOUND, s)
      else
        (let e = package_entries s ! i
         in if pe_installed e then (Fails PKG_ALREADY_INSTALLED, s)
            else if PACKAGE_CAPACITY < pe_size e then (Fails PKG_LIMIT, s)
            else
              pseq (fetch_manifest get e) (\<lambda>(_, wanted, chunk_len).
              pseq (download get e wanted chunk_len [] (sha256_init junk)) (\<lambda>(img, hash).
              pseq (check_image e img hash) (\<lambda>_. store_package fs e img))) s))"

section \<open>Removing and favourites\<close>

definition remove_from :: "'f file_calls \<Rightarrow> pkg_entry \<Rightarrow> installed_record list \<Rightarrow> ('n, 'f, unit) pkg_call" where
  "remove_from fs e rs =
     (case find (\<lambda>k. key_matches (pe_id e) (pe_version e) (ir_id (rs ! k)) (ir_version (rs ! k))) [0..<length rs] of
        None \<Rightarrow> pfail PKG_NOT_FOUND
      | Some k \<Rightarrow>
          pseq (set_installed (take k rs @ drop (k + 1) rs)) (\<lambda>_.
          pcatch (save_installed_records fs) (\<lambda>saved.
            if \<not> saved then pseq (set_installed rs) (\<lambda>_. pfail PKG_STORAGE)
            else
              pcatch (on_files (fc_rm fs (ir_path (rs ! k)))) (\<lambda>removed.
                if removed then annotate_entries
                else pseq (set_installed rs) (\<lambda>_.
                     pcatch (save_installed_records fs) (\<lambda>_. pfail PKG_STORAGE))))))"

definition package_manager_remove :: "'f file_calls \<Rightarrow> nat \<Rightarrow> ('n, 'f, unit) pkg_call" where
  "package_manager_remove fs i s =
     (if length (package_entries s) \<le> i then (Fails PKG_NOT_FOUND, s)
      else pseq (parse_local_records fs) (\<lambda>_ t. remove_from fs (package_entries s ! i) (installed_records t) t) s)"

definition toggle_in :: "'f file_calls \<Rightarrow> pkg_entry \<Rightarrow> favorite_record list \<Rightarrow> ('n, 'f, unit) pkg_call" where
  "toggle_in fs e rs =
     (let k = find (\<lambda>k. key_matches (pe_id e) (pe_version e) (fr_id (rs ! k)) (fr_version (rs ! k))) [0..<length rs];
          new = \<lparr>fr_id = text_copy PACKAGE_MANAGER_ID_CAPACITY (pe_id e),
                 fr_version = text_copy PACKAGE_MANAGER_VERSION_CAPACITY (pe_version e)\<rparr>
      in if k = None \<and> PACKAGE_MANAGER_MAX_PACKAGES \<le> length rs then pfail PKG_LIMIT
         else
           pseq (set_favorites (case k of Some k \<Rightarrow> take k rs @ drop (k + 1) rs | None \<Rightarrow> rs @ [new])) (\<lambda>_.
           pcatch (save_favorite_records fs) (\<lambda>saved.
             if saved then annotate_entries
             else pseq (set_favorites rs) (\<lambda>_. pfail PKG_STORAGE))))"

definition package_manager_toggle_favorite :: "'f file_calls \<Rightarrow> nat \<Rightarrow> ('n, 'f, unit) pkg_call" where
  "package_manager_toggle_favorite fs i s =
     (if length (package_entries s) \<le> i then (Fails PKG_STORAGE, s)
      else pseq (parse_local_records fs) (\<lambda>_ t. toggle_in fs (package_entries s ! i) (favorite_records t) t) s)"

end
