(* ===== verification/Package_Facts.thy ===== *)
theory Package_Facts
  imports Package_Install
begin

text \<open>What the calls of the package manager return, taken apart; then the installer and the registry.\<close>

section \<open>Sequences of calls\<close>

lemma pseq_returns:
  assumes "pseq m f s = (Returns b, s')"
  obtains a t where "m s = (Returns a, t)" "f a t = (Returns b, s')"
  using assms by (auto simp: pseq_def split: prod.splits pkg_res.splits)

lemma pcatch_returns:
  assumes "pcatch m f s = (Returns b, s')"
  obtains t where "m s = (Returns (), t)" "f True t = (Returns b, s')"
  | e t where "m s = (Fails e, t)" "f False t = (Returns b, s')"
  using assms by (auto simp: pcatch_def split: prod.splits pkg_res.splits)

lemma pcheck_returns [simp]: "pcheck b e s = (Returns x, t) \<longleftrightarrow> b \<and> t = s"
  by (auto simp: pcheck_def pgive_def pfail_def)

lemma pgive_returns [simp]: "pgive a s = (Returns b, t) \<longleftrightarrow> b = a \<and> t = s"
  by (auto simp: pgive_def)

lemma pfail_returns [simp]: "pfail e s \<noteq> (Returns b, t)"
  by (simp add: pfail_def)

lemma on_files_returns:
  assumes "on_files m s = (Returns a, t)"
  shows "m (files s) = (io_res.Done a, files t)" "t = s\<lparr>files := files t\<rparr>"
  using assms by (auto simp: on_files_def split: prod.splits io_res.splits)

lemma set_installed_returns [simp]: "set_installed rs s = (Returns x, t) \<longleftrightarrow> t = s\<lparr>installed_records := rs\<rparr>"
  by (auto simp: set_installed_def)

lemma set_favorites_returns [simp]: "set_favorites rs s = (Returns x, t) \<longleftrightarrow> t = s\<lparr>favorite_records := rs\<rparr>"
  by (auto simp: set_favorites_def)

lemma join_parts_text: "join_parts capacity out ps = Some t \<Longrightarrow> t = out @ concat ps"
  by (induction capacity out ps rule: join_parts.induct) (auto split: if_splits)

section \<open>Downloading\<close>

lemma fetch_manifest_size:
  assumes "fetch_manifest get e s = (Returns (d, n, k), t)"
  shows "n = pe_size e" "files t = files s" "package_entries t = package_entries s"
proof -
  from assms obtain path where path: "make_endpoint 128 (ascii ''/api/v1/packages/'') (pe_id e) (ascii ''/'')
      (pe_version e) (ascii ''/manifest'') = Some path"
    "pseq (http_fetch get path MANIFEST_CAPACITY (ascii ''text/plain'')) (\<lambda>t.
       case parse_manifest e t of None \<Rightarrow> pfail PKG_PROTOCOL | Some m \<Rightarrow> pgive m) s = (Returns (d, n, k), t)"
    by (auto simp: fetch_manifest_def split: option.splits)
  then obtain b u where u: "http_fetch get path MANIFEST_CAPACITY (ascii ''text/plain'') s = (Returns b, u)"
    "parse_manifest e b = Some (d, n, k)" "t = u"
    by (auto elim!: pseq_returns split: option.splits)
  then show "n = pe_size e"
    by (auto simp: parse_manifest_def Let_def split: option.splits if_splits)
  show "files t = files s" "package_entries t = package_entries s"
    using u(1,3) by (auto simp: http_fetch_def split: option.splits http_result.splits if_splits)
qed

lemma http_fetch_keeps:
  assumes "http_fetch get path capacity kind s = (r, t)"
  shows "files t = files s" "package_entries t = package_entries s"
    "installed_records t = installed_records s" "favorite_records t = favorite_records s"
  using assms by (auto simp: http_fetch_def split: option.splits http_result.splits if_splits prod.splits)

lemma download_absorbed:
  assumes "download get e wanted k img hash s = (Returns (img', hash'), t)"
    and "absorbed hash img" "length img \<le> wanted"
  shows "absorbed hash' img' \<and> length img' = wanted \<and> files t = files s \<and> package_entries t = package_entries s"
  using assms
proof (induction get e wanted k img hash s rule: download.induct)
  case (1 get e wanted k img hash s)
  show ?case
  proof (cases "wanted \<le> length img")
    case True
    then show ?thesis using 1(2-) by (subst (asm) (1) download.simps) simp
  next
    case False
    let ?n = "min (wanted - length img) k"
    obtain r u where ru: "http_fetch get (chunk_endpoint e (length img) ?n) CHUNK_CAPACITY
        (ascii ''application/octet-stream'') s = (r, u)" by fastforce
    from 1(2) False ru obtain piece h where p: "r = Returns piece" "length piece = ?n" "?n \<noteq> 0"
      "sha256_update piece hash = Some h" "download get e wanted k (img @ piece) h u = (Returns (img', hash'), t)"
      by (subst (asm) download.simps) (auto simp: Let_def split: pkg_res.splits if_splits option.splits)
    have "absorbed h (img @ piece)" using absorbed_update [OF 1(3), of piece] p(4) by auto
    moreover have "length (img @ piece) \<le> wanted" using p(2) 1(4) by simp
    ultimately show ?thesis
      using 1(1) [OF False refl ru [symmetric] p(1) _ p(3) p(4)] p http_fetch_keeps [OF ru] by simp
  qed
qed

section \<open>The path of an installed file\<close>

lemma install_path:
  assumes "allocate_install_path fs slot s = (Returns path, t)"
  shows "path_is_installed_file path \<and> package_entries t = package_entries s
    \<and> installed_records t = installed_records s \<and> favorite_records t = favorite_records s"
  using assms
proof (induction fs slot s rule: allocate_install_path.induct)
  case (1 fs slot s)
  obtain r u where ru: "on_files (fc_list fs PACKAGES_DIR (find_name (install_name slot)) False) s = (r, u)" by fastforce
  then have keep: "package_entries u = package_entries s" "installed_records u = installed_records s"
    "favorite_records u = favorite_records s"
    by (auto simp: on_files_def split: prod.splits io_res.splits)
  have slot: "\<not> 10000000 \<le> slot" using 1(2) by (subst (asm) allocate_install_path.simps) (simp split: if_splits)
  from 1(2) ru slot obtain found where found: "r = Returns found"
    by (subst (asm) allocate_install_path.simps) (auto split: pkg_res.splits)
  show ?case
  proof (cases found)
    case True
    then show ?thesis using 1(1) [OF slot ru [symmetric] found True] 1(2) ru found slot keep
      by (subst (asm) (2) allocate_install_path.simps) simp
  next
    case False
    then have "path = append_text PACKAGE_MANAGER_PATH_CAPACITY (install_name slot)
        (append_text PACKAGE_MANAGER_PATH_CAPACITY (ascii ''/PKGS/'') [])" "t = u"
      using 1(2) ru found slot by (subst (asm) allocate_install_path.simps; simp)+
    then have "path = ascii ''/PKGS/'' @ install_name slot"
      by (simp add: append_text_def PACKAGE_MANAGER_PATH_CAPACITY_def install_name_def ascii_def)
    moreover have "48 \<le> (of_nat (48 + d) :: u8) \<and> (of_nat (48 + d) :: u8) \<le> 57" if "d < 10" for d
    proof -
      have "unat (of_nat (48 + d) :: u8) = 48 + d" unfolding unat_of_nat using that by simp
      then show ?thesis using that by (simp only: word_le_nat_alt) simp
    qed
    ultimately have "path_is_installed_file path"
      by (simp add: path_is_installed_file_def install_name_def ascii_def)
    then show ?thesis using \<open>t = u\<close> keep by simp
  qed
qed

end
