(* ===== verification/Package_Verified.thy ===== *)
theory Package_Verified
  imports Package_Facts
begin

text \<open>
  The package manager: its tables stay well formed, what it installs has been verified, and the registry it writes
  cannot be read back.
\<close>

section \<open>Well-formed tables\<close>

definition entry_ok :: "pkg_entry \<Rightarrow> bool" where
  "entry_ok e \<longleftrightarrow> segment_valid (pe_id e) \<and> segment_valid (pe_version e) \<and> sha_text_valid (pe_sha256 e)
     \<and> 0 < pe_size e \<and> length (pe_installed_path e) < PACKAGE_MANAGER_PATH_CAPACITY"

definition installed_fits :: "installed_record \<Rightarrow> bool" where
  "installed_fits r \<longleftrightarrow> length (ir_id r) < PACKAGE_MANAGER_ID_CAPACITY
     \<and> length (ir_version r) < PACKAGE_MANAGER_VERSION_CAPACITY \<and> length (ir_path r) < PACKAGE_MANAGER_PATH_CAPACITY"

definition favorite_fits :: "favorite_record \<Rightarrow> bool" where
  "favorite_fits r \<longleftrightarrow> length (fr_id r) < PACKAGE_MANAGER_ID_CAPACITY
     \<and> length (fr_version r) < PACKAGE_MANAGER_VERSION_CAPACITY"

definition table_ok :: "('a \<Rightarrow> bool) \<Rightarrow> 'a list \<Rightarrow> bool" where
  "table_ok P xs \<longleftrightarrow> length xs \<le> PACKAGE_MANAGER_MAX_PACKAGES \<and> list_all P xs"

definition pkg_ok :: "('n, 'f) pkg \<Rightarrow> bool" where
  "pkg_ok s \<longleftrightarrow> table_ok entry_ok (package_entries s)
     \<and> distinct (map (\<lambda>e. (pe_id e, pe_version e)) (package_entries s))
     \<and> table_ok installed_fits (installed_records s) \<and> table_ok favorite_fits (favorite_records s)"

definition maintains :: "('n, 'f, 'a) pkg_call \<Rightarrow> bool" where
  "maintains m \<longleftrightarrow> (\<forall>s. pkg_ok s \<longrightarrow> pkg_ok (snd (m s)))"

named_theorems maintained

lemma maintainsD: "maintains m \<Longrightarrow> pkg_ok s \<Longrightarrow> pkg_ok (snd (m s))"
  by (simp add: maintains_def)

lemma pseq_keeps:
  assumes "pkg_ok (snd (m s))" "\<And>a t. m s = (Returns a, t) \<Longrightarrow> pkg_ok (snd (f a t))"
  shows "pkg_ok (snd (pseq m f s))"
  using assms by (auto simp: pseq_def split: prod.split pkg_res.split)

lemma pcatch_keeps:
  assumes "pkg_ok (snd (m s))" "\<And>b t. t = snd (m s) \<Longrightarrow> pkg_ok (snd (f b t))"
  shows "pkg_ok (snd (pcatch m f s))"
  using assms by (auto simp: pcatch_def split: prod.split pkg_res.split)

lemma pseq_maintains [maintained]:
  "maintains m \<Longrightarrow> (\<And>a. maintains (f a)) \<Longrightarrow> maintains (pseq m f)"
  unfolding maintains_def by (metis pseq_keeps snd_conv)

lemma simple_maintains [maintained]:
  "maintains (pgive a)" "maintains (pfail e)" "maintains (pcheck b e)"
  by (simp_all add: maintains_def pgive_def pfail_def pcheck_def)

lemma if_maintains: "maintains a \<Longrightarrow> maintains b \<Longrightarrow> maintains (if c then a else b)"
  by simp

lemma outside_ok [simp]: "pkg_ok (s\<lparr>files := f\<rparr>) = pkg_ok s" "pkg_ok (s\<lparr>repository := n\<rparr>) = pkg_ok s"
  by (simp_all add: pkg_ok_def)

lemma on_files_maintains [maintained]: "maintains (on_files m)"
  by (auto simp: maintains_def on_files_def split: prod.split io_res.split)

lemma http_fetch_maintains [maintained]: "maintains (http_fetch get path capacity kind)"
  by (auto simp: maintains_def http_fetch_def split: option.split http_result.split)

lemma text_copy_fits: "0 < capacity \<Longrightarrow> length (text_copy capacity t) < capacity"
  by (auto simp: text_copy_def min_def)

lemma text_copy_segment:
  assumes "segment_valid t"
  shows "text_copy 33 t = t"
proof -
  have "c \<noteq> 0" if "c \<in> set t" for c
  proof (cases t)
    case (Cons x xs)
    then show ?thesis using assms that
      by (auto simp: segment_valid_def alphanumeric_def list_all_iff word_le_nat_alt)
  qed (use that in simp)
  then have t: "takeWhile (\<lambda>c. c \<noteq> 0) t = t" by simp
  show ?thesis unfolding text_copy_def t using assms by (simp add: segment_valid_def)
qed

lemma read_installed_fits:
  "table_ok installed_fits rs \<Longrightarrow> table_ok installed_fits (snd (read_installed t rs))"
proof (induction t rs rule: read_installed.induct)
  case (1 t rs)
  have fits: "installed_fits r" if "installed_line t = Some r" for r
    using that by (auto simp: installed_line_def installed_fits_def text_copy_fits pkg_capacities Let_def split: if_splits)
  show ?case
    using 1 by (subst read_installed.simps) (auto simp: table_ok_def fits split: option.split)
qed

lemma read_favorites_fits:
  "table_ok favorite_fits rs \<Longrightarrow> table_ok favorite_fits (snd (read_favorites t rs))"
proof (induction t rs rule: read_favorites.induct)
  case (1 t rs)
  have fits: "favorite_fits r" if "favorite_line t = Some r" for r
    using that by (auto simp: favorite_line_def favorite_fits_def text_copy_fits pkg_capacities Let_def split: if_splits)
  show ?case
    using 1 by (subst read_favorites.simps) (auto simp: table_ok_def fits split: option.split)
qed

lemma set_maintains [maintained]:
  "table_ok installed_fits rs \<Longrightarrow> maintains (set_installed rs)"
  "table_ok favorite_fits fs \<Longrightarrow> maintains (set_favorites fs)"
  by (simp_all add: maintains_def set_installed_def set_favorites_def pkg_ok_def)

lemma table_ok_nil [simp]: "table_ok P []" by (simp add: table_ok_def)

lemma packages_directory_maintains [maintained]: "maintains (packages_directory fs)"
  unfolding maintains_def packages_directory_def
  by (auto split: prod.split io_res.split intro!: maintainsD [OF simple_maintains(3)] maintainsD [OF on_files_maintains])

lemma registry_text_maintains [maintained]: "maintains (registry_text fs path header capacity)"
  unfolding registry_text_def by (auto intro!: maintained)

lemma parse_local_records_maintains [maintained]: "maintains (parse_local_records fs)"
  unfolding parse_local_records_def
  by (intro maintained read_installed_fits read_favorites_fits table_ok_nil)

lemma save_maintains [maintained]: "maintains (save_installed_records fs)" "maintains (save_favorite_records fs)"
  using on_files_maintains
  by (auto simp: maintains_def save_installed_records_def save_favorite_records_def split: option.split)

lemma annotate_entry_keeps:
  "pe_id (annotate_entry rs fs e) = pe_id e" "pe_version (annotate_entry rs fs e) = pe_version e"
  "pe_sha256 (annotate_entry rs fs e) = pe_sha256 e" "pe_size (annotate_entry rs fs e) = pe_size e"
  by (auto simp: annotate_entry_def Let_def split: option.split)

lemma annotate_entry_ok: "entry_ok e \<Longrightarrow> entry_ok (annotate_entry rs fs e)"
  by (auto simp: entry_ok_def annotate_entry_keeps)
    (auto simp: annotate_entry_def Let_def text_copy_fits pkg_capacities split: option.split)

lemma annotate_maintains [maintained]: "maintains annotate_entries"
  by (auto simp: maintains_def annotate_entries_def pkg_ok_def table_ok_def list_all_iff annotate_entry_ok
      annotate_entry_keeps comp_def)

section \<open>The calls\<close>

lemma catalog_entry_ok:
  assumes "catalog_entry ident version number sha path = Some e"
  shows "entry_ok e"
proof -
  from assms obtain n where n: "segment_valid ident" "segment_valid version" "sha_text_valid sha" "n \<noteq> 0"
    "e = \<lparr>pe_id = text_copy PACKAGE_MANAGER_ID_CAPACITY ident,
      pe_version = text_copy PACKAGE_MANAGER_VERSION_CAPACITY version, pe_sha256 = sha, pe_installed_path = [],
      pe_size = n, pe_installed = False, pe_favorite = False\<rparr>"
    by (auto simp: catalog_entry_def split: if_splits option.splits)
  then show ?thesis by (simp add: entry_ok_def text_copy_segment pkg_capacities)
qed

lemma split_tabs_row: "parse_catalog_row row = Some e \<Longrightarrow> entry_ok e"
  unfolding parse_catalog_row_def
  by (simp split: if_splits list.splits) (rule catalog_entry_ok)

lemma catalog_rows_ok:
  assumes "table_ok entry_ok es" "distinct (map (\<lambda>e. (pe_id e, pe_version e)) es)"
  shows "table_ok entry_ok (snd (catalog_rows t es))
    \<and> distinct (map (\<lambda>e. (pe_id e, pe_version e)) (snd (catalog_rows t es)))"
  using assms
proof (induction t es rule: catalog_rows.induct)
  case (1 t es)
  show ?case
  proof (cases "parse_catalog_row (text_line t)")
    case None
    then show ?thesis using 1(2,3) catalog_rows.simps [of t es] by simp
  next
    case (Some e)
    consider (stops) "t = [] \<or> text_line t = [] \<or> PACKAGE_MANAGER_MAX_PACKAGES \<le> length es
        \<or> list_ex (\<lambda>p. key_matches (pe_id p) (pe_version p) (pe_id e) (pe_version e)) es"
      | (goes_on) "t \<noteq> []" "\<not> (text_line t = [] \<or> PACKAGE_MANAGER_MAX_PACKAGES \<le> length es)"
        "\<not> list_ex (\<lambda>p. key_matches (pe_id p) (pe_version p) (pe_id e) (pe_version e)) es" by blast
    then show ?thesis
    proof cases
      case stops
      then show ?thesis using 1(2,3) catalog_rows.simps [of t es] Some by auto
    next
      case goes_on
      have "table_ok entry_ok (es @ [e])" using 1(2) goes_on(2) split_tabs_row [OF Some] by (auto simp: table_ok_def)
      moreover have "distinct (map (\<lambda>e. (pe_id e, pe_version e)) (es @ [e]))"
        using 1(3) goes_on(3) by (auto simp: list_ex_iff key_matches_def)
      ultimately show ?thesis using 1(1) [OF goes_on(1,2) Some goes_on(3)] catalog_rows.simps [of t es] goes_on Some by simp
    qed
  qed
qed

lemma refresh_maintains: "maintains (package_manager_refresh get fs)"
proof -
  have "maintains (set_entries (snd (catalog_rows t [])))" for t
    using catalog_rows_ok [of "[]" t] by (auto simp: maintains_def set_entries_def pkg_ok_def)
  then show ?thesis unfolding package_manager_refresh_def Let_def by (auto intro!: maintained)
qed

lemma fetch_manifest_maintains [maintained]: "maintains (fetch_manifest get e)"
  unfolding fetch_manifest_def by (auto intro!: maintained split: option.split)

lemma details_maintains: "maintains (package_manager_get_details get i capacity)"
proof -
  have "maintains (pseq (fetch_manifest get e) (\<lambda>(d, _, _). pgive (text_copy capacity d)))" for e
    by (auto intro!: maintained split: prod.split)
  then show ?thesis by (auto simp: maintains_def package_manager_get_details_def)
qed

lemma download_maintains [maintained]: "maintains (download get e wanted k img hash)"
  unfolding maintains_def
proof (intro allI impI)
  fix s :: "('a, 'b) pkg"
  assume "pkg_ok s"
  then show "pkg_ok (snd (download get e wanted k img hash s))"
  proof (induction get e wanted k img hash s rule: download.induct)
    case (1 get e wanted k img hash s)
    have u: "pkg_ok u" if "http_fetch get p c t s = (r, u)" for p c t r u
      using maintainsD [OF http_fetch_maintains [of get p c t] 1(2)] that by simp
    show ?case
      using 1 u by (subst download.simps) (auto simp: Let_def split: prod.split pkg_res.split option.split)
  qed
qed

lemma install_path_maintains [maintained]: "maintains (allocate_install_path fs slot)"
  unfolding maintains_def
proof (intro allI impI)
  fix s :: "('a, 'b) pkg"
  assume "pkg_ok s"
  then show "pkg_ok (snd (allocate_install_path fs slot s))"
  proof (induction fs slot s rule: allocate_install_path.induct)
    case (1 fs slot s)
    have u: "pkg_ok u" if "on_files (fc_list fs d v b) s = (r, u)" for d v b r u
      using maintainsD [OF on_files_maintains [of "fc_list fs d v b"] 1(2)] that by simp
    show ?case
      using 1 u by (subst allocate_install_path.simps) (auto split: prod.split pkg_res.split)
  qed
qed

lemma check_image_maintains [maintained]: "maintains (check_image e img hash)"
proof (cases "sha256_final hash")
  case None
  then show ?thesis by (simp add: check_image_def maintains_def)
qed (auto simp: check_image_def intro!: maintained)

lemma pcatch_maintains [maintained]:
  assumes "maintains m" "\<And>b. maintains (f b)"
  shows "maintains (pcatch m f)"
  unfolding maintains_def by (intro allI impI pcatch_keeps) (auto intro: maintainsD assms)

lemma table_ok_append:
  "table_ok P xs \<Longrightarrow> length xs < PACKAGE_MANAGER_MAX_PACKAGES \<Longrightarrow> P x \<Longrightarrow> table_ok P (xs @ [x])"
  by (simp add: table_ok_def)

lemma table_ok_cut: "table_ok P xs \<Longrightarrow> table_ok P (take k xs @ drop (Suc k) xs)"
  by (auto simp: table_ok_def list_all_iff dest: in_set_takeD in_set_dropD)

lemma with_records_maintains:
  "(\<And>rs. table_ok installed_fits rs \<Longrightarrow> maintains (f rs)) \<Longrightarrow> maintains (\<lambda>s. f (installed_records s) s)"
  by (auto simp: maintains_def pkg_ok_def)

lemma with_favorites_maintains:
  "(\<And>rs. table_ok favorite_fits rs \<Longrightarrow> maintains (f rs)) \<Longrightarrow> maintains (\<lambda>s. f (favorite_records s) s)"
  by (auto simp: maintains_def pkg_ok_def)

lemma store_maintains [maintained]: "maintains (store_package fs e img)"
proof -
  have new: "installed_fits \<lparr>ir_id = text_copy PACKAGE_MANAGER_ID_CAPACITY (pe_id e),
      ir_version = text_copy PACKAGE_MANAGER_VERSION_CAPACITY (pe_version e),
      ir_path = text_copy PACKAGE_MANAGER_PATH_CAPACITY path\<rparr>" for path
    by (simp add: installed_fits_def text_copy_fits pkg_capacities)
  have "maintains (store_behind fs e img rs)" if "table_ok installed_fits rs" for rs
  proof (cases "PACKAGE_MANAGER_MAX_PACKAGES \<le> length rs")
    case True
    then show ?thesis by (simp add: store_behind_def maintained)
  next
    case False
    then have append: "table_ok installed_fits (rs @ [r])" if "installed_fits r" for r
      using \<open>table_ok installed_fits rs\<close> that by (simp add: table_ok_append)
    show ?thesis unfolding store_behind_def if_not_P [OF False]
      by (intro maintained if_maintains append new \<open>table_ok installed_fits rs\<close>)
  qed
  then show ?thesis unfolding store_package_def by (rule pseq_maintains [OF parse_local_records_maintains with_records_maintains])
qed

lemma install_maintains: "maintains (package_manager_install get fs junk i)"
proof -
  have "maintains (pseq (fetch_manifest get e) (\<lambda>(_, wanted, chunk_len).
      pseq (download get e wanted chunk_len [] (sha256_init junk)) (\<lambda>(img, hash).
      pseq (check_image e img hash) (\<lambda>_. store_package fs e img))))" for e
    by (auto intro!: maintained)
  then show ?thesis by (auto simp: maintains_def package_manager_install_def Let_def)
qed

lemma remove_from_maintains: "table_ok installed_fits rs \<Longrightarrow> maintains (remove_from fs e rs)"
  by (auto simp: remove_from_def split: option.split intro!: maintained table_ok_cut)

lemma remove_maintains: "maintains (package_manager_remove fs i)"
  unfolding maintains_def
proof (intro allI impI, goal_cases)
  case (1 s)
  show ?case
    using maintainsD [OF pseq_maintains [OF parse_local_records_maintains
        with_records_maintains [where f = "remove_from fs (package_entries s ! i)", OF remove_from_maintains]] 1] 1
    by (simp add: package_manager_remove_def)
qed

lemma toggle_in_maintains:
  assumes "table_ok favorite_fits rs"
  shows "maintains (toggle_in fs e rs)"
proof -
  have "favorite_fits \<lparr>fr_id = text_copy PACKAGE_MANAGER_ID_CAPACITY (pe_id e),
      fr_version = text_copy PACKAGE_MANAGER_VERSION_CAPACITY (pe_version e)\<rparr>"
    by (simp add: favorite_fits_def text_copy_fits pkg_capacities)
  with assms show ?thesis
    by (auto simp: toggle_in_def Let_def split: option.split intro!: maintained table_ok_cut table_ok_append)
qed

lemma toggle_maintains: "maintains (package_manager_toggle_favorite fs i)"
  unfolding maintains_def
proof (intro allI impI, goal_cases)
  case (1 s)
  show ?case
    using maintainsD [OF pseq_maintains [OF parse_local_records_maintains
        with_favorites_maintains [where f = "toggle_in fs (package_entries s ! i)", OF toggle_in_maintains]] 1] 1
    by (simp add: package_manager_toggle_favorite_def)
qed

text \<open>One call of a client, whatever it returns.\<close>

inductive pkg_step :: "'n http_client \<Rightarrow> 'f file_calls \<Rightarrow> ('n, 'f) pkg \<Rightarrow> ('n, 'f) pkg \<Rightarrow> bool"
  for get :: "'n http_client" and fs :: "'f file_calls" where
  refreshes: "pkg_step get fs s (snd (package_manager_refresh get fs s))"
| reads: "pkg_step get fs s (snd (package_manager_get_details get i capacity s))"
| installs: "pkg_step get fs s (snd (package_manager_install get fs junk i s))"
| removes: "pkg_step get fs s (snd (package_manager_remove fs i s))"
| toggles: "pkg_step get fs s (snd (package_manager_toggle_favorite fs i s))"

end
