(* ===== verification/Package_Registry.thy ===== *)
theory Package_Registry
  imports Package_Verified
begin

text \<open>
  The installer end to end, and the registry: the text written after an installation is refused when it is read
  back, because the path is copied beyond the end of its line.
\<close>

section \<open>Lines\<close>

lemma text_line_end: "10 \<notin> set l \<Longrightarrow> text_line (l @ 10 # r) = l"
proof -
  assume "10 \<notin> set l"
  then have "takeWhile (\<lambda>c. c \<noteq> 10) (l @ 10 # r) = l @ takeWhile (\<lambda>c. c \<noteq> 10) (10 # r)"
    by (intro takeWhile_append2) auto
  then show ?thesis by (simp add: text_line_def)
qed

lemma next_line_end: "10 \<notin> set l \<Longrightarrow> next_line (l @ 10 # r) = r"
  by (simp add: next_line_def text_line_end)

definition segment_char :: "u8 \<Rightarrow> bool" where
  "segment_char c \<longleftrightarrow> c \<noteq> 0 \<and> c \<noteq> 9 \<and> c \<noteq> 10"

lemma segment_chars:
  assumes "segment_valid t" "c \<in> set t"
  shows "segment_char c"
proof -
  have "alphanumeric c \<or> c = 46 \<or> c = 95 \<or> c = 45"
    using assms by (cases t) (auto simp: segment_valid_def list_all_iff)
  then show ?thesis by (auto simp: segment_char_def alphanumeric_def word_le_nat_alt)
qed

lemma path_chars:
  assumes "path_is_installed_file p" "c \<in> set p"
  shows "segment_char c"
proof -
  have "p = take 7 p @ take 7 (drop 7 p) @ drop 14 p"
    using append_take_drop_id [of 7 p] append_take_drop_id [of 7 "drop 7 p"] by simp
  then have "c \<in> set (take 7 p) \<or> c \<in> set (take 7 (drop 7 p)) \<or> c \<in> set (drop 14 p)"
    using assms(2) by (metis Un_iff set_append)
  moreover have "segment_char c" if "48 \<le> c" "c \<le> 57" for c :: u8
    using that by (auto simp: segment_char_def word_le_nat_alt)
  ultimately show ?thesis using assms
    by (auto simp: path_is_installed_file_def list_all_iff segment_char_def ascii_def)
qed

section \<open>The registry of installed packages\<close>

definition record_ok :: "installed_record \<Rightarrow> bool" where
  "record_ok r \<longleftrightarrow> segment_valid (ir_id r) \<and> segment_valid (ir_version r) \<and> path_is_installed_file (ir_path r)"

definition registry_lines :: "installed_record list \<Rightarrow> bytes" where
  "registry_lines rs = concat (concat (map installed_fields rs))"

lemma registry_line:
  assumes "record_ok r"
  shows "installed_line (registry_lines (r # rs)) =
    Some \<lparr>ir_id = ir_id r, ir_version = ir_version r, ir_path = take 23 (ir_path r @ 10 # takeWhile (\<lambda>c. c \<noteq> 0) (registry_lines rs))\<rparr>"
proof -
  let ?i = "ir_id r" and ?v = "ir_version r" and ?p = "ir_path r" and ?rest = "registry_lines rs"
  have c: "\<forall>c \<in> set ?i. segment_char c" "\<forall>c \<in> set ?v. segment_char c" "\<forall>c \<in> set ?p. segment_char c"
    using assms segment_chars path_chars by (auto simp: record_ok_def)
  have t: "registry_lines (r # rs) = ?i @ 9 # ?v @ 9 # ?p @ 10 # ?rest"
    by (simp add: registry_lines_def installed_fields_def)
  have line: "text_line (registry_lines (r # rs)) = ?i @ 9 # ?v @ 9 # ?p"
    unfolding t using text_line_end [of "?i @ 9 # ?v @ 9 # ?p" ?rest] c by (auto simp: segment_char_def)
  have a: "takeWhile (\<lambda>c. c \<noteq> 9) (?i @ 9 # ?v @ 9 # ?p) = ?i" "takeWhile (\<lambda>c. c \<noteq> 9) (?v @ 9 # ?p) = ?v"
    using c by (auto simp: segment_char_def takeWhile_tail)
  have z: "takeWhile (\<lambda>c. c \<noteq> 0) (?p @ 10 # ?rest) = ?p @ 10 # takeWhile (\<lambda>c. c \<noteq> 0) ?rest"
    using c(3) by (simp add: segment_char_def)
  then have p: "text_copy 24 (?p @ 10 # ?rest) = take 23 (?p @ 10 # takeWhile (\<lambda>c. c \<noteq> 0) ?rest)"
    by (simp add: text_copy_def)
  show ?thesis
    using assms unfolding installed_line_def line
    by (simp add: a p record_ok_def text_copy_segment pkg_capacities Let_def t)
qed

lemma registry_refused:
  assumes "record_ok r"
  shows "fst (read_installed (registry_lines (r # rs)) []) = False"
proof -
  have p: "length (ir_path r) = 18" using assms by (simp add: record_ok_def path_is_installed_file_def)
  then have "\<not> path_is_installed_file (take 23 (ir_path r @ 10 # t))" for t
    by (simp add: path_is_installed_file_def)
  moreover have "registry_lines (r # rs) \<noteq> []" by (simp add: registry_lines_def installed_fields_def)
  ultimately show ?thesis
    using read_installed.simps [of "registry_lines (r # rs)" "[]"] registry_line [OF assms]
    by (simp add: PACKAGE_MANAGER_MAX_PACKAGES_def)
qed

lemma read_installed_ok:
  "read_installed t rs = (True, rs') \<Longrightarrow> list_all record_ok rs \<Longrightarrow> list_all record_ok rs'"
proof (induction t rs rule: read_installed.induct)
  case (1 t rs)
  show ?case
  proof (cases "t = []")
    case True
    then show ?thesis using 1(2,3) by (simp add: read_installed.simps)
  next
    case False
    then obtain r where r: "installed_line t = Some r" "\<not> PACKAGE_MANAGER_MAX_PACKAGES \<le> length rs"
      "path_is_installed_file (ir_path r)" "read_installed (next_line t) (rs @ [r]) = (True, rs')"
      using 1(2) by (subst (asm) read_installed.simps) (auto split: option.splits if_splits)
    have "record_ok r" using r(1,3)
      by (auto simp: installed_line_def record_ok_def text_copy_segment pkg_capacities Let_def split: if_splits)
    then show ?thesis using 1(1) [OF False r(1,2) _ r(4)] r(3) 1(3) by simp
  qed
qed

section \<open>Installing\<close>

lemma registry_text_keeps:
  assumes "registry_text fs path header capacity s = (Returns b, t)"
  shows "installed_records t = installed_records s"
  using assms
  by (auto simp: registry_text_def on_files_def elim!: pseq_returns split: prod.splits io_res.splits if_splits)

lemma parse_local_returns:
  assumes "parse_local_records fs s = (Returns (), t)"
  shows "list_all record_ok (installed_records t)"
proof -
  from assms obtain b where "fst (read_installed b [])" "installed_records t = snd (read_installed b [])"
    by (auto simp: parse_local_records_def elim!: pseq_returns dest!: registry_text_keeps)
  then show ?thesis using read_installed_ok [of b "[]"] by (cases "read_installed b []") simp
qed

text \<open>A saved registry as the disk has it.\<close>

lemma save_returns:
  assumes "save_installed_records fs s = (Returns (), t)"
  shows "fc_write fs INSTALLED_DB (installed_header @ registry_lines (installed_records s)) False (files s)
      = (io_res.Done (), files t)" "t = s\<lparr>files := files t\<rparr>"
proof -
  from assms obtain body where body: "join_parts INSTALLED_DB_CAPACITY installed_header
      (concat (map installed_fields (installed_records s))) = Some body"
    "on_files (fc_write fs INSTALLED_DB body False) s = (Returns (), t)"
    by (auto simp: save_installed_records_def split: option.splits)
  from join_parts_text [OF body(1)] have "body = installed_header @ registry_lines (installed_records s)"
    by (simp add: registry_lines_def)
  with on_files_returns [OF body(2)] show
    "fc_write fs INSTALLED_DB (installed_header @ registry_lines (installed_records s)) False (files s)
      = (io_res.Done (), files t)" "t = s\<lparr>files := files t\<rparr>" by simp_all
qed

text \<open>
  \<open>registry_reads fs t f\<close>: when the calls that precede the parsing of the registry succeed from the state \<open>f\<close> on,
  the bytes they read are \<open>t\<close>.
\<close>

definition registry_reads :: "'f file_calls \<Rightarrow> bytes \<Rightarrow> 'f \<Rightarrow> bool" where
  "registry_reads fs t f \<longleftrightarrow>
     (\<forall>f1 f2 f3 b f4.
        (fc_is_dir fs PACKAGES_DIR f = (io_res.Done True, f1)
         \<or> (\<exists>f0. fc_is_dir fs PACKAGES_DIR f = (Failed, f0) \<and> fc_mkdir fs PACKAGES_DIR f0 = (io_res.Done (), f1)))
        \<and> fc_touch fs INSTALLED_DB f1 = (io_res.Done (), f2) \<and> fc_touch fs FAVORITES_DB f2 = (io_res.Done (), f3)
        \<and> fc_read fs INSTALLED_DB (INSTALLED_DB_CAPACITY - 1) f3 = (io_res.Done b, f4) \<longrightarrow> b = t)"

lemma packages_directory_returns:
  assumes "packages_directory fs s = (Returns (), t)"
  shows "fc_is_dir fs PACKAGES_DIR (files s) = (io_res.Done True, files t)
    \<or> (\<exists>f0. fc_is_dir fs PACKAGES_DIR (files s) = (Failed, f0) \<and> fc_mkdir fs PACKAGES_DIR f0 = (io_res.Done (), files t))"
  using assms by (auto simp: packages_directory_def split: prod.splits io_res.splits dest!: on_files_returns(1))

text \<open>A registry with a record is refused, whatever follows it.\<close>

lemma registry_fails:
  assumes "registry_reads fs (installed_header @ registry_lines (r # rs)) (files s)" "record_ok r"
  shows "parse_local_records fs s \<noteq> (Returns (), t)"
proof
  assume "parse_local_records fs s = (Returns (), t)"
  then obtain u2 u3 u4 b u5 where
    u: "packages_directory fs (s\<lparr>installed_records := [], favorite_records := []\<rparr>) = (Returns (), u2)"
    "on_files (fc_touch fs INSTALLED_DB) u2 = (Returns (), u3)" "on_files (fc_touch fs FAVORITES_DB) u3 = (Returns (), u4)"
    "registry_text fs INSTALLED_DB installed_header INSTALLED_DB_CAPACITY u4 = (Returns b, u5)" "fst (read_installed b [])"
    by (auto simp: parse_local_records_def elim!: pseq_returns)
  let ?text = "installed_header @ registry_lines (r # rs)"
  from u(4) obtain x u6 where x: "on_files (fc_read fs INSTALLED_DB (INSTALLED_DB_CAPACITY - 1)) u4 = (Returns x, u6)"
    "(if x = [] then pseq (on_files (fc_write fs INSTALLED_DB installed_header False)) (\<lambda>_. pgive [])
      else if take (length installed_header) x \<noteq> installed_header then pfail PKG_STORAGE
      else pgive (drop (length installed_header) x)) u6 = (Returns b, u5)"
    by (auto simp: registry_text_def elim!: pseq_returns)
  have "x = ?text"
    using assms(1) packages_directory_returns [OF u(1)] on_files_returns(1) [OF u(2)] on_files_returns(1) [OF u(3)]
      on_files_returns(1) [OF x(1)]
    unfolding registry_reads_def by (simp (no_asm_use)) blast
  moreover have "installed_header \<noteq> []" by (simp add: installed_header_def)
  ultimately have "b = registry_lines (r # rs)" using x(2) by simp
  then show False using u(5) registry_refused [OF assms(2), of rs] by simp
qed

text \<open>Everything before the registry in a call leaves the files alone.\<close>

lemma remote_files:
  "http_fetch get p c kd s = (Returns b, t) \<Longrightarrow> files t = files s"
  "fetch_manifest get e s = (Returns m, t) \<Longrightarrow> files t = files s"
  "check_image e img hash s = (Returns (), t) \<Longrightarrow> files t = files s"
  "download get e wanted k img hash s = (Returns r, t) \<Longrightarrow> files t = files s"
proof -
  show "http_fetch get p c kd s = (Returns b, t) \<Longrightarrow> files t = files s" by (rule http_fetch_keeps)
  show "fetch_manifest get e s = (Returns m, t) \<Longrightarrow> files t = files s"
    by (cases m) (auto dest: fetch_manifest_size)
  show "check_image e img hash s = (Returns (), t) \<Longrightarrow> files t = files s"
    by (auto simp: check_image_def split: option.splits if_splits)
  show "download get e wanted k img hash s = (Returns r, t) \<Longrightarrow> files t = files s"
  proof (induction get e wanted k img hash s rule: download.induct)
    case (1 get e wanted k img hash s)
    show ?case
    proof (cases "wanted \<le> length img")
      case True
      then show ?thesis using 1(2) by (subst (asm) download.simps) simp
    next
      case False
      let ?n = "min (wanted - length img) k"
      obtain a u where au: "http_fetch get (chunk_endpoint e (length img) ?n) CHUNK_CAPACITY
          (ascii ''application/octet-stream'') s = (a, u)" by fastforce
      from 1(2) False au obtain piece h where p: "a = Returns piece" "length piece = ?n" "?n \<noteq> 0"
        "sha256_update piece hash = Some h" "download get e wanted k (img @ piece) h u = (Returns r, t)"
        by (subst (asm) download.simps) (auto simp: Let_def split: pkg_res.splits if_splits option.splits)
      then show ?thesis
        using 1(1) [OF False refl au [symmetric] p(1) _ p(3) p(4) p(5)] http_fetch_keeps(1) [OF au] by simp
    qed
  qed
qed

lemma join_parts_length: "join_parts capacity out ps = Some t \<Longrightarrow> length out < capacity \<Longrightarrow> length t < capacity"
  by (induction capacity out ps rule: join_parts.induct) (auto split: if_splits)

lemma save_length:
  assumes "save_installed_records fs s = (Returns (), t)"
  shows "length (installed_header @ registry_lines (installed_records s)) < INSTALLED_DB_CAPACITY"
proof -
  from assms obtain body where body: "join_parts INSTALLED_DB_CAPACITY installed_header
      (concat (map installed_fields (installed_records s))) = Some body"
    by (auto simp: save_installed_records_def split: option.splits)
  have "length installed_header < INSTALLED_DB_CAPACITY"
    by (simp add: installed_header_def ascii_def INSTALLED_DB_CAPACITY_def)
  then show ?thesis using join_parts_length [OF body] join_parts_text [OF body] by (simp add: registry_lines_def)
qed

lemma store_returns:
  assumes "store_package fs e img s = (Returns (), t)" "segment_valid (pe_id e)" "segment_valid (pe_version e)"
  shows "\<exists>path f f' rs. path_is_installed_file path \<and> fc_write fs path img False f = (io_res.Done (), f')
    \<and> list_all record_ok rs
    \<and> installed_records t = rs @ [\<lparr>ir_id = pe_id e, ir_version = pe_version e, ir_path = path\<rparr>]
    \<and> fc_write fs INSTALLED_DB (installed_header @ registry_lines (installed_records t)) False f' = (io_res.Done (), files t)
    \<and> length (installed_header @ registry_lines (installed_records t)) < INSTALLED_DB_CAPACITY"
proof -
  obtain u where u: "parse_local_records fs s = (Returns (), u)"
    "store_behind fs e img (installed_records u) u = (Returns (), t)"
    using assms(1) by (auto simp: store_package_def elim!: pseq_returns)
  let ?rs = "installed_records u"
  obtain path v w where v: "allocate_install_path fs 1 u = (Returns path, v)"
    "on_files (fc_write fs path img False) v = (Returns (), w)"
    "pcatch (save_installed_records fs) (\<lambda>ok.
        if ok then annotate_entries
        else pseq (set_installed ?rs) (\<lambda>_. pcatch (on_files (fc_rm fs path)) (\<lambda>_. pfail PKG_STORAGE)))
      (w\<lparr>installed_records := ?rs @ [\<lparr>ir_id = text_copy PACKAGE_MANAGER_ID_CAPACITY (pe_id e),
         ir_version = text_copy PACKAGE_MANAGER_VERSION_CAPACITY (pe_version e),
         ir_path = text_copy PACKAGE_MANAGER_PATH_CAPACITY path\<rparr>]\<rparr>) = (Returns (), t)"
    using u(2) by (auto simp: store_behind_def split: if_splits elim!: pseq_returns)
  have p: "path_is_installed_file path" using install_path [OF v(1)] by simp
  then have c: "takeWhile (\<lambda>c. c \<noteq> 0) path = path" "length path = 18"
    using path_chars [OF p] by (auto simp: segment_char_def path_is_installed_file_def)
  let ?new = "\<lparr>ir_id = pe_id e, ir_version = pe_version e, ir_path = path\<rparr>"
  have new: "\<lparr>ir_id = text_copy PACKAGE_MANAGER_ID_CAPACITY (pe_id e),
       ir_version = text_copy PACKAGE_MANAGER_VERSION_CAPACITY (pe_version e),
       ir_path = text_copy PACKAGE_MANAGER_PATH_CAPACITY path\<rparr> = ?new"
  proof -
    have "text_copy 24 path = path" unfolding text_copy_def c(1) using c(2) by simp
    then show ?thesis using assms(2,3) by (simp add: text_copy_segment pkg_capacities)
  qed
  from v(3) [unfolded new] obtain x where x: "save_installed_records fs (w\<lparr>installed_records := ?rs @ [?new]\<rparr>) = (Returns (), x)"
    "annotate_entries x = (Returns (), t)"
    by (auto elim!: pcatch_returns pseq_returns)
  have t: "installed_records t = ?rs @ [?new]" "files t = files x"
  proof -
    have "installed_records x = ?rs @ [?new]" by (subst save_returns(2) [OF x(1)]) simp
    then show "installed_records t = ?rs @ [?new]" "files t = files x" using x(2) by (auto simp: annotate_entries_def)
  qed
  show ?thesis
    using p on_files_returns(1) [OF v(2)] parse_local_returns [OF u(1)] t save_returns(1) [OF x(1)]
      save_length [OF x(1)]
    by (intro exI [of _ path] exI [of _ "files v"] exI [of _ "files w"] exI [of _ ?rs]) auto
qed

end
