(* ===== verification/Package_Sample.thy ===== *)
theory Package_Sample
  imports Package_Registry
begin

text \<open>
  One repository and one disk on which a package is installed, for the properties of the installer; then the
  favourites.
\<close>

section \<open>Digests as text\<close>

lemma fips_compress_length: "length h = 8 \<Longrightarrow> length (fips_compress h b) = 8"
proof -
  have "length (sha_add h v) = min (length h) 8" for v by (induction h v rule: sha_add.induct) simp
  then show "length h = 8 \<Longrightarrow> ?thesis" by (simp add: fips_compress_def)
qed

lemma fips_sha256_length: "length (fips_sha256 m) = 32"
proof -
  have "length h = 8 \<Longrightarrow> length (foldl fips_compress h bs) = 8" for h bs
    by (induction bs arbitrary: h) (simp_all add: fips_compress_length)
  then have "length (foldl fips_compress initial_state bs) = 8" for bs by (simp add: initial_state_def)
  then show ?thesis by (simp add: fips_sha256_def length_concat comp_def be_of_u32_def sum_list_triv)
qed

lemma hex_digit_range:
  assumes "k < 16"
  shows "48 \<le> hex_digit k \<and> hex_digit k \<le> 57 \<or> 97 \<le> hex_digit k \<and> hex_digit k \<le> 102"
proof -
  have u: "unat (hex_digit k) = (if k < 10 then 48 + k else 87 + k)"
    using assms by (simp add: hex_digit_def unat_of_nat del: of_nat_add)
  show ?thesis using assms by (simp only: word_le_nat_alt u) auto
qed

lemma hex_text_valid: "sha_text_valid (hex_text (fips_sha256 m))"
proof -
  have "length (hex_text b) = 2 * length b" for b by (induction b) (simp_all add: hex_text_def)
  moreover have "list_all (\<lambda>c. 48 \<le> c \<and> c \<le> 57 \<or> 97 \<le> c \<and> c \<le> 102) (hex_text b)" for b
  proof -
    have "unat x div 16 < 16" "unat x mod 16 < 16" for x :: u8
    proof -
      have "unat x < 2 ^ LENGTH(8)" by (rule unsigned_less)
      then show "unat x div 16 < 16" "unat x mod 16 < 16" by (simp_all add: less_mult_imp_div_less)
    qed
    from hex_digit_range [OF this(1)] hex_digit_range [OF this(2)] show ?thesis
      by (auto simp: hex_text_def list_all_iff)
  qed
  ultimately show ?thesis by (simp add: sha_text_valid_def fips_sha256_length)
qed

section \<open>Manifests\<close>

lemma manifest_line:
  assumes "key \<noteq> []" "\<forall>c \<in> set key. c \<noteq> 0 \<and> c \<noteq> 9 \<and> c \<noteq> 10 \<and> c \<noteq> 13"
    and "\<forall>c \<in> set v. c \<noteq> 0 \<and> c \<noteq> 10 \<and> c \<noteq> 13"
  shows "manifest_lines e (key @ 9 # v @ 10 # rest) m =
    (case manifest_field e key v m of None \<Rightarrow> None | Some m \<Rightarrow> manifest_lines e rest m)"
proof -
  obtain k ks where k: "key = k # ks" using assms(1) by (cases key) auto
  have line: "text_line (key @ 9 # v @ 10 # rest) = key @ 9 # v" "next_line (key @ 9 # v @ 10 # rest) = rest"
    using text_line_end [of "key @ 9 # v" rest] next_line_end [of "key @ 9 # v" rest] assms(2,3) by auto
  have "takeWhile (\<lambda>c. c \<noteq> 9) (ks @ 9 # v) = ks" using assms(2) k by (auto simp: takeWhile_append2)
  then have "take 1 (key @ 9 # v) @ takeWhile (\<lambda>c. c \<noteq> 9) (tl (key @ 9 # v)) = key" by (simp add: k)
  moreover have "13 \<notin> set (key @ 9 # v)" "0 \<notin> set (key @ 9 # v)" "9 \<in> set (tl (key @ 9 # v))"
    using assms(2,3) by (auto simp: k)
  ultimately show ?thesis
    by (subst manifest_lines.simps) (simp add: line Let_def split: option.split)
qed

section \<open>The sample\<close>

text \<open>A repository that serves texts under paths, and a disk on which the last write of a path counts.\<close>

definition served :: "(bytes \<times> bytes \<times> bytes) list http_client" where
  "served path capacity n =
     Some (case map_of n path of
             None \<Rightarrow> Http_Failed (- 3)
           | Some (kind, body) \<Rightarrow> Http_Done \<lparr>status_code = 200, http_body = body, content_type = kind\<rparr>, n)"

definition shelf_text :: "(bytes \<times> bytes) list \<Rightarrow> bytes \<Rightarrow> bytes" where
  "shelf_text f path = (case map_of f path of Some b \<Rightarrow> b | None \<Rightarrow> [])"

definition shelf :: "(bytes \<times> bytes) list file_calls" where
  "shelf = \<lparr>fc_is_dir = \<lambda>path f. (io_res.Done True, f), fc_mkdir = \<lambda>path f. (io_res.Done (), f),
     fc_touch = \<lambda>path f. (io_res.Done (), f),
     fc_read = \<lambda>path capacity f. (io_res.Done (take capacity (shelf_text f path)), f),
     fc_write = \<lambda>path b app f. (io_res.Done (), (path, b) # f),
     fc_list = \<lambda>path visit found f. (io_res.Done found, f), fc_rm = \<lambda>path f. (io_res.Done (), f)\<rparr>"

text \<open>An application of one byte behind its header, in version 1 of the package \<open>a\<close>.\<close>

definition sample_image :: bytes where
  "sample_image = [0x53, 0x49, 0x52, 0x50, 1, 0, 0, 0, 0, 0, 0, 0, 1, 0, 0, 0, 0, 0, 0, 0, 0]"

definition sample_digest :: bytes where "sample_digest = hex_text (fips_sha256 sample_image)"

definition sample_manifest :: bytes where
  "sample_manifest = ascii ''PRISMPKG-MANIFEST/1'' @ [10] @ ascii ''id'' @ 9 # ascii ''a'' @ 10 # ascii ''version'' @ 9 # ascii ''1''
     @ 10 # ascii ''size'' @ 9 # ascii ''21'' @ 10 # ascii ''sha256'' @ 9 # sample_digest @ 10 # ascii ''chunk-size'' @ 9 # ascii ''4096''
     @ 10 # ascii ''chunk-path'' @ 9 # ascii ''/api/v1/packages/a/1/chunk'' @ 10 # []"

definition sample_entry :: pkg_entry where
  "sample_entry = \<lparr>pe_id = ascii ''a'', pe_version = ascii ''1'', pe_sha256 = sample_digest, pe_installed_path = [],
     pe_size = 21, pe_installed = False, pe_favorite = False\<rparr>"

definition sample :: "((bytes \<times> bytes \<times> bytes) list, (bytes \<times> bytes) list) pkg" where
  "sample = \<lparr>repository =
       [(ascii ''/api/v1/packages/a/1/manifest'', ascii ''text/plain'', sample_manifest),
        (ascii ''/api/v1/packages/a/1/chunk?offset=0&length=21'', ascii ''application/octet-stream'', sample_image)],
     files = [], package_entries = [sample_entry], installed_records = [], favorite_records = []\<rparr>"

definition blank_context :: sha256_context where
  "blank_context = \<lparr>sha_state = [], bit_count = 0, sha_block = replicate 64 0, block_length = 0\<rparr>"

lemma sample_ok: "pkg_ok sample"
  using hex_text_valid [of sample_image]
  by (simp add: pkg_ok_def sample_def sample_entry_def table_ok_def entry_ok_def sample_digest_def pkg_capacities
      segment_valid_def alphanumeric_def ascii_def)

lemma sample_manifest_parsed: "parse_manifest sample_entry sample_manifest = Some ([], 21, 4096)"
proof -
  have d: "c \<noteq> 0 \<and> c \<noteq> 10 \<and> c \<noteq> 13" if "c \<in> set sample_digest" for c
    using hex_text_valid [of sample_image] that
    by (auto simp: sha_text_valid_def list_all_iff sample_digest_def word_le_nat_alt)
  have valid: "sha_text_valid sample_digest" unfolding sample_digest_def by (rule hex_text_valid)
  have e: "pe_id sample_entry = ascii ''a''" "pe_version sample_entry = ascii ''1''" "pe_size sample_entry = 21"
    "pe_sha256 sample_entry = sample_digest" by (simp_all add: sample_entry_def)
  let ?L5 = "ascii ''chunk-path'' @ 9 # ascii ''/api/v1/packages/a/1/chunk'' @ 10 # []"
  let ?L4 = "ascii ''chunk-size'' @ 9 # ascii ''4096'' @ 10 # ?L5"
  let ?L3 = "ascii ''sha256'' @ 9 # sample_digest @ 10 # ?L4"
  let ?L2 = "ascii ''size'' @ 9 # ascii ''21'' @ 10 # ?L3"
  let ?L1 = "ascii ''version'' @ 9 # ascii ''1'' @ 10 # ?L2"
  let ?L0 = "ascii ''id'' @ 9 # ascii ''a'' @ 10 # ?L1"
  let ?m0 = no_manifest
  have n: "parse_decimal [50, 49] = Some 21" "parse_decimal [52, 48, 57, 54] = Some 4096"
    by (simp_all add: parse_decimal_def)
  let ?m1 = "?m0\<lparr>mf_id := True\<rparr>"
  let ?m2 = "?m1\<lparr>mf_version := True\<rparr>"
  let ?m3 = "?m2\<lparr>mf_size := Some 21\<rparr>"
  let ?m4 = "?m3\<lparr>mf_sha256 := Some sample_digest\<rparr>"
  let ?m5 = "?m4\<lparr>mf_chunk_size := Some 4096\<rparr>"
  let ?m6 = "?m5\<lparr>mf_path := True\<rparr>"
  have s0: "manifest_lines sample_entry ?L0 ?m0 = manifest_lines sample_entry ?L1 ?m1"
    by (subst manifest_line) (simp_all add: ascii_def manifest_field_def e valid d n CHUNK_CAPACITY_def make_endpoint_def)
  have s1: "manifest_lines sample_entry ?L1 ?m1 = manifest_lines sample_entry ?L2 ?m2"
    by (subst manifest_line) (simp_all add: ascii_def manifest_field_def e valid d n CHUNK_CAPACITY_def make_endpoint_def)
  have s2: "manifest_lines sample_entry ?L2 ?m2 = manifest_lines sample_entry ?L3 ?m3"
    by (subst manifest_line) (simp_all add: ascii_def manifest_field_def e valid d n CHUNK_CAPACITY_def make_endpoint_def)
  have s3: "manifest_lines sample_entry ?L3 ?m3 = manifest_lines sample_entry ?L4 ?m4"
    by (subst manifest_line) (simp_all add: ascii_def manifest_field_def e valid d n CHUNK_CAPACITY_def make_endpoint_def)
  have s4: "manifest_lines sample_entry ?L4 ?m4 = manifest_lines sample_entry ?L5 ?m5"
    by (subst manifest_line) (simp_all add: ascii_def manifest_field_def e valid d n CHUNK_CAPACITY_def make_endpoint_def)
  have s5: "manifest_lines sample_entry ?L5 ?m5 = manifest_lines sample_entry [] ?m6"
    by (subst manifest_line) (simp_all add: ascii_def manifest_field_def e valid d n CHUNK_CAPACITY_def make_endpoint_def)
  have "manifest_lines sample_entry ?L0 ?m0 = Some ?m6"
    unfolding s0 s1 s2 s3 s4 s5 by (simp add: manifest_lines.simps)
  moreover have "drop 20 sample_manifest = ?L0" by (simp add: sample_manifest_def ascii_def)
  ultimately show ?thesis
    by (simp add: parse_manifest_def sample_manifest_def Let_def e no_manifest_def)
qed

lemma sample_fetched: "fetch_manifest served sample_entry sample = (Returns ([], 21, 4096), sample)"
proof -
  have "make_endpoint 128 (ascii ''/api/v1/packages/'') (pe_id sample_entry) (ascii ''/'') (pe_version sample_entry)
      (ascii ''/manifest'') = Some (ascii ''/api/v1/packages/a/1/manifest'')"
    by (simp add: make_endpoint_def sample_entry_def ascii_def)
  moreover have "length sample_manifest \<le> MANIFEST_CAPACITY"
    using hex_text_valid [of sample_image]
    by (simp add: sample_manifest_def sample_digest_def sha_text_valid_def ascii_def MANIFEST_CAPACITY_def)
  then have "http_fetch served (ascii ''/api/v1/packages/a/1/manifest'') MANIFEST_CAPACITY (ascii ''text/plain'') sample
      = (Returns sample_manifest, sample)"
    by (simp add: http_fetch_def served_def sample_def content_type_is_def ascii_def http_lower_def)
  ultimately show ?thesis
    by (simp add: fetch_manifest_def pseq_def sample_manifest_parsed pgive_def)
qed

lemma append_text_all: "length out + length b < capacity \<Longrightarrow> append_text capacity b out = out @ b"
  by (simp add: append_text_def)

lemma sample_downloaded:
  "\<exists>hash. download served sample_entry 21 4096 [] (sha256_init blank_context) sample
      = (Returns (sample_image, hash), sample) \<and> absorbed hash sample_image"
proof -
  have d: "port_digits 0 = [48]" "port_digits 2 = [50]"
    using port_digits.simps [of 0] port_digits.simps [of 2] by simp_all
  moreover have "port_digits 21 = [50, 49]" using port_digits.simps [of 21] by (simp add: d)
  ultimately have "chunk_endpoint sample_entry 0 21 = ascii ''/api/v1/packages/a/1/chunk?offset=0&length=21''"
    by (simp add: chunk_endpoint_def append_text_all append_uint_def sample_entry_def ascii_def)
  then have f: "http_fetch served (chunk_endpoint sample_entry 0 21) CHUNK_CAPACITY (ascii ''application/octet-stream'')
      sample = (Returns sample_image, sample)"
    by (simp add: http_fetch_def served_def sample_def content_type_is_def ascii_def http_lower_def CHUNK_CAPACITY_def
        sample_image_def)
  have "length (sha_block blank_context) = 64" by (simp add: blank_context_def)
  from absorbed_update [OF absorbed_init [OF this], of sample_image] obtain hash where
    h: "sha256_update sample_image (sha256_init blank_context) = Some hash" "absorbed hash sample_image" by auto
  have len: "length sample_image = 21" by (simp add: sample_image_def)
  have "download served sample_entry 21 4096 [] (sha256_init blank_context) sample
      = download served sample_entry 21 4096 sample_image hash sample"
    by (subst download.simps) (simp add: f h len)
  moreover have "download served sample_entry 21 4096 sample_image hash sample = (Returns (sample_image, hash), sample)"
    by (subst download.simps) (simp add: len)
  ultimately show ?thesis using h(2) by simp
qed

lemma shelf_calls:
  "on_files (fc_touch shelf p) s = (Returns (), s)"
  "on_files (fc_write shelf p b app) s = (Returns (), s\<lparr>files := (p, b) # files s\<rparr>)"
  "packages_directory shelf s = (Returns (), s)"
  "on_files (fc_list shelf p visit found) s = (Returns found, s)"
  by (simp_all add: on_files_def shelf_def packages_directory_def pcheck_def pgive_def)

lemma shelf_empty_registry:
  "map_of (files s) p = None \<Longrightarrow> registry_text shelf p h c s = (Returns [], s\<lparr>files := (p, h) # files s\<rparr>)"
  by (simp add: registry_text_def pseq_def on_files_def shelf_def shelf_text_def pgive_def)

lemma sample_parsed: "\<exists>t. parse_local_records shelf sample = (Returns (), t) \<and> installed_records t = []"
proof -
  have files: "files sample = []" by (simp add: sample_def)
  have "FAVORITES_DB \<noteq> INSTALLED_DB" by (simp add: FAVORITES_DB_def INSTALLED_DB_def ascii_def)
  then show ?thesis
    by (simp add: parse_local_records_def pseq_def set_installed_def set_favorites_def shelf_calls shelf_empty_registry
        files pcheck_def pgive_def read_installed.simps read_favorites.simps)
qed

lemma sample_path: "allocate_install_path shelf 1 s = (Returns (ascii ''/PKGS/P0000001.APP''), s)"
  by (subst allocate_install_path.simps)
    (simp add: shelf_calls append_text_def install_name_def PACKAGE_MANAGER_PATH_CAPACITY_def ascii_def)

lemma sample_stored: "\<exists>t. store_package shelf sample_entry sample_image sample = (Returns (), t)"
proof -
  obtain t where t: "parse_local_records shelf sample = (Returns (), t)" "installed_records t = []"
    using sample_parsed by blast
  define r where "r = \<lparr>ir_id = text_copy PACKAGE_MANAGER_ID_CAPACITY (pe_id sample_entry),
      ir_version = text_copy PACKAGE_MANAGER_VERSION_CAPACITY (pe_version sample_entry),
      ir_path = text_copy PACKAGE_MANAGER_PATH_CAPACITY (ascii ''/PKGS/P0000001.APP'')\<rparr>"
  obtain b where "join_parts INSTALLED_DB_CAPACITY installed_header (installed_fields r) = Some b"
    by (simp add: r_def installed_fields_def text_copy_def sample_entry_def ascii_def pkg_capacities installed_header_def)
  then have "save_installed_records shelf (s\<lparr>installed_records := [r]\<rparr>)
      = (Returns (), s\<lparr>installed_records := [r], files := (INSTALLED_DB, b) # files s\<rparr>)"
    for s :: "((bytes \<times> bytes \<times> bytes) list, (bytes \<times> bytes) list) pkg"
    by (simp add: save_installed_records_def shelf_calls)
  then have "\<exists>u. store_behind shelf sample_entry sample_image [] t = (Returns (), u)"
    by (simp add: store_behind_def pseq_def pcatch_def sample_path [simplified] shelf_calls set_installed_def r_def [symmetric]
        annotate_entries_def PACKAGE_MANAGER_MAX_PACKAGES_def)
  then show ?thesis using t by (simp add: store_package_def pseq_def)
qed

lemma sample_installs: "\<exists>t. package_manager_install served shelf blank_context 0 sample = (Returns (), t)"
proof -
  obtain hash where h: "download served sample_entry 21 4096 [] (sha256_init blank_context) sample
      = (Returns (sample_image, hash), sample)" "absorbed hash sample_image"
    using sample_downloaded by blast
  have "app_image_valid sample_image"
    by (simp add: app_image_valid_def sample_image_def PRISM_APP_HEADER_SIZE_def PRISM_APP_MAGIC_def
        PRISM_APP_FORMAT_VERSION_def PRISM_APP_FLAG_DRIVER_def u32_at_def u16_at_def u32_of_le_def u16_of_le_def)
  moreover have "digest_matches (fips_sha256 sample_image) sample_digest"
    using hex_text_valid [of sample_image] by (simp add: digest_matches_def sample_digest_def sha_text_valid_def)
  ultimately have "check_image sample_entry sample_image hash sample = (Returns (), sample)"
    using absorbed_final [OF h(2)] by (simp add: check_image_def sample_entry_def pgive_def)
  moreover have "package_entries sample = [sample_entry]" "\<not> pe_installed sample_entry" "pe_size sample_entry = 21"
    by (simp_all add: sample_def sample_entry_def)
  ultimately show ?thesis using sample_fetched h(1) sample_stored
    by (simp add: package_manager_install_def pseq_def PACKAGE_CAPACITY_def)
qed

lemma shelf_write: "fc_write shelf p b app f = (io_res.Done (), (p, b) # f)"
  by (simp add: shelf_def)

lemma shelf_registry_reads:
  "length t < INSTALLED_DB_CAPACITY \<Longrightarrow> registry_reads shelf t ((INSTALLED_DB, t) # f)"
  by (auto simp: registry_reads_def shelf_def shelf_text_def)

end
