(* ===== verification/Package_List.thy ===== *)
theory Package_List
  imports Package_Install Console
begin

text \<open>\<open>apps/package_manager.c\<close>, last part: what the \<open>pkg list\<close> command prints.\<close>

fun package_manager_error_text :: "unit pkg_res \<Rightarrow> string" where
  "package_manager_error_text (Returns _) = ''Completed successfully.''"
| "package_manager_error_text (Fails PKG_NETWORK) = ''Cannot reach 10.0.2.2:8080. Start backendapi with dotnet run --urls http://0.0.0.0:8080 and verify DHCP/network status.''"
| "package_manager_error_text (Fails PKG_PROTOCOL) = ''Repository response is invalid or incompatible.''"
| "package_manager_error_text (Fails PKG_STORAGE) = ''Filesystem operation failed or package registry is damaged.''"
| "package_manager_error_text (Fails PKG_LIMIT) = ''Package exceeds the 64 KiB install limit or local capacity.''"
| "package_manager_error_text (Fails PKG_HASH) = ''Package SHA-256 did not match the repository manifest; install was refused.''"
| "package_manager_error_text (Fails PKG_APP_FORMAT) = ''Artifact is not a supported PrismOS application package.''"
| "package_manager_error_text (Fails PKG_NOT_FOUND) = ''Select a package first.''"
| "package_manager_error_text (Fails PKG_ALREADY_INSTALLED) = ''This package version is already installed.''"
| "package_manager_error_text (Fails PKG_DNS) = ''DNS failed. Check DHCP/DNS with net status; QEMU repository uses 10.0.2.2.''"
| "package_manager_error_text (Fails PKG_CONNECT) = ''TCP connect failed: start backendapi on the host with dotnet run --urls http://0.0.0.0:8080, then boot with make run-net.''"
| "package_manager_error_text (Fails PKG_TIMEOUT) = ''Repository request timed out. Check host firewall, service, link, and DHCP with net status.''"
| "package_manager_error_text _ = ''Package operation failed.''"

definition list_entry :: "console \<Rightarrow> pkg_entry \<Rightarrow> console" where
  "list_entry c e =
     (let c = console_write (ascii ''  '') (console_write (pe_id e) c);
          c = console_write (ascii ''  '') (console_write (pe_version e) c);
          c = console_write (ascii ''  '') (console_write_uint (of_nat (pe_size e)) c);
          c = console_write (ascii (if pe_installed e then ''INSTALLED'' else ''available'')) c;
          c = (if pe_favorite e then console_write (ascii '' *'') c else c)
      in console_writeln (pe_sha256 e) (console_write (ascii ''  '') c))"

text \<open>A refresh that does not return prints nothing.\<close>

definition package_manager_list ::
    "'n http_client \<Rightarrow> 'f file_calls \<Rightarrow> ('n, 'f) pkg \<times> console \<Rightarrow> unit pkg_res \<times> ('n, 'f) pkg \<times> console" where
  "package_manager_list get fs = (\<lambda>(s, c).
     case package_manager_refresh get fs s of
       (Fails e, t) \<Rightarrow> (Fails e, t, console_writeln (ascii (package_manager_error_text (Fails e))) c)
     | (Returns _, t) \<Rightarrow>
         (let c = console_writeln (ascii ''ID  VERSION  SIZE  STATE  SHA-256'') c;
              c = (if package_entries t = [] then console_writeln (ascii ''No packages are available.'') c else c)
          in (Returns (), t, foldl list_entry c (package_entries t)))
     | (r, t) \<Rightarrow> (r, t, c))"

text \<open>The listing keeps the console well formed, and leaves the package manager as the refresh does.\<close>

lemma console_writeln_ok: "console_ok c \<Longrightarrow> console_ok (console_writeln b c)"
  by (simp add: console_writeln_def console_write_ok console_write_char_ok console_newline_ok)

lemma list_entry_ok: "console_ok c \<Longrightarrow> console_ok (list_entry c e)"
  by (simp add: list_entry_def Let_def console_write_ok console_writeln_ok console_write_uint_ok)

lemma package_manager_list_ok:
  assumes "console_ok c"
  shows "console_ok (snd (snd (package_manager_list get fs (s, c))))
    \<and> fst (snd (package_manager_list get fs (s, c))) = snd (package_manager_refresh get fs s)"
proof -
  have "console_ok d \<Longrightarrow> console_ok (foldl list_entry d es)" for d es
    by (induction es arbitrary: d) (simp_all add: list_entry_ok)
  then show ?thesis using assms
    by (auto simp: package_manager_list_def Let_def console_write_ok console_writeln_ok split: prod.split pkg_res.split)
qed

end
