(* ===== verification/Package_Claims.thy ===== *)
theory Package_Claims
  imports Package_Sample Package_List
begin

text \<open>
  The package manager as a whole: its tables stay well formed, what it installs has been verified, the registry it
  writes cannot be read back, and neither can its favourites.
\<close>

section \<open>Tables\<close>

text \<open>
  C35. Whatever the repository answers and whatever is on the disk: after any sequence of calls, those
  that fail included, the tables hold at most 64 packages, every catalog entry has a valid identifier, version and
  digest and a size above zero, no two have the same key, and every text fits its buffer.
\<close>

theorem pkg_tables_ok:
  assumes "(pkg_step get fs)\<^sup>*\<^sup>* s t" "package_entries s = []" "installed_records s = []" "favorite_records s = []"
  shows "pkg_ok t"
  using assms(1)
proof induction
  case base
  show ?case using assms(2-4) by (simp add: pkg_ok_def)
next
  case (step t u)
  from step(2,3) show ?case
    by cases (auto intro: maintainsD refresh_maintains details_maintains install_maintains remove_maintains
        toggle_maintains)
qed

lemma pkg_tables_ok_witness:
  "pkg_ok (snd (package_manager_refresh served shelf (sample\<lparr>package_entries := []\<rparr>)))"
  by (rule pkg_tables_ok [OF r_into_rtranclp [where r = "pkg_step served shelf", OF refreshes]]) (simp_all add: sample_def)

section \<open>Installing\<close>

text \<open>What a successful installation has checked, and its last two calls of the file system.\<close>

lemma install_trace:
  assumes "package_manager_install get fs junk i s = (Returns (), t)" "pkg_ok s"
  obtains path img f f' rs where "path_is_installed_file path" "list_all record_ok rs"
    "installed_records t = rs @
      [\<lparr>ir_id = pe_id (package_entries s ! i), ir_version = pe_version (package_entries s ! i), ir_path = path\<rparr>]"
    "fc_write fs path img False f = (io_res.Done (), f')"
    "fc_write fs INSTALLED_DB (installed_header @ registry_lines (installed_records t)) False f' = (io_res.Done (), files t)"
    "length (installed_header @ registry_lines (installed_records t)) < INSTALLED_DB_CAPACITY"
    "app_image_valid img"
    "length (sha_block junk) = 64 \<Longrightarrow> length img = pe_size (package_entries s ! i)
       \<and> hex_text (fips_sha256 img) = pe_sha256 (package_entries s ! i)"
    "entry_ok (package_entries s ! i)"
proof -
  let ?e = "package_entries s ! i"
  obtain d n k u img hash v w where u: "i < length (package_entries s)" "fetch_manifest get ?e s = (Returns (d, n, k), u)"
    "download get ?e n k [] (sha256_init junk) u = (Returns (img, hash), v)"
    "check_image ?e img hash v = (Returns (), w)" "store_package fs ?e img w = (Returns (), t)"
    using assms(1)
    by (auto simp: package_manager_install_def Let_def not_le split: if_splits elim!: pseq_returns)
  have e: "entry_ok ?e" using assms(2) u(1) by (auto simp: pkg_ok_def table_ok_def list_all_length)
  have img: "app_image_valid img" using u(4) by (auto simp: check_image_def split: option.splits if_splits)
  have hex: "length img = pe_size ?e \<and> hex_text (fips_sha256 img) = pe_sha256 ?e" if "length (sha_block junk) = 64"
  proof -
    have "absorbed hash img" "length img = pe_size ?e"
      using download_absorbed [OF u(3) absorbed_init [OF that]] fetch_manifest_size(1) [OF u(2)] by simp_all
    moreover from this(1) have "digest_matches (fips_sha256 img) (pe_sha256 ?e)"
      using u(4) absorbed_final by (auto simp: check_image_def split: if_splits)
    ultimately show ?thesis using e by (simp add: digest_matches_def entry_ok_def sha_text_valid_def)
  qed
  from store_returns [OF u(5)] e obtain path f f' rs where "path_is_installed_file path"
    "fc_write fs path img False f = (io_res.Done (), f')" "list_all record_ok rs"
    "installed_records t = rs @ [\<lparr>ir_id = pe_id ?e, ir_version = pe_version ?e, ir_path = path\<rparr>]"
    "fc_write fs INSTALLED_DB (installed_header @ registry_lines (installed_records t)) False f' = (io_res.Done (), files t)"
    "length (installed_header @ registry_lines (installed_records t)) < INSTALLED_DB_CAPACITY"
    by (auto simp: entry_ok_def)
  then show thesis using that img hex e by blast
qed

text \<open>
  C34. Whatever the repository sends and whatever the file system answers: when an installation
  succeeds, its last two calls of the file system have succeeded. The first stored, under the path of the new record
  and as the whole of that file, an image that has the size in the catalog, whose SHA-256 digest is the one in the
  catalog, and that has the header of an application that is no driver. The second stored the registry with that
  record.
\<close>

theorem pkg_install_verified:
  assumes "package_manager_install get fs junk i s = (Returns (), t)" "length (sha_block junk) = 64" "pkg_ok s"
  shows "\<exists>path img f f' rs. path_is_installed_file path
    \<and> installed_records t = rs @
        [\<lparr>ir_id = pe_id (package_entries s ! i), ir_version = pe_version (package_entries s ! i), ir_path = path\<rparr>]
    \<and> fc_write fs path img False f = (io_res.Done (), f')
    \<and> length img = pe_size (package_entries s ! i)
    \<and> hex_text (fips_sha256 img) = pe_sha256 (package_entries s ! i)
    \<and> app_image_valid img
    \<and> fc_write fs INSTALLED_DB (installed_header @ registry_lines (installed_records t)) False f' = (io_res.Done (), files t)"
  using install_trace [OF assms(1,3)] assms(2) by metis

lemma pkg_install_verified_witness:
  "\<exists>t path img r f. package_manager_install served shelf blank_context 0 sample = (Returns (), t)
    \<and> files t = r # (path, img) # f \<and> hex_text (fips_sha256 img) = sample_digest"
proof -
  obtain t where t: "package_manager_install served shelf blank_context 0 sample = (Returns (), t)"
    using sample_installs by blast
  have "length (sha_block blank_context) = 64" by (simp add: blank_context_def)
  from pkg_install_verified [OF t this sample_ok] obtain path img f where
    "(INSTALLED_DB, installed_header @ registry_lines (installed_records t)) # (path, img) # f = files t"
    "hex_text (fips_sha256 img) = pe_sha256 (package_entries sample ! 0)"
    by (auto simp: shelf_write)
  moreover have "pe_sha256 (package_entries sample ! 0) = sample_digest" by (simp add: sample_def sample_entry_def)
  ultimately show ?thesis using t by metis
qed

section \<open>The registry\<close>

lemma fst_returns: "fst x = Returns a \<Longrightarrow> \<exists>t. x = (Returns a, t)"
  by (cases x) simp

text \<open>
  C36. After a successful installation, as long as the registry on the disk reads as the package
  manager has written it, the package manager refuses it, because the path of its first record is read together with
  the line feed behind it: no refresh, installation, removal or change of a favourite succeeds. A registry that
  cannot be read at all is refused, too. On a FAT32 volume on which the directory and the two files exist the
  registry reads as its file holds it (\<open>Package_Disk\<close>).
\<close>

theorem pkg_registry_refused:
  assumes "package_manager_install get fs junk i s = (Returns (), t)" "pkg_ok s"
    and "registry_reads fs (installed_header @ registry_lines (installed_records t)) (files t)"
  shows "fst (package_manager_refresh get' fs t) \<noteq> Returns ()
    \<and> fst (package_manager_install get' fs junk' j t) \<noteq> Returns ()
    \<and> fst (package_manager_remove fs j t) \<noteq> Returns ()
    \<and> fst (package_manager_toggle_favorite fs j t) \<noteq> Returns ()"
proof -
  let ?e = "package_entries s ! i"
  obtain path rs where r: "path_is_installed_file path" "list_all record_ok rs"
    "installed_records t = rs @ [\<lparr>ir_id = pe_id ?e, ir_version = pe_version ?e, ir_path = path\<rparr>]" "entry_ok ?e"
    using install_trace [OF assms(1,2)] by metis
  have ok: "list_all record_ok (installed_records t)" using r by (simp add: record_ok_def entry_ok_def)
  obtain x xs where x: "installed_records t = x # xs" unfolding r(3) by (cases rs) auto
  have no: "parse_local_records fs u \<noteq> (Returns (), v)" if "files u = files t" for u v :: "('c, 'b) pkg"
    using registry_fails [of fs x xs u v] assms(3) ok that x by simp
  have "fst (package_manager_refresh get' fs t) \<noteq> Returns ()"
    by (auto simp: package_manager_refresh_def Let_def set_entries_def no remote_files elim!: pseq_returns
        split: if_splits dest!: fst_returns)
  moreover have store: "store_package fs e b u \<noteq> (Returns (), v)" if "files u = files t" for e b and u v :: "('c, 'b) pkg"
    using that by (auto simp: store_package_def no elim!: pseq_returns)
  have "fst (package_manager_install get' fs junk' j t) \<noteq> Returns ()"
    by (auto simp: package_manager_install_def Let_def store remote_files(2-4) elim!: pseq_returns split: if_splits
        dest!: fst_returns)
  moreover have "fst (package_manager_remove fs j t) \<noteq> Returns ()"
    by (auto simp: package_manager_remove_def no elim!: pseq_returns split: if_splits dest!: fst_returns)
  moreover have "fst (package_manager_toggle_favorite fs j t) \<noteq> Returns ()"
    by (auto simp: package_manager_toggle_favorite_def no elim!: pseq_returns split: if_splits dest!: fst_returns)
  ultimately show ?thesis by blast
qed

lemma pkg_registry_refused_witness:
  "\<exists>t. package_manager_install served shelf blank_context 0 sample = (Returns (), t)
    \<and> fst (package_manager_refresh served shelf t) \<noteq> Returns ()"
proof -
  obtain t where t: "package_manager_install served shelf blank_context 0 sample = (Returns (), t)"
    using sample_installs by blast
  obtain f' where "fc_write shelf INSTALLED_DB (installed_header @ registry_lines (installed_records t)) False f'
      = (io_res.Done (), files t)"
    "length (installed_header @ registry_lines (installed_records t)) < INSTALLED_DB_CAPACITY"
    using install_trace [OF t sample_ok] by metis
  then have "registry_reads shelf (installed_header @ registry_lines (installed_records t)) (files t)"
    using shelf_registry_reads [of "installed_header @ registry_lines (installed_records t)" f']
    by (simp add: shelf_write)
  from pkg_registry_refused [OF t sample_ok this, of served blank_context 0] t show ?thesis by blast
qed

section \<open>The favourites\<close>

text \<open>
  The version of a favourite is read together with the line feed behind it: after a reload no catalog entry is a
  favourite, and the registry written next has an empty line, which is refused.
\<close>

lemma favorite_read_back:
  assumes "segment_valid (fr_id r)" "segment_valid (fr_version r)" "length (fr_version r) < 32"
  shows "read_favorites (concat (favorite_fields r)) [] = (True, [r\<lparr>fr_version := fr_version r @ [10]\<rparr>])"
proof -
  let ?i = "fr_id r" and ?v = "fr_version r"
  have c: "\<forall>c \<in> set ?i. segment_char c" "\<forall>c \<in> set ?v. segment_char c" using assms segment_chars by auto
  have t: "concat (favorite_fields r) = (?i @ 9 # ?v) @ 10 # []" by (simp add: favorite_fields_def)
  have n: "10 \<notin> set (?i @ 9 # ?v)" using c by (auto simp: segment_char_def)
  have b: "takeWhile (\<lambda>c. c \<noteq> 9) (rev ?v @ 9 # rev ?i) = rev ?v"
    using c(2) by (simp add: takeWhile_tail segment_char_def)
  have v: "text_copy 33 (?v @ [10]) = ?v @ [10]" using c(2) assms(3) by (simp add: text_copy_def segment_char_def)
  have "?i \<noteq> []" "?v \<noteq> []" using assms by (auto simp: segment_valid_def)
  then have l: "favorite_line ((?i @ 9 # ?v) @ 10 # []) = Some (r\<lparr>fr_version := ?v @ [10]\<rparr>)"
    unfolding favorite_line_def text_line_end [OF n]
    using assms v by (simp add: Let_def b text_copy_segment pkg_capacities)
  show ?thesis unfolding t
    by (subst read_favorites.simps) (simp only: l next_line_end [OF n], simp add: read_favorites.simps PACKAGE_MANAGER_MAX_PACKAGES_def)
qed

lemma favorite_forgotten:
  "annotate_entry rs [\<lparr>fr_id = pe_id e, fr_version = pe_version e @ [10]\<rparr>] e
    = annotate_entry rs [] e"
  by (simp add: annotate_entry_def Let_def key_matches_def split: option.split)

end
