(* ===== verification/Package_Disk.thy ===== *)
theory Package_Disk
  imports Package_Claims Fat32_Contract
begin

text \<open>
  The registry of the package manager on a FAT32 volume: what \<open>registry_reads\<close> asks of a file system holds of the
  modelled one. The calls in front of the parsing find the directory and the two files, change nothing, and read
  what the file holds. At the end a volume with a registry on it.
\<close>

definition holds_directory :: "fat32_state \<Rightarrow> disk \<Rightarrow> bytes \<Rightarrow> bool" where
  "holds_directory g m path \<longleftrightarrow> (\<exists>dss ds parent leaf n off e. leads_to g m path dss ds parent leaf
     \<and> lookup (slot_entry m) leaf (dir_slots g ds) None = Inl (Slot_Found n off e) \<and> is_directory_entry e)"

context block_device
begin

lemma yields_touch:
  assumes "geom N g" "sound_disk N m" "holds_file g m path dss ds s e cs data"
  shows "gets (fat32_touch_file io g path) m ()"
proof -
  from assms(3) obtain parent leaf where l: "leads_to g m path dss ds parent leaf"
    "lookup (slot_entry m) leaf (dir_slots g ds) None = Inl (Slot_Found (fst s) (snd s) e)"
    and e: "\<not> is_directory_entry e" by (auto simp: holds_file_def)
  have "gets (catchr (find_entry_in_directory io g parent leaf) (\<lambda>r. case r of
      Some (Slot_Found _ _ e) \<Rightarrow> if is_directory_entry e then failr else ret ()
    | _ \<Rightarrow> create_entry_in_directory io g parent leaf 0x20 0 0)) m ()"
    by (rule yields_catch [OF yields_found(2) [OF assms(1,2) l]]) (simp add: e)
  then show ?thesis using assms(1)
    by (simp add: fat32_touch_file_def geom_def yields_bind [OF yields_found(1) [OF assms(1,2) l]])
qed

lemma yields_is_dir:
  assumes "geom N g" "sound_disk N m" "holds_directory g m path"
  shows "gets (fat32_path_is_dir io g path) m True"
proof -
  from assms(3) obtain dss ds parent leaf n off e where l: "leads_to g m path dss ds parent leaf"
    "lookup (slot_entry m) leaf (dir_slots g ds) None = Inl (Slot_Found n off e)" and e: "is_directory_entry e"
    by (auto simp: holds_directory_def)
  have "gets (find_path_entry io g path) m (parent, n, off, e)"
    unfolding find_path_entry_def
    by (simp add: yields_bind [OF yields_found(1) [OF assms(1,2) l]] yields_bind [OF yields_found(2) [OF assms(1,2) l]])
  then show ?thesis using assms(1) e by (simp add: fat32_path_is_dir_def geom_def yields_bind)
qed

lemma gets_done:
  assumes "gets f (view d) x" "ok d"
  obtains d' where "f d = (io_res.Done x, d')" "ok d'" "view d' = view d"
  using returnsD [OF assms(1) [unfolded gets_def] assms(2)] by auto

lemma volume_registry_reads:
  assumes "geom N g" "ok d" "holds_directory g (view d) PACKAGES_DIR"
    and db: "holds_file g (view d) INSTALLED_DB dss ds s e cs t" "length t < INSTALLED_DB_CAPACITY - 1"
    and fav: "holds_file g (view d) FAVORITES_DB dss' ds' s' e' cs' t'"
  shows "registry_reads (vfs_calls io g) t d"
proof -
  have sound: "sound_disk N (view d)" using assms(2) sectors by (simp add: sound_disk_def)
  note is_dir = yields_is_dir [OF assms(1) sound assms(3)]
  note touch = yields_touch [OF assms(1) sound]
  note read = yields_read_file [OF assms(1) sound db]
  obtain d1 where d1: "fat32_path_is_dir io g PACKAGES_DIR d = (io_res.Done True, d1)" "ok d1" "view d1 = view d"
    using gets_done [OF is_dir assms(2)] by blast
  obtain d2 where d2: "fat32_touch_file io g INSTALLED_DB d1 = (io_res.Done (), d2)" "ok d2" "view d2 = view d"
    using gets_done [of _ d1] touch [OF db(1)] d1 by metis
  obtain d3 where d3: "fat32_touch_file io g FAVORITES_DB d2 = (io_res.Done (), d3)" "ok d3" "view d3 = view d"
    using gets_done [of _ d2] touch [OF fav] d2 by metis
  obtain d4 where "fat32_read_file io g INSTALLED_DB (INSTALLED_DB_CAPACITY - 1) d3 = (io_res.Done t, d4)"
    using gets_done [of _ d3] read d3 by metis
  with d1 d2 d3 show ?thesis
    by (auto simp: registry_reads_def vfs_calls_def Vfs.vfs_path_is_dir_def vfs_touch_def Vfs.vfs_read_file_def)
qed

end

text \<open>The package manager on a FAT32 volume: after an installation, on a volume with the directory and both files,
  the first of which holds what the installation has written, the registry is refused.\<close>

lemma vfs_registry_reads:
  assumes "block_device io ok view N" "geom N g" "ok d" "holds_directory g (view d) PACKAGES_DIR"
    and "holds_file g (view d) INSTALLED_DB dss ds s e cs t" "length t < INSTALLED_DB_CAPACITY - 1"
    and "holds_file g (view d) FAVORITES_DB dss' ds' s' e' cs' t'"
  shows "registry_reads (vfs_calls io g) t d"
  by (rule block_device.volume_registry_reads [OF assms])

lemma vfs_registry_refused:
  assumes "block_device io ok view N" "geom N g" "ok (files s)" "holds_directory g (view (files s)) PACKAGES_DIR"
    and "holds_file g (view (files s)) INSTALLED_DB dss ds u e cs (installed_header @ registry_lines (r # rs))"
    and "length (installed_header @ registry_lines (r # rs)) < INSTALLED_DB_CAPACITY - 1" "record_ok r"
    and "holds_file g (view (files s)) FAVORITES_DB dss' ds' u' e' cs' t'"
  shows "parse_local_records (vfs_calls io g) s \<noteq> (Returns (), t)"
  by (rule registry_fails [OF vfs_registry_reads [OF assms(1-6,8)] assms(7)])

end
