(* ===== verification/Shell.thy ===== *)
theory Shell
  imports Console Keyboard Clipboard "HOL-Library.Monad_Syntax"
begin

text \<open>
  \<open>shell/shell.c\<close>: the line editor in front of the commands. Lines are arrays of 97 cells; every access is
  checked, and \<open>None\<close> is an access outside an array. The command interpreter, its working directory and the
  volume label are arguments.
\<close>

section \<open>State\<close>

definition SHELL_HISTORY_SIZE :: int where "SHELL_HISTORY_SIZE = 16"
definition SHELL_MAX_INPUT :: int where "SHELL_MAX_INPUT = 96"
definition COLOR_LIGHT_GRAY :: nat where "COLOR_LIGHT_GRAY = 7"
definition COLOR_LIGHT_GREEN :: nat where "COLOR_LIGHT_GREEN = 10"

record shell_state =
  sh_line :: bytes
  sh_length :: int
  sh_cursor :: int
  sh_draft :: bytes
  sh_draft_length :: int
  sh_history :: "bytes list"
  sh_history_count :: int
  sh_history_index :: int
  sh_prompt_row :: int
  sh_anchor :: int

text \<open>The static initialiser.\<close>

definition shell_boot :: shell_state where
  "shell_boot = \<lparr>sh_line = replicate 97 0, sh_length = 0, sh_cursor = 0, sh_draft = replicate 97 0, sh_draft_length = 0,
     sh_history = replicate 16 (replicate 97 0), sh_history_count = 0, sh_history_index = - 1, sh_prompt_row = 0,
     sh_anchor = - 1\<rparr>"

text \<open>The rest of the system as the shell sees it.\<close>

record 'x desk =
  dk_console :: console
  dk_clip :: clip
  dk_rest :: 'x

record 'x shell_services =
  sv_label :: "'x \<Rightarrow> bytes option \<times> 'x"
  sv_cwd :: "'x \<Rightarrow> bytes"
  sv_execute :: "bytes \<Rightarrow> 'x desk \<Rightarrow> 'x desk option"

type_synonym 'x shell_call = "shell_state \<times> 'x desk \<Rightarrow> (shell_state \<times> 'x desk) option"

definition on_console :: "(console \<Rightarrow> console) \<Rightarrow> 'x desk \<Rightarrow> 'x desk" where
  "on_console f d = d\<lparr>dk_console := f (dk_console d)\<rparr>"

section \<open>Cells\<close>

definition cell :: "'a list \<Rightarrow> int \<Rightarrow> 'a option" where
  "cell xs i = (if i < 0 then None else rd xs (nat i))"

definition put_cell :: "'a list \<Rightarrow> int \<Rightarrow> 'a \<Rightarrow> 'a list option" where
  "put_cell xs i x = (if i < 0 then None else wr xs (nat i) x)"

definition move_cell :: "int \<Rightarrow> int \<Rightarrow> bytes \<Rightarrow> bytes option" where
  "move_cell a b l = do { c \<leftarrow> cell l a; put_cell l b c }"

text \<open>A C string: the cells up to the terminator; without one the scan leaves the array.\<close>

definition string_cells :: "bytes \<Rightarrow> bytes option" where
  "string_cells l = (if 0 \<in> set l then Some (takeWhile (\<lambda>c. c \<noteq> 0) l) else None)"

definition string_length :: "bytes \<Rightarrow> int option" where
  "string_length l = map_option (\<lambda>t. int (length t)) (string_cells l)"

fun string_equals :: "bytes \<Rightarrow> bytes \<Rightarrow> bool option" where
  "string_equals (a # left) (b # right) =
     (if a \<noteq> 0 \<and> b \<noteq> 0 then if a \<noteq> b then Some False else string_equals left right else Some (a = 0 \<and> b = 0))"
| "string_equals _ _ = None"

function copy_from :: "int \<Rightarrow> bytes \<Rightarrow> int \<Rightarrow> bytes \<Rightarrow> bytes option" where
  "copy_from i source max_length destination =
     do { c \<leftarrow> cell source i;
          if c \<noteq> 0 \<and> i < max_length
          then do { destination \<leftarrow> put_cell destination i c; copy_from (i + 1) source max_length destination }
          else put_cell destination i 0 }"
  by auto
termination
  by (relation "measure (\<lambda>(i, source, max_length, destination). nat (max_length - i))") auto

declare copy_from.simps [simp del]

definition shell_copy_line :: "bytes \<Rightarrow> bytes \<Rightarrow> int \<Rightarrow> bytes option" where
  "shell_copy_line destination source max_length = copy_from 0 source max_length destination"

section \<open>The line\<close>

definition shell_write_prompt :: "'x shell_services \<Rightarrow> 'x desk \<Rightarrow> int \<times> 'x desk" where
  "shell_write_prompt sv d =
     (let cwd = sv_cwd sv (dk_rest d); (label, rest) = sv_label sv (dk_rest d); d = d\<lparr>dk_rest := rest\<rparr>;
          (n, d) = (case label of
                      Some (c # cs) \<Rightarrow> (int (length (c # cs)) + 1,
                                        on_console (\<lambda>con. console_write_char 58 (console_write (c # cs) con)) d)
                    | _ \<Rightarrow> (0, d))
      in (n + int (length cwd) + 2, on_console (\<lambda>con. console_write (ascii ''> '') (console_write cwd con)) d))"

definition shell_reset_history_navigation :: "shell_state \<Rightarrow> shell_state option" where
  "shell_reset_history_navigation s = do {
     draft \<leftarrow> put_cell (sh_draft s) 0 0;
     Some (s\<lparr>sh_history_index := - 1, sh_draft_length := 0, sh_draft := draft\<rparr>) }"

definition shell_set_line :: "bytes \<Rightarrow> shell_state \<Rightarrow> shell_state option" where
  "shell_set_line t s = do {
     line \<leftarrow> shell_copy_line (sh_line s) t SHELL_MAX_INPUT;
     n \<leftarrow> string_length line;
     Some (s\<lparr>sh_line := line, sh_length := n, sh_cursor := n, sh_anchor := - 1\<rparr>) }"

definition shell_clear_selection :: "shell_state \<Rightarrow> shell_state" where
  "shell_clear_selection s = s\<lparr>sh_anchor := - 1\<rparr>"

definition shell_selection_start :: "shell_state \<Rightarrow> int" where
  "shell_selection_start s = (if sh_anchor s < sh_cursor s then sh_anchor s else sh_cursor s)"

definition shell_selection_end :: "shell_state \<Rightarrow> int" where
  "shell_selection_end s = (if sh_anchor s > sh_cursor s then sh_anchor s else sh_cursor s)"

definition shell_has_selection :: "shell_state \<Rightarrow> bool" where
  "shell_has_selection s \<longleftrightarrow> 0 \<le> sh_anchor s \<and> sh_anchor s \<noteq> sh_cursor s"

definition shell_delete_selection :: "shell_state \<Rightarrow> shell_state option" where
  "shell_delete_selection s =
     (if \<not> shell_has_selection s then Some s
      else
        (let start = shell_selection_start s; stop = shell_selection_end s
         in do { line \<leftarrow> for_each (\<lambda>i. move_cell i (start + i - stop)) [stop..sh_length s] (sh_line s);
                 Some (shell_clear_selection
                   (s\<lparr>sh_line := line, sh_length := sh_length s - (stop - start), sh_cursor := start\<rparr>)) }))"

text \<open>The pointer and the length are handed over as the cells from the start of the selection on.\<close>

definition shell_copy_selection :: "'x shell_call" where
  "shell_copy_selection = (\<lambda>(s, d).
     if \<not> shell_has_selection s then Some (s, d)
     else do {
       clip \<leftarrow> clipboard_set (Some (drop (nat (shell_selection_start s)) (sh_line s)))
                 (nat (shell_selection_end s - shell_selection_start s)) (dk_clip d);
       Some (s, d\<lparr>dk_clip := clip\<rparr>) })"

definition highlight :: "int \<Rightarrow> bytes \<Rightarrow> int \<Rightarrow> int \<Rightarrow> console \<Rightarrow> console option" where
  "highlight prompt_length line row i c = do {
     ch \<leftarrow> cell line i;
     Some (console_write_char ch (console_set_cursor (prompt_length + i) row c)) }"

definition shell_render_input :: "'x shell_services \<Rightarrow> 'x shell_call" where
  "shell_render_input sv = (\<lambda>(s, d).
     let row = sh_prompt_row s;
         d = on_console (\<lambda>c. console_set_cursor 0 row (console_clear_row row (console_set_cursor 0 row c))) d;
         (prompt_length, d) = shell_write_prompt sv d
     in do {
       t \<leftarrow> string_cells (sh_line s);
       let c = console_write t (dk_console d);
       c \<leftarrow> (if shell_has_selection s
             then do {
               c \<leftarrow> for_each (highlight prompt_length (sh_line s) row)
                      [shell_selection_start s..shell_selection_end s - 1] (console_set_color COLOR_BLACK COLOR_LIGHT_GRAY c);
               Some (console_set_color COLOR_WHITE COLOR_BLACK c) }
             else Some c);
       Some (s, d\<lparr>dk_console := console_set_cursor (prompt_length + sh_cursor s) row c\<rparr>) })"

definition shell_refresh_line :: "'x shell_services \<Rightarrow> 'x shell_call" where
  "shell_refresh_line sv = shell_render_input sv"

text \<open>The editing of the line, apart from drawing it: the second component says whether it is drawn again.\<close>

definition insert_char_cells :: "u8 \<Rightarrow> shell_state \<Rightarrow> (shell_state \<times> bool) option" where
  "insert_char_cells c s = do {
     s \<leftarrow> shell_delete_selection s;
     if SHELL_MAX_INPUT \<le> sh_length s then Some (s, False)
     else do {
       line \<leftarrow> for_each (\<lambda>i. move_cell (i - 1) i) (rev [sh_cursor s + 1..sh_length s]) (sh_line s);
       line \<leftarrow> put_cell line (sh_cursor s) c;
       line \<leftarrow> put_cell line (sh_length s + 1) 0;
       Some (shell_clear_selection
         (s\<lparr>sh_line := line, sh_length := sh_length s + 1, sh_cursor := sh_cursor s + 1\<rparr>), True) } }"

definition backspace_cells :: "shell_state \<Rightarrow> (shell_state \<times> bool) option" where
  "backspace_cells s =
     (if shell_has_selection s then map_option (\<lambda>s. (s, True)) (shell_delete_selection s)
      else if sh_cursor s \<le> 0 then Some (s, False)
      else do {
        line \<leftarrow> for_each (\<lambda>i. move_cell (i + 1) i) [sh_cursor s - 1..sh_length s - 2] (sh_line s);
        line \<leftarrow> put_cell line (sh_length s - 1) 0;
        Some (s\<lparr>sh_line := line, sh_length := sh_length s - 1, sh_cursor := sh_cursor s - 1\<rparr>, True) })"

definition delete_cells :: "shell_state \<Rightarrow> (shell_state \<times> bool) option" where
  "delete_cells s =
     (if shell_has_selection s then map_option (\<lambda>s. (s, True)) (shell_delete_selection s)
      else if sh_length s \<le> sh_cursor s then Some (s, False)
      else do {
        line \<leftarrow> for_each (\<lambda>i. move_cell (i + 1) i) [sh_cursor s..sh_length s - 2] (sh_line s);
        line \<leftarrow> put_cell line (sh_length s - 1) 0;
        Some (s\<lparr>sh_line := line, sh_length := sh_length s - 1\<rparr>, True) })"

definition redrawn :: "'x shell_services \<Rightarrow> (shell_state \<Rightarrow> (shell_state \<times> bool) option) \<Rightarrow> 'x shell_call" where
  "redrawn sv f = (\<lambda>(s, d). do {
     (s, draw) \<leftarrow> f s;
     if draw then shell_refresh_line sv (s, d) else Some (s, d) })"

definition shell_insert_char :: "'x shell_services \<Rightarrow> u8 \<Rightarrow> 'x shell_call" where
  "shell_insert_char sv c = redrawn sv (insert_char_cells c)"

definition shell_backspace :: "'x shell_services \<Rightarrow> 'x shell_call" where
  "shell_backspace sv = redrawn sv backspace_cells"

definition shell_delete_at_cursor :: "'x shell_services \<Rightarrow> 'x shell_call" where
  "shell_delete_at_cursor sv = redrawn sv delete_cells"

definition shell_paste_clipboard :: "'x shell_services \<Rightarrow> 'x shell_call" where
  "shell_paste_clipboard sv = (\<lambda>(s, d). do {
     s \<leftarrow> shell_delete_selection s;
     let room = nat ((SHELL_MAX_INPUT - sh_length s) mod 2 ^ 32);
     let n = (if room < clipboard_length (dk_clip d) then room else clipboard_length (dk_clip d));
     for_each (\<lambda>i st. do { c \<leftarrow> rd (clipboard_data (dk_clip d)) i; shell_insert_char sv c st }) [0..<n] (s, d) })"

section \<open>Moving\<close>

definition set_mark :: "bool \<Rightarrow> shell_state \<Rightarrow> shell_state" where
  "set_mark shift s =
     (if shift \<and> sh_anchor s < 0 then s\<lparr>sh_anchor := sh_cursor s\<rparr>
      else if \<not> shift then shell_clear_selection s else s)"

function skip_left :: "(u8 \<Rightarrow> bool) \<Rightarrow> bytes \<Rightarrow> int \<Rightarrow> int option" where
  "skip_left p line i =
     (if i \<le> 0 then Some i
      else do { c \<leftarrow> cell line (i - 1); if p c then skip_left p line (i - 1) else Some i })"
  by auto
termination
  by (relation "measure (\<lambda>(p, line, i). nat i)") auto

declare skip_left.simps [simp del]

function skip_right :: "(u8 \<Rightarrow> bool) \<Rightarrow> bytes \<Rightarrow> int \<Rightarrow> int \<Rightarrow> int option" where
  "skip_right p line n i =
     (if n \<le> i then Some i
      else do { c \<leftarrow> cell line i; if p c then skip_right p line n (i + 1) else Some i })"
  by auto
termination
  by (relation "measure (\<lambda>(p, line, n, i). nat (n - i))") auto

declare skip_right.simps [simp del]

definition move_left_cells :: "bool \<Rightarrow> bool \<Rightarrow> shell_state \<Rightarrow> (shell_state \<times> bool) option" where
  "move_left_cells shift word s =
     (let s = set_mark shift s
      in if word
         then do { i \<leftarrow> skip_left (\<lambda>c. c = 32) (sh_line s) (sh_cursor s);
                   i \<leftarrow> skip_left (\<lambda>c. c \<noteq> 32) (sh_line s) i;
                   Some (s\<lparr>sh_cursor := i\<rparr>, True) }
         else Some (if 0 < sh_cursor s then s\<lparr>sh_cursor := sh_cursor s - 1\<rparr> else s, True))"

definition move_right_cells :: "bool \<Rightarrow> bool \<Rightarrow> shell_state \<Rightarrow> (shell_state \<times> bool) option" where
  "move_right_cells shift word s =
     (let s = set_mark shift s
      in if word
         then do { i \<leftarrow> skip_right (\<lambda>c. c = 32) (sh_line s) (sh_length s) (sh_cursor s);
                   i \<leftarrow> skip_right (\<lambda>c. c \<noteq> 32) (sh_line s) (sh_length s) i;
                   Some (s\<lparr>sh_cursor := i\<rparr>, True) }
         else Some (if sh_cursor s < sh_length s then s\<lparr>sh_cursor := sh_cursor s + 1\<rparr> else s, True))"

definition shell_move_cursor_left :: "'x shell_services \<Rightarrow> bool \<Rightarrow> bool \<Rightarrow> 'x shell_call" where
  "shell_move_cursor_left sv shift word = redrawn sv (move_left_cells shift word)"

definition shell_move_cursor_right :: "'x shell_services \<Rightarrow> bool \<Rightarrow> bool \<Rightarrow> 'x shell_call" where
  "shell_move_cursor_right sv shift word = redrawn sv (move_right_cells shift word)"

definition shell_move_cursor_home :: "'x shell_services \<Rightarrow> 'x shell_call" where
  "shell_move_cursor_home sv = redrawn sv (\<lambda>s. Some ((shell_clear_selection s)\<lparr>sh_cursor := 0\<rparr>, True))"

definition shell_move_cursor_end :: "'x shell_services \<Rightarrow> 'x shell_call" where
  "shell_move_cursor_end sv = redrawn sv (\<lambda>s. Some ((shell_clear_selection s)\<lparr>sh_cursor := sh_length s\<rparr>, True))"

section \<open>History\<close>

definition shift_history :: "int \<Rightarrow> bytes list \<Rightarrow> bytes list option" where
  "shift_history i hs = do {
     h \<leftarrow> cell hs i; g \<leftarrow> cell hs (i - 1); g \<leftarrow> shell_copy_line g h SHELL_MAX_INPUT; put_cell hs (i - 1) g }"

definition set_history :: "int \<Rightarrow> bytes \<Rightarrow> bytes list \<Rightarrow> bytes list option" where
  "set_history i line hs = do {
     h \<leftarrow> cell hs i; h \<leftarrow> shell_copy_line h line SHELL_MAX_INPUT; put_cell hs i h }"

definition repeats_last :: "bytes \<Rightarrow> shell_state \<Rightarrow> bool option" where
  "repeats_last line s =
     (if 0 < sh_history_count s
      then do { h \<leftarrow> cell (sh_history s) (sh_history_count s - 1); string_equals h line } else Some False)"

definition shell_store_history :: "bytes \<Rightarrow> shell_state \<Rightarrow> shell_state option" where
  "shell_store_history line s = do {
     first \<leftarrow> cell line 0;
     if first = 0 then Some s
     else do {
       same \<leftarrow> repeats_last line s;
       if same then Some s
       else if sh_history_count s < SHELL_HISTORY_SIZE
       then do {
         hs \<leftarrow> set_history (sh_history_count s) line (sh_history s);
         Some (s\<lparr>sh_history := hs, sh_history_count := sh_history_count s + 1\<rparr>) }
       else do {
         hs \<leftarrow> for_each shift_history [1..SHELL_HISTORY_SIZE - 1] (sh_history s);
         hs \<leftarrow> set_history (SHELL_HISTORY_SIZE - 1) line hs;
         Some (s\<lparr>sh_history := hs\<rparr>) } } }"

definition history_up_cells :: "shell_state \<Rightarrow> (shell_state \<times> bool) option" where
  "history_up_cells s =
     (if sh_history_count s = 0 then Some (s, False)
      else do {
        s \<leftarrow> (if sh_history_index s = - 1
              then do { draft \<leftarrow> shell_copy_line (sh_draft s) (sh_line s) SHELL_MAX_INPUT;
                        Some (s\<lparr>sh_draft := draft, sh_draft_length := sh_length s,
                                sh_history_index := sh_history_count s - 1\<rparr>) }
              else Some (if 0 < sh_history_index s then s\<lparr>sh_history_index := sh_history_index s - 1\<rparr> else s));
        h \<leftarrow> cell (sh_history s) (sh_history_index s);
        s \<leftarrow> shell_set_line h s;
        Some (s, True) })"

definition history_down_cells :: "shell_state \<Rightarrow> (shell_state \<times> bool) option" where
  "history_down_cells s =
     (if sh_history_index s = - 1 then Some (s, False)
      else if sh_history_index s < sh_history_count s - 1
      then do {
        let s = s\<lparr>sh_history_index := sh_history_index s + 1\<rparr>;
        h \<leftarrow> cell (sh_history s) (sh_history_index s);
        s \<leftarrow> shell_set_line h s;
        Some (s, True) }
      else do {
        s \<leftarrow> shell_set_line (sh_draft s) s;
        Some (s\<lparr>sh_length := sh_draft_length s, sh_cursor := sh_draft_length s, sh_history_index := - 1\<rparr>, True) })"

definition shell_history_up :: "'x shell_services \<Rightarrow> 'x shell_call" where
  "shell_history_up sv = redrawn sv history_up_cells"

definition shell_history_down :: "'x shell_services \<Rightarrow> 'x shell_call" where
  "shell_history_down sv = redrawn sv history_down_cells"

section \<open>Events\<close>

definition shell_show_prompt :: "'x shell_services \<Rightarrow> 'x shell_call" where
  "shell_show_prompt sv = (\<lambda>(s, d). do {
     line \<leftarrow> put_cell (sh_line s) 0 0;
     let s = s\<lparr>sh_prompt_row := con_y (dk_console d), sh_line := line, sh_length := 0, sh_cursor := 0\<rparr>;
     s \<leftarrow> shell_reset_history_navigation (shell_clear_selection s);
     let row = sh_prompt_row s;
     let (n, d) = shell_write_prompt sv (on_console (\<lambda>c. console_set_cursor 0 row (console_clear_row row c)) d);
     Some (s, on_console (console_set_cursor n row) d) })"

definition shell_submit :: "'x shell_services \<Rightarrow> 'x shell_call" where
  "shell_submit sv = (\<lambda>(s, d). do {
     let d = on_console (console_write_char 10) d;
     s \<leftarrow> shell_store_history (sh_line s) s;
     t \<leftarrow> string_cells (sh_line s);
     d \<leftarrow> sv_execute sv t d;
     let d = (if con_x (dk_console d) \<noteq> 0 then on_console (console_write_char 10) d else d);
     shell_show_prompt sv (s, d) })"

definition shell_handle_event :: "'x shell_services \<Rightarrow> key_event \<Rightarrow> 'x shell_call" where
  "shell_handle_event sv e =
     (let shift = ev_mods e AND KEY_MOD_SHIFT \<noteq> 0; ctrl = ev_mods e AND KEY_MOD_CTRL \<noteq> 0
      in case ev_type e of
           KEY_EVENT_CHARACTER \<Rightarrow>
             if ev_char e = 9
             then (\<lambda>st. do { st \<leftarrow> shell_insert_char sv 32 st; st \<leftarrow> shell_insert_char sv 32 st; shell_insert_char sv 32 st })
             else shell_insert_char sv (ev_char e)
         | KEY_EVENT_ENTER \<Rightarrow> shell_submit sv
         | KEY_EVENT_BACKSPACE \<Rightarrow> shell_backspace sv
         | KEY_EVENT_DELETE \<Rightarrow> shell_delete_at_cursor sv
         | KEY_EVENT_LEFT \<Rightarrow> shell_move_cursor_left sv shift ctrl
         | KEY_EVENT_RIGHT \<Rightarrow> shell_move_cursor_right sv shift ctrl
         | KEY_EVENT_UP \<Rightarrow> shell_history_up sv
         | KEY_EVENT_DOWN \<Rightarrow> shell_history_down sv
         | KEY_EVENT_HOME \<Rightarrow> shell_move_cursor_home sv
         | KEY_EVENT_END \<Rightarrow> shell_move_cursor_end sv
         | KEY_EVENT_COPY \<Rightarrow> shell_copy_selection
         | KEY_EVENT_PASTE \<Rightarrow> (\<lambda>st. do { st \<leftarrow> shell_paste_clipboard sv st; shell_refresh_line sv st })
         | KEY_EVENT_NONE \<Rightarrow> Some)"

text \<open>The start of \<open>shell_run\<close>; its loop hands on every event that arrives.\<close>

definition shell_start :: "'x shell_services \<Rightarrow> 'x shell_call" where
  "shell_start sv = (\<lambda>(s, d).
     shell_show_prompt sv
       (s, on_console (\<lambda>c.
             let c = console_set_color COLOR_LIGHT_GREEN COLOR_BLACK (console_clear c);
                 c = console_set_color COLOR_WHITE COLOR_BLACK (console_writeln (ascii ''PrismOS Loaded!'') c)
             in console_writeln [] (console_writeln (ascii ''Type '' @ [39] @ ascii ''help'' @ [39] @ ascii '' for commands.'') c)) d))"

definition shell_run :: "'x shell_services \<Rightarrow> key_event list \<Rightarrow> 'x shell_call" where
  "shell_run sv events st = do { st \<leftarrow> shell_start sv st; for_each (shell_handle_event sv) events st }"

end
