(* ===== verification/Shell_Edit.thy ===== *)
theory Shell_Edit
  imports Shell
begin

text \<open>
  The line editor of the shell against an editor on lists: what each key does to the text, the cursor, the
  selection and the history.
\<close>

section \<open>Cells of a line\<close>

lemma cell_in [simp]: "cell xs (int i) = rd xs i"
  by (simp add: cell_def)

lemma put_cell_in [simp]: "put_cell xs (int i) x = wr xs i x"
  by (simp add: put_cell_def)

lemma cell_steps [simp]:
  "cell xs (int i + 1) = rd xs (Suc i)" "put_cell xs (int i + 1) x = wr xs (Suc i) x"
  "cell xs (1 + int i) = rd xs (Suc i)" "put_cell xs (1 + int i) x = wr xs (Suc i) x"
  "cell xs 0 = rd xs 0" "put_cell xs 0 x = wr xs 0 x"
  by (simp_all add: cell_def put_cell_def nat_add_distrib)

lemma for_each_map: "for_each f (map g xs) s = for_each (f \<circ> g) xs s"
  by (induction xs arbitrary: s) (simp_all split: option.split)

lemma upto_from: "[x..y] = map (\<lambda>k. x + int k) [0..<nat (y - x + 1)]"
  by (rule nth_equalityI) simp_all

lemma move_cell_in: "i < length l \<Longrightarrow> j < length l \<Longrightarrow> move_cell (int i) (int j) l = Some (l[j := l ! i])"
  by (simp add: move_cell_def rd_in wr_in)

lemma shift_down:
  assumes "b \<le> a" "a + m \<le> length l"
  shows "for_each (\<lambda>k. move_cell (int (a + k)) (int (b + k))) [0..<m] l
    = Some (take b l @ take m (drop a l) @ drop (b + m) l)"
  using assms(2)
proof (induction m)
  case (Suc m)
  let ?l = "take b l @ take m (drop a l) @ drop (b + m) l"
  have "for_each (\<lambda>k. move_cell (int (a + k)) (int (b + k))) [0..<m] l = Some ?l" using Suc by simp
  moreover have "?l ! (a + m) = l ! (a + m)" "length ?l = length l"
    using Suc.prems assms(1) by (auto simp: nth_append min_def add.commute)
  moreover have "?l[b + m := l ! (a + m)] = take b l @ take (Suc m) (drop a l) @ drop (b + Suc m) l"
    using Suc.prems assms(1)
    by (intro nth_equalityI)
      (auto simp: nth_append nth_list_update min_def intro!: arg_cong [where f = "(!) l"])
  ultimately show ?case using Suc.prems assms(1) by (simp add: for_each_append move_cell_in del: of_nat_add)
qed (use assms in simp)

lemma shift_up:
  assumes "c + m < length l"
  shows "for_each (\<lambda>k. move_cell (int (c + k)) (int (c + k + 1))) (rev [0..<m]) l
    = Some (take (c + 1) l @ take m (drop c l) @ drop (c + 1 + m) l)"
  using assms
proof (induction m arbitrary: l)
  case (Suc m)
  let ?l = "l[c + m + 1 := l ! (c + m)]"
  have "for_each (\<lambda>k. move_cell (int (c + k)) (int (c + k + 1))) (rev [0..<m]) ?l
      = Some (take (c + 1) ?l @ take m (drop c ?l) @ drop (c + 1 + m) ?l)" using Suc by simp
  moreover have "take (c + 1) ?l @ take m (drop c ?l) @ drop (c + 1 + m) ?l
      = take (c + 1) l @ take (Suc m) (drop c l) @ drop (c + 1 + Suc m) l"
    using Suc.prems by (intro nth_equalityI) 
      (auto simp: nth_append nth_list_update min_def nth_Cons' Suc_diff_Suc intro!: arg_cong [where f = "(!) l"])
  ultimately show ?case using Suc.prems by (simp add: move_cell_in del: of_nat_add of_nat_Suc)
qed simp

section \<open>Lines as texts\<close>

definition line_of :: "bytes \<Rightarrow> bytes \<Rightarrow> bool" where
  "line_of l t \<longleftrightarrow> length l = 97 \<and> length t \<le> 96 \<and> 0 \<notin> set t \<and> take (length t + 1) l = t @ [0]"

lemma line_of_split: "line_of l t \<Longrightarrow> l = t @ 0 # drop (length t + 1) l"
  unfolding line_of_def by (metis append.assoc append_Cons append_Nil append_take_drop_id)

lemma line_of_nth: "line_of l t \<Longrightarrow> i < length t \<Longrightarrow> l ! i = t ! i"
  by (subst line_of_split) (auto simp: nth_append)

lemma line_of_string: "line_of l t \<Longrightarrow> string_cells l = Some t"
proof -
  assume l: "line_of l t"
  have "0 \<in> set l" by (subst line_of_split [OF l]) simp
  moreover have "takeWhile (\<lambda>c. c \<noteq> 0) l = t"
    by (subst line_of_split [OF l]) (use l in \<open>auto simp: line_of_def takeWhile_tail\<close>)
  ultimately show ?thesis by (simp add: string_cells_def)
qed

lemma line_of_length: "line_of l t \<Longrightarrow> string_length l = Some (int (length t))"
  by (simp add: string_length_def line_of_string)

lemma line_of_inj: "line_of l t \<Longrightarrow> line_of l u \<Longrightarrow> t = u"
  by (metis line_of_string option.inject)

lemma line_ofI: "length l = 97 \<Longrightarrow> length t \<le> 96 \<Longrightarrow> 0 \<notin> set t \<Longrightarrow> take (length t + 1) l = t @ [0] \<Longrightarrow> line_of l t"
  by (simp add: line_of_def)

lemma line_of_blank: "length l = 97 \<Longrightarrow> l ! 0 = 0 \<Longrightarrow> line_of l []"
  by (cases l) (auto simp: line_of_def)

text \<open>Copying one line over another.\<close>

lemma copy_from_line:
  assumes "line_of source t" "length destination = 97" "i \<le> length t" "take i destination = take i t"
  shows "\<exists>l. copy_from (int i) source 96 destination = Some l \<and> line_of l t"
  using assms(2-4)
proof (induction "length t - i" arbitrary: i destination)
  case 0
  then have i: "i = length t" by simp
  have s: "source ! length t = 0" by (subst line_of_split [OF assms(1)]) simp
  have len: "length source = 97" "length t \<le> 96" "0 \<notin> set t" using assms(1) by (auto simp: line_of_def)
  have "take (length t + 1) (destination[length t := 0]) = t @ [0]"
    using 0 i len by (simp add: take_Suc_conv_app_nth)
  then have "line_of (destination[length t := 0]) t" using 0 len by (simp add: line_of_def)
  then show ?case using s len 0 i by (subst copy_from.simps) (simp add: rd_in wr_in)
next
  case (Suc k)
  have len: "length source = 97" "length t \<le> 96" "0 \<notin> set t" using assms(1) by (auto simp: line_of_def)
  have i: "i < length t" "k = length t - (i + 1)" using Suc by auto
  have c: "source ! i = t ! i" "t ! i \<noteq> 0" using line_of_nth [OF assms(1)] i len(3) by (auto simp: in_set_conv_nth)
  have "take (i + 1) (destination[i := t ! i]) = take (i + 1) t"
    using Suc i len by (simp add: take_Suc_conv_app_nth)
  then obtain l where "copy_from (int (i + 1)) source 96 (destination[i := t ! i]) = Some l" "line_of l t"
    using Suc(1) [OF i(2), of "destination[i := t ! i]"] Suc.prems i by auto
  then show ?case using c i len Suc.prems by (subst copy_from.simps) (simp add: rd_in wr_in add.commute)
qed

lemma copy_line_of:
  "line_of source t \<Longrightarrow> length destination = 97 \<Longrightarrow> \<exists>l. shell_copy_line destination source SHELL_MAX_INPUT = Some l \<and> line_of l t"
  using copy_from_line [of source t destination 0] by (simp add: shell_copy_line_def SHELL_MAX_INPUT_def)

section \<open>The editor on lists\<close>

record editor =
  ed_text :: bytes
  ed_cursor :: nat
  ed_mark :: "nat option" \<comment> \<open>where the selection starts\<close>
  ed_draft :: bytes
  ed_past :: "bytes list"
  ed_at :: "nat option" \<comment> \<open>the entry of the history on show\<close>

definition picked :: "editor \<Rightarrow> bool" where
  "picked e \<longleftrightarrow> (case ed_mark e of None \<Rightarrow> False | Some m \<Rightarrow> m \<noteq> ed_cursor e)"

definition erase :: "editor \<Rightarrow> editor" where
  "erase e =
     (case ed_mark e of
        None \<Rightarrow> e
      | Some m \<Rightarrow>
          if m = ed_cursor e then e
          else e\<lparr>ed_text := take (min m (ed_cursor e)) (ed_text e) @ drop (max m (ed_cursor e)) (ed_text e),
                 ed_cursor := min m (ed_cursor e), ed_mark := None\<rparr>)"

definition type_char :: "u8 \<Rightarrow> editor \<Rightarrow> editor" where
  "type_char c e =
     (let e = erase e
      in if 96 \<le> length (ed_text e) then e
         else e\<lparr>ed_text := take (ed_cursor e) (ed_text e) @ c # drop (ed_cursor e) (ed_text e),
                ed_cursor := ed_cursor e + 1, ed_mark := None\<rparr>)"

definition rub_left :: "editor \<Rightarrow> editor" where
  "rub_left e =
     (if picked e then erase e
      else if ed_cursor e = 0 then e
      else e\<lparr>ed_text := take (ed_cursor e - 1) (ed_text e) @ drop (ed_cursor e) (ed_text e),
             ed_cursor := ed_cursor e - 1\<rparr>)"

definition rub_right :: "editor \<Rightarrow> editor" where
  "rub_right e =
     (if picked e then erase e
      else e\<lparr>ed_text := take (ed_cursor e) (ed_text e) @ drop (ed_cursor e + 1) (ed_text e)\<rparr>)"

definition mark_if :: "bool \<Rightarrow> editor \<Rightarrow> editor" where
  "mark_if shift e =
     (if \<not> shift then e\<lparr>ed_mark := None\<rparr>
      else if ed_mark e = None then e\<lparr>ed_mark := Some (ed_cursor e)\<rparr> else e)"

definition word_left :: "bytes \<Rightarrow> nat" where
  "word_left t =
     (let r = dropWhile (\<lambda>c. c = 32) (rev t) in length (dropWhile (\<lambda>c. c \<noteq> 32) r))"

definition word_right :: "bytes \<Rightarrow> nat" where
  "word_right t =
     (let r = dropWhile (\<lambda>c. c = 32) t in length t - length (dropWhile (\<lambda>c. c \<noteq> 32) r))"

definition go_left :: "bool \<Rightarrow> bool \<Rightarrow> editor \<Rightarrow> editor" where
  "go_left shift word e =
     (let e = mark_if shift e
      in e\<lparr>ed_cursor := if word then word_left (take (ed_cursor e) (ed_text e)) else ed_cursor e - 1\<rparr>)"

definition go_right :: "bool \<Rightarrow> bool \<Rightarrow> editor \<Rightarrow> editor" where
  "go_right shift word e =
     (let e = mark_if shift e
      in e\<lparr>ed_cursor := if word then ed_cursor e + word_right (drop (ed_cursor e) (ed_text e))
                        else min (length (ed_text e)) (ed_cursor e + 1)\<rparr>)"

definition show_text :: "bytes \<Rightarrow> editor \<Rightarrow> editor" where
  "show_text t e = e\<lparr>ed_text := t, ed_cursor := length t, ed_mark := None\<rparr>"

definition go_up :: "editor \<Rightarrow> editor" where
  "go_up e =
     (if ed_past e = [] then e
      else (case ed_at e of
              None \<Rightarrow> show_text (last (ed_past e)) (e\<lparr>ed_draft := ed_text e, ed_at := Some (length (ed_past e) - 1)\<rparr>)
            | Some k \<Rightarrow> show_text (ed_past e ! (k - 1)) (e\<lparr>ed_at := Some (k - 1)\<rparr>)))"

definition go_down :: "editor \<Rightarrow> editor" where
  "go_down e =
     (case ed_at e of
        None \<Rightarrow> e
      | Some k \<Rightarrow>
          if k + 1 < length (ed_past e) then show_text (ed_past e ! (k + 1)) (e\<lparr>ed_at := Some (k + 1)\<rparr>)
          else show_text (ed_draft e) (e\<lparr>ed_at := None\<rparr>))"

definition remember :: "bytes \<Rightarrow> bytes list \<Rightarrow> bytes list" where
  "remember t past =
     (if t = [] \<or> past \<noteq> [] \<and> last past = t then past
      else if length past < 16 then past @ [t] else tl past @ [t])"

section \<open>What the arrays show\<close>

definition displays_line :: "shell_state \<Rightarrow> editor \<Rightarrow> bool" where
  "displays_line s e \<longleftrightarrow>
     line_of (sh_line s) (ed_text e) \<and> sh_length s = int (length (ed_text e))
     \<and> sh_cursor s = int (ed_cursor e) \<and> ed_cursor e \<le> length (ed_text e)
     \<and> sh_anchor s = (case ed_mark e of None \<Rightarrow> - 1 | Some m \<Rightarrow> int m)
     \<and> (\<forall>m. ed_mark e = Some m \<longrightarrow> m \<le> length (ed_text e))"

definition displays_past :: "shell_state \<Rightarrow> editor \<Rightarrow> bool" where
  "displays_past s e \<longleftrightarrow>
     line_of (sh_draft s) (ed_draft e) \<and> sh_draft_length s = int (length (ed_draft e))
     \<and> sh_history_index s = (case ed_at e of None \<Rightarrow> - 1 | Some k \<Rightarrow> int k)
     \<and> (\<forall>k. ed_at e = Some k \<longrightarrow> k < length (ed_past e))
     \<and> length (sh_history s) = 16 \<and> (\<forall>h \<in> set (sh_history s). length h = 97)
     \<and> length (ed_past e) \<le> 16 \<and> sh_history_count s = int (length (ed_past e))
     \<and> (\<forall>k < length (ed_past e). line_of (sh_history s ! k) (ed_past e ! k) \<and> ed_past e ! k \<noteq> [])"

definition displays :: "shell_state \<Rightarrow> editor \<Rightarrow> bool" where
  "displays s e \<longleftrightarrow> displays_line s e \<and> displays_past s e"

lemma displays_past_line [simp]:
  "displays_past (s\<lparr>sh_line := l\<rparr>) e = displays_past s e" "displays_past (s\<lparr>sh_length := n\<rparr>) e = displays_past s e"
  "displays_past (s\<lparr>sh_cursor := c\<rparr>) e = displays_past s e" "displays_past (s\<lparr>sh_anchor := a\<rparr>) e = displays_past s e"
  "displays_past s (e\<lparr>ed_text := t\<rparr>) = displays_past s e" "displays_past s (e\<lparr>ed_cursor := k\<rparr>) = displays_past s e"
  "displays_past s (e\<lparr>ed_mark := m\<rparr>) = displays_past s e"
  by (simp_all add: displays_past_def)

lemma displays_line_past [simp]:
  "displays_line (s\<lparr>sh_draft := l\<rparr>) e = displays_line s e" "displays_line (s\<lparr>sh_draft_length := n\<rparr>) e = displays_line s e"
  "displays_line (s\<lparr>sh_history := h\<rparr>) e = displays_line s e" "displays_line (s\<lparr>sh_history_count := n\<rparr>) e = displays_line s e"
  "displays_line (s\<lparr>sh_history_index := n\<rparr>) e = displays_line s e"
  "displays_line s (e\<lparr>ed_draft := d\<rparr>) = displays_line s e" "displays_line s (e\<lparr>ed_past := p\<rparr>) = displays_line s e"
  "displays_line s (e\<lparr>ed_at := k\<rparr>) = displays_line s e"
  by (simp_all add: displays_line_def)

lemma picked_displays: "displays_line s e \<Longrightarrow> shell_has_selection s = picked e"
  by (auto simp: displays_line_def shell_has_selection_def picked_def split: option.splits)

lemma line_of_drop:
  assumes "line_of l t" "a \<le> b" "b \<le> length t"
  shows "line_of (take a l @ take (length t + 1 - b) (drop b l) @ drop (a + (length t + 1 - b)) l) (take a t @ drop b t)"
proof -
  have l: "length l = 97" "length t \<le> 96" "0 \<notin> set t" using assms(1) by (auto simp: line_of_def)
  have "take a l = take a t" using line_of_split [OF assms(1)] assms(2,3) l
    by (metis diff_is_0_eq dual_order.trans take0 take_append append_Nil2)
  moreover have "take (length t + 1 - b) (drop b l) = drop b t @ [0]"
    using assms l unfolding line_of_def by (metis drop_append drop_take diff_is_0_eq drop0)
  ultimately show ?thesis using l assms(2,3)
    by (auto simp: line_of_def dest: in_set_takeD in_set_dropD)
qed

lemma delete_selection_displays:
  assumes "displays s e"
  shows "\<exists>s'. shell_delete_selection s = Some s' \<and> displays s' (erase e)"
proof (cases "picked e")
  case False
  then have "erase e = e" by (auto simp: picked_def erase_def split: option.splits)
  then show ?thesis using assms False picked_displays [of s e] by (simp add: shell_delete_selection_def displays_def)
next
  case True
  then obtain m where m: "ed_mark e = Some m" "m \<noteq> ed_cursor e" by (auto simp: picked_def split: option.splits)
  let ?a = "min m (ed_cursor e)" and ?b = "max m (ed_cursor e)" and ?n = "length (ed_text e)"
  from assms m have s: "line_of (sh_line s) (ed_text e)" "sh_length s = int ?n" "?b \<le> ?n" "?a \<le> ?b"
    "shell_selection_start s = int ?a" "shell_selection_end s = int ?b"
    by (auto simp: displays_def displays_line_def shell_selection_start_def shell_selection_end_def)
  have l: "?n + 1 \<le> length (sh_line s)" using s(1) by (simp add: line_of_def)
  have idx: "[int ?b..sh_length s] = map (\<lambda>k. int ?b + int k) [0..<?n + 1 - ?b]"
  proof -
    have "nat (int ?n - int ?b + 1) = ?n + 1 - ?b" using s(3) by linarith
    then show ?thesis unfolding upto_from [of "int ?b"] s(2) by (rule arg_cong)
  qed
  have "for_each (\<lambda>i. move_cell i (int ?a + i - int ?b)) [int ?b..sh_length s] (sh_line s)
      = for_each (\<lambda>k. move_cell (int (?b + k)) (int (?a + k))) [0..<?n + 1 - ?b] (sh_line s)"
    unfolding idx for_each_map by (simp add: comp_def)
  then have move: "for_each (\<lambda>i. move_cell i (int ?a + i - int ?b)) [int ?b..sh_length s] (sh_line s)
      = Some (take ?a (sh_line s) @ take (?n + 1 - ?b) (drop ?b (sh_line s)) @ drop (?a + (?n + 1 - ?b)) (sh_line s))"
    using shift_down [OF s(4), of "?n + 1 - ?b" "sh_line s"] l s(3) by simp
  note line = line_of_drop [OF s(1,4,3)]
  have mm: "min ?n ?a = ?a" "?a \<le> ?a + ?n - ?b" using s(3) by linarith+
  show ?thesis
    using assms m line picked_displays [of s e] True s(3,4)
    by (simp add: shell_delete_selection_def Let_def s(5,6) move shell_clear_selection_def displays_def)
      (use s(3) in \<open>simp add: displays_line_def erase_def s(2) of_nat_diff mm\<close>)
qed

section \<open>The keys\<close>

lemma erase_unmarked: "ed_mark (erase e) = None \<or> ed_mark (erase e) = Some (ed_cursor (erase e))"
  by (auto simp: erase_def split: option.split)

lemma erase_picked: "\<not> picked (erase e)"
  using erase_unmarked [of e] by (auto simp: picked_def)

lemma erase_past [simp]: "displays_past s (erase e) = displays_past s e"
  by (simp add: erase_def split: option.split)

lemma line_of_insert:
  assumes "line_of l t" "k \<le> length t" "length t < 96" "c \<noteq> 0"
  shows "line_of ((take (k + 1) l @ take (length t - k) (drop k l) @ drop (k + 1 + (length t - k)) l)
    [k := c, length t + 1 := 0]) (take k t @ c # drop k t)"
proof -
  have "length l = 97" "0 \<notin> set t" using assms(1) by (auto simp: line_of_def)
  define u v where uv: "u = take k t" "v = drop k t"
  then have t: "t = u @ v" "length u = k" using assms(2) by simp_all
  have "length (drop (length t + 1) l) \<noteq> 0" using assms(3) \<open>length l = 97\<close> by simp
  then obtain x r where "drop (length t + 1) l = x # r" by (cases "drop (length t + 1) l") auto
  then have l: "l = u @ v @ 0 # x # r" using line_of_split [OF assms(1)] t(1) by simp
  have "take 1 (v @ 0 # x # r) = [hd (v @ [0])]" by (cases v) auto
  then have "(take (k + 1) l @ take (length t - k) (drop k l) @ drop (k + 1 + (length t - k)) l)
      [k := c, length t + 1 := 0] = u @ c # v @ 0 # r"
    using t by (simp add: l list_update_append)
  moreover have "length (u @ c # v @ 0 # r) = 97" using l \<open>length l = 97\<close> by simp
  ultimately show ?thesis using t assms(3,4) \<open>0 \<notin> set t\<close> by (simp add: line_of_def)
qed

lemma insert_char_displays:
  assumes "displays s e" "c \<noteq> 0"
  shows "\<exists>s'. map_option fst (insert_char_cells c s) = Some s' \<and> displays s' (type_char c e)"
proof -
  obtain s1 where s1: "shell_delete_selection s = Some s1" "displays s1 (erase e)"
    using delete_selection_displays [OF assms(1)] by blast
  let ?t = "ed_text (erase e)" and ?k = "ed_cursor (erase e)" and ?l = "sh_line s1"
  from s1(2) have d: "line_of ?l ?t" "sh_length s1 = int (length ?t)" "sh_cursor s1 = int ?k" "?k \<le> length ?t"
    by (auto simp: displays_def displays_line_def)
  show ?thesis
  proof (cases "96 \<le> length ?t")
    case True
    then show ?thesis using s1 d
      by (simp add: insert_char_cells_def type_char_def Let_def SHELL_MAX_INPUT_def)
  next
    case False
    let ?m = "length ?t - ?k"
    have l: "length ?l = 97" "0 \<notin> set ?t" using d(1) by (auto simp: line_of_def)
    have idx: "[int ?k + 1..int (length ?t)] = map (\<lambda>j. int ?k + 1 + int j) [0..<?m]"
    proof -
      have "nat (int (length ?t) - (int ?k + 1) + 1) = ?m" by linarith
      then show ?thesis unfolding upto_from [of "int ?k + 1"] by (rule arg_cong)
    qed
    have "for_each (\<lambda>i. move_cell (i - 1) i) (rev [int ?k + 1..int (length ?t)]) ?l
        = for_each (\<lambda>j. move_cell (int (?k + j)) (int (?k + j + 1))) (rev [0..<?m]) ?l"
      unfolding idx rev_map for_each_map by (simp add: comp_def algebra_simps)
    then have up: "for_each (\<lambda>i. move_cell (i - 1) i) (rev [int ?k + 1..int (length ?t)]) ?l
        = Some (take (?k + 1) ?l @ take ?m (drop ?k ?l) @ drop (?k + 1 + ?m) ?l)"
      using shift_up [of ?k ?m ?l] l d(4) False by simp
    let ?up = "take (?k + 1) ?l @ take ?m (drop ?k ?l) @ drop (?k + 1 + ?m) ?l"
    let ?new = "(?up[?k := c])[length ?t + 1 := 0]"
    have "line_of ?new (take ?k ?t @ c # drop ?k ?t)"
      using line_of_insert [OF d(1,4) _ assms(2)] False by simp
    moreover have "insert_char_cells c s = Some (shell_clear_selection
        (s1\<lparr>sh_line := ?new, sh_length := sh_length s1 + 1, sh_cursor := sh_cursor s1 + 1\<rparr>), True)"
      using s1(1) d False up l by (simp add: insert_char_cells_def SHELL_MAX_INPUT_def wr_in)
    ultimately show ?thesis using s1(2) d False
      by (simp add: displays_def type_char_def Let_def shell_clear_selection_def) (simp add: displays_line_def)
  qed
qed

lemma move_cells_left:
  assumes "line_of l t" "k < length t"
  shows "\<exists>l'. for_each (\<lambda>i. move_cell (i + 1) i) [int k..int (length t) - 2] l = Some l'
    \<and> length l' = 97 \<and> take (length t - 1) l' = take k t @ drop (k + 1) t"
proof -
  let ?m = "length t - 1 - k"
  have l: "length l = 97" "length t \<le> 96" using assms(1) by (auto simp: line_of_def)
  have "nat (int (length t) - 2 - int k + 1) = ?m" using assms(2) by linarith
  then have "[int k..int (length t) - 2] = map (\<lambda>j. int k + int j) [0..<?m]"
    unfolding upto_from [of "int k"] by (rule arg_cong)
  then have "for_each (\<lambda>i. move_cell (i + 1) i) [int k..int (length t) - 2] l
      = for_each (\<lambda>j. move_cell (int (k + 1 + j)) (int (k + j))) [0..<?m] l"
    by (simp add: for_each_map comp_def algebra_simps)
  moreover have "for_each (\<lambda>j. move_cell (int (k + 1 + j)) (int (k + j))) [0..<?m] l
      = Some (take k l @ take ?m (drop (k + 1) l) @ drop (k + ?m) l)"
    using shift_down [of k "k + 1" ?m l] l assms(2) by simp
  moreover have "take (length t) l = t" using line_of_split [OF assms(1)] by (metis append_eq_conv_conj)
  then have "take k l = take k t" "take ?m (drop (k + 1) l) = drop (k + 1) t"
    using assms(2) by (metis less_imp_le min.absorb1 take_take)
      (metis \<open>take (length t) l = t\<close> assms(2) drop_take diff_diff_left add.commute)
  ultimately show ?thesis using l assms(2) by (intro exI [of _ "take k l @ take ?m (drop (k + 1) l) @ drop (k + ?m) l"]) simp
qed

lemma cut_char:
  assumes "line_of l t" "k < length t" "sh_length s = int (length t)"
  shows "\<exists>l'. do { line \<leftarrow> for_each (\<lambda>i. move_cell (i + 1) i) [int k..sh_length s - 2] l; put_cell line (sh_length s - 1) 0 }
      = Some l' \<and> line_of l' (take k t @ drop (k + 1) t)"
proof -
  obtain l1 where l1: "for_each (\<lambda>i. move_cell (i + 1) i) [int k..int (length t) - 2] l = Some l1" "length l1 = 97"
    "take (length t - 1) l1 = take k t @ drop (k + 1) t" using move_cells_left [OF assms(1,2)] by blast
  have t: "length t \<le> 96" "0 \<notin> set t" using assms(1) by (auto simp: line_of_def)
  have n: "int (length t) - 1 = int (length t - 1)" using assms(2) by simp
  have put: "put_cell l1 (int (length t) - 1) 0 = Some (l1[length t - 1 := 0])"
    unfolding n put_cell_in by (rule wr_in) (use l1(2) t(1) in simp)
  have "take (length t) (l1[length t - 1 := 0]) = take k t @ drop (k + 1) t @ [0]"
  proof -
    have "Suc (length t - 1) = length t" "length t - 1 < length l1" using assms(2) l1(2) t(1) by simp_all
    then show ?thesis
      using take_Suc_conv_app_nth [of "length t - 1" "l1[length t - 1 := 0]"] l1(3) by simp
  qed
  then have "line_of (l1[length t - 1 := 0]) (take k t @ drop (k + 1) t)"
  proof -
    have "Suc (length t - Suc 0) = length t" using assms(2) by simp
    then show ?thesis using l1 t assms(2) \<open>take (length t) _ = _\<close>
      by (auto simp: line_of_def dest: in_set_takeD in_set_dropD)
  qed
  then show ?thesis using l1(1) put by (simp add: assms(3))
qed

lemma backspace_displays:
  assumes "displays s e" "ed_mark e = Some (ed_cursor e) \<Longrightarrow> ed_cursor e = 0"
  shows "\<exists>s'. map_option fst (backspace_cells s) = Some s' \<and> displays s' (rub_left e)"
proof -
  from assms(1) have d: "line_of (sh_line s) (ed_text e)" "sh_length s = int (length (ed_text e))"
    "sh_cursor s = int (ed_cursor e)" "ed_cursor e \<le> length (ed_text e)" "shell_has_selection s = picked e"
    using picked_displays by (auto simp: displays_def displays_line_def)
  consider "picked e" | "\<not> picked e" "ed_cursor e = 0" | "\<not> picked e" "0 < ed_cursor e" by blast
  then show ?thesis
  proof cases
    case 1
    then show ?thesis using delete_selection_displays [OF assms(1)] d by (auto simp: backspace_cells_def rub_left_def)
  next
    case 2
    then show ?thesis using assms(1) d by (auto simp: backspace_cells_def rub_left_def)
  next
    case 3
    let ?k = "ed_cursor e - 1"
    have m: "ed_mark e = None" using 3 assms(2) by (auto simp: picked_def split: option.splits)
    have k: "int ?k = sh_cursor s - 1" "?k < length (ed_text e)" "?k + 1 = ed_cursor e" using 3 d by auto
    obtain l' where l': "do { line \<leftarrow> for_each (\<lambda>i. move_cell (i + 1) i) [int ?k..sh_length s - 2] (sh_line s);
        put_cell line (sh_length s - 1) 0 } = Some l'" "line_of l' (take ?k (ed_text e) @ drop (ed_cursor e) (ed_text e))"
      using cut_char [OF d(1) k(2) d(2)] k(3) by auto
    have "backspace_cells s = Some (s\<lparr>sh_line := l', sh_length := sh_length s - 1, sh_cursor := sh_cursor s - 1\<rparr>, True)"
      using 3 d l'(1) unfolding k(1) by (auto simp: backspace_cells_def bind_eq_Some_conv)
    then show ?thesis using assms(1) 3 d l'(2) m k by (simp add: displays_def rub_left_def) (simp add: displays_line_def m)
  qed
qed

lemma delete_displays:
  assumes "displays s e"
  shows "\<exists>s'. map_option fst (delete_cells s) = Some s' \<and> displays s' (rub_right e)"
proof -
  from assms(1) have d: "line_of (sh_line s) (ed_text e)" "sh_length s = int (length (ed_text e))"
    "sh_cursor s = int (ed_cursor e)" "ed_cursor e \<le> length (ed_text e)" "shell_has_selection s = picked e"
    using picked_displays by (auto simp: displays_def displays_line_def)
  consider "picked e" | "\<not> picked e" "ed_cursor e = length (ed_text e)" | "\<not> picked e" "ed_cursor e < length (ed_text e)"
    using d(4) by linarith
  then show ?thesis
  proof cases
    case 1
    then show ?thesis using delete_selection_displays [OF assms(1)] d by (auto simp: delete_cells_def rub_right_def)
  next
    case 2
    then show ?thesis using assms(1) d by (auto simp: delete_cells_def rub_right_def)
  next
    case 3
    obtain l' where l': "do { line \<leftarrow> for_each (\<lambda>i. move_cell (i + 1) i) [int (ed_cursor e)..sh_length s - 2] (sh_line s);
        put_cell line (sh_length s - 1) 0 } = Some l'"
      "line_of l' (take (ed_cursor e) (ed_text e) @ drop (ed_cursor e + 1) (ed_text e))"
      using cut_char [OF d(1) 3(2) d(2)] by auto
    have "delete_cells s = Some (s\<lparr>sh_line := l', sh_length := sh_length s - 1\<rparr>, True)"
      using 3 d l'(1) by (auto simp: delete_cells_def bind_eq_Some_conv)
    moreover have "m \<le> length (ed_text e) - 1" if "ed_mark e = Some m" for m
      using that 3 by (auto simp: picked_def)
    ultimately show ?thesis using assms(1) 3 d l'(2) by (simp add: displays_def rub_right_def) (auto simp: displays_line_def)
  qed
qed

lemma skip_left_line:
  assumes "line_of l t" "k \<le> length t"
  shows "skip_left p l (int k) = Some (int (length (dropWhile p (rev (take k t)))))"
  using assms(2)
proof (induction k)
  case (Suc k)
  have l: "length l = 97" "length t \<le> 96" using assms(1) by (auto simp: line_of_def)
  have "rev (take (Suc k) t) = t ! k # rev (take k t)" using Suc.prems by (simp add: take_Suc_conv_app_nth)
  then show ?case using Suc l line_of_nth [OF assms(1), of k]
    by (subst skip_left.simps) (simp add: rd_in)
qed (simp add: skip_left.simps)

lemma skip_right_line:
  assumes "line_of l t" "k \<le> length t"
  shows "skip_right p l (int (length t)) (int k) = Some (int (length t - length (dropWhile p (drop k t))))"
  using assms(2)
proof (induction "length t - k" arbitrary: k)
  case (Suc n)
  have l: "length l = 97" "length t \<le> 96" using assms(1) by (auto simp: line_of_def)
  have "drop k t = t ! k # drop (Suc k) t" using Suc by (simp add: Cons_nth_drop_Suc)
  moreover have "skip_right p l (int (length t)) (int (Suc k)) = Some (int (length t - length (dropWhile p (drop (Suc k) t))))"
    using Suc.hyps(1) [of "Suc k"] Suc.prems Suc.hyps(2) by simp
  moreover have "k < length t" using Suc.hyps(2) by simp
  ultimately show ?case using Suc l line_of_nth [OF assms(1), of k]
    by (subst skip_right.simps) (simp add: rd_in add.commute)
qed (simp add: skip_right.simps)

lemma mark_if_displays: "displays_line s e \<Longrightarrow> displays_line (set_mark shift s) (mark_if shift e)"
  by (auto simp: displays_line_def set_mark_def mark_if_def shell_clear_selection_def split: option.splits)

lemma set_mark_keeps [simp]:
  "displays_past (set_mark shift s) e = displays_past s e" "displays_past s (mark_if shift e) = displays_past s e"
  "sh_line (set_mark shift s) = sh_line s" "sh_cursor (set_mark shift s) = sh_cursor s"
  "sh_length (set_mark shift s) = sh_length s" "ed_text (mark_if shift e) = ed_text e"
  "ed_cursor (mark_if shift e) = ed_cursor e"
  by (auto simp: set_mark_def mark_if_def shell_clear_selection_def)

lemma cursor_displays:
  "displays_line s e \<Longrightarrow> k \<le> length (ed_text e) \<Longrightarrow> displays_line (s\<lparr>sh_cursor := int k\<rparr>) (e\<lparr>ed_cursor := k\<rparr>)"
  by (simp add: displays_line_def)

lemma drop_dropWhile: "drop (length xs - length (dropWhile p xs)) xs = dropWhile p xs"
  by (metis add_diff_cancel_right' append_eq_conv_conj length_append takeWhile_dropWhile_id)

lemma same_cursor: "sh_cursor s = i \<Longrightarrow> s\<lparr>sh_cursor := i\<rparr> = s"
  by simp

lemma same_index: "sh_history_index s = i \<Longrightarrow> s\<lparr>sh_history_index := i\<rparr> = s"
  by simp

lemma take_dropWhile: "take (length (dropWhile p (rev v))) v = rev (dropWhile p (rev v))"
proof -
  have "v = rev (dropWhile p (rev v)) @ rev (takeWhile p (rev v))" by (metis rev_append rev_rev_ident takeWhile_dropWhile_id)
  then show ?thesis by (metis append_eq_conv_conj length_rev)
qed

lemma go_left_displays:
  assumes "displays s e"
  shows "\<exists>s'. map_option fst (move_left_cells shift word s) = Some s' \<and> displays s' (go_left shift word e)"
proof -
  let ?t = "ed_text e" and ?k = "ed_cursor e" and ?s = "set_mark shift s" and ?e = "mark_if shift e"
  have d: "line_of (sh_line s) ?t" "sh_cursor s = int ?k" "?k \<le> length ?t"
    using assms by (auto simp: displays_def displays_line_def)
  let ?i = "length (dropWhile (\<lambda>c. c = 32) (rev (take ?k ?t)))"
  have i: "?i \<le> ?k" using length_dropWhile_le [of "\<lambda>c. c = 32" "rev (take ?k ?t)"] d(3) by simp
  have r: "rev (take ?i ?t) = dropWhile (\<lambda>c. c = 32) (rev (take ?k ?t))"
    using take_dropWhile [of "\<lambda>c. c = 32" "take ?k ?t"] i d(3) by (simp add: min_def)
  have w: "skip_left (\<lambda>c. c = 32) (sh_line s) (int ?k) = Some (int ?i)"
    "skip_left (\<lambda>c. c \<noteq> 32) (sh_line s) (int ?i) = Some (int (word_left (take ?k ?t)))"
    using skip_left_line [OF d(1)] d(3) i by (simp_all add: word_left_def Let_def r)
  have "word_left (take ?k ?t) \<le> length ?t"
    using length_dropWhile_le [of "\<lambda>c. c \<noteq> 32" "dropWhile (\<lambda>c. c = 32) (rev (take ?k ?t))"] i d(3)
    by (simp add: word_left_def Let_def)
  moreover have "map_option fst (move_left_cells shift word s) =
      Some (?s\<lparr>sh_cursor := int (if word then word_left (take ?k ?t) else ?k - 1)\<rparr>)"
    using w d(2) by (auto simp: move_left_cells_def Let_def of_nat_diff same_cursor)
  ultimately show ?thesis
    using assms d(3) cursor_displays [OF mark_if_displays, of s e] by (auto simp: displays_def go_left_def Let_def)
qed

lemma go_right_displays:
  assumes "displays s e"
  shows "\<exists>s'. map_option fst (move_right_cells shift word s) = Some s' \<and> displays s' (go_right shift word e)"
proof -
  let ?t = "ed_text e" and ?k = "ed_cursor e" and ?s = "set_mark shift s" and ?e = "mark_if shift e"
  have d: "line_of (sh_line s) ?t" "sh_cursor s = int ?k" "?k \<le> length ?t" "sh_length s = int (length ?t)"
    using assms by (auto simp: displays_def displays_line_def)
  let ?u = "dropWhile (\<lambda>c. c = 32) (drop ?k ?t)"
  let ?i = "length ?t - length ?u"
  have u: "length ?u \<le> length ?t - ?k" using length_dropWhile_le [of "\<lambda>c. c = 32" "drop ?k ?t"] by simp
  then have "?i = (length (drop ?k ?t) - length ?u) + ?k" using d(3) by simp
  then have r: "drop ?i ?t = ?u" using drop_dropWhile [of "drop ?k ?t" "\<lambda>c. c = 32"] by simp
  have v: "length (dropWhile (\<lambda>c. c \<noteq> 32) ?u) \<le> length ?u" by (rule length_dropWhile_le)
  have w: "skip_right (\<lambda>c. c = 32) (sh_line s) (int (length ?t)) (int ?k) = Some (int ?i)"
    "skip_right (\<lambda>c. c \<noteq> 32) (sh_line s) (int (length ?t)) (int ?i) = Some (int (?k + word_right (drop ?k ?t)))"
    using skip_right_line [OF d(1), of ?k] skip_right_line [OF d(1), of ?i] d(3) u v
    by (simp_all add: word_right_def Let_def r)
  have len: "?k + word_right (drop ?k ?t) \<le> length ?t" using d(3) by (simp add: word_right_def Let_def)
  define j where "j = (if word then ?k + word_right (drop ?k ?t) else min (length ?t) (?k + 1))"
  have "map_option fst (move_right_cells shift word s) = Some (?s\<lparr>sh_cursor := int j\<rparr>)"
    using w d(2-4) by (auto simp: move_right_cells_def Let_def same_cursor min_def j_def)
  moreover have "displays (?s\<lparr>sh_cursor := int j\<rparr>) (?e\<lparr>ed_cursor := j\<rparr>)"
    using assms cursor_displays [OF mark_if_displays, of s e j] len d(3) by (simp add: displays_def j_def)
  moreover have "go_right shift word e = ?e\<lparr>ed_cursor := j\<rparr>" by (simp add: go_right_def Let_def j_def)
  ultimately show ?thesis by metis
qed

section \<open>History\<close>

lemma set_line_displays:
  assumes "line_of h t" "displays_line s e"
  shows "\<exists>s'. shell_set_line h s = Some s' \<and> displays_line s' (show_text t e)
    \<and> (\<forall>e'. displays_past s' e' = displays_past s e') \<and> sh_draft_length s' = sh_draft_length s"
proof -
  have "length (sh_line s) = 97" using assms(2) by (simp add: displays_line_def line_of_def)
  from copy_line_of [OF assms(1) this] obtain l where l: "shell_copy_line (sh_line s) h SHELL_MAX_INPUT = Some l" "line_of l t"
    by blast
  then show ?thesis by (simp add: shell_set_line_def line_of_length displays_line_def show_text_def)
qed

lemma show_text_past [simp]: "displays_past s (show_text t e) = displays_past s e"
  by (simp add: show_text_def)

lemma history_up_displays:
  assumes "displays s e"
  shows "\<exists>s'. map_option fst (history_up_cells s) = Some s' \<and> displays s' (go_up e)"
proof (cases "ed_past e = []")
  case True
  then show ?thesis using assms by (auto simp: displays_def displays_past_def history_up_cells_def go_up_def)
next
  case False
  have d: "displays_line s e" "displays_past s e" "length (sh_history s) = 16" "length (ed_past e) \<le> 16"
    "sh_history_count s = int (length (ed_past e))"
    "\<And>k. k < length (ed_past e) \<Longrightarrow> line_of (sh_history s ! k) (ed_past e ! k)"
    using assms by (auto simp: displays_def displays_past_def)
  let ?n = "length (ed_past e) - 1"
  have n: "?n < length (ed_past e)" "int ?n = int (length (ed_past e)) - 1" using False by (simp_all add: of_nat_diff Suc_le_eq)
  show ?thesis
  proof (cases "ed_at e")
    case None
    have "length (sh_draft s) = 97" "line_of (sh_line s) (ed_text e)" "sh_length s = int (length (ed_text e))"
      using d(1,2) by (auto simp: displays_past_def displays_line_def line_of_def)
    with copy_line_of obtain l where l: "shell_copy_line (sh_draft s) (sh_line s) SHELL_MAX_INPUT = Some l" "line_of l (ed_text e)"
      by blast
    let ?s = "s\<lparr>sh_draft := l, sh_draft_length := sh_length s, sh_history_index := int ?n\<rparr>"
    let ?e = "e\<lparr>ed_draft := ed_text e, ed_at := Some ?n\<rparr>"
    have p: "displays_line ?s ?e" "displays_past ?s ?e"
      using d(1,2) l(2) n(1) \<open>sh_length s = _\<close> by (simp_all add: displays_past_def)
    obtain s' where s': "shell_set_line (sh_history s ! ?n) ?s = Some s'" "displays_line s' (show_text (ed_past e ! ?n) ?e)"
      "displays_past s' ?e" using set_line_displays [OF d(6) [OF n(1)] p(1)] p(2) by blast
    have "cell (sh_history s) (int (length (ed_past e)) - 1) = Some (sh_history s ! ?n)"
      unfolding n(2) [symmetric] cell_in by (rule rd_in) (use n(1) d(3,4) in simp)
    then have "history_up_cells s = Some (s', True)"
      using False None d l s'(1) n by (simp add: history_up_cells_def displays_past_def)
    then show ?thesis using s' False None by (simp add: displays_def go_up_def last_conv_nth)
  next
    case (Some k)
    have k: "k < length (ed_past e)" "sh_history_index s = int k" using d(2) Some by (auto simp: displays_past_def)
    let ?s = "s\<lparr>sh_history_index := int (k - 1)\<rparr>" and ?e = "e\<lparr>ed_at := Some (k - 1)\<rparr>"
    have p: "displays_line ?s ?e" "displays_past ?s ?e" using d(1,2) k(1) by (auto simp: displays_past_def)
    have "k - 1 < length (ed_past e)" using k(1) by simp
    from set_line_displays [OF d(6) [OF this] p(1)] p(2) obtain s' where
      s': "shell_set_line (sh_history s ! (k - 1)) ?s = Some s'" "displays_line s' (show_text (ed_past e ! (k - 1)) ?e)"
      "displays_past s' ?e" by blast
    have "history_up_cells s = Some (s', True)"
    proof (cases k)
      case 0
      have "shell_set_line (sh_history s ! 0) s = Some s'" using s'(1) 0 same_index [of s 0] k(2) by simp
      then show ?thesis using False d k 0 by (simp add: history_up_cells_def rd_in)
    next
      case (Suc j)
      then show ?thesis using False d k s'(1) by (simp add: history_up_cells_def rd_in)
    qed
    then show ?thesis using s' False Some by (simp add: displays_def go_up_def)
  qed
qed

lemma history_down_displays:
  assumes "displays s e"
  shows "\<exists>s'. map_option fst (history_down_cells s) = Some s' \<and> displays s' (go_down e)"
proof (cases "ed_at e")
  case None
  then show ?thesis using assms by (auto simp: displays_def displays_past_def history_down_cells_def go_down_def)
next
  case (Some k)
  have d: "displays_line s e" "displays_past s e" "length (sh_history s) = 16" "length (ed_past e) \<le> 16"
    "sh_history_count s = int (length (ed_past e))" "k < length (ed_past e)" "sh_history_index s = int k"
    "\<And>k. k < length (ed_past e) \<Longrightarrow> line_of (sh_history s ! k) (ed_past e ! k)"
    "line_of (sh_draft s) (ed_draft e)" "sh_draft_length s = int (length (ed_draft e))"
    using assms Some by (auto simp: displays_def displays_past_def)
  show ?thesis
  proof (cases "k + 1 < length (ed_past e)")
    case True
    let ?s = "s\<lparr>sh_history_index := int k + 1\<rparr>" and ?e = "e\<lparr>ed_at := Some (k + 1)\<rparr>"
    have p: "displays_line ?s ?e" "displays_past ?s ?e" using d(1,2) True by (auto simp: displays_past_def)
    obtain s' where s': "shell_set_line (sh_history s ! (k + 1)) ?s = Some s'"
      "displays_line s' (show_text (ed_past e ! (k + 1)) ?e)" "displays_past s' ?e"
      using set_line_displays [OF d(8) [OF True] p(1)] p(2) by blast
    have "history_down_cells s = Some (s', True)" using True d s'(1) by (simp add: history_down_cells_def rd_in)
    then show ?thesis using s' Some True by (simp add: displays_def go_down_def)
  next
    case False
    let ?e = "e\<lparr>ed_at := None\<rparr>"
    obtain s' where s': "shell_set_line (sh_draft s) s = Some s'" "displays_line s' (show_text (ed_draft e) e)"
      "displays_past s' e" "sh_draft_length s' = sh_draft_length s" using set_line_displays [OF d(9,1)] d(2) by blast
    have "history_down_cells s = Some (s'\<lparr>sh_length := sh_draft_length s, sh_cursor := sh_draft_length s,
        sh_history_index := - 1\<rparr>, True)" using False d s'(1,4) by (simp add: history_down_cells_def)
    moreover have "displays_line (s'\<lparr>sh_length := sh_draft_length s, sh_cursor := sh_draft_length s,
        sh_history_index := - 1\<rparr>) (show_text (ed_draft e) ?e)"
      using s'(2) d(10) by (simp add: displays_line_def show_text_def)
    moreover have "displays_past (s'\<lparr>sh_length := sh_draft_length s, sh_cursor := sh_draft_length s,
        sh_history_index := - 1\<rparr>) ?e" using s'(3) by (simp add: displays_past_def)
    ultimately show ?thesis using Some False by (simp add: displays_def go_down_def)
  qed
qed

end
