(* ===== verification/Shell_Keys.thy ===== *)
theory Shell_Keys
  imports Shell_Edit
begin

text \<open>The shell's answer to whole key events: drawing, clipboard, history and commands included.\<close>

section \<open>Drawing\<close>

lemma for_each_total: "(\<And>x s. x \<in> set xs \<Longrightarrow> f x s \<noteq> None) \<Longrightarrow> \<exists>s'. for_each f xs s = Some s'"
proof (induction xs arbitrary: s)
  case (Cons x xs)
  then obtain s1 where "f x s = Some s1" by fastforce
  then show ?case using Cons by auto
qed simp

lemma prompt_clip [simp]: "dk_clip (snd (shell_write_prompt sv d)) = dk_clip d"
  by (auto simp: shell_write_prompt_def Let_def on_console_def split: prod.split option.split list.split)

lemma render_total:
  assumes "0 \<in> set (sh_line s)" "length (sh_line s) = 97"
    and "shell_has_selection s \<Longrightarrow> 0 \<le> shell_selection_start s \<and> shell_selection_end s \<le> 97"
  shows "\<exists>d'. shell_refresh_line sv (s, d) = Some (s, d') \<and> dk_clip d' = dk_clip d"
proof -
  have total: "\<exists>c'. for_each (highlight n (sh_line s) (sh_prompt_row s)) [shell_selection_start s..shell_selection_end s - 1] c = Some c'"
    if "shell_has_selection s" for n c
    by (rule for_each_total) (use assms(2) assms(3) [OF that] in \<open>auto simp: highlight_def cell_def rd_in\<close>)
  define d0 where "d0 = on_console (\<lambda>c. console_set_cursor 0 (sh_prompt_row s) (console_clear_row (sh_prompt_row s)
      (console_set_cursor 0 (sh_prompt_row s) c))) d"
  obtain n d1 where w: "shell_write_prompt sv d0 = (n, d1)" by fastforce
  then have "dk_clip d1 = dk_clip d" using prompt_clip [of sv d0] by (simp add: d0_def on_console_def)
  moreover obtain t where t: "string_cells (sh_line s) = Some t" using assms(1) by (simp add: string_cells_def)
  ultimately show ?thesis
  proof (cases "shell_has_selection s")
    case True
    from total [OF this, of n "console_set_color COLOR_BLACK COLOR_LIGHT_GRAY (console_write t (dk_console d1))"]
    obtain c where "for_each (highlight n (sh_line s) (sh_prompt_row s)) [shell_selection_start s..shell_selection_end s - 1]
        (console_set_color COLOR_BLACK COLOR_LIGHT_GRAY (console_write t (dk_console d1))) = Some c" by blast
    with True t \<open>dk_clip d1 = dk_clip d\<close> show ?thesis
      by (simp add: shell_refresh_line_def shell_render_input_def Let_def d0_def [symmetric] w)
  qed (simp add: shell_refresh_line_def shell_render_input_def Let_def d0_def [symmetric] w)
qed

lemma redrawn_total:
  assumes "map_option fst (f s) = Some s'" "0 \<in> set (sh_line s')" "length (sh_line s') = 97"
    and "shell_has_selection s' \<Longrightarrow> 0 \<le> shell_selection_start s' \<and> shell_selection_end s' \<le> 97"
  shows "\<exists>d'. redrawn sv f (s, d) = Some (s', d') \<and> dk_clip d' = dk_clip d"
  using assms(1) render_total [OF assms(2-4), of sv d] by (auto simp: redrawn_def)

lemma displays_drawable:
  assumes "displays_line s e"
  shows "0 \<in> set (sh_line s)" "length (sh_line s) = 97"
    "shell_has_selection s \<Longrightarrow> 0 \<le> shell_selection_start s \<and> shell_selection_end s \<le> 97"
proof -
  have l: "line_of (sh_line s) (ed_text e)" using assms by (simp add: displays_line_def)
  show "0 \<in> set (sh_line s)" by (subst line_of_split [OF l]) simp
  show "length (sh_line s) = 97" using l by (simp add: line_of_def)
  show "shell_has_selection s \<Longrightarrow> 0 \<le> shell_selection_start s \<and> shell_selection_end s \<le> 97"
    using assms l
    by (auto simp: displays_line_def line_of_def shell_has_selection_def shell_selection_start_def shell_selection_end_def
        split: option.splits)
qed

lemma redrawn_displays:
  assumes "\<exists>s'. map_option fst (f s) = Some s' \<and> displays s' e"
  shows "\<exists>s' d'. redrawn sv f (s, d) = Some (s', d') \<and> displays s' e \<and> dk_clip d' = dk_clip d"
  using assms redrawn_total displays_drawable unfolding displays_def by metis

section \<open>The clipboard\<close>

definition clip_ok :: "clip \<Rightarrow> bool" where
  "clip_ok c \<longleftrightarrow> length (clip_text c) = PRISMOS_CLIPBOARD_CAPACITY + 1 \<and> clip_size c \<le> PRISMOS_CLIPBOARD_CAPACITY
     \<and> 0 \<notin> set (take (clip_size c) (clip_text c))"

definition clip_string :: "clip \<Rightarrow> bytes" where
  "clip_string c = take (clip_size c) (clip_text c)"

definition picked_text :: "editor \<Rightarrow> bytes" where
  "picked_text e =
     (case ed_mark e of
        None \<Rightarrow> []
      | Some m \<Rightarrow> take (max m (ed_cursor e) - min m (ed_cursor e)) (drop (min m (ed_cursor e)) (ed_text e)))"

lemma take_drop_take: "a + k \<le> n \<Longrightarrow> take k (drop a (take n l)) = take k (drop a l)"
  by (simp add: drop_take min_def)

lemma copy_displays:
  assumes "displays s e" "clip_ok (dk_clip d)"
  shows "\<exists>d'. shell_copy_selection (s, d) = Some (s, d') \<and> clip_ok (dk_clip d')
    \<and> clip_string (dk_clip d') = (if picked e then picked_text e else clip_string (dk_clip d))"
proof (cases "picked e")
  case False
  then show ?thesis using assms picked_displays [of s e] by (simp add: shell_copy_selection_def displays_def)
next
  case True
  then obtain m where m: "ed_mark e = Some m" "m \<noteq> ed_cursor e" by (auto simp: picked_def split: option.splits)
  let ?a = "min m (ed_cursor e)" and ?b = "max m (ed_cursor e)"
  let ?t = "drop ?a (sh_line s)"
  from assms(1) m have s: "line_of (sh_line s) (ed_text e)" "?b \<le> length (ed_text e)" "?a \<le> ?b" "shell_has_selection s"
    "shell_selection_start s = int ?a" "shell_selection_end s = int ?b"
    using picked_displays [of s e] True
    by (auto simp: displays_def displays_line_def shell_selection_start_def shell_selection_end_def)
  have l: "length (sh_line s) = 97" "0 \<notin> set (ed_text e)" "length (ed_text e) \<le> 96" using s(1) by (auto simp: line_of_def)
  have n: "nat (int ?b - int ?a) = ?b - ?a" "min (?b - ?a) PRISMOS_CLIPBOARD_CAPACITY = ?b - ?a" "?b - ?a \<le> length ?t"
    using s(2,3) l by (auto simp: PRISMOS_CLIPBOARD_CAPACITY_def)
  have cl: "length (clip_text (dk_clip d)) = PRISMOS_CLIPBOARD_CAPACITY + 1" using assms(2) by (simp add: clip_ok_def)
  obtain p where p: "clipboard_set (Some ?t) (?b - ?a) (dk_clip d) =
      Some ((dk_clip d)\<lparr>clip_text := take (?b - ?a) ?t @ 0 # drop (Suc (?b - ?a)) (clip_text (dk_clip d)),
        clip_size := ?b - ?a, clip_port := sends (osc52_start @ p @ [7]) (clip_port (dk_clip d))\<rparr>)"
    using clipboard_set_result [OF cl n(3), unfolded n(2)] by blast
  have "take (length (ed_text e)) (sh_line s) = ed_text e" using line_of_split [OF s(1)] by (metis append_eq_conv_conj)
  then have t: "take (?b - ?a) ?t = take (?b - ?a) (drop ?a (ed_text e))"
    using take_drop_take [of ?a "?b - ?a" "length (ed_text e)" "sh_line s"] s(2,3) by simp
  have "0 \<notin> set (take (?b - ?a) (drop ?a (ed_text e)))" using l(2) by (meson in_set_dropD in_set_takeD)
  have picked: "picked_text e = take (?b - ?a) (drop ?a (ed_text e))" using m(1) by (simp add: picked_text_def)
  have ok: "take (?b - ?a) (take (?b - ?a) ?t @ x) = picked_text e" "0 \<notin> set (picked_text e)" for x
  proof -
    have "length (take (?b - ?a) ?t) = ?b - ?a" using n(3) by simp
    then have "take (?b - ?a) (take (?b - ?a) ?t @ x) = take (?b - ?a) ?t" by (metis append_eq_conv_conj)
    then show "take (?b - ?a) (take (?b - ?a) ?t @ x) = picked_text e" "0 \<notin> set (picked_text e)"
      using t \<open>0 \<notin> set (take (?b - ?a) (drop ?a (ed_text e)))\<close> unfolding picked by (metis, metis)
  qed
  define c where "c = (dk_clip d)\<lparr>clip_text := take (?b - ?a) ?t @ 0 # drop (Suc (?b - ?a)) (clip_text (dk_clip d)),
      clip_size := ?b - ?a, clip_port := sends (osc52_start @ p @ [7]) (clip_port (dk_clip d))\<rparr>"
  have "shell_copy_selection (s, d) = Some (s, d\<lparr>dk_clip := c\<rparr>)"
    using s(4) p by (simp add: shell_copy_selection_def s(5,6) n(1) c_def)
  moreover have cf: "clip_text c = take (?b - ?a) ?t @ 0 # drop (Suc (?b - ?a)) (clip_text (dk_clip d))" "clip_size c = ?b - ?a"
    by (simp_all add: c_def)
  then have "clip_string c = picked_text e" unfolding clip_string_def cf by (simp only: ok(1))
  moreover have "length (clip_text c) = PRISMOS_CLIPBOARD_CAPACITY + 1" "clip_size c \<le> PRISMOS_CLIPBOARD_CAPACITY"
  proof -
    have "?b - ?a \<le> 96" using s(2) l(3) by linarith
    then show "length (clip_text c) = PRISMOS_CLIPBOARD_CAPACITY + 1" "clip_size c \<le> PRISMOS_CLIPBOARD_CAPACITY"
      using cl n(3) by (simp_all add: cf PRISMOS_CLIPBOARD_CAPACITY_def)
  qed
  ultimately show ?thesis using True ok(2) \<open>clip_string c = picked_text e\<close> by (simp add: clip_ok_def clip_string_def)
qed

text \<open>Pasting types the text, as far as there is room.\<close>

definition paste :: "bytes \<Rightarrow> editor \<Rightarrow> editor" where
  "paste t e = fold type_char (take (96 - length (ed_text (erase e))) t) (erase e)"

lemma paste_displays:
  assumes "displays s e" "clip_ok (dk_clip d)"
  shows "\<exists>s' d'. shell_paste_clipboard sv (s, d) = Some (s', d') \<and> displays s' (paste (clip_string (dk_clip d)) e)
    \<and> dk_clip d' = dk_clip d"
proof -
  obtain s1 where s1: "shell_delete_selection s = Some s1" "displays s1 (erase e)"
    using delete_selection_displays [OF assms(1)] by blast
  let ?c = "dk_clip d" and ?room = "96 - length (ed_text (erase e))"
  have "length (ed_text (erase e)) \<le> 96" "sh_length s1 = int (length (ed_text (erase e)))"
    using s1(2) by (auto simp: displays_def displays_line_def line_of_def)
  then have room: "nat ((SHELL_MAX_INPUT - sh_length s1) mod 4294967296) = ?room"
    by (simp add: SHELL_MAX_INPUT_def of_nat_diff [symmetric] nat_diff_distrib')
  let ?n = "if ?room < clip_size ?c then ?room else clip_size ?c"
  have step: "\<exists>s' d'. for_each (\<lambda>i st. do { c \<leftarrow> rd (clip_text ?c) i; shell_insert_char sv c st }) [0..<k] (s1, d) = Some (s', d')
      \<and> displays s' (fold type_char (take k (clip_text ?c)) (erase e)) \<and> dk_clip d' = ?c" if "k \<le> clip_size ?c" for k
    using that
  proof (induction k)
    case 0
    then show ?case using s1(2) by simp
  next
    case (Suc k)
    then obtain s2 d2 where s2: "for_each (\<lambda>i st. do { c \<leftarrow> rd (clip_text ?c) i; shell_insert_char sv c st }) [0..<k] (s1, d)
        = Some (s2, d2)" "displays s2 (fold type_char (take k (clip_text ?c)) (erase e))" "dk_clip d2 = ?c" by auto
    have k: "k < length (clip_text ?c)" using assms(2) Suc.prems by (simp add: clip_ok_def)
    then have "clip_text ?c ! k \<in> set (take (clip_size ?c) (clip_text ?c))"
      using Suc.prems by (auto simp: in_set_conv_nth intro!: exI [of _ k])
    then have "clip_text ?c ! k \<noteq> 0" using assms(2) by (auto simp: clip_ok_def)
    from redrawn_displays [where f = "insert_char_cells (clip_text ?c ! k)", OF insert_char_displays [OF s2(2) this], of sv d2]
    obtain s3 d3 where s3: "shell_insert_char sv (clip_text ?c ! k) (s2, d2) = Some (s3, d3)"
      "displays s3 (type_char (clip_text ?c ! k) (fold type_char (take k (clip_text ?c)) (erase e)))" "dk_clip d3 = ?c"
      using s2(3) by (auto simp: shell_insert_char_def)
    have "for_each (\<lambda>i st. do { c \<leftarrow> rd (clip_text ?c) i; shell_insert_char sv c st }) [0..<Suc k] (s1, d) = Some (s3, d3)"
      using s2(1) s3(1) k by (simp add: for_each_append rd_in)
    then show ?case using s3(2,3) k by (simp add: take_Suc_conv_app_nth)
  qed
  have tk: "take ?n (clip_text ?c) = take ?room (clip_string ?c)" by (auto simp: clip_string_def min_def)
  have "?n \<le> clip_size ?c" by simp
  from step [OF this, unfolded tk, folded paste_def] obtain s2 d2 where
    "for_each (\<lambda>i st. do { c \<leftarrow> rd (clip_text ?c) i; shell_insert_char sv c st }) [0..<?n] (s1, d)
      = Some (s2, d2)" "displays s2 (paste (clip_string ?c) e)" "dk_clip d2 = ?c"
    by blast
  then show ?thesis using s1(1)
    by (cases "?room < clip_size ?c")
      (simp_all add: shell_paste_clipboard_def room clipboard_length_def clipboard_data_def Let_def)
qed

section \<open>Submitting a line\<close>

lemma string_equals_lines:
  "0 \<notin> set t \<Longrightarrow> 0 \<notin> set u \<Longrightarrow> string_equals (t @ 0 # r) (u @ 0 # q) = Some (t = u)"
proof (induction t arbitrary: u)
  case Nil
  then show ?case by (cases u) auto
next
  case (Cons a t)
  then show ?case by (cases u) auto
qed

lemma line_equals: "line_of l t \<Longrightarrow> line_of k u \<Longrightarrow> string_equals l k = Some (t = u)"
proof -
  assume l: "line_of l t" and k: "line_of k u"
  have "string_equals (t @ 0 # drop (length t + 1) l) (u @ 0 # drop (length u + 1) k) = Some (t = u)"
    using l k by (intro string_equals_lines) (simp_all add: line_of_def)
  then show ?thesis using line_of_split [OF l] line_of_split [OF k] by simp
qed

lemma set_history_line:
  assumes "line_of line t" "length hs = 16" "\<forall>h \<in> set hs. length h = 97" "i < 16"
  shows "\<exists>l. set_history (int i) line hs = Some (hs[i := l]) \<and> line_of l t"
proof -
  have "length (hs ! i) = 97" using assms(2-4) by simp
  from copy_line_of [OF assms(1) this] show ?thesis using assms(2,4) by (auto simp: set_history_def rd_in wr_in)
qed

lemma shift_history_lines:
  assumes "length hs = 16" "\<forall>h \<in> set hs. length h = 97" "\<And>k. k < 16 \<Longrightarrow> line_of (hs ! k) (past ! k)"
  shows "\<exists>hs'. for_each shift_history [1..15] hs = Some hs' \<and> length hs' = 16 \<and> (\<forall>h \<in> set hs'. length h = 97)
    \<and> (\<forall>k < 15. line_of (hs' ! k) (past ! Suc k))"
proof -
  have len: "length [1..15::int] = 15" by simp
  define P where "P j gs \<longleftrightarrow> length gs = 16 \<and> (\<forall>h \<in> set gs. length h = (97 :: nat)) \<and> (\<forall>k < j. line_of (gs ! k) (past ! Suc k))
      \<and> (\<forall>k < 16. j \<le> k \<longrightarrow> gs ! k = hs ! k)" for j gs
  have "\<exists>gs'. shift_history ([1..15] ! j) gs = Some gs' \<and> P (Suc j) gs'" if j: "j < length [1..15::int]" and p: "P j gs" for j gs
  proof -
    have i: "[1..15] ! j = int (Suc j)" "j < 15" using j by (simp_all add: nth_upto)
    have "line_of (gs ! Suc j) (past ! Suc j)" using p i(2) assms(3) [of "Suc j"] by (simp add: P_def)
    moreover have "gs ! j \<in> set gs" by (rule nth_mem) (use p i(2) in \<open>simp add: P_def\<close>)
    then have "length (gs ! j) = 97" using p unfolding P_def by blast
    ultimately obtain l where l: "shell_copy_line (gs ! j) (gs ! Suc j) SHELL_MAX_INPUT = Some l" "line_of l (past ! Suc j)"
      using copy_line_of by blast
    have "shift_history (int (Suc j)) gs = Some (gs[j := l])"
      using p i(2) l(1) by (simp add: shift_history_def P_def rd_in wr_in)
    moreover have "P (Suc j) (gs[j := l])" using p i(2) l(2) unfolding P_def
      by (auto simp: nth_list_update less_Suc_eq line_of_def dest!: set_update_subset_insert [THEN subsetD])
    ultimately show ?thesis unfolding i(1) by blast
  qed
  then have "\<exists>hs'. for_each shift_history [1..15] hs = Some hs' \<and> P (length [1..15::int]) hs'"
    by (intro for_each_invariant) (use assms in \<open>simp_all add: P_def\<close>)
  then show ?thesis unfolding len P_def by blast
qed

lemma eqFalseI: "\<not> P \<Longrightarrow> P = False"
  by simp

lemma store_history_displays:
  assumes "displays s e"
  shows "\<exists>s'. shell_store_history (sh_line s) s = Some s' \<and> displays s' (e\<lparr>ed_past := remember (ed_text e) (ed_past e)\<rparr>)
    \<and> sh_line s' = sh_line s"
proof -
  let ?t = "ed_text e" and ?p = "ed_past e"
  have d: "line_of (sh_line s) ?t" "displays_past s e" "length (sh_history s) = 16" "length ?p \<le> 16"
    "\<forall>h \<in> set (sh_history s). length h = 97" "sh_history_count s = int (length ?p)"
    "\<And>k. k < length ?p \<Longrightarrow> line_of (sh_history s ! k) (?p ! k)" "displays_line s e"
    using assms by (auto simp: displays_def displays_past_def displays_line_def)
  have l: "length (sh_line s) = 97" using d(1) by (simp add: line_of_def)
  have first: "rd (sh_line s) 0 = Some (if ?t = [] then 0 else hd ?t)" "?t \<noteq> [] \<Longrightarrow> hd ?t \<noteq> 0"
  proof -
    have "sh_line s ! 0 = (?t @ [0]) ! 0" by (subst line_of_split [OF d(1)]) (simp add: nth_append)
    then show "rd (sh_line s) 0 = Some (if ?t = [] then 0 else hd ?t)" using l by (simp add: rd_in hd_conv_nth nth_append)
    show "?t \<noteq> [] \<Longrightarrow> hd ?t \<noteq> 0" using d(1) by (metis hd_in_set line_of_def)
  qed
  have same: "repeats_last (sh_line s) s = Some (?p \<noteq> [] \<and> last ?p = ?t)"
  proof (cases "?p = []")
    case False
    let ?n = "length ?p - 1"
    have n: "?n < length ?p" "int (length ?p) - 1 = int ?n" using False by (simp_all add: of_nat_diff Suc_le_eq)
    have "cell (sh_history s) (int (length ?p) - 1) = Some (sh_history s ! ?n)"
      unfolding n(2) cell_in by (rule rd_in) (use n(1) d(3,4) in simp)
    then show ?thesis using False line_equals [OF d(7) [OF n(1)] d(1)] by (simp add: repeats_last_def d(6) last_conv_nth)
  qed (simp add: repeats_last_def d(6))
  consider "?t = [] \<or> ?p \<noteq> [] \<and> last ?p = ?t" | "?t \<noteq> []" "\<not> (?p \<noteq> [] \<and> last ?p = ?t)" "length ?p < 16"
    | "?t \<noteq> []" "\<not> (?p \<noteq> [] \<and> last ?p = ?t)" "length ?p = 16" using d(4) by linarith
  then show ?thesis
  proof cases
    case 1
    then have "remember ?t ?p = ?p" by (simp add: remember_def)
    then show ?thesis using 1 assms first same by (auto simp: shell_store_history_def)
  next
    case 2
    obtain h where h: "set_history (int (length ?p)) (sh_line s) (sh_history s) = Some ((sh_history s)[length ?p := h])"
      "line_of h ?t" using set_history_line [OF d(1,3,5) 2(3)] by blast
    have "shell_store_history (sh_line s) s =
        Some (s\<lparr>sh_history := (sh_history s)[length ?p := h], sh_history_count := int (length ?p) + 1\<rparr>)"
      using 2(1,3) first same [unfolded eqFalseI [OF 2(2)]] h(1) by (simp add: shell_store_history_def d(6) SHELL_HISTORY_SIZE_def)
    moreover have "displays_past (s\<lparr>sh_history := (sh_history s)[length ?p := h], sh_history_count := int (length ?p) + 1\<rparr>)
        (e\<lparr>ed_past := remember ?t ?p\<rparr>)"
      using d(2-7) 2 h(2) unfolding displays_past_def remember_def
      by (auto simp: nth_append nth_list_update less_Suc_eq line_of_def dest!: set_update_subset_insert [THEN subsetD])
    ultimately show ?thesis using d(8) by (simp add: displays_def)
  next
    case 3
    obtain hs where hs: "for_each shift_history [1..15] (sh_history s) = Some hs" "length hs = 16"
      "\<forall>h \<in> set hs. length h = 97" "\<forall>k < 15. line_of (hs ! k) (?p ! Suc k)"
      using shift_history_lines [of "sh_history s" ?p] d(3,5,7) 3(3) by auto
    obtain h where h: "set_history (int 15) (sh_line s) hs = Some (hs[15 := h])" "line_of h ?t"
      using set_history_line [OF d(1) hs(2,3), of 15] by auto
    have "shell_store_history (sh_line s) s = Some (s\<lparr>sh_history := hs[15 := h]\<rparr>)"
      using 3(1,3) first same [unfolded eqFalseI [OF 3(2)]] h(1) hs(1) by (simp add: shell_store_history_def d(6) SHELL_HISTORY_SIZE_def)
    moreover have "displays_past (s\<lparr>sh_history := hs[15 := h]\<rparr>) (e\<lparr>ed_past := remember ?t ?p\<rparr>)"
      using d(2-7) 3 h(2) hs(2-4) unfolding displays_past_def remember_def
      by (auto simp: nth_append nth_list_update nth_tl less_Suc_eq line_of_def dest!: set_update_subset_insert [THEN subsetD])
    ultimately show ?thesis using d(8) by (simp add: displays_def)
  qed
qed

definition fresh_line :: "editor \<Rightarrow> editor" where
  "fresh_line e = e\<lparr>ed_text := [], ed_cursor := 0, ed_mark := None, ed_draft := [], ed_at := None\<rparr>"

lemma show_prompt_displays:
  assumes "displays s e"
  shows "\<exists>s' d'. shell_show_prompt sv (s, d) = Some (s', d') \<and> displays s' (fresh_line e) \<and> dk_clip d' = dk_clip d"
proof -
  let ?s = "s\<lparr>sh_prompt_row := con_y (dk_console d), sh_line := (sh_line s)[0 := 0], sh_length := 0, sh_cursor := 0, sh_anchor := - 1,
      sh_history_index := - 1, sh_draft_length := 0, sh_draft := (sh_draft s)[0 := 0]\<rparr>"
  have l: "length (sh_line s) = 97" "length (sh_draft s) = 97"
    using assms by (auto simp: displays_def displays_line_def displays_past_def line_of_def)
  then have "line_of ((sh_line s)[0 := 0]) []" "line_of ((sh_draft s)[0 := 0]) []" by (auto intro!: line_of_blank)
  then have "displays ?s (fresh_line e)"
    using assms by (simp add: displays_def displays_line_def displays_past_def fresh_line_def)
  moreover have "\<exists>d'. shell_show_prompt sv (s, d) = Some (?s, d') \<and> dk_clip d' = dk_clip d"
  proof -
    define d0 where "d0 = on_console (\<lambda>c. console_set_cursor 0 (con_y (dk_console d)) (console_clear_row (con_y (dk_console d)) c)) d"
    obtain n d1 where w: "shell_write_prompt sv d0 = (n, d1)" by fastforce
    then have "dk_clip d1 = dk_clip d" using prompt_clip [of sv d0] by (simp add: d0_def on_console_def)
    moreover have "shell_show_prompt sv (s, d) = Some (?s, on_console (console_set_cursor n (con_y (dk_console d))) d1)"
      using l by (simp add: shell_show_prompt_def wr_in shell_clear_selection_def shell_reset_history_navigation_def
          d0_def [symmetric] w Let_def)
    ultimately show ?thesis by (simp add: on_console_def)
  qed
  ultimately show ?thesis by blast
qed

text \<open>
  The Enter key hands the text of the line to the command interpreter, after a line feed on the
  console, and remembers it unless it is empty or repeats the last one, the oldest of sixteen making room; the
  next line starts empty.
\<close>

theorem shell_submits:
  assumes "displays s e" "sv_execute sv (ed_text e) (on_console (console_write_char 10) d) = Some d1"
  shows "\<exists>s' d'. shell_handle_event sv (key_event KEY_EVENT_ENTER 0 0) (s, d) = Some (s', d')
    \<and> displays s' (fresh_line (e\<lparr>ed_past := remember (ed_text e) (ed_past e)\<rparr>)) \<and> dk_clip d' = dk_clip d1"
proof -
  obtain s1 where s1: "shell_store_history (sh_line s) s = Some s1"
    "displays s1 (e\<lparr>ed_past := remember (ed_text e) (ed_past e)\<rparr>)" "sh_line s1 = sh_line s"
    using store_history_displays [OF assms(1)] by blast
  have t: "string_cells (sh_line s) = Some (ed_text e)"
    using assms(1) line_of_string by (auto simp: displays_def displays_line_def)
  let ?d = "if con_x (dk_console d1) \<noteq> 0 then on_console (console_write_char 10) d1 else d1"
  obtain s' d' where "shell_show_prompt sv (s1, ?d) = Some (s', d')" "dk_clip d' = dk_clip ?d"
    "displays s' (fresh_line (e\<lparr>ed_past := remember (ed_text e) (ed_past e)\<rparr>))"
    using show_prompt_displays [OF s1(2)] by blast
  then show ?thesis using s1 t assms(2)
    by (auto simp: shell_handle_event_def key_event_def shell_submit_def Let_def on_console_def)
qed

section \<open>Every other key\<close>

definition edit_key :: "key_event \<Rightarrow> bytes \<Rightarrow> editor \<Rightarrow> editor" where
  "edit_key ev clipped e =
     (let shift = ev_mods ev AND KEY_MOD_SHIFT \<noteq> 0; ctrl = ev_mods ev AND KEY_MOD_CTRL \<noteq> 0
      in case ev_type ev of
           KEY_EVENT_CHARACTER \<Rightarrow>
             if ev_char ev = 9 then type_char 32 (type_char 32 (type_char 32 e)) else type_char (ev_char ev) e
         | KEY_EVENT_BACKSPACE \<Rightarrow> rub_left e | KEY_EVENT_DELETE \<Rightarrow> rub_right e
         | KEY_EVENT_LEFT \<Rightarrow> go_left shift ctrl e | KEY_EVENT_RIGHT \<Rightarrow> go_right shift ctrl e
         | KEY_EVENT_UP \<Rightarrow> go_up e | KEY_EVENT_DOWN \<Rightarrow> go_down e
         | KEY_EVENT_HOME \<Rightarrow> e\<lparr>ed_cursor := 0, ed_mark := None\<rparr>
         | KEY_EVENT_END \<Rightarrow> e\<lparr>ed_cursor := length (ed_text e), ed_mark := None\<rparr>
         | KEY_EVENT_PASTE \<Rightarrow> paste clipped e
         | _ \<Rightarrow> e)"

definition clip_after :: "key_event \<Rightarrow> editor \<Rightarrow> bytes \<Rightarrow> bytes" where
  "clip_after ev e clipped = (if ev_type ev = KEY_EVENT_COPY \<and> picked e then picked_text e else clipped)"

text \<open>The keys the editor on lists answers: no terminator typed, no Backspace while the selection is empty but set.\<close>

definition plain_key :: "key_event \<Rightarrow> editor \<Rightarrow> bool" where
  "plain_key ev e \<longleftrightarrow>
     ev_type ev \<noteq> KEY_EVENT_ENTER \<and> (ev_type ev = KEY_EVENT_CHARACTER \<longrightarrow> ev_char ev \<noteq> 0)
     \<and> (ev_type ev = KEY_EVENT_BACKSPACE \<longrightarrow> ed_mark e = Some (ed_cursor e) \<longrightarrow> ed_cursor e = 0)"

lemma home_end_displays:
  assumes "displays s e"
  shows "\<exists>s'. map_option fst (Some ((shell_clear_selection s)\<lparr>sh_cursor := 0\<rparr>, True)) = Some s'
      \<and> displays s' (e\<lparr>ed_cursor := 0, ed_mark := None\<rparr>)"
    "\<exists>s'. map_option fst (Some ((shell_clear_selection s)\<lparr>sh_cursor := sh_length s\<rparr>, True)) = Some s'
      \<and> displays s' (e\<lparr>ed_cursor := length (ed_text e), ed_mark := None\<rparr>)"
  using assms by (auto simp: displays_def shell_clear_selection_def) (auto simp: displays_line_def)

lemma insert_displays:
  "displays s e \<Longrightarrow> c \<noteq> 0 \<Longrightarrow>
   \<exists>s' d'. shell_insert_char sv c (s, d) = Some (s', d') \<and> displays s' (type_char c e) \<and> dk_clip d' = dk_clip d"
  unfolding shell_insert_char_def by (rule redrawn_displays) (rule insert_char_displays)

text \<open>
  C37. On arrays, with the drawing and the clipboard, a key does what it does to the editor on lists: it
  inserts, deletes, moves, selects, copies, pastes and walks the history, stays within every array, and touches the
  clipboard only when a selection is copied. Three keys are excepted: Enter, which submits the line; the character
  0, which would end the text; and Backspace while a selection is set but empty, at a cursor above 0, which leaves
  the anchor of that selection behind the text. What comes of the last is \<open>shell_backspace_overruns\<close>.
\<close>

theorem shell_edits:
  assumes "displays s e" "clip_ok (dk_clip d)" "plain_key ev e"
  shows "\<exists>s' d'. shell_handle_event sv ev (s, d) = Some (s', d')
    \<and> displays s' (edit_key ev (clip_string (dk_clip d)) e) \<and> clip_ok (dk_clip d')
    \<and> clip_string (dk_clip d') = clip_after ev e (clip_string (dk_clip d))"
proof -
  note keys = shell_handle_event_def edit_key_def clip_after_def Let_def
  let ?goal = "\<lambda>f e'. \<exists>s' d'. f (s, d) = Some (s', d') \<and> displays s' e' \<and> dk_clip d' = dk_clip d"
  show ?thesis
  proof (cases "ev_type ev")
    case KEY_EVENT_CHARACTER
    show ?thesis
    proof (cases "ev_char ev = 9")
      case True
      obtain s1 d1 where 1: "shell_insert_char sv 32 (s, d) = Some (s1, d1)" "displays s1 (type_char 32 e)" "dk_clip d1 = dk_clip d"
        using insert_displays [OF assms(1), of 32 sv d] by auto
      obtain s2 d2 where 2: "shell_insert_char sv 32 (s1, d1) = Some (s2, d2)" "displays s2 (type_char 32 (type_char 32 e))"
        "dk_clip d2 = dk_clip d" using insert_displays [OF 1(2), of 32 sv d1] 1(3) by auto
      obtain s3 d3 where 3: "shell_insert_char sv 32 (s2, d2) = Some (s3, d3)"
        "displays s3 (type_char 32 (type_char 32 (type_char 32 e)))" "dk_clip d3 = dk_clip d"
        using insert_displays [OF 2(2), of 32 sv d2] 2(3) by auto
      show ?thesis using KEY_EVENT_CHARACTER True assms(2) 1 2 3 by (simp add: keys)
    next
      case False
      have "ev_char ev \<noteq> 0" using assms(3) KEY_EVENT_CHARACTER by (simp add: plain_key_def)
      from insert_displays [OF assms(1) this, of sv d] show ?thesis
        using KEY_EVENT_CHARACTER False assms(2) by (auto simp: keys)
    qed
  next
    case KEY_EVENT_BACKSPACE
    then have "?goal (shell_backspace sv) (rub_left e)"
      unfolding shell_backspace_def using assms(3)
      by (intro redrawn_displays backspace_displays [OF assms(1)]) (simp add: plain_key_def)
    then show ?thesis using KEY_EVENT_BACKSPACE assms(2) by (auto simp: keys)
  next
    case KEY_EVENT_DELETE
    have "?goal (shell_delete_at_cursor sv) (rub_right e)"
      unfolding shell_delete_at_cursor_def by (intro redrawn_displays delete_displays [OF assms(1)])
    then show ?thesis using KEY_EVENT_DELETE assms(2) by (auto simp: keys)
  next
    case KEY_EVENT_LEFT
    have "?goal (shell_move_cursor_left sv b w) (go_left b w e)" for b w
      unfolding shell_move_cursor_left_def by (intro redrawn_displays go_left_displays [OF assms(1)])
    then show ?thesis using KEY_EVENT_LEFT assms(2) by (fastforce simp: keys)
  next
    case KEY_EVENT_RIGHT
    have "?goal (shell_move_cursor_right sv b w) (go_right b w e)" for b w
      unfolding shell_move_cursor_right_def by (intro redrawn_displays go_right_displays [OF assms(1)])
    then show ?thesis using KEY_EVENT_RIGHT assms(2) by (fastforce simp: keys)
  next
    case KEY_EVENT_UP
    have "?goal (shell_history_up sv) (go_up e)"
      unfolding shell_history_up_def by (intro redrawn_displays history_up_displays [OF assms(1)])
    then show ?thesis using KEY_EVENT_UP assms(2) by (auto simp: keys)
  next
    case KEY_EVENT_DOWN
    have "?goal (shell_history_down sv) (go_down e)"
      unfolding shell_history_down_def by (intro redrawn_displays history_down_displays [OF assms(1)])
    then show ?thesis using KEY_EVENT_DOWN assms(2) by (auto simp: keys)
  next
    case KEY_EVENT_HOME
    have "?goal (shell_move_cursor_home sv) (e\<lparr>ed_cursor := 0, ed_mark := None\<rparr>)"
      unfolding shell_move_cursor_home_def by (intro redrawn_displays home_end_displays [OF assms(1)])
    then show ?thesis using KEY_EVENT_HOME assms(2) by (auto simp: keys)
  next
    case KEY_EVENT_END
    have "?goal (shell_move_cursor_end sv) (e\<lparr>ed_cursor := length (ed_text e), ed_mark := None\<rparr>)"
      unfolding shell_move_cursor_end_def by (intro redrawn_displays home_end_displays [OF assms(1)])
    then show ?thesis using KEY_EVENT_END assms(2) by (auto simp: keys)
  next
    case KEY_EVENT_PASTE
    obtain s1 d1 where 1: "shell_paste_clipboard sv (s, d) = Some (s1, d1)" "displays s1 (paste (clip_string (dk_clip d)) e)"
      "dk_clip d1 = dk_clip d" using paste_displays [OF assms(1,2)] by blast
    then have "displays_line s1 (paste (clip_string (dk_clip d)) e)" by (simp add: displays_def)
    from render_total [OF displays_drawable [OF this], of sv d1] show ?thesis
      using 1 KEY_EVENT_PASTE assms(2) by (auto simp: keys)
  next
    case KEY_EVENT_COPY
    then show ?thesis using copy_displays [OF assms(1,2)] assms(1) by (auto simp: keys)
  qed (use assms in \<open>auto simp: keys plain_key_def\<close>)
qed

end
