(* ===== verification/Shell_Claims.thy ===== *)
theory Shell_Claims
  imports Shell_Keys
begin

text \<open>The shell from its first prompt on: an example of each property, the way back through the history, and the overrun.\<close>

section \<open>The first prompt\<close>

definition blank_editor :: editor where
  "blank_editor = \<lparr>ed_text = [], ed_cursor = 0, ed_mark = None, ed_draft = [], ed_past = [], ed_at = None\<rparr>"

lemma shell_boot_displays: "displays shell_boot blank_editor"
  by (simp add: displays_def displays_line_def displays_past_def blank_editor_def shell_boot_def line_of_blank)

definition quiet_services :: "unit shell_services" where
  "quiet_services = \<lparr>sv_label = \<lambda>x. (None, x), sv_cwd = \<lambda>_. [47], sv_execute = \<lambda>t d. Some d\<rparr>"

definition quiet_desk :: "unit desk" where
  "quiet_desk = \<lparr>dk_console = console_boot, dk_clip = \<lparr>clip_text = replicate 16385 0, clip_size = 0,
     clip_port = \<lparr>ser_rx = ringbuf_zero, ser_out = []\<rparr>\<rparr>, dk_rest = ()\<rparr>"

lemma quiet_clip: "clip_ok (dk_clip quiet_desk)" "clip_string (dk_clip quiet_desk) = []"
  by (simp_all add: clip_ok_def clip_string_def quiet_desk_def PRISMOS_CLIPBOARD_CAPACITY_def)

lemma shell_submits_witness:
  "\<exists>s' d'. shell_handle_event quiet_services (key_event KEY_EVENT_ENTER 0 0) (shell_boot, quiet_desk) = Some (s', d')
    \<and> displays s' blank_editor"
proof -
  have "fresh_line (blank_editor\<lparr>ed_past := remember (ed_text blank_editor) (ed_past blank_editor)\<rparr>) = blank_editor"
    by (simp add: fresh_line_def blank_editor_def remember_def)
  then show ?thesis
    using shell_submits [OF shell_boot_displays, of quiet_services quiet_desk] by (auto simp: quiet_services_def)
qed

lemma shell_edits_witness:
  "\<exists>s' d'. shell_handle_event quiet_services (key_event KEY_EVENT_CHARACTER 97 0) (shell_boot, quiet_desk) = Some (s', d')
    \<and> displays s' (blank_editor\<lparr>ed_text := [97], ed_cursor := 1\<rparr>)"
proof -
  let ?ev = "key_event KEY_EVENT_CHARACTER 97 0"
  have p: "plain_key ?ev blank_editor" by (simp add: plain_key_def key_event_def)
  have "edit_key ?ev [] blank_editor = blank_editor\<lparr>ed_text := [97], ed_cursor := 1\<rparr>"
    by (simp add: edit_key_def key_event_def type_char_def erase_def blank_editor_def)
  then show ?thesis
    using shell_edits [OF shell_boot_displays quiet_clip(1) p, of quiet_services] by (auto simp: quiet_clip(2))
qed

section \<open>Through the history and back\<close>

lemma go_up_times:
  assumes "ed_at e = None" "n < length (ed_past e)"
  shows "(go_up ^^ Suc n) e = show_text (ed_past e ! (length (ed_past e) - Suc n))
    (e\<lparr>ed_draft := ed_text e, ed_at := Some (length (ed_past e) - Suc n)\<rparr>)"
  using assms(2)
proof (induction n)
  case 0
  then show ?case using assms(1) by (auto simp: go_up_def last_conv_nth)
next
  case (Suc n)
  then have "length (ed_past e) - Suc n - 1 = length (ed_past e) - Suc (Suc n)" by simp
  with Suc show ?case by (auto simp: go_up_def show_text_def)
qed

lemma go_down_times:
  assumes "m \<le> length (ed_past e) - Suc k" "k < length (ed_past e)"
  shows "(go_down ^^ m) (show_text (ed_past e ! k) (e\<lparr>ed_draft := d, ed_at := Some k\<rparr>))
    = show_text (ed_past e ! (k + m)) (e\<lparr>ed_draft := d, ed_at := Some (k + m)\<rparr>)"
  using assms(1)
proof (induction m)
  case (Suc m)
  then have "k + m + 1 < length (ed_past e)" by simp
  with Suc show ?case by (simp add: go_down_def show_text_def)
qed simp

lemma up_and_down:
  assumes "ed_at e = None" "0 < n" "n \<le> length (ed_past e)"
  shows "(go_down ^^ n) ((go_up ^^ n) e) = show_text (ed_text e) (e\<lparr>ed_draft := ed_text e\<rparr>)"
proof -
  obtain m where m: "n = Suc m" using assms(2) by (cases n) auto
  let ?k = "length (ed_past e) - n"
  let ?at = "\<lambda>k. show_text (ed_past e ! k) (e\<lparr>ed_draft := ed_text e, ed_at := Some k\<rparr>)"
  have up: "(go_up ^^ n) e = ?at ?k" using go_up_times [OF assms(1), of m] assms(3) by (simp add: m)
  have "(go_down ^^ n) (?at ?k) = go_down ((go_down ^^ m) (?at ?k))" by (simp add: m)
  also have "(go_down ^^ m) (?at ?k) = ?at (?k + m)" using assms(3) m by (intro go_down_times) auto
  also have "?k + m = length (ed_past e) - 1" using assms(3) m by simp
  also have "go_down (?at (length (ed_past e) - 1)) = show_text (ed_text e) (e\<lparr>ed_draft := ed_text e\<rparr>)"
    using assms by (auto simp: go_down_def show_text_def)
  finally show ?thesis unfolding up .
qed

lemma keys_display:
  assumes "\<And>s e d. displays s e \<Longrightarrow> \<exists>s' d'. f (s, d) = Some (s', d') \<and> displays s' (g e) \<and> dk_clip d' = dk_clip d"
    and "displays s e"
  shows "\<exists>s' d'. for_each (\<lambda>_. f) (replicate n x) (s, d) = Some (s', d') \<and> displays s' ((g ^^ n) e) \<and> dk_clip d' = dk_clip d"
  using assms(2)
proof (induction n arbitrary: s e d)
  case (Suc n)
  obtain s1 d1 where "f (s, d) = Some (s1, d1)" "displays s1 (g e)" "dk_clip d1 = dk_clip d" using assms(1) [OF Suc.prems] by blast
  with Suc.IH [OF this(2), of d1] show ?case by (simp add: funpow_swap1)
qed simp

text \<open>
  C38. Going up through the history and down again as often brings back the line that was being
  typed, whatever the lines in between.
\<close>

theorem shell_history_back:
  assumes "displays s e" "ed_at e = None" "0 < n" "n \<le> length (ed_past e)"
  shows "\<exists>s' d'. for_each (shell_handle_event sv)
      (replicate n (key_event KEY_EVENT_UP 0 0) @ replicate n (key_event KEY_EVENT_DOWN 0 0)) (s, d) = Some (s', d')
    \<and> displays s' (show_text (ed_text e) (e\<lparr>ed_draft := ed_text e\<rparr>))"
proof -
  have ev: "shell_handle_event sv (key_event KEY_EVENT_UP 0 0) = shell_history_up sv"
    "shell_handle_event sv (key_event KEY_EVENT_DOWN 0 0) = shell_history_down sv"
    by (simp_all add: shell_handle_event_def key_event_def)
  have same: "for_each (shell_handle_event sv) (replicate n x) = for_each (\<lambda>_. shell_handle_event sv x) (replicate n x)" for x
    by (induction n) (auto simp: fun_eq_iff split: option.split)
  obtain s1 d1 where 1: "for_each (shell_handle_event sv) (replicate n (key_event KEY_EVENT_UP 0 0)) (s, d) = Some (s1, d1)"
    "displays s1 ((go_up ^^ n) e)"
    unfolding same ev
    using keys_display [where f = "shell_history_up sv" and g = go_up, OF _ assms(1)] history_up_displays redrawn_displays
    unfolding shell_history_up_def by metis
  obtain s2 d2 where 2: "for_each (shell_handle_event sv) (replicate n (key_event KEY_EVENT_DOWN 0 0)) (s1, d1) = Some (s2, d2)"
    "displays s2 ((go_down ^^ n) ((go_up ^^ n) e))"
    unfolding same ev
    using keys_display [where f = "shell_history_down sv" and g = go_down, OF _ 1(2)] history_down_displays redrawn_displays
    unfolding shell_history_down_def by metis
  show ?thesis using 1(1) 2 up_and_down [OF assms(2-4)] by (simp add: for_each_append)
qed

lemma shell_history_back_witness:
  "\<exists>s0 e0. displays s0 e0 \<and> ed_past e0 = [[97]] \<and> ed_text e0 = []
    \<and> (\<exists>s' d'. for_each (shell_handle_event quiet_services)
        (replicate 1 (key_event KEY_EVENT_UP 0 0) @ replicate 1 (key_event KEY_EVENT_DOWN 0 0)) (s0, quiet_desk) = Some (s', d')
      \<and> displays s' (show_text [] e0))"
proof -
  let ?line = "97 # replicate 96 0"
  let ?s = "shell_boot\<lparr>sh_history := (replicate 16 (replicate 97 0))[0 := ?line], sh_history_count := 1\<rparr>"
  let ?e = "blank_editor\<lparr>ed_past := [[97]]\<rparr>"
  have d: "displays ?s ?e"
  proof -
    have "displays_line ?s ?e" using shell_boot_displays by (simp add: displays_def)
    moreover have "displays_past ?s ?e"
      by (auto simp: displays_past_def line_of_def blank_editor_def shell_boot_def dest!: set_update_subset_insert [THEN subsetD])
    ultimately show ?thesis by (simp add: displays_def)
  qed
  have "?e\<lparr>ed_draft := ed_text ?e\<rparr> = ?e" by (simp add: blank_editor_def)
  moreover have "ed_at ?e = None" "ed_past ?e = [[97]]" "ed_text ?e = []" by (simp_all add: blank_editor_def)
  ultimately show ?thesis using d shell_history_back [OF d, of 1 quiet_services quiet_desk]
    by (intro exI [of _ ?s] exI [of _ ?e]) simp
qed

section \<open>The overrun\<close>

text \<open>
  C39. Shift with the right arrow at the end of the line leaves an empty selection, which
  Backspace does not clear: it then reaches behind the text, deleting it makes the length negative, and after one
  more character Backspace writes in front of the line buffer.
\<close>

theorem shell_backspace_overruns:
  "\<exists>st. shell_run sv [key_event KEY_EVENT_CHARACTER 97 0, key_event KEY_EVENT_RIGHT 0 KEY_MOD_SHIFT,
       key_event KEY_EVENT_BACKSPACE 0 0, key_event KEY_EVENT_BACKSPACE 0 0, key_event KEY_EVENT_CHARACTER 98 0]
       (shell_boot, d) = Some st
     \<and> shell_handle_event sv (key_event KEY_EVENT_BACKSPACE 0 0) st = None"
proof -
  note keys = shell_handle_event_def key_event_def KEY_MOD_SHIFT_def KEY_MOD_CTRL_def
  obtain s0 d0 where 0: "shell_start sv (shell_boot, d) = Some (s0, d0)" "displays s0 (fresh_line blank_editor)"
    using show_prompt_displays [OF shell_boot_displays] unfolding shell_start_def by fastforce
  obtain s1 d1 where 1: "shell_insert_char sv 97 (s0, d0) = Some (s1, d1)" "displays s1 (type_char 97 (fresh_line blank_editor))"
    using insert_displays [OF 0(2), of 97] by fastforce
  obtain s2 d2 where 2: "shell_move_cursor_right sv True False (s1, d1) = Some (s2, d2)"
    "displays s2 (go_right True False (type_char 97 (fresh_line blank_editor)))"
    using redrawn_displays [where f = "move_right_cells True False", OF go_right_displays [OF 1(2)]] unfolding shell_move_cursor_right_def by fastforce
  have e: "go_right True False (type_char 97 (fresh_line blank_editor)) =
      blank_editor\<lparr>ed_text := [97], ed_cursor := 1, ed_mark := Some 1\<rparr>"
    by (simp add: go_right_def mark_if_def type_char_def erase_def fresh_line_def blank_editor_def)
  have s2: "sh_length s2 = 1" "sh_cursor s2 = 1" "sh_anchor s2 = 1" "length (sh_line s2) = 97"
    using 2(2) [unfolded e] by (simp_all add: displays_def displays_line_def blank_editor_def line_of_def)
  let ?l = "(sh_line s2)[0 := 0]"
  have l: "length ?l = 97" "0 \<in> set ?l" using s2(4) by (simp_all add: set_update_memI)
  let ?s3 = "s2\<lparr>sh_line := ?l, sh_length := 0, sh_cursor := 0\<rparr>"
  have "backspace_cells s2 = Some (?s3, True)"
    using s2 by (simp add: backspace_cells_def shell_has_selection_def wr_in)
  then obtain d3 where 3: "shell_backspace sv (s2, d2) = Some (?s3, d3)"
    using redrawn_total [of backspace_cells s2 ?s3 sv d2] l s2
    by (auto simp: shell_backspace_def shell_has_selection_def shell_selection_start_def shell_selection_end_def)
  let ?s4 = "?s3\<lparr>sh_length := - 1, sh_anchor := - 1\<rparr>"
  have "backspace_cells ?s3 = Some (?s4, True)"
    using s2 by (simp add: backspace_cells_def shell_has_selection_def shell_delete_selection_def shell_clear_selection_def
        shell_selection_start_def shell_selection_end_def)
  then obtain d4 where 4: "shell_backspace sv (?s3, d3) = Some (?s4, d4)"
    using redrawn_total [of backspace_cells ?s3 ?s4 sv d3] l by (auto simp: shell_backspace_def shell_has_selection_def)
  let ?s5 = "?s4\<lparr>sh_length := 0, sh_cursor := 1\<rparr>"
  have "insert_char_cells 98 ?s4 = Some (?s5, True)"
    using l by (simp add: insert_char_cells_def shell_has_selection_def shell_delete_selection_def shell_clear_selection_def
        SHELL_MAX_INPUT_def wr_in)
  then obtain d5 where 5: "shell_insert_char sv 98 (?s4, d4) = Some (?s5, d5)"
    using redrawn_total [of "insert_char_cells 98" ?s4 ?s5 sv d4] l by (auto simp: shell_insert_char_def shell_has_selection_def)
  have "backspace_cells ?s5 = None" by (simp add: backspace_cells_def shell_has_selection_def put_cell_def)
  then have "shell_backspace sv (?s5, d5) = None" by (simp add: shell_backspace_def redrawn_def)
  moreover have "shell_run sv [key_event KEY_EVENT_CHARACTER 97 0, key_event KEY_EVENT_RIGHT 0 KEY_MOD_SHIFT,
       key_event KEY_EVENT_BACKSPACE 0 0, key_event KEY_EVENT_BACKSPACE 0 0, key_event KEY_EVENT_CHARACTER 98 0]
       (shell_boot, d) = Some (?s5, d5)"
    using 0(1) 1(1) 2(1) 3 4 5 by (simp add: shell_run_def keys)
  ultimately show ?thesis by (intro exI [of _ "(?s5, d5)"]) (simp add: keys)
qed

end
