(* ===== verification/App_Manager.thy ===== *)
theory App_Manager
  imports App_Loader
begin

text \<open>
  \<open>apps/app_manager.c\<close>: the directories and built-in packages every system has, and running an application by its
  path. The file calls are those of the virtual machine, with \<open>vfs_mkdir\<close> beside them; the file system is the one in
  the state of the machine.
\<close>

section \<open>Built-in packages\<close>

record 'f app_files = "'f vfs_ops" +
  am_mkdir :: "bytes \<Rightarrow> 'f \<Rightarrow> bool \<times> 'f"

definition PRISM_DRIVER_BIT :: u16 where "PRISM_DRIVER_BIT = 1"
definition APPS_ROOT_PATH :: bytes where "APPS_ROOT_PATH = ascii ''/APPS''"
definition DATA_ROOT_PATH :: bytes where "DATA_ROOT_PATH = ascii ''/DATA''"
definition DATA_APPS_PATH :: bytes where "DATA_APPS_PATH = ascii ''/DATA/APPS''"
definition APPS_EDITOR_PATH :: bytes where "APPS_EDITOR_PATH = ascii ''/APPS/EDITOR.APP''"
definition APPS_IDE_PATH :: bytes where "APPS_IDE_PATH = ascii ''/APPS/IDE.APP''"
definition APPS_BANK_PATH :: bytes where "APPS_BANK_PATH = ascii ''/APPS/BANK.APP''"

definition ensure_directory :: "'f app_files \<Rightarrow> bytes \<Rightarrow> 'f \<Rightarrow> bool \<times> 'f" where
  "ensure_directory fs path f =
     (case vfs_path_is_dir fs path f of (Some d, f) \<Rightarrow> (d, f) | (None, f) \<Rightarrow> am_mkdir fs path f)"

definition builtin_package :: "bytes \<Rightarrow> bytes" where
  "builtin_package ident =
     le_of_u32 PRISM_APP_MAGIC @ le_of_u16 PRISM_APP_FORMAT_VERSION @ le_of_u16 0 @ le_of_u32 0
     @ le_of_u32 (of_nat (length ident)) @ le_of_u32 0 @ ident"

text \<open>\<open>None\<close> is an access outside the file buffer.\<close>

definition ensure_installed :: "'f app_files \<Rightarrow> bytes \<Rightarrow> bytes \<Rightarrow> 'f \<Rightarrow> bool option \<times> 'f" where
  "ensure_installed fs path package f =
     (case app_loader_load_image (vfs_ops.truncate fs) path f of
        (None, f) \<Rightarrow> (None, f)
      | (Some (Some _), f) \<Rightarrow> (Some True, f)
      | (Some None, f) \<Rightarrow> (case vfs_write_file fs path package False f of (ok, f) \<Rightarrow> (Some ok, f)))"

definition ensure_editor_app_installed :: "'f app_files \<Rightarrow> 'f \<Rightarrow> bool option \<times> 'f" where
  "ensure_editor_app_installed fs = ensure_installed fs APPS_EDITOR_PATH (builtin_package (ascii ''EDITOR''))"

definition ensure_ide_app_installed :: "'f app_files \<Rightarrow> 'f \<Rightarrow> bool option \<times> 'f" where
  "ensure_ide_app_installed fs = ensure_installed fs APPS_IDE_PATH (builtin_package (ascii ''IDE'' @ [0, 0, 0]))"

definition ensure_bank_app_installed :: "'f app_files \<Rightarrow> 'f \<Rightarrow> bool option \<times> 'f" where
  "ensure_bank_app_installed fs = ensure_installed fs APPS_BANK_PATH (builtin_package (ascii ''BANK''))"

section \<open>The manager\<close>

text \<open>A step that may fail, and may leave the buffer; the rest runs only behind success.\<close>

definition and_then :: "('f \<Rightarrow> bool option \<times> 'f) \<Rightarrow> ('f \<Rightarrow> bool option \<times> 'f) \<Rightarrow> 'f \<Rightarrow> bool option \<times> 'f" where
  "and_then a b f = (case a f of (Some True, f) \<Rightarrow> b f | (r, f) \<Rightarrow> (r, f))"

definition directory_step :: "'f app_files \<Rightarrow> bytes \<Rightarrow> 'f \<Rightarrow> bool option \<times> 'f" where
  "directory_step fs path f = (case ensure_directory fs path f of (ok, f) \<Rightarrow> (Some ok, f))"

text \<open>What is ready afterwards is what \<open>app_manager_init\<close> returns.\<close>

definition app_manager_init :: "'f app_files \<Rightarrow> 'f \<Rightarrow> bool option \<times> 'f" where
  "app_manager_init fs =
     and_then (directory_step fs DATA_ROOT_PATH)
    (and_then (directory_step fs DATA_APPS_PATH)
    (and_then (directory_step fs APPS_ROOT_PATH)
    (and_then (ensure_editor_app_installed fs)
    (and_then (ensure_ide_app_installed fs) (ensure_bank_app_installed fs)))))"

definition app_manager_probe_path :: "'f app_files \<Rightarrow> bool \<Rightarrow> bytes \<Rightarrow> 'f \<Rightarrow> prism_header option option \<times> 'f" where
  "app_manager_probe_path fs ready path f =
     (if \<not> ready then (Some None, f)
      else (case app_loader_load_image (vfs_ops.truncate fs) path f of
              (None, f) \<Rightarrow> (None, f)
            | (Some r, f) \<Rightarrow> (Some (map_option snd r), f)))"

text \<open>A path under \<open>/APPS\<close> that does not load is repaired when it is one of the built-in ones.\<close>

definition repair :: "'f app_files \<Rightarrow> bytes \<Rightarrow> 'f \<Rightarrow> bool option \<times> 'f" where
  "repair fs path f =
     (if take 5 path \<noteq> ascii ''/APPS'' then (Some False, f)
      else if path = APPS_EDITOR_PATH then ensure_editor_app_installed fs f
      else if path = APPS_IDE_PATH then ensure_ide_app_installed fs f
      else if path = APPS_BANK_PATH then ensure_bank_app_installed fs f
      else (Some False, f))"

definition load_or_repair :: "'f app_files \<Rightarrow> bytes \<Rightarrow> 'f \<Rightarrow> (bytes \<times> prism_header) option option \<times> 'f" where
  "load_or_repair fs path f =
     (case app_loader_load_image (vfs_ops.truncate fs) path f of
        (Some None, f) \<Rightarrow>
          (case repair fs path f of
             (Some True, f) \<Rightarrow> app_loader_load_image (vfs_ops.truncate fs) path f
           | (Some False, f) \<Rightarrow> (Some None, f)
           | (None, f) \<Rightarrow> (None, f))
      | r \<Rightarrow> r)"

definition app_manager_run_path ::
    "nat \<Rightarrow> 'f vm native_apps \<Rightarrow> 'f app_files \<Rightarrow> bool \<Rightarrow> bytes \<Rightarrow> bytes \<Rightarrow> 'f vm \<Rightarrow> 'f vm outcome" where
  "app_manager_run_path fuel apps fs ready path args s =
     (if \<not> ready then Fail s
      else
        (case load_or_repair fs path (vm_fs s) of
           (None, f) \<Rightarrow> Trap Out_of_bounds (s\<lparr>vm_fs := f\<rparr>)
         | (Some None, f) \<Rightarrow> Fail (s\<lparr>vm_fs := f\<rparr>)
         | (Some (Some (img, h)), f) \<Rightarrow>
             if pa_image_size h \<le> pa_entry_offset h then Fail (s\<lparr>vm_fs := f\<rparr>)
             else if pa_flags h AND PRISM_DRIVER_BIT \<noteq> 0 then Fail (s\<lparr>vm_fs := f\<rparr>)
             else app_runtime_run fuel apps (vfs_ops.truncate fs) (drop (pa_entry_offset h) img) args (s\<lparr>vm_fs := f\<rparr>)))"

definition app_manager_run_driver_path ::
    "nat \<Rightarrow> u8 \<Rightarrow> 'f app_files \<Rightarrow> bool \<Rightarrow> bytes \<Rightarrow> 'f vm \<Rightarrow> 'f vm outcome" where
  "app_manager_run_driver_path fuel loopback fs ready path s =
     (if \<not> ready then Fail s
      else
        (case app_loader_load_image (vfs_ops.truncate fs) path (vm_fs s) of
           (None, f) \<Rightarrow> Trap Out_of_bounds (s\<lparr>vm_fs := f\<rparr>)
         | (Some None, f) \<Rightarrow> Fail (s\<lparr>vm_fs := f\<rparr>)
         | (Some (Some (img, h)), f) \<Rightarrow>
             if pa_flags h AND PRISM_DRIVER_BIT = 0 \<or> pa_image_size h \<le> pa_entry_offset h then Fail (s\<lparr>vm_fs := f\<rparr>)
             else app_runtime_run_driver fuel loopback (vfs_ops.truncate fs) (drop (pa_entry_offset h) img) (s\<lparr>vm_fs := f\<rparr>)))"

definition app_manager_run_editor ::
    "nat \<Rightarrow> 'f vm native_apps \<Rightarrow> 'f app_files \<Rightarrow> bool \<Rightarrow> bytes \<Rightarrow> 'f vm \<Rightarrow> 'f vm outcome" where
  "app_manager_run_editor fuel apps fs ready target s =
     (if \<not> ready then Fail s else app_manager_run_path fuel apps fs ready APPS_EDITOR_PATH target s)"

definition app_manager_run_ide ::
    "nat \<Rightarrow> 'f vm native_apps \<Rightarrow> 'f app_files \<Rightarrow> bool \<Rightarrow> bytes \<Rightarrow> 'f vm \<Rightarrow> 'f vm outcome" where
  "app_manager_run_ide fuel apps fs ready target s =
     (if \<not> ready then Fail s else app_manager_run_path fuel apps fs ready APPS_IDE_PATH target s)"

section \<open>A built-in package runs\<close>

lemma app_files_ops [simp]:
  "vfs_read_file (vfs_ops.truncate fs) = vfs_read_file fs" "vfs_write_file (vfs_ops.truncate fs) = vfs_write_file fs"
  by (simp_all add: vfs_ops.defs)

lemma builtin_header: "builtin_package ident = prism_header_bytes 0 (length ident) @ ident"
  by (simp add: builtin_package_def prism_header_bytes_def)

lemma builtin_loads:
  assumes "vfs_read_file fs path (APP_LOADER_MAX_IMAGE_SIZE + 1) f = (Some (builtin_package ident), f')"
    and "0 < length ident" "length ident < 65536"
  shows "\<exists>h. app_loader_load_image (vfs_ops.truncate fs) path f = (Some (Some (ident, h)), f')
    \<and> pa_entry_offset h = 0 \<and> pa_image_size h = length ident \<and> pa_flags h = 0"
proof -
  have u: "unat (of_nat (length ident) :: u32) = length ident" using assms(3) by (simp add: unat_of_nat)
  define h where "h = \<lparr>pa_magic = PRISM_APP_MAGIC, pa_version = PRISM_APP_FORMAT_VERSION, pa_flags = 0,
    pa_entry_offset = 0, pa_image_size = length ident, pa_reserved = 0\<rparr>"
  have "parse_prism_header (builtin_package ident) = Some (Some h)"
    using u assms(2)
    by (simp add: parse_prism_header_def builtin_header prism_header_fields Let_def h_def PRISM_APP_HEADER_SIZE_def)
  moreover have "chunk (builtin_package ident) PRISM_APP_HEADER_SIZE (length ident) = Some ident"
    by (simp add: chunk_def builtin_header PRISM_APP_HEADER_SIZE_def)
  ultimately show ?thesis using assms(1)
    by (intro exI [of _ h]) (simp add: app_loader_load_image_def h_def)
qed

text \<open>A built-in application that is missing or damaged is written anew and then run with its arguments.\<close>

lemma app_manager_repairs:
  assumes "app_loader_load_image (vfs_ops.truncate fs) APPS_EDITOR_PATH (vm_fs s) = (Some None, f1)"
    and "app_loader_load_image (vfs_ops.truncate fs) APPS_EDITOR_PATH f1 = (Some None, f2)"
    and "vfs_write_file fs APPS_EDITOR_PATH (builtin_package (ascii ''EDITOR'')) False f2 = (True, f3)"
    and "vfs_read_file fs APPS_EDITOR_PATH (APP_LOADER_MAX_IMAGE_SIZE + 1) f3 = (Some (builtin_package (ascii ''EDITOR'')), f4)"
  shows "app_manager_run_editor fuel apps fs True target s = na_editor apps target (s\<lparr>vm_fs := f4\<rparr>)"
proof -
  obtain h where h: "app_loader_load_image (vfs_ops.truncate fs) APPS_EDITOR_PATH f3 = (Some (Some (ascii ''EDITOR'', h)), f4)"
    "pa_entry_offset h = 0" "pa_image_size h = 6" "pa_flags h = 0"
    using builtin_loads [OF assms(4)] by (auto simp: ascii_def)
  have "repair fs APPS_EDITOR_PATH f1 = (Some True, f3)"
    using assms(2,3) by (simp add: repair_def APPS_EDITOR_PATH_def ascii_def ensure_editor_app_installed_def ensure_installed_def)
  moreover have "app_id (ascii ''EDITOR'') = ascii ''EDITOR''" "\<not> is_bcvm (ascii ''EDITOR'')"
    by (simp_all add: app_id_def ascii_def is_bcvm_def c_string_def)
  ultimately show ?thesis using assms(1) h
    by (simp add: app_manager_run_editor_def app_manager_run_path_def load_or_repair_def app_runtime_run_def)
      (simp add: ascii_def)
qed

text \<open>A driver is never run as an application, and only a driver as a driver.\<close>

lemma app_manager_driver_flag:
  assumes "app_loader_load_image (vfs_ops.truncate fs) path (vm_fs s) = (Some (Some (img, h)), f)"
  shows "pa_flags h AND PRISM_DRIVER_BIT \<noteq> 0 \<Longrightarrow>
      app_manager_run_path fuel apps fs ready path args s \<in> {Fail s, Fail (s\<lparr>vm_fs := f\<rparr>)}"
    "pa_flags h AND PRISM_DRIVER_BIT = 0 \<Longrightarrow>
      app_manager_run_driver_path fuel loopback fs ready path s \<in> {Fail s, Fail (s\<lparr>vm_fs := f\<rparr>)}"
  using assms by (simp_all add: app_manager_run_path_def app_manager_run_driver_path_def load_or_repair_def)

end
