(* ===== verification/Cstring.thy ===== *)
theory Cstring
  imports Prelude
begin

text \<open>
  \<open>util/string.c\<close>: the freestanding string routines. Memory is one array of bytes, a pointer an index into it;
  \<open>None\<close> is an access outside. Characters are signed, as on the target.
\<close>

section \<open>The routines\<close>

function strlen_from :: "bytes \<Rightarrow> nat \<Rightarrow> nat option" where
  "strlen_from m p =
     (case rd m p of None \<Rightarrow> None | Some c \<Rightarrow> if c \<noteq> 0 then map_option Suc (strlen_from m (p + 1)) else Some 0)"
  by auto
termination
  by (relation "measure (\<lambda>(m, p). length m - p)") (auto dest: rd_SomeD)

declare strlen_from.simps [simp del]

definition strlen :: "bytes \<Rightarrow> nat \<Rightarrow> nat option" where "strlen m str = strlen_from m str"

definition char_difference :: "u8 \<Rightarrow> u8 \<Rightarrow> int" where "char_difference x y = sint x - sint y"

function strcmp :: "bytes \<Rightarrow> nat \<Rightarrow> nat \<Rightarrow> int option" where
  "strcmp m a b =
     (case (rd m a, rd m b) of
        (Some x, Some y) \<Rightarrow>
          if x \<noteq> 0 \<and> y \<noteq> 0 then if x \<noteq> y then Some (char_difference x y) else strcmp m (a + 1) (b + 1)
          else Some (char_difference x y)
      | _ \<Rightarrow> None)"
  by auto
termination
  by (relation "measure (\<lambda>(m, a, b). length m - a)") (auto dest!: rd_SomeD [OF sym])

declare strcmp.simps [simp del]

fun strncmp :: "bytes \<Rightarrow> nat \<Rightarrow> nat \<Rightarrow> nat \<Rightarrow> int option" where
  "strncmp m a b 0 = Some 0"
| "strncmp m a b (Suc n) =
     (case (rd m a, rd m b) of
        (Some x, Some y) \<Rightarrow>
          if x \<noteq> y then Some (char_difference x y) else if x = 0 then Some 0 else strncmp m (a + 1) (b + 1) n
      | _ \<Rightarrow> None)"

text \<open>The source may overlap the destination: then the loop may not meet the terminator before the end of memory.\<close>

function strcpy_from :: "bytes \<Rightarrow> nat \<Rightarrow> nat \<Rightarrow> bytes option" where
  "strcpy_from m dest src =
     (case rd m src of
        None \<Rightarrow> None
      | Some c \<Rightarrow>
          if c \<noteq> 0 then (case wr m dest c of None \<Rightarrow> None | Some m \<Rightarrow> strcpy_from m (dest + 1) (src + 1))
          else wr m dest 0)"
  by auto
termination
  by (relation "measure (\<lambda>(m, dest, src). length m - src)") (auto dest!: rd_SomeD wr_SomeD)

declare strcpy_from.simps [simp del]

definition strcpy :: "bytes \<Rightarrow> nat \<Rightarrow> nat \<Rightarrow> (nat \<times> bytes) option" where
  "strcpy m dest src = map_option (Pair dest) (strcpy_from m dest src)"

definition memcpy :: "bytes \<Rightarrow> nat \<Rightarrow> nat \<Rightarrow> nat \<Rightarrow> (nat \<times> bytes) option" where
  "memcpy m dest src count =
     map_option (Pair dest)
       (for_each (\<lambda>i m. case rd m (src + i) of None \<Rightarrow> None | Some c \<Rightarrow> wr m (dest + i) c) [0..<count] m)"

definition memset :: "bytes \<Rightarrow> nat \<Rightarrow> int \<Rightarrow> nat \<Rightarrow> (nat \<times> bytes) option" where
  "memset m dest v count = map_option (Pair dest) (for_each (\<lambda>i m. wr m (dest + i) (of_int v)) [0..<count] m)"

section \<open>What they compute\<close>

text \<open>The string at a pointer.\<close>

definition string_at :: "bytes \<Rightarrow> nat \<Rightarrow> bytes \<Rightarrow> bool" where
  "string_at m p t \<longleftrightarrow> 0 \<notin> set t \<and> chunk m p (length t + 1) = Some (t @ [0])"

lemma string_at_Nil: "string_at m p [] \<longleftrightarrow> rd m p = Some 0"
  by (auto simp: string_at_def chunk_def rd_def take_Suc_conv_app_nth)

lemma string_at_Cons: "string_at m p (c # t) \<longleftrightarrow> c \<noteq> 0 \<and> rd m p = Some c \<and> string_at m (Suc p) t"
  by (auto simp: string_at_def chunk_def rd_def Cons_nth_drop_Suc [symmetric])

lemma strlen_string: "string_at m p t \<Longrightarrow> strlen m p = Some (length t)"
proof -
  have "string_at m p t \<Longrightarrow> strlen_from m p = Some (length t)" for p
    by (induction t arbitrary: p) (auto simp: string_at_Nil string_at_Cons strlen_from.simps)
  then show "string_at m p t \<Longrightarrow> ?thesis" by (simp add: strlen_def)
qed

text \<open>Comparison is the order of the first difference, with the terminator as a character.\<close>

fun compare_text :: "bytes \<Rightarrow> bytes \<Rightarrow> int" where
  "compare_text (x # t) (y # u) = (if x = y then compare_text t u else char_difference x y)"
| "compare_text [] u = char_difference 0 (hd (u @ [0]))"
| "compare_text (x # t) [] = char_difference x 0"

lemma char_difference_zero [simp]: "char_difference x y = 0 \<longleftrightarrow> x = y"
  by (auto simp: char_difference_def intro: signed_word_eqI)

lemma strcmp_string:
  assumes "string_at m a t" "string_at m b u"
  shows "strcmp m a b = Some (compare_text t u)"
  using assms
proof (induction t u arbitrary: a b rule: compare_text.induct)
  case (1 x t y u)
  then show ?case by (subst strcmp.simps) (auto simp: string_at_Cons)
next
  case (2 u)
  then show ?case by (subst strcmp.simps) (cases u; auto simp: string_at_Cons string_at_Nil)
next
  case (3 x t)
  then show ?case by (subst strcmp.simps) (auto simp: string_at_Cons string_at_Nil)
qed

lemma compare_text_zero: "0 \<notin> set t \<Longrightarrow> 0 \<notin> set u \<Longrightarrow> compare_text t u = 0 \<longleftrightarrow> t = u"
proof (induction t u rule: compare_text.induct)
  case (2 u)
  then show ?case by (cases u) auto
next
  case (3 x t)
  then show ?case by auto
qed auto

lemma strncmp_string:
  assumes "string_at m a t" "string_at m b u"
  shows "strncmp m a b n = Some (compare_text (take n t) (take n u))"
  using assms
proof (induction m a b n arbitrary: t u rule: strncmp.induct)
  case (2 m a b n)
  show ?case
  proof (cases t)
    case Nil
    then show ?thesis using 2 by (cases u) (auto simp: string_at_Cons string_at_Nil)
  next
    case (Cons x xs)
    then show ?thesis using 2 by (cases u) (auto simp: string_at_Cons string_at_Nil)
  qed
qed simp

text \<open>Copies onto other cells.\<close>

lemma memcpy_blit:
  assumes "src + n \<le> length m" "dest + n \<le> length m" "dest \<le> src \<or> src + n \<le> dest"
  shows "memcpy m dest src n = Some (dest, take dest m @ take n (drop src m) @ drop (dest + n) m)"
proof -
  have "for_each (\<lambda>i m. case rd m (src + i) of None \<Rightarrow> None | Some c \<Rightarrow> wr m (dest + i) c) [0..<n] m
      = Some (take dest m @ take n (drop src m) @ drop (dest + n) m)"
    using assms
  proof (induction n)
    case (Suc n)
    let ?m = "take dest m @ take n (drop src m) @ drop (dest + n) m"
    have "length ?m = length m" "?m ! (src + n) = m ! (src + n)"
      using Suc.prems by (auto simp: nth_append min_def intro!: arg_cong [where f = "(!) m"])
    moreover have "?m[dest + n := m ! (src + n)] = take dest m @ take (Suc n) (drop src m) @ drop (dest + Suc n) m"
      using Suc.prems
      by (intro nth_equalityI) (auto simp: nth_append nth_list_update min_def intro!: arg_cong [where f = "(!) m"])
    ultimately show ?case using Suc by (auto simp: for_each_append rd_in wr_in)
  qed simp
  then show ?thesis by (simp add: memcpy_def)
qed

lemma memset_fill:
  assumes "dest + n \<le> length m"
  shows "memset m dest v n = Some (dest, take dest m @ replicate n (of_int v) @ drop (dest + n) m)"
proof -
  have "for_each (\<lambda>i m. wr m (dest + i) (of_int v)) [0..<n] m = Some (take dest m @ replicate n (of_int v) @ drop (dest + n) m)"
    using assms
  proof (induction n)
    case (Suc n)
    then show ?case
      by (auto simp: for_each_append wr_in intro!: nth_equalityI)
        (auto simp: nth_append nth_list_update nth_Cons' min_def)
  qed simp
  then show ?thesis by (simp add: memset_def)
qed

lemma strcpy_copies:
  assumes "string_at m src t" "dest + length t < length m" "dest + length t < src \<or> src + length t < dest"
  shows "strcpy m dest src = Some (dest, take dest m @ t @ 0 # drop (dest + length t + 1) m)"
proof -
  have "strcpy_from m dest src = Some (take dest m @ t @ 0 # drop (dest + length t + 1) m)"
    using assms
  proof (induction t arbitrary: m dest src)
    case Nil
    then show ?case by (subst strcpy_from.simps) (auto simp: string_at_Nil wr_in upd_conv_take_nth_drop)
  next
    case (Cons c t)
    let ?m = "m[dest := c]"
    have "string_at ?m (Suc src) t"
    proof -
      have "chunk ?m (Suc src) (length t + 1) = chunk m (Suc src) (length t + 1)"
        using Cons.prems(3) by (simp add: chunk_def drop_update_swap take_update_swap) (auto simp: list_eq_iff_nth_eq nth_list_update)
      then show ?thesis using Cons.prems(1) by (simp add: string_at_Cons) (simp add: string_at_def)
    qed
    then have "strcpy_from ?m (Suc dest) (Suc src) = Some (take (Suc dest) ?m @ t @ 0 # drop (Suc dest + length t + 1) ?m)"
      using Cons.prems(2,3) by (intro Cons.IH) auto
    then show ?case using Cons.prems by (subst strcpy_from.simps) (auto simp: string_at_Cons wr_in take_Suc_conv_app_nth)
  qed
  then show ?thesis by (simp add: strcpy_def)
qed

end
