(* ===== verification/Spec2Isabelle.thy ===== *)
theory Spec2Isabelle
  imports Bcvm_Heap App_Loader Vfs_Path Sha256 Clipboard Pmm_Alloc Paging Fat32_Limits Fat32_Format
    Partition_Create Vfs Dhcp_Lease Http_Parse Http_Overrun Package_Disk
    Shell_Claims App_Manager Cstring
begin

text \<open>
  PrismOS is a 32-bit hobby kernel in C: console, keyboard and serial drivers, a FAT32 file system, a
  network stack, and an application platform whose programs are written in PrismCC, compiled to
  BCVM bytecode and run by a virtual machine inside the kernel. This library models the parts with
  logic of their own and proves what makes them correct. Paths below are relative to \<open>src/src\<close>.

  Theories.
    \<^item> \<open>Prelude\<close>: machine words, checked array access (\<open>None\<close> is an access outside the array), byte codecs.
    \<^item> \<open>Fifo\<close>: ring arithmetic and the bounded-queue contract as the locale \<open>bounded_fifo\<close>, with what a
      client sees of pushes and pops. \<open>Ringbuf\<close> (\<open>util/ringbuf.c\<close>) and the event queue of \<open>Keyboard\<close>
      are its two providers.
    \<^item> \<open>Comport\<close> (\<open>comport/comport.c\<close>): the serial port over the byte ring.
    \<^item> \<open>Keyboard\<close> (\<open>input/keyboard.c\<close>): scancodes to key events.
    \<^item> \<open>Console\<close> (\<open>display/console.c\<close>): the text console; drawing is a trace of framebuffer operations. Its cells
      refine an abstract terminal (\<open>tty\<close>), scrolling included.
    \<^item> \<open>Driver_Api\<close> (\<open>drivers/driver_api.c\<close>): the services a driver program may call.
    \<^item> \<open>Bcvm\<close>, \<open>Bcvm_Ops\<close> (\<open>apps/bytecode_vm.c\<close>, \<open>apps/app_format.h\<close>): the virtual machine, its static
      state as the record \<open>vm\<close>, one definition per opcode, the dispatch table and the run loop.
      \<open>Bcvm_Safety\<close> proves the invariant \<open>vm_ok\<close> of every instruction, \<open>Bcvm_Run\<close> memory safety and
      termination of whole runs and the one fault left, \<open>Bcvm_Heap\<close> the string and array heaps against
      their abstraction.
    \<^item> \<open>Prismcc\<close> (\<open>tools/prismcc.c\<close>): the host compiler. \<open>Prismcc_Total\<close> shows that it returns on every source,
      \<open>Prismcc_Expr\<close> that it parses expressions by precedence, variables and parentheses included,
      \<open>Prismcc_Exec\<close> that the machine runs the code of a constant expression to its value, and that locals are
      broken.
    \<^item> \<open>App_Loader\<close> (\<open>apps/app_loader.c\<close>, \<open>apps/app_runtime.c\<close>): from an application file to its program,
      and the whole chain from the compiler to the machine.
    \<^item> \<open>App_Manager\<close> (\<open>apps/app_manager.c\<close>): built-in packages, and running an application by its path.
    \<^item> \<open>Shell\<close> (\<open>shell/shell.c\<close>): the line editor, its lines as arrays of 97 cells. \<open>Shell_Edit\<close> states the editor on
      lists (\<open>editor\<close>) and what the arrays show of it (\<open>displays\<close>), \<open>Shell_Keys\<close> refines every key to it, drawing and
      clipboard included, and \<open>Shell_Claims\<close> adds the way through the history and the keys that leave the buffer.
    \<^item> \<open>Cstring\<close> (\<open>util/string.c\<close>): the string routines over a memory of bytes.
    \<^item> \<open>Vfs_Path\<close>, \<open>Vfs\<close> (\<open>filesystem/vfs.c\<close>): path normalisation, and the calls handed over to FAT32, whose
      scanner accepts every normalised path.
    \<^item> \<open>Pmm\<close> (\<open>memory/pmm.c\<close>): the page-frame allocator; \<open>Pmm_Frames\<close> shows what initialisation frees and
      the invariant \<open>pmm_ok\<close>, \<open>Pmm_Alloc\<close> refines allocation and release to the set of free frames.
    \<^item> \<open>Paging\<close> (\<open>memory/paging.c\<close>): page tables and the identity map of the boot.
    \<^item> \<open>Sha256\<close>, \<open>Clipboard\<close> (\<open>util/sha256.c\<close>, \<open>util/clipboard.c\<close>): the streaming digest against
      FIPS 180-4, and the clipboard with its base64 sequence on the serial line.
    \<^item> \<open>Fat32\<close>, \<open>Fat32_Volume\<close> (\<open>filesystem/fat32/fat32.c\<close>): the file system over a sector device that is an
      argument; a call returns a value, -1, or does not return (\<open>Done\<close>, \<open>Failed\<close>, \<open>Hung\<close>), with the device after
      it. \<open>Fat32_Disk\<close> states the contract of the device as the locale \<open>block_device\<close> and the rules for calls on it;
      \<open>Fat32_Table\<close>, \<open>Fat32_Chain\<close>, \<open>Fat32_File\<close> and \<open>Fat32_Dir\<close> refine the allocation table, cluster chains, file
      contents and directory look-up to functions of the sectors; \<open>Fat32_Calls\<close> and \<open>Fat32_Contract\<close> put them together
      to what creating, overwriting, appending and removing a file do, \<open>Fat32_Limits\<close> to what happens beyond 4096
      clusters, and \<open>Fat32_Format\<close> to formatting followed by mounting.
    \<^item> \<open>Blockdev\<close> (\<open>filesystem/blockdev.c\<close>): the ATA driver over port operations. The locale \<open>ata_drive\<close> states the
      PIO protocol of the controller, together with what the driver needs beyond it: that a busy drive drops a
      command, since FLUSH CACHE is sent without waiting. \<open>Blockdev_Volume\<close> shows that such a drive gives a
      \<open>block_device\<close>, interprets it on a simulated controller, shows that the flush is lost on it, and bounds every
      request by the partition.
    \<^item> \<open>Partition\<close> (\<open>filesystem/partition_manager.c\<close>): the partition table, over the block device.
      \<open>Partition_Create\<close> shows that creating a partition takes the first gap and keeps the table sound.
    \<^item> \<open>Net_Base\<close>, \<open>Net\<close>, \<open>Udp\<close>, \<open>Tcp\<close>, \<open>Dns\<close>, \<open>Dhcp\<close>, \<open>Http\<close>, \<open>Network\<close> (the files of \<open>net\<close>): checksums; frames, ARP
      and IPv4; UDP and ICMP; one TCP connection; the resolver; the DHCP client; HTTP GET; the stack put together.
      Each layer's state extends the record of the layer below. What the card accepts (\<open>card\<close>), what it has sent
      (\<open>sent\<close>) and what will arrive (\<open>arrivals\<close>) are fields; a call that waits takes the poll as an argument, and
      \<open>None\<close> is a wait that does not end. \<open>Net_Delivery\<close> follows a segment from one machine to the other,
      \<open>Tcp_Stream\<close> shows that the bytes read are a prefix of those sent, \<open>Http_Parse\<close> and \<open>Http_Overrun\<close> what the
      HTTP client does with responses, \<open>Dhcp_Lease\<close> that a lease under renewal never ends.
    \<^item> \<open>Package_Manager\<close>, \<open>Package_Install\<close>, \<open>Package_List\<close> (\<open>apps/package_manager.c\<close>): catalog, manifests, installer,
      registry and listing, over an HTTP client and file calls that are arguments (\<open>repository_get\<close> and \<open>vfs_calls\<close>
      are the system's). \<open>Package_Facts\<close> takes results apart, \<open>Package_Verified\<close> keeps the tables well formed,
      \<open>Package_Registry\<close> follows what is written to the disk, \<open>Package_Sample\<close> installs a package, and
      \<open>Package_Claims\<close> holds what follows for the package manager as a whole. \<open>Package_Disk\<close> shows for a FAT32
      volume what these say of the registry on the disk.

  Conventions. A C array is a list with checked access, a C string the bytes before its terminator.
  Sizes and indices are naturals with 16- and 32-bit wrap-around written out (\<open>add32\<close>, \<open>sub32\<close>,
  \<open>add16\<close>); \<open>int32_t\<close> cells are 32-bit words read with \<open>sint\<close>, and signed overflow wraps as the
  compiled code does. What interrupts and ports deliver is an argument or a list of inputs.
  Loops that may not end carry fuel: \<open>bytecode_vm_run\<close> takes the number of loop turns, and 200000 turns are
  enough for any program that stays out of fullscreen and driver mode; the parser of \<open>Prismcc\<close> needs 6 per
  source byte, plus 5. A volume has at most 268435456 sectors (the LBA28 limit), and a chain is followed for at
  most 4096 clusters where the code counts them.

  Not modelled: pixel stores and glyphs, log output, interrupt and descriptor tables, port waiting, the
  registers of the network card, datagrams whose 16-bit length wraps (65528 bytes of payload or more), and
  the user interfaces of the applications, the command interpreter and the compiler inside the kernel: their
  services are modelled in the components they call.
\<close>

end
